(* ===== verification/Prelude.thy ===== *)
theory Prelude
  imports Main "HOL-Library.Sublist"
begin

section \<open>Strings, arrays and numbers as the TypeScript code uses them\<close>

text \<open>
  The vocabulary every component shares: the JavaScript string and array operations the
  sources call (\<open>trim\<close>, \<open>slice\<close>, \<open>startsWith\<close>, \<open>split\<close>, \<open>join\<close>, \<open>find\<close>), truthiness of
  optional strings and numbers, and the generic list lemmas the component proofs rest on.
  A string is a list of characters, so a position counts characters; the case mappings are
  those of ASCII letters and leave every other character alone.
\<close>

named_theorems js_simps \<open>evaluation rules of the shared string and array operations\<close>

subsection \<open>Characters\<close>

definition js_ws :: "char \<Rightarrow> bool" where
  "js_ws c \<longleftrightarrow> c \<in> {CHR 0x09, CHR 0x0A, CHR 0x0B, CHR 0x0C, CHR 0x0D, CHR '' '', CHR 0xA0}"

definition is_digit :: "char \<Rightarrow> bool" where
  "is_digit c \<longleftrightarrow> c \<in> set ''0123456789''"

definition is_lower :: "char \<Rightarrow> bool" where
  "is_lower c \<longleftrightarrow> 97 \<le> (of_char c :: nat) \<and> (of_char c :: nat) \<le> 122"

definition is_upper :: "char \<Rightarrow> bool" where
  "is_upper c \<longleftrightarrow> 65 \<le> (of_char c :: nat) \<and> (of_char c :: nat) \<le> 90"

definition is_alpha :: "char \<Rightarrow> bool" where
  "is_alpha c \<longleftrightarrow> is_lower c \<or> is_upper c"

definition lower_char :: "char \<Rightarrow> char" where
  "lower_char c = (if is_upper c then char_of ((of_char c :: nat) + 32) else c)"

definition upper_char :: "char \<Rightarrow> char" where
  "upper_char c = (if is_lower c then char_of ((of_char c :: nat) - 32) else c)"

text \<open>The same on the bits of a character, for evaluation.\<close>

lemma is_lower_Char [simp, code]:
  "is_lower (Char b0 b1 b2 b3 b4 b5 b6 b7) \<longleftrightarrow>
     b6 \<and> b5 \<and> \<not> b7 \<and> (b0 \<or> b1 \<or> b2 \<or> b3 \<or> b4) \<and> \<not> (b4 \<and> b3 \<and> (b2 \<or> (b1 \<and> b0)))"
  by (cases b0; cases b1; cases b2; cases b3; cases b4; cases b5; cases b6; cases b7)
    (simp_all add: is_lower_def of_char_def)

lemma is_upper_Char [simp, code]:
  "is_upper (Char b0 b1 b2 b3 b4 b5 b6 b7) \<longleftrightarrow>
     b6 \<and> \<not> b5 \<and> \<not> b7 \<and> (b0 \<or> b1 \<or> b2 \<or> b3 \<or> b4) \<and> \<not> (b4 \<and> b3 \<and> (b2 \<or> (b1 \<and> b0)))"
  by (cases b0; cases b1; cases b2; cases b3; cases b4; cases b5; cases b6; cases b7)
    (simp_all add: is_upper_def of_char_def)

lemma is_digit_Char [simp, code]:
  "is_digit (Char b0 b1 b2 b3 b4 b5 b6 b7) \<longleftrightarrow>
     b4 \<and> b5 \<and> \<not> b6 \<and> \<not> b7 \<and> \<not> (b3 \<and> (b1 \<or> b2))"
  by (cases b0; cases b1; cases b2; cases b3; cases b4; cases b5; cases b6; cases b7)
    (simp_all add: is_digit_def)

lemma lower_char_Char [simp, code]:
  "lower_char (Char b0 b1 b2 b3 b4 b5 b6 b7) =
     (if is_upper (Char b0 b1 b2 b3 b4 b5 b6 b7) then Char b0 b1 b2 b3 b4 True b6 b7
      else Char b0 b1 b2 b3 b4 b5 b6 b7)"
  by (cases b0; cases b1; cases b2; cases b3; cases b4; cases b5; cases b6; cases b7)
    (simp_all add: lower_char_def of_char_def char_of_def bit_0)

lemma upper_char_Char [simp, code]:
  "upper_char (Char b0 b1 b2 b3 b4 b5 b6 b7) =
     (if is_lower (Char b0 b1 b2 b3 b4 b5 b6 b7) then Char b0 b1 b2 b3 b4 False b6 b7
      else Char b0 b1 b2 b3 b4 b5 b6 b7)"
  by (cases b0; cases b1; cases b2; cases b3; cases b4; cases b5; cases b6; cases b7)
    (simp_all add: upper_char_def of_char_def char_of_def bit_0)

abbreviation run_length :: "(char \<Rightarrow> bool) \<Rightarrow> string \<Rightarrow> nat" where
  "run_length p s \<equiv> length (takeWhile p s)"

subsection \<open>Strings\<close>

definition js_trim_start :: "string \<Rightarrow> string" where
  "js_trim_start s = dropWhile js_ws s"

definition js_trim :: "string \<Rightarrow> string" where
  "js_trim s = rev (dropWhile js_ws (rev (dropWhile js_ws s)))"

definition to_lower :: "string \<Rightarrow> string" where
  "to_lower s = map lower_char s"

definition to_upper :: "string \<Rightarrow> string" where
  "to_upper s = map upper_char s"

definition starts_with :: "string \<Rightarrow> string \<Rightarrow> bool" where
  "starts_with p s \<longleftrightarrow> take (length p) s = p"

definition ends_with :: "string \<Rightarrow> string \<Rightarrow> bool" where
  "ends_with p s \<longleftrightarrow> length p \<le> length s \<and> drop (length s - length p) s = p"

text \<open>\<open>s.includes(p)\<close> of a string.\<close>

fun str_includes :: "string \<Rightarrow> string \<Rightarrow> bool" where
  "str_includes p [] = (p = [])"
| "str_includes p (c # cs) = (starts_with p (c # cs) \<or> str_includes p cs)"

text \<open>
  \<open>s.slice(i, j)\<close> and \<open>s.substring(i, j)\<close> for positions with \<open>0 \<le> i \<le> j\<close>, where the two
  agree; the positions are integers, as the code's are.
\<close>

definition js_slice :: "string \<Rightarrow> int \<Rightarrow> int \<Rightarrow> string" where
  "js_slice s i j = take (nat j - nat i) (drop (nat i) s)"

definition js_slice_from :: "string \<Rightarrow> int \<Rightarrow> string" where
  "js_slice_from s i = drop (nat i) s"

text \<open>\<open>xs[i]\<close>, which is \<open>undefined\<close> out of range.\<close>

definition js_nth :: "'a list \<Rightarrow> int \<Rightarrow> 'a option" where
  "js_nth xs i = (if 0 \<le> i \<and> nat i < length xs then Some (xs ! nat i) else None)"

fun js_join :: "string \<Rightarrow> string list \<Rightarrow> string" where
  "js_join sep [] = []"
| "js_join sep [x] = x"
| "js_join sep (x # y # xs) = x @ sep @ js_join sep (y # xs)"

text \<open>\<open>s.split(c)\<close> for a one-character separator; the empty string splits into \<open>['']\<close>.\<close>

fun js_split :: "char \<Rightarrow> string \<Rightarrow> string list" where
  "js_split sep [] = [[]]"
| "js_split sep (c # cs) =
     (if c = sep then [] # js_split sep cs
      else (case js_split sep cs of [] \<Rightarrow> [[c]] | w # ws \<Rightarrow> (c # w) # ws))"

text \<open>\<open>s.replace(/c/g, r)\<close> for a single character \<open>c\<close>.\<close>

definition replace_char :: "char \<Rightarrow> string \<Rightarrow> string \<Rightarrow> string" where
  "replace_char c r s = concat (map (\<lambda>d. if d = c then r else [d]) s)"

subsection \<open>Arrays\<close>

fun js_find :: "('a \<Rightarrow> bool) \<Rightarrow> 'a list \<Rightarrow> 'a option" where
  "js_find p [] = None"
| "js_find p (x # xs) = (if p x then Some x else js_find p xs)"

definition js_last :: "'a list \<Rightarrow> 'a option" where
  "js_last xs = (if xs = [] then None else Some (last xs))"

text \<open>\<open>m.set(k, v)\<close> of a \<open>Map\<close>, and \<open>m[k] = v\<close> of an object: an association list in insertion order.\<close>

fun map_set :: "'k \<Rightarrow> 'v \<Rightarrow> ('k \<times> 'v) list \<Rightarrow> ('k \<times> 'v) list" where
  "map_set k v [] = [(k, v)]"
| "map_set k v ((k', v') # m) = (if k' = k then (k, v) # m else (k', v') # map_set k v m)"

lemma map_of_map_set [simp]: "map_of (map_set k v m) = (map_of m)(k \<mapsto> v)"
  by (induction k v m rule: map_set.induct) auto

lemma dom_map_set: "fst ` set (map_set k v m) = insert k (fst ` set m)"
  by (induction k v m rule: map_set.induct) auto

lemma distinct_map_set: "distinct (map fst m) \<Longrightarrow> distinct (map fst (map_set k v m))"
  by (induction k v m rule: map_set.induct) (auto simp: dom_map_set)

lemma map_set_new: "k \<notin> fst ` set m \<Longrightarrow> map_set k v m = m @ [(k, v)]"
  by (induction m) auto

lemma fold_map_set_entries:
  "distinct (map fst es) \<Longrightarrow> fst ` set es \<inter> fst ` set m = {} \<Longrightarrow>
     fold (\<lambda>(k, v) m. map_set k (f v) m) es m = m @ map (\<lambda>(k, v). (k, f v)) es"
proof (induction es arbitrary: m)
  case (Cons e es)
  obtain k v where e: "e = (k, v)" by (cases e)
  have "fold (\<lambda>(k, v) m. map_set k (f v) m) es (m @ [(k, f v)]) = (m @ [(k, f v)]) @ map (\<lambda>(k, v). (k, f v)) es"
    using Cons.prems by (intro Cons.IH) (auto simp: e)
  moreover have "k \<notin> fst ` set m" using Cons.prems(2) by (auto simp: e)
  ultimately show ?case by (simp add: e map_set_new)
qed simp

subsection \<open>Truthiness\<close>

text \<open>\<open>a || b\<close> on an optional number: zero and \<open>undefined\<close> are falsy.\<close>

definition or_num :: "int option \<Rightarrow> int option \<Rightarrow> int option" where
  "or_num a b = (case a of Some n \<Rightarrow> (if n \<noteq> 0 then a else b) | None \<Rightarrow> b)"

definition num_or :: "int option \<Rightarrow> int \<Rightarrow> int" where
  "num_or a d = (case a of Some n \<Rightarrow> (if n \<noteq> 0 then n else d) | None \<Rightarrow> d)"

definition truthy_num :: "int option \<Rightarrow> bool" where
  "truthy_num a = (case a of Some n \<Rightarrow> n \<noteq> 0 | None \<Rightarrow> False)"

definition truthy_str :: "string option \<Rightarrow> bool" where
  "truthy_str a = (case a of Some s \<Rightarrow> s \<noteq> [] | None \<Rightarrow> False)"

definition str_or :: "string option \<Rightarrow> string \<Rightarrow> string" where
  "str_or a d = (case a of Some s \<Rightarrow> (if s \<noteq> [] then s else d) | None \<Rightarrow> d)"

subsection \<open>Lemmas\<close>

lemma includes_iff_sublist: "str_includes p s \<longleftrightarrow> sublist p s"
proof (induction s)
  case Nil
  show ?case by simp
next
  case (Cons c cs)
  have "starts_with p (c # cs) \<longleftrightarrow> prefix p (c # cs)"
    by (metis append_eq_conv_conj append_take_drop_id prefix_def starts_with_def)
  with Cons.IH show ?case by (simp add: sublist_Cons_right)
qed

lemma starts_with_append [simp, js_simps]: "starts_with p (p @ s)"
  by (simp add: starts_with_def)

lemma starts_with_iff: "starts_with p s \<longleftrightarrow> (\<exists>t. s = p @ t)"
  by (metis append_eq_conv_conj append_take_drop_id starts_with_def)

lemma length_js_slice: "0 \<le> i \<Longrightarrow> i \<le> j \<Longrightarrow> nat j \<le> length s \<Longrightarrow> length (js_slice s i j) = nat (j - i)"
  by (simp add: js_slice_def nat_diff_distrib)

lemma js_slice_append_mid:
  "i = int (length a) \<Longrightarrow> j = int (length a + length b) \<Longrightarrow> js_slice (a @ b @ c) i j = b"
  by (simp add: js_slice_def)

lemma js_find_Some: "js_find p xs = Some x \<Longrightarrow> x \<in> set xs \<and> p x"
  by (induction xs) (auto split: if_splits)

lemma js_find_None: "js_find p xs = None \<longleftrightarrow> (\<forall>x\<in>set xs. \<not> p x)"
  by (induction xs) auto

lemma to_lower_append [simp]: "to_lower (a @ b) = to_lower a @ to_lower b"
  by (simp add: to_lower_def)

lemma to_upper_append [simp]: "to_upper (a @ b) = to_upper a @ to_upper b"
  by (simp add: to_upper_def)

lemma length_to_upper [simp]: "length (to_upper s) = length s"
  by (simp add: to_upper_def)

lemma length_to_lower [simp]: "length (to_lower s) = length s"
  by (simp add: to_lower_def)

lemma to_upper_eq_Nil [simp]: "to_upper s = [] \<longleftrightarrow> s = []"
  by (simp add: to_upper_def)

lemma length_dropWhile_less [termination_simp]:
  "length (dropWhile p xs) < Suc (length xs)" "length (dropWhile p xs) < Suc (Suc (length xs))"
  using length_dropWhile_le [of p xs] by simp_all

text \<open>Trimming: the result has no white space at either end and is idempotent.\<close>

lemma dropWhile_ends: "dropWhile p xs = [] \<or> \<not> p (hd (dropWhile p xs))"
  by (induction xs) auto

lemma dropWhile_id: "xs = [] \<or> \<not> p (hd xs) \<Longrightarrow> dropWhile p xs = xs"
  by (cases xs) auto

lemma last_rev_dropWhile: "xs \<noteq> [] \<Longrightarrow> \<not> p (last xs) \<Longrightarrow> dropWhile p xs \<noteq> [] \<and> last (dropWhile p xs) = last xs"
  by (induction xs) (auto split: if_splits)

lemma js_trim_fixpoint:
  "s = [] \<or> (\<not> js_ws (hd s) \<and> \<not> js_ws (last s)) \<Longrightarrow> js_trim s = s"
  by (auto simp: js_trim_def dropWhile_id hd_rev)

lemma js_trim_ends:
  "js_trim s = [] \<or> (\<not> js_ws (hd (js_trim s)) \<and> \<not> js_ws (last (js_trim s)))"
proof -
  define a where "a = dropWhile js_ws s"
  define b where "b = dropWhile js_ws (rev a)"
  have t: "js_trim s = rev b" by (simp add: js_trim_def a_def b_def)
  show ?thesis
  proof (cases "b = []")
    case True
    with t show ?thesis by simp
  next
    case False
    have 1: "\<not> js_ws (hd b)" using False dropWhile_ends [of js_ws "rev a"] unfolding b_def by blast
    have "a \<noteq> []" using False by (auto simp: b_def)
    then have "\<not> js_ws (last (rev a))" using dropWhile_ends [of js_ws s]
      unfolding a_def last_rev by blast
    then have "last b = last (rev a)" using last_rev_dropWhile [of "rev a" js_ws] \<open>a \<noteq> []\<close> by (simp add: b_def)
    with 1 t False \<open>\<not> js_ws (last (rev a))\<close> show ?thesis by (simp add: hd_rev last_rev)
  qed
qed

lemma js_trim_idem [simp]: "js_trim (js_trim s) = js_trim s"
  by (rule js_trim_fixpoint) (use js_trim_ends [of s] in auto)

lemma js_trim_Nil [simp]: "js_trim [] = []"
  by (simp add: js_trim_def)

lemma js_trim_eq_Nil: "js_trim s = [] \<longleftrightarrow> (\<forall>c\<in>set s. js_ws c)"
proof
  assume "js_trim s = []"
  then have "\<forall>c\<in>set (dropWhile js_ws s). js_ws c" by (simp add: js_trim_def)
  then have "dropWhile js_ws s = []" using dropWhile_ends [of js_ws s] by (metis list.set_sel(1))
  then show "\<forall>c\<in>set s. js_ws c" by simp
next
  assume "\<forall>c\<in>set s. js_ws c"
  then have "dropWhile js_ws s = []" by simp
  then show "js_trim s = []" by (metis dropWhile.simps(1) js_trim_def rev.simps(1))
qed

lemma js_split_not_Nil [simp]: "js_split c s \<noteq> []"
  by (cases s) (auto split: list.splits)

lemma js_join_split: "js_join [c] (js_split c s) = s"
proof (induction s)
  case Nil
  show ?case by simp
next
  case (Cons d s)
  obtain w ws where sp: "js_split c s = w # ws" by (meson js_split_not_Nil neq_Nil_conv)
  show ?case
  proof (cases "d = c")
    case True
    with Cons.IH sp show ?thesis by (cases ws) auto
  next
    case False
    with Cons.IH sp show ?thesis by (cases ws) auto
  qed
qed

lemma js_join_Cons: "xs \<noteq> [] \<Longrightarrow> js_join sep (x # xs) = x @ sep @ js_join sep xs"
  by (cases xs) auto

end
