(* ===== verification/Lite_Formula.thy ===== *)
theory Lite_Formula
  imports Prelude
begin

section \<open>Formulas of the lightweight query builder\<close>

text \<open>
  The tokenizer and the syntax check of arithmetic formulas in \<open>capabilities.ts\<close>: a
  machine with two components, whether an operand is expected and how many parentheses are
  open, that reads one token at a time and may look at the next one. The reference is an
  inductive grammar of arithmetic expressions over the same tokens.
\<close>

subsection \<open>Tokens\<close>

datatype formula_type = F_identifier | F_number | F_operator | F_leftParen | F_rightParen

record formula_token =
  ft_type :: formula_type
  ft_value :: string

definition is_word_char :: "char \<Rightarrow> bool" where
  "is_word_char c \<longleftrightarrow> is_alpha c \<or> is_digit c \<or> c = CHR ''_''"

text \<open>The lengths of the matches of \<open>/^[A-Za-z][A-Za-z0-9_]*/\<close> and of \<open>/^(?:\d+(?:\.\d*)?|\.\d+)/\<close>.\<close>

definition identifier_length :: "string \<Rightarrow> nat" where
  "identifier_length s = (case s of [] \<Rightarrow> 0 | c # r \<Rightarrow> if is_alpha c then 1 + run_length is_word_char r else 0)"

definition dot_digits :: "string \<Rightarrow> nat" where
  "dot_digits s = (case s of [] \<Rightarrow> 0 | c # r \<Rightarrow> if c = CHR ''.'' then 1 + run_length is_digit r else 0)"

definition number_length :: "string \<Rightarrow> nat" where
  "number_length s =
     (let d = run_length is_digit s
      in if 0 < d then d + dot_digits (drop d s)
         else if 1 < dot_digits s then dot_digits s else 0)"

definition single_token :: "char \<Rightarrow> formula_token option" where
  "single_token c =
     (if c \<in> set ''+-*/'' then Some \<lparr>ft_type = F_operator, ft_value = [c]\<rparr>
      else if c = CHR ''('' then Some \<lparr>ft_type = F_leftParen, ft_value = [c]\<rparr>
      else if c = CHR '')'' then Some \<lparr>ft_type = F_rightParen, ft_value = [c]\<rparr>
      else None)"

lemma number_length_le: "number_length s \<le> length s"
proof -
  have "dot_digits s \<le> length s" for s
    using length_takeWhile_le [of is_digit] by (auto simp: dot_digits_def split: list.splits)
  from this [of s] this [of "drop (run_length is_digit s) s"] length_takeWhile_le [of is_digit s]
  show ?thesis by (simp add: number_length_def Let_def) arith
qed

lemma identifier_length_le: "identifier_length s \<le> length s"
  using length_takeWhile_le [of is_word_char] by (auto simp: identifier_length_def split: list.splits)

text \<open>One round of the loop: white space, an identifier, a number or a single character.\<close>

function tokenizeLiteFormula :: "string \<Rightarrow> formula_token list option" where
  "tokenizeLiteFormula s =
     (if s = [] then Some []
      else if js_ws (hd s) then tokenizeLiteFormula (dropWhile js_ws s)
      else if 0 < identifier_length s then
        map_option (\<lambda>ts. \<lparr>ft_type = F_identifier, ft_value = take (identifier_length s) s\<rparr> # ts)
          (tokenizeLiteFormula (drop (identifier_length s) s))
      else if 0 < number_length s then
        map_option (\<lambda>ts. \<lparr>ft_type = F_number, ft_value = take (number_length s) s\<rparr> # ts)
          (tokenizeLiteFormula (drop (number_length s) s))
      else
        (case single_token (hd s) of
           None \<Rightarrow> None
         | Some tok \<Rightarrow> map_option (\<lambda>ts. tok # ts) (tokenizeLiteFormula (tl s))))"
  by pat_completeness auto
termination
proof (relation "measure length", goal_cases)
  case (2 s)
  then show ?case by (cases s) (auto intro: le_less_trans [OF length_dropWhile_le])
qed auto

declare tokenizeLiteFormula.simps [simp del]

subsection \<open>The syntax machine\<close>

record formula_syntax =
  expectsOperand :: bool
  parentheses :: nat

text \<open>
  \<open>Number(v) === 0\<close> for a literal of digits with at most one dot: every digit is zero. (A
  literal with more than 323 zeros after the dot, which the code's doubles underflow to 0,
  counts as non-zero here.)
\<close>

definition literal_is_zero :: "string \<Rightarrow> bool" where
  "literal_is_zero v \<longleftrightarrow> list_all (\<lambda>c. c = CHR ''0'' \<or> c = CHR ''.'') v"

definition zero_number :: "formula_token option \<Rightarrow> bool" where
  "zero_number nxt = (case nxt of None \<Rightarrow> False | Some t \<Rightarrow> ft_type t = F_number \<and> literal_is_zero (ft_value t))"

definition advanceFormulaSyntax ::
  "formula_syntax \<Rightarrow> formula_token \<Rightarrow> formula_token option \<Rightarrow> formula_syntax option" where
  "advanceFormulaSyntax st tok nxt =
     (if ft_type tok = F_identifier \<or> ft_type tok = F_number then
        (if expectsOperand st then Some (st\<lparr>expectsOperand := False\<rparr>) else None)
      else if ft_type tok = F_leftParen then
        (if expectsOperand st then Some \<lparr>expectsOperand = True, parentheses = parentheses st + 1\<rparr> else None)
      else if ft_type tok = F_rightParen then
        (if \<not> expectsOperand st \<and> 0 < parentheses st
         then Some \<lparr>expectsOperand = False, parentheses = parentheses st - 1\<rparr> else None)
      else
        (let dividesByLiteralZero = (ft_value tok = ''/'' \<and> zero_number nxt)
         in if \<not> expectsOperand st \<and> \<not> dividesByLiteralZero then Some (st\<lparr>expectsOperand := True\<rparr>) else None))"

fun run_formula_syntax :: "formula_syntax \<Rightarrow> formula_token list \<Rightarrow> formula_syntax option" where
  "run_formula_syntax st [] = Some st"
| "run_formula_syntax st (tok # toks) =
     (case advanceFormulaSyntax st tok (js_nth toks 0) of
        None \<Rightarrow> None
      | Some st' \<Rightarrow> run_formula_syntax st' toks)"

definition isLiteFormulaExpression :: "string \<Rightarrow> bool" where
  "isLiteFormulaExpression expression =
     (case tokenizeLiteFormula expression of
        None \<Rightarrow> False
      | Some toks \<Rightarrow>
          toks \<noteq> [] \<and>
          (case run_formula_syntax \<lparr>expectsOperand = True, parentheses = 0\<rparr> toks of
             None \<Rightarrow> False
           | Some st \<Rightarrow> \<not> expectsOperand st \<and> parentheses st = 0))"

subsection \<open>The grammar\<close>

text \<open>
  Operands, parenthesised expressions and two expressions joined by an operator, where a
  division is never directly followed by a literal zero.
\<close>

inductive lite_expr :: "formula_token list \<Rightarrow> bool" where
  operand: "ft_type t = F_identifier \<or> ft_type t = F_number \<Longrightarrow> lite_expr [t]"
| parens: "lite_expr es \<Longrightarrow> ft_type l = F_leftParen \<Longrightarrow> ft_type r = F_rightParen \<Longrightarrow> lite_expr (l # es @ [r])"
| binop: "lite_expr es \<Longrightarrow> lite_expr fs \<Longrightarrow> ft_type opt = F_operator \<Longrightarrow>
    \<not> (ft_value opt = ''/'' \<and> zero_number (Some (hd fs))) \<Longrightarrow> lite_expr (es @ opt # fs)"

lemma lite_expr_not_Nil: "lite_expr es \<Longrightarrow> es \<noteq> []"
  by (induction rule: lite_expr.induct) auto

text \<open>The machine from a given state to acceptance.\<close>

definition accepts_from :: "bool \<Rightarrow> nat \<Rightarrow> formula_token list \<Rightarrow> bool" where
  "accepts_from e d toks \<longleftrightarrow>
     run_formula_syntax \<lparr>expectsOperand = e, parentheses = d\<rparr> toks = Some \<lparr>expectsOperand = False, parentheses = 0\<rparr>"

lemma accepts_from_Nil: "accepts_from e d [] \<longleftrightarrow> \<not> e \<and> d = 0"
  by (auto simp: accepts_from_def)

lemma accepts_from_Cons:
  "accepts_from e d (t # ts) \<longleftrightarrow>
     (case ft_type t of
        F_identifier \<Rightarrow> e \<and> accepts_from False d ts
      | F_number \<Rightarrow> e \<and> accepts_from False d ts
      | F_leftParen \<Rightarrow> e \<and> accepts_from True (Suc d) ts
      | F_rightParen \<Rightarrow> \<not> e \<and> 0 < d \<and> accepts_from False (d - 1) ts
      | F_operator \<Rightarrow> \<not> e \<and> \<not> (ft_value t = ''/'' \<and> zero_number (js_nth ts 0)) \<and> accepts_from True d ts)"
  by (auto simp: accepts_from_def advanceFormulaSyntax_def Let_def split: formula_type.splits)

text \<open>An expression takes the machine from expecting an operand to having one.\<close>

lemma lite_expr_run:
  "lite_expr es \<Longrightarrow> accepts_from True d (es @ ts) \<longleftrightarrow> accepts_from False d ts"
proof (induction es arbitrary: d ts rule: lite_expr.induct)
  case (operand t)
  then show ?case by (auto simp: accepts_from_Cons)
next
  case (parens es l r)
  then show ?case by (simp add: accepts_from_Cons)
next
  case (binop es fs opt)
  have "js_nth (fs @ ts) 0 = Some (hd fs)"
    using lite_expr_not_Nil [OF binop.hyps(2)] by (cases fs) (auto simp: js_nth_def)
  with binop show ?case by (simp add: accepts_from_Cons)
qed

text \<open>
  And nothing else does: from a state that expects an operand, an accepted list starts with
  an expression, followed by the end or by a closing parenthesis.
\<close>

definition operator_first :: "formula_token list \<Rightarrow> bool" where
  "operator_first ts = (case ts of [] \<Rightarrow> False | t # _ \<Rightarrow> ft_type t = F_operator)"

lemma extend_expr:
  assumes "lite_expr es" "accepts_from False d ts"
    and "\<And>opt us. ts = opt # us \<Longrightarrow> accepts_from True d us \<Longrightarrow>
      \<exists>fs vs. us = fs @ vs \<and> lite_expr fs \<and> accepts_from False d vs \<and> \<not> operator_first vs"
  shows "\<exists>fs vs. es @ ts = fs @ vs \<and> lite_expr fs \<and> accepts_from False d vs \<and> \<not> operator_first vs"
proof (cases "operator_first ts")
  case False
  with assms show ?thesis by blast
next
  case True
  then obtain opt us where ts: "ts = opt # us" "ft_type opt = F_operator"
    by (auto simp: operator_first_def split: list.splits)
  with assms(2) have acc: "accepts_from True d us" "\<not> (ft_value opt = ''/'' \<and> zero_number (js_nth us 0))"
    by (auto simp: accepts_from_Cons)
  then obtain fs vs where f: "us = fs @ vs" "lite_expr fs" "accepts_from False d vs" "\<not> operator_first vs"
    using assms(3) ts(1) by blast
  have "js_nth us 0 = Some (hd fs)"
    using lite_expr_not_Nil [OF f(2)] f(1) by (cases fs) (auto simp: js_nth_def)
  then have "lite_expr (es @ opt # fs)" using assms(1) f(2) ts(2) acc(2) by (auto intro: binop)
  with f ts(1) show ?thesis by (intro exI [of _ "es @ opt # fs"] exI [of _ vs]) simp
qed

lemma accepts_expr:
  "accepts_from True d ts \<Longrightarrow>
     \<exists>es us. ts = es @ us \<and> lite_expr es \<and> accepts_from False d us \<and> \<not> operator_first us"
proof (induction "length ts" arbitrary: d ts rule: less_induct)
  case less
  then obtain t ts' where ts: "ts = t # ts'" by (cases ts) (auto simp: accepts_from_Nil)
  note step = less.prems [unfolded ts accepts_from_Cons]
  have IH: "\<exists>fs vs. us = fs @ vs \<and> lite_expr fs \<and> accepts_from False d' vs \<and> \<not> operator_first vs"
    if "length us < length ts" "accepts_from True d' us" for us d'
    using less.hyps that by blast
  show ?case
  proof (cases "ft_type t")
    case F_leftParen
    with step have "accepts_from True (Suc d) ts'" by simp
    with IH [of ts' "Suc d"] ts obtain es us where e: "ts' = es @ us" "lite_expr es"
      "accepts_from False (Suc d) us" "\<not> operator_first us" by auto
    then obtain r us' where us: "us = r # us'" by (cases us) (auto simp: accepts_from_Nil)
    with e have r: "ft_type r = F_rightParen" "accepts_from False d us'"
      by (auto simp: accepts_from_Cons operator_first_def split: formula_type.splits)
    have "lite_expr (t # es @ [r])" using e(2) F_leftParen r(1) by (rule parens)
    from extend_expr [OF this r(2)] IH ts e(1) us show ?thesis by auto
  qed (use step ts IH extend_expr [OF operand [of t], of d ts'] in auto)
qed

subsection \<open>What the tokens say about the text\<close>

lemma alpha_not_ws [simp]: "is_alpha c \<Longrightarrow> \<not> js_ws c"
  by (auto simp: js_ws_def is_alpha_def)

lemma digit_not_ws [simp]: "is_digit c \<Longrightarrow> \<not> js_ws c"
  by (auto simp: js_ws_def is_digit_def)

lemma word_char_not_ws [simp]: "is_word_char c \<Longrightarrow> \<not> js_ws c"
  by (auto simp: is_word_char_def js_ws_def is_alpha_def is_digit_def)

lemma take_run_length: "take (run_length p s) s = takeWhile p s"
  by (metis takeWhile_eq_take)

lemma identifier_chars: "list_all is_word_char (take (identifier_length s) s)"
  by (auto simp: identifier_length_def take_run_length list_all_iff is_word_char_def
      dest: set_takeWhileD split: list.splits)

lemma dot_digits_chars: "list_all (\<lambda>c. is_digit c \<or> c = CHR ''.'') (take (dot_digits s) s)"
  by (auto simp: dot_digits_def take_run_length list_all_iff dest: set_takeWhileD split: list.splits)

lemma number_chars: "list_all (\<lambda>c. is_digit c \<or> c = CHR ''.'') (take (number_length s) s)"
proof -
  have "take (run_length is_digit s + n) s = takeWhile is_digit s @ take n (drop (run_length is_digit s) s)" for n
    by (simp add: take_add take_run_length)
  then show ?thesis
    using dot_digits_chars [of s] dot_digits_chars [of "drop (run_length is_digit s) s"]
    by (auto simp: number_length_def Let_def list_all_iff dest: set_takeWhileD)
qed

definition non_ws :: "string \<Rightarrow> string" where
  "non_ws s = filter (\<lambda>c. \<not> js_ws c) s"

lemma non_ws_append: "non_ws (a @ b) = non_ws a @ non_ws b"
  by (simp add: non_ws_def)

lemma non_ws_id: "list_all (\<lambda>c. \<not> js_ws c) a \<Longrightarrow> non_ws a = a"
  by (simp add: non_ws_def list_all_iff)

lemma non_ws_take_drop:
  "list_all (\<lambda>c. \<not> js_ws c) (take n s) \<Longrightarrow> take n s @ non_ws (drop n s) = non_ws s"
  by (metis append_take_drop_id non_ws_append non_ws_id)

lemma dropWhile_non_ws: "non_ws (dropWhile js_ws s) = non_ws s"
  by (induction s) (auto simp: non_ws_def)

lemma tokenize_concat:
  "tokenizeLiteFormula s = Some ts \<Longrightarrow> concat (map ft_value ts) = non_ws s"
proof (induction s arbitrary: ts rule: tokenizeLiteFormula.induct)
  case (1 s)
  consider (nil) "s = []" | (ws) "s \<noteq> []" "js_ws (hd s)"
    | (ident) "s \<noteq> []" "\<not> js_ws (hd s)" "0 < identifier_length s"
    | (num) "s \<noteq> []" "\<not> js_ws (hd s)" "\<not> 0 < identifier_length s" "0 < number_length s"
    | (single) "s \<noteq> []" "\<not> js_ws (hd s)" "\<not> 0 < identifier_length s" "\<not> 0 < number_length s"
    by blast
  then show ?case
  proof cases
    case nil
    with 1(5) show ?thesis by (simp add: tokenizeLiteFormula.simps [of "[]"] non_ws_def)
  next
    case ws
    with 1(1) 1(5) show ?thesis
      by (simp add: tokenizeLiteFormula.simps [of s] dropWhile_non_ws)
  next
    case ident
    have "list_all (\<lambda>c. \<not> js_ws c) (take (identifier_length s) s)"
      using identifier_chars [of s] by (auto simp: list_all_iff)
    with ident 1(2) 1(5) show ?thesis
      by (auto simp: tokenizeLiteFormula.simps [of s] non_ws_take_drop)
  next
    case num
    have "list_all (\<lambda>c. \<not> js_ws c) (take (number_length s) s)"
      using number_chars [of s] by (fastforce simp: list_all_iff js_ws_def)
    with num 1(3) 1(5) show ?thesis
      by (auto simp: tokenizeLiteFormula.simps [of s] non_ws_take_drop)
  next
    case single
    then obtain c r where s: "s = c # r" by (cases s) auto
    with single 1(4) 1(5) show ?thesis
      by (auto simp: tokenizeLiteFormula.simps [of "c # r"] single_token_def non_ws_def
          split: option.splits if_splits)
  qed
qed

subsection \<open>The properties\<close>

text \<open>
  C35. The syntax check accepts a formula exactly when its tokens form an expression of the
  grammar: it accepts no malformed formula and rejects no well-formed one.
\<close>

theorem lite_formula_grammar:
  "isLiteFormulaExpression s \<longleftrightarrow> (\<exists>ts. tokenizeLiteFormula s = Some ts \<and> lite_expr ts)"
proof (cases "tokenizeLiteFormula s")
  case None
  then show ?thesis by (simp add: isLiteFormulaExpression_def)
next
  case (Some ts)
  have "isLiteFormulaExpression s \<longleftrightarrow> ts \<noteq> [] \<and> accepts_from True 0 ts"
    by (auto simp: isLiteFormulaExpression_def Some accepts_from_def split: option.splits)
  also have "\<dots> \<longleftrightarrow> lite_expr ts"
  proof
    assume "ts \<noteq> [] \<and> accepts_from True 0 ts"
    then obtain es us where e: "ts = es @ us" "lite_expr es" "accepts_from False 0 us" "\<not> operator_first us"
      using accepts_expr by blast
    then have "us = []" by (cases us) (auto simp: accepts_from_Cons operator_first_def split: formula_type.splits)
    with e show "lite_expr ts" by simp
  next
    assume "lite_expr ts"
    then show "ts \<noteq> [] \<and> accepts_from True 0 ts"
      using lite_expr_run [of ts 0 "[]"] lite_expr_not_Nil by (simp add: accepts_from_Nil)
  qed
  finally show ?thesis by (simp add: Some)
qed

text \<open>
  Tokenizing loses nothing but white space: the texts of the tokens, put together, are
  the formula without its white space.
\<close>

theorem tokenize_keeps_text:
  assumes "tokenizeLiteFormula s = Some ts"
  shows "concat (map ft_value ts) = filter (\<lambda>c. \<not> js_ws c) s"
  using tokenize_concat [OF assms] by (simp add: non_ws_def)

theorem tokenize_keeps_text_witness:
  "tokenizeLiteFormula ''A / (b1+ 2.5)'' \<noteq> None \<and>
   concat (map ft_value (the (tokenizeLiteFormula ''A / (b1+ 2.5)''))) = ''A/(b1+2.5)''"
proof -
  have "tokenizeLiteFormula ''A / (b1+ 2.5)'' \<noteq> None" by code_simp
  then obtain ts where ts: "tokenizeLiteFormula ''A / (b1+ 2.5)'' = Some ts" by blast
  from tokenize_keeps_text [OF ts] ts show ?thesis by (simp add: js_ws_def)
qed

end
