(* ===== verification/Alert_Formula.thy ===== *)
theory Alert_Formula
  imports Lite_Formula
begin

section \<open>Alert formulas: tokens and the recursive-descent recogniser\<close>

text \<open>
  \<open>tokenizeLiteAlertFormula\<close>, the class \<open>LiteAlertFormulaParser\<close> and \<open>isLiteFormula\<close> of
  \<open>capabilities.ts\<close>. A method of the parser is a function from the tokens that are left to
  the tokens it leaves, or to \<open>None\<close> where the method returns false (the index is not read
  after that). The methods call each other in a cycle that passes through \<open>parseOr\<close>, so the
  others take their recursive \<open>parseOr\<close> as the argument \<open>por\<close>, and \<open>parseOr\<close> ties the knot with one
  unit of fuel per nesting level of parentheses; a \<open>while\<close> loop gets one unit per token left.
  The completeness half of the grammar theorem shows that both are enough.
\<close>

subsection \<open>Tokens\<close>

datatype alert_type =
    A_identifier | A_number | A_arithmetic | A_comparison | A_and | A_or | A_not
  | A_leftParen | A_rightParen | A_comma | A_eof

record alert_token =
  at_type :: alert_type
  at_value :: string

definition alertFormulaFunctionArity :: "string \<Rightarrow> nat option" where
  "alertFormulaFunctionArity = map_of [(''abs'', 1), (''min'', 2), (''max'', 2), (''clamp'', 3)]"

text \<open>
  The alternatives of the sticky pattern, in their order; the length of the match at the
  head of the input, 0 where it does not match.
\<close>

definition alert_match_length :: "string \<Rightarrow> nat" where
  "alert_match_length s =
     (if 0 < run_length js_ws s then run_length js_ws s
      else if 0 < identifier_length s then identifier_length s
      else if 0 < number_length s then number_length s
      else if list_ex (\<lambda>p. starts_with p s) [''>='', ''<='', ''!='', ''=='', ''&&'', ''||''] then 2
      else (case s of [] \<Rightarrow> 0 | c # _ \<Rightarrow> if c \<in> set ''+-*/><=(),'' then 1 else 0))"

definition classifyAlertFormulaToken :: "string \<Rightarrow> alert_token option" where
  "classifyAlertFormulaToken raw =
     (if raw \<noteq> [] \<and> is_alpha (hd raw) then
        (let keyword = to_upper raw
         in Some \<lparr>at_type = (if keyword = ''AND'' then A_and else if keyword = ''OR'' then A_or
                          else if keyword = ''NOT'' then A_not else A_identifier), at_value = raw\<rparr>)
      else if raw \<noteq> [] \<and> (is_digit (hd raw) \<or> hd raw = CHR ''.'') then
        Some \<lparr>at_type = A_number, at_value = raw\<rparr>
      else if raw \<in> {''=='', ''&&'', ''||''} then None
      else if raw \<in> {''>='', ''<='', ''!='', ''>'', ''<'', ''=''} then
        Some \<lparr>at_type = A_comparison, at_value = raw\<rparr>
      else if str_includes raw ''+-*/'' then Some \<lparr>at_type = A_arithmetic, at_value = raw\<rparr>
      else map_option (\<lambda>t. \<lparr>at_type = t, at_value = raw\<rparr>)
        (map_of [(''('', A_leftParen), ('')'', A_rightParen), ('','', A_comma)] raw))"

lemma starts_with_two: "starts_with [a, b] s \<Longrightarrow> 2 \<le> length s"
  by (auto simp: starts_with_iff)

lemma alert_match_length_le: "alert_match_length s \<le> length s"
proof (cases "list_ex (\<lambda>p. starts_with p s) [''>='', ''<='', ''!='', ''=='', ''&&'', ''||'']")
  case True
  then have "2 \<le> length s" by (auto dest: starts_with_two)
  then show ?thesis
    using length_takeWhile_le [of js_ws s] identifier_length_le [of s] number_length_le [of s]
    by (cases s) (simp_all add: alert_match_length_def)
next
  case False
  then show ?thesis
    using length_takeWhile_le [of js_ws s] identifier_length_le [of s] number_length_le [of s]
    by (cases s) (simp_all add: alert_match_length_def)
qed

definition alert_eof :: alert_token where
  "alert_eof = \<lparr>at_type = A_eof, at_value = ''''\<rparr>"

function tokenizeLiteAlertFormula :: "string \<Rightarrow> alert_token list option" where
  "tokenizeLiteAlertFormula s =
     (if s = [] then Some [alert_eof]
      else
        (let n = alert_match_length s; raw = take n s in
         if n = 0 then None
         else if list_all js_ws raw then tokenizeLiteAlertFormula (drop n s)
         else
           (case classifyAlertFormulaToken raw of
              None \<Rightarrow> None
            | Some tok \<Rightarrow> map_option (\<lambda>ts. tok # ts) (tokenizeLiteAlertFormula (drop n s)))))"
  by pat_completeness auto
termination by (relation "measure length") auto

declare tokenizeLiteAlertFormula.simps [simp del]

subsection \<open>The recogniser\<close>

definition cur_type :: "alert_token list \<Rightarrow> alert_type" where
  "cur_type ts = (case ts of [] \<Rightarrow> A_eof | t # _ \<Rightarrow> at_type t)"

definition cur_value :: "alert_token list \<Rightarrow> string" where
  "cur_value ts = (case ts of [] \<Rightarrow> '''' | t # _ \<Rightarrow> at_value t)"

text \<open>\<open>advance()\<close> stays at the end of input.\<close>

definition advance :: "alert_token list \<Rightarrow> alert_token list" where
  "advance ts = (case ts of [] \<Rightarrow> [] | t # ts' \<Rightarrow> if at_type t = A_eof then ts else ts')"

definition sign_next :: "alert_token list \<Rightarrow> bool" where
  "sign_next ts \<longleftrightarrow> cur_type ts = A_arithmetic \<and> cur_value ts \<in> {''+'', ''-''}"

definition factor_next :: "alert_token list \<Rightarrow> bool" where
  "factor_next ts \<longleftrightarrow> cur_type ts = A_arithmetic \<and> cur_value ts \<in> {''*'', ''/''}"

definition zero_next :: "alert_token list \<Rightarrow> bool" where
  "zero_next ts \<longleftrightarrow> cur_type ts = A_number \<and> literal_is_zero (cur_value ts)"

text \<open>
  A \<open>while\<close> loop of the parser: as long as the next token passes the test, consume it and parse
  one more operand.
\<close>

fun operand_loop ::
  "(alert_token list \<Rightarrow> bool) \<Rightarrow> (alert_token list \<Rightarrow> alert_token list option) \<Rightarrow> nat
     \<Rightarrow> alert_token list \<Rightarrow> alert_token list option" where
  "operand_loop test operand 0 ts = (if test ts then None else Some ts)"
| "operand_loop test operand (Suc k) ts =
     (if test ts then Option.bind (operand ts) (operand_loop test operand k) else Some ts)"

fun argumentLoop ::
  "(alert_token list \<Rightarrow> alert_token list option) \<Rightarrow> nat \<Rightarrow> nat \<Rightarrow> alert_token list
     \<Rightarrow> (nat \<times> alert_token list) option" where
  "argumentLoop por 0 actual ts = None"
| "argumentLoop por (Suc k) actual ts =
     Option.bind (por ts)
       (\<lambda>r. if cur_type r \<noteq> A_comma then Some (Suc actual, r)
            else argumentLoop por k (Suc actual) (advance r))"

definition parseFunctionCall ::
  "(alert_token list \<Rightarrow> alert_token list option) \<Rightarrow> string \<Rightarrow> alert_token list
     \<Rightarrow> alert_token list option" where
  "parseFunctionCall por name ts =
     (case alertFormulaFunctionArity (to_lower name) of
        None \<Rightarrow> None
      | Some expected \<Rightarrow>
          (let ts' = advance ts in
           Option.bind
             (if cur_type ts' \<noteq> A_rightParen then argumentLoop por (length ts') 0 ts' else Some (0, ts'))
             (\<lambda>(actual, r).
                if cur_type r = A_rightParen \<and> actual = expected then Some (advance r) else None)))"

definition parsePrimary ::
  "(alert_token list \<Rightarrow> alert_token list option) \<Rightarrow> alert_token list \<Rightarrow> alert_token list option" where
  "parsePrimary por ts =
     (case cur_type ts of
        A_number \<Rightarrow> Some (advance ts)
      | A_leftParen \<Rightarrow>
          Option.bind (por (advance ts))
            (\<lambda>r. if cur_type r = A_rightParen then Some (advance r) else None)
      | A_identifier \<Rightarrow>
          (if cur_type (advance ts) = A_leftParen
           then parseFunctionCall por (cur_value ts) (advance ts) else Some (advance ts))
      | _ \<Rightarrow> None)"

fun parseUnaryNumber ::
  "(alert_token list \<Rightarrow> alert_token list option) \<Rightarrow> alert_token list \<Rightarrow> alert_token list option" where
  "parseUnaryNumber por [] = parsePrimary por []"
| "parseUnaryNumber por (t # ts) =
     (if sign_next (t # ts) then parseUnaryNumber por ts else parsePrimary por (t # ts))"

definition factor_operand ::
  "(alert_token list \<Rightarrow> alert_token list option) \<Rightarrow> alert_token list \<Rightarrow> alert_token list option" where
  "factor_operand por ts =
     (if cur_value ts = ''/'' \<and> zero_next (advance ts) then None
      else parseUnaryNumber por (advance ts))"

definition parseMultiplicative ::
  "(alert_token list \<Rightarrow> alert_token list option) \<Rightarrow> alert_token list \<Rightarrow> alert_token list option" where
  "parseMultiplicative por ts =
     Option.bind (parseUnaryNumber por ts)
       (\<lambda>r. operand_loop factor_next (factor_operand por) (length r) r)"

definition parseAdditive ::
  "(alert_token list \<Rightarrow> alert_token list option) \<Rightarrow> alert_token list \<Rightarrow> alert_token list option" where
  "parseAdditive por ts =
     Option.bind (parseMultiplicative por ts)
       (\<lambda>r. operand_loop sign_next (parseMultiplicative por \<circ> advance) (length r) r)"

definition parseComparison ::
  "(alert_token list \<Rightarrow> alert_token list option) \<Rightarrow> alert_token list \<Rightarrow> alert_token list option" where
  "parseComparison por ts =
     Option.bind (parseAdditive por ts)
       (\<lambda>r. if cur_type r \<noteq> A_comparison then Some r
            else Option.bind (parseAdditive por (advance r))
              (\<lambda>r'. if cur_type r' \<noteq> A_comparison then Some r' else None))"

fun parseNot ::
  "(alert_token list \<Rightarrow> alert_token list option) \<Rightarrow> alert_token list \<Rightarrow> alert_token list option" where
  "parseNot por [] = parseComparison por []"
| "parseNot por (t # ts) =
     (if at_type t = A_not then parseNot por ts else parseComparison por (t # ts))"

definition parseAnd ::
  "(alert_token list \<Rightarrow> alert_token list option) \<Rightarrow> alert_token list \<Rightarrow> alert_token list option" where
  "parseAnd por ts =
     Option.bind (parseNot por ts)
       (\<lambda>r. operand_loop (\<lambda>u. cur_type u = A_and) (parseNot por \<circ> advance) (length r) r)"

fun parseOr :: "nat \<Rightarrow> alert_token list \<Rightarrow> alert_token list option" where
  "parseOr 0 ts = None"
| "parseOr (Suc n) ts =
     Option.bind (parseAnd (parseOr n) ts)
       (\<lambda>r. operand_loop (\<lambda>u. cur_type u = A_or) (parseAnd (parseOr n) \<circ> advance) (length r) r)"

text \<open>\<open>parse()\<close> of the class.\<close>

definition parse_alert_formula :: "alert_token list \<Rightarrow> bool" where
  "parse_alert_formula ts =
     (case parseOr (Suc (length ts)) ts of None \<Rightarrow> False | Some r \<Rightarrow> cur_type r = A_eof)"

definition isLiteAlertFormulaExpression :: "string \<Rightarrow> bool" where
  "isLiteAlertFormulaExpression expression =
     (case tokenizeLiteAlertFormula expression of
        None \<Rightarrow> False
      | Some ts \<Rightarrow> ts \<noteq> [] \<and> parse_alert_formula ts)"

text \<open>The fields of \<open>IBuilderFormula\<close> that \<open>isLiteFormula\<close> reads.\<close>

record ('h, 'o) builder_formula =
  bf_expression :: string
  bf_limit :: "int option"
  bf_having :: "'h list option"
  bf_orderBy :: "'o list option"

definition isLiteFormula :: "('h, 'o) builder_formula \<Rightarrow> bool \<Rightarrow> bool" where
  "isLiteFormula formula alertMode =
     (let expression = js_trim (bf_expression formula) in
      bf_limit formula = None \<and>
      (case bf_orderBy formula of None \<Rightarrow> True | Some os \<Rightarrow> os = []) \<and>
      (case bf_having formula of None \<Rightarrow> True | Some hs \<Rightarrow> hs = []) \<and>
      (expression = [] \<or>
        (if alertMode then isLiteAlertFormulaExpression expression
         else isLiteFormulaExpression expression)))"

subsection \<open>The reference grammar\<close>

text \<open>
  The grammar of alert formulas, one level per method. It is right recursive and says nothing
  about lookahead, loops or fuel.
\<close>

datatype alert_level =
    L_or | L_and | L_not | L_cmp | L_add | L_mul | L_unary | L_primary | L_args nat

definition is_sign :: "alert_token \<Rightarrow> bool" where
  "is_sign t \<longleftrightarrow> at_type t = A_arithmetic \<and> at_value t \<in> {''+'', ''-''}"

definition is_factor :: "alert_token \<Rightarrow> bool" where
  "is_factor t \<longleftrightarrow> at_type t = A_arithmetic \<and> at_value t \<in> {''*'', ''/''}"

inductive alert_grammar :: "alert_level \<Rightarrow> alert_token list \<Rightarrow> bool" where
  or_one: "alert_grammar L_and u \<Longrightarrow> alert_grammar L_or u"
| or_more: "\<lbrakk>alert_grammar L_and u; at_type t = A_or; alert_grammar L_or v\<rbrakk>
     \<Longrightarrow> alert_grammar L_or (u @ t # v)"
| and_one: "alert_grammar L_not u \<Longrightarrow> alert_grammar L_and u"
| and_more: "\<lbrakk>alert_grammar L_not u; at_type t = A_and; alert_grammar L_and v\<rbrakk>
     \<Longrightarrow> alert_grammar L_and (u @ t # v)"
| not_cmp: "alert_grammar L_cmp u \<Longrightarrow> alert_grammar L_not u"
| not_not: "\<lbrakk>at_type t = A_not; alert_grammar L_not u\<rbrakk> \<Longrightarrow> alert_grammar L_not (t # u)"
| cmp_none: "alert_grammar L_add u \<Longrightarrow> alert_grammar L_cmp u"
| cmp_one: "\<lbrakk>alert_grammar L_add u; at_type t = A_comparison; alert_grammar L_add v\<rbrakk>
     \<Longrightarrow> alert_grammar L_cmp (u @ t # v)"
| add_one: "alert_grammar L_mul u \<Longrightarrow> alert_grammar L_add u"
| add_more: "\<lbrakk>alert_grammar L_mul u; is_sign t; alert_grammar L_add v\<rbrakk>
     \<Longrightarrow> alert_grammar L_add (u @ t # v)"
| mul_one: "alert_grammar L_unary u \<Longrightarrow> alert_grammar L_mul u"
| mul_more: "\<lbrakk>alert_grammar L_unary u; is_factor t; alert_grammar L_mul v;
      at_value t = ''/'' \<Longrightarrow> \<not> zero_next v\<rbrakk>
     \<Longrightarrow> alert_grammar L_mul (u @ t # v)"
| unary_primary: "alert_grammar L_primary u \<Longrightarrow> alert_grammar L_unary u"
| unary_sign: "\<lbrakk>is_sign t; alert_grammar L_unary u\<rbrakk> \<Longrightarrow> alert_grammar L_unary (t # u)"
| primary_number: "at_type t = A_number \<Longrightarrow> alert_grammar L_primary [t]"
| primary_name: "at_type t = A_identifier \<Longrightarrow> alert_grammar L_primary [t]"
| primary_paren: "\<lbrakk>at_type l = A_leftParen; alert_grammar L_or u; at_type r = A_rightParen\<rbrakk>
     \<Longrightarrow> alert_grammar L_primary (l # u @ [r])"
| primary_call: "\<lbrakk>at_type f = A_identifier; at_type l = A_leftParen;
      alertFormulaFunctionArity (to_lower (at_value f)) = Some k;
      alert_grammar (L_args k) u; at_type r = A_rightParen\<rbrakk>
     \<Longrightarrow> alert_grammar L_primary (f # l # u @ [r])"
| args_one: "alert_grammar L_or u \<Longrightarrow> alert_grammar (L_args (Suc 0)) u"
| args_more: "\<lbrakk>alert_grammar L_or u; at_type t = A_comma; alert_grammar (L_args k) v\<rbrakk>
     \<Longrightarrow> alert_grammar (L_args (Suc k)) (u @ t # v)"

lemma cur_type_simps [simp]:
  "cur_type [] = A_eof" "cur_type (t # ts) = at_type t" "cur_value (t # ts) = at_value t"
  "sign_next (t # ts) = is_sign t" "factor_next (t # ts) = is_factor t"
  "\<not> sign_next []" "\<not> factor_next []" "advance [] = []"
  by (simp_all add: cur_type_def cur_value_def sign_next_def factor_next_def is_sign_def
      is_factor_def advance_def)

lemma advance_Cons: "at_type t \<noteq> A_eof \<Longrightarrow> advance (t # ts) = ts"
  by (simp add: advance_def)

lemma alert_arities_positive: "alertFormulaFunctionArity f = Some k \<Longrightarrow> 0 < k"
  by (auto simp: alertFormulaFunctionArity_def split: if_splits)

subsubsection \<open>Soundness: what a method consumes is a word of its level\<close>

definition consumes ::
  "(alert_token list \<Rightarrow> bool) \<Rightarrow> (alert_token list \<Rightarrow> alert_token list option) \<Rightarrow> bool" where
  "consumes P p \<longleftrightarrow> (\<forall>ts r. p ts = Some r \<longrightarrow> (\<exists>us. ts = us @ r \<and> P us))"

lemma consumesI: "(\<And>ts r. p ts = Some r \<Longrightarrow> \<exists>us. ts = us @ r \<and> P us) \<Longrightarrow> consumes P p"
  by (auto simp: consumes_def)

lemma consumesE:
  assumes "consumes P p" "p ts = Some r"
  obtains us where "ts = us @ r" "P us"
  using assms by (auto simp: consumes_def)

lemma operand_loop_consumes:
  assumes sub: "\<And>ts r. test ts \<Longrightarrow> operand ts = Some r \<Longrightarrow>
      \<exists>t us. ts = t # us @ r \<and> S t (us @ r) \<and> P us"
    and base: "\<And>u. P u \<Longrightarrow> Q u"
    and step: "\<And>u t v r. P u \<Longrightarrow> S t (v @ r) \<Longrightarrow> Q v \<Longrightarrow> Q (u @ t # v)"
  shows "operand_loop test operand k ts = Some r \<Longrightarrow> P u \<Longrightarrow> \<exists>vs. u @ ts = vs @ r \<and> Q vs"
proof (induction k arbitrary: u ts)
  case 0
  then show ?case using base by (auto split: if_splits)
next
  case (Suc k)
  show ?case
  proof (cases "test ts")
    case False
    with Suc.prems base show ?thesis by auto
  next
    case True
    with Suc.prems(1) obtain q where q: "operand ts = Some q" "operand_loop test operand k q = Some r"
      by (auto split: bind_splits)
    from sub [OF True q(1)] obtain t us where t: "ts = t # us @ q" "S t (us @ q)" "P us" by blast
    from Suc.IH [OF q(2) t(3)] obtain vs where vs: "us @ q = vs @ r" "Q vs" by blast
    have "u @ ts = (u @ t # vs) @ r" using t(1) vs(1) by simp
    moreover from t(2) vs(1) have "S t (vs @ r)" by simp
    ultimately show ?thesis using step [OF Suc.prems(2) _ vs(2)] by blast
  qed
qed

text \<open>A level whose method parses one operand and then loops.\<close>

lemma chain_consumes:
  assumes first: "consumes P p"
    and sub: "\<And>ts r. test ts \<Longrightarrow> operand ts = Some r \<Longrightarrow>
      \<exists>t us. ts = t # us @ r \<and> S t (us @ r) \<and> P us"
    and base: "\<And>u. P u \<Longrightarrow> Q u"
    and step: "\<And>u t v r. P u \<Longrightarrow> S t (v @ r) \<Longrightarrow> Q v \<Longrightarrow> Q (u @ t # v)"
  shows "consumes Q (\<lambda>ts. Option.bind (p ts) (\<lambda>r. operand_loop test operand (length r) r))"
proof (rule consumesI)
  fix ts r
  assume "Option.bind (p ts) (\<lambda>r. operand_loop test operand (length r) r) = Some r"
  then obtain q where q: "p ts = Some q" "operand_loop test operand (length q) q = Some r"
    by (auto split: bind_splits)
  from consumesE [OF first q(1)] obtain us where us: "ts = us @ q" "P us" .
  have "\<exists>vs. us @ q = vs @ r \<and> Q vs"
    by (rule operand_loop_consumes [where S = S and P = P, OF _ _ _ q(2) us(2)])
       (fact sub base step)+
  with us(1) show "\<exists>us. ts = us @ r \<and> Q us" by blast
qed

lemma cur_type_head: "cur_type ts = A \<Longrightarrow> A \<noteq> A_eof \<Longrightarrow> \<exists>t r. ts = t # r \<and> at_type t = A \<and> advance ts = r"
  by (cases ts) (auto simp: advance_def)

lemma argumentLoop_consumes:
  assumes por: "consumes (alert_grammar L_or) por"
  shows "argumentLoop por k a ts = Some (b, r) \<Longrightarrow>
    \<exists>us m. ts = us @ r \<and> b = a + m \<and> alert_grammar (L_args m) us"
proof (induction k arbitrary: a ts)
  case 0
  then show ?case by simp
next
  case (Suc k)
  from Suc.prems obtain r' where r': "por ts = Some r'"
    and rest: "if cur_type r' \<noteq> A_comma then Some (Suc a, r') = Some (b, r)
      else argumentLoop por k (Suc a) (advance r') = Some (b, r)"
    by (auto split: bind_splits if_splits)
  from consumesE [OF por r'] obtain us where us: "ts = us @ r'" "alert_grammar L_or us" .
  show ?case
  proof (cases "cur_type r' = A_comma")
    case False
    with rest us show ?thesis by (intro exI [of _ us] exI [of _ "Suc 0"]) (auto intro: args_one)
  next
    case True
    from cur_type_head [OF True] obtain t r'' where t: "r' = t # r''" "at_type t = A_comma" "advance r' = r''"
      by auto
    from True rest t(3) have "argumentLoop por k (Suc a) r'' = Some (b, r)" by simp
    from Suc.IH [OF this] obtain vs m where "r'' = vs @ r" "b = Suc a + m" "alert_grammar (L_args m) vs"
      by blast
    with us t args_more [OF us(2) t(2)] show ?thesis
      by (intro exI [of _ "us @ t # vs"] exI [of _ "Suc m"]) auto
  qed
qed

lemma parseFunctionCall_consumes:
  assumes por: "consumes (alert_grammar L_or) por"
    and l: "at_type l = A_leftParen"
    and run: "parseFunctionCall por name (l # ts) = Some r"
  obtains k us rp where "alertFormulaFunctionArity (to_lower name) = Some k" "ts = us @ rp # r"
    "alert_grammar (L_args k) us" "at_type rp = A_rightParen"
proof -
  from run l obtain k where k: "alertFormulaFunctionArity (to_lower name) = Some k"
    by (auto simp: parseFunctionCall_def split: option.splits)
  with run l alert_arities_positive [OF k] obtain r' where
    loop: "argumentLoop por (length ts) 0 ts = Some (k, r')"
    and r': "cur_type r' = A_rightParen" "advance r' = r"
    by (auto simp: parseFunctionCall_def advance_Cons split: bind_splits if_splits)
  from cur_type_head [OF r'(1)] r'(2) obtain rp where rp: "r' = rp # r" "at_type rp = A_rightParen"
    by auto
  from argumentLoop_consumes [OF por loop] obtain us where "ts = us @ r'" "alert_grammar (L_args k) us"
    by auto
  with k rp that show thesis by blast
qed

lemma parsePrimary_consumes:
  assumes por: "consumes (alert_grammar L_or) por"
  shows "consumes (alert_grammar L_primary) (parsePrimary por)"
proof (rule consumesI)
  fix ts r
  assume run: "parsePrimary por ts = Some r"
  then obtain t ts' where ts: "ts = t # ts'" by (cases ts) (auto simp: parsePrimary_def)
  consider "at_type t = A_number" | "at_type t = A_leftParen" | "at_type t = A_identifier"
    using run ts by (cases "at_type t") (auto simp: parsePrimary_def)
  then show "\<exists>us. ts = us @ r \<and> alert_grammar L_primary us"
  proof cases
    case 1
    with run ts primary_number [OF 1] show ?thesis
      by (intro exI [of _ "[t]"]) (auto simp: parsePrimary_def advance_Cons)
  next
    case 2
    with run ts obtain r' where r': "por ts' = Some r'" "cur_type r' = A_rightParen" "advance r' = r"
      by (auto simp: parsePrimary_def advance_Cons split: bind_splits if_splits)
    from consumesE [OF por r'(1)] obtain us where us: "ts' = us @ r'" "alert_grammar L_or us" .
    from cur_type_head [OF r'(2)] r'(3) obtain rp where rp: "r' = rp # r" "at_type rp = A_rightParen"
      by auto
    from primary_paren [OF 2 us(2) rp(2)] ts us(1) rp(1) show ?thesis
      by (intro exI [of _ "t # us @ [rp]"]) auto
  next
    case 3
    show ?thesis
    proof (cases "cur_type ts' = A_leftParen")
      case False
      with run ts 3 primary_name [OF 3] show ?thesis
        by (intro exI [of _ "[t]"]) (auto simp: parsePrimary_def advance_Cons)
    next
      case True
      from cur_type_head [OF True] obtain l ts'' where l: "ts' = l # ts''" "at_type l = A_leftParen"
        by auto
      from run ts 3 l have "parseFunctionCall por (at_value t) (l # ts'') = Some r"
        by (simp add: parsePrimary_def advance_Cons)
      from parseFunctionCall_consumes [OF por l(2) this] obtain k us rp where
        "alertFormulaFunctionArity (to_lower (at_value t)) = Some k" "ts'' = us @ rp # r"
        "alert_grammar (L_args k) us" "at_type rp = A_rightParen" .
      with primary_call [OF 3 l(2)] ts l(1) show ?thesis
        by (intro exI [of _ "t # l # us @ [rp]"]) auto
    qed
  qed
qed

lemma parseUnaryNumber_consumes:
  assumes por: "consumes (alert_grammar L_or) por"
  shows "consumes (alert_grammar L_unary) (parseUnaryNumber por)"
proof (rule consumesI)
  fix ts r
  assume "parseUnaryNumber por ts = Some r"
  then show "\<exists>us. ts = us @ r \<and> alert_grammar L_unary us"
  proof (induction ts)
    case Nil
    then show ?case by (simp add: parsePrimary_def)
  next
    case (Cons t ts)
    show ?case
    proof (cases "is_sign t")
      case True
      with Cons obtain us where "ts = us @ r" "alert_grammar L_unary us" by auto
      with unary_sign [OF True] show ?thesis by (intro exI [of _ "t # us"]) auto
    next
      case False
      with Cons.prems have "parsePrimary por (t # ts) = Some r" by simp
      from consumesE [OF parsePrimary_consumes [OF por] this] unary_primary show ?thesis by metis
    qed
  qed
qed

lemma parseMultiplicative_consumes:
  assumes por: "consumes (alert_grammar L_or) por"
  shows "consumes (alert_grammar L_mul) (parseMultiplicative por)"
  unfolding parseMultiplicative_def [abs_def]
proof (rule chain_consumes [where S = "\<lambda>t w. is_factor t \<and> (at_value t = ''/'' \<longrightarrow> \<not> zero_next w)"])
  show "consumes (alert_grammar L_unary) (parseUnaryNumber por)"
    by (rule parseUnaryNumber_consumes [OF por])
next
  fix ts r
  assume "factor_next ts" and run: "factor_operand por ts = Some r"
  then obtain t ts' where t: "ts = t # ts'" "is_factor t" "advance ts = ts'"
    by (cases ts) (auto simp: is_factor_def advance_def)
  with run have "parseUnaryNumber por ts' = Some r" "at_value t = ''/'' \<longrightarrow> \<not> zero_next ts'"
    by (auto simp: factor_operand_def split: if_splits)
  with t parseUnaryNumber_consumes [OF por, THEN consumesE]
  show "\<exists>t us. ts = t # us @ r \<and> (is_factor t \<and> (at_value t = ''/'' \<longrightarrow> \<not> zero_next (us @ r)))
      \<and> alert_grammar L_unary us"
    by metis
next
  fix u t v r
  assume "alert_grammar L_unary u" "alert_grammar L_mul v"
    and t: "is_factor t \<and> (at_value t = ''/'' \<longrightarrow> \<not> zero_next (v @ r))"
  moreover have "zero_next v \<Longrightarrow> zero_next (v @ r)" by (cases v) (auto simp: zero_next_def)
  ultimately show "alert_grammar L_mul (u @ t # v)" by (auto intro: mul_more)
qed (rule mul_one)

lemma advance_operand:
  assumes p: "consumes P p" and run: "(p \<circ> advance) ts = Some r"
    and hd: "ts \<noteq> [] \<Longrightarrow> S (hd ts) \<and> at_type (hd ts) \<noteq> A_eof" and ne: "ts \<noteq> []"
  shows "\<exists>t us. ts = t # us @ r \<and> S t \<and> P us"
proof -
  from ne obtain t ts' where t: "ts = t # ts'" by (cases ts) auto
  with run hd have "p ts' = Some r" by (simp add: advance_Cons)
  from consumesE [OF p this] t hd show ?thesis by auto
qed

lemma parseAdditive_consumes:
  assumes por: "consumes (alert_grammar L_or) por"
  shows "consumes (alert_grammar L_add) (parseAdditive por)"
  unfolding parseAdditive_def [abs_def]
proof (rule chain_consumes [where S = "\<lambda>t w. is_sign t"])
  show "consumes (alert_grammar L_mul) (parseMultiplicative por)"
    by (rule parseMultiplicative_consumes [OF por])
next
  fix ts r
  assume "sign_next ts" "(parseMultiplicative por \<circ> advance) ts = Some r"
  then show "\<exists>t us. ts = t # us @ r \<and> is_sign t \<and> alert_grammar L_mul us"
    by (intro advance_operand [OF parseMultiplicative_consumes [OF por]])
       (cases ts; auto simp: is_sign_def)+
qed (auto intro: add_one add_more)

lemma parseComparison_consumes:
  assumes por: "consumes (alert_grammar L_or) por"
  shows "consumes (alert_grammar L_cmp) (parseComparison por)"
proof (rule consumesI)
  fix ts r
  assume run: "parseComparison por ts = Some r"
  then obtain q where q: "parseAdditive por ts = Some q"
    by (auto simp: parseComparison_def split: bind_splits)
  from consumesE [OF parseAdditive_consumes [OF por] q] obtain us where
    us: "ts = us @ q" "alert_grammar L_add us" .
  show "\<exists>us. ts = us @ r \<and> alert_grammar L_cmp us"
  proof (cases "cur_type q = A_comparison")
    case False
    with run q us show ?thesis by (auto simp: parseComparison_def intro: cmp_none)
  next
    case True
    from cur_type_head [OF True] obtain t q' where t: "q = t # q'" "at_type t = A_comparison" by auto
    with run q have "parseAdditive por q' = Some r"
      by (auto simp: parseComparison_def advance_Cons split: bind_splits if_splits)
    from consumesE [OF parseAdditive_consumes [OF por] this] obtain vs where
      "q' = vs @ r" "alert_grammar L_add vs" .
    with us t cmp_one show ?thesis by (intro exI [of _ "us @ t # vs"]) auto
  qed
qed

lemma parseNot_consumes:
  assumes por: "consumes (alert_grammar L_or) por"
  shows "consumes (alert_grammar L_not) (parseNot por)"
proof (rule consumesI)
  fix ts r
  assume "parseNot por ts = Some r"
  then show "\<exists>us. ts = us @ r \<and> alert_grammar L_not us"
  proof (induction ts)
    case Nil
    with consumesE [OF parseComparison_consumes [OF por], of "[]" r] not_cmp show ?case by auto
  next
    case (Cons t ts)
    show ?case
    proof (cases "at_type t = A_not")
      case True
      with Cons obtain us where "ts = us @ r" "alert_grammar L_not us" by auto
      with not_not [OF True] show ?thesis by (intro exI [of _ "t # us"]) auto
    next
      case False
      with Cons.prems have "parseComparison por (t # ts) = Some r" by simp
      from consumesE [OF parseComparison_consumes [OF por] this] not_cmp show ?thesis by metis
    qed
  qed
qed

lemma parseAnd_consumes:
  assumes por: "consumes (alert_grammar L_or) por"
  shows "consumes (alert_grammar L_and) (parseAnd por)"
  unfolding parseAnd_def [abs_def]
proof (rule chain_consumes [where S = "\<lambda>t w. at_type t = A_and"])
  show "consumes (alert_grammar L_not) (parseNot por)" by (rule parseNot_consumes [OF por])
next
  fix ts r
  assume "cur_type ts = A_and" "(parseNot por \<circ> advance) ts = Some r"
  then show "\<exists>t us. ts = t # us @ r \<and> at_type t = A_and \<and> alert_grammar L_not us"
    by (intro advance_operand [OF parseNot_consumes [OF por]]) (cases ts; auto)+
qed (auto intro: and_one and_more)

lemma parseOr_consumes: "consumes (alert_grammar L_or) (parseOr n)"
proof (induction n)
  case 0
  show ?case by (simp add: consumes_def)
next
  case (Suc n)
  show ?case
    unfolding parseOr.simps(2) [abs_def]
  proof (rule chain_consumes [where S = "\<lambda>t w. at_type t = A_or"])
    show "consumes (alert_grammar L_and) (parseAnd (parseOr n))" by (rule parseAnd_consumes [OF Suc])
  next
    fix ts r
    assume "cur_type ts = A_or" "(parseAnd (parseOr n) \<circ> advance) ts = Some r"
    then show "\<exists>t us. ts = t # us @ r \<and> at_type t = A_or \<and> alert_grammar L_and us"
      by (intro advance_operand [OF parseAnd_consumes [OF Suc]]) (cases ts; auto)+
  qed (auto intro: or_one or_more)
qed

subsubsection \<open>Completeness: every word of a level is consumed\<close>

definition loops_to ::
  "(alert_token list \<Rightarrow> bool) \<Rightarrow> (alert_token list \<Rightarrow> alert_token list option)
     \<Rightarrow> alert_token list \<Rightarrow> alert_token list \<Rightarrow> bool" where
  "loops_to test operand q rest \<longleftrightarrow> (\<forall>k \<ge> length q. operand_loop test operand k q = Some rest)"

lemma loops_to_stop: "\<not> test rest \<Longrightarrow> loops_to test operand rest rest"
  unfolding loops_to_def
proof (intro allI impI)
  fix k
  assume "\<not> test rest"
  then show "operand_loop test operand k rest = Some rest" by (cases k) auto
qed

lemma loops_to_step:
  assumes "test (t # w)" "operand (t # w) = Some q" "length q \<le> length w" "loops_to test operand q rest"
  shows "loops_to test operand (t # w) rest"
  unfolding loops_to_def
proof (intro allI impI)
  fix k
  assume "length (t # w) \<le> k"
  then obtain j where "k = Suc j" "length w \<le> j" by (cases k) auto
  with assms show "operand_loop test operand k (t # w) = Some rest" by (auto simp: loops_to_def)
qed

lemma loops_toD: "loops_to test operand q rest \<Longrightarrow> operand_loop test operand (length q) q = Some rest"
  by (simp add: loops_to_def)

text \<open>The run of a level's method over the tokens \<open>ts\<close>, leaving \<open>rest\<close>.\<close>

primrec parses :: "nat \<Rightarrow> alert_level \<Rightarrow> alert_token list \<Rightarrow> alert_token list \<Rightarrow> bool" where
  "parses n L_or = (\<lambda>ts rest. \<exists>q. parseAnd (parseOr n) ts = Some q \<and>
     loops_to (\<lambda>u. cur_type u = A_or) (parseAnd (parseOr n) \<circ> advance) q rest)"
| "parses n L_and = (\<lambda>ts rest. \<exists>q. parseNot (parseOr n) ts = Some q \<and>
     loops_to (\<lambda>u. cur_type u = A_and) (parseNot (parseOr n) \<circ> advance) q rest)"
| "parses n L_not = (\<lambda>ts rest. parseNot (parseOr n) ts = Some rest)"
| "parses n L_cmp = (\<lambda>ts rest. parseComparison (parseOr n) ts = Some rest)"
| "parses n L_add = (\<lambda>ts rest. \<exists>q. parseMultiplicative (parseOr n) ts = Some q \<and>
     loops_to sign_next (parseMultiplicative (parseOr n) \<circ> advance) q rest)"
| "parses n L_mul = (\<lambda>ts rest. \<exists>q. parseUnaryNumber (parseOr n) ts = Some q \<and>
     loops_to factor_next (factor_operand (parseOr n)) q rest)"
| "parses n L_unary = (\<lambda>ts rest. parseUnaryNumber (parseOr n) ts = Some rest)"
| "parses n L_primary = (\<lambda>ts rest. parsePrimary (parseOr n) ts = Some rest)"
| "parses n (L_args m) = (\<lambda>ts rest. \<forall>k a. length ts \<le> k \<longrightarrow>
     argumentLoop (parseOr n) k a ts = Some (a + m, rest))"

lemma parses_or: "parses n L_or ts rest \<Longrightarrow> parseOr (Suc n) ts = Some rest"
  by (auto dest: loops_toD)

lemma parses_and: "parses n L_and ts rest \<Longrightarrow> parseAnd (parseOr n) ts = Some rest"
  by (auto simp: parseAnd_def dest: loops_toD)

lemma parses_add: "parses n L_add ts rest \<Longrightarrow> parseAdditive (parseOr n) ts = Some rest"
  by (auto simp: parseAdditive_def dest: loops_toD)

lemma parses_mul: "parses n L_mul ts rest \<Longrightarrow> parseMultiplicative (parseOr n) ts = Some rest"
  by (auto simp: parseMultiplicative_def dest: loops_toD)

text \<open>What may follow a word of a level.\<close>

primrec level_follow :: "alert_level \<Rightarrow> alert_token list \<Rightarrow> bool" where
  "level_follow L_or r = (cur_type r \<in> {A_rightParen, A_comma, A_eof})"
| "level_follow L_and r = (cur_type r \<in> {A_rightParen, A_comma, A_eof, A_or})"
| "level_follow L_not r = (cur_type r \<in> {A_rightParen, A_comma, A_eof, A_or, A_and})"
| "level_follow L_cmp r = (cur_type r \<in> {A_rightParen, A_comma, A_eof, A_or, A_and})"
| "level_follow L_add r = (cur_type r \<in> {A_rightParen, A_comma, A_eof, A_or, A_and, A_comparison})"
| "level_follow L_mul r =
     (cur_type r \<in> {A_rightParen, A_comma, A_eof, A_or, A_and, A_comparison} \<or> sign_next r)"
| "level_follow L_unary r =
     (cur_type r \<in> {A_rightParen, A_comma, A_eof, A_or, A_and, A_comparison} \<or> sign_next r \<or> factor_next r)"
| "level_follow L_primary r =
     (cur_type r \<in> {A_rightParen, A_comma, A_eof, A_or, A_and, A_comparison} \<or> sign_next r \<or> factor_next r)"
| "level_follow (L_args m) r = (cur_type r = A_rightParen)"

lemma sign_next_type: "sign_next r \<Longrightarrow> cur_type r = A_arithmetic"
  by (simp add: sign_next_def)

lemma factor_next_type: "factor_next r \<Longrightarrow> cur_type r = A_arithmetic"
  by (simp add: factor_next_def)

lemma sign_not_factor: "sign_next r \<Longrightarrow> \<not> factor_next r"
  by (auto simp: sign_next_def factor_next_def)

text \<open>What a word of a level starts with.\<close>

lemma grammar_head:
  "alert_grammar L u \<Longrightarrow> \<exists>t w. u = t # w \<and>
     at_type t \<in> {A_number, A_identifier, A_leftParen, A_arithmetic, A_not} \<and>
     (L \<in> {L_cmp, L_add, L_mul, L_unary, L_primary} \<longrightarrow> at_type t \<noteq> A_not) \<and>
     (L = L_primary \<longrightarrow> at_type t \<noteq> A_arithmetic)"
  by (induction rule: alert_grammar.induct) (auto simp: is_sign_def)

lemma head_not_sign: "alert_grammar L_primary u \<Longrightarrow> parseUnaryNumber por (u @ r) = parsePrimary por (u @ r)"
  by (drule grammar_head) (auto simp: is_sign_def)

lemma head_not_not: "alert_grammar L_cmp u \<Longrightarrow> parseNot por (u @ r) = parseComparison por (u @ r)"
  by (drule grammar_head) auto

lemma zero_next_append: "alert_grammar L v \<Longrightarrow> zero_next (v @ r) = zero_next v"
  by (drule grammar_head) (auto simp: zero_next_def)

lemma consumes_length: "consumes P p \<Longrightarrow> p ts = Some r \<Longrightarrow> length r \<le> length ts"
  by (auto elim: consumesE)

lemmas alert_consumes_length =
  parseAnd_consumes [OF parseOr_consumes, THEN consumes_length]
  parseNot_consumes [OF parseOr_consumes, THEN consumes_length]
  parseMultiplicative_consumes [OF parseOr_consumes, THEN consumes_length]
  parseUnaryNumber_consumes [OF parseOr_consumes, THEN consumes_length]

lemma parse_call_complete:
  assumes f: "at_type f = A_identifier" and l: "at_type l = A_leftParen"
    and k: "alertFormulaFunctionArity (to_lower (at_value f)) = Some k"
    and u: "alert_grammar (L_args k) u" and r: "at_type r = A_rightParen"
    and run: "parses n (L_args k) (u @ r # rest) (r # rest)"
  shows "parsePrimary (parseOr n) (f # l # u @ r # rest) = Some rest"
proof -
  from grammar_head [OF u] have "cur_type (u @ r # rest) \<noteq> A_rightParen" by auto
  moreover from run have
    "argumentLoop (parseOr n) (length (u @ r # rest)) 0 (u @ r # rest) = Some (k, r # rest)"
    by (simp del: argumentLoop.simps)
  ultimately show ?thesis
    using f l k r
    by (simp add: parsePrimary_def parseFunctionCall_def advance_Cons del: argumentLoop.simps)
qed

lemma parses_args_more:
  assumes "parseOr n (u @ t # v @ rest) = Some (t # v @ rest)" "at_type t = A_comma"
    and "parses n (L_args m) (v @ rest) rest"
  shows "parses n (L_args (Suc m)) (u @ t # v @ rest) rest"
  unfolding parses.simps
proof (intro allI impI)
  fix k a
  assume "length (u @ t # v @ rest) \<le> k"
  then obtain j where j: "k = Suc j" "length (v @ rest) \<le> j" by (cases k) auto
  with assms(3) have "argumentLoop (parseOr n) j (Suc a) (v @ rest) = Some (Suc a + m, rest)"
    by simp
  with j assms(1,2) show "argumentLoop (parseOr n) k a (u @ t # v @ rest) = Some (a + Suc m, rest)"
    by (simp add: advance_Cons)
qed

lemma alert_grammar_parses:
  "alert_grammar L us \<Longrightarrow> (case L of L_args m \<Rightarrow> length us < n | _ \<Rightarrow> length us \<le> n) \<Longrightarrow>
     level_follow L rest \<Longrightarrow> parses n L (us @ rest) rest"
proof (induction arbitrary: n rest rule: alert_grammar.induct)
  case (or_one u)
  then have "parses n L_and (u @ rest) rest" by auto
  then have "parseAnd (parseOr n) (u @ rest) = Some rest" by (rule parses_and)
  with or_one.prems(2) show ?case by (auto intro!: loops_to_stop)
next
  case (or_more u t v)
  from or_more have "parses n L_and (u @ t # v @ rest) (t # v @ rest)" by auto
  then have "parseAnd (parseOr n) (u @ t # v @ rest) = Some (t # v @ rest)" by (rule parses_and)
  moreover from or_more have "parses n L_or (v @ rest) rest" by auto
  ultimately show ?case
    using or_more.hyps(2) by (auto simp: advance_Cons intro!: loops_to_step dest: alert_consumes_length)
next
  case (and_one u)
  then show ?case by (auto intro!: loops_to_stop)
next
  case (and_more u t v)
  from and_more have "parses n L_not (u @ t # v @ rest) (t # v @ rest)" by auto
  moreover from and_more have "parses n L_and (v @ rest) rest" by auto
  ultimately show ?case
    using and_more.hyps(2) by (auto simp: advance_Cons intro!: loops_to_step dest: alert_consumes_length)
next
  case (not_cmp u)
  then show ?case by (simp add: head_not_not)
next
  case (not_not t u)
  then show ?case by simp
next
  case (cmp_none u)
  then have "parses n L_add (u @ rest) rest" by auto
  then have "parseAdditive (parseOr n) (u @ rest) = Some rest" by (rule parses_add)
  with cmp_none.prems(2) show ?case by (auto simp: parseComparison_def)
next
  case (cmp_one u t v)
  from cmp_one have "parses n L_add (u @ t # v @ rest) (t # v @ rest)" by auto
  then have "parseAdditive (parseOr n) (u @ t # v @ rest) = Some (t # v @ rest)" by (rule parses_add)
  moreover from cmp_one have "parses n L_add (v @ rest) rest" by auto
  then have "parseAdditive (parseOr n) (v @ rest) = Some rest" by (rule parses_add)
  ultimately show ?case
    using cmp_one.hyps(2) cmp_one.prems(2) by (auto simp: parseComparison_def advance_Cons)
next
  case (add_one u)
  then have "parses n L_mul (u @ rest) rest" by auto
  then have "parseMultiplicative (parseOr n) (u @ rest) = Some rest" by (rule parses_mul)
  with add_one.prems(2) show ?case by (auto intro!: loops_to_stop dest: sign_next_type)
next
  case (add_more u t v)
  from add_more have "parses n L_mul (u @ t # v @ rest) (t # v @ rest)" by auto
  then have "parseMultiplicative (parseOr n) (u @ t # v @ rest) = Some (t # v @ rest)" by (rule parses_mul)
  moreover from add_more have "parses n L_add (v @ rest) rest" by auto
  moreover from add_more have "at_type t \<noteq> A_eof" by (simp add: is_sign_def)
  ultimately show ?case
    using add_more.hyps(2) by (auto simp: advance_Cons intro!: loops_to_step dest: alert_consumes_length)
next
  case (mul_one u)
  then show ?case by (auto simp: factor_next_def sign_next_def intro!: loops_to_stop)
next
  case (mul_more u t v)
  from mul_more have "parses n L_unary (u @ t # v @ rest) (t # v @ rest)" by auto
  moreover from mul_more have "parses n L_mul (v @ rest) rest" by auto
  moreover from mul_more have "at_type t \<noteq> A_eof" by (simp add: is_factor_def)
  moreover from mul_more have "\<not> (at_value t = ''/'' \<and> zero_next (v @ rest))"
    by (simp add: zero_next_append)
  ultimately show ?case
    using mul_more.hyps(2)
    by (auto simp: advance_Cons factor_operand_def intro!: loops_to_step dest: alert_consumes_length)
next
  case (unary_primary u)
  then show ?case by (simp add: head_not_sign)
next
  case (unary_sign t u)
  then show ?case by simp
next
  case (primary_number t)
  then show ?case by (simp add: parsePrimary_def advance_Cons)
next
  case (primary_name t)
  then show ?case by (auto simp: parsePrimary_def advance_Cons dest: sign_next_type factor_next_type)
next
  case (primary_paren l u r)
  then obtain m where m: "n = Suc m" "length u \<le> m" by (cases n) auto
  with primary_paren have "parses m L_or (u @ r # rest) (r # rest)" by auto
  then have "parseOr n (u @ r # rest) = Some (r # rest)" unfolding m(1) by (rule parses_or)
  with primary_paren.hyps(1,3) show ?case by (simp add: parsePrimary_def advance_Cons)
next
  case (primary_call f l k u r)
  then have "parses n (L_args k) (u @ r # rest) (r # rest)" by auto
  with primary_call parse_call_complete show ?case by simp
next
  case (args_one u)
  then obtain m where m: "n = Suc m" "length u \<le> m" by (cases n) auto
  with args_one have "parses m L_or (u @ rest) rest" by auto
  then have run: "parseOr n (u @ rest) = Some rest" unfolding m(1) by (rule parses_or)
  show ?case
    unfolding parses.simps
  proof (intro allI impI)
    fix k a
    assume "length (u @ rest) \<le> k"
    moreover from grammar_head [OF args_one.hyps(1)] have "u \<noteq> []" by auto
    ultimately obtain j where "k = Suc j" by (cases k) auto
    with run args_one.prems(2) show "argumentLoop (parseOr n) k a (u @ rest) = Some (a + Suc 0, rest)"
      by simp
  qed
next
  case (args_more u t m v)
  then obtain j where j: "n = Suc j" "length u \<le> j" by (cases n) auto
  with args_more have "parses j L_or (u @ t # v @ rest) (t # v @ rest)" by auto
  then have "parseOr n (u @ t # v @ rest) = Some (t # v @ rest)" unfolding j(1) by (rule parses_or)
  moreover from args_more have "parses n (L_args m) (v @ rest) rest" by auto
  ultimately show ?case using parses_args_more [OF _ args_more.hyps(2)] by simp
qed

subsection \<open>The property\<close>

lemma grammar_no_eof: "alert_grammar L u \<Longrightarrow> list_all (\<lambda>t. at_type t \<noteq> A_eof) u"
  by (induction rule: alert_grammar.induct) (auto simp: is_sign_def is_factor_def)

lemma classify_no_eof: "classifyAlertFormulaToken raw = Some t \<Longrightarrow> at_type t \<noteq> A_eof"
  by (auto simp: classifyAlertFormulaToken_def Let_def split: if_splits)

lemma alert_tokens_end:
  "tokenizeLiteAlertFormula s = Some ts \<Longrightarrow>
     \<exists>us. ts = us @ [alert_eof] \<and> list_all (\<lambda>t. at_type t \<noteq> A_eof) us"
proof (induction s arbitrary: ts rule: tokenizeLiteAlertFormula.induct)
  case (1 s)
  show ?case
  proof (cases "s = []")
    case True
    with 1(3) show ?thesis by (simp add: tokenizeLiteAlertFormula.simps [of "[]"])
  next
    case False
    define n where "n = alert_match_length s"
    from False 1(3) have n: "n \<noteq> 0"
      by (simp add: tokenizeLiteAlertFormula.simps [of s] n_def Let_def split: if_splits)
    show ?thesis
    proof (cases "list_all js_ws (take n s)")
      case True
      with False n 1(3) have "tokenizeLiteAlertFormula (drop n s) = Some ts"
        by (simp add: tokenizeLiteAlertFormula.simps [of s] n_def Let_def)
      with 1(1) [OF False n_def refl n True] show ?thesis by simp
    next
      case nws: False
      with False n 1(3) obtain t us where t: "classifyAlertFormulaToken (take n s) = Some t"
        "tokenizeLiteAlertFormula (drop n s) = Some us" "ts = t # us"
        by (auto simp: tokenizeLiteAlertFormula.simps [of s] n_def Let_def split: option.splits)
      from 1(2) [OF False n_def refl n nws t(1,2)] obtain vs where
        "us = vs @ [alert_eof]" "list_all (\<lambda>t. at_type t \<noteq> A_eof) vs" by blast
      with t classify_no_eof [OF t(1)] show ?thesis by (intro exI [of _ "t # vs"]) auto
    qed
  qed
qed

text \<open>
  C3. The recursive-descent check of alert formulas accepts an expression exactly when its
  tokens, before the end marker, are a word of the grammar: calls have a known function with
  the right number of arguments, comparisons do not chain, no division is by a literal zero.
\<close>

theorem alert_formula_grammar:
  "isLiteAlertFormulaExpression s \<longleftrightarrow>
     (\<exists>us. tokenizeLiteAlertFormula s = Some (us @ [alert_eof]) \<and> alert_grammar L_or us)"
proof
  assume "isLiteAlertFormulaExpression s"
  then obtain ts r where ts: "tokenizeLiteAlertFormula s = Some ts"
    and run: "parseOr (Suc (length ts)) ts = Some r" and r: "cur_type r = A_eof"
    by (auto simp: isLiteAlertFormulaExpression_def parse_alert_formula_def split: option.splits)
  from alert_tokens_end [OF ts] obtain ws where
    ws: "ts = ws @ [alert_eof]" "list_all (\<lambda>t. at_type t \<noteq> A_eof) ws" by blast
  from consumesE [OF parseOr_consumes run] obtain us where
    us: "ts = us @ r" "alert_grammar L_or us" .
  from grammar_no_eof [OF us(2)] have no: "list_all (\<lambda>t. at_type t \<noteq> A_eof) us" .
  have "r = [alert_eof]"
  proof (cases r rule: rev_cases)
    case Nil
    with us(1) ws(1) no show ?thesis by (auto simp: alert_eof_def)
  next
    case (snoc r' x)
    with us(1) ws have "x = alert_eof" "list_all (\<lambda>t. at_type t \<noteq> A_eof) r'" by auto
    with snoc r show ?thesis by (cases r') auto
  qed
  with us ts show "\<exists>us. tokenizeLiteAlertFormula s = Some (us @ [alert_eof]) \<and> alert_grammar L_or us"
    by auto
next
  assume "\<exists>us. tokenizeLiteAlertFormula s = Some (us @ [alert_eof]) \<and> alert_grammar L_or us"
  then obtain us where us: "tokenizeLiteAlertFormula s = Some (us @ [alert_eof])" "alert_grammar L_or us"
    by blast
  from alert_grammar_parses [OF us(2), of "Suc (length us)" "[alert_eof]"]
  have "parses (Suc (length us)) L_or (us @ [alert_eof]) [alert_eof]" by (simp add: alert_eof_def)
  then have "parseOr (Suc (Suc (length us))) (us @ [alert_eof]) = Some [alert_eof]" by (rule parses_or)
  with us(1) show "isLiteAlertFormulaExpression s"
    by (simp add: isLiteAlertFormulaExpression_def parse_alert_formula_def alert_eof_def
        del: parseOr.simps)
qed

end
