(* ===== verification/Js_Number.thy ===== *)
theory Js_Number
  imports Prelude
begin

section \<open>Numbers as the query builder reads and prints them\<close>

text \<open>
  A number of the query builder is an exact decimal, or an infinity with its sign: \<open>Dec m e\<close> is \<open>m * 10 ^ e\<close>, with \<open>m\<close> not
  divisible by ten unless the number is zero. \<open>Number(s)\<close> reads such a decimal from a literal
  and \<open>String(n)\<close> prints it by the rules of ECMAScript. JavaScript rounds to a double in
  between, which changes no decimal of at most fifteen significant digits, so the model is
  exact for those; longer literals, and those beyond the range of a double, are outside it.
\<close>

datatype js_num = Dec int int | Infinite bool

subsection \<open>Decimal digits\<close>

definition digit_char :: "nat \<Rightarrow> char" where
  "digit_char d = ''0123456789'' ! (d mod 10)"

definition digit_value :: "char \<Rightarrow> nat" where
  "digit_value c = (if is_digit c then length (takeWhile (\<lambda>d. d \<noteq> c) ''0123456789'') else 0)"

fun nat_digits :: "nat \<Rightarrow> string" where
  "nat_digits n = (if n < 10 then [digit_char n] else nat_digits (n div 10) @ [digit_char (n mod 10)])"

declare nat_digits.simps [simp del]

fun digits_value_from :: "nat \<Rightarrow> string \<Rightarrow> nat" where
  "digits_value_from acc [] = acc"
| "digits_value_from acc (c # cs) = digits_value_from (10 * acc + digit_value c) cs"

definition digits_value :: "string \<Rightarrow> nat" where
  "digits_value s = digits_value_from 0 s"

lemma less_ten: "(d::nat) < 10 \<Longrightarrow> d \<in> {0, 1, 2, 3, 4, 5, 6, 7, 8, 9}"
  by auto

lemma digit_value_char [simp]: "d < 10 \<Longrightarrow> digit_value (digit_char d) = d"
  by (drule less_ten) (elim insertE; simp add: digit_value_def digit_char_def)

lemma is_digit_digit_char [simp]: "is_digit (digit_char d)"
proof -
  have "d mod 10 \<in> {0, 1, 2, 3, 4, 5, 6, 7, 8, 9}" by (rule less_ten) simp
  then show ?thesis unfolding digit_char_def by (elim insertE; simp)
qed

lemma digits_value_from_append:
  "digits_value_from acc (a @ b) = digits_value_from (digits_value_from acc a) b"
  by (induction a arbitrary: acc) auto

lemma nat_digits_value [simp]: "digits_value (nat_digits n) = n"
proof (induction n rule: nat_digits.induct)
  case (1 n)
  show ?case
  proof (cases "n < 10")
    case True
    then show ?thesis by (subst nat_digits.simps) (simp add: digits_value_def)
  next
    case False
    with 1 show ?thesis
      by (subst nat_digits.simps) (simp add: digits_value_def digits_value_from_append)
  qed
qed

lemma nat_digits_digits: "list_all is_digit (nat_digits n)"
proof (induction n rule: nat_digits.induct)
  case (1 n)
  then show ?case by (subst nat_digits.simps) auto
qed

lemma nat_digits_not_Nil [simp]: "nat_digits n \<noteq> []"
  by (subst nat_digits.simps) simp

lemma nat_digits_inject: "nat_digits m = nat_digits n \<longleftrightarrow> m = n"
  by (metis nat_digits_value)

subsection \<open>Normal form\<close>

function normal_dec :: "int \<Rightarrow> int \<Rightarrow> js_num" where
  "normal_dec m e =
     (if m = 0 then Dec 0 0 else if m mod 10 = 0 then normal_dec (m div 10) (e + 1) else Dec m e)"
  by pat_completeness auto
termination
  by (relation "measure (\<lambda>(m, e). nat \<bar>m\<bar>)") auto

declare normal_dec.simps [simp del]

definition js_num_ok :: "js_num \<Rightarrow> bool" where
  "js_num_ok x = (case x of Dec m e \<Rightarrow> if m = 0 then e = 0 else m mod 10 \<noteq> 0 | Infinite _ \<Rightarrow> True)"

lemma normal_dec_ok: "js_num_ok (normal_dec m e)"
proof (induction m e rule: normal_dec.induct)
  case (1 m e)
  then show ?case by (subst normal_dec.simps) (auto simp: js_num_ok_def)
qed

lemma normal_dec_id: "js_num_ok (Dec m e) \<Longrightarrow> normal_dec m e = Dec m e"
  by (subst normal_dec.simps) (auto simp: js_num_ok_def split: if_splits)

lemma normal_dec_shift: "normal_dec (m * 10 ^ k) e = normal_dec m (e + int k)"
proof (induction k arbitrary: e)
  case 0
  then show ?case by simp
next
  case (Suc k)
  show ?case
  proof (cases "m = 0")
    case True
    then show ?thesis by (simp add: normal_dec.simps)
  next
    case False
    have "normal_dec (m * 10 ^ Suc k) e = normal_dec (m * 10 ^ k) (e + 1)"
      using False by (subst normal_dec.simps) (simp add: mult.assoc mult.commute)
    with Suc.IH [of "e + 1"] show ?thesis by (simp add: algebra_simps)
  qed
qed

subsection \<open>Printing: \<open>String(n)\<close>\<close>

definition zeros :: "nat \<Rightarrow> string" where
  "zeros n = replicate n (CHR ''0'')"

definition print_unsigned :: "string \<Rightarrow> int \<Rightarrow> string" where
  "print_unsigned ds e =
     (let k = length ds; n = int k + e
      in if 0 \<le> e \<and> n \<le> 21 then ds @ zeros (nat e)
         else if 0 < n \<and> n \<le> 21 then take (nat n) ds @ ''.'' @ drop (nat n) ds
         else if -6 < n \<and> n \<le> 0 then ''0.'' @ zeros (nat (- n)) @ ds
         else
           (let x = n - 1; ex = (if 0 \<le> x then ''e+'' else ''e-'') @ nat_digits (nat \<bar>x\<bar>)
            in if k = 1 then ds @ ex else take 1 ds @ ''.'' @ drop 1 ds @ ex))"

definition num_string :: "js_num \<Rightarrow> string" where
  "num_string x =
     (case x of Dec m e \<Rightarrow>
        if m = 0 then ''0''
        else (if m < 0 then ''-'' else []) @ print_unsigned (nat_digits (nat \<bar>m\<bar>)) e
      | Infinite neg \<Rightarrow> (if neg then ''-Infinity'' else ''Infinity''))"

subsection \<open>Reading a literal\<close>

text \<open>\<open>Number(s)\<close> of an optional minus sign, digits, and an optional point with digits.\<close>

definition unsigned_num :: "bool \<Rightarrow> string \<Rightarrow> js_num" where
  "unsigned_num neg s =
     (let ip = takeWhile is_digit s; fp = drop 1 (dropWhile is_digit s);
          m = int (digits_value (ip @ fp))
      in normal_dec (if neg then - m else m) (- int (length fp)))"

definition literal_num :: "string \<Rightarrow> js_num" where
  "literal_num s =
     (case s of
        [] \<Rightarrow> Dec 0 0
      | c # r \<Rightarrow> if c = CHR ''-'' then unsigned_num True r else unsigned_num False s)"

text \<open>The regular expression \<open>/^-?\d+(?:\.\d+)?$/\<close>.\<close>

definition unsigned_literal :: "string \<Rightarrow> bool" where
  "unsigned_literal s =
     (let ip = takeWhile is_digit s; r = dropWhile is_digit s
      in ip \<noteq> [] \<and>
         (case r of [] \<Rightarrow> True | c # fp \<Rightarrow> c = CHR ''.'' \<and> fp \<noteq> [] \<and> list_all is_digit fp))"

definition decimal_literal :: "string \<Rightarrow> bool" where
  "decimal_literal s =
     (case s of [] \<Rightarrow> False | c # r \<Rightarrow> if c = CHR ''-'' then unsigned_literal r else unsigned_literal s)"

text \<open>A number that \<open>String\<close> prints without an exponent.\<close>

definition plain_num :: "js_num \<Rightarrow> bool" where
  "plain_num x =
     (case x of Dec m e \<Rightarrow>
        m = 0 \<or> (let n = int (length (nat_digits (nat \<bar>m\<bar>))) + e in -6 < n \<and> n \<le> 21)
      | Infinite _ \<Rightarrow> False)"

text \<open>Shapes of the printed text.\<close>

lemma takeWhile_digits_append:
  "list_all is_digit ds \<Longrightarrow> r = [] \<or> \<not> is_digit (hd r) \<Longrightarrow>
     takeWhile is_digit (ds @ r) = ds \<and> dropWhile is_digit (ds @ r) = r"
  by (induction ds) (auto simp: takeWhile_eq_Nil_iff dropWhile_id)

lemma unsigned_num_int:
  "list_all is_digit ds \<Longrightarrow>
     unsigned_num neg ds = normal_dec (if neg then - int (digits_value ds) else int (digits_value ds)) 0"
  using takeWhile_digits_append [of ds "[]"]
  unfolding unsigned_num_def Let_def append_Nil2 by (simp del: takeWhile_eq_all_conv dropWhile_eq_Nil_conv)

lemma unsigned_num_point:
  "list_all is_digit ip \<Longrightarrow> unsigned_num neg (ip @ CHR ''.'' # fp) =
     normal_dec (if neg then - int (digits_value (ip @ fp)) else int (digits_value (ip @ fp)))
       (- int (length fp))"
  using takeWhile_digits_append [of ip "CHR ''.'' # fp"] by (simp add: unsigned_num_def Let_def)

lemma zeros_digits: "list_all is_digit (zeros n)"
  by (induction n) (auto simp: zeros_def)

lemma digits_value_from_zeros: "digits_value_from acc (zeros n) = acc * 10 ^ n"
  by (induction n arbitrary: acc) (auto simp: zeros_def digit_value_def)

lemma digits_value_zeros_left: "digits_value (zeros n @ ds) = digits_value ds"
  by (simp add: digits_value_def digits_value_from_append digits_value_from_zeros)

lemma digits_value_zeros_right: "digits_value (ds @ zeros n) = digits_value ds * 10 ^ n"
  by (simp add: digits_value_def digits_value_from_append digits_value_from_zeros)

lemma digits_literal: "list_all is_digit ds \<Longrightarrow> ds \<noteq> [] \<Longrightarrow> unsigned_literal ds"
  using takeWhile_digits_append [of ds "[]"]
  unfolding unsigned_literal_def Let_def append_Nil2 by (simp del: takeWhile_eq_all_conv dropWhile_eq_Nil_conv)

lemma point_literal:
  "list_all is_digit ip \<Longrightarrow> ip \<noteq> [] \<Longrightarrow> list_all is_digit fp \<Longrightarrow> fp \<noteq> [] \<Longrightarrow>
     unsigned_literal (ip @ CHR ''.'' # fp)"
  using takeWhile_digits_append [of ip "CHR ''.'' # fp"] by (simp add: unsigned_literal_def Let_def)

lemma list_all_take_drop: "list_all P xs \<Longrightarrow> list_all P (take n xs) \<and> list_all P (drop n xs)"
  by (auto simp: list_all_iff dest: in_set_takeD in_set_dropD)

lemma print_unsigned_reads:
  assumes ok: "js_num_ok (Dec m e)" and nz: "m \<noteq> 0" and plain: "plain_num (Dec m e)"
  shows "unsigned_num (m < 0) (print_unsigned (nat_digits (nat \<bar>m\<bar>)) e) = Dec m e \<and>
    unsigned_literal (print_unsigned (nat_digits (nat \<bar>m\<bar>)) e)"
proof -
  define ds where "ds = nat_digits (nat \<bar>m\<bar>)"
  define n where "n = int (length ds) + e"
  have ds: "list_all is_digit ds" "ds \<noteq> []" "digits_value ds = nat \<bar>m\<bar>"
    by (simp_all add: ds_def nat_digits_digits)
  have n: "-6 < n" "n \<le> 21" using plain nz by (auto simp: plain_num_def n_def ds_def Let_def)
  have sgn: "(if m < 0 then - int (nat \<bar>m\<bar>) else int (nat \<bar>m\<bar>)) = m" by auto
  consider (int) "0 \<le> e" | (point) "e < 0" "0 < n" | (small) "e < 0" "n \<le> 0" by linarith
  then show ?thesis
  proof cases
    case int
    then have p: "print_unsigned ds e = ds @ zeros (nat e)"
      using n by (simp add: print_unsigned_def Let_def n_def)
    have all: "list_all is_digit (ds @ zeros (nat e))" using ds zeros_digits by simp
    have "(if m < 0 then - int (nat \<bar>m\<bar> * 10 ^ nat e) else int (nat \<bar>m\<bar> * 10 ^ nat e)) = m * 10 ^ nat e"
      by auto
    then have "unsigned_num (m < 0) (ds @ zeros (nat e)) = normal_dec m (0 + int (nat e))"
      using unsigned_num_int [OF all] by (simp only: digits_value_zeros_right ds normal_dec_shift)
    with int normal_dec_id [OF ok] have "unsigned_num (m < 0) (ds @ zeros (nat e)) = Dec m e" by simp
    with p digits_literal [OF all] ds show ?thesis by (simp add: ds_def [symmetric])
  next
    case point
    define ip where "ip = take (nat n) ds"
    define fp where "fp = drop (nat n) ds"
    have p: "print_unsigned ds e = ip @ CHR ''.'' # fp"
      using point n by (simp add: print_unsigned_def Let_def n_def ip_def fp_def)
    have len: "nat n < length ds" "int (length fp) = - e" using point by (auto simp: n_def fp_def)
    have "unsigned_num (m < 0) (ip @ CHR ''.'' # fp) = normal_dec m e"
      using unsigned_num_point [of ip "m < 0" fp] list_all_take_drop [OF ds(1), of "nat n"] len(2) sgn ds(3)
      by (simp add: ip_def fp_def)
    moreover have "ip \<noteq> []" "fp \<noteq> []" using point ds len by (auto simp: ip_def fp_def)
    ultimately show ?thesis
      using p point_literal [of ip fp] list_all_take_drop [OF ds(1), of "nat n"] normal_dec_id [OF ok]
      by (simp add: ds_def [symmetric] ip_def fp_def)
  next
    case small
    define fp where "fp = zeros (nat (- n)) @ ds"
    have p: "print_unsigned ds e = ''0'' @ CHR ''.'' # fp"
      using small n by (simp add: print_unsigned_def Let_def n_def fp_def)
    have len: "int (length fp) = - e" using small by (simp add: fp_def n_def zeros_def)
    have fp: "list_all is_digit fp" "fp \<noteq> []" using ds zeros_digits by (auto simp: fp_def)
    have v: "digits_value (''0'' @ fp) = nat \<bar>m\<bar>"
      using digits_value_zeros_left [of 1 fp] digits_value_zeros_left [of "nat (- n)" ds] ds
      by (simp add: zeros_def fp_def)
    have "unsigned_num (m < 0) (''0'' @ CHR ''.'' # fp) = normal_dec m e"
      using unsigned_num_point [of "''0''" "m < 0" fp] v len sgn by simp
    then show ?thesis
      using p point_literal [of "''0''" fp] fp normal_dec_id [OF ok] by (simp add: ds_def [symmetric])
  qed
qed

lemma unsigned_literal_head: "unsigned_literal s \<Longrightarrow> \<exists>c r. s = c # r \<and> is_digit c"
  by (cases s) (auto simp: unsigned_literal_def Let_def split: if_splits)

lemma num_string_reads:
  assumes "js_num_ok x" "plain_num x"
  shows "literal_num (num_string x) = x \<and> decimal_literal (num_string x)"
proof -
  obtain m e where x: "x = Dec m e" using assms(2) by (cases x) (auto simp: plain_num_def)
  show ?thesis
  proof (cases "m = 0")
    case True
    with assms(1) x show ?thesis
      by (auto simp: num_string_def js_num_ok_def literal_num_def unsigned_num_def digits_value_def
          digit_value_def decimal_literal_def unsigned_literal_def normal_dec.simps)
  next
    case False
    note r = print_unsigned_reads [OF assms(1) [unfolded x] False assms(2) [unfolded x]]
    then obtain c t where s: "print_unsigned (nat_digits (nat \<bar>m\<bar>)) e = c # t" "is_digit c"
      using unsigned_literal_head by blast
    then have "c \<noteq> CHR ''-''" by auto
    with r s False x show ?thesis
      by (auto simp: num_string_def literal_num_def decimal_literal_def)
  qed
qed

subsection \<open>\<open>Number(s)\<close> of any text\<close>

text \<open>
  The value of a trimmed text, \<open>None\<close> for \<open>NaN\<close>: an optional sign before \<open>Infinity\<close> or a decimal
  with an optional exponent, or a hexadecimal, octal or binary literal.
\<close>

definition exponent_value :: "string \<Rightarrow> int option" where
  "exponent_value s =
     (case s of
        [] \<Rightarrow> Some 0
      | c # r \<Rightarrow>
          (if c \<noteq> CHR ''e'' \<and> c \<noteq> CHR ''E'' then None
           else
             (let neg = (r \<noteq> [] \<and> hd r = CHR ''-'');
                  ds = (if r \<noteq> [] \<and> (hd r = CHR ''-'' \<or> hd r = CHR ''+'') then tl r else r)
              in if ds = [] \<or> \<not> list_all is_digit ds then None
                 else Some (if neg then - int (digits_value ds) else int (digits_value ds)))))"

definition radix_digit :: "char \<Rightarrow> nat option" where
  "radix_digit c =
     (if is_digit c then Some (digit_value c)
      else (let r = takeWhile (\<lambda>d. d \<noteq> lower_char c) ''abcdef''
            in if length r < 6 then Some (10 + length r) else None))"

fun radix_value :: "nat \<Rightarrow> nat \<Rightarrow> string \<Rightarrow> nat option" where
  "radix_value b acc [] = Some acc"
| "radix_value b acc (c # cs) =
     (case radix_digit c of
        None \<Rightarrow> None
      | Some d \<Rightarrow> if d < b then radix_value b (b * acc + d) cs else None)"

definition radix_literal :: "string \<Rightarrow> js_num option" where
  "radix_literal s =
     (case s of
        z # x # ds \<Rightarrow>
          (if z \<noteq> CHR ''0'' \<or> ds = [] then None
           else
             (case map_of [(CHR ''x'', 16), (CHR ''o'', 8), (CHR ''b'', 2)] (lower_char x) of
                None \<Rightarrow> None
              | Some b \<Rightarrow> map_option (\<lambda>n. normal_dec (int n) 0) (radix_value b 0 ds)))
      | _ \<Rightarrow> None)"

definition string_num :: "string \<Rightarrow> js_num option" where
  "string_num s =
     (if s = [] then Some (Dec 0 0)
      else
        (let neg = (hd s = CHR ''-'');
             b = (if hd s = CHR ''-'' \<or> hd s = CHR ''+'' then tl s else s)
         in if b = ''Infinity'' then Some (Infinite neg)
            else
              (let ip = takeWhile is_digit b; r = dropWhile is_digit b;
                   point = (r \<noteq> [] \<and> hd r = CHR ''.'');
                   fp = (if point then takeWhile is_digit (tl r) else []);
                   r' = (if point then dropWhile is_digit (tl r) else r)
               in if ip = [] \<and> fp = [] then radix_literal s
                  else
                    (case exponent_value r' of
                       None \<Rightarrow> radix_literal s
                     | Some x \<Rightarrow>
                         (let m = int (digits_value (ip @ fp))
                          in Some (normal_dec (if neg then - m else m) (x - int (length fp))))))))"

subsection \<open>Numbers at the head of a text\<close>

text \<open>\<open>parseFloat(s)\<close>: the longest decimal at the head of a text, \<open>None\<close> for \<open>NaN\<close>.\<close>

definition exponent_prefix :: "string \<Rightarrow> int" where
  "exponent_prefix s =
     (case s of
        [] \<Rightarrow> 0
      | c # r \<Rightarrow>
          if c = CHR ''e'' \<or> c = CHR ''E'' then
            let neg = (r \<noteq> [] \<and> hd r = CHR ''-'');
                ds = takeWhile is_digit (if r \<noteq> [] \<and> (hd r = CHR ''-'' \<or> hd r = CHR ''+'') then tl r else r)
            in if neg then - int (digits_value ds) else int (digits_value ds)
          else 0)"

definition parse_float :: "string \<Rightarrow> js_num option" where
  "parse_float text0 =
     (let s = js_trim_start text0; neg = (s \<noteq> [] \<and> hd s = CHR ''-'');
          b = (if s \<noteq> [] \<and> (hd s = CHR ''-'' \<or> hd s = CHR ''+'') then tl s else s)
      in if starts_with ''Infinity'' b then Some (Infinite neg)
         else
           let ip = takeWhile is_digit b; r = dropWhile is_digit b;
               point = (r \<noteq> [] \<and> hd r = CHR ''.'');
               fp = (if point then takeWhile is_digit (tl r) else []);
               r' = (if point then dropWhile is_digit (tl r) else r);
               m = int (digits_value (ip @ fp))
           in if ip = [] \<and> fp = [] then None
              else Some (normal_dec (if neg then - m else m) (exponent_prefix r' - int (length fp))))"

end
