(* ===== verification/Query_Types.thy ===== *)
theory Query_Types
  imports Js_Number
begin

section \<open>Attributes, filter values and filters\<close>

text \<open>
  The data of \<open>queryAutocompleteResponse.ts\<close> and \<open>queryBuilderData.ts\<close> that the filter
  components share. An optional field is an option; a value of a filter item is a string, a
  number or a boolean, or an array of them, and \<open>None\<close> where it is missing.
\<close>

datatype data_type =
    DT_Int64 | DT_String | DT_Float64 | DT_bool
  | DT_ArrayFloat64 | DT_ArrayInt64 | DT_ArrayString | DT_ArrayBool | DT_EMPTY

definition data_type_text :: "data_type \<Rightarrow> string" where
  "data_type_text d =
     (case d of
        DT_Int64 \<Rightarrow> ''int64'' | DT_String \<Rightarrow> ''string'' | DT_Float64 \<Rightarrow> ''float64''
      | DT_bool \<Rightarrow> ''bool'' | DT_ArrayFloat64 \<Rightarrow> ''array(float64)''
      | DT_ArrayInt64 \<Rightarrow> ''array(int64)'' | DT_ArrayString \<Rightarrow> ''array(string)''
      | DT_ArrayBool \<Rightarrow> ''array(bool)'' | DT_EMPTY \<Rightarrow> '''')"

text \<open>The data type with a given text.\<close>

definition data_type_of :: "string \<Rightarrow> data_type option" where
  "data_type_of s =
     js_find (\<lambda>d. data_type_text d = s)
       [DT_Int64, DT_String, DT_Float64, DT_bool, DT_ArrayFloat64, DT_ArrayInt64, DT_ArrayString, DT_ArrayBool,
        DT_EMPTY]"

record autocomplete_data =
  ac_id :: "string option"
  ac_dataType :: "data_type option"
  ac_key :: string
  ac_type :: "string option"

datatype js_value = SStr string | SNum js_num | SBool bool

datatype tag_value = VOne js_value | VList "js_value list"

record tag_filter_item =
  tf_id :: string
  tf_key :: "autocomplete_data option"
  tf_op :: string
  tf_value :: "tag_value option"

record tag_filter =
  tg_items :: "tag_filter_item list"
  tg_op :: string

subsection \<open>\<open>String(v)\<close>\<close>

definition value_string :: "js_value \<Rightarrow> string" where
  "value_string v =
     (case v of
        SStr s \<Rightarrow> s
      | SNum x \<Rightarrow> num_string x
      | SBool b \<Rightarrow> (if b then ''true'' else ''false''))"

text \<open>An array prints its elements separated by commas; a missing value prints \<open>undefined\<close>.\<close>

definition tag_value_string :: "tag_value option \<Rightarrow> string" where
  "tag_value_string v =
     (case v of
        None \<Rightarrow> ''undefined''
      | Some (VOne x) \<Rightarrow> value_string x
      | Some (VList xs) \<Rightarrow> js_join '','' (map value_string xs))"

definition truthy_value :: "js_value \<Rightarrow> bool" where
  "truthy_value v =
     (case v of
        SStr s \<Rightarrow> s \<noteq> []
      | SNum x \<Rightarrow> x \<noteq> Dec 0 0
      | SBool b \<Rightarrow> b)"

end
