(* ===== verification/Filter_Tokens.thy ===== *)
theory Filter_Tokens
  imports Prelude
begin

section \<open>Tokens of the filter query language\<close>

text \<open>
  The token types of \<open>FilterQueryLexer.ts\<close>, the token interface and the query pair
  interface of \<open>antlrQueryTypes.ts\<close>, the classification helpers of \<open>tokenUtils.ts\<close> and
  the quoting helpers of \<open>stringUtils.ts\<close>.
\<close>

subsection \<open>Token types\<close>

datatype token_type =
    LPAREN | RPAREN | LBRACK | RBRACK | COMMA
  | EQUALS | NOT_EQUALS | NEQ | LT | LE | GT | GE
  | LIKE | ILIKE | BETWEEN | EXISTS | REGEXP | CONTAINS | IN | NOT | AND | OR
  | HASTOKEN | HAS | HASANY | HASALL
  | BOOL | NUMBER | QUOTED_TEXT | KEY | WS | FREETEXT | EOF

text \<open>The numbers the generated lexer gives them; \<open>EOF\<close> is \<open>Token.EOF\<close>, that is -1.\<close>

fun token_code :: "token_type \<Rightarrow> int" where
  "token_code LPAREN = 1"
| "token_code RPAREN = 2"
| "token_code LBRACK = 3"
| "token_code RBRACK = 4"
| "token_code COMMA = 5"
| "token_code EQUALS = 6"
| "token_code NOT_EQUALS = 7"
| "token_code NEQ = 8"
| "token_code LT = 9"
| "token_code LE = 10"
| "token_code GT = 11"
| "token_code GE = 12"
| "token_code LIKE = 13"
| "token_code ILIKE = 14"
| "token_code BETWEEN = 15"
| "token_code EXISTS = 16"
| "token_code REGEXP = 17"
| "token_code CONTAINS = 18"
| "token_code IN = 19"
| "token_code NOT = 20"
| "token_code AND = 21"
| "token_code OR = 22"
| "token_code HASTOKEN = 23"
| "token_code HAS = 24"
| "token_code HASANY = 25"
| "token_code HASALL = 26"
| "token_code BOOL = 27"
| "token_code NUMBER = 28"
| "token_code QUOTED_TEXT = 29"
| "token_code KEY = 30"
| "token_code WS = 31"
| "token_code FREETEXT = 32"
| "token_code EOF = -1"

record itoken =
  tk_type :: token_type
  tk_text :: string
  tk_start :: int
  tk_stop :: int
  tk_channel :: nat

subsection \<open>Query pairs\<close>

record pair_position =
  keyStart :: int
  keyEnd :: int
  operatorStart :: int
  operatorEnd :: int
  valueStart :: "int option"
  valueEnd :: "int option"
  negationStart :: "int option"
  negationEnd :: "int option"

record query_pair =
  qp_key :: string
  qp_operator :: string
  qp_value :: "string option"
  qp_valueList :: "string list"
  qp_hasNegation :: bool
  qp_isMultiValue :: bool
  qp_position :: pair_position
  qp_valuesPosition :: "(int \<times> int) list"
  qp_isComplete :: bool

subsection \<open>Classification of token types\<close>

definition isKeyToken :: "token_type \<Rightarrow> bool" where
  "isKeyToken t \<longleftrightarrow> t = KEY"

definition isOperatorToken :: "token_type \<Rightarrow> bool" where
  "isOperatorToken t \<longleftrightarrow> t \<in> {EQUALS, NOT_EQUALS, NEQ, LT, LE, GT, GE, LIKE, ILIKE, BETWEEN,
     EXISTS, REGEXP, CONTAINS, IN, NOT}"

definition isNonValueOperatorToken :: "token_type \<Rightarrow> bool" where
  "isNonValueOperatorToken t \<longleftrightarrow> t \<in> {EXISTS}"

definition isValueToken :: "token_type \<Rightarrow> bool" where
  "isValueToken t \<longleftrightarrow> t \<in> {QUOTED_TEXT, NUMBER, BOOL, KEY}"

definition isConjunctionToken :: "token_type \<Rightarrow> bool" where
  "isConjunctionToken t \<longleftrightarrow> t \<in> {AND, OR}"

definition isBracketToken :: "token_type \<Rightarrow> bool" where
  "isBracketToken t \<longleftrightarrow> t \<in> {LPAREN, RPAREN, LBRACK, RBRACK}"

definition isFunctionToken :: "token_type \<Rightarrow> bool" where
  "isFunctionToken t \<longleftrightarrow> t \<in> {HAS, HASANY, HASALL, HASTOKEN}"

lemmas token_class_defs = isKeyToken_def isOperatorToken_def isNonValueOperatorToken_def
  isValueToken_def isConjunctionToken_def isBracketToken_def isFunctionToken_def

text \<open>The classes a token can be in: a value token is never an operator, a conjunction or a bracket.\<close>

lemma value_not_operator: "isValueToken t \<Longrightarrow> \<not> isOperatorToken t"
  by (auto simp: token_class_defs)

lemma value_not_conjunction: "isValueToken t \<Longrightarrow> \<not> isConjunctionToken t"
  by (auto simp: token_class_defs)

lemma key_is_value: "isKeyToken t \<Longrightarrow> isValueToken t"
  by (auto simp: token_class_defs)

subsection \<open>Operator words\<close>

text \<open>\<open>OPERATORS\<close> and \<open>QUERY_BUILDER_FUNCTIONS\<close> of \<open>antlrQueryConstants.ts\<close>.\<close>

definition query_builder_functions :: "string list" where
  "query_builder_functions = [''has'', ''hasAny'', ''hasAll'', ''hasToken'']"

definition NON_VALUE_OPERATORS :: "string list" where
  "NON_VALUE_OPERATORS = [''EXISTS'']"

definition negateOperator :: "string \<Rightarrow> string" where
  "negateOperator opf =
     (if opf = ''='' then ''!=''
      else if opf = ''!='' then ''=''
      else ''NOT '' @ opf)"

definition isMultiValueOperator :: "string option \<Rightarrow> bool" where
  "isMultiValueOperator opt =
     (if \<not> truthy_str opt then False
      else (let upperOp = to_upper (the opt) in upperOp = ''IN''))"

definition isWrappedUnderQuotes :: "string \<Rightarrow> bool" where
  "isWrappedUnderQuotes tok =
     (if tok = [] then False
      else (let t = js_trim tok in
        (starts_with [CHR 0x22] t \<and> ends_with [CHR 0x22] t) \<or>
        (starts_with [CHR 0x27] t \<and> ends_with [CHR 0x27] t)))"

definition isFunctionOperator :: "string \<Rightarrow> bool" where
  "isFunctionOperator opr =
     (let sanitized = js_trim opr in
      if list_ex (\<lambda>f. to_lower f = to_lower sanitized) query_builder_functions then True
      else if starts_with ''NOT'' (to_upper sanitized)
        then (let withoutNot = to_lower (drop 4 sanitized)
              in list_ex (\<lambda>f. to_lower f = withoutNot) query_builder_functions)
      else False)"

definition isNonValueOperator :: "string \<Rightarrow> bool" where
  "isNonValueOperator opr =
     (let upperOperator = to_upper opr in
      if upperOperator \<in> set NON_VALUE_OPERATORS then True
      else if starts_with ''NOT'' upperOperator
        then js_trim (drop 4 upperOperator) \<in> set NON_VALUE_OPERATORS
      else False)"

text \<open>
  \<open>isQueryPairComplete\<close> of a partial pair, given by its optional key, operator and value.
\<close>

definition isQueryPairComplete :: "string option \<Rightarrow> string option \<Rightarrow> string option \<Rightarrow> bool" where
  "isQueryPairComplete k opr v =
     (if truthy_str opr \<and> isNonValueOperator (the opr) then truthy_str k \<and> truthy_str opr
      else truthy_str k \<and> truthy_str opr \<and> truthy_str v)"

subsection \<open>Quoting\<close>

definition unquote :: "string \<Rightarrow> string" where
  "unquote str =
     (let trimmed = js_trim str;
          firstChar = js_nth trimmed 0;
          lastChar = js_nth trimmed (int (length trimmed) - 1)
      in if (firstChar = Some (CHR 0x22) \<or> firstChar = Some (CHR 0x27)) \<and> firstChar = lastChar
         then take (length trimmed - 1 - 1) (drop 1 trimmed)
         else trimmed)"

text \<open>
  \<open>/^(["'`])(.*)\1$/\<close>: a quote character, any characters but a line terminator, the same
  quote character.
\<close>

definition line_terminator :: "char \<Rightarrow> bool" where
  "line_terminator c \<longleftrightarrow> c = CHR 0x0A \<or> c = CHR 0x0D"

definition isQuoted :: "string \<Rightarrow> bool" where
  "isQuoted str =
     (let trimmed = js_trim str in
      2 \<le> length trimmed \<and>
      hd trimmed \<in> {CHR 0x22, CHR 0x27, CHR 0x60} \<and>
      list_all (\<lambda>c. \<not> line_terminator c) (butlast (tl trimmed)) \<and>
      last trimmed = hd trimmed)"

lemma unquote_quoted:
  assumes "q = CHR 0x22 \<or> q = CHR 0x27"
  shows "unquote (q # s @ [q]) = s"
proof -
  have "\<not> js_ws q" using assms by (auto simp: js_ws_def)
  then have "js_trim (q # s @ [q]) = q # s @ [q]" by (intro js_trim_fixpoint) auto
  then show ?thesis using assms by (auto simp: unquote_def js_nth_def Let_def nth_append)
qed

end
