(* ===== verification/Filter_Lexer.thy ===== *)
theory Filter_Lexer
  imports Filter_Tokens
begin

section \<open>The lexer of the filter query language\<close>

text \<open>
  The lexer rules of \<open>FilterQuery.g4\<close> with the matching rule of the generated lexer: the
  longest match wins and, among rules of the same length, the first one of the grammar.
  White space is skipped, so no token ever carries the hidden channel. Where no rule
  matches, the lexer reports an error and goes on after the first character that the match
  could not continue with: this happens for a \<open>!\<close> not followed by \<open>=\<close> and for a quote that
  is never closed, which swallows the rest of the input.
\<close>

subsection \<open>Fragments\<close>

definition seg_start :: "char \<Rightarrow> bool" where
  "seg_start c \<longleftrightarrow> is_alpha c \<or> c \<in> set ''$_{@#''"

definition seg_char :: "char \<Rightarrow> bool" where
  "seg_char c \<longleftrightarrow> is_alpha c \<or> is_digit c \<or> c \<in> set ''$_@#{}:-/''"

definition lex_ws :: "char \<Rightarrow> bool" where
  "lex_ws c \<longleftrightarrow> c \<in> {CHR '' '', CHR 0x09, CHR 0x0D, CHR 0x0A}"

definition free_char :: "char \<Rightarrow> bool" where
  "free_char c \<longleftrightarrow> \<not> lex_ws c \<and> c \<notin> {CHR ''='', CHR ''('', CHR '')'', CHR 0x27, CHR 0x22,
     CHR ''<'', CHR ''>'', CHR ''!'', CHR '','', CHR ''['', CHR '']''}"

subsection \<open>Rules\<close>

text \<open>Each rule gives the length of its longest match at the head of the input, 0 for none.\<close>

definition match_lit :: "string \<Rightarrow> string \<Rightarrow> nat" where
  "match_lit w s = (if starts_with w s then length w else 0)"

definition match_word :: "string \<Rightarrow> string \<Rightarrow> nat" where
  "match_word w s = (if to_lower (take (length w) s) = w then length w else 0)"

definition match_sign :: "string \<Rightarrow> nat" where
  "match_sign s = (case s of c # _ \<Rightarrow> (if c = CHR ''+'' \<or> c = CHR ''-'' then 1 else 0) | [] \<Rightarrow> 0)"

definition match_exponent :: "string \<Rightarrow> nat" where
  "match_exponent s =
     (case s of
        [] \<Rightarrow> 0
      | c # r \<Rightarrow>
          (if c = CHR ''e'' \<or> c = CHR ''E'' then
             (let sg = match_sign r; d = run_length is_digit (drop sg r)
              in if 0 < d then 1 + sg + d else 0)
           else 0))"

definition match_fraction :: "string \<Rightarrow> nat" where
  "match_fraction s =
     (case s of c # r \<Rightarrow> (if c = CHR ''.'' then 1 + run_length is_digit r else 0) | [] \<Rightarrow> 0)"

definition match_number :: "string \<Rightarrow> nat" where
  "match_number s =
     (let sg = match_sign s; r = drop sg s; d = run_length is_digit r
      in if 0 < d then
           (let f = match_fraction (drop d r); e = match_exponent (drop f (drop d r))
            in sg + d + f + e)
         else
           (let f = match_fraction r
            in if 1 < f then sg + f + match_exponent (drop f r) else 0))"

text \<open>The rest of a quoted text after its opening quote, with the closing quote; \<open>None\<close> if it never closes.\<close>

fun quoted_rest :: "char \<Rightarrow> string \<Rightarrow> nat option" where
  "quoted_rest q [] = None"
| "quoted_rest q (c # cs) =
     (if c = q then Some 1
      else if c = CHR 0x5C then
        (case cs of [] \<Rightarrow> None | _ # ds \<Rightarrow> map_option (\<lambda>n. n + 2) (quoted_rest q ds))
      else map_option Suc (quoted_rest q cs))"

definition match_quoted :: "string \<Rightarrow> nat" where
  "match_quoted s =
     (case s of
        [] \<Rightarrow> 0
      | c # cs \<Rightarrow>
          (if c = CHR 0x22 \<or> c = CHR 0x27
           then (case quoted_rest c cs of None \<Rightarrow> 0 | Some n \<Rightarrow> Suc n)
           else 0))"

text \<open>What may follow the first segment of a key: \<open>.segment\<close>, \<open>[]\<close>, \<open>[*]\<close> or \<open>.digits\<close>.\<close>

fun key_tail :: "string \<Rightarrow> nat" where
  "key_tail s =
     (case s of
        c # d # r \<Rightarrow>
          (if c = CHR ''.'' \<and> seg_start d then
             2 + run_length seg_char r + key_tail (dropWhile seg_char r)
           else if c = CHR ''.'' \<and> is_digit d then
             2 + run_length is_digit r + key_tail (dropWhile is_digit r)
           else if c = CHR ''['' \<and> d = CHR '']'' then 2 + key_tail r
           else if c = CHR ''['' \<and> d = CHR ''*'' then
             (case r of e # r' \<Rightarrow> (if e = CHR '']'' then 3 + key_tail r' else 0) | [] \<Rightarrow> 0)
           else 0)
      | _ \<Rightarrow> 0)"

declare key_tail.simps [simp del]

definition match_key :: "string \<Rightarrow> nat" where
  "match_key s =
     (case s of
        [] \<Rightarrow> 0
      | c # r \<Rightarrow>
          (if seg_start c then 1 + run_length seg_char r + key_tail (dropWhile seg_char r)
           else 0))"

text \<open>The rules in the order of the grammar.\<close>

definition match_optional_s :: "string \<Rightarrow> string \<Rightarrow> nat" where
  "match_optional_s w s =
     (if 0 < match_word (w @ ''s'') s then match_word (w @ ''s'') s else match_word w s)"

definition lex_rules :: "(token_type \<times> (string \<Rightarrow> nat)) list" where
  "lex_rules =
    [(LPAREN, match_lit ''(''), (RPAREN, match_lit '')''),
     (LBRACK, match_lit ''[''), (RBRACK, match_lit '']''), (COMMA, match_lit '',''),
     (EQUALS, \<lambda>s. max (match_lit ''='' s) (match_lit ''=='' s)),
     (NOT_EQUALS, match_lit ''!=''), (NEQ, match_lit ''<>''),
     (LT, match_lit ''<''), (LE, match_lit ''<=''), (GT, match_lit ''>''), (GE, match_lit ''>=''),
     (LIKE, match_word ''like''), (ILIKE, match_word ''ilike''),
     (BETWEEN, match_word ''between''), (EXISTS, match_optional_s ''exist''),
     (REGEXP, match_word ''regexp''), (CONTAINS, match_optional_s ''contain''),
     (IN, match_word ''in''), (NOT, match_word ''not''), (AND, match_word ''and''),
     (OR, match_word ''or''),
     (HASTOKEN, match_word ''hastoken''), (HAS, match_word ''has''),
     (HASANY, match_word ''hasany''), (HASALL, match_word ''hasall''),
     (BOOL, \<lambda>s. max (match_word ''true'' s) (match_word ''false'' s)),
     (NUMBER, match_number), (QUOTED_TEXT, match_quoted), (KEY, match_key),
     (WS, run_length lex_ws), (FREETEXT, run_length free_char)]"

text \<open>The longest match, the first of the rules that reach it.\<close>

fun longest_match :: "(token_type \<times> (string \<Rightarrow> nat)) list \<Rightarrow> string \<Rightarrow> token_type \<times> nat" where
  "longest_match [] s = (EOF, 0)"
| "longest_match ((t, m) # rs) s =
     (let best = longest_match rs s
      in if 0 < m s \<and> snd best \<le> m s then (t, m s) else best)"

text \<open>How many characters a match that fails has consumed: the whole rest inside a quote, one after \<open>!\<close>.\<close>

definition failed_length :: "string \<Rightarrow> nat" where
  "failed_length s =
     (case s of
        [] \<Rightarrow> 0
      | c # _ \<Rightarrow> (if c = CHR 0x22 \<or> c = CHR 0x27 then length s else 1))"

subsection \<open>The token stream\<close>

definition eof_token :: "nat \<Rightarrow> itoken" where
  "eof_token pos = \<lparr>tk_type = EOF, tk_text = ''<EOF>'', tk_start = int pos,
     tk_stop = int pos - 1, tk_channel = 0\<rparr>"

definition mk_token :: "nat \<Rightarrow> token_type \<Rightarrow> string \<Rightarrow> itoken" where
  "mk_token pos t txt = \<lparr>tk_type = t, tk_text = txt, tk_start = int pos,
     tk_stop = int (pos + length txt) - 1, tk_channel = 0\<rparr>"

function lex_from :: "nat \<Rightarrow> string \<Rightarrow> itoken list" where
  "lex_from pos s =
     (if s = [] then [eof_token pos]
      else
        (let (t, n) = longest_match lex_rules s in
         if n = 0 then
           (let k = min (length s) (failed_length s + 1) in lex_from (pos + k) (drop k s))
         else if t = WS then lex_from (pos + n) (drop n s)
         else mk_token pos t (take n s) # lex_from (pos + n) (drop n s)))"
  by pat_completeness auto
termination by (relation "measure (\<lambda>(pos, s). length s)") auto

declare lex_from.simps [simp del]

text \<open>\<open>tokenStream.fill()\<close> on the lexer of the input: every token, the end of input last.\<close>

definition filter_tokens :: "string \<Rightarrow> itoken list" where
  "filter_tokens s = lex_from 0 s"

text \<open>Whether lexing the input reported an error.\<close>

function lex_error :: "string \<Rightarrow> bool" where
  "lex_error s =
     (if s = [] then False
      else (let n = snd (longest_match lex_rules s) in if n = 0 then True else lex_error (drop n s)))"
  by pat_completeness auto
termination by (relation "measure length") auto

declare lex_error.simps [simp del]

subsection \<open>No rule matches beyond the input\<close>

lemma match_lit_le: "match_lit w s \<le> length s"
  by (auto simp: match_lit_def starts_with_iff)

lemma match_word_le: "match_word w s \<le> length s"
proof (cases "to_lower (take (length w) s) = w")
  case True
  then have "length (take (length w) s) = length w" by (metis length_to_lower)
  with True show ?thesis by (simp add: match_word_def)
next
  case False
  then show ?thesis by (simp add: match_word_def)
qed

lemma match_optional_s_le: "match_optional_s w s \<le> length s"
  by (simp add: match_optional_s_def match_word_le)

lemma match_sign_le: "match_sign s \<le> length s"
  by (auto simp: match_sign_def split: list.splits)

lemma run_length_drop: "n \<le> length s \<Longrightarrow> n + run_length p (drop n s) \<le> length s"
  using length_takeWhile_le [of p "drop n s"] by simp

lemma match_exponent_le: "match_exponent s \<le> length s"
proof (cases s)
  case Nil
  then show ?thesis by (simp add: match_exponent_def)
next
  case (Cons c r)
  have "match_sign r + run_length is_digit (drop (match_sign r) r) \<le> length r"
    by (rule run_length_drop) (rule match_sign_le)
  then show ?thesis by (auto simp: match_exponent_def Cons Let_def)
qed

lemma match_fraction_le: "match_fraction s \<le> length s"
  using length_takeWhile_le [of is_digit] by (auto simp: match_fraction_def split: list.splits)

lemma match_number_le: "match_number s \<le> length s"
proof -
  define sg where "sg = match_sign s"
  define r where "r = drop sg s"
  define d where "d = run_length is_digit r"
  have len: "sg + length r = length s" by (simp add: r_def sg_def match_sign_le)
  have d: "d \<le> length r" by (simp add: d_def length_takeWhile_le)
  have f: "match_fraction (drop d r) \<le> length (drop d r)" by (rule match_fraction_le)
  have e: "match_exponent (drop (match_fraction (drop d r)) (drop d r))
      \<le> length (drop (match_fraction (drop d r)) (drop d r))" by (rule match_exponent_le)
  have f': "match_fraction r \<le> length r" by (rule match_fraction_le)
  have e': "match_exponent (drop (match_fraction r) r) \<le> length (drop (match_fraction r) r)"
    by (rule match_exponent_le)
  show ?thesis
    using len d f e f' e' unfolding match_number_def Let_def
    by (simp add: sg_def [symmetric] r_def [symmetric] d_def [symmetric]) arith
qed

lemma quoted_rest_le: "quoted_rest q s = Some n \<Longrightarrow> 0 < n \<and> n \<le> length s"
  by (induction q s arbitrary: n rule: quoted_rest.induct)
    (fastforce split: if_splits list.splits)+

lemma match_quoted_le: "match_quoted s \<le> length s"
  by (auto simp: match_quoted_def split: list.splits option.splits dest: quoted_rest_le)

lemma run_plus_dropWhile:
  "k (dropWhile p s) \<le> length (dropWhile p s) \<Longrightarrow> run_length p s + k (dropWhile p s) \<le> length s"
  by (metis add_le_cancel_left length_append takeWhile_dropWhile_id)

lemma key_tail_le: "key_tail s \<le> length s"
proof (induction s rule: key_tail.induct)
  case (1 s)
  show ?case
  proof (cases s)
    case Nil
    then show ?thesis by (simp add: key_tail.simps [of "[]"])
  next
    case (Cons c t)
    show ?thesis
    proof (cases t)
      case Nil
      with Cons show ?thesis by (simp add: key_tail.simps [of "[c]"])
    next
      case (Cons d r)
      note s = \<open>s = c # t\<close> Cons
      show ?thesis
        using 1(1) [OF s] 1(2) [OF s] 1(3) [OF s] 1(4) [OF s]
          run_plus_dropWhile [of key_tail seg_char r] run_plus_dropWhile [of key_tail is_digit r]
        by (auto simp: key_tail.simps [of "c # d # r"] s split: list.splits)
    qed
  qed
qed

lemma match_key_le: "match_key s \<le> length s"
  using run_plus_dropWhile [of key_tail seg_char] key_tail_le
  by (auto simp: match_key_def split: list.splits)

lemma lex_rule_le: "(t, m) \<in> set lex_rules \<Longrightarrow> m s \<le> length s"
  unfolding lex_rules_def
  by (auto simp: match_lit_le match_word_le match_optional_s_le match_number_le match_quoted_le
      match_key_le length_takeWhile_le)

lemma longest_match_rule:
  "longest_match rs s = (t, n) \<Longrightarrow> 0 < n \<Longrightarrow> \<exists>m. (t, m) \<in> set rs \<and> n = m s"
  by (induction rs s rule: longest_match.induct) (auto simp: Let_def split: if_splits)

lemma longest_match_le: "longest_match lex_rules s = (t, n) \<Longrightarrow> n \<le> length s"
  by (cases "n = 0") (use longest_match_rule [of lex_rules s t n] lex_rule_le in auto)

lemma EOF_no_rule: "(EOF, m) \<notin> set lex_rules"
  by (simp add: lex_rules_def)

lemma longest_match_not_EOF: "longest_match lex_rules s = (t, n) \<Longrightarrow> 0 < n \<Longrightarrow> t \<noteq> EOF"
  using longest_match_rule [of lex_rules s t n] EOF_no_rule by blast

text \<open>The match is the longest over all rules.\<close>

lemma longest_match_max: "(t, m) \<in> set rs \<Longrightarrow> m s \<le> snd (longest_match rs s)"
  by (induction rs s rule: longest_match.induct) (auto simp: Let_def)

subsection \<open>The laws of a token stream\<close>

text \<open>
  What the clients of the lexer rely on: tokens are slices of the input, they come in the
  order of their positions and do not overlap, the end of input comes last and only there,
  and none of them is hidden.
\<close>

locale tokenizer =
  fixes lex :: "string \<Rightarrow> itoken list"
  assumes lex_text: "t \<in> set (lex s) \<Longrightarrow> tk_type t \<noteq> EOF \<Longrightarrow>
      0 \<le> tk_start t \<and> tk_start t \<le> tk_stop t \<and> tk_stop t < int (length s) \<and>
      tk_text t = js_slice s (tk_start t) (tk_stop t + 1)"
    and lex_ordered: "sorted_wrt (\<lambda>a b. tk_stop a < tk_start b) (lex s)"
    and lex_last: "lex s \<noteq> [] \<and> tk_type (last (lex s)) = EOF"
    and lex_eof: "t \<in> set (butlast (lex s)) \<Longrightarrow> tk_type t \<noteq> EOF"
    and lex_visible: "t \<in> set (lex s) \<Longrightarrow> tk_channel t = 0"
    and lex_start: "t \<in> set (lex s) \<Longrightarrow> 0 \<le> tk_start t"

lemma lex_from_not_Nil [simp]: "lex_from pos s \<noteq> []"
proof (induction pos s rule: lex_from.induct)
  case (1 pos s)
  then show ?case
    by (subst lex_from.simps) (auto simp: Let_def split: prod.splits)
qed

text \<open>One unfolding, as the three things the lexer can do at a non-empty input.\<close>

lemma lex_from_cases:
  assumes "s \<noteq> []"
  obtains (skip) k where "0 < k" "k \<le> length s" "lex_from pos s = lex_from (pos + k) (drop k s)"
  | (token) t n where "longest_match lex_rules s = (t, n)" "0 < n" "n \<le> length s" "t \<noteq> EOF" "t \<noteq> WS"
      "lex_from pos s = mk_token pos t (take n s) # lex_from (pos + n) (drop n s)"
proof -
  obtain t n where m: "longest_match lex_rules s = (t, n)" by fastforce
  note le = longest_match_le [OF m]
  show thesis
  proof (cases "n = 0 \<or> t = WS")
    case True
    define k where "k = (if n = 0 then min (length s) (failed_length s + 1) else n)"
    have "0 < k" "k \<le> length s" "lex_from pos s = lex_from (pos + k) (drop k s)"
      using True assms le by (auto simp: k_def lex_from.simps [of pos s] m Let_def)
    then show thesis by (rule skip)
  next
    case False
    then show thesis
      using assms le longest_match_not_EOF [OF m] by (intro token [OF m]) (auto simp: lex_from.simps [of pos s] m)
  qed
qed

lemma lex_from_positions:
  "t \<in> set (lex_from pos s) \<Longrightarrow> int pos \<le> tk_start t \<and> tk_channel t = 0"
proof (induction "length s" arbitrary: pos s rule: less_induct)
  case less
  show ?case
  proof (cases "s = []")
    case True
    with less.prems show ?thesis by (simp add: lex_from.simps eof_token_def)
  next
    case False
    then show ?thesis
    proof (cases rule: lex_from_cases [where pos = pos])
      case (skip k)
      with less.prems less.hyps [of "drop k s" "pos + k"] False show ?thesis by fastforce
    next
      case (token t' n)
      with less.prems less.hyps [of "drop n s" "pos + n"] False show ?thesis
        by (fastforce simp: mk_token_def)
    qed
  qed
qed

lemma lex_from_text:
  assumes "t \<in> set (lex_from pos s)" "tk_type t \<noteq> EOF"
  shows "tk_start t \<le> tk_stop t \<and> tk_stop t < int (pos + length s) \<and>
    tk_text t = js_slice s (tk_start t - int pos) (tk_stop t + 1 - int pos)"
  using assms
proof (induction "length s" arbitrary: pos s rule: less_induct)
  case less
  have shift: "js_slice (drop k s) (i - int (pos + k)) (j - int (pos + k)) = js_slice s (i - int pos) (j - int pos)"
    if "int (pos + k) \<le> i" "i \<le> j" for i j k
  proof -
    have "k + nat (i - int (pos + k)) = nat (i - int pos)"
      "nat (j - int (pos + k)) - nat (i - int (pos + k)) = nat (j - int pos) - nat (i - int pos)"
      using that by auto
    then show ?thesis by (simp add: js_slice_def add.commute)
  qed
  show ?case
  proof (cases "s = []")
    case True
    with less.prems show ?thesis by (simp add: lex_from.simps eof_token_def)
  next
    case False
    then show ?thesis
    proof (cases rule: lex_from_cases [where pos = pos])
      case (skip k)
      then have t: "t \<in> set (lex_from (pos + k) (drop k s))" using less.prems(1) by simp
      have "int (pos + k) \<le> tk_start t" using lex_from_positions [OF t] by simp
      moreover have "length (drop k s) < length s" using skip(1) False by simp
      ultimately show ?thesis
        using less.hyps [OF _ t less.prems(2)] skip(1,2) shift [of k "tk_start t" "tk_stop t + 1"]
        by auto
    next
      case (token t' n)
      show ?thesis
      proof (cases "t = mk_token pos t' (take n s)")
        case True
        then show ?thesis using token(2,3) by (auto simp: mk_token_def js_slice_def)
      next
        case False
        then have t: "t \<in> set (lex_from (pos + n) (drop n s))" using less.prems(1) token by simp
        have "int (pos + n) \<le> tk_start t" using lex_from_positions [OF t] by simp
        moreover have "length (drop n s) < length s" using token(2) \<open>s \<noteq> []\<close> by simp
        ultimately show ?thesis
          using less.hyps [OF _ t less.prems(2)] token(2,3) shift [of n "tk_start t" "tk_stop t + 1"]
          by auto
      qed
    qed
  qed
qed

lemma lex_from_ordered: "sorted_wrt (\<lambda>a b. tk_stop a < tk_start b) (lex_from pos s)"
proof (induction "length s" arbitrary: pos s rule: less_induct)
  case less
  show ?case
  proof (cases "s = []")
    case True
    then show ?thesis by (simp add: lex_from.simps)
  next
    case False
    then show ?thesis
    proof (cases rule: lex_from_cases [where pos = pos])
      case (skip k)
      with less.hyps [of "drop k s" "pos + k"] show ?thesis by simp
    next
      case (token t n)
      with less.hyps [of "drop n s" "pos + n"] show ?thesis
        by (force simp: mk_token_def dest: lex_from_positions)
    qed
  qed
qed

lemma lex_from_eof:
  "tk_type (last (lex_from pos s)) = EOF \<and> (\<forall>t\<in>set (butlast (lex_from pos s)). tk_type t \<noteq> EOF)"
proof (induction "length s" arbitrary: pos s rule: less_induct)
  case less
  show ?case
  proof (cases "s = []")
    case True
    then show ?thesis by (simp add: lex_from.simps eof_token_def)
  next
    case False
    then show ?thesis
    proof (cases rule: lex_from_cases [where pos = pos])
      case (skip k)
      with less.hyps [of "drop k s" "pos + k"] show ?thesis by simp
    next
      case (token t n)
      with less.hyps [of "drop n s" "pos + n"] show ?thesis by (simp add: mk_token_def)
    qed
  qed
qed

interpretation flex: tokenizer filter_tokens
proof unfold_locales
  fix t s
  assume t: "t \<in> set (filter_tokens s)" and "tk_type t \<noteq> EOF"
  then show "0 \<le> tk_start t \<and> tk_start t \<le> tk_stop t \<and> tk_stop t < int (length s) \<and>
      tk_text t = js_slice s (tk_start t) (tk_stop t + 1)"
    using lex_from_text [of t 0 s] lex_from_positions [of t 0 s] by (simp add: filter_tokens_def)
next
  fix s show "sorted_wrt (\<lambda>a b. tk_stop a < tk_start b) (filter_tokens s)"
    by (simp add: filter_tokens_def lex_from_ordered)
next
  fix s show "filter_tokens s \<noteq> [] \<and> tk_type (last (filter_tokens s)) = EOF"
    by (simp add: filter_tokens_def lex_from_eof)
next
  fix t s assume "t \<in> set (butlast (filter_tokens s))"
  then show "tk_type t \<noteq> EOF" using lex_from_eof [of 0 s] by (simp add: filter_tokens_def)
next
  fix t s assume "t \<in> set (filter_tokens s)"
  then show "tk_channel t = 0" "0 \<le> tk_start t"
    by (auto simp: filter_tokens_def dest: lex_from_positions)
qed

end
