(* ===== verification/Query_Pairs.thy ===== *)
theory Query_Pairs
  imports Filter_Lexer
begin

section \<open>Extracting key-operator-value triplets from a query\<close>

text \<open>
  \<open>extractQueryPairs\<close>, \<open>getCurrentQueryPair\<close> and \<open>getCurrentValueIndexAtCursor\<close> of
  \<open>queryContextUtils.ts\<close>. The loop over the tokens is a recursion over the tokens that are
  left, with the pair under construction (\<open>currentPair\<close>) and the pairs found so far as
  arguments. Reading a token past the end throws in the code, which the model writes as
  \<open>None\<close>; the \<open>catch\<close> of the code turns it into the empty array. The guard that counts
  stack frames is not modelled: the function never calls itself.
\<close>

subsection \<open>The pair under construction\<close>

record partial_pair =
  pp_key :: string
  pp_operator :: "string option"
  pp_value :: "string option"
  pp_valueList :: "string list option"
  pp_valuesPosition :: "(int \<times> int) list option"
  pp_hasNegation :: "bool option"
  pp_isMultiValue :: "bool option"
  pp_position :: pair_position

definition new_pair :: "itoken \<Rightarrow> partial_pair" where
  "new_pair tok =
     \<lparr>pp_key = tk_text tok, pp_operator = None, pp_value = None, pp_valueList = None,
      pp_valuesPosition = None, pp_hasNegation = None, pp_isMultiValue = None,
      pp_position =
        \<lparr>keyStart = tk_start tok, keyEnd = tk_stop tok, operatorStart = 0, operatorEnd = 0,
         valueStart = None, valueEnd = None, negationStart = None, negationEnd = None\<rparr>\<rparr>"

definition or_list :: "'a list option \<Rightarrow> 'a list" where
  "or_list a = (case a of Some xs \<Rightarrow> xs | None \<Rightarrow> [])"

definition or_false :: "bool option \<Rightarrow> bool" where
  "or_false a = (case a of Some b \<Rightarrow> b | None \<Rightarrow> False)"

text \<open>The object pushed to the result.\<close>

definition finish_pair :: "partial_pair \<Rightarrow> query_pair" where
  "finish_pair p =
     \<lparr>qp_key = pp_key p,
      qp_operator = str_or (pp_operator p) '''',
      qp_value = pp_value p,
      qp_valueList = or_list (pp_valueList p),
      qp_hasNegation = or_false (pp_hasNegation p),
      qp_isMultiValue = or_false (pp_isMultiValue p),
      qp_position =
        \<lparr>keyStart = keyStart (pp_position p), keyEnd = keyEnd (pp_position p),
         operatorStart = operatorStart (pp_position p), operatorEnd = operatorEnd (pp_position p),
         valueStart = valueStart (pp_position p), valueEnd = valueEnd (pp_position p),
         negationStart = Some (num_or (negationStart (pp_position p)) 0),
         negationEnd = Some (num_or (negationEnd (pp_position p)) 0)\<rparr>,
      qp_valuesPosition = or_list (pp_valuesPosition p),
      qp_isComplete = (pp_key p \<noteq> [] \<and> truthy_str (pp_operator p) \<and> truthy_str (pp_value p))\<rparr>"

text \<open>\<open>currentPair && currentPair.key\<close>\<close>

definition has_key :: "partial_pair option \<Rightarrow> bool" where
  "has_key cur = (case cur of Some p \<Rightarrow> pp_key p \<noteq> [] | None \<Rightarrow> False)"

text \<open>A \<open>NOT\<close> token.\<close>

definition negate_pair :: "itoken \<Rightarrow> partial_pair \<Rightarrow> partial_pair" where
  "negate_pair tok p = p\<lparr>pp_hasNegation := Some True,
     pp_position := (pp_position p)\<lparr>negationStart := Some (tk_start tok), negationEnd := Some (tk_stop tok)\<rparr>\<rparr>"

text \<open>A value token.\<close>

definition value_pair :: "itoken \<Rightarrow> partial_pair \<Rightarrow> partial_pair" where
  "value_pair tok p = p\<lparr>pp_value := Some (tk_text tok),
     pp_position := (pp_position p)\<lparr>valueStart := Some (tk_start tok), valueEnd := Some (tk_stop tok),
       negationStart := Some (num_or (negationStart (pp_position p)) 0),
       negationEnd := Some (num_or (negationEnd (pp_position p)) 0)\<rparr>\<rparr>"

text \<open>
  The inner loop over the values of \<open>IN\<close>: the value tokens before the closing token and
  the tokens from the closing token on; \<open>None\<close> when the tokens run out first.
\<close>

fun collect_values :: "token_type \<Rightarrow> itoken list \<Rightarrow> (itoken list \<times> itoken list) option" where
  "collect_values closing [] = None"
| "collect_values closing (tok # toks) =
     (if tk_type tok = closing then Some ([], tok # toks)
      else (case collect_values closing toks of
              None \<Rightarrow> None
            | Some (vs, rest) \<Rightarrow> Some ((if isValueToken (tk_type tok) then tok # vs else vs), rest)))"

text \<open>
  The multi-value part of the operator branch, from the token after the operator: the
  values, the start and end of the list, and the tokens left. With a bracket the tokens
  left begin with the closing one, which the outer loop then skips.
\<close>

definition multi_values ::
  "itoken list \<Rightarrow> (itoken list \<times> int option \<times> int option \<times> itoken list) option" where
  "multi_values toks =
     (case toks of
        [] \<Rightarrow> None
      | tok # rest \<Rightarrow>
          (if tk_type tok = LPAREN \<or> tk_type tok = LBRACK then
             (let closing = (if tk_type tok = LPAREN then RPAREN else RBRACK) in
              case collect_values closing rest of
                None \<Rightarrow> None
              | Some (vs, rest') \<Rightarrow> Some (vs, Some (tk_start tok), map_option tk_stop (js_nth rest' 0), rest'))
           else if isValueToken (tk_type tok) then
             Some ([tok], Some (tk_start tok), Some (tk_stop tok), rest)
           else Some ([], None, None, tok # rest)))"

text \<open>An operator token: the pair with the operator, and the tokens left.\<close>

definition operator_pair ::
  "string \<Rightarrow> itoken \<Rightarrow> itoken list \<Rightarrow> partial_pair \<Rightarrow> (partial_pair \<times> itoken list) option" where
  "operator_pair query tok toks p =
     (let positioned = (\<lambda>p ms me. p\<lparr>pp_operator := Some (tk_text tok),
            pp_position := (pp_position p)\<lparr>operatorStart := tk_start tok, operatorEnd := tk_stop tok,
              valueStart := or_num ms (valueStart (pp_position p)),
              valueEnd := or_num me (valueEnd (pp_position p)),
              negationStart := Some (num_or (negationStart (pp_position p)) 0),
              negationEnd := Some (num_or (negationEnd (pp_position p)) 0)\<rparr>\<rparr>)
      in if isMultiValueOperator (Some (tk_text tok)) then
           (case multi_values toks of
              None \<Rightarrow> None
            | Some (vs, ms, me, rest) \<Rightarrow>
                (let p1 = p\<lparr>pp_isMultiValue := Some True,
                            pp_valuesPosition := Some (map (\<lambda>v. (tk_start v, tk_stop v)) vs),
                            pp_valueList := Some (map tk_text vs)\<rparr>;
                     p2 = (if truthy_num ms \<and> truthy_num me
                           then p1\<lparr>pp_value := Some (js_slice query (the ms) (the me + 1))\<rparr> else p1)
                 in Some (positioned p2 ms me, rest)))
         else Some (positioned p None None, toks))"

subsection \<open>The loop\<close>

lemma collect_values_length: "collect_values c ts = Some (vs, rest) \<Longrightarrow> length rest \<le> length ts"
  by (induction c ts arbitrary: vs rest rule: collect_values.induct)
    (fastforce split: if_splits option.splits prod.splits)+

lemma multi_values_length: "multi_values ts = Some (vs, ms, me, rest) \<Longrightarrow> length rest \<le> length ts"
  by (auto simp: multi_values_def Let_def split: list.splits if_splits option.splits prod.splits
      dest!: collect_values_length)

lemma operator_pair_length [termination_simp]:
  "operator_pair q tok ts p = Some (p', rest) \<Longrightarrow> length rest < Suc (length ts)"
  by (auto simp: operator_pair_def Let_def split: if_splits option.splits prod.splits
      dest!: multi_values_length)

fun pairs_loop ::
  "string \<Rightarrow> partial_pair option \<Rightarrow> itoken list \<Rightarrow> query_pair list option" where
  "pairs_loop query cur [] =
     (if has_key cur then Some [finish_pair (the cur)] else Some [])"
| "pairs_loop query cur (tok # toks) =
     (if tk_type tok = EOF \<or> tk_channel tok \<noteq> 0 then pairs_loop query cur toks
      else if tk_type tok = KEY \<and> \<not> has_key cur then
        pairs_loop query (Some (new_pair tok)) toks
      else if tk_type tok = NOT \<and> cur \<noteq> None then
        pairs_loop query (Some (negate_pair tok (the cur))) toks
      else if isOperatorToken (tk_type tok) \<and> has_key cur \<and> \<not> truthy_str (pp_operator (the cur)) then
        (case operator_pair query tok toks (the cur) of
           None \<Rightarrow> None
         | Some (p, rest) \<Rightarrow> pairs_loop query (Some p) rest)
      else if isValueToken (tk_type tok) \<and> has_key cur \<and> truthy_str (pp_operator (the cur)) \<and>
              \<not> isNonValueOperator (the (pp_operator (the cur))) \<and> \<not> truthy_str (pp_value (the cur)) then
        pairs_loop query (Some (value_pair tok (the cur))) toks
      else if has_key cur \<and> (isConjunctionToken (tk_type tok) \<or> tk_type tok = KEY) then
        map_option (\<lambda>ps. finish_pair (the cur) # ps)
          (pairs_loop query (if tk_type tok = KEY then Some (new_pair tok) else None) toks)
      else pairs_loop query cur toks)"

text \<open>
  \<open>extractQueryPairs\<close> over a lexer: the pairs in the order of the query, and the empty
  array where the loop threw. The code runs it on the lexer of \<open>FilterQuery.g4\<close>.
\<close>

definition extract_pairs_with :: "(string \<Rightarrow> itoken list) \<Rightarrow> string \<Rightarrow> query_pair list" where
  "extract_pairs_with lexer query =
     (case pairs_loop query None (lexer query) of Some ps \<Rightarrow> ps | None \<Rightarrow> [])"

definition extractQueryPairs :: "string \<Rightarrow> query_pair list" where
  "extractQueryPairs query = extract_pairs_with filter_tokens query"

subsection \<open>The pair at the cursor\<close>

definition pair_end :: "query_pair \<Rightarrow> int" where
  "pair_end p = (let pos = qp_position p in
     num_or (valueEnd pos) (if operatorEnd pos \<noteq> 0 then operatorEnd pos else keyEnd pos))"

text \<open>The first position from \<open>i\<close> on that is past the query or holds no space.\<close>

definition skip_spaces :: "string \<Rightarrow> int \<Rightarrow> int" where
  "skip_spaces query i = i + int (length (takeWhile (\<lambda>c. c = CHR '' '') (drop (nat i) query)))"

definition getEndIndexAfterSpaces :: "query_pair \<Rightarrow> string \<Rightarrow> int" where
  "getEndIndexAfterSpaces p query = skip_spaces query (pair_end p + 1)"

definition pair_matches :: "string \<Rightarrow> int \<Rightarrow> query_pair \<Rightarrow> bool" where
  "pair_matches query cursorIndex p =
     (let pairEnd = pair_end p; pairStart = keyStart (qp_position p)
      in (cursorIndex \<le> pairEnd \<and> pairStart \<le> cursorIndex) \<or>
         (\<not> qp_isComplete p \<and> pairStart \<le> cursorIndex \<and>
          cursorIndex \<le> getEndIndexAfterSpaces p query))"

fun best_match :: "string \<Rightarrow> int \<Rightarrow> query_pair option \<Rightarrow> query_pair list \<Rightarrow> query_pair option" where
  "best_match query cursorIndex best [] = best"
| "best_match query cursorIndex best (p # ps) =
     best_match query cursorIndex
       (if pair_matches query cursorIndex p \<and>
           (case best of None \<Rightarrow> True | Some b \<Rightarrow> pair_end b < pair_end p)
        then Some p else best) ps"

definition getCurrentQueryPair :: "query_pair list \<Rightarrow> string \<Rightarrow> int \<Rightarrow> query_pair option" where
  "getCurrentQueryPair queryPairs query cursorIndex =
     (if queryPairs = [] then None
      else (case best_match query cursorIndex None queryPairs of
              Some p \<Rightarrow> Some p
            | None \<Rightarrow>
                (if cursorIndex = 0 then None
                 else if int (length query) \<le> cursorIndex then Some (last queryPairs)
                 else None)))"

text \<open>The index of the value that contains the cursor; a position without a start or an end never does.\<close>

fun value_index_from :: "nat \<Rightarrow> (int option \<times> int option) list \<Rightarrow> int \<Rightarrow> nat option" where
  "value_index_from i [] cursorIndex = None"
| "value_index_from i ((Some s, Some e) # vs) cursorIndex =
     (if s \<le> cursorIndex \<and> cursorIndex \<le> e then Some i else value_index_from (Suc i) vs cursorIndex)"
| "value_index_from i (_ # vs) cursorIndex = value_index_from (Suc i) vs cursorIndex"

definition getCurrentValueIndexAtCursor :: "(int option \<times> int option) list \<Rightarrow> int \<Rightarrow> nat option" where
  "getCurrentValueIndexAtCursor valuesPosition cursorIndex = value_index_from 0 valuesPosition cursorIndex"

subsection \<open>Where the pairs lie in the query\<close>

text \<open>
  The specification: the key, the operator and the value of a pair are the text between the
  positions recorded for them, in this order and without overlap.
\<close>

definition spans :: "string \<Rightarrow> int \<Rightarrow> int \<Rightarrow> string \<Rightarrow> bool" where
  "spans q i j txt \<longleftrightarrow> 0 \<le> i \<and> i \<le> j \<and> j < int (length q) \<and> txt = js_slice q i (j + 1)"

definition pair_in_query :: "string \<Rightarrow> query_pair \<Rightarrow> bool" where
  "pair_in_query q p \<longleftrightarrow>
     (let pos = qp_position p in
      spans q (keyStart pos) (keyEnd pos) (qp_key p) \<and>
      (qp_operator p \<noteq> [] \<longrightarrow>
         keyEnd pos < operatorStart pos \<and> spans q (operatorStart pos) (operatorEnd pos) (qp_operator p)) \<and>
      (case qp_value p of
         None \<Rightarrow> valueStart pos = None \<and> valueEnd pos = None
       | Some v \<Rightarrow> qp_operator p \<noteq> [] \<and>
           (\<exists>i j. valueStart pos = Some i \<and> valueEnd pos = Some j \<and> operatorEnd pos < i \<and> spans q i j v)) \<and>
      list_all2 (\<lambda>(i, j) v. spans q i j v) (qp_valuesPosition p) (qp_valueList p))"

text \<open>The same for the pair under construction, none of it past the position \<open>lo\<close>.\<close>

definition partial_in_query :: "string \<Rightarrow> int \<Rightarrow> partial_pair \<Rightarrow> bool" where
  "partial_in_query q lo p \<longleftrightarrow>
     (let pos = pp_position p in
      spans q (keyStart pos) (keyEnd pos) (pp_key p) \<and> keyEnd pos \<le> lo \<and>
      (case pp_operator p of
         None \<Rightarrow> operatorEnd pos = 0
       | Some opr \<Rightarrow> opr \<noteq> [] \<and> keyEnd pos < operatorStart pos \<and> operatorEnd pos \<le> lo \<and>
           spans q (operatorStart pos) (operatorEnd pos) opr) \<and>
      (case pp_value p of
         None \<Rightarrow> valueStart pos = None \<and> valueEnd pos = None
       | Some v \<Rightarrow> pp_operator p \<noteq> None \<and>
           (\<exists>i j. valueStart pos = Some i \<and> valueEnd pos = Some j \<and> operatorEnd pos < i \<and> j \<le> lo \<and> spans q i j v)) \<and>
      list_all2 (\<lambda>(i, j) v. spans q i j v) (or_list (pp_valuesPosition p)) (or_list (pp_valueList p)))"

definition token_in_query :: "string \<Rightarrow> itoken \<Rightarrow> bool" where
  "token_in_query q t \<longleftrightarrow> tk_type t = EOF \<or> spans q (tk_start t) (tk_stop t) (tk_text t)"

text \<open>The tokens still to come: in order, in the query and, but for closing brackets, past \<open>lo\<close>.\<close>

definition is_closer :: "itoken \<Rightarrow> bool" where
  "is_closer t \<longleftrightarrow> tk_type t = RPAREN \<or> tk_type t = RBRACK"

definition ahead :: "string \<Rightarrow> int \<Rightarrow> itoken list \<Rightarrow> bool" where
  "ahead q lo toks \<longleftrightarrow>
     (\<forall>t\<in>set toks. token_in_query q t \<and> (is_closer t \<or> lo < tk_start t)) \<and>
     sorted_wrt (\<lambda>a b. tk_stop a < tk_start b) toks"

lemma aheadD:
  assumes "ahead q lo (t # ts)"
  shows "ahead q lo ts" "token_in_query q t" "\<not> is_closer t \<Longrightarrow> lo < tk_start t"
    "tk_type t \<noteq> EOF \<Longrightarrow> \<not> is_closer t \<Longrightarrow> ahead q (tk_stop t) ts"
  using assms by (auto simp: ahead_def)

lemma token_spans: "token_in_query q t \<Longrightarrow> tk_type t \<noteq> EOF \<Longrightarrow> spans q (tk_start t) (tk_stop t) (tk_text t)"
  by (simp add: token_in_query_def)

lemma spans_not_Nil: "spans q i j txt \<Longrightarrow> txt \<noteq> []"
  by (auto simp: spans_def js_slice_def)

lemma new_pair_ok:
  "token_in_query q t \<Longrightarrow> tk_type t \<noteq> EOF \<Longrightarrow> partial_in_query q (tk_stop t) (new_pair t)"
  by (simp add: partial_in_query_def new_pair_def token_in_query_def or_list_def spans_def Let_def)

lemma negate_pair_ok: "partial_in_query q lo p \<Longrightarrow> partial_in_query q lo (negate_pair t p)"
  by (auto simp: partial_in_query_def negate_pair_def Let_def split: option.splits)

lemma partial_mono: "partial_in_query q lo p \<Longrightarrow> lo \<le> lo' \<Longrightarrow> partial_in_query q lo' p"
  unfolding partial_in_query_def Let_def by (fastforce split: option.splits)

lemma value_pair_ok:
  assumes "partial_in_query q lo p" "token_in_query q t" "tk_type t \<noteq> EOF" "lo < tk_start t"
    "truthy_str (pp_operator p)"
  shows "partial_in_query q (tk_stop t) (value_pair t p)"
proof -
  have s: "spans q (tk_start t) (tk_stop t) (tk_text t)" using assms(2,3) by (rule token_spans)
  then have "tk_start t \<le> tk_stop t" by (simp add: spans_def)
  with s assms(1,4,5) show ?thesis
    by (auto simp: partial_in_query_def value_pair_def Let_def truthy_str_def split: option.splits)
qed

lemma finish_pair_ok: "partial_in_query q lo p \<Longrightarrow> pair_in_query q (finish_pair p)"
  by (auto simp: partial_in_query_def pair_in_query_def finish_pair_def Let_def str_or_def
      dest: spans_not_Nil split: option.splits)

lemma finish_pair_end: "partial_in_query q lo p \<Longrightarrow> pair_end (finish_pair p) \<le> lo"
  by (auto simp: partial_in_query_def pair_end_def finish_pair_def Let_def num_or_def spans_def
      split: option.splits)

lemma finish_pair_keyStart [simp]: "keyStart (qp_position (finish_pair p)) = keyStart (pp_position p)"
  by (simp add: finish_pair_def)

subsection \<open>The loop keeps the positions\<close>

lemma collect_values_Some:
  "collect_values c ts = Some (vs, rest) \<Longrightarrow>
     \<exists>pre cl post. ts = pre @ cl # post \<and> rest = cl # post \<and> tk_type cl = c \<and>
       vs = filter (\<lambda>t. isValueToken (tk_type t)) pre \<and> (\<forall>t\<in>set pre. tk_type t \<noteq> c)"
proof (induction c ts arbitrary: vs rest rule: collect_values.induct)
  case (1 closing)
  then show ?case by simp
next
  case (2 closing tok toks)
  show ?case
  proof (cases "tk_type tok = closing")
    case True
    with 2(2) show ?thesis by (intro exI [of _ "[]"]) auto
  next
    case False
    with 2(2) obtain vs' where c: "collect_values closing toks = Some (vs', rest)"
      and vs: "vs = (if isValueToken (tk_type tok) then tok # vs' else vs')"
      by (auto split: option.splits)
    from 2(1) [OF False c] obtain pre cl post where
      "toks = pre @ cl # post" "rest = cl # post" "tk_type cl = closing"
      "vs' = filter (\<lambda>t. isValueToken (tk_type t)) pre" "\<forall>t\<in>set pre. tk_type t \<noteq> closing"
      by blast
    with vs False show ?thesis by (intro exI [of _ "tok # pre"]) auto
  qed
qed

lemma collect_values_None:
  "collect_values c ts = None \<longleftrightarrow> (\<forall>t\<in>set ts. tk_type t \<noteq> c)"
  by (induction c ts rule: collect_values.induct) (auto split: option.splits)

text \<open>What the multi-value part finds lies past \<open>lo\<close> and before every token left but closing brackets.\<close>

lemma multi_values_ok:
  assumes "multi_values ts = Some (vs, ms, me, rest)" "ahead q lo ts"
  shows "(ms = None \<and> me = None \<and> vs = [] \<and> rest = ts) \<or>
    (\<exists>i j. ms = Some i \<and> me = Some j \<and> lo < i \<and> i \<le> j \<and> j < int (length q) \<and> ahead q j rest \<and>
       (\<forall>v\<in>set vs. spans q (tk_start v) (tk_stop v) (tk_text v)))"
proof (cases ts)
  case Nil
  with assms show ?thesis by (simp add: multi_values_def)
next
  case (Cons t ts')
  note tok = aheadD [OF assms(2) [unfolded Cons]]
  consider (bracket) "tk_type t = LPAREN \<or> tk_type t = LBRACK"
    | (val) "tk_type t \<noteq> LPAREN" "tk_type t \<noteq> LBRACK" "isValueToken (tk_type t)"
    | (neither) "tk_type t \<noteq> LPAREN" "tk_type t \<noteq> LBRACK" "\<not> isValueToken (tk_type t)" by blast
  then show ?thesis
  proof cases
    case bracket
    define closing where "closing = (if tk_type t = LPAREN then RPAREN else RBRACK)"
    have closing: "closing \<noteq> EOF" by (simp add: closing_def)
    have mv: "multi_values ts = (case collect_values closing ts' of None \<Rightarrow> None
        | Some (vs, r) \<Rightarrow> Some (vs, Some (tk_start t), map_option tk_stop (js_nth r 0), r))"
      using bracket by (simp add: multi_values_def Cons closing_def)
    obtain r0 where c0: "collect_values closing ts' = Some (vs, r0)"
      and r0: "ms = Some (tk_start t)" "me = map_option tk_stop (js_nth r0 0)" "rest = r0"
    proof (cases "collect_values closing ts'")
      case None
      with mv assms(1) show ?thesis by simp
    next
      case (Some vr)
      with mv assms(1) that show ?thesis by (cases vr) simp
    qed
    then obtain cl post where c: "collect_values closing ts' = Some (vs, cl # post)"
      and r: "ms = Some (tk_start t)" "me = Some (tk_stop cl)" "rest = cl # post"
      using collect_values_Some [OF c0] by (auto simp: js_nth_def)
    from collect_values_Some [OF c] obtain pre where
      ts': "ts' = pre @ cl # post" "tk_type cl = closing" "vs = filter (\<lambda>t. isValueToken (tk_type t)) pre"
      by auto
    have sp_t: "spans q (tk_start t) (tk_stop t) (tk_text t)" "lo < tk_start t"
      using tok bracket by (auto intro!: token_spans simp: is_closer_def)
    have cl_in: "cl \<in> set ts'" using ts' by simp
    have sp_cl: "spans q (tk_start cl) (tk_stop cl) (tk_text cl)"
      using tok(1) cl_in ts'(2) closing by (auto intro!: token_spans simp: ahead_def)
    have order: "tk_stop t < tk_start cl" using assms(2) cl_in by (simp add: Cons ahead_def)
    have "ahead q (tk_stop cl) (cl # post)"
      using tok(1) ts' by (auto simp: ahead_def is_closer_def closing_def sorted_wrt_append)
    moreover have "spans q (tk_start v) (tk_stop v) (tk_text v)" if "v \<in> set vs" for v
      using that ts' tok(1) by (intro token_spans) (auto simp: ahead_def isValueToken_def)
    ultimately show ?thesis
      using r sp_t sp_cl order by (auto simp: spans_def)
  next
    case val
    then have "vs = [t]" "ms = Some (tk_start t)" "me = Some (tk_stop t)" "rest = ts'"
      using assms(1) by (auto simp: multi_values_def Cons)
    moreover have "tk_type t \<noteq> EOF" "\<not> is_closer t" using val by (auto simp: isValueToken_def is_closer_def)
    ultimately show ?thesis using tok token_spans [of q t] by (auto simp: spans_def)
  next
    case neither
    then show ?thesis using assms(1) by (auto simp: multi_values_def Cons)
  qed
qed

lemma operator_pair_ok:
  assumes "operator_pair q t ts p = Some (p', rest)" "partial_in_query q lo p" "ahead q lo (t # ts)"
    "isOperatorToken (tk_type t)" "\<not> truthy_str (pp_operator p)"
  shows "keyStart (pp_position p') = keyStart (pp_position p) \<and>
    (\<exists>lo'. lo \<le> lo' \<and> partial_in_query q lo' p' \<and> ahead q lo' rest)"
proof -
  have t: "tk_type t \<noteq> EOF" "\<not> is_closer t"
    using assms(4) by (auto simp: isOperatorToken_def is_closer_def)
  note tok = aheadD [OF assms(3)]
  have sp: "spans q (tk_start t) (tk_stop t) (tk_text t)" using tok(2) t(1) by (rule token_spans)
  have lt: "lo < tk_start t" "tk_start t \<le> tk_stop t" using tok(3) t sp by (auto simp: spans_def)
  have opn: "pp_operator p = None" "pp_value p = None" "valueStart (pp_position p) = None"
      "valueEnd (pp_position p) = None"
    using assms(2,5) by (auto simp: partial_in_query_def Let_def truthy_str_def split: option.splits)
  note ahead_ts = tok(4) [OF t]
  show ?thesis
  proof (cases "isMultiValueOperator (Some (tk_text t))")
    case False
    then have "rest = ts" using assms(1) by (simp add: operator_pair_def)
    moreover have "partial_in_query q (tk_stop t) p'"
      using False assms(1,2) sp lt opn spans_not_Nil [OF sp]
      by (auto simp: operator_pair_def partial_in_query_def Let_def or_num_def)
    ultimately show ?thesis
      using ahead_ts lt assms(1) False by (auto simp: operator_pair_def intro!: exI [of _ "tk_stop t"])
  next
    case True
    then obtain vs ms me where mv: "multi_values ts = Some (vs, ms, me, rest)"
      using assms(1) by (auto simp: operator_pair_def Let_def split: option.splits)
    have vals: "list_all2 (\<lambda>(i, j) v. spans q i j v) (map (\<lambda>v. (tk_start v, tk_stop v)) vs) (map tk_text vs)"
      if "\<forall>v\<in>set vs. spans q (tk_start v) (tk_stop v) (tk_text v)"
      using that by (simp add: list_all2_map1 list_all2_map2 list_all2_same)
    from multi_values_ok [OF mv ahead_ts] show ?thesis
    proof (elim disjE exE conjE)
      assume "ms = None" "me = None" "vs = []" "rest = ts"
      moreover from this have "partial_in_query q (tk_stop t) p'"
        using True mv assms(1,2) sp lt opn spans_not_Nil [OF sp]
        by (auto simp: operator_pair_def partial_in_query_def Let_def or_num_def truthy_num_def or_list_def)
      ultimately show ?thesis
        using ahead_ts lt assms(1) True mv
        by (auto simp: operator_pair_def Let_def truthy_num_def intro!: exI [of _ "tk_stop t"])
    next
      fix i j
      assume r: "ms = Some i" "me = Some j" "tk_stop t < i" "i \<le> j" "j < int (length q)" "ahead q j rest"
        "\<forall>v\<in>set vs. spans q (tk_start v) (tk_stop v) (tk_text v)"
      have pos: "0 < i" using r(3) sp by (simp add: spans_def)
      have p': "p' = p\<lparr>pp_operator := Some (tk_text t), pp_value := Some (js_slice q i (j + 1)),
            pp_valueList := Some (map tk_text vs),
            pp_valuesPosition := Some (map (\<lambda>v. (tk_start v, tk_stop v)) vs),
            pp_isMultiValue := Some True,
            pp_position := (pp_position p)\<lparr>operatorStart := tk_start t, operatorEnd := tk_stop t,
              valueStart := Some i, valueEnd := Some j,
              negationStart := Some (num_or (negationStart (pp_position p)) 0),
              negationEnd := Some (num_or (negationEnd (pp_position p)) 0)\<rparr>\<rparr>"
        using assms(1) True mv r(1,2,4) pos
        by (cases p) (auto simp: operator_pair_def Let_def truthy_num_def or_num_def)
      have "partial_in_query q j p'"
        using assms(2) sp lt r pos spans_not_Nil [OF sp] vals
        by (auto simp: p' partial_in_query_def Let_def or_list_def spans_def)
      with r lt show ?thesis by (auto simp: p' intro!: exI [of _ j])
    qed
  qed
qed

definition cur_in_query :: "string \<Rightarrow> int \<Rightarrow> partial_pair option \<Rightarrow> bool" where
  "cur_in_query q lo cur \<longleftrightarrow> (\<forall>p. cur = Some p \<longrightarrow> partial_in_query q lo p)"

text \<open>The least key start a pair of the result can have.\<close>

definition starts_after :: "int \<Rightarrow> partial_pair option \<Rightarrow> query_pair \<Rightarrow> bool" where
  "starts_after lo cur p \<longleftrightarrow>
     (case cur of None \<Rightarrow> lo < keyStart (qp_position p)
      | Some c \<Rightarrow> keyStart (pp_position c) \<le> keyStart (qp_position p))"

definition pairs_in_query :: "string \<Rightarrow> int \<Rightarrow> partial_pair option \<Rightarrow> query_pair list \<Rightarrow> bool" where
  "pairs_in_query q lo cur ps \<longleftrightarrow>
     list_all (pair_in_query q) ps \<and>
     sorted_wrt (\<lambda>a b. pair_end a < keyStart (qp_position b)) ps \<and>
     list_all (starts_after lo cur) ps"

lemma partial_has_key: "partial_in_query q lo p \<Longrightarrow> pp_key p \<noteq> []"
  by (auto simp: partial_in_query_def Let_def dest: spans_not_Nil)

lemma partial_keyStart: "partial_in_query q lo p \<Longrightarrow> keyStart (pp_position p) \<le> lo"
  by (auto simp: partial_in_query_def Let_def spans_def)

lemma pairs_in_query_same_key:
  "pairs_in_query q lo' (Some p') ps \<Longrightarrow> keyStart (pp_position p') = keyStart (pp_position p) \<Longrightarrow>
     pairs_in_query q lo (Some p) ps"
  by (simp add: pairs_in_query_def starts_after_def list_all_iff)

lemma pairs_in_query_push:
  assumes "partial_in_query q lo p" "pairs_in_query q lo' cur' ps" "lo \<le> lo'"
    "\<And>c. cur' = Some c \<Longrightarrow> lo < keyStart (pp_position c)"
  shows "pairs_in_query q lo (Some p) (finish_pair p # ps)"
proof -
  have later: "lo < keyStart (qp_position x)" if "x \<in> set ps" for x
    using assms(2-4) that by (fastforce simp: pairs_in_query_def starts_after_def list_all_iff split: option.splits)
  then show ?thesis
    using assms(1,2) finish_pair_ok [OF assms(1)] finish_pair_end [OF assms(1)] partial_keyStart [OF assms(1)]
    by (fastforce simp: pairs_in_query_def starts_after_def list_all_iff)
qed

lemma pairs_loop_in_query:
  assumes "pairs_loop q cur toks = Some ps" "cur_in_query q lo cur" "ahead q lo toks"
  shows "pairs_in_query q lo cur ps"
  using assms
proof (induction q cur toks arbitrary: lo ps rule: pairs_loop.induct)
  case (1 q cur)
  then show ?case
    using pairs_in_query_push [of q lo _ lo None "[]"]
    by (auto simp: pairs_in_query_def cur_in_query_def starts_after_def has_key_def
        dest: partial_has_key split: option.splits if_splits)
next
  case (2 q cur t ts)
  note IH = "2.IH" and eq = "2.prems"(1) and cur = "2.prems"(2)
  note tok = aheadD [OF "2.prems"(3)]
  have key: "has_key cur \<longleftrightarrow> cur \<noteq> None"
    using cur by (auto simp: has_key_def cur_in_query_def dest: partial_has_key split: option.splits)
  have closer: "tk_type t \<noteq> EOF \<Longrightarrow> tk_start t \<le> tk_stop t"
    using token_spans [OF tok(2)] by (auto simp: spans_def)
  show ?case
  proof (cases "tk_type t = EOF \<or> tk_channel t \<noteq> 0")
    case True
    with eq have "pairs_loop q cur ts = Some ps" by simp
    with IH(1) [OF True] cur tok(1) show ?thesis by blast
  next
    case c1: False
    then have ne: "tk_type t \<noteq> EOF" by simp
    note ge = closer [OF ne]
    show ?thesis
    proof (cases "tk_type t = KEY \<and> \<not> has_key cur")
      case True
      with eq c1 have "pairs_loop q (Some (new_pair t)) ts = Some ps" by simp
      moreover have nc: "\<not> is_closer t" "cur = None" using True key by (auto simp: is_closer_def)
      ultimately have "pairs_in_query q (tk_stop t) (Some (new_pair t)) ps"
        using IH(2) [OF c1 True] new_pair_ok [OF tok(2) ne] tok(4) [OF ne] by (simp add: cur_in_query_def)
      then show ?thesis
        using tok(3) [OF nc(1)] nc(2) by (auto simp: pairs_in_query_def starts_after_def new_pair_def list_all_iff)
    next
      case c2: False
      show ?thesis
      proof (cases "tk_type t = NOT \<and> cur \<noteq> None")
        case True
        then obtain p where p: "cur = Some p" by blast
        from True eq c1 c2 have "pairs_loop q (Some (negate_pair t p)) ts = Some ps" by (simp add: p)
        then have "pairs_in_query q lo (Some (negate_pair t p)) ps"
          using IH(3) [OF c1 c2 True] cur tok(1) negate_pair_ok by (simp add: p cur_in_query_def)
        then show ?thesis unfolding p by (rule pairs_in_query_same_key) (simp add: negate_pair_def)
      next
        case c3: False
        show ?thesis
        proof (cases "isOperatorToken (tk_type t) \<and> has_key cur \<and> \<not> truthy_str (pp_operator (the cur))")
          case True
          then obtain p where p: "cur = Some p" using key by auto
          obtain p' rest where o: "operator_pair q t ts p = Some (p', rest)"
            and rest: "pairs_loop q (Some p') rest = Some ps"
            using True eq c1 c2 c3 by (auto simp: p split: option.splits)
          obtain lo' where lo': "keyStart (pp_position p') = keyStart (pp_position p)"
            "partial_in_query q lo' p'" "ahead q lo' rest"
            using operator_pair_ok [OF o _ "2.prems"(3)] True cur by (auto simp: p cur_in_query_def)
          have "pairs_in_query q lo' (Some p') ps"
            using IH(4) [OF c1 c2 c3 True, of "(p', rest)" p' rest] o rest lo' by (simp add: p cur_in_query_def)
          then show ?thesis unfolding p using lo'(1) by (rule pairs_in_query_same_key)
        next
          case c4: False
          show ?thesis
          proof (cases "isValueToken (tk_type t) \<and> has_key cur \<and> truthy_str (pp_operator (the cur)) \<and>
              \<not> isNonValueOperator (the (pp_operator (the cur))) \<and> \<not> truthy_str (pp_value (the cur))")
            case True
            then obtain p where p: "cur = Some p" using key by auto
            have nc: "\<not> is_closer t" using True by (auto simp: isValueToken_def is_closer_def)
            from True eq c1 c2 c3 c4 have "pairs_loop q (Some (value_pair t p)) ts = Some ps"
              by (simp add: p)
            then have "pairs_in_query q (tk_stop t) (Some (value_pair t p)) ps"
              using IH(5) [OF c1 c2 c3 c4 True] value_pair_ok [OF _ tok(2) ne tok(3) [OF nc]] True cur
                tok(4) [OF ne nc] by (simp add: p cur_in_query_def)
            then show ?thesis unfolding p by (rule pairs_in_query_same_key) (simp add: value_pair_def)
          next
            case c5: False
            show ?thesis
            proof (cases "has_key cur \<and> (isConjunctionToken (tk_type t) \<or> tk_type t = KEY)")
              case True
              then obtain p where p: "cur = Some p" using key by auto
              have nc: "\<not> is_closer t" using True by (auto simp: isConjunctionToken_def is_closer_def)
              let ?cur' = "if tk_type t = KEY then Some (new_pair t) else None"
              obtain ps' where ps': "pairs_loop q ?cur' ts = Some ps'" "ps = finish_pair p # ps'"
                using True eq c1 c2 c3 c4 c5 by (auto simp: p split: if_splits)
              have "pairs_in_query q (tk_stop t) ?cur' ps'"
                using IH(6) [OF c1 c2 c3 c4 c5 True ps'(1)] new_pair_ok [OF tok(2) ne] tok(4) [OF ne nc]
                by (auto simp: cur_in_query_def)
              then show ?thesis
                unfolding ps'(2) p using cur tok(3) [OF nc] ge
                by (intro pairs_in_query_push) (auto simp: cur_in_query_def p new_pair_def split: if_splits)
            next
              case False
              have "pairs_loop q cur ts = Some ps"
                using eq unfolding pairs_loop.simps(2) if_not_P [OF c1] if_not_P [OF c2]
                  if_not_P [OF c3] if_not_P [OF c4] if_not_P [OF c5] if_not_P [OF False] .
              with IH(7) [OF c1 c2 c3 c4 c5 False] cur tok(1) show ?thesis by blast
            qed
          qed
        qed
      qed
    qed
  qed
qed

text \<open>For any lexer that keeps the laws, and so for the lexer of the grammar.\<close>

context tokenizer
begin

lemma lex_ahead: "ahead q (-1) (lex q)"
  using lex_text [of _ q] lex_ordered [of q] lex_start [of _ q]
  by (force simp: ahead_def token_in_query_def spans_def)

lemma extracted_in_query: "pairs_in_query q (-1) None (extract_pairs_with lex q)"
proof (cases "pairs_loop q None (lex q)")
  case None
  then show ?thesis by (simp add: extract_pairs_with_def pairs_in_query_def)
next
  case (Some ps)
  then show ?thesis
    using pairs_loop_in_query [OF Some _ lex_ahead] by (simp add: extract_pairs_with_def cur_in_query_def)
qed

end

subsection \<open>The properties\<close>

text \<open>
  C4. Every pair \<open>extractQueryPairs\<close> returns lies in the query: its key, its operator, its
  value and each value of a list are the text between the positions recorded for them, the
  key before the operator before the value.
\<close>

theorem extracted_pairs_in_query: "list_all (pair_in_query query) (extractQueryPairs query)"
  using flex.extracted_in_query [of query] by (simp add: extractQueryPairs_def pairs_in_query_def)

text \<open>
  The pairs come in the order of the query and do not overlap: each one ends before the
  key of every later one starts.
\<close>

theorem extracted_pairs_disjoint:
  "sorted_wrt (\<lambda>a b. pair_end a < keyStart (qp_position b)) (extractQueryPairs query)"
  using flex.extracted_in_query [of query] by (simp add: extractQueryPairs_def pairs_in_query_def)

end
