(* ===== verification/Filter_Expression.thy ===== *)
theory Filter_Expression
  imports Query_Types Query_Pairs
begin

section \<open>Filters and their query expression\<close>

text \<open>
  \<open>queryBuilderUtils.ts\<close> and the operator names of \<open>queryBuilderFilterUtils.ts\<close>: filters to an
  expression, an expression to filters, the merge of edited filters into an existing query, and
  the removal of keys from an expression. A \<open>Map\<close> is an association list in insertion order; the
  identifiers that \<open>uuid()\<close> makes are the argument \<open>uuid\<close>, one for each position.
\<close>

subsection \<open>Operators\<close>

definition isArrayOperator :: "string \<Rightarrow> bool" where
  "isArrayOperator opr \<longleftrightarrow> opr \<in> set [''in'', ''not in'', ''IN'', ''NOT IN'']"

definition FILTER_OPERATOR_TO_QUERY_OPERATOR :: "string \<Rightarrow> string option" where
  "FILTER_OPERATOR_TO_QUERY_OPERATOR =
     map_of [(''regex'', ''REGEXP''),
             (''nin'', ''NOT IN''),
             (''nregex'', ''NOT REGEXP''),
             (''nlike'', ''NOT LIKE''),
             (''nilike'', ''NOT ILIKE''),
             (''nexists'', ''NOT EXISTS''),
             (''ncontains'', ''NOT CONTAINS''),
             (''nhas'', ''NOT has''),
             (''nhasany'', ''NOT hasAny''),
             (''nhasall'', ''NOT hasAll'')]"

definition toQueryOperator :: "string \<Rightarrow> string" where
  "toQueryOperator opr =
     (let normalized = to_lower (js_trim opr) in
      case FILTER_OPERATOR_TO_QUERY_OPERATOR normalized of Some q \<Rightarrow> q | None \<Rightarrow> normalized)"

definition getOperatorValue :: "string \<Rightarrow> string" where
  "getOperatorValue opr =
     (case map_of [(''IN'', ''in''), (''NOT_IN'', ''not in''), (''REGEX'', ''regex''),
        (''NOT_REGEX'', ''not regex''), (''LIKE'', ''like''), (''NOT_LIKE'', ''not like''),
        (''ILIKE'', ''ilike''), (''NOT_ILIKE'', ''not ilike''), (''EXISTS'', ''exists''),
        (''NOT_EXISTS'', ''not exists''), (''CONTAINS'', ''contains''),
        (''NOT_CONTAINS'', ''not contains''), (''HAS'', ''has''), (''NHAS'', ''not has'')] opr of
        Some v \<Rightarrow> v | None \<Rightarrow> opr)"

definition getOperatorFromValue :: "string \<Rightarrow> string" where
  "getOperatorFromValue opr =
     (case map_of [(''in'', ''IN''), (''not in'', ''NOT_IN''), (''like'', ''LIKE''),
        (''not like'', ''NOT_LIKE''), (''ilike'', ''ILIKE''), (''not ilike'', ''NOT_ILIKE''),
        (''regex'', ''REGEX''), (''not regex'', ''NOT_REGEX''), (''exists'', ''EXISTS''),
        (''not exists'', ''NOT_EXISTS''), (''contains'', ''CONTAINS''),
        (''not contains'', ''NOT_CONTAINS''), (''has'', ''HAS''), (''not has'', ''NHAS'')] opr of
        Some v \<Rightarrow> v | None \<Rightarrow> opr)"

subsection \<open>Values\<close>

definition variable_text :: "js_value \<Rightarrow> bool" where
  "variable_text v = (case v of SStr s \<Rightarrow> starts_with ''$'' (js_trim s) | _ \<Rightarrow> False)"

definition isVariable :: "tag_value option \<Rightarrow> bool" where
  "isVariable v =
     (case v of
        Some (VList xs) \<Rightarrow> list_ex variable_text xs
      | Some (VOne x) \<Rightarrow> variable_text x
      | None \<Rightarrow> False)"

definition formatSingleValue :: "js_value \<Rightarrow> string" where
  "formatSingleValue v =
     (case v of
        SStr s \<Rightarrow>
          (if isQuoted s then s
           else [CHR 0x27] @ replace_char (CHR 0x27) [CHR 0x5C, CHR 0x27] s @ [CHR 0x27])
      | _ \<Rightarrow> value_string v)"

definition bracketed :: "string list \<Rightarrow> string" where
  "bracketed xs = ''['' @ js_join '', '' xs @ '']''"

definition formatValueForExpression :: "tag_value option \<Rightarrow> string \<Rightarrow> string" where
  "formatValueForExpression v opr =
     (if isVariable v then tag_value_string v
      else
        (case v of
           Some (VList xs) \<Rightarrow> bracketed (map formatSingleValue xs)
         | Some (VOne x) \<Rightarrow>
             (if isArrayOperator opr then bracketed [formatSingleValue x] else formatSingleValue x)
         | None \<Rightarrow> (if isArrayOperator opr then bracketed [''undefined''] else ''undefined'')))"

subsection \<open>Filters to an expression\<close>

definition context_aliases :: "string \<Rightarrow> string option" where
  "context_aliases =
     map_of [(''attribute'', ''attribute''), (''body'', ''body''), (''event'', ''event''),
       (''log'', ''log''), (''logfield'', ''log''), (''metric'', ''metric''),
       (''tag'', ''attribute''), (''point'', ''attribute''), (''resource'', ''resource''),
       (''scope'', ''scope''), (''span'', ''span''), (''spanfield'', ''span''),
       (''trace'', ''trace''), (''tracefield'', ''trace'')]"

definition known_prefixes :: "string list" where
  "known_prefixes =
     [''attribute'', ''body'', ''event'', ''log'', ''metric'', ''resource'', ''scope'', ''span'',
      ''tag'', ''trace'']"

definition fieldKeyWithContext :: "autocomplete_data \<Rightarrow> string" where
  "fieldKeyWithContext k =
     (let rawContext = (case ac_type k of Some t \<Rightarrow> to_lower t | None \<Rightarrow> '''') in
      case context_aliases rawContext of
        None \<Rightarrow> ac_key k
      | Some ctx \<Rightarrow>
          (if list_ex (\<lambda>p. starts_with (p @ ''.'') (ac_key k)) known_prefixes then ac_key k
           else ctx @ ''.'' @ ac_key k))"

definition filter_expression :: "bool \<Rightarrow> tag_filter_item \<Rightarrow> string" where
  "filter_expression qualify f =
     (case tf_key f of
        None \<Rightarrow> ''''
      | Some k \<Rightarrow>
          (if ac_key k = [] \<or> tf_op f = [] then ''''
           else
             (let operator = toQueryOperator (tf_op f) in
              if tf_value f = None \<or> (isArrayOperator operator \<and> tf_value f = Some (VList [])) then ''''
              else
                (let keyText = (if qualify then fieldKeyWithContext k else ac_key k) in
                 if isNonValueOperator operator then keyText @ '' '' @ operator
                 else if isFunctionOperator operator then
                   (let name = (case js_find (\<lambda>g. to_lower g = to_lower operator) query_builder_functions of
                                  Some g \<Rightarrow> g | None \<Rightarrow> operator)
                    in name @ ''('' @ keyText @ '', '' @ formatValueForExpression (tf_value f) operator @ '')'')
                 else keyText @ '' '' @ operator @ '' '' @ formatValueForExpression (tf_value f) operator))))"

definition logical_operator :: "string \<Rightarrow> string" where
  "logical_operator opr = (if to_upper opr = ''OR'' then ''OR'' else ''AND'')"

definition convertFiltersToExpression :: "tag_filter \<Rightarrow> bool \<Rightarrow> string" where
  "convertFiltersToExpression filters qualify =
     (if tg_items filters = [] then ''''
      else js_join ('' '' @ logical_operator (tg_op filters) @ '' '')
        (filter (\<lambda>e. e \<noteq> '''') (map (filter_expression qualify) (tg_items filters))))"

definition item_signature :: "tag_filter_item \<Rightarrow> string option" where
  "item_signature f =
     (case tf_key f of
        None \<Rightarrow> None
      | Some k \<Rightarrow>
          (if ac_key k = [] \<or> tf_op f = [] then None
           else
             (let operator = toQueryOperator (tf_op f);
                  v = (if isNonValueOperator operator then ''''
                       else formatValueForExpression (tf_value f) operator)
              in Some (fieldKeyWithContext k @ [CHR 0x00] @ operator @ [CHR 0x00] @ v))))"

fun dedup_items :: "string list \<Rightarrow> tag_filter_item list \<Rightarrow> tag_filter_item list" where
  "dedup_items seen [] = []"
| "dedup_items seen (f # fs) =
     (case item_signature f of
        None \<Rightarrow> f # dedup_items seen fs
      | Some s \<Rightarrow> (if s \<in> set seen then dedup_items seen fs else f # dedup_items (s # seen) fs))"

definition deduplicateEquivalentFilterItems :: "tag_filter_item list \<Rightarrow> tag_filter_item list" where
  "deduplicateEquivalentFilterItems items = dedup_items [] items"

subsection \<open>An expression to filters\<close>

definition formatSingleValueForFilter :: "js_value \<Rightarrow> js_value" where
  "formatSingleValueForFilter v =
     (case v of
        SStr s \<Rightarrow>
          (let trimmed = js_trim s in
           if trimmed \<noteq> '''' \<and> string_num trimmed \<noteq> None then SNum (the (string_num trimmed))
           else if trimmed = ''true'' \<or> trimmed = ''false'' then SBool (trimmed = ''true'')
           else if isQuoted s then SStr (unquote s)
           else v)
      | _ \<Rightarrow> v)"

definition pair_filter_value :: "query_pair \<Rightarrow> tag_value" where
  "pair_filter_value p =
     (if qp_isMultiValue p
      then VList (map (\<lambda>s. formatSingleValueForFilter (SStr s)) (qp_valueList p))
      else (case qp_value p of
              Some s \<Rightarrow> VOne (formatSingleValueForFilter (SStr s))
            | None \<Rightarrow> VOne (SStr '''')))"

definition pair_filter :: "string \<Rightarrow> query_pair \<Rightarrow> tag_filter_item" where
  "pair_filter ident p =
     \<lparr>tf_id = ident,
      tf_key = Some \<lparr>ac_id = Some (qp_key p), ac_dataType = None, ac_key = qp_key p, ac_type = Some ''''\<rparr>,
      tf_op = (if qp_hasNegation p then getOperatorValue (to_upper (''NOT_'' @ qp_operator p))
               else getOperatorValue (to_upper (qp_operator p))),
      tf_value = Some (pair_filter_value p)\<rparr>"

definition number_from :: "(nat \<Rightarrow> string) \<Rightarrow> query_pair list \<Rightarrow> tag_filter_item list" where
  "number_from uuid ps = map (\<lambda>(i, p). pair_filter (uuid i) p) (enumerate 0 ps)"

definition convertExpressionToFilters :: "(nat \<Rightarrow> string) \<Rightarrow> string \<Rightarrow> tag_filter_item list" where
  "convertExpressionToFilters uuid expression =
     (if expression = '''' then [] else number_from uuid (extractQueryPairs expression))"

subsection \<open>Merging edited filters into an existing query\<close>

type_synonym pair_map = "(string \<times> query_pair) list"

definition pair_map_key :: "query_pair \<Rightarrow> string" where
  "pair_map_key p =
     to_lower (js_trim (if qp_hasNegation p then qp_key p @ ''-not '' @ qp_operator p
                        else qp_key p @ ''-'' @ qp_operator p))"

definition getQueryPairsMap :: "string \<Rightarrow> pair_map" where
  "getQueryPairsMap query = fold (\<lambda>p m. map_set (pair_map_key p) p m) (extractQueryPairs query) []"

definition js_unique :: "'a list \<Rightarrow> 'a list" where
  "js_unique xs = rev (remdups (rev xs))"

definition drop_known_prefix :: "string \<Rightarrow> string" where
  "drop_known_prefix key =
     (case js_find (\<lambda>p. starts_with (p @ ''.'') (to_lower key)) known_prefixes of
        Some p \<Rightarrow> drop (length p + 1) key
      | None \<Rightarrow> key)"

definition queryPairLookupKeys :: "autocomplete_data \<Rightarrow> string \<Rightarrow> string list" where
  "queryPairLookupKeys k operator =
     map (\<lambda>c. to_lower (js_trim (c @ ''-'' @ operator)))
       (js_unique [ac_key k, fieldKeyWithContext k, drop_known_prefix (ac_key k)])"

fun find_pair :: "pair_map \<Rightarrow> string list \<Rightarrow> (string \<times> query_pair) option" where
  "find_pair m [] = None"
| "find_pair m (k # ks) = (case map_of m k of Some p \<Rightarrow> Some (k, p) | None \<Rightarrow> find_pair m ks)"

definition findQueryPair :: "pair_map \<Rightarrow> autocomplete_data \<Rightarrow> string \<Rightarrow> (string \<times> query_pair) option" where
  "findQueryPair m k operator = find_pair m (queryPairLookupKeys k operator)"

record merge_state =
  ms_query :: string
  ms_map :: pair_map
  ms_visited :: "string list"
  ms_new :: "tag_filter_item list"

definition value_span :: "query_pair \<Rightarrow> bool" where
  "value_span p \<longleftrightarrow> truthy_num (valueStart (qp_position p)) \<and> truthy_num (valueEnd (qp_position p))"

text \<open>\<open>query.slice(0, i) + text + query.slice(j + 1)\<close>; a missing \<open>i\<close> keeps the whole query.\<close>

definition splice :: "string \<Rightarrow> int option \<Rightarrow> string \<Rightarrow> int \<Rightarrow> string" where
  "splice q i txt j =
     (case i of None \<Rightarrow> q | Some n \<Rightarrow> js_slice q 0 n) @ txt @ js_slice_from q (j + 1)"

definition set_query :: "string \<Rightarrow> merge_state \<Rightarrow> merge_state" where
  "set_query q s = s\<lparr>ms_query := q, ms_map := getQueryPairsMap q\<rparr>"

definition visit :: "string \<Rightarrow> merge_state \<Rightarrow> merge_state" where
  "visit k s = s\<lparr>ms_visited := k # ms_visited s\<rparr>"

text \<open>
  Order-independent equality of the lists with the quotes of strings stripped: the elements of
  the existing list are texts, so an element of another type makes the lists differ.
\<close>

definition same_values :: "string list \<Rightarrow> js_value list \<Rightarrow> bool" where
  "same_values existing vs =
     (let xs = map (\<lambda>s. SStr (unquote s)) existing;
          ys = map (\<lambda>v. case v of SStr s \<Rightarrow> SStr (unquote s) | _ \<Rightarrow> v) vs
      in length xs = length ys \<and> list_all (\<lambda>x. count_list xs x = count_list ys x) (xs @ ys))"

text \<open>The replacement of another operator on the same key by \<open>word\<close> with the new value.\<close>

definition replace_operator ::
  "string \<Rightarrow> string \<Rightarrow> (query_pair \<Rightarrow> int option) \<Rightarrow> string \<times> query_pair \<Rightarrow> merge_state \<Rightarrow> merge_state" where
  "replace_operator word formattedValue start match s =
     (let p = snd match; s' = visit (fst match) s in
      if truthy_num (valueEnd (qp_position p)) then
        set_query (splice (ms_query s') (start p) (word @ '' '' @ formattedValue @ '' '')
          (the (valueEnd (qp_position p)))) s'
      else s')"

definition operator_start :: "query_pair \<Rightarrow> int option" where
  "operator_start p = Some (operatorStart (qp_position p))"

definition negation_start :: "query_pair \<Rightarrow> int option" where
  "negation_start p = negationStart (qp_position p)"

text \<open>
  The \<open>switch\<close> on \<open>IN\<close> and \<open>NOT IN\<close>: the state and whether the filter may still count as new.
\<close>

definition merge_in_switch ::
  "autocomplete_data \<Rightarrow> string \<Rightarrow> string \<Rightarrow> string \<Rightarrow> merge_state \<Rightarrow> merge_state \<times> bool" where
  "merge_in_switch k opr sanitized formattedValue s =
     (if sanitized = ''IN'' then
        (case findQueryPair (ms_map s) k (''NOT '' @ opr) of
           Some match \<Rightarrow> (replace_operator ''IN'' formattedValue negation_start match s, False)
         | None \<Rightarrow>
             (case findQueryPair (ms_map s) k ''='' of
                Some match \<Rightarrow> (replace_operator ''IN'' formattedValue operator_start match s, False)
              | None \<Rightarrow>
                  (case findQueryPair (ms_map s) k ''!='' of
                     Some match \<Rightarrow> (replace_operator ''IN'' formattedValue operator_start match s, False)
                   | None \<Rightarrow> (s, True))))
      else
        (case findQueryPair (ms_map s) k ''!='' of
           Some match \<Rightarrow> (replace_operator ''NOT IN'' formattedValue operator_start match s, False)
         | None \<Rightarrow> (s, True)))"

text \<open>The part after the \<open>switch\<close>: update a pair with the same operator, or keep the filter as new.\<close>

definition merge_matching ::
  "autocomplete_data \<Rightarrow> tag_filter_item \<Rightarrow> merge_state \<Rightarrow> bool \<Rightarrow> merge_state" where
  "merge_matching k f s mayAdd =
     (let opr = tf_op f;
          s1 = (case findQueryPair (ms_map s) k opr of
                  None \<Rightarrow> s
                | Some (mk, p) \<Rightarrow>
                    visit mk
                      (if value_span p then
                         set_query (splice (ms_query s) (valueStart (qp_position p))
                           (formatValueForExpression (tf_value f) opr) (the (valueEnd (qp_position p)))) s
                       else s))
      in if mayAdd \<and> findQueryPair (ms_map s1) k opr = None
         then s1\<lparr>ms_new := ms_new s1 @ [f]\<rparr> else s1)"

definition merge_filter :: "merge_state \<Rightarrow> tag_filter_item \<Rightarrow> merge_state" where
  "merge_filter s f =
     (case tf_key f of
        None \<Rightarrow> s
      | Some k \<Rightarrow>
          (if tf_op f = [] then s
           else
             (let opr = tf_op f; sanitized = to_upper (js_trim opr) in
              if sanitized = ''IN'' \<or> sanitized = ''NOT IN'' then
                (let formattedValue = formatValueForExpression (tf_value f) opr in
                 case findQueryPair (ms_map s) k opr of
                   Some (mk, p) \<Rightarrow>
                     (if value_span p then
                        (let s' = visit mk s;
                             keep = (case tf_value f of
                                       Some (VList xs) \<Rightarrow> same_values (qp_valueList p) xs | _ \<Rightarrow> False)
                         in if keep then
                              s'\<lparr>ms_query := splice (ms_query s') (valueStart (qp_position p))
                                   (case qp_value p of Some v \<Rightarrow> v | None \<Rightarrow> ''undefined'') (the (valueEnd (qp_position p)))\<rparr>
                            else set_query (splice (ms_query s') (valueStart (qp_position p))
                                   formattedValue (the (valueEnd (qp_position p)))) s')
                      else (let (s', mayAdd) = merge_in_switch k opr sanitized formattedValue s
                            in merge_matching k f s' mayAdd))
                 | None \<Rightarrow> (let (s', mayAdd) = merge_in_switch k opr sanitized formattedValue s
                           in merge_matching k f s' mayAdd))
              else merge_matching k f s True)))"

definition normalized_items :: "tag_filter \<Rightarrow> tag_filter_item list" where
  "normalized_items filters = map (\<lambda>f. f\<lparr>tf_op := to_lower (toQueryOperator (tf_op f))\<rparr>) (tg_items filters)"

definition convertFiltersToExpressionWithExistingQuery ::
  "(nat \<Rightarrow> string) \<Rightarrow> tag_filter \<Rightarrow> string \<Rightarrow> bool \<Rightarrow> tag_filter \<times> string" where
  "convertFiltersToExpressionWithExistingQuery uuid filters existingQuery qualify =
     (let updated = filters\<lparr>tg_items := normalized_items filters\<rparr> in
      if existingQuery = '''' then (updated, convertFiltersToExpression updated qualify)
      else
        (let s = foldl merge_filter
                   \<lparr>ms_query = existingQuery, ms_map = getQueryPairsMap existingQuery,
                    ms_visited = [], ms_new = []\<rparr> (tg_items filters);
             fresh = number_from uuid (map snd (filter (\<lambda>(k, p). k \<notin> set (ms_visited s)) (ms_map s)));
             merged = updated\<lparr>tg_items := tg_items updated @ fresh\<rparr>
         in if ms_new s = [] then (merged, ms_query s)
            else
              (let added = convertFiltersToExpression
                     \<lparr>tg_items = ms_new s, tg_op = (if tg_op filters = [] then ''AND'' else tg_op filters)\<rparr> qualify
               in if added \<noteq> '''' then
                    (let existing = js_trim (ms_query s)
                     in (merged, if existing \<noteq> ''''
                                 then existing @ '' '' @ logical_operator (tg_op filters) @ '' '' @ added
                                 else added))
                  else (merged, ms_query s))))"

subsection \<open>Removing keys from an expression\<close>

text \<open>The length of \<open>AND\<close> or \<open>OR\<close>, in any case, at the head of a text; 0 for neither.\<close>

definition conj_word :: "string \<Rightarrow> nat" where
  "conj_word s = (if to_lower (take 3 s) = ''and'' then 3 else if to_lower (take 2 s) = ''or'' then 2 else 0)"

text \<open>The length of the match of \<open>/^(\s*((AND|OR)\s+)?)/i\<close>.\<close>

definition conjunction_prefix :: "string \<Rightarrow> nat" where
  "conjunction_prefix s =
     (let w = run_length js_ws s; r = drop w s; k = conj_word r; w' = run_length js_ws (drop k r)
      in if 0 < k \<and> 0 < w' then w + k + w' else w)"

definition js_trim_end :: "string \<Rightarrow> string" where
  "js_trim_end s = rev (dropWhile js_ws (rev s))"

text \<open>\<open>replace(/\s+(AND|OR)\s*$/i, '')\<close>\<close>

definition drop_last_word :: "string \<Rightarrow> string \<Rightarrow> string option" where
  "drop_last_word w s =
     (let t = js_trim_end s; pre = take (length t - length w) t
      in if length w < length t \<and> to_lower (drop (length t - length w) t) = w \<and> js_ws (last pre)
         then Some (js_trim_end pre) else None)"

definition drop_trailing_conjunction :: "string \<Rightarrow> string" where
  "drop_trailing_conjunction s =
     (case drop_last_word ''and'' s of
        Some t \<Rightarrow> t
      | None \<Rightarrow> (case drop_last_word ''or'' s of Some t \<Rightarrow> t | None \<Rightarrow> s))"

text \<open>\<open>replace(/^(AND|OR)\s+/i, '')\<close>\<close>

definition drop_leading_conjunction :: "string \<Rightarrow> string" where
  "drop_leading_conjunction s =
     (let k = conj_word s; w = run_length js_ws (drop k s)
      in if 0 < k \<and> 0 < w then drop (k + w) s else s)"

definition lower_trim :: "string \<Rightarrow> string" where
  "lower_trim s = to_lower (js_trim s)"

definition removable_pairs :: "bool \<Rightarrow> string \<Rightarrow> query_pair list \<Rightarrow> query_pair list" where
  "removable_pairs onlyVariables key ps =
     (if onlyVariables then
        filter (\<lambda>p. lower_trim (qp_key p) = lower_trim key \<and>
          (case qp_value p of None \<Rightarrow> False | Some v \<Rightarrow> str_includes ''$'' (js_trim v))) ps
      else ps)"

text \<open>A \<open>Map\<close> built from the pairs keeps the last pair of a key.\<close>

definition pair_to_remove :: "bool \<Rightarrow> string \<Rightarrow> string \<Rightarrow> query_pair option" where
  "pair_to_remove onlyVariables expression key =
     js_find (\<lambda>p. lower_trim (qp_key p) = lower_trim key)
       (rev (removable_pairs onlyVariables key (extractQueryPairs expression)))"

definition remove_pair :: "string \<Rightarrow> query_pair \<Rightarrow> string" where
  "remove_pair expression p =
     (let start = keyStart (qp_position p);
          stop = (case valueEnd (qp_position p) of Some v \<Rightarrow> v | None \<Rightarrow> operatorEnd (qp_position p));
          stop' = stop + int (conjunction_prefix (js_slice_from expression (stop + 1)))
      in js_trim (js_slice expression 0 start @ js_slice_from expression (stop' + 1)))"

definition remove_key :: "bool \<Rightarrow> string \<Rightarrow> string \<Rightarrow> string" where
  "remove_key onlyVariables expression key =
     (case pair_to_remove onlyVariables expression key of
        Some p \<Rightarrow> (if qp_isComplete p then remove_pair expression p else expression)
      | None \<Rightarrow> expression)"

definition removeKeysFromExpression :: "string \<Rightarrow> string list \<Rightarrow> bool \<Rightarrow> string" where
  "removeKeysFromExpression expression keysToRemove onlyVariables =
     (if keysToRemove = [] then expression
      else if expression = '''' then expression
      else js_trim (drop_leading_conjunction (drop_trailing_conjunction
             (foldl (remove_key onlyVariables) expression keysToRemove))))"

subsection \<open>Labels of a query with several aggregations\<close>

text \<open>
  The record \<open>acc\<close> of \<open>getQueryLabelWithAggregation\<close> maps the name of a query to the
  expressions of its aggregations; \<open>createAggregation\<close> belongs to the query payload and is the
  argument \<open>aggs\<close>, the list of expressions of a query.
\<close>

definition getColId :: "string \<Rightarrow> string option \<Rightarrow> bool \<Rightarrow> string" where
  "getColId queryName expression isMultipleAggregations =
     (if isMultipleAggregations \<and> truthy_str expression then queryName @ ''.'' @ the expression
      else queryName)"

record labelled_query =
  lq_queryName :: string
  lq_aggregations :: "string option list"

definition aggregationPerQuery :: "labelled_query list \<Rightarrow> (string \<times> string option list) list" where
  "aggregationPerQuery queryData =
     fold (\<lambda>q m. if lq_queryName q \<noteq> '''' \<and> lq_aggregations q \<noteq> []
                 then map_set (lq_queryName q) (lq_aggregations q) m else m) queryData []"

definition query_labels :: "string \<times> string option list \<Rightarrow> (string \<times> string) list" where
  "query_labels entry =
     (let name = fst entry; aggs = snd entry; multiple = 1 < length aggs
      in map (\<lambda>(i, e). (if multiple then name @ ''.'' @ nat_digits i else name, getColId name e multiple))
           (enumerate 0 aggs))"

text \<open>
  \<open>Object.entries\<close>: the keys that are array indices come first, in ascending order, then the others
  in the order of insertion.
\<close>

definition array_index :: "string \<Rightarrow> bool" where
  "array_index k \<longleftrightarrow>
     k \<noteq> [] \<and> list_all is_digit k \<and> nat_digits (digits_value k) = k \<and> digits_value k < 4294967295"

definition object_entries :: "(string \<times> 'v) list \<Rightarrow> (string \<times> 'v) list" where
  "object_entries m =
     sort_key (\<lambda>e. digits_value (fst e)) (filter (\<lambda>e. array_index (fst e)) m) @
     filter (\<lambda>e. \<not> array_index (fst e)) m"

definition getQueryLabelWithAggregation :: "labelled_query list \<Rightarrow> (string \<times> string) list" where
  "getQueryLabelWithAggregation queryData =
     concat (map query_labels (object_entries (aggregationPerQuery queryData)))"

subsection \<open>Removal only deletes\<close>

lemma subseq_js_trim: "subseq (js_trim s) s"
proof -
  have a: "subseq (dropWhile js_ws s) s" by (intro sublist_imp_subseq suffix_imp_sublist suffix_dropWhile)
  define t where "t = dropWhile js_ws s"
  have "suffix (dropWhile js_ws (rev t)) (rev t)" by (rule suffix_dropWhile)
  then have "prefix (rev (dropWhile js_ws (rev t))) t" by (simp add: suffix_to_prefix)
  then have "subseq (js_trim s) t" by (simp add: js_trim_def t_def prefix_imp_sublist sublist_imp_subseq)
  then show ?thesis using a unfolding t_def by (rule subseq_order.order_trans)
qed

lemma subseq_take_drop: "a \<le> b \<Longrightarrow> subseq (take a s @ drop b s) s"
proof -
  assume "a \<le> b"
  then have d: "drop b s = drop (b - a) (drop a s)" by simp
  have "suffix (drop b s) (drop a s)" unfolding d by (rule suffix_drop)
  then have "subseq (take a s @ drop b s) (take a s @ drop a s)"
    by (intro list_emb_append_mono) (simp_all add: suffix_imp_sublist sublist_imp_subseq)
  then show ?thesis by simp
qed

lemma subseq_trim_end: "subseq (js_trim_end s) s"
proof -
  have "suffix (dropWhile js_ws (rev s)) (rev s)" by (rule suffix_dropWhile)
  then have "prefix (js_trim_end s) s" by (simp add: js_trim_end_def suffix_to_prefix)
  then show ?thesis by (simp add: prefix_imp_sublist sublist_imp_subseq)
qed

lemma subseq_take: "subseq (take n s) s"
  by (simp add: prefix_imp_sublist sublist_imp_subseq take_is_prefix)

lemma subseq_drop: "subseq (drop n s) s"
  by (simp add: suffix_imp_sublist sublist_imp_subseq suffix_drop)

lemma subseq_drop_last_word: "drop_last_word w s = Some t \<Longrightarrow> subseq t s"
  unfolding drop_last_word_def Let_def
  by (auto split: if_splits intro: subseq_order.order_trans [OF subseq_trim_end]
      subseq_order.order_trans [OF subseq_take] subseq_trim_end)

lemma subseq_drop_trailing: "subseq (drop_trailing_conjunction s) s"
  by (auto simp: drop_trailing_conjunction_def split: option.splits dest: subseq_drop_last_word)

lemma subseq_drop_leading: "subseq (drop_leading_conjunction s) s"
  by (simp add: drop_leading_conjunction_def Let_def subseq_drop)

lemma extracted_pair_in_query: "p \<in> set (extractQueryPairs q) \<Longrightarrow> pair_in_query q p"
  using flex.extracted_in_query [of q] by (auto simp: pairs_in_query_def extractQueryPairs_def list_all_iff)

lemma complete_pair_value:
  assumes "pair_in_query q p"
  shows "0 \<le> keyStart (qp_position p) \<and>
    (\<forall>v. valueEnd (qp_position p) = Some v \<longrightarrow> keyStart (qp_position p) \<le> v)"
  using assms by (auto simp: pair_in_query_def spans_def Let_def split: option.splits)

lemma remove_pair_subseq:
  assumes "p \<in> set (extractQueryPairs q)" "qp_isComplete p" "qp_value p \<noteq> None"
  shows "subseq (remove_pair q p) q"
proof -
  have pin: "pair_in_query q p" by (rule extracted_pair_in_query [OF assms(1)])
  then obtain v where v: "valueEnd (qp_position p) = Some v" "keyStart (qp_position p) \<le> v"
    "0 \<le> keyStart (qp_position p)"
    using assms(3) complete_pair_value [OF pin] by (auto simp: pair_in_query_def Let_def split: option.splits)
  define e where "e = v + int (conjunction_prefix (js_slice_from q (v + 1)))"
  have "nat (keyStart (qp_position p)) \<le> nat (e + 1)" using v by (simp add: e_def)
  from subseq_order.order_trans [OF subseq_js_trim subseq_take_drop [OF this, of q]] show ?thesis
    using v by (simp add: remove_pair_def e_def js_slice_def js_slice_from_def)
qed

text \<open>One step of the loop either drops tokens or finishes a pair.\<close>

definition loop_step :: "string \<Rightarrow> itoken list \<Rightarrow> query_pair list option \<Rightarrow> bool" where
  "loop_step q ts x \<longleftrightarrow>
     (\<exists>cur' rest. x = pairs_loop q cur' rest \<and> length rest \<le> length ts) \<or>
     (\<exists>p cur'. x = map_option (\<lambda>ps. finish_pair p # ps) (pairs_loop q cur' ts)) \<or> x = None"

lemma loop_step_if: "loop_step q ts a \<Longrightarrow> loop_step q ts b \<Longrightarrow> loop_step q ts (if c then a else b)"
  by simp

lemma loop_step_next: "loop_step q ts (pairs_loop q cur' ts)"
  by (auto simp: loop_step_def)

lemma loop_step_push: "loop_step q ts (map_option (\<lambda>ps. finish_pair p # ps) (pairs_loop q cur' ts))"
  by (auto simp: loop_step_def)

lemma loop_step_operator:
  "loop_step q ts (case operator_pair q t ts c of None \<Rightarrow> None | Some (p, rest) \<Rightarrow> pairs_loop q (Some p) rest)"
proof (cases "operator_pair q t ts c")
  case None
  then show ?thesis by (simp add: loop_step_def)
next
  case (Some pr)
  then have "length (snd pr) \<le> length ts" using operator_pair_length [of q t ts c "fst pr" "snd pr"] by simp
  with Some show ?thesis
    unfolding loop_step_def
    by (intro disjI1 exI [of _ "Some (fst pr)"] exI [of _ "snd pr"]) (simp split: prod.splits)
qed

lemma loop_step_pairs: "loop_step q ts (pairs_loop q cur (t # ts))"
  unfolding pairs_loop.simps(2)
  by (intro loop_step_if loop_step_next loop_step_push loop_step_operator)

lemma pairs_loop_finished:
  "pairs_loop q cur toks = Some ps \<Longrightarrow> p \<in> set ps \<Longrightarrow> \<exists>c. p = finish_pair c"
proof (induction "length toks" arbitrary: cur toks ps rule: less_induct)
  case less
  show ?case
  proof (cases toks)
    case Nil
    with less.prems show ?thesis by (auto split: if_splits)
  next
    case (Cons t ts)
    from loop_step_pairs [of q ts cur t] less.prems(1) have "loop_step q ts (Some ps)" by (simp only: Cons)
    then consider (drop) cur' rest where "pairs_loop q cur' rest = Some ps" "length rest \<le> length ts"
      | (push) c cur' ps' where "ps = finish_pair c # ps'" "pairs_loop q cur' ts = Some ps'"
      unfolding loop_step_def by (metis (no_types, lifting) map_option_eq_Some option.distinct(1))
    then show ?thesis
    proof cases
      case drop
      with less.hyps [of rest cur' ps] less.prems(2) show ?thesis by (simp add: Cons)
    next
      case push
      with less.hyps [of ts cur' ps'] less.prems(2) show ?thesis by (auto simp: Cons)
    qed
  qed
qed

lemma extracted_finished: "p \<in> set (extractQueryPairs q) \<Longrightarrow> \<exists>c. p = finish_pair c"
  by (cases "pairs_loop q None (filter_tokens q)")
    (auto simp: extractQueryPairs_def extract_pairs_with_def dest: pairs_loop_finished)

lemma complete_has_value:
  assumes "p \<in> set (extractQueryPairs q)" "qp_isComplete p"
  shows "qp_value p \<noteq> None"
proof -
  from assms(1) obtain c where "p = finish_pair c"
    using extracted_finished by blast
  with assms(2) show ?thesis by (auto simp: finish_pair_def truthy_str_def split: option.splits)
qed

lemma remove_key_subseq: "subseq (remove_key onlyVariables q key) q"
proof (cases "pair_to_remove onlyVariables q key")
  case None
  then show ?thesis by (simp add: remove_key_def)
next
  case (Some p)
  then have "p \<in> set (extractQueryPairs q)"
    by (auto simp: pair_to_remove_def removable_pairs_def dest!: js_find_Some split: if_splits)
  with Some remove_pair_subseq complete_has_value show ?thesis by (auto simp: remove_key_def)
qed

lemma remove_keys_subseq: "subseq (foldl (remove_key onlyVariables) q keys) q"
  by (induction keys rule: rev_induct) (auto intro: subseq_order.order_trans remove_key_subseq)

subsection \<open>Duplicate filters\<close>

definition has_signature :: "tag_filter_item \<Rightarrow> bool" where
  "has_signature f \<longleftrightarrow> item_signature f \<noteq> None"

lemma subseq_set: "subseq xs ys \<Longrightarrow> set xs \<subseteq> set ys"
  by (induction rule: list_emb.induct) auto

lemma dedup_subseq: "subseq (dedup_items seen fs) fs"
  by (induction seen fs rule: dedup_items.induct) (auto split: option.splits)

lemma dedup_signatures:
  "distinct (map item_signature (filter has_signature (dedup_items seen fs))) \<and>
   (\<forall>f\<in>set (dedup_items seen fs). \<forall>s. item_signature f = Some s \<longrightarrow> s \<notin> set seen)"
proof (induction seen fs rule: dedup_items.induct)
  case (2 seen g gs)
  show ?case
  proof (cases "item_signature g")
    case None
    from 2(1) [OF None] show ?thesis by (simp add: None has_signature_def)
  next
    case (Some s)
    show ?thesis
    proof (cases "s \<in> set seen")
      case True
      from 2(2) [OF Some True] show ?thesis by (simp add: Some True)
    next
      case False
      note ih = 2(3) [OF Some False]
      then have "\<forall>h\<in>set (dedup_items (s # seen) gs). item_signature h \<noteq> Some s" by auto
      then have "Some s \<notin> item_signature ` set (filter has_signature (dedup_items (s # seen) gs))" by auto
      with ih False show ?thesis by (simp add: Some has_signature_def)
    qed
  qed
qed simp

lemma dedup_covers:
  "f \<in> set fs \<Longrightarrow>
     (case item_signature f of
        None \<Rightarrow> f \<in> set (dedup_items seen fs)
      | Some s \<Rightarrow> s \<in> set seen \<or> Some s \<in> item_signature ` set (dedup_items seen fs))"
proof (induction seen fs rule: dedup_items.induct)
  case (2 seen g gs)
  show ?case
  proof (cases "item_signature g")
    case None
    from 2 show ?thesis by (cases "f = g") (simp_all add: None split: option.splits)
  next
    case (Some s)
    from 2 show ?thesis by (cases "f = g"; cases "s \<in> set seen") (auto simp: Some split: option.splits)
  qed
qed simp

lemma dedup_incomplete:
  "filter (\<lambda>f. \<not> has_signature f) (dedup_items seen fs) = filter (\<lambda>f. \<not> has_signature f) fs"
  by (induction seen fs rule: dedup_items.induct) (auto simp: has_signature_def split: option.splits)

lemma dedup_distinct_id:
  "distinct (map item_signature (filter has_signature fs)) \<Longrightarrow>
   (\<forall>f\<in>set fs. \<forall>s. item_signature f = Some s \<longrightarrow> s \<notin> set seen) \<Longrightarrow> dedup_items seen fs = fs"
proof (induction seen fs rule: dedup_items.induct)
  case (2 seen g gs)
  show ?case
  proof (cases "item_signature g")
    case None
    from 2(1) [OF None] 2(4,5) show ?thesis by (simp add: None has_signature_def)
  next
    case (Some s)
    from 2(5) Some have new: "s \<notin> set seen" by simp
    from 2(4) have "\<forall>h\<in>set gs. item_signature h \<noteq> Some s"
      by (force simp: Some has_signature_def)
    then have "\<forall>h\<in>set gs. \<forall>t. item_signature h = Some t \<longrightarrow> t \<notin> set (s # seen)"
      using 2(5) by auto
    moreover from 2(4) have "distinct (map item_signature (filter has_signature gs))"
      by (simp add: Some has_signature_def [abs_def])
    ultimately have "dedup_items (s # seen) gs = gs" by (rule 2(3) [OF Some new, rotated])
    then show ?thesis by (simp add: Some new)
  qed
qed simp

subsection \<open>The merge keeps what it does not edit\<close>

text \<open>No filter matches a pair of the query, under its own operator or one it would replace.\<close>

definition unrelated :: "pair_map \<Rightarrow> tag_filter_item \<Rightarrow> bool" where
  "unrelated m f \<longleftrightarrow>
     (case tf_key f of
        None \<Rightarrow> True
      | Some k \<Rightarrow>
          list_all (\<lambda>opr. findQueryPair m k opr = None) [tf_op f, ''NOT '' @ tf_op f, ''='', ''!=''])"

definition mergeable :: "tag_filter_item \<Rightarrow> bool" where
  "mergeable f \<longleftrightarrow> tf_key f \<noteq> None \<and> tf_op f \<noteq> []"

lemma merge_unrelated:
  assumes "unrelated (ms_map s) f"
  shows "merge_filter s f = (if mergeable f then s\<lparr>ms_new := ms_new s @ [f]\<rparr> else s)"
proof (cases "mergeable f")
  case False
  then show ?thesis by (cases "tf_key f") (simp_all add: merge_filter_def mergeable_def)
next
  case True
  then obtain k where k: "tf_key f = Some k" "tf_op f \<noteq> []" by (auto simp: mergeable_def)
  from assms have none: "findQueryPair (ms_map s) k (tf_op f) = None"
    "findQueryPair (ms_map s) k (''NOT '' @ tf_op f) = None"
    "findQueryPair (ms_map s) k ''='' = None" "findQueryPair (ms_map s) k ''!='' = None"
    by (simp_all add: unrelated_def k(1))
  have sw: "merge_in_switch k (tf_op f) w v s = (s, True)" for w v
    using none by (simp add: merge_in_switch_def)
  have mm: "merge_matching k f s True = s\<lparr>ms_new := ms_new s @ [f]\<rparr>"
    using none(1) by (simp add: merge_matching_def)
  show ?thesis
    unfolding merge_filter_def Let_def k(1) option.case none(1) sw prod.case mm
    by (simp only: True k(2) if_True if_False if_cancel)
qed

lemma merge_all_unrelated:
  "list_all (unrelated (ms_map s)) fs \<Longrightarrow>
     foldl merge_filter s fs = s\<lparr>ms_new := ms_new s @ filter mergeable fs\<rparr>"
proof (induction fs arbitrary: s)
  case (Cons f fs)
  then show ?case by (auto simp: merge_unrelated)
qed simp

subsection \<open>The value read back\<close>

lemma string_num_unsigned:
  assumes "unsigned_literal b"
  shows "string_num (CHR ''-'' # b) = Some (unsigned_num True b)" "string_num b = Some (unsigned_num False b)"
proof -
  define ip where "ip = takeWhile is_digit b"
  define r where "r = dropWhile is_digit b"
  obtain c t where b: "b = c # t" "is_digit c" using unsigned_literal_head [OF assms] by blast
  have "hd b \<noteq> CHR ''-''" "hd b \<noteq> CHR ''+''" "b \<noteq> ''Infinity''" "b \<noteq> []" using b by auto
  note hds = this ip_def [symmetric] r_def [symmetric]
  have ip: "ip \<noteq> []" using b by (simp add: ip_def)
  consider "r = []" | fp where "r = CHR ''.'' # fp" "fp \<noteq> []" "list_all is_digit fp"
    using assms by (auto simp: unsigned_literal_def Let_def r_def split: list.splits)
  then have both: "string_num (CHR ''-'' # b) = Some (unsigned_num True b) \<and>
      string_num b = Some (unsigned_num False b)"
  proof cases
    case 1
    then show ?thesis
      using ip by (simp add: string_num_def unsigned_num_def Let_def hds exponent_value_def)
  next
    case 2
    then have fp: "takeWhile is_digit fp = fp" "dropWhile is_digit fp = []"
      by (simp_all add: list_all_iff)
    show ?thesis
      using ip by (simp add: 2(1) fp string_num_def unsigned_num_def Let_def hds exponent_value_def
          del: takeWhile_eq_all_conv dropWhile_eq_Nil_conv)
  qed
  then show "string_num (CHR ''-'' # b) = Some (unsigned_num True b)" "string_num b = Some (unsigned_num False b)"
    by simp_all
qed

lemma string_num_literal: "decimal_literal s \<Longrightarrow> string_num s = Some (literal_num s)"
  by (cases s) (auto simp: decimal_literal_def literal_num_def string_num_unsigned split: if_splits)

lemma unsigned_literal_last:
  assumes "unsigned_literal s"
  shows "is_digit (last s)"
proof -
  have s: "s = takeWhile is_digit s @ dropWhile is_digit s" by simp
  show ?thesis
  proof (cases "dropWhile is_digit s")
    case Nil
    then have "\<forall>c\<in>set s. is_digit c" by simp
    moreover have "s \<noteq> []" using assms by (auto simp: unsigned_literal_def)
    ultimately show ?thesis by simp
  next
    case (Cons c fp)
    with assms have "fp \<noteq> []" "list_all is_digit fp" by (auto simp: unsigned_literal_def Let_def)
    then show ?thesis by (subst s) (simp add: Cons list_all_iff)
  qed
qed

lemma digit_no_space: "is_digit c \<Longrightarrow> \<not> js_ws c"
  by (auto simp: is_digit_def js_ws_def)

lemma decimal_literal_trim:
  assumes "decimal_literal s"
  shows "js_trim s = s" "s \<noteq> []"
proof -
  obtain c r where s: "s = c # r" using assms by (cases s) (auto simp: decimal_literal_def)
  have "\<not> js_ws c \<and> \<not> js_ws (last s)"
  proof (cases "c = CHR ''-''")
    case True
    with assms have u: "unsigned_literal r" by (simp add: s decimal_literal_def)
    then have "r \<noteq> []" by (auto simp: unsigned_literal_def)
    with True unsigned_literal_last [OF u] show ?thesis by (simp add: s js_ws_def digit_no_space [unfolded js_ws_def, simplified])
  next
    case False
    with assms have u: "unsigned_literal s" by (simp add: s decimal_literal_def)
    with unsigned_literal_head [OF u] unsigned_literal_last [OF u] show ?thesis by (auto simp: s digit_no_space)
  qed
  then show "js_trim s = s" "s \<noteq> []" by (simp_all add: js_trim_fixpoint s)
qed

text \<open>The values whose printed form reads back: booleans, plain numbers and ordinary texts.\<close>

definition readable_value :: "js_value \<Rightarrow> bool" where
  "readable_value v =
     (case v of
        SStr s \<Rightarrow> \<not> isQuoted s \<and> CHR 0x27 \<notin> set s \<and> list_all (\<lambda>c. \<not> line_terminator c) s
      | SNum n \<Rightarrow> js_num_ok n \<and> plain_num n
      | SBool b \<Rightarrow> True)"

lemma replace_char_absent: "c \<notin> set s \<Longrightarrow> replace_char c r s = s"
  by (induction s) (auto simp: replace_char_def)

lemma quoted_trim: "js_trim ([CHR 0x27] @ s @ [CHR 0x27]) = [CHR 0x27] @ s @ [CHR 0x27]"
  by (rule js_trim_fixpoint) (simp add: js_ws_def)

lemma quoted_not_num: "string_num ([CHR 0x27] @ s @ [CHR 0x27]) = None"
  by (auto simp: string_num_def radix_literal_def exponent_value_def Let_def split: list.splits)

subsection \<open>The properties\<close>

text \<open>
  Removing keys only deletes: the result is the expression with some of its characters
  left out, in their order. Nothing is invented, moved or duplicated, whatever the keys, and
  with or without the restriction to variables.
\<close>

theorem remove_keys_only_deletes: "subseq (removeKeysFromExpression expression keysToRemove onlyVariables) expression"
proof -
  have "subseq (js_trim (drop_leading_conjunction (drop_trailing_conjunction e))) e" for e
    by (rule subseq_order.order_trans [OF subseq_js_trim
          subseq_order.order_trans [OF subseq_drop_leading subseq_drop_trailing]])
  from subseq_order.order_trans [OF this remove_keys_subseq] show ?thesis
    by (simp add: removeKeysFromExpression_def)
qed

text \<open>
  Removing duplicates keeps the order, keeps every incomplete row, leaves each signature
  (key with context, operator, value) exactly once and loses none.
\<close>

theorem dedup_keeps_first_of_each:
  "subseq (deduplicateEquivalentFilterItems items) items \<and>
   filter (\<lambda>f. \<not> has_signature f) (deduplicateEquivalentFilterItems items) =
     filter (\<lambda>f. \<not> has_signature f) items \<and>
   distinct (map item_signature (filter has_signature (deduplicateEquivalentFilterItems items))) \<and>
   item_signature ` set (deduplicateEquivalentFilterItems items) = item_signature ` set items"
proof (intro conjI)
  let ?d = "deduplicateEquivalentFilterItems items"
  have sub: "subseq ?d items" by (simp add: deduplicateEquivalentFilterItems_def dedup_subseq)
  show "subseq ?d items" by (fact sub)
  show "filter (\<lambda>f. \<not> has_signature f) ?d = filter (\<lambda>f. \<not> has_signature f) items"
    by (simp add: deduplicateEquivalentFilterItems_def dedup_incomplete)
  show "distinct (map item_signature (filter has_signature ?d))"
    by (simp add: deduplicateEquivalentFilterItems_def dedup_signatures)
  have "item_signature f \<in> item_signature ` set ?d" if "f \<in> set items" for f
  proof (cases "item_signature f")
    case None
    with dedup_covers [OF that, of "[]"] have "f \<in> set ?d"
      by (simp add: deduplicateEquivalentFilterItems_def)
    then show ?thesis by (rule imageI)
  next
    case (Some s)
    with dedup_covers [OF that, of "[]"] show ?thesis
      by (simp add: deduplicateEquivalentFilterItems_def)
  qed
  then show "item_signature ` set ?d = item_signature ` set items"
    using subseq_set [OF sub] by blast
qed

text \<open>Removing duplicates a second time changes nothing.\<close>

theorem dedup_idempotent:
  "deduplicateEquivalentFilterItems (deduplicateEquivalentFilterItems items) =
     deduplicateEquivalentFilterItems items"
  using dedup_distinct_id [of "deduplicateEquivalentFilterItems items" "[]"]
  by (simp add: deduplicateEquivalentFilterItems_def dedup_signatures)

text \<open>
  C31. Filters on other keys never touch the text of the query: when no filter matches a pair of
  the existing query, the merged expression is the existing query, trimmed, followed by the
  expression of the new filters; without a printable one it is the query unchanged.
\<close>

theorem merge_appends_unrelated:
  assumes "existingQuery \<noteq> ''''" and "list_all (unrelated (getQueryPairsMap existingQuery)) (tg_items filters)"
  shows "snd (convertFiltersToExpressionWithExistingQuery uuid filters existingQuery qualify) =
    (let added = convertFiltersToExpression
           \<lparr>tg_items = filter mergeable (tg_items filters),
            tg_op = (if tg_op filters = [] then ''AND'' else tg_op filters)\<rparr> qualify
     in if added = '''' then existingQuery
        else if js_trim existingQuery = '''' then added
        else js_trim existingQuery @ '' '' @ logical_operator (tg_op filters) @ '' '' @ added)"
  using assms merge_all_unrelated [of "\<lparr>ms_query = existingQuery, ms_map = getQueryPairsMap existingQuery,
      ms_visited = [], ms_new = []\<rparr>" "tg_items filters"]
  by (auto simp: convertFiltersToExpressionWithExistingQuery_def convertFiltersToExpression_def Let_def)

text \<open>
  The merge returns every filter it was given, in order and with the operator in its query
  form, before any filter it reads back from the query.
\<close>

theorem merge_keeps_filters:
  "take (length (tg_items filters))
     (tg_items (fst (convertFiltersToExpressionWithExistingQuery uuid filters existingQuery qualify))) =
   map (\<lambda>f. f\<lparr>tf_op := to_lower (toQueryOperator (tf_op f))\<rparr>) (tg_items filters)"
  by (simp add: convertFiltersToExpressionWithExistingQuery_def normalized_items_def Let_def)

theorem merge_appends_unrelated_witness:
  "snd (convertFiltersToExpressionWithExistingQuery (\<lambda>_. [])
     \<lparr>tg_items = [\<lparr>tf_id = ''1'',
         tf_key = Some \<lparr>ac_id = None, ac_dataType = None, ac_key = ''b'', ac_type = None\<rparr>,
         tf_op = ''!='', tf_value = Some (VOne (SNum (Dec 7 0)))\<rparr>], tg_op = ''OR''\<rparr> '' a = 1'' False) =
   ''a = 1 OR b != 7''"
proof -
  let ?f = "\<lparr>tg_items = [\<lparr>tf_id = ''1'',
         tf_key = Some \<lparr>ac_id = None, ac_dataType = None, ac_key = ''b'', ac_type = None\<rparr>,
         tf_op = ''!='', tf_value = Some (VOne (SNum (Dec 7 0)))\<rparr>], tg_op = ''OR''\<rparr>"
  have "list_all (unrelated (getQueryPairsMap '' a = 1'')) (tg_items ?f)" by code_simp
  note merged = merge_appends_unrelated [of "'' a = 1''", OF _ this]
  show ?thesis unfolding merged [simplified] by code_simp
qed

text \<open>
  \<open>formatSingleValueForFilter\<close> is the inverse of \<open>formatSingleValue\<close> on booleans, on numbers
  that print without an exponent, and on texts that are not quoted themselves and hold no
  apostrophe and no line terminator: a text that looks like a number stays a text.
\<close>

theorem format_value_reads_back:
  assumes "readable_value v"
  shows "formatSingleValueForFilter (SStr (formatSingleValue v)) = v"
proof (cases v)
  case (SStr s)
  with assms have s: "\<not> isQuoted s" "CHR 0x27 \<notin> set s" "list_all (\<lambda>c. \<not> line_terminator c) s"
    by (simp_all add: readable_value_def)
  have f: "formatSingleValue v = [CHR 0x27] @ s @ [CHR 0x27]"
    by (simp add: formatSingleValue_def SStr s(1) replace_char_absent [OF s(2)])
  have q: "isQuoted ([CHR 0x27] @ s @ [CHR 0x27])"
    unfolding isQuoted_def quoted_trim Let_def using s(3) by simp
  have u: "unquote ([CHR 0x27] @ s @ [CHR 0x27]) = s" using unquote_quoted [of "CHR 0x27" s] by simp
  have "[CHR 0x27] @ s @ [CHR 0x27] \<noteq> ''true''" "[CHR 0x27] @ s @ [CHR 0x27] \<noteq> ''false''" by auto
  then show ?thesis
    unfolding f formatSingleValueForFilter_def js_value.case quoted_trim Let_def quoted_not_num
    using q u by (simp add: SStr)
next
  case (SNum n)
  then have r: "literal_num (num_string n) = n" "decimal_literal (num_string n)"
    using num_string_reads [of n] assms by (simp_all add: readable_value_def)
  have "formatSingleValue v = num_string n" by (simp add: formatSingleValue_def SNum value_string_def)
  then show ?thesis
    using r decimal_literal_trim [OF r(2)] string_num_literal [OF r(2)]
    by (simp add: formatSingleValueForFilter_def SNum Let_def)
next
  case (SBool b)
  have "string_num ''true'' = None" "string_num ''false'' = None" by code_simp+
  moreover have "js_trim ''true'' = ''true''" "js_trim ''false'' = ''false''" by code_simp+
  ultimately show ?thesis
    by (cases b) (simp_all add: formatSingleValueForFilter_def formatSingleValue_def SBool value_string_def Let_def)
qed

theorem format_value_reads_back_witness:
  "formatSingleValueForFilter (SStr (formatSingleValue (SStr ''us-east 1''))) = SStr ''us-east 1''"
proof -
  have "readable_value (SStr ''us-east 1'')" by code_simp
  then show ?thesis by (rule format_value_reads_back)
qed

subsection \<open>Where the code departs from its own description\<close>

text \<open>\<open>formatSingleValueForFilter\<close> leaves the escape of an apostrophe in the value.\<close>

lemma apostrophe_keeps_escape:
  "formatSingleValueForFilter (SStr (formatSingleValue (SStr [CHR ''a'', CHR 0x27]))) =
     SStr [CHR ''a'', CHR 0x5C, CHR 0x27]"
  by code_simp

text \<open>\<open>NOT REGEXP\<close> has no entry in the table of operators and prints as no operator of the grammar.\<close>

lemma not_regexp_prints_unknown_operator:
  "convertFiltersToExpression
     \<lparr>tg_items = convertExpressionToFilters (\<lambda>_. []) ''a NOT REGEXP 5'', tg_op = ''AND''\<rparr> False =
   ''a not_regexp 5''"
  by code_simp

text \<open>The negation before a removed key is applied to the next one.\<close>

lemma removal_moves_negation:
  "removeKeysFromExpression ''NOT a = 1 AND b = 3'' [''a''] False = ''NOT b = 3''"
  by code_simp

lemma removal_leaves_operator_in_group:
  "removeKeysFromExpression ''(b = 3 OR a = 1)'' [''a''] False = ''(b = 3 OR )''"
  by code_simp

lemma exists_pair_not_removed:
  "removeKeysFromExpression ''a = 1 AND b EXISTS'' [''b''] False = ''a = 1 AND b EXISTS''"
  by code_simp

end
