(* ===== verification/Filter_Parser.thy ===== *)
theory Filter_Parser
  imports Filter_Lexer
begin

section \<open>The parser of the filter query language\<close>

text \<open>
  The rule methods of \<open>FilterQueryParser.ts\<close> on the token stream, building the tree a listener
  walks. A method is a function from the tokens that are left (the end of input last) to its
  tree and the tokens it leaves; \<open>None\<close> stands for a reported syntax error, where the code goes
  on with error recovery. The dispatch on the lookahead is the code's; where the method asks
  the runtime (\<open>adaptivePredict\<close>), the model gives the alternative that the tokens ahead
  select, the least one where several match, as the runtime documents. The methods call each
  other in a cycle through \<open>orExpression\<close>, which spends one unit of fuel per nesting level.
\<close>

subsection \<open>Trees\<close>

datatype parse_rule =
    R_query | R_expression | R_orExpression | R_andExpression | R_unaryExpression | R_primary
  | R_comparison | R_inClause | R_notInClause | R_valueList | R_fullText | R_functionCall
  | R_functionParamList | R_functionParam | R_array | R_value | R_key

datatype parse_tree = Rule parse_rule "parse_tree list" | Terminal itoken

fun leaves :: "parse_tree \<Rightarrow> itoken list" where
  "leaves (Terminal t) = [t]"
| "leaves (Rule r ts) = concat (map leaves ts)"

type_synonym rule_parser = "itoken list \<Rightarrow> (parse_tree \<times> itoken list) option"

subsection \<open>Lookahead, \<open>match\<close> and sequences\<close>

definition LA :: "nat \<Rightarrow> itoken list \<Rightarrow> token_type" where
  "LA i ts = (if i - 1 < length ts then tk_type (ts ! (i - 1)) else EOF)"

definition match_set :: "token_type list \<Rightarrow> rule_parser" where
  "match_set ys ts =
     (case ts of [] \<Rightarrow> None | t # r \<Rightarrow> if tk_type t \<in> set ys then Some (Terminal t, r) else None)"

abbreviation match_type :: "token_type \<Rightarrow> rule_parser" where
  "match_type y \<equiv> match_set [y]"

fun run_all :: "rule_parser list \<Rightarrow> itoken list \<Rightarrow> (parse_tree list \<times> itoken list) option" where
  "run_all [] ts = Some ([], ts)"
| "run_all (p # ps) ts =
     (case p ts of
        None \<Rightarrow> None
      | Some (tr, r) \<Rightarrow> (case run_all ps r of None \<Rightarrow> None | Some (trs, r') \<Rightarrow> Some (tr # trs, r')))"

definition rule_of :: "parse_rule \<Rightarrow> (parse_tree list \<times> itoken list) option \<Rightarrow> (parse_tree \<times> itoken list) option" where
  "rule_of rl res = map_option (\<lambda>(trs, r). (Rule rl trs, r)) res"

text \<open>A \<open>while\<close> loop over the lookahead, with one unit of fuel per token left.\<close>

fun while_la ::
  "(token_type \<Rightarrow> bool) \<Rightarrow> (token_type \<Rightarrow> rule_parser list) \<Rightarrow> nat \<Rightarrow> itoken list
     \<Rightarrow> (parse_tree list \<times> itoken list) option" where
  "while_la test body 0 ts = (if test (LA 1 ts) then None else Some ([], ts))"
| "while_la test body (Suc k) ts =
     (if test (LA 1 ts) then
        (case run_all (body (LA 1 ts)) ts of
           None \<Rightarrow> None
         | Some (trs, r) \<Rightarrow>
             (case while_la test body k r of None \<Rightarrow> None | Some (trs', r') \<Rightarrow> Some (trs @ trs', r')))
      else Some ([], ts))"

definition then_while ::
  "rule_parser \<Rightarrow> (token_type \<Rightarrow> bool) \<Rightarrow> (token_type \<Rightarrow> rule_parser list) \<Rightarrow> itoken list
     \<Rightarrow> (parse_tree list \<times> itoken list) option" where
  "then_while p test body ts =
     (case p ts of
        None \<Rightarrow> None
      | Some (tr, r) \<Rightarrow>
          (case while_la test body (length r) r of None \<Rightarrow> None | Some (trs, r') \<Rightarrow> Some (tr # trs, r')))"

subsection \<open>The rules without recursion\<close>

definition parse_key :: rule_parser where
  "parse_key ts = rule_of R_key (run_all [match_type KEY] ts)"

definition parse_value :: rule_parser where
  "parse_value ts = rule_of R_value (run_all [match_set [QUOTED_TEXT, NUMBER, BOOL, KEY]] ts)"

definition parse_fullText :: rule_parser where
  "parse_fullText ts = rule_of R_fullText (run_all [match_set [QUOTED_TEXT, FREETEXT]] ts)"

definition parse_valueList :: rule_parser where
  "parse_valueList ts =
     rule_of R_valueList
       (then_while parse_value (\<lambda>t. t = COMMA) (\<lambda>_. [match_type COMMA, parse_value]) ts)"

definition parse_array :: rule_parser where
  "parse_array ts =
     rule_of R_array (run_all [match_type LBRACK, parse_valueList, match_type RBRACK] ts)"

definition parse_inClause :: rule_parser where
  "parse_inClause ts =
     rule_of R_inClause
       (if LA 2 ts = LPAREN then
          run_all [match_type IN, match_type LPAREN, parse_valueList, match_type RPAREN] ts
        else if LA 2 ts = LBRACK then
          run_all [match_type IN, match_type LBRACK, parse_valueList, match_type RBRACK] ts
        else run_all [match_type IN, parse_value] ts)"

definition parse_notInClause :: rule_parser where
  "parse_notInClause ts =
     rule_of R_notInClause
       (if LA 3 ts = LPAREN then
          run_all [match_type NOT, match_type IN, match_type LPAREN, parse_valueList, match_type RPAREN] ts
        else if LA 3 ts = LBRACK then
          run_all [match_type NOT, match_type IN, match_type LBRACK, parse_valueList, match_type RBRACK] ts
        else run_all [match_type NOT, match_type IN, parse_value] ts)"

text \<open>The alternatives of a comparison, by the operator that follows the key.\<close>

definition comparison_alternative :: "token_type \<Rightarrow> token_type \<Rightarrow> rule_parser list option" where
  "comparison_alternative op1 op2 =
     (case op1 of
        EQUALS \<Rightarrow> Some [parse_key, match_type EQUALS, parse_value]
      | NOT_EQUALS \<Rightarrow> Some [parse_key, match_set [NOT_EQUALS, NEQ], parse_value]
      | NEQ \<Rightarrow> Some [parse_key, match_set [NOT_EQUALS, NEQ], parse_value]
      | LT \<Rightarrow> Some [parse_key, match_type LT, parse_value]
      | LE \<Rightarrow> Some [parse_key, match_type LE, parse_value]
      | GT \<Rightarrow> Some [parse_key, match_type GT, parse_value]
      | GE \<Rightarrow> Some [parse_key, match_type GE, parse_value]
      | LIKE \<Rightarrow> Some [parse_key, match_set [LIKE, ILIKE], parse_value]
      | ILIKE \<Rightarrow> Some [parse_key, match_set [LIKE, ILIKE], parse_value]
      | BETWEEN \<Rightarrow> Some [parse_key, match_type BETWEEN, parse_value, match_type AND, parse_value]
      | IN \<Rightarrow> Some [parse_key, parse_inClause]
      | EXISTS \<Rightarrow> Some [parse_key, match_type EXISTS]
      | REGEXP \<Rightarrow> Some [parse_key, match_type REGEXP, parse_value]
      | CONTAINS \<Rightarrow> Some [parse_key, match_type CONTAINS, parse_value]
      | NOT \<Rightarrow>
          (case op2 of
             LIKE \<Rightarrow> Some [parse_key, match_type NOT, match_set [LIKE, ILIKE], parse_value]
           | ILIKE \<Rightarrow> Some [parse_key, match_type NOT, match_set [LIKE, ILIKE], parse_value]
           | BETWEEN \<Rightarrow> Some [parse_key, match_type NOT, match_type BETWEEN, parse_value,
                              match_type AND, parse_value]
           | IN \<Rightarrow> Some [parse_key, parse_notInClause]
           | EXISTS \<Rightarrow> Some [parse_key, match_type NOT, match_type EXISTS]
           | REGEXP \<Rightarrow> Some [parse_key, match_type NOT, match_type REGEXP, parse_value]
           | CONTAINS \<Rightarrow> Some [parse_key, match_type NOT, match_type CONTAINS, parse_value]
           | _ \<Rightarrow> None)
      | _ \<Rightarrow> None)"

definition parse_comparison :: rule_parser where
  "parse_comparison ts =
     (case comparison_alternative (LA 2 ts) (LA 3 ts) of
        None \<Rightarrow> None
      | Some ps \<Rightarrow> rule_of R_comparison (run_all ps ts))"

definition parse_functionParam :: rule_parser where
  "parse_functionParam ts =
     rule_of R_functionParam
       (if LA 1 ts = KEY then run_all [parse_key] ts
        else if LA 1 ts = LBRACK then run_all [parse_array] ts
        else run_all [parse_value] ts)"

definition parse_functionParamList :: rule_parser where
  "parse_functionParamList ts =
     rule_of R_functionParamList
       (then_while parse_functionParam (\<lambda>t. t = COMMA) (\<lambda>_. [match_type COMMA, parse_functionParam]) ts)"

definition parse_functionCall :: rule_parser where
  "parse_functionCall ts =
     rule_of R_functionCall
       (run_all [match_set [HASTOKEN, HAS, HASANY, HASALL], match_type LPAREN,
          parse_functionParamList, match_type RPAREN] ts)"

subsection \<open>Boolean structure\<close>

text \<open>The alternative of \<open>primary\<close> that \<open>adaptivePredict\<close> selects.\<close>

definition predict_primary :: "itoken list \<Rightarrow> nat option" where
  "predict_primary ts =
     (if LA 1 ts = LPAREN then Some 1
      else if LA 1 ts = KEY then
        Some (if comparison_alternative (LA 2 ts) (LA 3 ts) \<noteq> None then 2 else 5)
      else if LA 1 ts \<in> {HASTOKEN, HAS, HASANY, HASALL} then Some 3
      else if LA 1 ts \<in> {QUOTED_TEXT, FREETEXT} then Some 4
      else if LA 1 ts \<in> {NUMBER, BOOL} then Some 6
      else None)"

definition parse_primary :: "rule_parser \<Rightarrow> rule_parser" where
  "parse_primary por ts =
     (case predict_primary ts of
        None \<Rightarrow> None
      | Some alt \<Rightarrow>
          rule_of R_primary
            (if alt = 1 then run_all [match_type LPAREN, por, match_type RPAREN] ts
             else if alt = 2 then run_all [parse_comparison] ts
             else if alt = 3 then run_all [parse_functionCall] ts
             else if alt = 4 then run_all [parse_fullText] ts
             else if alt = 5 then run_all [parse_key] ts
             else run_all [parse_value] ts))"

definition parse_unaryExpression :: "rule_parser \<Rightarrow> rule_parser" where
  "parse_unaryExpression por ts =
     rule_of R_unaryExpression
       (run_all ((if LA 1 ts = NOT then [match_type NOT] else []) @ [parse_primary por]) ts)"

definition starts_unary :: "token_type \<Rightarrow> bool" where
  "starts_unary t \<longleftrightarrow> t \<in> {LPAREN, NOT, HASTOKEN, HAS, HASANY, HASALL, BOOL, NUMBER, QUOTED_TEXT,
     KEY, FREETEXT}"

definition parse_andExpression :: "rule_parser \<Rightarrow> rule_parser" where
  "parse_andExpression por ts =
     rule_of R_andExpression
       (then_while (parse_unaryExpression por) (\<lambda>t. t = AND \<or> starts_unary t)
         (\<lambda>t. if t = AND then [match_type AND, parse_unaryExpression por]
              else [parse_unaryExpression por]) ts)"

fun parse_orExpression :: "nat \<Rightarrow> rule_parser" where
  "parse_orExpression 0 ts = None"
| "parse_orExpression (Suc n) ts =
     rule_of R_orExpression
       (then_while (parse_andExpression (parse_orExpression n)) (\<lambda>t. t = OR)
         (\<lambda>_. [match_type OR, parse_andExpression (parse_orExpression n)]) ts)"

definition parse_expression :: "nat \<Rightarrow> rule_parser" where
  "parse_expression n ts = rule_of R_expression (run_all [parse_orExpression n] ts)"

text \<open>\<open>parser.query()\<close>: the tree, when no error was reported.\<close>

definition parse_query :: "itoken list \<Rightarrow> parse_tree option" where
  "parse_query ts =
     map_option fst
       (rule_of R_query (run_all [parse_expression (Suc (length ts)), match_type EOF] ts))"

subsection \<open>\<open>validateQuery\<close>\<close>

definition query_is_valid :: "string \<Rightarrow> bool" where
  "query_is_valid query \<longleftrightarrow>
     js_trim query = [] \<or> (\<not> lex_error query \<and> parse_query (filter_tokens query) \<noteq> None)"

subsection \<open>The grammar\<close>

text \<open>
  The parser rules of \<open>FilterQuery.g4\<close> as sets of token sequences: no lookahead, no loops, no
  fuel. Alternatives that differ only in the operator token are one rule here.
\<close>

definition plain_operators :: "token_type list" where
  "plain_operators = [EQUALS, NOT_EQUALS, NEQ, LT, LE, GT, GE, LIKE, ILIKE, REGEXP, CONTAINS]"

definition negatable_operators :: "token_type list" where
  "negatable_operators = [LIKE, ILIKE, REGEXP, CONTAINS]"

definition brackets_match :: "itoken \<Rightarrow> itoken \<Rightarrow> bool" where
  "brackets_match l r \<longleftrightarrow>
     (tk_type l = LPAREN \<and> tk_type r = RPAREN) \<or> (tk_type l = LBRACK \<and> tk_type r = RBRACK)"

inductive fq :: "parse_rule \<Rightarrow> itoken list \<Rightarrow> bool" where
  fq_key: "tk_type t = KEY \<Longrightarrow> fq R_key [t]"
| fq_value: "isValueToken (tk_type t) \<Longrightarrow> fq R_value [t]"
| fq_fullText: "tk_type t = QUOTED_TEXT \<or> tk_type t = FREETEXT \<Longrightarrow> fq R_fullText [t]"
| fq_values_one: "fq R_value u \<Longrightarrow> fq R_valueList u"
| fq_values_more: "\<lbrakk>fq R_value u; tk_type c = COMMA; fq R_valueList v\<rbrakk> \<Longrightarrow> fq R_valueList (u @ c # v)"
| fq_array: "\<lbrakk>tk_type l = LBRACK; fq R_valueList u; tk_type r = RBRACK\<rbrakk> \<Longrightarrow> fq R_array (l # u @ [r])"
| fq_in_list: "\<lbrakk>tk_type i = IN; brackets_match l r; fq R_valueList u\<rbrakk>
     \<Longrightarrow> fq R_inClause (i # l # u @ [r])"
| fq_in_value: "\<lbrakk>tk_type i = IN; fq R_value u\<rbrakk> \<Longrightarrow> fq R_inClause (i # u)"
| fq_not_in_list: "\<lbrakk>tk_type n = NOT; tk_type i = IN; brackets_match l r; fq R_valueList u\<rbrakk>
     \<Longrightarrow> fq R_notInClause (n # i # l # u @ [r])"
| fq_not_in_value: "\<lbrakk>tk_type n = NOT; tk_type i = IN; fq R_value u\<rbrakk> \<Longrightarrow> fq R_notInClause (n # i # u)"
| fq_compare: "\<lbrakk>fq R_key k; tk_type t \<in> set plain_operators; fq R_value v\<rbrakk>
     \<Longrightarrow> fq R_comparison (k @ t # v)"
| fq_compare_not: "\<lbrakk>fq R_key k; tk_type n = NOT; tk_type t \<in> set negatable_operators; fq R_value v\<rbrakk>
     \<Longrightarrow> fq R_comparison (k @ n # t # v)"
| fq_between: "\<lbrakk>fq R_key k; tk_type b = BETWEEN; fq R_value v; tk_type a = AND; fq R_value w\<rbrakk>
     \<Longrightarrow> fq R_comparison (k @ b # v @ a # w)"
| fq_not_between: "\<lbrakk>fq R_key k; tk_type n = NOT; tk_type b = BETWEEN; fq R_value v; tk_type a = AND;
      fq R_value w\<rbrakk> \<Longrightarrow> fq R_comparison (k @ n # b # v @ a # w)"
| fq_compare_in: "\<lbrakk>fq R_key k; fq R_inClause u\<rbrakk> \<Longrightarrow> fq R_comparison (k @ u)"
| fq_compare_not_in: "\<lbrakk>fq R_key k; fq R_notInClause u\<rbrakk> \<Longrightarrow> fq R_comparison (k @ u)"
| fq_exists: "\<lbrakk>fq R_key k; tk_type e = EXISTS\<rbrakk> \<Longrightarrow> fq R_comparison (k @ [e])"
| fq_not_exists: "\<lbrakk>fq R_key k; tk_type n = NOT; tk_type e = EXISTS\<rbrakk> \<Longrightarrow> fq R_comparison (k @ [n, e])"
| fq_param: "fq R_key u \<or> fq R_value u \<or> fq R_array u \<Longrightarrow> fq R_functionParam u"
| fq_params_one: "fq R_functionParam u \<Longrightarrow> fq R_functionParamList u"
| fq_params_more: "\<lbrakk>fq R_functionParam u; tk_type c = COMMA; fq R_functionParamList v\<rbrakk>
     \<Longrightarrow> fq R_functionParamList (u @ c # v)"
| fq_call: "\<lbrakk>isFunctionToken (tk_type f); tk_type l = LPAREN; fq R_functionParamList u; tk_type r = RPAREN\<rbrakk>
     \<Longrightarrow> fq R_functionCall (f # l # u @ [r])"
| fq_paren: "\<lbrakk>tk_type l = LPAREN; fq R_orExpression u; tk_type r = RPAREN\<rbrakk>
     \<Longrightarrow> fq R_primary (l # u @ [r])"
| fq_primary: "\<lbrakk>fq rl u; rl \<in> {R_comparison, R_functionCall, R_fullText, R_key, R_value}\<rbrakk>
     \<Longrightarrow> fq R_primary u"
| fq_unary: "fq R_primary u \<Longrightarrow> fq R_unaryExpression u"
| fq_unary_not: "\<lbrakk>tk_type n = NOT; fq R_primary u\<rbrakk> \<Longrightarrow> fq R_unaryExpression (n # u)"
| fq_and_one: "fq R_unaryExpression u \<Longrightarrow> fq R_andExpression u"
| fq_and_more: "\<lbrakk>fq R_unaryExpression u; tk_type a = AND; fq R_andExpression v\<rbrakk>
     \<Longrightarrow> fq R_andExpression (u @ a # v)"
| fq_and_implicit: "\<lbrakk>fq R_unaryExpression u; fq R_andExpression v\<rbrakk> \<Longrightarrow> fq R_andExpression (u @ v)"
| fq_or_one: "fq R_andExpression u \<Longrightarrow> fq R_orExpression u"
| fq_or_more: "\<lbrakk>fq R_andExpression u; tk_type c = OR; fq R_orExpression v\<rbrakk>
     \<Longrightarrow> fq R_orExpression (u @ c # v)"
| fq_expression: "fq R_orExpression u \<Longrightarrow> fq R_expression u"
| fq_query: "\<lbrakk>fq R_expression u; tk_type e = EOF\<rbrakk> \<Longrightarrow> fq R_query (u @ [e])"

subsection \<open>What a method parses is a word of its rule, and the leaves of its tree\<close>

definition yields :: "(itoken list \<Rightarrow> bool) \<Rightarrow> rule_parser \<Rightarrow> bool" where
  "yields P p \<longleftrightarrow> (\<forall>ts tr r. p ts = Some (tr, r) \<longrightarrow> ts = leaves tr @ r \<and> P (leaves tr))"

fun word_seq :: "(itoken list \<Rightarrow> bool) list \<Rightarrow> itoken list \<Rightarrow> bool" where
  "word_seq [] w = (w = [])"
| "word_seq (P # Ps) w = (\<exists>u v. w = u @ v \<and> P u \<and> word_seq Ps v)"

definition one_of :: "token_type list \<Rightarrow> itoken list \<Rightarrow> bool" where
  "one_of ys w \<longleftrightarrow> (\<exists>t. w = [t] \<and> tk_type t \<in> set ys)"

lemma yieldsD: "yields P p \<Longrightarrow> p ts = Some (tr, r) \<Longrightarrow> ts = leaves tr @ r \<and> P (leaves tr)"
  by (simp add: yields_def)

lemma yields_match [simp]: "yields (one_of ys) (match_set ys)"
  by (auto simp: yields_def one_of_def match_set_def split: list.splits if_splits)

lemma run_all_yields:
  "run_all ps ts = Some (trs, r) \<Longrightarrow> list_all2 yields Ps ps \<Longrightarrow>
     ts = concat (map leaves trs) @ r \<and> word_seq Ps (concat (map leaves trs))"
proof (induction ps ts arbitrary: trs r Ps rule: run_all.induct)
  case (1 ts)
  then show ?case by simp
next
  case (2 p ps ts)
  from 2(3) obtain P Ps' where Ps: "Ps = P # Ps'" "yields P p" "list_all2 yields Ps' ps"
    by (auto simp: list_all2_Cons2)
  from 2(2) obtain tr q trs' where run: "p ts = Some (tr, q)" "run_all ps q = Some (trs', r)"
    "trs = tr # trs'"
    by (auto split: option.splits)
  from 2(1) [OF run(1) refl run(2) Ps(3)] yieldsD [OF Ps(2) run(1)] run(3) Ps(1) show ?case
    by auto
qed

lemma yields_seq:
  assumes "list_all2 yields Ps ps" and "\<And>w. word_seq Ps w \<Longrightarrow> P w"
  shows "yields P (\<lambda>ts. rule_of rl (run_all ps ts))"
  using assms run_all_yields [of ps] by (fastforce simp: rule_of_def yields_def)

lemma while_la_yields:
  assumes body: "\<And>t trs ts r. test t \<Longrightarrow> run_all (body t) ts = Some (trs, r) \<Longrightarrow>
      \<exists>s u. concat (map leaves trs) = s @ u \<and> ts = s @ u @ r \<and> S s \<and> P u"
    and base: "\<And>u. P u \<Longrightarrow> Q u"
    and step: "\<And>u s v. P u \<Longrightarrow> S s \<Longrightarrow> Q v \<Longrightarrow> Q (u @ s @ v)"
  shows "while_la test body k ts = Some (trs, r) \<Longrightarrow> P u \<Longrightarrow>
    ts = concat (map leaves trs) @ r \<and> Q (u @ concat (map leaves trs))"
proof (induction k arbitrary: u ts trs)
  case 0
  then show ?case using base by (auto split: if_splits)
next
  case (Suc k)
  show ?case
  proof (cases "test (LA 1 ts)")
    case False
    with Suc.prems base show ?thesis by auto
  next
    case True
    with Suc.prems(1) obtain trs1 q trs2 where run: "run_all (body (LA 1 ts)) ts = Some (trs1, q)"
      "while_la test body k q = Some (trs2, r)" "trs = trs1 @ trs2"
      by (auto split: option.splits)
    from body [OF True run(1)] obtain s v where b: "concat (map leaves trs1) = s @ v" "ts = s @ v @ q"
      "S s" "P v" by blast
    from Suc.IH [OF run(2) b(4)] b(1,2) run(3) step [OF Suc.prems(2) b(3), of "v @ concat (map leaves trs2)"]
    show ?thesis by simp
  qed
qed

lemma then_while_yields:
  assumes first: "yields P p"
    and body: "\<And>t trs ts r. test t \<Longrightarrow> run_all (body t) ts = Some (trs, r) \<Longrightarrow>
      \<exists>s u. concat (map leaves trs) = s @ u \<and> ts = s @ u @ r \<and> S s \<and> P u"
    and base: "\<And>u. P u \<Longrightarrow> Q u"
    and step: "\<And>u s v. P u \<Longrightarrow> S s \<Longrightarrow> Q v \<Longrightarrow> Q (u @ s @ v)"
  shows "yields Q (\<lambda>ts. rule_of rl (then_while p test body ts))"
  unfolding yields_def
proof (intro allI impI)
  fix ts tr r
  assume "rule_of rl (then_while p test body ts) = Some (tr, r)"
  then obtain tr1 q trs where run: "p ts = Some (tr1, q)"
    "while_la test body (length q) q = Some (trs, r)" "tr = Rule rl (tr1 # trs)"
    by (auto simp: rule_of_def then_while_def split: option.splits)
  have f: "ts = leaves tr1 @ q" "P (leaves tr1)" using yieldsD [OF first run(1)] by auto
  have "q = concat (map leaves trs) @ r \<and> Q (leaves tr1 @ concat (map leaves trs))"
    by (rule while_la_yields [where S = S and P = P, OF _ _ _ run(2) f(2)]) (fact body base step)+
  with f run(3) show "ts = leaves tr @ r \<and> Q (leaves tr)" by simp
qed

lemma separated_yields:
  assumes p: "yields P p"
    and base: "\<And>u. P u \<Longrightarrow> Q u"
    and step: "\<And>u c v. P u \<Longrightarrow> tk_type c = sep \<Longrightarrow> Q v \<Longrightarrow> Q (u @ c # v)"
  shows "yields Q (\<lambda>ts. rule_of rl (then_while p (\<lambda>t. t = sep) (\<lambda>_. [match_type sep, p]) ts))"
proof (rule then_while_yields [where S = "one_of [sep]", OF p])
  fix trs ts r
  assume "run_all [match_type sep, p] ts = Some (trs, r)"
  from run_all_yields [OF this, of "[one_of [sep], P]"] p
  show "\<exists>s u. concat (map leaves trs) = s @ u \<and> ts = s @ u @ r \<and> one_of [sep] s \<and> P u"
    by auto
qed (use base step in \<open>auto simp: one_of_def\<close>)

subsubsection \<open>The rules\<close>

lemma yields_key [simp]: "yields (fq R_key) parse_key"
  unfolding parse_key_def [abs_def]
  by (rule yields_seq [where Ps = "[one_of [KEY]]"]) (auto simp: one_of_def [of _ w for w] intro: fq_key)

lemma yields_value [simp]: "yields (fq R_value) parse_value"
  unfolding parse_value_def [abs_def]
  by (rule yields_seq [where Ps = "[one_of [QUOTED_TEXT, NUMBER, BOOL, KEY]]"])
     (simp, auto simp: one_of_def isValueToken_def intro: fq_value)

lemma yields_fullText [simp]: "yields (fq R_fullText) parse_fullText"
  unfolding parse_fullText_def [abs_def]
  by (rule yields_seq [where Ps = "[one_of [QUOTED_TEXT, FREETEXT]]"])
     (simp, auto simp: one_of_def intro: fq_fullText)

lemma yields_valueList [simp]: "yields (fq R_valueList) parse_valueList"
  unfolding parse_valueList_def [abs_def]
  by (rule separated_yields [OF yields_value]) (auto intro: fq_values_one fq_values_more)

lemma yields_array [simp]: "yields (fq R_array) parse_array"
  unfolding parse_array_def [abs_def]
  by (rule yields_seq [where Ps = "[one_of [LBRACK], fq R_valueList, one_of [RBRACK]]"])
     (simp, auto simp: one_of_def intro: fq_array)

lemma yields_if:
  "(b \<Longrightarrow> yields P p) \<Longrightarrow> (\<not> b \<Longrightarrow> yields P q) \<Longrightarrow> yields P (\<lambda>ts. if b then p ts else q ts)"
  by (simp add: yields_def)

lemma yields_cases:
  "(\<And>ts. \<exists>q. yields P q \<and> p ts = q ts) \<Longrightarrow> yields P p"
  unfolding yields_def by metis

lemma yields_inClause [simp]: "yields (fq R_inClause) parse_inClause"
proof (rule yields_cases)
  fix ts
  let ?paren = "[match_type IN, match_type LPAREN, parse_valueList, match_type RPAREN]"
  let ?brack = "[match_type IN, match_type LBRACK, parse_valueList, match_type RBRACK]"
  let ?val = "[match_type IN, parse_value]"
  have "yields (fq R_inClause) (\<lambda>ts. rule_of R_inClause (run_all ?paren ts))"
    by (rule yields_seq [where Ps = "[one_of [IN], one_of [LPAREN], fq R_valueList, one_of [RPAREN]]"])
       (simp, auto simp: one_of_def brackets_match_def intro!: fq_in_list)
  moreover have "yields (fq R_inClause) (\<lambda>ts. rule_of R_inClause (run_all ?brack ts))"
    by (rule yields_seq [where Ps = "[one_of [IN], one_of [LBRACK], fq R_valueList, one_of [RBRACK]]"])
       (simp, auto simp: one_of_def brackets_match_def intro!: fq_in_list)
  moreover have "yields (fq R_inClause) (\<lambda>ts. rule_of R_inClause (run_all ?val ts))"
    by (rule yields_seq [where Ps = "[one_of [IN], fq R_value]"])
       (simp, auto simp: one_of_def intro: fq_in_value)
  ultimately show "\<exists>q. yields (fq R_inClause) q \<and> parse_inClause ts = q ts"
    by (cases "LA 2 ts = LPAREN"; cases "LA 2 ts = LBRACK") (auto simp: parse_inClause_def)
qed

lemma yields_notInClause [simp]: "yields (fq R_notInClause) parse_notInClause"
proof (rule yields_cases)
  fix ts
  let ?paren = "[match_type NOT, match_type IN, match_type LPAREN, parse_valueList, match_type RPAREN]"
  let ?brack = "[match_type NOT, match_type IN, match_type LBRACK, parse_valueList, match_type RBRACK]"
  let ?val = "[match_type NOT, match_type IN, parse_value]"
  have "yields (fq R_notInClause) (\<lambda>ts. rule_of R_notInClause (run_all ?paren ts))"
    by (rule yields_seq [where Ps = "[one_of [NOT], one_of [IN], one_of [LPAREN], fq R_valueList, one_of [RPAREN]]"])
       (simp, auto simp: one_of_def brackets_match_def intro!: fq_not_in_list)
  moreover have "yields (fq R_notInClause) (\<lambda>ts. rule_of R_notInClause (run_all ?brack ts))"
    by (rule yields_seq [where Ps = "[one_of [NOT], one_of [IN], one_of [LBRACK], fq R_valueList, one_of [RBRACK]]"])
       (simp, auto simp: one_of_def brackets_match_def intro!: fq_not_in_list)
  moreover have "yields (fq R_notInClause) (\<lambda>ts. rule_of R_notInClause (run_all ?val ts))"
    by (rule yields_seq [where Ps = "[one_of [NOT], one_of [IN], fq R_value]"])
       (simp, auto simp: one_of_def intro: fq_not_in_value)
  ultimately show "\<exists>q. yields (fq R_notInClause) q \<and> parse_notInClause ts = q ts"
    by (cases "LA 3 ts = LPAREN"; cases "LA 3 ts = LBRACK") (auto simp: parse_notInClause_def)
qed

text \<open>The shapes of a comparison.\<close>

lemma yields_compare:
  "set ys \<subseteq> set plain_operators \<Longrightarrow>
     yields (fq R_comparison) (\<lambda>ts. rule_of R_comparison (run_all [parse_key, match_set ys, parse_value] ts))"
  by (rule yields_seq [where Ps = "[fq R_key, one_of ys, fq R_value]"])
     (simp, auto simp: one_of_def intro!: fq_compare)

lemma yields_compare_not:
  "set ys \<subseteq> set negatable_operators \<Longrightarrow>
     yields (fq R_comparison)
       (\<lambda>ts. rule_of R_comparison (run_all [parse_key, match_type NOT, match_set ys, parse_value] ts))"
  by (rule yields_seq [where Ps = "[fq R_key, one_of [NOT], one_of ys, fq R_value]"])
     (simp, auto simp: one_of_def intro!: fq_compare_not)

lemma yields_between:
  "yields (fq R_comparison) (\<lambda>ts. rule_of R_comparison
     (run_all [parse_key, match_type BETWEEN, parse_value, match_type AND, parse_value] ts))"
  by (rule yields_seq [where Ps = "[fq R_key, one_of [BETWEEN], fq R_value, one_of [AND], fq R_value]"])
     (simp, auto simp: one_of_def intro: fq_between)

lemma yields_not_between:
  "yields (fq R_comparison) (\<lambda>ts. rule_of R_comparison
     (run_all [parse_key, match_type NOT, match_type BETWEEN, parse_value, match_type AND, parse_value] ts))"
  by (rule yields_seq [where Ps = "[fq R_key, one_of [NOT], one_of [BETWEEN], fq R_value, one_of [AND], fq R_value]"])
     (simp, auto simp: one_of_def intro: fq_not_between)

lemma yields_compare_in:
  "yields (fq R_comparison) (\<lambda>ts. rule_of R_comparison (run_all [parse_key, parse_inClause] ts))"
  by (rule yields_seq [where Ps = "[fq R_key, fq R_inClause]"]) (simp, auto intro: fq_compare_in)

lemma yields_compare_not_in:
  "yields (fq R_comparison) (\<lambda>ts. rule_of R_comparison (run_all [parse_key, parse_notInClause] ts))"
  by (rule yields_seq [where Ps = "[fq R_key, fq R_notInClause]"]) (simp, auto intro: fq_compare_not_in)

lemma yields_exists:
  "yields (fq R_comparison) (\<lambda>ts. rule_of R_comparison (run_all [parse_key, match_type EXISTS] ts))"
  by (rule yields_seq [where Ps = "[fq R_key, one_of [EXISTS]]"])
     (simp, auto simp: one_of_def intro: fq_exists)

lemma yields_not_exists:
  "yields (fq R_comparison)
     (\<lambda>ts. rule_of R_comparison (run_all [parse_key, match_type NOT, match_type EXISTS] ts))"
  by (rule yields_seq [where Ps = "[fq R_key, one_of [NOT], one_of [EXISTS]]"])
     (simp, auto simp: one_of_def intro: fq_not_exists)

lemmas yields_comparisons = yields_compare yields_compare_not yields_between yields_not_between
  yields_compare_in yields_compare_not_in yields_exists yields_not_exists

lemma comparison_alternative_yields:
  assumes "comparison_alternative a b = Some ps"
  shows "yields (fq R_comparison) (\<lambda>ts. rule_of R_comparison (run_all ps ts))"
proof (cases "a = NOT")
  case True
  show ?thesis
    using assms unfolding comparison_alternative_def True
    by (cases b) (auto simp: negatable_operators_def simp del: run_all.simps intro!: yields_comparisons)
next
  case False
  show ?thesis
    using assms False unfolding comparison_alternative_def
    by (cases a) (auto simp: plain_operators_def simp del: run_all.simps intro!: yields_comparisons)
qed

lemma yields_comparison [simp]: "yields (fq R_comparison) parse_comparison"
proof (rule yields_cases)
  fix ts
  show "\<exists>q. yields (fq R_comparison) q \<and> parse_comparison ts = q ts"
  proof (cases "comparison_alternative (LA 2 ts) (LA 3 ts)")
    case None
    then show ?thesis
      by (intro exI [of _ "\<lambda>_. None"]) (simp add: parse_comparison_def yields_def)
  next
    case (Some ps)
    with comparison_alternative_yields [OF Some] show ?thesis
      by (intro exI [of _ "\<lambda>ts. rule_of R_comparison (run_all ps ts)"]) (simp add: parse_comparison_def)
  qed
qed

lemma yields_functionParam [simp]: "yields (fq R_functionParam) parse_functionParam"
proof (rule yields_cases)
  fix ts
  have "yields (fq R_functionParam) (\<lambda>ts. rule_of R_functionParam (run_all [parse_key] ts))"
    by (rule yields_seq [where Ps = "[fq R_key]"]) (simp, auto intro: fq_param)
  moreover have "yields (fq R_functionParam) (\<lambda>ts. rule_of R_functionParam (run_all [parse_value] ts))"
    by (rule yields_seq [where Ps = "[fq R_value]"]) (simp, auto intro: fq_param)
  moreover have "yields (fq R_functionParam) (\<lambda>ts. rule_of R_functionParam (run_all [parse_array] ts))"
    by (rule yields_seq [where Ps = "[fq R_array]"]) (simp, auto intro: fq_param)
  ultimately show "\<exists>q. yields (fq R_functionParam) q \<and> parse_functionParam ts = q ts"
    by (cases "LA 1 ts = KEY"; cases "LA 1 ts = LBRACK") (auto simp: parse_functionParam_def)
qed

lemma yields_functionParamList [simp]: "yields (fq R_functionParamList) parse_functionParamList"
  unfolding parse_functionParamList_def [abs_def]
  by (rule separated_yields [OF yields_functionParam]) (auto intro: fq_params_one fq_params_more)

lemma yields_functionCall [simp]: "yields (fq R_functionCall) parse_functionCall"
  unfolding parse_functionCall_def [abs_def]
  by (rule yields_seq [where Ps = "[one_of [HASTOKEN, HAS, HASANY, HASALL], one_of [LPAREN],
        fq R_functionParamList, one_of [RPAREN]]"])
     (simp, auto simp: one_of_def isFunctionToken_def intro!: fq_call)

lemma yields_primary:
  assumes por: "yields (fq R_orExpression) por"
  shows "yields (fq R_primary) (parse_primary por)"
proof (rule yields_cases)
  fix ts
  let ?run = "\<lambda>ps ts. rule_of R_primary (run_all ps ts)"
  have single: "yields (fq R_primary) (?run [p])"
    if "yields (fq rl) p" "rl \<in> {R_comparison, R_functionCall, R_fullText, R_key, R_value}" for rl p
    using that by (intro yields_seq [where Ps = "[fq rl]"]) (simp, auto intro: fq_primary)
  have paren: "yields (fq R_primary) (?run [match_type LPAREN, por, match_type RPAREN])"
    using por by (intro yields_seq [where Ps = "[one_of [LPAREN], fq R_orExpression, one_of [RPAREN]]"])
       (simp, auto simp: one_of_def intro: fq_paren)
  show "\<exists>q. yields (fq R_primary) q \<and> parse_primary por ts = q ts"
  proof (cases "predict_primary ts")
    case None
    then show ?thesis
      by (intro exI [of _ "\<lambda>_. None"]) (simp add: parse_primary_def yields_def)
  next
    case (Some alt)
    then consider "alt = 1" | "alt = 2" | "alt = 3" | "alt = 4" | "alt = 5" | "alt = 6"
      by (auto simp: predict_primary_def split: if_splits)
    then show ?thesis
      using paren single [OF yields_comparison] single [OF yields_functionCall]
        single [OF yields_fullText] single [OF yields_key] single [OF yields_value]
      by cases (simp_all add: parse_primary_def Some del: run_all.simps, blast+)
  qed
qed

lemma yields_unaryExpression:
  assumes por: "yields (fq R_orExpression) por"
  shows "yields (fq R_unaryExpression) (parse_unaryExpression por)"
proof (rule yields_cases)
  fix ts
  have "yields (fq R_unaryExpression) (\<lambda>ts. rule_of R_unaryExpression (run_all [parse_primary por] ts))"
    by (rule yields_seq [where Ps = "[fq R_primary]"])
       (simp add: yields_primary [OF por], auto intro: fq_unary)
  moreover have "yields (fq R_unaryExpression)
      (\<lambda>ts. rule_of R_unaryExpression (run_all [match_type NOT, parse_primary por] ts))"
    by (rule yields_seq [where Ps = "[one_of [NOT], fq R_primary]"])
       (simp add: yields_primary [OF por], auto simp: one_of_def intro: fq_unary_not)
  ultimately show "\<exists>q. yields (fq R_unaryExpression) q \<and> parse_unaryExpression por ts = q ts"
    by (cases "LA 1 ts = NOT") (auto simp: parse_unaryExpression_def)
qed

lemma yields_andExpression:
  assumes por: "yields (fq R_orExpression) por"
  shows "yields (fq R_andExpression) (parse_andExpression por)"
  unfolding parse_andExpression_def [abs_def]
proof (rule then_while_yields [where S = "\<lambda>s. s = [] \<or> one_of [AND] s", OF yields_unaryExpression [OF por]])
  fix t trs ts r
  assume run: "run_all (if t = AND then [match_type AND, parse_unaryExpression por]
      else [parse_unaryExpression por]) ts = Some (trs, r)"
  show "\<exists>s u. concat (map leaves trs) = s @ u \<and> ts = s @ u @ r \<and> (s = [] \<or> one_of [AND] s)
      \<and> fq R_unaryExpression u"
  proof (cases "t = AND")
    case True
    with run have "run_all [match_type AND, parse_unaryExpression por] ts = Some (trs, r)" by simp
    from run_all_yields [OF this, of "[one_of [AND], fq R_unaryExpression]"] yields_unaryExpression [OF por]
    show ?thesis by auto
  next
    case False
    with run have "run_all [parse_unaryExpression por] ts = Some (trs, r)" by simp
    from run_all_yields [OF this, of "[fq R_unaryExpression]"] yields_unaryExpression [OF por]
    show ?thesis by (intro exI [of _ "[]"] exI [of _ "concat (map leaves trs)"]) simp
  qed
qed (auto simp: one_of_def intro: fq_and_one fq_and_more fq_and_implicit)

lemma yields_orExpression: "yields (fq R_orExpression) (parse_orExpression n)"
proof (induction n)
  case 0
  show ?case by (simp add: yields_def)
next
  case (Suc n)
  show ?case
    unfolding parse_orExpression.simps(2) [abs_def]
    by (rule separated_yields [OF yields_andExpression [OF Suc]]) (auto intro: fq_or_one fq_or_more)
qed

lemma parse_query_yields:
  assumes "parse_query ts = Some tr"
  shows "\<exists>r. ts = leaves tr @ r \<and> fq R_query (leaves tr)"
proof -
  let ?n = "Suc (length ts)"
  have ex: "yields (fq R_expression) (parse_expression ?n)"
    unfolding parse_expression_def [abs_def]
    by (rule yields_seq [where Ps = "[fq R_orExpression]"])
       (simp add: yields_orExpression del: parse_orExpression.simps, auto intro: fq_expression)
  have "yields (fq R_query) (\<lambda>ts. rule_of R_query (run_all [parse_expression ?n, match_type EOF] ts))"
    by (rule yields_seq [where Ps = "[fq R_expression, one_of [EOF]]"])
       (simp add: ex, auto simp: one_of_def intro: fq_query)
  with assms show ?thesis
    unfolding parse_query_def by (auto dest: yieldsD)
qed

subsection \<open>Every word of a rule is parsed\<close>

definition takes :: "rule_parser \<Rightarrow> itoken list \<Rightarrow> itoken list \<Rightarrow> bool" where
  "takes p us rest \<longleftrightarrow> (\<exists>tr. p (us @ rest) = Some (tr, rest))"

definition runs :: "rule_parser list \<Rightarrow> itoken list \<Rightarrow> itoken list \<Rightarrow> bool" where
  "runs ps us rest \<longleftrightarrow> (\<exists>trs. run_all ps (us @ rest) = Some (trs, rest))"

lemma LA_simps [simp]:
  "LA 1 (t # r) = tk_type t" "LA (Suc 0) (t # r) = tk_type t" "LA 2 (t # r) = LA 1 r"
  "LA 3 (t # r) = LA 2 r" "LA i [] = EOF"
  by (simp_all add: LA_def)

lemma runs_Nil: "runs [] [] rest"
  by (simp add: runs_def)

lemma runs_Cons: "takes p u (v @ rest) \<Longrightarrow> runs ps v rest \<Longrightarrow> runs (p # ps) (u @ v) rest"
  by (auto simp: runs_def takes_def)

lemma runs_one: "takes p u rest \<Longrightarrow> runs [p] u rest"
  by (auto simp: runs_def takes_def)

lemma runs_match: "tk_type t \<in> set ys \<Longrightarrow> runs ps v rest \<Longrightarrow> runs (match_set ys # ps) (t # v) rest"
  by (auto simp: runs_def match_set_def)

lemma runs_last: "tk_type t \<in> set ys \<Longrightarrow> runs [match_set ys] [t] rest"
  by (rule runs_match [OF _ runs_Nil])

lemma takes_match [simp]: "takes (match_set ys) [t] rest \<longleftrightarrow> tk_type t \<in> set ys"
  by (auto simp: takes_def match_set_def)

lemmas runs_intros = runs_match runs_last runs_Cons runs_one

lemma takes_rule: "p (us @ rest) = rule_of rl (run_all ps (us @ rest)) \<Longrightarrow> runs ps us rest \<Longrightarrow> takes p us rest"
  by (auto simp: takes_def runs_def rule_of_def)

lemma takes_key: "tk_type t = KEY \<Longrightarrow> takes parse_key [t] rest"
  by (rule takes_rule [OF _ runs_last]) (auto simp: parse_key_def)

lemma takes_value: "isValueToken (tk_type t) \<Longrightarrow> takes parse_value [t] rest"
  by (rule takes_rule [OF _ runs_last]) (auto simp: parse_value_def isValueToken_def)

lemma takes_fullText: "tk_type t = QUOTED_TEXT \<or> tk_type t = FREETEXT \<Longrightarrow> takes parse_fullText [t] rest"
  by (rule takes_rule [OF _ runs_last]) (auto simp: parse_fullText_def)

inductive_cases fq_keyE: "fq R_key u"
inductive_cases fq_valueE: "fq R_value u"
inductive_cases fq_fullTextE: "fq R_fullText u"
inductive_cases fq_inClauseE: "fq R_inClause u"
inductive_cases fq_notInClauseE: "fq R_notInClause u"
inductive_cases fq_comparisonE: "fq R_comparison u"
inductive_cases fq_valueListE: "fq R_valueList u"
inductive_cases fq_arrayE: "fq R_array u"
inductive_cases fq_functionParamE: "fq R_functionParam u"
inductive_cases fq_functionCallE: "fq R_functionCall u"

text \<open>Loops.\<close>

definition whiles_to ::
  "(token_type \<Rightarrow> bool) \<Rightarrow> (token_type \<Rightarrow> rule_parser list) \<Rightarrow> itoken list \<Rightarrow> itoken list \<Rightarrow> bool" where
  "whiles_to test body q rest \<longleftrightarrow>
     (\<forall>k \<ge> length q. \<exists>trs. while_la test body k q = Some (trs, rest))"

text \<open>The operand and then the loop, with enough fuel.\<close>

definition chains ::
  "rule_parser \<Rightarrow> (token_type \<Rightarrow> bool) \<Rightarrow> (token_type \<Rightarrow> rule_parser list) \<Rightarrow> itoken list \<Rightarrow> itoken list \<Rightarrow> bool" where
  "chains p test body us rest \<longleftrightarrow>
     (\<exists>tr q. p (us @ rest) = Some (tr, q) \<and> whiles_to test body q rest)"

lemma whiles_to_stop: "\<not> test (LA 1 rest) \<Longrightarrow> whiles_to test body rest rest"
  unfolding whiles_to_def
proof (intro allI impI)
  fix k
  assume "\<not> test (LA 1 rest)"
  then show "\<exists>trs. while_la test body k rest = Some (trs, rest)" by (cases k) auto
qed

lemma chains_one: "takes p us rest \<Longrightarrow> \<not> test (LA 1 rest) \<Longrightarrow> chains p test body us rest"
  unfolding chains_def takes_def using whiles_to_stop [of test rest body] by blast

lemma chains_more:
  assumes first: "takes p us (sep @ vs @ rest)"
    and go: "test (LA 1 (sep @ vs @ rest))"
    and body: "body (LA 1 (sep @ vs @ rest)) = map match_type (map tk_type sep) @ [p]"
    and shrink: "\<And>ts tr r. p ts = Some (tr, r) \<Longrightarrow> length r < length ts"
    and more: "chains p test body vs rest"
  shows "chains p test body (us @ sep @ vs) rest"
proof -
  from more obtain tr q where tr: "p (vs @ rest) = Some (tr, q)" "whiles_to test body q rest"
    by (auto simp: chains_def)
  have seps: "\<exists>trs. run_all (map match_type (map tk_type s) @ [p]) (s @ vs @ rest) = Some (trs, q)" for s
    using tr(1) by (induction s) (auto simp: match_set_def)
  then obtain trs where trs: "run_all (body (LA 1 (sep @ vs @ rest))) (sep @ vs @ rest) = Some (trs, q)"
    unfolding body by blast
  have len: "length q < length (sep @ vs @ rest)"
    using shrink [OF tr(1)] by simp
  have "whiles_to test body (sep @ vs @ rest) rest"
    unfolding whiles_to_def
  proof (intro allI impI)
    fix k
    assume k: "length (sep @ vs @ rest) \<le> k"
    with len obtain j where j: "k = Suc j" "length q \<le> j" by (cases k) auto
    with tr(2) obtain trs' where "while_la test body j q = Some (trs', rest)" by (auto simp: whiles_to_def)
    with go trs j show "\<exists>trs. while_la test body k (sep @ vs @ rest) = Some (trs, rest)" by auto
  qed
  with first show ?thesis by (auto simp: chains_def takes_def)
qed

lemma takes_chain:
  "p (us @ rest) = rule_of rl (then_while f test body (us @ rest)) \<Longrightarrow> chains f test body us rest \<Longrightarrow>
     takes p us rest"
  unfolding chains_def takes_def rule_of_def then_while_def whiles_to_def by fastforce

lemma fq_not_Nil: "fq rl u \<Longrightarrow> u \<noteq> []"
  by (induction rule: fq.induct) auto

lemma yields_shrinks: "yields (fq rl) p \<Longrightarrow> p ts = Some (tr, r) \<Longrightarrow> length r < length ts"
  using yieldsD fq_not_Nil by fastforce

lemma takes_valueList: "fq R_valueList us \<Longrightarrow> LA 1 rest \<noteq> COMMA \<Longrightarrow> takes parse_valueList us rest"
proof (rule takes_chain, rule parse_valueList_def)
  assume "fq R_valueList us" "LA 1 rest \<noteq> COMMA"
  then show "chains parse_value (\<lambda>t. t = COMMA) (\<lambda>_. [match_type COMMA, parse_value]) us rest"
  proof (induction R_valueList us rule: fq.induct)
    case (fq_values_one u)
    then show ?case by (intro chains_one) (auto elim!: fq_valueE intro: takes_value)
  next
    case (fq_values_more u c v)
    then have "chains parse_value (\<lambda>t. t = COMMA) (\<lambda>_. [match_type COMMA, parse_value]) (u @ [c] @ v) rest"
      by (intro chains_more yields_shrinks [OF yields_value]) (auto elim!: fq_valueE intro: takes_value)
    then show ?case by simp
  qed
qed

lemma takes_array: "fq R_array us \<Longrightarrow> takes parse_array us rest"
proof (elim fq_arrayE)
  fix l u r
  assume "us = l # u @ [r]" "tk_type l = LBRACK" "fq R_valueList u" "tk_type r = RBRACK"
  then show ?thesis
    by (intro takes_rule [where ps = "[match_type LBRACK, parse_valueList, match_type RBRACK]"])
       (auto simp: parse_array_def simp del: run_all.simps intro!: runs_intros takes_valueList)
qed

lemma takes_inClause: "fq R_inClause us \<Longrightarrow> takes parse_inClause us rest"
proof (elim fq_inClauseE)
  fix i l r u
  assume a: "us = i # l # u @ [r]" "tk_type i = IN" "brackets_match l r" "fq R_valueList u"
  then consider "tk_type l = LPAREN" "tk_type r = RPAREN" | "tk_type l = LBRACK" "tk_type r = RBRACK"
    by (auto simp: brackets_match_def)
  then show ?thesis
  proof cases
    case 1
    with a show ?thesis
      by (intro takes_rule [where ps = "[match_type IN, match_type LPAREN, parse_valueList, match_type RPAREN]"])
         (auto simp: parse_inClause_def simp del: run_all.simps intro!: runs_intros takes_valueList)
  next
    case 2
    with a show ?thesis
      by (intro takes_rule [where ps = "[match_type IN, match_type LBRACK, parse_valueList, match_type RBRACK]"])
         (auto simp: parse_inClause_def simp del: run_all.simps intro!: runs_intros takes_valueList)
  qed
next
  fix i u
  assume "us = i # u" "tk_type i = IN" "fq R_value u"
  then show ?thesis
    by (intro takes_rule [where ps = "[match_type IN, parse_value]"])
       (auto simp: parse_inClause_def isValueToken_def simp del: run_all.simps elim!: fq_valueE
          intro!: runs_intros takes_value)
qed

lemma takes_notInClause: "fq R_notInClause us \<Longrightarrow> takes parse_notInClause us rest"
proof (elim fq_notInClauseE)
  fix n i l r u
  assume a: "us = n # i # l # u @ [r]" "tk_type n = NOT" "tk_type i = IN" "brackets_match l r"
    "fq R_valueList u"
  then consider "tk_type l = LPAREN" "tk_type r = RPAREN" | "tk_type l = LBRACK" "tk_type r = RBRACK"
    by (auto simp: brackets_match_def)
  then show ?thesis
  proof cases
    case 1
    with a show ?thesis
      by (intro takes_rule [where ps = "[match_type NOT, match_type IN, match_type LPAREN,
            parse_valueList, match_type RPAREN]"])
         (auto simp: parse_notInClause_def simp del: run_all.simps intro!: runs_intros takes_valueList)
  next
    case 2
    with a show ?thesis
      by (intro takes_rule [where ps = "[match_type NOT, match_type IN, match_type LBRACK,
            parse_valueList, match_type RBRACK]"])
         (auto simp: parse_notInClause_def simp del: run_all.simps intro!: runs_intros takes_valueList)
  qed
next
  fix n i u
  assume "us = n # i # u" "tk_type n = NOT" "tk_type i = IN" "fq R_value u"
  then show ?thesis
    by (intro takes_rule [where ps = "[match_type NOT, match_type IN, parse_value]"])
       (auto simp: parse_notInClause_def isValueToken_def simp del: run_all.simps elim!: fq_valueE
          intro!: runs_intros takes_value)
qed

lemma in_clause_head: "fq R_inClause u \<Longrightarrow> \<exists>i v. u = i # v \<and> tk_type i = IN"
  by (auto elim: fq_inClauseE)

lemma not_in_clause_head: "fq R_notInClause u \<Longrightarrow> \<exists>n i v. u = n # i # v \<and> tk_type n = NOT \<and> tk_type i = IN"
  by (auto elim: fq_notInClauseE)

text \<open>A comparison: the tokens after the key select the alternative, which parses it.\<close>

lemma comparison_selected:
  assumes "comparison_alternative (LA 2 (us @ rest)) (LA 3 (us @ rest)) = Some ps" "runs ps us rest"
  shows "takes parse_comparison us rest"
  by (rule takes_rule [OF _ assms(2)]) (simp add: parse_comparison_def assms(1))

text \<open>The operators one alternative matches together.\<close>

definition operator_class :: "token_type \<Rightarrow> token_type list" where
  "operator_class t =
     (if t = NOT_EQUALS \<or> t = NEQ then [NOT_EQUALS, NEQ]
      else if t = LIKE \<or> t = ILIKE then [LIKE, ILIKE] else [t])"

lemma operator_class_self: "t \<in> set (operator_class t)"
  by (simp add: operator_class_def)

lemma plain_alternative:
  "t \<in> set plain_operators \<Longrightarrow>
     comparison_alternative t x = Some [parse_key, match_set (operator_class t), parse_value]"
  by (auto simp: plain_operators_def comparison_alternative_def operator_class_def)

lemma negatable_alternative:
  "t \<in> set negatable_operators \<Longrightarrow>
     comparison_alternative NOT t = Some [parse_key, match_type NOT, match_set (operator_class t), parse_value]"
  by (auto simp: negatable_operators_def comparison_alternative_def operator_class_def)

definition comparison_word :: "itoken list \<Rightarrow> itoken list \<Rightarrow> bool" where
  "comparison_word us rest \<longleftrightarrow> takes parse_comparison us rest \<and> (\<exists>t w. us = t # w \<and> tk_type t = KEY) \<and>
    comparison_alternative (LA 2 (us @ rest)) (LA 3 (us @ rest)) \<noteq> None"

lemma comparison_wordI:
  assumes "us = k # w" "tk_type k = KEY"
    and "comparison_alternative (LA 1 (w @ rest)) (LA 2 (w @ rest)) = Some (parse_key # ps)" "runs ps w rest"
  shows "comparison_word us rest"
proof -
  have "runs (parse_key # ps) ([k] @ w) rest" by (rule runs_Cons [OF takes_key [OF assms(2)] assms(4)])
  with assms comparison_selected [of "k # w" rest "parse_key # ps"] show ?thesis
    by (simp add: comparison_word_def)
qed

lemma takes_comparison: "fq R_comparison us \<Longrightarrow> comparison_word us rest"
proof (elim fq_comparisonE)
  fix k t v
  assume a: "us = k @ t # v" "fq R_key k" "tk_type t \<in> set plain_operators" "fq R_value v"
  then obtain kt vt where u: "k = [kt]" "v = [vt]" "tk_type kt = KEY" "isValueToken (tk_type vt)"
    by (auto elim!: fq_keyE fq_valueE)
  from plain_alternative [OF a(3)] a(1) u operator_class_self [of "tk_type t"] show ?thesis
    by (intro comparison_wordI [where w = "[t, vt]"]) (auto intro!: runs_intros takes_value)
next
  fix k n t v
  assume a: "us = k @ n # t # v" "fq R_key k" "tk_type n = NOT" "tk_type t \<in> set negatable_operators"
    "fq R_value v"
  then obtain kt vt where u: "k = [kt]" "v = [vt]" "tk_type kt = KEY" "isValueToken (tk_type vt)"
    by (auto elim!: fq_keyE fq_valueE)
  from negatable_alternative [OF a(4)] a(1,3) u operator_class_self [of "tk_type t"] show ?thesis
    by (intro comparison_wordI [where w = "[n, t, vt]"]) (auto intro!: runs_intros takes_value)
next
  fix k b v a w
  assume a: "us = k @ b # v @ a # w" "fq R_key k" "tk_type b = BETWEEN" "fq R_value v"
    "tk_type a = AND" "fq R_value w"
  then obtain kt vt wt where "k = [kt]" "v = [vt]" "w = [wt]" "tk_type kt = KEY"
    "isValueToken (tk_type vt)" "isValueToken (tk_type wt)" by (auto elim!: fq_keyE fq_valueE)
  with a show ?thesis
    by (intro comparison_wordI [where w = "[b, vt, a, wt]"])
       (auto simp: comparison_alternative_def intro!: runs_intros(1,2,4) runs_Cons [of _ "[x]" for x, simplified] takes_value)
next
  fix k n b v a w
  assume a: "us = k @ n # b # v @ a # w" "fq R_key k" "tk_type n = NOT" "tk_type b = BETWEEN"
    "fq R_value v" "tk_type a = AND" "fq R_value w"
  then obtain kt vt wt where "k = [kt]" "v = [vt]" "w = [wt]" "tk_type kt = KEY"
    "isValueToken (tk_type vt)" "isValueToken (tk_type wt)" by (auto elim!: fq_keyE fq_valueE)
  with a show ?thesis
    by (intro comparison_wordI [where w = "[n, b, vt, a, wt]"])
       (auto simp: comparison_alternative_def intro!: runs_intros(1,2,4) runs_Cons [of _ "[x]" for x, simplified] takes_value)
next
  fix k u
  assume a: "us = k @ u" "fq R_key k" "fq R_inClause u"
  then obtain kt i v where "k = [kt]" "tk_type kt = KEY" "u = i # v" "tk_type i = IN"
    by (auto elim!: fq_keyE dest!: in_clause_head)
  with a show ?thesis
    by (intro comparison_wordI [where w = u and ps = "[parse_inClause]"])
       (auto simp: comparison_alternative_def intro!: runs_one takes_inClause)
next
  fix k u
  assume a: "us = k @ u" "fq R_key k" "fq R_notInClause u"
  then obtain kt n i v where "k = [kt]" "tk_type kt = KEY" "u = n # i # v" "tk_type n = NOT" "tk_type i = IN"
    by (auto elim!: fq_keyE dest!: not_in_clause_head)
  with a show ?thesis
    by (intro comparison_wordI [where w = u and ps = "[parse_notInClause]"])
       (auto simp: comparison_alternative_def intro!: runs_one takes_notInClause)
next
  fix k e
  assume "us = k @ [e]" "fq R_key k" "tk_type e = EXISTS"
  then show ?thesis
    by (auto elim!: fq_keyE intro!: comparison_wordI [where w = "[e]" and ps = "[match_type EXISTS]"]
        simp: comparison_alternative_def intro: runs_last)
next
  fix k n e
  assume "us = k @ [n, e]" "fq R_key k" "tk_type n = NOT" "tk_type e = EXISTS"
  then show ?thesis
    by (auto elim!: fq_keyE simp: comparison_alternative_def
        intro!: comparison_wordI [where w = "[n, e]" and ps = "[match_type NOT, match_type EXISTS]"] runs_intros)
qed

lemma takes_functionParam: "fq R_functionParam us \<Longrightarrow> takes parse_functionParam us rest"
proof (elim fq_functionParamE disjE)
  assume "fq R_key us"
  then show ?thesis
    by (intro takes_rule [where ps = "[parse_key]"])
       (auto simp: parse_functionParam_def simp del: run_all.simps elim!: fq_keyE intro!: runs_one takes_key)
next
  assume "fq R_value us"
  then obtain t where t: "us = [t]" "isValueToken (tk_type t)" by (auto elim: fq_valueE)
  show ?thesis
  proof (cases "tk_type t = KEY")
    case True
    with t show ?thesis
      by (intro takes_rule [where ps = "[parse_key]"])
         (auto simp: parse_functionParam_def simp del: run_all.simps intro!: runs_one takes_key)
  next
    case False
    with t show ?thesis
      by (intro takes_rule [where ps = "[parse_value]"])
         (auto simp: parse_functionParam_def isValueToken_def simp del: run_all.simps
            intro!: runs_one takes_value)
  qed
next
  assume "fq R_array us"
  then show ?thesis
    using takes_array [of us rest]
    by (intro takes_rule [where ps = "[parse_array]"])
       (auto simp: parse_functionParam_def simp del: run_all.simps elim!: fq_arrayE intro!: runs_one)
qed

lemma takes_functionParamList:
  "fq R_functionParamList us \<Longrightarrow> LA 1 rest \<noteq> COMMA \<Longrightarrow> takes parse_functionParamList us rest"
proof (rule takes_chain, rule parse_functionParamList_def)
  assume "fq R_functionParamList us" "LA 1 rest \<noteq> COMMA"
  then show "chains parse_functionParam (\<lambda>t. t = COMMA) (\<lambda>_. [match_type COMMA, parse_functionParam]) us rest"
  proof (induction R_functionParamList us rule: fq.induct)
    case (fq_params_one u)
    then show ?case by (intro chains_one) (auto intro: takes_functionParam)
  next
    case (fq_params_more u c v)
    then have "chains parse_functionParam (\<lambda>t. t = COMMA) (\<lambda>_. [match_type COMMA, parse_functionParam])
        (u @ [c] @ v) rest"
      by (intro chains_more yields_shrinks [OF yields_functionParam]) (auto intro: takes_functionParam)
    then show ?case by simp
  qed
qed

lemma takes_functionCall: "fq R_functionCall us \<Longrightarrow> takes parse_functionCall us rest"
proof (elim fq_functionCallE)
  fix f l u r
  assume "us = f # l # u @ [r]" "isFunctionToken (tk_type f)" "tk_type l = LPAREN"
    "fq R_functionParamList u" "tk_type r = RPAREN"
  then show ?thesis
    by (intro takes_rule [where ps = "[match_set [HASTOKEN, HAS, HASANY, HASALL], match_type LPAREN,
          parse_functionParamList, match_type RPAREN]"])
       (auto simp: parse_functionCall_def isFunctionToken_def simp del: run_all.simps
          intro!: runs_intros takes_functionParamList)
qed

subsubsection \<open>The boolean structure\<close>

text \<open>What may follow a key for it not to be the start of a comparison.\<close>

definition key_ends :: "itoken list \<Rightarrow> bool" where
  "key_ends rest \<longleftrightarrow> comparison_alternative (LA 1 rest) (LA 2 rest) = None"

definition starts_primary :: "token_type \<Rightarrow> bool" where
  "starts_primary t \<longleftrightarrow> t \<noteq> NOT \<and> starts_unary t"

lemma key_ends_simps:
  "LA 1 rest \<in> {AND, OR, RPAREN, EOF} \<Longrightarrow> key_ends rest"
  "starts_primary (LA 1 rest) \<Longrightarrow> key_ends rest"
  "LA 1 rest = NOT \<Longrightarrow> starts_primary (LA 2 rest) \<Longrightarrow> key_ends rest"
  by (auto simp: key_ends_def comparison_alternative_def starts_primary_def starts_unary_def)

lemma starts_primary_simps [simp]:
  "starts_primary LPAREN" "starts_primary KEY" "starts_primary QUOTED_TEXT" "starts_primary FREETEXT"
  "isValueToken t \<Longrightarrow> starts_primary t" "isFunctionToken t \<Longrightarrow> starts_primary t"
  by (auto simp: starts_primary_def starts_unary_def isValueToken_def isFunctionToken_def)

lemma simple_head:
  assumes "fq rl u" "rl \<in> {R_comparison, R_functionCall, R_fullText, R_key, R_value}"
  shows "\<exists>t w. u = t # w \<and> starts_primary (tk_type t)"
proof -
  from assms(2) consider "rl = R_comparison" | "rl = R_functionCall" | "rl = R_fullText" | "rl = R_key" | "rl = R_value"
    by auto
  then show ?thesis
  proof cases
    case 1
    with assms(1) takes_comparison [of u "[]"] show ?thesis by (auto simp: comparison_word_def)
  next
    case 2
    with assms(1) show ?thesis by (auto elim!: fq_functionCallE)
  next
    case 3
    with assms(1) show ?thesis by (auto elim!: fq_fullTextE)
  next
    case 4
    with assms(1) show ?thesis by (auto elim!: fq_keyE)
  next
    case 5
    with assms(1) show ?thesis by (auto elim!: fq_valueE)
  qed
qed

inductive_cases fq_primaryE: "fq R_primary u"
inductive_cases fq_unaryE: "fq R_unaryExpression u"

lemma primary_head: "fq R_primary u \<Longrightarrow> \<exists>t w. u = t # w \<and> starts_primary (tk_type t)"
  using simple_head by (elim fq_primaryE) simp_all

lemma unary_head:
  assumes "fq R_unaryExpression u"
  shows "\<exists>t w. u = t # w \<and> starts_unary (tk_type t) \<and> key_ends (u @ rest)"
  using assms
proof (elim fq_unaryE)
  assume "fq R_primary u"
  from primary_head [OF this] obtain t w where "u = t # w" "starts_primary (tk_type t)" by blast
  then show ?thesis using key_ends_simps(2) [of "u @ rest"] by (auto simp: starts_primary_def)
next
  fix t v
  assume t: "u = t # v" "tk_type t = NOT" and "fq R_primary v"
  from primary_head [OF this(3)] obtain t' w where "v = t' # w" "starts_primary (tk_type t')" by blast
  with t show ?thesis using key_ends_simps(3) [of "u @ rest"] by (auto simp: starts_unary_def)
qed

lemma and_head:
  assumes "fq R_andExpression u"
  shows "\<exists>t w. u = t # w \<and> starts_unary (tk_type t) \<and> key_ends (u @ rest)"
proof -
  from assms obtain v w where "u = v @ w" "fq R_unaryExpression v"
    by (cases rule: fq.cases) (auto intro: that [of _ "[]"] that)
  with unary_head [of v "w @ rest"] show ?thesis by auto
qed

lemma takes_primary_simple:
  assumes u: "fq rl us" "rl \<in> {R_comparison, R_functionCall, R_fullText, R_key, R_value}"
    and rest: "key_ends rest"
  shows "takes (parse_primary por) us rest"
proof -
  have alt: "takes (parse_primary por) us rest"
    if "predict_primary (us @ rest) = Some k" "takes p us rest"
      "(k = 2 \<and> p = parse_comparison) \<or> (k = 3 \<and> p = parse_functionCall) \<or> (k = 4 \<and> p = parse_fullText) \<or>
       (k = 5 \<and> p = parse_key) \<or> (k = 6 \<and> p = parse_value)" for k p
  proof (rule takes_rule [where ps = "[p]" and rl = R_primary])
    show "parse_primary por (us @ rest) = rule_of R_primary (run_all [p] (us @ rest))"
      using that(1,3) by (elim disjE conjE) (simp_all add: parse_primary_def del: run_all.simps)
    show "runs [p] us rest" using that(2) by (rule runs_one)
  qed
  from u(2) consider "rl = R_comparison" | "rl = R_functionCall" | "rl = R_fullText" | "rl = R_key" | "rl = R_value"
    by auto
  then show ?thesis
  proof cases
    case 1
    with u takes_comparison [of us rest] have "comparison_word us rest" by simp
    then show ?thesis
      by (intro alt [of 2]) (auto simp: comparison_word_def predict_primary_def)
  next
    case 2
    with u takes_functionCall [of us rest] show ?thesis
      by (intro alt [of 3]) (auto simp: predict_primary_def isFunctionToken_def elim!: fq_functionCallE)
  next
    case 3
    with u show ?thesis
      by (intro alt [of 4]) (auto simp: predict_primary_def elim!: fq_fullTextE intro: takes_fullText)
  next
    case 4
    with u rest show ?thesis
      by (intro alt [of 5]) (auto simp: predict_primary_def key_ends_def elim!: fq_keyE intro: takes_key)
  next
    case 5
    with u obtain t where t: "us = [t]" "isValueToken (tk_type t)" by (auto elim: fq_valueE)
    then consider "tk_type t = KEY" | "tk_type t = QUOTED_TEXT" | "tk_type t \<in> {NUMBER, BOOL}"
      by (auto simp: isValueToken_def)
    then show ?thesis
    proof cases
      case 1
      with t rest show ?thesis
        by (intro alt [of 5]) (auto simp: predict_primary_def key_ends_def intro: takes_key)
    next
      case 2
      with t show ?thesis by (intro alt [of 4]) (auto simp: predict_primary_def intro: takes_fullText)
    next
      case 3
      with t show ?thesis by (intro alt [of 6]) (auto simp: predict_primary_def intro: takes_value)
    qed
  qed
qed

text \<open>The run of a level, with \<open>n\<close> nesting levels left.\<close>

abbreviation and_chain :: "nat \<Rightarrow> itoken list \<Rightarrow> itoken list \<Rightarrow> bool" where
  "and_chain n \<equiv> chains (parse_unaryExpression (parse_orExpression n)) (\<lambda>t. t = AND \<or> starts_unary t)
     (\<lambda>t. if t = AND then [match_type AND, parse_unaryExpression (parse_orExpression n)]
          else [parse_unaryExpression (parse_orExpression n)])"

abbreviation or_chain :: "nat \<Rightarrow> itoken list \<Rightarrow> itoken list \<Rightarrow> bool" where
  "or_chain n \<equiv> chains (parse_andExpression (parse_orExpression n)) (\<lambda>t. t = OR)
     (\<lambda>_. [match_type OR, parse_andExpression (parse_orExpression n)])"

definition level_run :: "nat \<Rightarrow> parse_rule \<Rightarrow> itoken list \<Rightarrow> itoken list \<Rightarrow> bool" where
  "level_run n rl us rest =
     (case rl of
        R_primary \<Rightarrow> key_ends rest \<longrightarrow> takes (parse_primary (parse_orExpression n)) us rest
      | R_unaryExpression \<Rightarrow> key_ends rest \<longrightarrow> takes (parse_unaryExpression (parse_orExpression n)) us rest
      | R_andExpression \<Rightarrow> LA 1 rest \<in> {OR, RPAREN, EOF} \<longrightarrow> and_chain n us rest
      | R_orExpression \<Rightarrow> LA 1 rest \<in> {RPAREN, EOF} \<longrightarrow> or_chain n us rest
      | _ \<Rightarrow> True)"

lemma takes_or: "or_chain n us rest \<Longrightarrow> takes (parse_orExpression (Suc n)) us rest"
  by (rule takes_chain, rule parse_orExpression.simps(2))

lemma takes_and: "and_chain n us rest \<Longrightarrow> takes (parse_andExpression (parse_orExpression n)) us rest"
  by (rule takes_chain, rule parse_andExpression_def)

lemma takes_unary:
  assumes "fq R_primary us" "takes (parse_primary por) us rest"
  shows "takes (parse_unaryExpression por) us rest"
proof (rule takes_rule)
  from primary_head [OF assms(1)] have "LA 1 (us @ rest) \<noteq> NOT" by (auto simp: starts_primary_def)
  then show "parse_unaryExpression por (us @ rest) =
      rule_of R_unaryExpression (run_all [parse_primary por] (us @ rest))"
    by (simp add: parse_unaryExpression_def)
  show "runs [parse_primary por] us rest" by (rule runs_one [OF assms(2)])
qed

lemma takes_unary_not:
  "tk_type t = NOT \<Longrightarrow> takes (parse_primary por) us rest \<Longrightarrow> takes (parse_unaryExpression por) (t # us) rest"
  by (rule takes_rule [where ps = "[match_type NOT, parse_primary por]" and rl = R_unaryExpression])
     (auto simp: parse_unaryExpression_def simp del: run_all.simps intro!: runs_intros)

lemma takes_paren:
  "tk_type l = LPAREN \<Longrightarrow> tk_type r = RPAREN \<Longrightarrow> takes por us (r # rest) \<Longrightarrow>
     takes (parse_primary por) (l # us @ [r]) rest"
  by (rule takes_rule [where ps = "[match_type LPAREN, por, match_type RPAREN]" and rl = R_primary])
     (auto simp: parse_primary_def predict_primary_def simp del: run_all.simps intro!: runs_intros)

lemma and_shrinks:
  "parse_andExpression (parse_orExpression n) ts = Some (tr, r) \<Longrightarrow> length r < length ts"
  by (rule yields_shrinks [OF yields_andExpression [OF yields_orExpression]])

lemma unary_shrinks:
  "parse_unaryExpression (parse_orExpression n) ts = Some (tr, r) \<Longrightarrow> length r < length ts"
  by (rule yields_shrinks [OF yields_unaryExpression [OF yields_orExpression]])

lemma fq_level_run: "fq rl us \<Longrightarrow> length us \<le> n \<Longrightarrow> level_run n rl us rest"
proof (induction arbitrary: n rest rule: fq.induct)
  case (fq_paren l u r n rest)
  then obtain m where m: "n = Suc m" "length u \<le> m" by (cases n) auto
  with fq_paren have "or_chain m u (r # rest)" by (auto simp: level_run_def)
  then have "takes (parse_orExpression n) u (r # rest)" unfolding m(1) by (rule takes_or)
  with fq_paren.hyps have "takes (parse_primary (parse_orExpression n)) (l # u @ [r]) rest"
    by (simp add: takes_paren)
  then show ?case by (simp add: level_run_def)
next
  case (fq_primary rl' u n rest)
  then show ?case using takes_primary_simple by (simp add: level_run_def)
next
  case (fq_unary u n rest)
  then show ?case by (auto simp: level_run_def intro: takes_unary)
next
  case (fq_unary_not t u n rest)
  then show ?case by (auto simp: level_run_def intro: takes_unary_not)
next
  case (fq_and_one u n rest)
  then have "LA 1 rest \<in> {OR, RPAREN, EOF} \<Longrightarrow> takes (parse_unaryExpression (parse_orExpression n)) u rest"
    using key_ends_simps(1) [of rest] by (auto simp: level_run_def)
  then show ?case by (auto simp: level_run_def starts_unary_def intro!: chains_one)
next
  case (fq_and_more u a v n rest)
  have "and_chain n (u @ [a] @ v) rest" if follow: "LA 1 rest \<in> {OR, RPAREN, EOF}"
  proof (rule chains_more)
    from fq_and_more key_ends_simps(1) [of "[a] @ v @ rest"]
    show "takes (parse_unaryExpression (parse_orExpression n)) u ([a] @ v @ rest)"
      by (auto simp: level_run_def)
    from fq_and_more follow show "and_chain n v rest" by (auto simp: level_run_def)
  qed (use fq_and_more.hyps unary_shrinks in auto)
  then show ?case by (simp add: level_run_def)
next
  case (fq_and_implicit u v n rest)
  from and_head [OF fq_and_implicit.hyps(2), of rest]
  obtain t w where v: "v = t # w" "starts_unary (tk_type t)" "key_ends (v @ rest)" by blast
  have "and_chain n (u @ [] @ v) rest" if follow: "LA 1 rest \<in> {OR, RPAREN, EOF}"
  proof (rule chains_more)
    from fq_and_implicit v(3) show "takes (parse_unaryExpression (parse_orExpression n)) u ([] @ v @ rest)"
      by (auto simp: level_run_def)
    from fq_and_implicit follow show "and_chain n v rest" by (auto simp: level_run_def)
  qed (use v unary_shrinks in \<open>auto simp: starts_unary_def\<close>)
  then show ?case by (simp add: level_run_def)
next
  case (fq_or_one u n rest)
  have "or_chain n u rest" if "LA 1 rest \<in> {RPAREN, EOF}"
  proof (rule chains_one)
    from fq_or_one that have "and_chain n u rest" by (auto simp: level_run_def)
    then show "takes (parse_andExpression (parse_orExpression n)) u rest" by (rule takes_and)
  qed (use that in auto)
  then show ?case by (simp add: level_run_def)
next
  case (fq_or_more u c v n rest)
  have "or_chain n (u @ [c] @ v) rest" if follow: "LA 1 rest \<in> {RPAREN, EOF}"
  proof (rule chains_more)
    from fq_or_more have "and_chain n u ([c] @ v @ rest)" by (auto simp: level_run_def)
    then show "takes (parse_andExpression (parse_orExpression n)) u ([c] @ v @ rest)" by (rule takes_and)
    from fq_or_more follow show "or_chain n v rest" by (auto simp: level_run_def)
  qed (use fq_or_more.hyps and_shrinks in auto)
  then show ?case by (simp add: level_run_def)
qed (simp_all add: level_run_def)

inductive_cases fq_queryE: "fq R_query u"
inductive_cases fq_expressionE: "fq R_expression u"

lemma parse_query_complete:
  assumes "fq R_query ts"
  shows "\<exists>tr. parse_query ts = Some tr"
proof -
  from assms obtain u e where u: "ts = u @ [e]" "fq R_orExpression u" "tk_type e = EOF"
    by (auto elim!: fq_queryE fq_expressionE)
  from fq_level_run [OF u(2), of "length ts" "[e]"] u(1,3)
  have "or_chain (length ts) u [e]" by (simp add: level_run_def)
  then have "takes (parse_orExpression (Suc (length ts))) u [e]" by (rule takes_or)
  then have "takes (parse_expression (Suc (length ts))) u [e]"
    by (intro takes_rule [where ps = "[parse_orExpression (Suc (length ts))]"])
       (simp_all add: parse_expression_def runs_one del: run_all.simps parse_orExpression.simps)
  then have "runs [parse_expression (Suc (length ts)), match_type EOF] ts []"
    unfolding u(1) using u(3) by (intro runs_intros) (auto simp: u(1))
  then show ?thesis by (auto simp: parse_query_def rule_of_def runs_def)
qed

text \<open>No word of a rule below the query contains the end of input.\<close>

lemma fq_no_EOF: "fq rl u \<Longrightarrow> rl \<noteq> R_query \<Longrightarrow> list_all (\<lambda>t. tk_type t \<noteq> EOF) u"
  by (induction rule: fq.induct)
     (auto simp: isValueToken_def isFunctionToken_def brackets_match_def plain_operators_def negatable_operators_def)

lemma query_leaves:
  assumes run: "parse_query ts = Some tr" and eof: "\<forall>t\<in>set (butlast ts). tk_type t \<noteq> EOF"
  shows "leaves tr = ts \<and> fq R_query ts"
proof -
  from parse_query_yields [OF run] obtain r where r: "ts = leaves tr @ r" "fq R_query (leaves tr)" by blast
  from r(2) obtain u e where u: "leaves tr = u @ [e]" "tk_type e = EOF" by (auto elim: fq_queryE)
  have "r = []"
  proof (rule ccontr)
    assume "r \<noteq> []"
    with r(1) u(1) have "e \<in> set (butlast ts)" by (simp add: butlast_append)
    with eof u(2) show False by blast
  qed
  with r show ?thesis by simp
qed

lemma parse_query_iff:
  assumes "\<forall>t\<in>set (butlast ts). tk_type t \<noteq> EOF"
  shows "parse_query ts \<noteq> None \<longleftrightarrow> fq R_query ts"
  using parse_query_complete [of ts] query_leaves [OF _ assms] by auto

subsection \<open>The listener of \<open>analyzeQuery\<close>\<close>

text \<open>
  \<open>TypeTrackingListener\<close>: walking a tree, entering a key or a value records its token, and
  entering a comparison records the operator tokens among its own children.
\<close>

datatype token_classification = TC_Key | TC_Value | TC_Operator

record token_info =
  ti_text :: string
  ti_startIndex :: int
  ti_stopIndex :: int
  ti_type :: token_classification

definition token_info_of :: "token_classification \<Rightarrow> itoken \<Rightarrow> token_info" where
  "token_info_of cls t =
     \<lparr>ti_text = tk_text t, ti_startIndex = tk_start t, ti_stopIndex = tk_stop t, ti_type = cls\<rparr>"

fun operator_children :: "parse_tree list \<Rightarrow> token_info list" where
  "operator_children [] = []"
| "operator_children (Terminal t # cs) =
     (if isOperatorToken (tk_type t) then token_info_of TC_Operator t # operator_children cs
      else operator_children cs)"
| "operator_children (Rule r ts # cs) = operator_children cs"

definition enter_rule :: "parse_rule \<Rightarrow> parse_tree list \<Rightarrow> token_info list" where
  "enter_rule r cs =
     (case r of
        R_key \<Rightarrow> map (token_info_of TC_Key) (take 1 (concat (map leaves cs)))
      | R_value \<Rightarrow> map (token_info_of TC_Value) (take 1 (concat (map leaves cs)))
      | R_comparison \<Rightarrow> operator_children cs
      | _ \<Rightarrow> [])"

fun walk_tree :: "parse_tree \<Rightarrow> token_info list" where
  "walk_tree (Terminal t) = []"
| "walk_tree (Rule r cs) = enter_rule r cs @ concat (map walk_tree cs)"

text \<open>\<open>analyzeQuery\<close> on a query without syntax errors: the classification of the last token.\<close>

definition analyzeQuery :: "string \<Rightarrow> itoken \<Rightarrow> token_info option" where
  "analyzeQuery input lastToken =
     (case parse_query (filter_tokens (js_trim input)) of
        None \<Rightarrow> None
      | Some tree \<Rightarrow>
          js_find (\<lambda>ti. ti_text ti = tk_text lastToken \<and> ti_startIndex ti = tk_start lastToken \<and>
             ti_stopIndex ti = tk_stop lastToken) (walk_tree tree))"

text \<open>Everything the listener records is a token of the tree, in the class of its type.\<close>

lemma operator_children_tokens:
  "ti \<in> set (operator_children cs) \<Longrightarrow>
     \<exists>t. t \<in> set (concat (map leaves cs)) \<and> isOperatorToken (tk_type t) \<and> ti = token_info_of TC_Operator t"
  by (induction cs rule: operator_children.induct) (auto split: if_splits)

lemma walk_tree_tokens:
  "ti \<in> set (walk_tree tr) \<Longrightarrow>
     \<exists>t. t \<in> set (leaves tr) \<and> ti = token_info_of (ti_type ti) t \<and>
       (ti_type ti = TC_Operator \<longrightarrow> isOperatorToken (tk_type t))"
proof (induction tr)
  case (Rule r cs)
  from Rule.prems consider "ti \<in> set (enter_rule r cs)" | c where "c \<in> set cs" "ti \<in> set (walk_tree c)"
    by auto
  then show ?case
  proof cases
    case 1
    then show ?thesis
      using operator_children_tokens [of ti cs]
      by (auto simp: enter_rule_def token_info_of_def split: parse_rule.splits dest!: in_set_takeD)
  next
    case 2
    with Rule.IH [OF 2] show ?thesis by auto
  qed
qed simp

subsection \<open>The properties\<close>

text \<open>
  C2. A query is valid exactly when it is blank, or it lexes without error into a sentence of
  the grammar: the recursive-descent parser with its lookahead accepts the language of the
  grammar, no more and no less.
\<close>

theorem query_valid_grammar:
  "query_is_valid query \<longleftrightarrow>
     js_trim query = [] \<or> (\<not> lex_error query \<and> fq R_query (filter_tokens query))"
  using parse_query_iff [of "filter_tokens query"] flex.lex_eof [of _ query]
  by (auto simp: query_is_valid_def)

text \<open>
  The tree of a query holds exactly the tokens of the query, each once and in order.
\<close>

theorem parse_tree_leaves:
  assumes "parse_query (filter_tokens query) = Some tree"
  shows "leaves tree = filter_tokens query"
  using query_leaves [OF assms] flex.lex_eof [of _ query] by blast

lemma parse_tree_leaves_witness:
  "leaves (the (parse_query (filter_tokens ''a = 1''))) = filter_tokens ''a = 1''"
proof (rule parse_tree_leaves)
  have "parse_query (filter_tokens ''a = 1'') \<noteq> None" by code_simp
  then show "parse_query (filter_tokens ''a = 1'') = Some (the (parse_query (filter_tokens ''a = 1'')))"
    by simp
qed

text \<open>
  What \<open>analyzeQuery\<close> reports for a token is that token's own text and position, and it
  reports an operator only for an operator token.
\<close>

theorem analyze_reports_token:
  assumes "analyzeQuery input lastToken = Some ti"
  shows "ti_text ti = tk_text lastToken \<and> ti_startIndex ti = tk_start lastToken \<and>
    (\<exists>t\<in>set (filter_tokens (js_trim input)). ti = token_info_of (ti_type ti) t \<and>
      (ti_type ti = TC_Operator \<longrightarrow> isOperatorToken (tk_type t)))"
proof -
  from assms obtain tree where tree: "parse_query (filter_tokens (js_trim input)) = Some tree"
    and found: "js_find (\<lambda>ti. ti_text ti = tk_text lastToken \<and> ti_startIndex ti = tk_start lastToken \<and>
       ti_stopIndex ti = tk_stop lastToken) (walk_tree tree) = Some ti"
    by (auto simp: analyzeQuery_def split: option.splits)
  have "leaves tree = filter_tokens (js_trim input)"
    using query_leaves [OF tree] flex.lex_eof [of _ "js_trim input"] by blast
  with js_find_Some [OF found] walk_tree_tokens [of ti tree] show ?thesis by auto
qed

theorem analyze_reports_token_witness:
  "ti_text (the (analyzeQuery ''a = 1'' (mk_token 0 KEY ''a''))) = ''a'' \<and>
   ti_type (the (analyzeQuery ''a = 1'' (mk_token 0 KEY ''a''))) = TC_Key"
proof -
  have "(case analyzeQuery ''a = 1'' (mk_token 0 KEY ''a'') of Some ti \<Rightarrow> ti_type ti = TC_Key | None \<Rightarrow> False)"
    by code_simp
  then obtain ti where ti: "analyzeQuery ''a = 1'' (mk_token 0 KEY ''a'') = Some ti" "ti_type ti = TC_Key"
    by (auto split: option.splits)
  from analyze_reports_token [OF ti(1)] ti show ?thesis by (simp add: mk_token_def)
qed

end
