(* ===== verification/Query_Context.thy ===== *)
theory Query_Context
  imports Filter_Parser Query_Pairs
begin

section \<open>The context of the cursor in a query\<close>

text \<open>
  \<open>determineTokenContext\<close>, \<open>determineContextBoundaries\<close> and \<open>getQueryContextAtCursor\<close> of
  \<open>queryContextUtils.ts\<close>: what the editor may suggest at a position of the query.

  The function runs on queries that are being typed, so the parse behind \<open>analyzeQuery\<close> often
  fails, and then its tree is the one that the error recovery of the parser runtime builds. The
  runtime is a package the source imports, so the classification of a token is an argument
  \<open>classify\<close> of every function below: \<open>Inr\<close> is its result, \<open>Inl\<close> an exception. On a query
  without syntax errors it is \<open>analyzeQuery\<close>, the function \<open>classify_parsed\<close>.

  Every token is on the default channel: the grammar skips white space. The guard that counts
  stack frames is not modelled: the function never calls itself.
\<close>

type_synonym classifier = "string \<Rightarrow> itoken \<Rightarrow> string + token_info option"

definition classify_parsed :: classifier where
  "classify_parsed q t = Inr (analyzeQuery q t)"

subsection \<open>The context of a token\<close>

record token_context =
  tc_isInKey :: bool
  tc_isInNegation :: bool
  tc_isInOperator :: bool
  tc_isInValue :: bool
  tc_isInFunction :: bool
  tc_isInConjunction :: bool
  tc_isInParenthesis :: bool

definition determineTokenContext :: "classifier \<Rightarrow> itoken \<Rightarrow> string \<Rightarrow> string + token_context" where
  "determineTokenContext classify tok query =
     (case classify query tok of
        Inl e \<Rightarrow> Inl e
      | Inr found \<Rightarrow>
          (let t = tk_type tok in
           Inr \<lparr>tc_isInKey = (case found of None \<Rightarrow> isKeyToken t | Some ti \<Rightarrow> ti_type ti = TC_Key),
                tc_isInNegation = (t = NOT),
                tc_isInOperator = (case found of None \<Rightarrow> isOperatorToken t | Some ti \<Rightarrow> ti_type ti = TC_Operator),
                tc_isInValue = (case found of None \<Rightarrow> isValueToken t | Some ti \<Rightarrow> ti_type ti = TC_Value),
                tc_isInFunction = isFunctionToken t,
                tc_isInConjunction = isConjunctionToken t,
                tc_isInParenthesis = isBracketToken t\<rparr>))"

subsection \<open>Boundaries\<close>

record bracket_context =
  bc_start :: int
  bc_end :: int
  bc_isForList :: bool

record context_boundaries =
  cb_keyContext :: "(int \<times> int) option"
  cb_operatorContext :: "(int \<times> int) option"
  cb_valueContext :: "(int \<times> int) option"
  cb_conjunctionContext :: "(int \<times> int) option"
  cb_negationContext :: "(int \<times> int) option"
  cb_bracketContext :: "bracket_context option"

definition is_opener :: "itoken \<Rightarrow> bool" where
  "is_opener t \<longleftrightarrow> tk_type t = LBRACK \<or> tk_type t = LPAREN"

definition follows_in :: "itoken \<Rightarrow> itoken \<Rightarrow> bool" where
  "follows_in prev after_prev \<longleftrightarrow>
     tk_type prev = IN \<or> (tk_type prev = NOT \<and> tk_type after_prev = IN)"

text \<open>
  The look back from a bracket, over the tokens before it with the nearest first: past value
  tokens to an \<open>IN\<close>, and in the second form of the code to the token right before it.
\<close>

fun list_bracket :: "itoken \<Rightarrow> itoken list \<Rightarrow> bool" where
  "list_bracket tok [] = False"
| "list_bracket tok (prev # earlier) =
     (if follows_in prev tok then True
      else if \<not> isValueToken (tk_type prev) then False
      else list_bracket prev earlier)"

definition list_bracket_here :: "itoken \<Rightarrow> itoken list \<Rightarrow> bool" where
  "list_bracket_here tok earlier = (case earlier of [] \<Rightarrow> False | prev # _ \<Rightarrow> follows_in prev tok)"

text \<open>The bracket that ends at \<open>tok\<close> and holds the cursor, or lies one space before it.\<close>

definition closes_around :: "string \<Rightarrow> int \<Rightarrow> itoken \<times> bool \<Rightarrow> itoken \<Rightarrow> bool" where
  "closes_around query cursorIndex opener tok \<longleftrightarrow>
     (tk_start (fst opener) \<le> cursorIndex \<and> cursorIndex \<le> tk_stop tok + 1) \<or>
     (tk_stop tok + 1 < cursorIndex \<and> cursorIndex \<le> tk_stop tok + 2 \<and>
      js_nth query (tk_stop tok + 1) = Some (CHR '' ''))"

definition bracket_between :: "itoken \<times> bool \<Rightarrow> itoken \<Rightarrow> bracket_context" where
  "bracket_between opener tok =
     \<lparr>bc_start = tk_start (fst opener), bc_end = tk_stop tok, bc_isForList = snd opener\<rparr>"

text \<open>
  The part of the loop body for a cursor on the token itself: \<open>Some\<close> breaks the loop.
\<close>

definition bracket_at_cursor ::
  "int \<Rightarrow> itoken list \<Rightarrow> (itoken \<times> bool) list \<Rightarrow> itoken \<Rightarrow> bracket_context option" where
  "bracket_at_cursor cursorIndex earlier openBrackets tok =
     (if tk_start tok \<le> cursorIndex \<and> cursorIndex \<le> tk_stop tok + 1 then
        (if is_opener tok then
           Some \<lparr>bc_start = tk_start tok, bc_end = tk_stop tok, bc_isForList = list_bracket_here tok earlier\<rparr>
         else if is_closer tok then
           Some (case openBrackets of
                   opener # _ \<Rightarrow> bracket_between opener tok
                 | [] \<Rightarrow> \<lparr>bc_start = tk_start tok, bc_end = tk_stop tok, bc_isForList = False\<rparr>)
         else None)
      else None)"

fun bracket_loop ::
  "string \<Rightarrow> int \<Rightarrow> itoken list \<Rightarrow> (itoken \<times> bool) list \<Rightarrow> itoken list \<Rightarrow> bracket_context option" where
  "bracket_loop query cursorIndex earlier openBrackets [] = None"
| "bracket_loop query cursorIndex earlier openBrackets (tok # toks) =
     (let closing = (is_closer tok \<and> openBrackets \<noteq> []);
          stack = (if is_opener tok then (tok, list_bracket tok earlier) # openBrackets
                   else if closing then tl openBrackets else openBrackets)
      in if closing \<and> closes_around query cursorIndex (hd openBrackets) tok
         then Some (bracket_between (hd openBrackets) tok)
         else (case bracket_at_cursor cursorIndex earlier stack tok of
                 Some b \<Rightarrow> Some b
               | None \<Rightarrow> bracket_loop query cursorIndex (tok # earlier) stack toks))"

definition pair_boundaries ::
  "string \<Rightarrow> itoken list \<Rightarrow> bracket_context option \<Rightarrow> query_pair \<Rightarrow> context_boundaries" where
  "pair_boundaries query tokens bracketContext p =
     (let pos = qp_position p;
          vEnd = num_or (valueEnd pos) 0;
          inList = (isMultiValueOperator (Some (qp_operator p)) \<and>
                    (case bracketContext of Some b \<Rightarrow> bc_isForList b | None \<Rightarrow> False));
          conjunctionStart = skip_spaces query (vEnd + 1)
      in \<lparr>cb_keyContext = Some (keyStart pos, keyEnd pos),
          cb_operatorContext = Some (skip_spaces query (keyEnd pos + 1), operatorEnd pos),
          cb_valueContext =
            (if inList then map_option (\<lambda>b. (bc_start b, bc_end b)) bracketContext
             else if truthy_num (valueEnd pos) then Some (skip_spaces query (operatorEnd pos + 1), vEnd)
             else None),
          cb_conjunctionContext =
            (if truthy_num (valueEnd pos) then
               map_option (\<lambda>t. (conjunctionStart, tk_stop t))
                 (js_find (\<lambda>t. tk_start t = conjunctionStart \<and> (tk_type t = AND \<or> tk_type t = OR)) tokens)
             else None),
          cb_negationContext =
            Some (case negationStart pos of Some n \<Rightarrow> n | None \<Rightarrow> 0,
                  case negationEnd pos of Some n \<Rightarrow> n | None \<Rightarrow> 0),
          cb_bracketContext = bracketContext\<rparr>)"

definition no_boundaries :: "bracket_context option \<Rightarrow> context_boundaries" where
  "no_boundaries bracketContext =
     \<lparr>cb_keyContext = None, cb_operatorContext = None, cb_valueContext = None,
      cb_conjunctionContext = None, cb_negationContext = None, cb_bracketContext = bracketContext\<rparr>"

definition token_boundaries :: "int \<Rightarrow> itoken list \<Rightarrow> bracket_context option \<Rightarrow> context_boundaries" where
  "token_boundaries cursorIndex tokens bracketContext =
     (case js_find (\<lambda>t. tk_start t \<le> cursorIndex \<and> cursorIndex \<le> tk_stop t + 1) tokens of
        None \<Rightarrow> no_boundaries bracketContext
      | Some t \<Rightarrow>
          (let none = no_boundaries bracketContext; span = Some (tk_start t, tk_stop t) in
           if tk_type t = KEY then none\<lparr>cb_keyContext := span\<rparr>
           else if tk_type t = NOT then none\<lparr>cb_negationContext := span\<rparr>
           else if isOperatorToken (tk_type t) then none\<lparr>cb_operatorContext := span\<rparr>
           else if isValueToken (tk_type t) then none\<lparr>cb_valueContext := span\<rparr>
           else if isConjunctionToken (tk_type t) then none\<lparr>cb_conjunctionContext := span\<rparr>
           else none))"

definition determineContextBoundaries ::
  "string \<Rightarrow> int \<Rightarrow> itoken list \<Rightarrow> query_pair list \<Rightarrow> context_boundaries" where
  "determineContextBoundaries query cursorIndex tokens queryPairs =
     (let bracketContext = bracket_loop query cursorIndex [] [] tokens in
      case getCurrentQueryPair queryPairs query cursorIndex of
        Some p \<Rightarrow> pair_boundaries query tokens bracketContext p
      | None \<Rightarrow> token_boundaries cursorIndex tokens bracketContext)"

subsection \<open>The context\<close>

record query_context =
  qc_tokenType :: int
  qc_text :: string
  qc_start :: int
  qc_stop :: int
  qc_currentToken :: string
  qc_isInKey :: bool
  qc_isInNegation :: bool
  qc_isInOperator :: bool
  qc_isInValue :: bool
  qc_isInFunction :: bool
  qc_isInConjunction :: bool
  qc_isInParenthesis :: bool
  qc_isInBracketList :: bool
  qc_keyToken :: "string option"
  qc_operatorToken :: "string option"
  qc_valueToken :: "string option"
  qc_queryPairs :: "query_pair list"
  qc_currentPair :: "query_pair option"

text \<open>The fields every returned object shares, with no context set.\<close>

definition blank_context :: "int \<Rightarrow> query_pair list \<Rightarrow> query_pair option \<Rightarrow> query_context" where
  "blank_context cursorIndex queryPairs currentPair =
     \<lparr>qc_tokenType = -1, qc_text = '''', qc_start = cursorIndex, qc_stop = cursorIndex,
      qc_currentToken = '''', qc_isInKey = False, qc_isInNegation = False, qc_isInOperator = False,
      qc_isInValue = False, qc_isInFunction = False, qc_isInConjunction = False,
      qc_isInParenthesis = False, qc_isInBracketList = False, qc_keyToken = None,
      qc_operatorToken = None, qc_valueToken = None, qc_queryPairs = queryPairs,
      qc_currentPair = currentPair\<rparr>"

definition key_context :: "int \<Rightarrow> query_pair list \<Rightarrow> query_pair option \<Rightarrow> query_context" where
  "key_context cursorIndex queryPairs currentPair =
     (blank_context cursorIndex queryPairs currentPair)\<lparr>qc_isInKey := True\<rparr>"

text \<open>\<open>boundary && (start <= c && c <= end || c === end + 1)\<close>\<close>

definition in_boundary :: "int \<Rightarrow> (int \<times> int) option \<Rightarrow> bool" where
  "in_boundary c b =
     (case b of None \<Rightarrow> False | Some (s, e) \<Rightarrow> (s \<le> c \<and> c \<le> e) \<or> c = e + 1)"

definition in_bracket :: "bool \<Rightarrow> int \<Rightarrow> bracket_context option \<Rightarrow> bool" where
  "in_bracket forList c b =
     (case b of None \<Rightarrow> False
      | Some b \<Rightarrow> bc_isForList b = forList \<and> bc_start b \<le> c \<and> c \<le> bc_end b + 1)"

definition after_closing_list :: "string \<Rightarrow> int \<Rightarrow> bracket_context option \<Rightarrow> bool" where
  "after_closing_list query c b =
     (case b of None \<Rightarrow> False
      | Some b \<Rightarrow> bc_isForList b \<and> c = bc_end b + 2 \<and> js_nth query (bc_end b + 1) = Some (CHR '' ''))"

text \<open>The key, operator or value of the current pair, or a default (\<open>pair?.key || d\<close>).\<close>

definition pair_key :: "query_pair option \<Rightarrow> string option \<Rightarrow> string option" where
  "pair_key p d = (case p of Some x \<Rightarrow> (if qp_key x \<noteq> [] then Some (qp_key x) else d) | None \<Rightarrow> d)"

definition pair_operator :: "query_pair option \<Rightarrow> string option \<Rightarrow> string option" where
  "pair_operator p d = (case p of Some x \<Rightarrow> (if qp_operator x \<noteq> [] then Some (qp_operator x) else d) | None \<Rightarrow> d)"

definition pair_value :: "query_pair option \<Rightarrow> string option \<Rightarrow> string option" where
  "pair_value p d = (case p of Some x \<Rightarrow> (if truthy_str (qp_value x) then qp_value x else d) | None \<Rightarrow> d)"

text \<open>The context from the boundaries; \<open>None\<close> when the cursor is in none of them.\<close>

definition boundary_context ::
  "string \<Rightarrow> int \<Rightarrow> context_boundaries \<Rightarrow> query_pair list \<Rightarrow> query_pair option \<Rightarrow> query_context option" where
  "boundary_context query c cb queryPairs currentPair =
     (let inKey = in_boundary c (cb_keyContext cb);
          inNegation = in_boundary c (cb_negationContext cb);
          inOperator = in_boundary c (cb_operatorContext cb);
          inValue = in_boundary c (cb_valueContext cb);
          inConjunction = in_boundary c (cb_conjunctionContext cb);
          inList = in_bracket True c (cb_bracketContext cb);
          inParenthesis = in_bracket False c (cb_bracketContext cb);
          afterList = after_closing_list query c (cb_bracketContext cb)
      in if inKey \<or> inNegation \<or> inOperator \<or> inValue \<or> inConjunction \<or> inList \<or> afterList then
           (let key = pair_key currentPair (Some '''');
                operator = pair_operator currentPair (Some '''');
                val = pair_value currentPair (Some '''');
                finalInValue = (inValue \<or> (inList \<and> isMultiValueOperator operator))
            in Some ((blank_context c queryPairs currentPair)
                 \<lparr>qc_isInKey := inKey, qc_isInNegation := inNegation, qc_isInOperator := inOperator,
                  qc_isInValue := finalInValue, qc_isInConjunction := (inConjunction \<or> afterList),
                  qc_isInParenthesis := inParenthesis, qc_isInBracketList := inList,
                  qc_keyToken := (if inKey \<or> inOperator \<or> finalInValue then key else None),
                  qc_operatorToken := (if inOperator \<or> finalInValue then operator else None),
                  qc_valueToken := (if finalInValue then val else None)\<rparr>))
         else None)"

subsection \<open>The tokens around the cursor\<close>

fun last_token_before :: "int \<Rightarrow> itoken option \<Rightarrow> itoken list \<Rightarrow> itoken option" where
  "last_token_before c found [] = found"
| "last_token_before c found (t # ts) =
     (if tk_type t = EOF then last_token_before c found ts
      else
        (let found' = (if tk_stop t < c \<or> tk_stop t + 1 = c then Some t else found)
         in if c < tk_start t then found' else last_token_before c found' ts))"

record tokens_around =
  ta_previous :: "itoken option"
  ta_exact :: "itoken option"
  ta_next :: "itoken option"

definition no_tokens_around :: tokens_around where
  "no_tokens_around = \<lparr>ta_previous = None, ta_exact = None, ta_next = None\<rparr>"

fun exact_token :: "int \<Rightarrow> itoken option \<Rightarrow> itoken list \<Rightarrow> tokens_around option" where
  "exact_token c prev [] = None"
| "exact_token c prev (t # ts) =
     (if tk_type t \<noteq> EOF \<and> tk_start t \<le> c \<and> c \<le> tk_stop t + 1
      then Some \<lparr>ta_previous = prev, ta_exact = Some t, ta_next = js_nth ts 0\<rparr>
      else exact_token c (Some t) ts)"

fun between_tokens :: "int \<Rightarrow> itoken list \<Rightarrow> tokens_around" where
  "between_tokens c (t # u # ts) =
     (if tk_type t \<noteq> EOF \<and> tk_type u \<noteq> EOF \<and> tk_stop t + 1 < c \<and> c < tk_start u
      then \<lparr>ta_previous = Some t, ta_exact = None, ta_next = Some u\<rparr>
      else between_tokens c (u # ts))"
| "between_tokens c ts = no_tokens_around"

definition find_tokens_around :: "string \<Rightarrow> int \<Rightarrow> itoken list \<Rightarrow> tokens_around" where
  "find_tokens_around query c tokens =
     (if int (length query) \<le> c \<and> tokens \<noteq> [] then
        (case js_last (filter (\<lambda>t. tk_type t \<noteq> EOF) tokens) of
           None \<Rightarrow> no_tokens_around
         | Some lastReal \<Rightarrow>
             \<lparr>ta_previous = js_last (filter (\<lambda>t. tk_stop t < tk_start lastReal) tokens),
              ta_exact = Some lastReal, ta_next = None\<rparr>)
      else (case exact_token c None tokens of Some r \<Rightarrow> r | None \<Rightarrow> between_tokens c tokens))"

subsection \<open>The context from the tokens\<close>

text \<open>The object for a cursor after a token: the token's type and text, the cursor's position.\<close>

definition after_token :: "itoken \<Rightarrow> int \<Rightarrow> query_pair list \<Rightarrow> query_pair option \<Rightarrow> query_context" where
  "after_token t c queryPairs currentPair =
     (blank_context c queryPairs currentPair)
       \<lparr>qc_tokenType := token_code (tk_type t), qc_text := tk_text t, qc_currentToken := tk_text t\<rparr>"

text \<open>The object for a cursor on a token.\<close>

definition on_token ::
  "itoken \<Rightarrow> token_context \<Rightarrow> int \<Rightarrow> query_pair list \<Rightarrow> query_pair option \<Rightarrow> query_context" where
  "on_token t tc c queryPairs currentPair =
     (after_token t c queryPairs currentPair)
       \<lparr>qc_start := tk_start t, qc_stop := tk_stop t,
        qc_isInKey := tc_isInKey tc, qc_isInNegation := tc_isInNegation tc,
        qc_isInOperator := tc_isInOperator tc, qc_isInValue := tc_isInValue tc,
        qc_isInFunction := tc_isInFunction tc, qc_isInConjunction := tc_isInConjunction tc,
        qc_isInParenthesis := tc_isInParenthesis tc\<rparr>"

text \<open>
  After a token and a space the context moves on: key, operator, value, conjunction, key. \<open>None\<close>
  when the token belongs to none of the cases and the function goes on.
\<close>

definition progress_context ::
  "itoken \<Rightarrow> token_context \<Rightarrow> int \<Rightarrow> query_pair list \<Rightarrow> query_pair option \<Rightarrow> query_context option" where
  "progress_context t tc c queryPairs currentPair =
     (let base = after_token t c queryPairs currentPair; txt = Some (tk_text t) in
      if tc_isInKey tc \<or> tc_isInNegation tc then
        Some (base\<lparr>qc_isInOperator := True, qc_keyToken := txt\<rparr>)
      else if tc_isInOperator tc then
        (let noValue = isNonValueOperatorToken (tk_type t)
         in Some (base\<lparr>qc_isInValue := \<not> noValue, qc_isInConjunction := noValue,
                    qc_operatorToken := txt, qc_keyToken := pair_key currentPair (Some '''')\<rparr>))
      else if tc_isInValue tc then
        Some (base\<lparr>qc_isInConjunction := True, qc_valueToken := txt,
                qc_keyToken := pair_key currentPair (Some ''''),
                qc_operatorToken := pair_operator currentPair (Some '''')\<rparr>)
      else if tc_isInConjunction tc then Some (base\<lparr>qc_isInKey := True\<rparr>)
      else if tc_isInParenthesis tc \<and> tk_type t = RPAREN then Some (base\<lparr>qc_isInConjunction := True\<rparr>)
      else None)"

definition end_of_token_context ::
  "itoken \<Rightarrow> token_context \<Rightarrow> int \<Rightarrow> query_pair list \<Rightarrow> query_pair option \<Rightarrow> query_context" where
  "end_of_token_context t tc c queryPairs currentPair =
     (let txt = Some (tk_text t) in
      (on_token t tc c queryPairs currentPair)
        \<lparr>qc_keyToken := (if tc_isInKey tc then txt else pair_key currentPair None),
         qc_operatorToken := (if tc_isInOperator tc then txt else pair_operator currentPair None),
         qc_valueToken := (if tc_isInValue tc then txt else pair_value currentPair None)\<rparr>)"

definition inside_token_context ::
  "itoken \<Rightarrow> token_context \<Rightarrow> int \<Rightarrow> query_pair list \<Rightarrow> query_pair option \<Rightarrow> query_context" where
  "inside_token_context t tc c queryPairs currentPair =
     (let txt = Some (tk_text t) in
      (on_token t tc c queryPairs currentPair)
        \<lparr>qc_keyToken := (if tc_isInKey tc then txt
                         else if tc_isInOperator tc \<or> tc_isInValue tc then pair_key currentPair (Some '''')
                         else None),
         qc_operatorToken := (if tc_isInOperator tc then txt
                              else if tc_isInValue tc then pair_operator currentPair (Some '''')
                              else None),
         qc_valueToken := (if tc_isInValue tc then txt else None)\<rparr>)"

text \<open>Between two tokens, away from a space: the context that follows the previous token.\<close>

definition previous_token_context ::
  "itoken \<Rightarrow> token_context \<Rightarrow> int \<Rightarrow> query_pair list \<Rightarrow> query_pair option \<Rightarrow> query_context option" where
  "previous_token_context t tc c queryPairs currentPair =
     (let base = after_token t c queryPairs currentPair; txt = Some (tk_text t) in
      if tc_isInOperator tc then
        Some (base\<lparr>qc_isInValue := True, qc_operatorToken := txt, qc_keyToken := pair_key currentPair (Some '''')\<rparr>)
      else if tc_isInKey tc then Some (base\<lparr>qc_isInOperator := True, qc_keyToken := txt\<rparr>)
      else if tc_isInValue tc then
        Some (base\<lparr>qc_isInConjunction := True, qc_valueToken := txt,
                qc_keyToken := pair_key currentPair (Some ''''),
                qc_operatorToken := pair_operator currentPair (Some '''')\<rparr>)
      else if tc_isInConjunction tc then Some (base\<lparr>qc_isInKey := True\<rparr>)
      else None)"

subsection \<open>The function\<close>

text \<open>\<open>isAtSpace\<close>, \<open>isAfterSpace\<close> or \<open>isTransitionPoint\<close>; a read outside the query is not a space.\<close>

definition near_space :: "string \<Rightarrow> int \<Rightarrow> bool" where
  "near_space query c =
     (let atSpace = (js_nth query c = Some (CHR '' ''));
          afterSpace = (js_nth query (c - 1) = Some (CHR '' ''));
          afterToken = (0 < c \<and> \<not> afterSpace)
      in atSpace \<or> afterSpace \<or> (atSpace \<and> afterToken) \<or> (c = int (length query) \<and> afterToken))"

text \<open>An exception, the context found, or the next attempt.\<close>

fun or_else :: "'e + 'a option \<Rightarrow> 'e + 'a \<Rightarrow> 'e + 'a" where
  "or_else (Inl e) k = Inl e"
| "or_else (Inr (Some x)) k = Inr x"
| "or_else (Inr None) k = k"

definition classified ::
  "classifier \<Rightarrow> string \<Rightarrow> itoken \<Rightarrow> (itoken \<Rightarrow> token_context \<Rightarrow> 'a) \<Rightarrow> string + 'a" where
  "classified classify query t f = map_sum id (f t) (determineTokenContext classify t query)"

definition space_context ::
  "classifier \<Rightarrow> string \<Rightarrow> int \<Rightarrow> itoken option \<Rightarrow> query_pair list \<Rightarrow> query_pair option \<Rightarrow>
     string + query_context option" where
  "space_context classify query c lastToken queryPairs currentPair =
     (case lastToken of
        Some t \<Rightarrow>
          (if near_space query c
           then classified classify query t (\<lambda>t tc. progress_context t tc c queryPairs currentPair)
           else Inr None)
      | None \<Rightarrow> Inr None)"

definition exact_context ::
  "classifier \<Rightarrow> string \<Rightarrow> int \<Rightarrow> tokens_around \<Rightarrow> query_pair list \<Rightarrow> query_pair option \<Rightarrow>
     string + query_context option" where
  "exact_context classify query c ta queryPairs currentPair =
     (case ta_exact ta of
        Some t \<Rightarrow>
          classified classify query t (\<lambda>t tc. Some
            (if c = tk_stop t + 1 then end_of_token_context t tc c queryPairs currentPair
             else inside_token_context t tc c queryPairs currentPair))
      | None \<Rightarrow>
          (case ta_previous ta of
             Some t \<Rightarrow> classified classify query t (\<lambda>t tc. previous_token_context t tc c queryPairs currentPair)
           | None \<Rightarrow> Inr None))"

definition token_based_context ::
  "classifier \<Rightarrow> string \<Rightarrow> int \<Rightarrow> itoken list \<Rightarrow> query_pair list \<Rightarrow> query_pair option \<Rightarrow>
     string + query_context" where
  "token_based_context classify query c tokens queryPairs currentPair =
     (let ta = find_tokens_around query c tokens; lastToken = last_token_before c None tokens in
      if ta_previous ta = None \<and> ta_next ta = None \<and> ta_exact ta = None \<and> lastToken = None
      then Inr (key_context c queryPairs None)
      else or_else (space_context classify query c lastToken queryPairs currentPair)
             (or_else (exact_context classify query c ta queryPairs currentPair)
                (Inr (key_context c queryPairs currentPair))))"

definition query_context_or_error :: "classifier \<Rightarrow> string \<Rightarrow> int \<Rightarrow> string + query_context" where
  "query_context_or_error classify query c =
     (let tokens = filter_tokens query;
          queryPairs = extractQueryPairs query;
          currentPair = getCurrentQueryPair queryPairs query c;
          boundaries = determineContextBoundaries query c tokens queryPairs
      in case boundary_context query c boundaries queryPairs currentPair of
           Some ctx \<Rightarrow> Inr ctx
         | None \<Rightarrow> token_based_context classify query c tokens queryPairs currentPair)"

text \<open>The \<open>catch\<close> of the function answers with the key context and no pairs.\<close>

definition getQueryContextAtCursor :: "classifier \<Rightarrow> string \<Rightarrow> int \<Rightarrow> query_context" where
  "getQueryContextAtCursor classify query c =
     (case query_context_or_error classify query c of
        Inl _ \<Rightarrow> key_context c [] None
      | Inr ctx \<Rightarrow> ctx)"

subsection \<open>The bracket around the cursor\<close>

text \<open>
  The brackets still open begin no later than any token to come, so a pair of brackets the loop
  reports lies in the query and holds the cursor, or ends one space before it.
\<close>

definition open_before :: "itoken list \<Rightarrow> itoken \<times> bool \<Rightarrow> bool" where
  "open_before toks opener \<longleftrightarrow> 0 \<le> tk_start (fst opener) \<and> (\<forall>t\<in>set toks. tk_start (fst opener) \<le> tk_start t)"

definition bracket_ok :: "string \<Rightarrow> int \<Rightarrow> bracket_context \<Rightarrow> bool" where
  "bracket_ok query c b \<longleftrightarrow>
     0 \<le> bc_start b \<and> bc_start b \<le> bc_end b \<and> bc_end b < int (length query) \<and>
     bc_start b \<le> c \<and> c \<le> bc_end b + 2"

lemma bracket_not_EOF: "is_opener t \<or> is_closer t \<Longrightarrow> tk_type t \<noteq> EOF"
  by (auto simp: is_opener_def is_closer_def)

lemma bracket_spans:
  assumes "token_in_query q t" "is_opener t \<or> is_closer t"
  shows "0 \<le> tk_start t \<and> tk_start t \<le> tk_stop t \<and> tk_stop t < int (length q)"
  using assms token_spans [of q t] bracket_not_EOF [of t] by (auto simp: spans_def)

lemma bracket_between_ok:
  assumes "token_in_query q t" "is_closer t" "open_before (t # toks) opener" "closes_around q c opener t"
  shows "bracket_ok q c (bracket_between opener t)"
  using assms bracket_spans [of q t]
  by (auto simp: bracket_ok_def bracket_between_def open_before_def closes_around_def)

lemma bracket_at_cursor_ok:
  assumes "bracket_at_cursor c earlier stack t = Some b" "token_in_query q t"
    "list_all (open_before (t # toks)) stack"
  shows "bracket_ok q c b"
proof -
  from assms(1) have here: "tk_start t \<le> c" "c \<le> tk_stop t + 1" "is_opener t \<or> is_closer t"
    by (auto simp: bracket_at_cursor_def split: if_splits)
  note sp = bracket_spans [OF assms(2) here(3)]
  show ?thesis
  proof (cases "is_opener t \<or> stack = []")
    case True
    with assms(1) here have "bc_start b = tk_start t" "bc_end b = tk_stop t"
      by (auto simp: bracket_at_cursor_def split: if_splits)
    with sp here show ?thesis by (simp add: bracket_ok_def)
  next
    case False
    then obtain opener rest where st: "stack = opener # rest" by (cases stack) auto
    have "b = bracket_between opener t" using assms(1) here False by (simp add: bracket_at_cursor_def st)
    moreover have "closes_around q c opener t"
      using assms(3) here by (auto simp: closes_around_def st open_before_def)
    ultimately show ?thesis
      using bracket_between_ok [OF assms(2), of toks opener c] assms(3) here(3) False by (simp add: st)
  qed
qed

lemma bracket_loop_ok:
  assumes "bracket_loop q c earlier stack toks = Some b" "list_all (token_in_query q) toks"
    "sorted_wrt (\<lambda>a b. tk_start a \<le> tk_start b) toks" "list_all (open_before toks) stack"
    "\<forall>t\<in>set toks. 0 \<le> tk_start t"
  shows "bracket_ok q c b"
  using assms
proof (induction toks arbitrary: earlier stack)
  case (Cons t toks)
  define closing where "closing = (is_closer t \<and> stack \<noteq> [])"
  define stack' where "stack' = (if is_opener t then (t, list_bracket t earlier) # stack
    else if closing then tl stack else stack)"
  have open': "list_all (open_before (t # toks)) stack'"
    using Cons.prems(3,4,5) by (cases stack) (auto simp: stack'_def closing_def open_before_def list_all_iff)
  then have later: "list_all (open_before toks) stack'"
    by (auto simp: open_before_def list_all_iff)
  have loop: "(if closing \<and> closes_around q c (hd stack) t then Some (bracket_between (hd stack) t)
      else (case bracket_at_cursor c earlier stack' t of Some b \<Rightarrow> Some b
            | None \<Rightarrow> bracket_loop q c (t # earlier) stack' toks)) = Some b"
    using Cons.prems(1) unfolding bracket_loop.simps Let_def closing_def stack'_def .
  show ?case
  proof (cases "closing \<and> closes_around q c (hd stack) t")
    case True
    with loop have "b = bracket_between (hd stack) t" by simp
    moreover have "open_before (t # toks) (hd stack)"
      using True Cons.prems(4) by (cases stack) (auto simp: closing_def)
    ultimately show ?thesis
      using True Cons.prems(2) by (auto simp: closing_def intro: bracket_between_ok)
  next
    case False
    show ?thesis
    proof (cases "bracket_at_cursor c earlier stack' t")
      case None
      with loop False Cons.prems later show ?thesis by (intro Cons.IH) auto
    next
      case (Some b')
      with loop False bracket_at_cursor_ok [OF Some _ open', of q] Cons.prems(2) show ?thesis by simp
    qed
  qed
qed simp

lemma filter_tokens_sorted: "sorted_wrt (\<lambda>a b. tk_start a \<le> tk_start b) (filter_tokens q)"
proof -
  obtain ts e where ts: "filter_tokens q = ts @ [e]"
    using flex.lex_last [of q] by (metis append_butlast_last_id)
  have "tk_start a \<le> tk_stop a" if "a \<in> set ts" for a
    using flex.lex_eof [of a q] flex.lex_text [of a q] that by (simp add: ts)
  then show ?thesis
    using flex.lex_ordered [of q] unfolding ts sorted_wrt_append
    by (force intro: sorted_wrt_mono_rel [of ts "\<lambda>a b. tk_stop a < tk_start b"])
qed

text \<open>
  The bracket context that \<open>determineContextBoundaries\<close> reports lies in the query and
  around the cursor: its opening is at or before the cursor, and the cursor is at most one
  space past its end.
\<close>

theorem bracket_context_around_cursor:
  assumes "cb_bracketContext (determineContextBoundaries query c (filter_tokens query) ps) = Some b"
  shows "bracket_ok query c b"
proof -
  have "cb_bracketContext (determineContextBoundaries query c (filter_tokens query) ps) =
      bracket_loop query c [] [] (filter_tokens query)"
    by (auto simp: determineContextBoundaries_def pair_boundaries_def token_boundaries_def
        no_boundaries_def Let_def split: option.splits)
  then show ?thesis
    using assms filter_tokens_sorted [of query] flex.lex_ahead [of query]
    by (intro bracket_loop_ok [of query c "[]" "[]" "filter_tokens query"])
      (auto simp: ahead_def list_all_iff flex.lex_start)
qed

theorem bracket_context_around_cursor_witness:
  "\<exists>b. cb_bracketContext (determineContextBoundaries ''a IN (1, 2)'' 7
      (filter_tokens ''a IN (1, 2)'') (extractQueryPairs ''a IN (1, 2)'')) = Some b \<and>
    bracket_ok ''a IN (1, 2)'' 7 b"
proof -
  have "cb_bracketContext (determineContextBoundaries ''a IN (1, 2)'' 7
      (filter_tokens ''a IN (1, 2)'') (extractQueryPairs ''a IN (1, 2)'')) =
    Some \<lparr>bc_start = 5, bc_end = 10, bc_isForList = True\<rparr>" by code_simp
  from bracket_context_around_cursor [OF this] this show ?thesis by blast
qed

subsection \<open>What the context holds\<close>

definition some_context :: "query_context \<Rightarrow> bool" where
  "some_context ctx \<longleftrightarrow>
     qc_isInKey ctx \<or> qc_isInNegation ctx \<or> qc_isInOperator ctx \<or> qc_isInValue ctx \<or>
     qc_isInFunction ctx \<or> qc_isInConjunction ctx \<or> qc_isInParenthesis ctx \<or> qc_isInBracketList ctx"

text \<open>The types of token that belong to no context: nothing is suggested on them.\<close>

definition no_context_type :: "token_type \<Rightarrow> bool" where
  "no_context_type t \<longleftrightarrow> t = COMMA \<or> t = FREETEXT"

lemma token_context_some:
  assumes "determineTokenContext classify t q = Inr tc" "\<not> no_context_type (tk_type t)"
    "tk_type t \<noteq> EOF" "tk_type t \<noteq> WS"
  shows "tc_isInKey tc \<or> tc_isInNegation tc \<or> tc_isInOperator tc \<or> tc_isInValue tc \<or>
    tc_isInFunction tc \<or> tc_isInConjunction tc \<or> tc_isInParenthesis tc"
proof (cases "classify q t")
  case (Inl e)
  with assms(1) show ?thesis by (simp add: determineTokenContext_def)
next
  case (Inr found)
  show ?thesis
  proof (cases found)
    case None
    with Inr assms show ?thesis
      by (cases "tk_type t") (auto simp: determineTokenContext_def token_class_defs no_context_type_def)
  next
    case (Some ti)
    with Inr assms(1) show ?thesis
      by (cases "ti_type ti") (auto simp: determineTokenContext_def Let_def)
  qed
qed

lemma boundary_context_some:
  "boundary_context q c cb ps p = Some ctx \<Longrightarrow> some_context ctx \<and> qc_queryPairs ctx = ps \<and> qc_currentPair ctx = p"
  by (auto simp: boundary_context_def some_context_def blank_context_def Let_def split: if_splits)

lemma classified_Inr:
  "classified classify q t f = Inr x \<Longrightarrow> \<exists>tc. determineTokenContext classify t q = Inr tc \<and> x = f t tc"
  by (cases "determineTokenContext classify t q") (auto simp: classified_def)

lemma progress_context_some:
  "progress_context t tc c ps p = Some ctx \<Longrightarrow> some_context ctx \<and> qc_queryPairs ctx = ps \<and> qc_currentPair ctx = p"
  by (auto simp: progress_context_def some_context_def after_token_def blank_context_def Let_def split: if_splits)

lemma previous_context_some:
  "previous_token_context t tc c ps p = Some ctx \<Longrightarrow>
     some_context ctx \<and> qc_queryPairs ctx = ps \<and> qc_currentPair ctx = p"
  by (auto simp: previous_token_context_def some_context_def after_token_def blank_context_def Let_def
      split: if_splits)

lemma exact_token_found:
  "exact_token c prev ts = Some r \<Longrightarrow>
     \<exists>t\<in>set ts. ta_exact r = Some t \<and> tk_type t \<noteq> EOF"
  by (induction c prev ts rule: exact_token.induct) (auto split: if_splits)

lemma between_no_exact: "ta_exact (between_tokens c ts) = None"
  by (induction c ts rule: between_tokens.induct) (auto simp: no_tokens_around_def)

lemma around_exact:
  assumes "ta_exact (find_tokens_around q c ts) = Some t"
  shows "t \<in> set ts \<and> tk_type t \<noteq> EOF"
proof (cases "int (length q) \<le> c \<and> ts \<noteq> []")
  case True
  with assms have last: "js_last (filter (\<lambda>t. tk_type t \<noteq> EOF) ts) = Some t"
    by (auto simp: find_tokens_around_def no_tokens_around_def split: option.splits)
  then have "t \<in> set (filter (\<lambda>t. tk_type t \<noteq> EOF) ts)"
    by (auto simp: js_last_def split: if_splits dest: last_in_set)
  then show ?thesis by simp
next
  case False
  with assms show ?thesis
    using exact_token_found [of c None ts] between_no_exact [of c ts]
    by (auto simp: find_tokens_around_def split: option.splits if_splits)
qed

lemma key_context_some:
  "some_context (key_context c ps p)" "qc_queryPairs (key_context c ps p) = ps"
  "qc_currentPair (key_context c ps p) = p"
  by (simp_all add: key_context_def some_context_def blank_context_def)

lemma exact_context_pairs:
  assumes "exact_context classify q c ta ps p = Inr (Some ctx)"
  shows "qc_queryPairs ctx = ps \<and> qc_currentPair ctx = p \<and>
    (\<forall>t. ta_exact ta = Some t \<longrightarrow> \<not> no_context_type (tk_type t) \<and> tk_type t \<noteq> EOF \<and> tk_type t \<noteq> WS \<longrightarrow>
       some_context ctx) \<and> (ta_exact ta = None \<longrightarrow> some_context ctx)"
proof (cases "ta_exact ta")
  case None
  with assms show ?thesis
    using previous_context_some by (auto simp: exact_context_def split: option.splits dest: classified_Inr)
next
  case (Some t)
  with assms obtain tc where tc: "determineTokenContext classify t q = Inr tc"
    and ctx: "ctx = (if c = tk_stop t + 1 then end_of_token_context t tc c ps p else inside_token_context t tc c ps p)"
    by (auto simp: exact_context_def dest: classified_Inr)
  have "some_context ctx" if "\<not> no_context_type (tk_type t)" "tk_type t \<noteq> EOF" "tk_type t \<noteq> WS"
    using token_context_some [OF tc that]
    by (auto simp: ctx end_of_token_context_def inside_token_context_def on_token_def some_context_def Let_def)
  moreover have "qc_queryPairs ctx = ps \<and> qc_currentPair ctx = p"
    by (simp add: ctx end_of_token_context_def inside_token_context_def on_token_def after_token_def
        blank_context_def Let_def)
  ultimately show ?thesis by (simp add: Some)
qed

lemma space_context_pairs:
  assumes "space_context classify q c lt ps p = Inr (Some ctx)"
  shows "some_context ctx \<and> qc_queryPairs ctx = ps \<and> qc_currentPair ctx = p"
  using assms progress_context_some
  by (auto simp: space_context_def split: option.splits if_splits dest: classified_Inr)

lemma or_else_Inr:
  assumes "or_else a k = Inr x"
  obtains "a = Inr (Some x)" | "a = Inr None" "k = Inr x"
  using assms by (cases "(a, k)" rule: or_else.cases) auto

lemma token_based_pairs:
  assumes "token_based_context classify q c ts ps p = Inr ctx"
  shows "qc_queryPairs ctx = ps \<and> (qc_currentPair ctx = p \<or> qc_currentPair ctx = None) \<and>
    (list_all (\<lambda>t. \<not> no_context_type (tk_type t) \<and> tk_type t \<noteq> WS) ts \<longrightarrow> some_context ctx)"
proof -
  let ?ta = "find_tokens_around q c ts"
  let ?last = "last_token_before c None ts"
  consider "ctx = key_context c ps None" | "ctx = key_context c ps p"
    | "space_context classify q c ?last ps p = Inr (Some ctx)"
    | "exact_context classify q c ?ta ps p = Inr (Some ctx)"
    using assms unfolding token_based_context_def Let_def
    by (auto split: if_splits elim!: or_else_Inr)
  then show ?thesis
  proof cases
    case 3
    then show ?thesis using space_context_pairs by blast
  next
    case 4
    note ec = exact_context_pairs [OF this]
    show ?thesis
    proof (cases "ta_exact ?ta")
      case None
      with ec show ?thesis by blast
    next
      case (Some t)
      then have "t \<in> set ts" "tk_type t \<noteq> EOF" using around_exact by blast+
      with ec Some show ?thesis by (auto simp: list_all_iff)
    qed
  qed (simp_all add: key_context_some)
qed

lemma filter_tokens_no_WS: "t \<in> set (filter_tokens q) \<Longrightarrow> tk_type t \<noteq> WS"
proof -
  have "tk_type t \<noteq> WS" if "t \<in> set (lex_from pos s)" for pos s
    using that
  proof (induction "length s" arbitrary: pos s rule: less_induct)
    case less
    show ?case
    proof (cases "s = []")
      case True
      with less.prems show ?thesis by (simp add: lex_from.simps eof_token_def)
    next
      case False
      then show ?thesis
      proof (cases rule: lex_from_cases [where pos = pos])
        case (skip k)
        with less.prems less.hyps [of "drop k s" "pos + k"] False show ?thesis by fastforce
      next
        case (token t' n)
        with less.prems less.hyps [of "drop n s" "pos + n"] False show ?thesis
          by (auto simp: mk_token_def)
      qed
    qed
  qed
  then show "t \<in> set (filter_tokens q) \<Longrightarrow> tk_type t \<noteq> WS" by (simp add: filter_tokens_def)
qed

lemma best_match_mem:
  "best_match q c best ps = Some p \<Longrightarrow> best = Some p \<or> p \<in> set ps"
proof (induction ps arbitrary: best)
  case (Cons x xs)
  from Cons.IH [of "if pair_matches q c x \<and>
      (case best of None \<Rightarrow> True | Some b \<Rightarrow> pair_end b < pair_end x) then Some x else best"] Cons.prems
  show ?case by (auto split: if_splits)
qed simp

lemma current_pair_mem: "getCurrentQueryPair ps q c = Some p \<Longrightarrow> p \<in> set ps"
  using best_match_mem [of q c None ps p]
  by (auto simp: getCurrentQueryPair_def split: if_splits option.splits)

lemma query_context_pairs:
  fixes classify q c
  defines "ps \<equiv> extractQueryPairs q"
  assumes "query_context_or_error classify q c = Inr ctx"
  shows "qc_queryPairs ctx = ps \<and>
    (qc_currentPair ctx = getCurrentQueryPair ps q c \<or> qc_currentPair ctx = None) \<and>
    (list_all (\<lambda>t. \<not> no_context_type (tk_type t)) (filter_tokens q) \<longrightarrow> some_context ctx)"
proof (cases "boundary_context q c (determineContextBoundaries q c (filter_tokens q) ps) ps
    (getCurrentQueryPair ps q c)")
  case None
  with assms have "token_based_context classify q c (filter_tokens q) ps (getCurrentQueryPair ps q c) = Inr ctx"
    by (simp add: query_context_or_error_def Let_def)
  from token_based_pairs [OF this] show ?thesis by (auto simp: list_all_iff dest: filter_tokens_no_WS)
next
  case (Some ctx')
  with assms have "ctx' = ctx" by (simp add: query_context_or_error_def Let_def)
  with boundary_context_some [OF Some] show ?thesis by simp
qed

text \<open>
  At every cursor of every query the context carries all pairs of the query, or none when
  the classification threw, and its current pair is one of them and lies in the query.
\<close>

theorem context_pairs_in_query:
  "(let ctx = getQueryContextAtCursor classify query c in
    (qc_queryPairs ctx = extractQueryPairs query \<or> qc_queryPairs ctx = []) \<and>
    (case qc_currentPair ctx of
       None \<Rightarrow> True
     | Some p \<Rightarrow> p \<in> set (qc_queryPairs ctx) \<and> pair_in_query query p))"
proof (cases "query_context_or_error classify query c")
  case (Inl e)
  then show ?thesis by (simp add: getQueryContextAtCursor_def key_context_some)
next
  case (Inr ctx)
  have "p \<in> set (extractQueryPairs query) \<and> pair_in_query query p"
    if "getCurrentQueryPair (extractQueryPairs query) query c = Some p" for p
    using flex.extracted_in_query [of query] current_pair_mem [OF that]
    by (auto simp: extractQueryPairs_def pairs_in_query_def list_all_iff)
  with query_context_pairs [OF Inr] show ?thesis
    by (auto simp: getQueryContextAtCursor_def Inr Let_def split: option.splits)
qed

text \<open>
  C33. The editor always has something to suggest: on a query without commas and free text every
  cursor is in some context, whatever the classification of the tokens answers or throws.
\<close>

theorem cursor_always_in_context:
  assumes "list_all (\<lambda>t. \<not> no_context_type (tk_type t)) (filter_tokens query)"
  shows "some_context (getQueryContextAtCursor classify query c)"
  using assms query_context_pairs [of classify query c]
  by (cases "query_context_or_error classify query c")
    (auto simp: getQueryContextAtCursor_def key_context_some)

theorem cursor_always_in_context_witness:
  "some_context (getQueryContextAtCursor classify_parsed ''NOT (a = 1'' 5)"
proof -
  have "list_all (\<lambda>t. \<not> no_context_type (tk_type t)) (filter_tokens ''NOT (a = 1'')" by code_simp
  then show ?thesis by (rule cursor_always_in_context)
qed

subsection \<open>From a value to a conjunction\<close>

lemma bracket_loop_end:
  "bracket_loop q c earlier stack toks = Some b \<Longrightarrow>
     \<exists>u\<in>set toks. (is_opener u \<or> is_closer u) \<and> bc_end b = tk_stop u \<and> c \<le> tk_stop u + 2"
proof (induction toks arbitrary: earlier stack)
  case (Cons t toks)
  define closing where "closing = (is_closer t \<and> stack \<noteq> [])"
  define stack' where "stack' = (if is_opener t then (t, list_bracket t earlier) # stack
    else if closing then tl stack else stack)"
  have loop: "(if closing \<and> closes_around q c (hd stack) t then Some (bracket_between (hd stack) t)
      else (case bracket_at_cursor c earlier stack' t of Some b \<Rightarrow> Some b
            | None \<Rightarrow> bracket_loop q c (t # earlier) stack' toks)) = Some b"
    using Cons.prems(1) unfolding bracket_loop.simps Let_def closing_def stack'_def .
  show ?case
  proof (cases "closing \<and> closes_around q c (hd stack) t")
    case True
    with loop show ?thesis by (auto simp: bracket_between_def closing_def closes_around_def)
  next
    case False
    show ?thesis
    proof (cases "bracket_at_cursor c earlier stack' t")
      case None
      with loop False Cons.IH show ?thesis by fastforce
    next
      case (Some b')
      with loop False have "b' = b" by simp
      with Some show ?thesis
        by (auto simp: bracket_at_cursor_def bracket_between_def split: if_splits list.splits)
    qed
  qed
qed simp

lemma last_token_before_end:
  assumes "filter (\<lambda>t. tk_type t \<noteq> EOF) ts = us @ [t]" "\<forall>u\<in>set (us @ [t]). tk_stop u < c \<and> tk_start u \<le> c"
  shows "last_token_before c found ts = Some t"
  using assms
proof (induction ts arbitrary: us found)
  case (Cons x xs)
  show ?case
  proof (cases "tk_type x = EOF")
    case True
    with Cons show ?thesis by simp
  next
    case False
    show ?thesis
    proof (cases us)
      case Nil
      with Cons.prems False have "filter (\<lambda>t. tk_type t \<noteq> EOF) xs = []" "x = t" by simp_all
      moreover have "last_token_before c f xs = f" if "filter (\<lambda>t. tk_type t \<noteq> EOF) xs = []" for f xs
        using that by (induction xs) (auto split: if_splits)
      ultimately show ?thesis using Cons.prems(2) False by simp
    next
      case (Cons y ys)
      with Cons.prems False have x: "x = y" "filter (\<lambda>t. tk_type t \<noteq> EOF) xs = ys @ [t]"
        "tk_stop x < c" "\<not> c < tk_start x" by auto
      with Cons.IH [OF x(2)] Cons.prems(2) Cons False show ?thesis by simp
    qed
  qed
qed simp

text \<open>The query ends in the token \<open>t\<close> and one space.\<close>

definition ends_in_token :: "string \<Rightarrow> itoken \<Rightarrow> bool" where
  "ends_in_token q t \<longleftrightarrow>
     js_last (filter (\<lambda>t. tk_type t \<noteq> EOF) (filter_tokens q)) = Some t \<and>
     tk_stop t + 2 = int (length q) \<and> js_nth q (tk_stop t + 1) = Some (CHR '' '')"

lemma ends_in_token_order:
  assumes "ends_in_token q t" "u \<in> set (filter_tokens q)" "tk_type u \<noteq> EOF"
  shows "u = t \<or> tk_stop u < tk_start t"
proof -
  let ?ts = "filter (\<lambda>t. tk_type t \<noteq> EOF) (filter_tokens q)"
  have "?ts \<noteq> []" "last ?ts = t" using assms(1) by (auto simp: ends_in_token_def js_last_def split: if_splits)
  then have us: "?ts = butlast ?ts @ [t]" using append_butlast_last_id [of ?ts] by simp
  have "sorted_wrt (\<lambda>a b. tk_stop a < tk_start b) (butlast ?ts @ [t])"
    unfolding us [symmetric] by (rule sorted_wrt_filter) (rule flex.lex_ordered)
  moreover have "u \<in> set (butlast ?ts @ [t])" using assms(2,3) unfolding us [symmetric] by simp
  ultimately show ?thesis by (auto simp: sorted_wrt_append)
qed

lemma ends_in_token_mem: "ends_in_token q t \<Longrightarrow> t \<in> set (filter_tokens q) \<and> tk_type t \<noteq> EOF"
proof -
  assume "ends_in_token q t"
  then have "t \<in> set (filter (\<lambda>t. tk_type t \<noteq> EOF) (filter_tokens q))"
    by (auto simp: ends_in_token_def js_last_def split: if_splits dest: last_in_set)
  then show ?thesis by simp
qed

lemma no_bracket_after_value:
  assumes "ends_in_token q t" "isValueToken (tk_type t)"
  shows "bracket_loop q (int (length q)) [] [] (filter_tokens q) = None"
proof (rule ccontr)
  assume "bracket_loop q (int (length q)) [] [] (filter_tokens q) \<noteq> None"
  then obtain u where u: "u \<in> set (filter_tokens q)" "is_opener u \<or> is_closer u" "int (length q) \<le> tk_stop u + 2"
    using bracket_loop_end by blast
  have "tk_type u \<noteq> EOF" using u(2) by (rule bracket_not_EOF)
  moreover have "u \<noteq> t" using u(2) assms(2) by (auto simp: is_opener_def is_closer_def isValueToken_def)
  ultimately have "tk_stop u < tk_start t" using ends_in_token_order [OF assms(1) u(1)] by blast
  moreover have "tk_start t \<le> tk_stop t" using flex.lex_text ends_in_token_mem [OF assms(1)] by blast
  ultimately show False using u(3) assms(1) by (simp add: ends_in_token_def)
qed

lemma no_boundary_after_value:
  assumes "ends_in_token q t" "isValueToken (tk_type t)"
    and p: "getCurrentQueryPair (extractQueryPairs q) q (int (length q)) = Some p"
      "valueEnd (qp_position p) = Some (tk_stop t)" "negationEnd (qp_position p) = Some 0"
  shows "boundary_context q (int (length q))
      (determineContextBoundaries q (int (length q)) (filter_tokens q) (extractQueryPairs q)) ps cp = None"
proof -
  let ?c = "int (length q)"
  let ?cb = "determineContextBoundaries q ?c (filter_tokens q) (extractQueryPairs q)"
  note mem = ends_in_token_mem [OF assms(1)]
  have t: "0 \<le> tk_start t" "tk_start t \<le> tk_stop t" "tk_stop t + 2 = ?c"
    using flex.lex_text mem assms(1) by (auto simp: ends_in_token_def)
  have "pair_in_query q p"
    using flex.extracted_in_query [of q] current_pair_mem [OF p(1)]
    by (auto simp: extractQueryPairs_def pairs_in_query_def list_all_iff)
  then have pos: "keyEnd (qp_position p) < operatorStart (qp_position p)"
    "operatorStart (qp_position p) \<le> operatorEnd (qp_position p)" "operatorEnd (qp_position p) < tk_stop t"
    "0 \<le> keyStart (qp_position p)" "keyStart (qp_position p) \<le> keyEnd (qp_position p)"
    using p(2) by (auto simp: pair_in_query_def spans_def Let_def split: option.splits)
  have stop: "tk_stop t \<noteq> 0" using pos by linarith
  have stop_q: "q \<noteq> []" using t by auto
  have "takeWhile (\<lambda>c. c = CHR '' '') (drop (nat (tk_stop t + 1)) q) = [CHR '' '']"
  proof -
    have n: "nat (tk_stop t + 1) < length q" "Suc (nat (tk_stop t + 1)) = length q" using t by linarith+
    have "drop (nat (tk_stop t + 1)) q = [q ! nat (tk_stop t + 1)]"
      using n by (simp add: Cons_nth_drop_Suc [symmetric])
    then show ?thesis using assms(1) t n by (simp add: ends_in_token_def js_nth_def)
  qed
  then have skip: "skip_spaces q (tk_stop t + 1) = ?c" using t by (simp add: skip_spaces_def)
  have "js_find (\<lambda>u. tk_start u = ?c \<and> (tk_type u = AND \<or> tk_type u = OR)) (filter_tokens q) = None"
    using flex.lex_text by (fastforce simp: js_find_None)
  then have cb: "?cb = \<lparr>cb_keyContext = Some (keyStart (qp_position p), keyEnd (qp_position p)),
      cb_operatorContext = Some (skip_spaces q (keyEnd (qp_position p) + 1), operatorEnd (qp_position p)),
      cb_valueContext = Some (skip_spaces q (operatorEnd (qp_position p) + 1), tk_stop t),
      cb_conjunctionContext = None,
      cb_negationContext = Some (case negationStart (qp_position p) of Some n \<Rightarrow> n | None \<Rightarrow> 0, 0),
      cb_bracketContext = None\<rparr>"
    using skip stop
    by (simp add: determineContextBoundaries_def p pair_boundaries_def num_or_def truthy_num_def Let_def
        no_bracket_after_value [OF assms(1,2)])
  show ?thesis
    unfolding boundary_context_def cb using t pos stop_q
    by (simp add: in_boundary_def in_bracket_def after_closing_list_def Let_def)
qed

text \<open>
  The progression at the end of the query: after the value of the last predicate and a
  space the editor suggests conjunctions and nothing else, and the context names the key, the
  operator and the value just typed. The predicate is not negated, and its value is classified
  as a value (or not at all, and is no bare word).
\<close>

theorem value_then_space_suggests_conjunction:
  assumes "ends_in_token query t" "isValueToken (tk_type t)"
    and "getCurrentQueryPair (extractQueryPairs query) query (int (length query)) = Some p"
      "valueEnd (qp_position p) = Some (tk_stop t)" "negationEnd (qp_position p) = Some 0"
    and "classify query t = Inr found"
      "case found of None \<Rightarrow> tk_type t \<noteq> KEY | Some ti \<Rightarrow> ti_type ti = TC_Value"
  shows "getQueryContextAtCursor classify query (int (length query)) =
    (after_token t (int (length query)) (extractQueryPairs query) (Some p))
      \<lparr>qc_isInConjunction := True, qc_valueToken := Some (tk_text t),
       qc_keyToken := Some (qp_key p), qc_operatorToken := Some (qp_operator p)\<rparr>"
proof -
  let ?c = "int (length query)" and ?ps = "extractQueryPairs query" and ?ts = "filter_tokens query"
  note mem = ends_in_token_mem [OF assms(1)]
  have stop: "tk_start t \<le> tk_stop t" "tk_stop t + 2 = ?c" "0 \<le> tk_start t"
    using flex.lex_text mem assms(1) by (auto simp: ends_in_token_def)
  have before_end: "?c - 1 = tk_stop t + 1" using stop by simp
  let ?us = "filter (\<lambda>t. tk_type t \<noteq> EOF) ?ts"
  have us: "?us = butlast ?us @ [t]"
    using assms(1) append_butlast_last_id [of ?us] by (auto simp: ends_in_token_def js_last_def split: if_splits)
  have "\<forall>u\<in>set ?us. tk_stop u < ?c \<and> tk_start u \<le> ?c"
    using flex.lex_text by fastforce
  then have last: "last_token_before ?c None ?ts = Some t"
    using us by (intro last_token_before_end [OF us]) metis
  have "ta_exact (find_tokens_around query ?c ?ts) = Some t"
    using assms(1) flex.lex_last [of query] by (simp add: find_tokens_around_def ends_in_token_def)
  moreover have "near_space query ?c"
    using assms(1) unfolding near_space_def Let_def before_end by (simp add: ends_in_token_def)
  moreover have "pair_in_query query p"
    using flex.extracted_in_query [of query] current_pair_mem [OF assms(3)]
    by (auto simp: extractQueryPairs_def pairs_in_query_def list_all_iff)
  then have key: "qp_key p \<noteq> []" "qp_operator p \<noteq> []"
    using assms(4) by (auto simp: pair_in_query_def Let_def dest: spans_not_Nil split: option.splits)
  moreover obtain tc where "determineTokenContext classify t query = Inr tc"
    "\<not> tc_isInKey tc" "\<not> tc_isInNegation tc" "\<not> tc_isInOperator tc" "tc_isInValue tc"
    using assms(2,6,7) value_not_operator [OF assms(2)]
    by (auto simp: determineTokenContext_def isKeyToken_def isValueToken_def Let_def split: option.splits)
  ultimately have "token_based_context classify query ?c ?ts ?ps (Some p) =
      Inr ((after_token t ?c ?ps (Some p))
        \<lparr>qc_isInConjunction := True, qc_valueToken := Some (tk_text t),
         qc_keyToken := Some (qp_key p), qc_operatorToken := Some (qp_operator p)\<rparr>)"
    by (simp add: token_based_context_def last space_context_def classified_def progress_context_def
        pair_key_def pair_operator_def Let_def)
  then show ?thesis
    using no_boundary_after_value [OF assms(1-5)] assms(3)
    by (simp add: getQueryContextAtCursor_def query_context_or_error_def Let_def)
qed

theorem value_then_space_witness:
  "qc_isInConjunction (getQueryContextAtCursor classify_parsed ''a = 1 '' 6)"
proof -
  let ?q = "''a = 1 ''" and ?t = "mk_token 4 NUMBER ''1''"
  have "ends_in_token ?q ?t" by code_simp
  moreover have "isValueToken (tk_type ?t)" by code_simp
  moreover have "(case getCurrentQueryPair (extractQueryPairs ?q) ?q (int (length ?q)) of None \<Rightarrow> False
     | Some p \<Rightarrow> valueEnd (qp_position p) = Some (tk_stop ?t) \<and> negationEnd (qp_position p) = Some 0)"
    by code_simp
  then obtain p where "getCurrentQueryPair (extractQueryPairs ?q) ?q (int (length ?q)) = Some p"
    "valueEnd (qp_position p) = Some (tk_stop ?t)" "negationEnd (qp_position p) = Some 0"
    by (auto split: option.splits)
  moreover have "classify_parsed ?q ?t = Inr (analyzeQuery ?q ?t)" by (simp add: classify_parsed_def)
  moreover have "(case analyzeQuery ?q ?t of None \<Rightarrow> tk_type ?t \<noteq> KEY | Some ti \<Rightarrow> ti_type ti = TC_Value)"
    by code_simp
  ultimately have "getQueryContextAtCursor classify_parsed ?q (int (length ?q)) =
    (after_token ?t (int (length ?q)) (extractQueryPairs ?q) (Some p))
      \<lparr>qc_isInConjunction := True, qc_valueToken := Some (tk_text ?t),
       qc_keyToken := Some (qp_key p), qc_operatorToken := Some (qp_operator p)\<rparr>"
    by (rule value_then_space_suggests_conjunction)
  then show ?thesis by simp
qed

subsection \<open>The negation of the first pair\<close>

text \<open>
  A pair without negation records its positions as 0, so at the first two positions of a query
  that starts with such a pair the cursor counts as inside a negation.
\<close>

lemma negation_at_query_start:
  "qc_isInNegation (getQueryContextAtCursor classify_parsed ''ab = 1'' 0) \<and>
   qc_isInNegation (getQueryContextAtCursor classify_parsed ''ab = 1'' 1) \<and>
   \<not> qc_isInNegation (getQueryContextAtCursor classify_parsed ''ab = 1'' 2)"
  by code_simp

end
