(* ===== verification/Time_Range.thy ===== *)
theory Time_Range
  imports Js_Number
begin

section \<open>Time ranges: zooming out and relative intervals\<close>

text \<open>
  \<open>lib/zoomOutUtils.ts\<close>, \<open>lib/getMinMax.ts\<close> and \<open>lib/getStartAndEndTime/getMinAgo.ts\<close>. Times and
  durations are whole numbers of milliseconds. The clock is an argument of each function that
  reads it; \<open>GetMinMax\<close> reads it twice. Half milliseconds, which the centre of a range can have,
  are written over the doubled values, and \<open>Math.round\<close> rounds a half up.
\<close>

subsection \<open>The ladder\<close>

definition MS_PER_MIN :: int where "MS_PER_MIN = 60 * 1000"
definition MS_PER_HOUR :: int where "MS_PER_HOUR = 60 * MS_PER_MIN"
definition MS_PER_DAY :: int where "MS_PER_DAY = 24 * MS_PER_HOUR"
definition MS_PER_WEEK :: int where "MS_PER_WEEK = 7 * MS_PER_DAY"

lemmas ms_defs = MS_PER_MIN_def MS_PER_HOUR_def MS_PER_DAY_def MS_PER_WEEK_def

definition ZOOM_OUT_LADDER_MS :: "int list" where
  "ZOOM_OUT_LADDER_MS =
     [15 * MS_PER_MIN, 45 * MS_PER_MIN, 2 * MS_PER_HOUR, 7 * MS_PER_HOUR, 21 * MS_PER_HOUR,
      1 * MS_PER_DAY, 2 * MS_PER_DAY, 3 * MS_PER_DAY, 1 * MS_PER_WEEK, 2 * MS_PER_WEEK,
      30 * MS_PER_DAY]"

definition MAX_DURATION :: int where
  "MAX_DURATION = ZOOM_OUT_LADDER_MS ! (length ZOOM_OUT_LADDER_MS - 1)"

definition MIN_LADDER_DURATION_MS :: int where
  "MIN_LADDER_DURATION_MS = ZOOM_OUT_LADDER_MS ! 0"

definition isZoomOutDisabled :: "int \<Rightarrow> bool" where
  "isZoomOutDisabled durationMs \<longleftrightarrow> MAX_DURATION \<le> durationMs"

definition PRESET_FOR_DURATION_MS :: "int \<Rightarrow> string option" where
  "PRESET_FOR_DURATION_MS =
     map_of [(15 * MS_PER_MIN, ''15m''), (45 * MS_PER_MIN, ''45m''), (2 * MS_PER_HOUR, ''2h''),
       (7 * MS_PER_HOUR, ''7h''), (21 * MS_PER_HOUR, ''21h''), (1 * MS_PER_DAY, ''1d''),
       (2 * MS_PER_DAY, ''2d''), (3 * MS_PER_DAY, ''3d''), (1 * MS_PER_WEEK, ''1w''),
       (2 * MS_PER_WEEK, ''2w''), (30 * MS_PER_DAY, ''1month'')]"

definition getNextDurationInLadder :: "int \<Rightarrow> int" where
  "getNextDurationInLadder durationMs =
     (if MAX_DURATION \<le> durationMs then MAX_DURATION
      else if durationMs < MIN_LADDER_DURATION_MS then min (durationMs * 3) MIN_LADDER_DURATION_MS
      else (case js_find (\<lambda>d. durationMs < d) ZOOM_OUT_LADDER_MS of
              Some d \<Rightarrow> d
            | None \<Rightarrow> MAX_DURATION))"

subsection \<open>Zooming out\<close>

record zoom_out_result =
  zr_range :: "int \<times> int"
  zr_preset :: "string option"

text \<open>\<open>Math.round (n / 2)\<close>\<close>

definition round_half :: "int \<Rightarrow> int" where
  "round_half n = (n + 1) div 2"

definition getNextZoomOutRange :: "int \<Rightarrow> int \<Rightarrow> int \<Rightarrow> zoom_out_result option" where
  "getNextZoomOutRange nowMs startMs endMs =
     (let durationMs = endMs - startMs in
      if durationMs \<le> 0 then None
      else
        (let newDurationMs = getNextDurationInLadder durationMs in
         if newDurationMs \<le> durationMs then None
         else
           (let center2 = 2 * startMs + durationMs;
                computedEnd2 = center2 + newDurationMs
            in if computedEnd2 \<le> 2 * nowMs then
                 Some \<lparr>zr_range = (round_half (center2 - newDurationMs), round_half computedEnd2),
                       zr_preset = None\<rparr>
               else
                 Some \<lparr>zr_range = (nowMs - newDurationMs, nowMs),
                       zr_preset = PRESET_FOR_DURATION_MS newDurationMs\<rparr>)))"

subsection \<open>Relative intervals\<close>

text \<open>
  A number is a double: the product with \<open>1000000\<close> that turns milliseconds into nanoseconds is
  rounded to 53 significant bits, to the even neighbour on a tie.
\<close>

fun bit_length :: "nat \<Rightarrow> nat" where
  "bit_length n = (if n = 0 then 0 else Suc (bit_length (n div 2)))"

declare bit_length.simps [simp del]

definition round_even :: "nat \<Rightarrow> nat \<Rightarrow> nat" where
  "round_even n k =
     (let q = n div 2 ^ k; r = n mod 2 ^ k
      in (if 2 ^ k < 2 * r \<or> (2 * r = 2 ^ k \<and> odd q) then q + 1 else q) * 2 ^ k)"

definition js_double :: "int \<Rightarrow> int" where
  "js_double n = sgn n * int (round_even (nat \<bar>n\<bar>) (bit_length (nat \<bar>n\<bar>) - 53))"

text \<open>\<open>new Date(t).getTime()\<close>: \<open>NaN\<close> (\<open>None\<close>) outside the range of dates.\<close>

definition date_time :: "int \<Rightarrow> int option" where
  "date_time t = (if \<bar>t\<bar> \<le> 8640000000000000 then Some t else None)"

definition getMinAgo :: "int \<Rightarrow> int \<Rightarrow> int option" where
  "getMinAgo nowMs minutes = date_time (nowMs - minutes * 60000)"

text \<open>The match of \<open>/^(\d+)([mhdw])$/\<close>: the number and the unit.\<close>

definition short_hand :: "string \<Rightarrow> (nat \<times> char) option" where
  "short_hand time =
     (if time = [] then None
      else if last time \<in> set ''mhdw'' \<and> butlast time \<noteq> [] \<and> list_all is_digit (butlast time)
      then Some (digits_value (butlast time), last time) else None)"

definition isValidShortHandDateTimeFormat :: "string \<Rightarrow> bool" where
  "isValidShortHandDateTimeFormat time \<longleftrightarrow> short_hand time \<noteq> None"

definition extractTimeAndUnit :: "string \<Rightarrow> nat \<times> char" where
  "extractTimeAndUnit time = (case short_hand time of Some m \<Rightarrow> m | None \<Rightarrow> (30, CHR ''m''))"

definition unit_minutes :: "nat \<Rightarrow> char \<Rightarrow> int" where
  "unit_minutes time unit =
     (if unit = CHR ''m'' then int time
      else if unit = CHR ''h'' then 60 * int time
      else if unit = CHR ''d'' then 24 * 60 * int time
      else if unit = CHR ''w'' then 24 * 60 * 7 * int time
      else 1)"

definition getMinTimeForRelativeTimes :: "int \<Rightarrow> nat \<Rightarrow> char \<Rightarrow> int option" where
  "getMinTimeForRelativeTimes nowMs time unit = getMinAgo nowMs (unit_minutes time unit)"

text \<open>The intervals with a branch of their own, in minutes.\<close>

definition named_interval :: "string \<Rightarrow> int option" where
  "named_interval =
     map_of [(''1m'', 1), (''10m'', 10), (''15m'', 15), (''1h'', 60), (''30m'', 30), (''45m'', 45),
       (''5m'', 5), (''1d'', 24 * 60), (''3d'', 24 * 60 * 3), (''4d'', 24 * 60 * 4),
       (''10d'', 24 * 60 * 10), (''1w'', 24 * 60 * 7), (''2w'', 24 * 60 * 14),
       (''6w'', 24 * 60 * 42), (''1month'', 24 * 60 * 30), (''2months'', 24 * 60 * 60),
       (''3h'', 3 * 60), (''4h'', 4 * 60), (''6h'', 6 * 60), (''12h'', 12 * 60)]"

text \<open>
  \<open>GetMinMax\<close>: \<open>None\<close> for the exception, and a minimum of \<open>None\<close> for \<open>NaN\<close>. The clock reads
  \<open>nowMax\<close> first and \<open>nowMin\<close> inside \<open>getMinAgo\<close>.
\<close>

definition relative_minimum :: "int \<Rightarrow> string \<Rightarrow> int option option" where
  "relative_minimum nowMin interval =
     (case named_interval interval of
        Some minutes \<Rightarrow> Some (getMinAgo nowMin minutes)
      | None \<Rightarrow>
          (if isValidShortHandDateTimeFormat interval then
             (let (time, unit) = extractTimeAndUnit interval
              in Some (getMinTimeForRelativeTimes nowMin time unit))
           else None))"

definition getMinMax :: "int \<Rightarrow> int \<Rightarrow> string \<Rightarrow> (int \<times> int) option \<Rightarrow> (int option \<times> int) option" where
  "getMinMax nowMax nowMin interval dateTimeRange =
     (if interval = ''custom'' then
        (let (lo, hi) = (case dateTimeRange of Some r \<Rightarrow> r | None \<Rightarrow> (0, 0))
         in Some (Some (js_double (lo * 1000000)), js_double (hi * 1000000)))
      else
        map_option (\<lambda>minTime. (map_option (\<lambda>t. js_double (t * 1000000)) minTime,
            js_double (nowMax * 1000000)))
          (relative_minimum nowMin interval))"

definition getMinMaxForSelectedTime ::
  "int \<Rightarrow> int \<Rightarrow> string \<Rightarrow> int \<Rightarrow> int \<Rightarrow> (int option \<times> int) option" where
  "getMinMaxForSelectedTime nowMax nowMin selectedTime minTime maxTime =
     (if selectedTime \<noteq> ''custom'' then getMinMax nowMax nowMin selectedTime None
      else getMinMax nowMax nowMin selectedTime (Some (minTime, maxTime)))"

subsection \<open>The ladder grows to one month\<close>

lemma ladder_values:
  "ZOOM_OUT_LADDER_MS = [900000, 2700000, 7200000, 25200000, 75600000, 86400000, 172800000, 259200000,
     604800000, 1209600000, 2592000000]"
  "MAX_DURATION = 2592000000" "MIN_LADDER_DURATION_MS = 900000"
  by (simp_all add: MAX_DURATION_def MIN_LADDER_DURATION_MS_def ZOOM_OUT_LADDER_MS_def ms_defs)

lemma next_duration_steps:
  "getNextDurationInLadder d =
     (if d < 300000 then d * 3 else if d < 900000 then 900000 else if d < 2700000 then 2700000
      else if d < 7200000 then 7200000 else if d < 25200000 then 25200000
      else if d < 75600000 then 75600000 else if d < 86400000 then 86400000
      else if d < 172800000 then 172800000 else if d < 259200000 then 259200000
      else if d < 604800000 then 604800000 else if d < 1209600000 then 1209600000 else 2592000000)"
  by (auto simp: getNextDurationInLadder_def ladder_values min_def)

lemma next_duration_mono: "d \<le> d' \<Longrightarrow> getNextDurationInLadder d \<le> getNextDurationInLadder d'"
  unfolding next_duration_steps by (simp split: if_splits)

lemma next_duration_le: "getNextDurationInLadder d \<le> MAX_DURATION"
  unfolding next_duration_steps ladder_values by simp

lemma next_duration_iter_mono:
  "d \<le> d' \<Longrightarrow> (getNextDurationInLadder ^^ n) d \<le> (getNextDurationInLadder ^^ n) d'"
  by (induction n) (simp_all add: next_duration_mono)

lemma next_duration_grows: "0 < d \<Longrightarrow> d < MAX_DURATION \<Longrightarrow> d < getNextDurationInLadder d"
  unfolding next_duration_steps ladder_values by simp

text \<open>
  Zooming out ends: from any positive duration, 23 steps of the ladder reach one month, where
  zooming out is disabled.
\<close>

theorem zoom_out_reaches_max:
  assumes "0 < durationMs"
  shows "(getNextDurationInLadder ^^ 23) durationMs = MAX_DURATION \<and>
    isZoomOutDisabled ((getNextDurationInLadder ^^ 23) durationMs)"
proof -
  let ?f = getNextDurationInLadder
  have "(?f ^^ 13) 1 = 900000" by (simp add: numeral_eq_Suc next_duration_steps)
  moreover have "(?f ^^ 10) 900000 = 2592000000" by (simp add: numeral_eq_Suc next_duration_steps)
  moreover have "(?f ^^ 23) 1 = (?f ^^ 10) ((?f ^^ 13) 1)"
    using funpow_add [of 10 13 ?f] by simp
  ultimately have one: "(?f ^^ 23) 1 = MAX_DURATION" by (simp only: ladder_values)
  have "(?f ^^ 23) 1 \<le> (?f ^^ 23) durationMs"
    using assms by (intro next_duration_iter_mono) simp
  moreover have "(?f ^^ 23) durationMs = ?f ((?f ^^ 22) durationMs)"
    using funpow_add [of 1 22 ?f] by simp
  then have "(?f ^^ 23) durationMs \<le> MAX_DURATION" by (simp only: next_duration_le)
  ultimately have "(?f ^^ 23) durationMs = MAX_DURATION" unfolding one by (rule antisym [rotated])
  then show ?thesis by (simp only: isZoomOutDisabled_def order_refl simp_thms)
qed

theorem zoom_out_reaches_max_witness:
  "isZoomOutDisabled ((getNextDurationInLadder ^^ 23) 5000)"
  by (rule conjunct2 [OF zoom_out_reaches_max]) simp

subsection \<open>The zoomed range\<close>

text \<open>
  Zooming out a past range gives a range that contains it, does not end after now, and is
  exactly one step of the ladder long.
\<close>

theorem zoom_out_contains_range:
  assumes "getNextZoomOutRange nowMs startMs endMs = Some r" "endMs \<le> nowMs"
  shows "fst (zr_range r) \<le> startMs \<and> endMs \<le> snd (zr_range r) \<and> snd (zr_range r) \<le> nowMs \<and>
    snd (zr_range r) - fst (zr_range r) = getNextDurationInLadder (endMs - startMs) \<and>
    endMs - startMs < snd (zr_range r) - fst (zr_range r)"
proof -
  define d where "d = endMs - startMs"
  define D where "D = getNextDurationInLadder d"
  from assms(1) have d: "0 < d" "d < D"
    by (auto simp: getNextZoomOutRange_def Let_def d_def D_def split: if_splits)
  show ?thesis
  proof (cases "2 * startMs + d + D \<le> 2 * nowMs")
    case True
    with assms(1) d have r: "zr_range r = (round_half (2 * startMs + d - D), round_half (2 * startMs + d + D))"
      by (auto simp: getNextZoomOutRange_def Let_def d_def [symmetric] D_def [symmetric])
    have "2 * startMs + d + D + 1 = 2 * startMs + d - D + 1 + D * 2" by simp
    then have "(2 * startMs + d + D + 1) div 2 = (2 * startMs + d - D + 1) div 2 + D"
      using div_mult_self1 [of 2 "2 * startMs + d - D + 1" D] by (simp add: mult.commute)
    moreover have "endMs = startMs + d" by (simp add: d_def)
    ultimately show ?thesis
      using True d by (auto simp: r round_half_def D_def [symmetric] d_def [symmetric])
  next
    case False
    with assms(1) d have r: "zr_range r = (nowMs - D, nowMs)"
      by (auto simp: getNextZoomOutRange_def Let_def d_def [symmetric] D_def [symmetric])
    with False d assms(2) show ?thesis by (auto simp: D_def d_def)
  qed
qed

theorem zoom_out_contains_range_witness:
  "\<exists>r. getNextZoomOutRange 1700000000000 1699999000000 1699999900000 = Some r \<and>
     fst (zr_range r) \<le> 1699999000000 \<and> 1699999900000 \<le> snd (zr_range r)"
proof -
  have "getNextZoomOutRange 1700000000000 1699999000000 1699999900000 =
      Some \<lparr>zr_range = (1699997300000, 1700000000000), zr_preset = Some ''45m''\<rparr>" by code_simp
  from zoom_out_contains_range [OF this] this show ?thesis by auto
qed

subsection \<open>Intervals and presets\<close>

text \<open>The intervals with their own branch agree with the general form where they have it.\<close>

lemma named_intervals_agree:
  "named_interval i = Some m \<Longrightarrow> short_hand i = Some (n, u) \<Longrightarrow> unit_minutes n u = m"
proof -
  have "list_all (\<lambda>i. case short_hand i of None \<Rightarrow> True
      | Some (n, u) \<Rightarrow> named_interval i = Some (unit_minutes n u))
    [''1m'', ''10m'', ''15m'', ''1h'', ''30m'', ''45m'', ''5m'', ''1d'', ''3d'', ''4d'', ''10d'', ''1w'',
     ''2w'', ''6w'', ''1month'', ''2months'', ''3h'', ''4h'', ''6h'', ''12h'']" by code_simp
  moreover assume "named_interval i = Some m"
  then have "i \<in> set [''1m'', ''10m'', ''15m'', ''1h'', ''30m'', ''45m'', ''5m'', ''1d'', ''3d'', ''4d'',
     ''10d'', ''1w'', ''2w'', ''6w'', ''1month'', ''2months'', ''3h'', ''4h'', ''6h'', ''12h'']"
    by (auto simp: named_interval_def split: if_splits)
  moreover assume "short_hand i = Some (n, u)"
  ultimately show ?thesis using \<open>named_interval i = Some m\<close> by (fastforce simp: list_all_iff)
qed

lemma preset_minimum:
  assumes "PRESET_FOR_DURATION_MS d = Some p" "0 \<le> now" "now \<le> 8640000000000000"
  shows "p \<noteq> ''custom'' \<and> relative_minimum now p = Some (Some (now - d))"
proof -
  have "list_all (\<lambda>(d, p). p \<noteq> ''custom'' \<and> 0 < d \<and> d \<le> 2592000000 \<and>
      (case named_interval p of Some m \<Rightarrow> m * 60000 = d
       | None \<Rightarrow> (case short_hand p of None \<Rightarrow> False | Some (n, u) \<Rightarrow> unit_minutes n u * 60000 = d)))
    [(15 * MS_PER_MIN, ''15m''), (45 * MS_PER_MIN, ''45m''), (2 * MS_PER_HOUR, ''2h''),
       (7 * MS_PER_HOUR, ''7h''), (21 * MS_PER_HOUR, ''21h''), (1 * MS_PER_DAY, ''1d''),
       (2 * MS_PER_DAY, ''2d''), (3 * MS_PER_DAY, ''3d''), (1 * MS_PER_WEEK, ''1w''),
       (2 * MS_PER_WEEK, ''2w''), (30 * MS_PER_DAY, ''1month'')]"
    by code_simp
  then have "p \<noteq> ''custom'' \<and> 0 < d \<and> d \<le> 2592000000 \<and>
      (case named_interval p of Some m \<Rightarrow> m * 60000 = d
       | None \<Rightarrow> (case short_hand p of None \<Rightarrow> False | Some (n, u) \<Rightarrow> unit_minutes n u * 60000 = d))"
    using map_of_SomeD [OF assms(1) [unfolded PRESET_FOR_DURATION_MS_def]]
    unfolding list_all_iff by blast
  then show ?thesis
    using assms(2,3)
    by (auto simp: relative_minimum_def getMinAgo_def date_time_def isValidShortHandDateTimeFormat_def
        extractTimeAndUnit_def getMinTimeForRelativeTimes_def split: option.splits)
qed

text \<open>
  The preset that zooming out announces stands for the range it returns: \<open>GetMinMax\<close> on the
  preset, at the same time, answers with that range in nanoseconds.
\<close>

theorem zoom_out_preset_agrees:
  assumes "getNextZoomOutRange nowMs startMs endMs = Some r" "zr_preset r = Some p"
    and "0 \<le> nowMs" "nowMs \<le> 8640000000000000"
  shows "getMinMax nowMs nowMs p None =
    Some (Some (js_double (fst (zr_range r) * 1000000)), js_double (snd (zr_range r) * 1000000))"
proof -
  from assms(1,2) have "PRESET_FOR_DURATION_MS (snd (zr_range r) - fst (zr_range r)) = Some p"
    "snd (zr_range r) = nowMs"
    by (auto simp: getNextZoomOutRange_def Let_def split: if_splits)
  with preset_minimum [OF this(1) assms(3,4)] show ?thesis by (simp add: getMinMax_def)
qed

theorem zoom_out_preset_agrees_witness:
  "getMinMax 1700000000000 1700000000000 ''45m'' None =
     Some (Some (js_double (1699997300000 * 1000000)), js_double (1700000000000 * 1000000))"
proof -
  have "getNextZoomOutRange 1700000000000 1699999000000 1699999900000 =
      Some \<lparr>zr_range = (1699997300000, 1700000000000), zr_preset = Some ''45m''\<rparr>" by code_simp
  from zoom_out_preset_agrees [OF this] show ?thesis by simp
qed

subsection \<open>The rounding of nanoseconds\<close>

lemma round_even_error: "2 * \<bar>int (round_even n k) - int n\<bar> \<le> 2 ^ k"
proof -
  define q where "q = n div 2 ^ k"
  define r where "r = n mod 2 ^ k"
  have n: "n = q * 2 ^ k + r" unfolding q_def r_def by (rule div_mult_mod_eq [symmetric])
  have r: "r < 2 ^ k" by (simp add: r_def)
  show ?thesis
  proof (cases "2 ^ k < 2 * r \<or> (2 * r = 2 ^ k \<and> odd q)")
    case True
    then have up: "round_even n k = (q + 1) * 2 ^ k"
      by (auto simp: round_even_def Let_def q_def [symmetric] r_def [symmetric])
    have "int (round_even n k) - int n = 2 ^ k - int r"
      unfolding up by (subst n) (simp add: algebra_simps)
    moreover have "int (2 ^ k) \<le> int (2 * r)" "int r < int (2 ^ k)"
      using True r by (auto simp only: of_nat_le_iff of_nat_less_iff)
    ultimately show ?thesis by simp
  next
    case False
    then have down: "round_even n k = q * 2 ^ k"
      by (auto simp: round_even_def Let_def q_def [symmetric] r_def [symmetric])
    have "int (round_even n k) - int n = - int r"
      unfolding down by (subst n) simp
    moreover have "int (2 * r) \<le> int (2 ^ k)"
      using False by (simp only: of_nat_le_iff not_less de_Morgan_disj)
    ultimately show ?thesis by simp
  qed
qed

lemma bit_length_le: "n < 2 ^ m \<Longrightarrow> bit_length n \<le> m"
proof (induction m arbitrary: n)
  case 0
  then show ?case by (simp add: bit_length.simps)
next
  case (Suc m)
  then have "n div 2 < 2 ^ m" by auto
  with Suc.IH [of "n div 2"] show ?case by (subst bit_length.simps) simp
qed

lemma js_double_error:
  assumes "\<bar>n\<bar> < 2 ^ 61"
  shows "\<bar>js_double n - n\<bar> \<le> 128"
proof -
  define k where "k = bit_length (nat \<bar>n\<bar>) - 53"
  have "nat \<bar>n\<bar> < 2 ^ 61" using assms by (simp add: nat_less_iff)
  then have "k \<le> 8" using bit_length_le [of "nat \<bar>n\<bar>" 61] by (simp add: k_def)
  then have "(2::int) ^ k \<le> 2 ^ 8" by (rule power_increasing) simp
  with round_even_error [of "nat \<bar>n\<bar>" k] have "\<bar>int (round_even (nat \<bar>n\<bar>) k) - \<bar>n\<bar>\<bar> \<le> 128" by simp
  moreover have "js_double n = sgn n * int (round_even (nat \<bar>n\<bar>) k)" by (simp only: js_double_def k_def)
  ultimately show ?thesis by (cases "n = 0"; cases "0 < n") simp_all
qed

text \<open>The length of an interval in minutes, \<open>None\<close> for a text that is no interval.\<close>

definition interval_minutes :: "string \<Rightarrow> int option" where
  "interval_minutes i =
     (case named_interval i of
        Some m \<Rightarrow> Some m
      | None \<Rightarrow> map_option (\<lambda>(n, u). unit_minutes n u) (short_hand i))"

lemma relative_minimum_minutes:
  "relative_minimum now i = map_option (getMinAgo now) (interval_minutes i)"
  by (cases "named_interval i"; cases "short_hand i")
    (auto simp: relative_minimum_def interval_minutes_def isValidShortHandDateTimeFormat_def
      extractTimeAndUnit_def getMinTimeForRelativeTimes_def)

text \<open>
  The window of a relative interval is as long as the interval, less the time between the two
  readings of the clock, up to 256 nanoseconds that the doubles lose. It holds until the year
  2039, and for intervals that do not reach back before 1970.
\<close>

theorem interval_window:
  assumes "interval_minutes i = Some m" "i \<noteq> ''custom''"
    and "0 \<le> m" "m * 60000 \<le> nowMin" "nowMin < 2 ^ 41" "0 \<le> nowMax" "nowMax < 2 ^ 41"
  shows "\<exists>lo hi. getMinMax nowMax nowMin i None = Some (Some lo, hi) \<and>
    \<bar>(hi - lo) - (m * 60000 - (nowMin - nowMax)) * 1000000\<bar> \<le> 256"
proof -
  define t where "t = nowMin - m * 60000"
  have t: "0 \<le> t" "t < 2 ^ 41" using assms by (simp_all add: t_def)
  have "getMinMax nowMax nowMin i None =
      Some (Some (js_double (t * 1000000)), js_double (nowMax * 1000000))"
    using assms t by (simp add: getMinMax_def relative_minimum_minutes getMinAgo_def date_time_def t_def)
  moreover have "\<bar>js_double (t * 1000000) - t * 1000000\<bar> \<le> 128" using t by (intro js_double_error) simp
  moreover have "\<bar>js_double (nowMax * 1000000) - nowMax * 1000000\<bar> \<le> 128"
    using assms by (intro js_double_error) simp
  moreover have "(m * 60000 - (nowMin - nowMax)) * 1000000 = nowMax * 1000000 - t * 1000000"
    by (simp add: t_def algebra_simps)
  ultimately show ?thesis by auto
qed

theorem interval_window_witness:
  "\<exists>lo hi. getMinMax 1700000000001 1700000000002 ''90m'' None = Some (Some lo, hi) \<and>
    \<bar>(hi - lo) - 5399999000000\<bar> \<le> 256"
  using interval_window [of "''90m''" 90 1700000000002 1700000000001]
  by (simp add: interval_minutes_def named_interval_def short_hand_def unit_minutes_def digits_value_def
      digit_value_def)

end
