(* ===== verification/Web_Storage.thy ===== *)
theory Web_Storage
  imports Js_Number
begin

section \<open>State kept in the browser's storage\<close>

text \<open>
  \<open>utils/customTimeRangeUtils.ts\<close> keeps the last custom time ranges in \<open>localStorage\<close>, and
  \<open>previousQuery.ts\<close> the last queries in \<open>sessionStorage\<close>. A storage is an object of the browser:
  its operations are an argument \<open>api\<close>, and the locale \<open>web_storage\<close> states the laws both modules
  rely on. A stored text is given by what \<open>JSON.parse\<close> makes of it, \<open>None\<close> when it rejects it, so
  that \<open>JSON.parse (JSON.stringify j)\<close> is \<open>j\<close>. A write that throws, as it does when the quota is
  exceeded, is \<open>None\<close>; both modules ignore it.
\<close>

subsection \<open>JSON values\<close>

datatype json = JNull | JBool bool | JNum int | JString string | JArray "json list"
  | JObject "(string \<times> json) list"

definition json_get :: "string \<Rightarrow> json \<Rightarrow> json option" where
  "json_get k j = (case j of JObject entries \<Rightarrow> map_of entries k | _ \<Rightarrow> None)"

definition json_truthy :: "json option \<Rightarrow> bool" where
  "json_truthy v =
     (case v of
        None \<Rightarrow> False
      | Some JNull \<Rightarrow> False
      | Some (JBool b) \<Rightarrow> b
      | Some (JNum n) \<Rightarrow> n \<noteq> 0
      | Some (JString s) \<Rightarrow> s \<noteq> []
      | Some _ \<Rightarrow> True)"

subsection \<open>The interface of a storage\<close>

record 's storage_api =
  getItem :: "'s \<Rightarrow> string \<Rightarrow> json option option"
  setItem :: "'s \<Rightarrow> string \<Rightarrow> json \<Rightarrow> 's option"
  removeItem :: "'s \<Rightarrow> string \<Rightarrow> 's"

text \<open>A caught write: the storage is as before when it throws.\<close>

definition try_set :: "'s storage_api \<Rightarrow> string \<Rightarrow> json \<Rightarrow> 's \<Rightarrow> 's" where
  "try_set api k j s = (case setItem api s k j of Some s' \<Rightarrow> s' | None \<Rightarrow> s)"

locale web_storage =
  fixes api :: "'s storage_api"
  assumes get_set: "setItem api s k j = Some s' \<Longrightarrow>
      getItem api s' k' = (if k' = k then Some (Some j) else getItem api s k')"
    and get_remove: "getItem api (removeItem api s k) k' = (if k' = k then None else getItem api s k')"

subsection \<open>Custom time ranges\<close>

definition LAST_USED_CUSTOM_TIME_RANGES :: string where
  "LAST_USED_CUSTOM_TIME_RANGES = ''LAST_USED_CUSTOM_TIME_RANGES''"

definition MAX_STORED_RANGES :: nat where
  "MAX_STORED_RANGES = 3"

definition stored_range :: "json \<Rightarrow> bool" where
  "stored_range item \<longleftrightarrow> json_truthy (json_get ''from'' item) \<and> json_truthy (json_get ''to'' item)"

definition getCustomTimeRanges :: "'s storage_api \<Rightarrow> 's \<Rightarrow> json list" where
  "getCustomTimeRanges api s =
     (case getItem api s LAST_USED_CUSTOM_TIME_RANGES of
        Some (Some (JArray items)) \<Rightarrow> filter stored_range items
      | _ \<Rightarrow> [])"

definition same_range :: "string \<Rightarrow> string \<Rightarrow> json \<Rightarrow> bool" where
  "same_range startTime endTime r \<longleftrightarrow>
     json_get ''from'' r = Some (JString startTime) \<and> json_get ''to'' r = Some (JString endTime)"

definition custom_range :: "string \<Rightarrow> string \<Rightarrow> int \<Rightarrow> json" where
  "custom_range startTime endTime timestamp =
     JObject [(''from'', JString startTime), (''to'', JString endTime), (''timestamp'', JNum timestamp)]"

text \<open>A time of the picker is the text of its \<open>toISOString\<close>; \<open>now\<close> is \<open>dayjs().unix()\<close>.\<close>

definition addCustomTimeRange ::
  "'s storage_api \<Rightarrow> int \<Rightarrow> (string \<times> string) option \<Rightarrow> 's \<Rightarrow> 's \<times> json list" where
  "addCustomTimeRange api now dateTimeRange s =
     (case dateTimeRange of
        None \<Rightarrow> (s, getCustomTimeRanges api s)
      | Some (startTime, endTime) \<Rightarrow>
          (let filteredRanges = filter (\<lambda>r. \<not> same_range startTime endTime r) (getCustomTimeRanges api s);
               updatedRanges = take MAX_STORED_RANGES (custom_range startTime endTime now # filteredRanges)
           in (try_set api LAST_USED_CUSTOM_TIME_RANGES (JArray updatedRanges) s, updatedRanges)))"

definition clearCustomTimeRanges :: "'s storage_api \<Rightarrow> 's \<Rightarrow> 's" where
  "clearCustomTimeRanges api s = removeItem api s LAST_USED_CUSTOM_TIME_RANGES"

definition removeCustomTimeRange :: "'s storage_api \<Rightarrow> int \<Rightarrow> 's \<Rightarrow> 's \<times> json list" where
  "removeCustomTimeRange api timestamp s =
     (let updatedRanges = filter (\<lambda>r. json_get ''timestamp'' r \<noteq> Some (JNum timestamp)) (getCustomTimeRanges api s)
      in (try_set api LAST_USED_CUSTOM_TIME_RANGES (JArray updatedRanges) s, updatedRanges))"

definition isCustomTimeRangeExists :: "'s storage_api \<Rightarrow> (string \<times> string) option \<Rightarrow> 's \<Rightarrow> bool" where
  "isCustomTimeRangeExists api dateTimeRange s =
     (case dateTimeRange of
        None \<Rightarrow> False
      | Some (startTime, endTime) \<Rightarrow> list_ex (same_range startTime endTime) (getCustomTimeRanges api s))"

definition convertDateTimeRangeToCustomRange :: "int \<Rightarrow> (string \<times> string) option \<Rightarrow> json option" where
  "convertDateTimeRangeToCustomRange nowMs dateTimeRange =
     map_option (\<lambda>(startTime, endTime). custom_range startTime endTime nowMs) dateTimeRange"

subsection \<open>Previous queries\<close>

definition PREVIOUS_QUERY_KEY :: string where
  "PREVIOUS_QUERY_KEY = ''previousQuery''"

text \<open>Any object, so also an array, counts as a store; everything else reads as the empty one.\<close>

definition getPreviousQueryFromStore :: "'s storage_api \<Rightarrow> 's \<Rightarrow> json" where
  "getPreviousQueryFromStore api s =
     (case getItem api s PREVIOUS_QUERY_KEY of
        Some (Some (JObject entries)) \<Rightarrow> JObject entries
      | Some (Some (JArray items)) \<Rightarrow> JArray items
      | _ \<Rightarrow> JObject [])"

text \<open>\<open>store[key] = query\<close> and \<open>delete store[key]\<close>; \<open>JSON.stringify\<close> drops the named properties of an array.\<close>

definition json_put :: "string \<Rightarrow> json \<Rightarrow> json \<Rightarrow> json" where
  "json_put k v j = (case j of JObject entries \<Rightarrow> JObject (map_set k v entries) | _ \<Rightarrow> j)"

definition json_delete :: "string \<Rightarrow> json \<Rightarrow> json" where
  "json_delete k j = (case j of JObject entries \<Rightarrow> JObject (filter (\<lambda>e. fst e \<noteq> k) entries) | _ \<Rightarrow> j)"

definition writePreviousQueryToStore :: "'s storage_api \<Rightarrow> json \<Rightarrow> 's \<Rightarrow> 's" where
  "writePreviousQueryToStore api st s = try_set api PREVIOUS_QUERY_KEY st s"

definition getQueryKey :: "string \<Rightarrow> string \<Rightarrow> string \<Rightarrow> string \<Rightarrow> string" where
  "getQueryKey queryName dataSource signalSource panelType =
     queryName @ '':'' @ dataSource @ '':'' @ (if signalSource = ''meter'' then ''meter'' else '''') @ '':'' @ panelType"

definition getPreviousQueryFromKey :: "'s storage_api \<Rightarrow> string \<Rightarrow> 's \<Rightarrow> json option" where
  "getPreviousQueryFromKey api k s =
     (case json_get k (getPreviousQueryFromStore api s) of
        Some JNull \<Rightarrow> None
      | v \<Rightarrow> v)"

definition saveAsPreviousQuery :: "'s storage_api \<Rightarrow> string \<Rightarrow> json \<Rightarrow> 's \<Rightarrow> 's" where
  "saveAsPreviousQuery api k query s =
     writePreviousQueryToStore api (json_put k query (getPreviousQueryFromStore api s)) s"

definition removeKeyFromPreviousQuery :: "'s storage_api \<Rightarrow> string \<Rightarrow> 's \<Rightarrow> 's" where
  "removeKeyFromPreviousQuery api k s =
     writePreviousQueryToStore api (json_delete k (getPreviousQueryFromStore api s)) s"

definition clearPreviousQuery :: "'s storage_api \<Rightarrow> 's \<Rightarrow> 's" where
  "clearPreviousQuery api s = removeItem api s PREVIOUS_QUERY_KEY"

subsection \<open>The laws of the two clients\<close>

text \<open>The two ends of a stored range; the invariant of the list the picker shows.\<close>

definition range_ends :: "json \<Rightarrow> json option \<times> json option" where
  "range_ends r = (json_get ''from'' r, json_get ''to'' r)"

definition ranges_ok :: "json list \<Rightarrow> bool" where
  "ranges_ok rs \<longleftrightarrow> length rs \<le> MAX_STORED_RANGES \<and> distinct (map range_ends rs) \<and> list_all stored_range rs"

lemma same_range_ends: "same_range a b r \<longleftrightarrow> range_ends r = (Some (JString a), Some (JString b))"
  by (auto simp: same_range_def range_ends_def)

lemma custom_range_fields [simp]:
  "json_get ''from'' (custom_range a b t) = Some (JString a)"
  "json_get ''to'' (custom_range a b t) = Some (JString b)"
  "json_get ''timestamp'' (custom_range a b t) = Some (JNum t)"
  by (simp_all add: custom_range_def json_get_def)

lemma ranges_ok_filter: "ranges_ok rs \<Longrightarrow> ranges_ok (filter P rs)"
  by (auto simp: ranges_ok_def distinct_map_filter list_all_iff intro: order_trans [OF length_filter_le])

lemma ranges_ok_add:
  assumes "ranges_ok rs" "a \<noteq> []" "b \<noteq> []"
  shows "ranges_ok (take MAX_STORED_RANGES (custom_range a b t # filter (\<lambda>r. \<not> same_range a b r) rs))"
proof -
  let ?rs = "custom_range a b t # filter (\<lambda>r. \<not> same_range a b r) rs"
  have "range_ends (custom_range a b t) = (Some (JString a), Some (JString b))" by (simp add: range_ends_def)
  then have "distinct (map range_ends ?rs)"
    using assms(1) by (auto simp: ranges_ok_def distinct_map_filter same_range_ends)
  then have "distinct (map range_ends (take MAX_STORED_RANGES ?rs))"
    by (simp only: take_map [symmetric] distinct_take)
  moreover have "list_all stored_range ?rs"
    using assms by (auto simp: ranges_ok_def list_all_iff stored_range_def json_truthy_def)
  then have "list_all stored_range (take MAX_STORED_RANGES ?rs)"
    using list_all_take_drop by blast
  ultimately show ?thesis by (simp add: ranges_ok_def)
qed

lemma ranges_ok_stored: "ranges_ok rs \<Longrightarrow> filter stored_range rs = rs"
  by (simp add: ranges_ok_def list_all_iff)

text \<open>A session: any sequence of the three operations, whether or not the writes succeed.\<close>

inductive range_session :: "'s storage_api \<Rightarrow> 's \<Rightarrow> 's \<Rightarrow> bool" for api s where
  session_start: "range_session api s s"
| session_add: "range_session api s t \<Longrightarrow> a \<noteq> [] \<Longrightarrow> b \<noteq> [] \<Longrightarrow>
    range_session api s (fst (addCustomTimeRange api now (Some (a, b)) t))"
| session_remove: "range_session api s t \<Longrightarrow> range_session api s (fst (removeCustomTimeRange api stamp t))"
| session_clear: "range_session api s t \<Longrightarrow> range_session api s (clearCustomTimeRanges api t)"

text \<open>What is stored under a key is not touched by the other module.\<close>

lemma storage_keys_differ: "PREVIOUS_QUERY_KEY \<noteq> LAST_USED_CUSTOM_TIME_RANGES"
  by (simp add: PREVIOUS_QUERY_KEY_def LAST_USED_CUSTOM_TIME_RANGES_def)

context web_storage
begin

lemma get_try_set:
  "getItem api (try_set api k j s) k' =
     (if k' = k \<and> setItem api s k j \<noteq> None then Some (Some j) else getItem api s k')"
  by (auto simp: try_set_def get_set split: option.splits)

lemma ranges_after_write:
  "ranges_ok rs \<Longrightarrow>
     getCustomTimeRanges api (try_set api LAST_USED_CUSTOM_TIME_RANGES (JArray rs) s) =
       (if setItem api s LAST_USED_CUSTOM_TIME_RANGES (JArray rs) \<noteq> None then rs else getCustomTimeRanges api s)"
  by (simp add: getCustomTimeRanges_def get_try_set ranges_ok_stored)

lemma ranges_after_clear: "getCustomTimeRanges api (clearCustomTimeRanges api s) = []"
  by (simp add: getCustomTimeRanges_def clearCustomTimeRanges_def get_remove)

lemma session_ranges_ok:
  "range_session api s t \<Longrightarrow> ranges_ok (getCustomTimeRanges api s) \<Longrightarrow> ranges_ok (getCustomTimeRanges api t)"
proof (induction rule: range_session.induct)
  case (session_add t a b now)
  then have ok: "ranges_ok (getCustomTimeRanges api t)" by simp
  note new = ranges_ok_add [OF ok session_add.hyps(2,3), of now]
  from ranges_after_write [OF new, of t] new ok show ?case
    by (simp add: addCustomTimeRange_def Let_def del: take_Suc_Cons)
next
  case (session_remove t stamp)
  then show ?case
    using ranges_after_write [OF ranges_ok_filter, of "getCustomTimeRanges api t"]
    by (simp add: removeCustomTimeRange_def Let_def ranges_ok_filter)
qed (simp_all add: ranges_after_clear ranges_ok_def)

lemma add_is_most_recent:
  assumes "ranges_ok (getCustomTimeRanges api s)" "a \<noteq> []" "b \<noteq> []"
    "addCustomTimeRange api now (Some (a, b)) s = (t, rs)" "t \<noteq> s"
  shows "getCustomTimeRanges api t = rs \<and> hd rs = custom_range a b now \<and>
    isCustomTimeRangeExists api (Some (a, b)) t \<and>
    (\<forall>r\<in>set rs. r = custom_range a b now \<or> r \<in> set (getCustomTimeRanges api s) \<and> \<not> same_range a b r)"
proof -
  define rs' where "rs' = take MAX_STORED_RANGES
    (custom_range a b now # filter (\<lambda>r. \<not> same_range a b r) (getCustomTimeRanges api s))"
  have rs: "rs = rs'" "t = try_set api LAST_USED_CUSTOM_TIME_RANGES (JArray rs') s"
    using assms(4) by (auto simp: addCustomTimeRange_def Let_def rs'_def)
  have "setItem api s LAST_USED_CUSTOM_TIME_RANGES (JArray rs') \<noteq> None"
    using assms(5) by (auto simp: rs(2) try_set_def split: option.splits)
  then have got: "getCustomTimeRanges api t = rs'"
    using ranges_after_write [OF ranges_ok_add [OF assms(1-3), of now], of s] by (simp add: rs rs'_def)
  have hd: "\<exists>tl. rs' = custom_range a b now # tl" by (simp add: rs'_def MAX_STORED_RANGES_def numeral_3_eq_3)
  have "isCustomTimeRangeExists api (Some (a, b)) t"
    using hd by (auto simp: isCustomTimeRangeExists_def got same_range_def)
  moreover have "\<forall>r\<in>set rs'. r = custom_range a b now \<or>
      r \<in> set (getCustomTimeRanges api s) \<and> \<not> same_range a b r"
    by (auto simp: rs'_def dest: in_set_takeD)
  ultimately show ?thesis using got hd by (auto simp: rs)
qed

lemma previous_after_save:
  assumes "setItem api s PREVIOUS_QUERY_KEY (json_put k query (getPreviousQueryFromStore api s)) \<noteq> None"
    and "getPreviousQueryFromStore api s = JObject entries"
  shows "getPreviousQueryFromKey api k' (saveAsPreviousQuery api k query s) =
    (if k' = k then if query = JNull then None else Some query else getPreviousQueryFromKey api k' s)"
proof -
  have "getPreviousQueryFromStore api (saveAsPreviousQuery api k query s) = JObject (map_set k query entries)"
    using assms
    by (auto simp: getPreviousQueryFromStore_def saveAsPreviousQuery_def writePreviousQueryToStore_def
        json_put_def get_try_set)
  then show ?thesis
    using assms(2) by (cases query) (auto simp: getPreviousQueryFromKey_def json_get_def)
qed

lemma previous_after_remove:
  assumes "setItem api s PREVIOUS_QUERY_KEY (json_delete k (getPreviousQueryFromStore api s)) \<noteq> None"
    and "getPreviousQueryFromStore api s = JObject entries"
  shows "getPreviousQueryFromKey api k' (removeKeyFromPreviousQuery api k s) =
    (if k' = k then None else getPreviousQueryFromKey api k' s)"
proof -
  have "getPreviousQueryFromStore api (removeKeyFromPreviousQuery api k s) =
      JObject (filter (\<lambda>e. fst e \<noteq> k) entries)"
    using assms
    by (auto simp: getPreviousQueryFromStore_def removeKeyFromPreviousQuery_def writePreviousQueryToStore_def
        json_delete_def get_try_set)
  moreover have "map_of (filter (\<lambda>e. fst e \<noteq> k) entries) k' = (if k' = k then None else map_of entries k')"
    by (induction entries) auto
  ultimately show ?thesis
    using assms(2) by (auto simp: getPreviousQueryFromKey_def json_get_def split: option.splits json.splits)
qed

end

subsection \<open>The storage of the browser\<close>

text \<open>
  A map from keys to texts, written only while the result \<open>fits\<close>, the browser's quota.
\<close>

type_synonym browser_items = "string \<Rightarrow> json option option"

definition browser_storage :: "(browser_items \<Rightarrow> bool) \<Rightarrow> browser_items storage_api" where
  "browser_storage fits =
     \<lparr>getItem = (\<lambda>s k. s k),
      setItem = (\<lambda>s k j. let s' = s(k := Some (Some j)) in if fits s' then Some s' else None),
      removeItem = (\<lambda>s k. s(k := None))\<rparr>"

interpretation browser: web_storage "browser_storage fits" for fits
  by unfold_locales (auto simp: browser_storage_def Let_def split: if_splits)

subsection \<open>The properties\<close>

text \<open>
  In any session of adding, removing and clearing custom ranges, with writes that may fail,
  the picker shows at most three ranges, no two with the same ends, each with both ends, provided
  this held at the start; an empty storage is such a start.
\<close>

theorem custom_ranges_invariant:
  assumes "range_session (browser_storage fits) s t"
    and "ranges_ok (getCustomTimeRanges (browser_storage fits) s)"
  shows "ranges_ok (getCustomTimeRanges (browser_storage fits) t)"
  using assms by (rule browser.session_ranges_ok)

theorem custom_ranges_invariant_witness:
  "ranges_ok (getCustomTimeRanges (browser_storage (\<lambda>_. True))
     (fst (addCustomTimeRange (browser_storage (\<lambda>_. True)) 7 (Some (''2024'', ''2025'')) (\<lambda>_. None))))"
proof (rule custom_ranges_invariant)
  show "range_session (browser_storage (\<lambda>_. True)) (\<lambda>_. None)
    (fst (addCustomTimeRange (browser_storage (\<lambda>_. True)) 7 (Some (''2024'', ''2025'')) (\<lambda>_. None)))"
    by (intro session_add session_start) auto
  show "ranges_ok (getCustomTimeRanges (browser_storage (\<lambda>_. True)) (\<lambda>_. None))"
    by (simp add: getCustomTimeRanges_def browser_storage_def ranges_ok_def)
qed

text \<open>
  A range that was added, and stored, comes first in the list; it is known as existing, and
  every other range of the list was there before and has other ends.
\<close>

theorem added_range_is_most_recent:
  assumes "ranges_ok (getCustomTimeRanges (browser_storage fits) s)" "a \<noteq> []" "b \<noteq> []"
    "addCustomTimeRange (browser_storage fits) now (Some (a, b)) s = (t, rs)" "t \<noteq> s"
  shows "getCustomTimeRanges (browser_storage fits) t = rs \<and> hd rs = custom_range a b now \<and>
    isCustomTimeRangeExists (browser_storage fits) (Some (a, b)) t \<and>
    (\<forall>r\<in>set rs. r = custom_range a b now \<or>
       r \<in> set (getCustomTimeRanges (browser_storage fits) s) \<and> \<not> same_range a b r)"
  using assms by (rule browser.add_is_most_recent)

theorem added_range_is_most_recent_witness:
  "hd (getCustomTimeRanges (browser_storage (\<lambda>_. True))
     (fst (addCustomTimeRange (browser_storage (\<lambda>_. True)) 7 (Some (''a'', ''b'')) (\<lambda>_. None)))) =
   custom_range ''a'' ''b'' 7"
proof -
  let ?api = "browser_storage (\<lambda>_. True)" and ?s = "(\<lambda>_. None) :: browser_items"
  have ok: "ranges_ok (getCustomTimeRanges ?api ?s)"
    by (simp add: getCustomTimeRanges_def browser_storage_def ranges_ok_def)
  have eq: "addCustomTimeRange ?api 7 (Some (''a'', ''b'')) ?s =
    (?s(LAST_USED_CUSTOM_TIME_RANGES := Some (Some (JArray [custom_range ''a'' ''b'' 7]))),
     [custom_range ''a'' ''b'' 7])"
    by (simp add: addCustomTimeRange_def getCustomTimeRanges_def browser_storage_def try_set_def
        MAX_STORED_RANGES_def numeral_3_eq_3 Let_def)
  have "?s(LAST_USED_CUSTOM_TIME_RANGES := Some (Some (JArray [custom_range ''a'' ''b'' 7]))) \<noteq> ?s"
    by (simp add: fun_eq_iff)
  from added_range_is_most_recent [OF ok _ _ eq this] show ?thesis by (simp add: eq)
qed

text \<open>The keys of two different queries differ, as long as the names hold no colon.\<close>

lemma split_at_colon:
  "CHR '':'' \<notin> set a \<Longrightarrow> CHR '':'' \<notin> set c \<Longrightarrow> a @ CHR '':'' # b = c @ CHR '':'' # d \<Longrightarrow> a = c \<and> b = d"
proof (induction a arbitrary: c)
  case Nil
  then show ?case by (cases c) auto
next
  case (Cons x a)
  then show ?case by (cases c) auto
qed

lemma query_key_inject:
  assumes "getQueryKey n d g p = getQueryKey n' d' g' p'"
    and "CHR '':'' \<notin> set n" "CHR '':'' \<notin> set n'" "CHR '':'' \<notin> set d" "CHR '':'' \<notin> set d'"
  shows "n = n' \<and> d = d' \<and> (g = ''meter'' \<longleftrightarrow> g' = ''meter'') \<and> p = p'"
proof -
  have "n = n' \<and> d @ CHR '':'' # (if g = ''meter'' then ''meter'' else '''') @ CHR '':'' # p =
      d' @ CHR '':'' # (if g' = ''meter'' then ''meter'' else '''') @ CHR '':'' # p'"
    using assms by (intro split_at_colon) (simp_all add: getQueryKey_def)
  moreover from this have "d = d' \<and> (if g = ''meter'' then ''meter'' else '''') @ CHR '':'' # p =
      (if g' = ''meter'' then ''meter'' else '''') @ CHR '':'' # p'"
    using assms by (intro split_at_colon) simp_all
  ultimately show ?thesis by (auto split: if_splits)
qed

text \<open>
  A query saved under its name, source, signal and panel is found under these, and the
  queries saved under other names, sources or panels are still found as before. The store is an
  object and the write fits, and names and sources hold no colon.
\<close>

theorem previous_query_saved:
  assumes "getPreviousQueryFromStore (browser_storage fits) s = JObject entries" "query \<noteq> JNull"
    "setItem (browser_storage fits) s PREVIOUS_QUERY_KEY
       (JObject (map_set (getQueryKey n d g p) query entries)) \<noteq> None"
    and "CHR '':'' \<notin> set n" "CHR '':'' \<notin> set n'" "CHR '':'' \<notin> set d" "CHR '':'' \<notin> set d'"
  shows "getPreviousQueryFromKey (browser_storage fits) (getQueryKey n' d' g' p')
      (saveAsPreviousQuery (browser_storage fits) (getQueryKey n d g p) query s) =
    (if n' = n \<and> d' = d \<and> (g' = ''meter'' \<longleftrightarrow> g = ''meter'') \<and> p' = p then Some query
     else getPreviousQueryFromKey (browser_storage fits) (getQueryKey n' d' g' p') s)"
proof -
  have "getQueryKey n' d' g' p' = getQueryKey n d g p \<longleftrightarrow>
      n' = n \<and> d' = d \<and> (g' = ''meter'' \<longleftrightarrow> g = ''meter'') \<and> p' = p"
    using query_key_inject [of n' d' g' p' n d g p] assms(4-) by (auto simp: getQueryKey_def)
  with browser.previous_after_save [of fits s "getQueryKey n d g p" query entries "getQueryKey n' d' g' p'"]
    assms(1-3) show ?thesis by (simp add: json_put_def)
qed

theorem previous_query_saved_witness:
  "getPreviousQueryFromKey (browser_storage (\<lambda>_. True)) (getQueryKey ''A'' ''logs'' '''' ''list'')
     (saveAsPreviousQuery (browser_storage (\<lambda>_. True)) (getQueryKey ''A'' ''logs'' '''' ''list'') (JBool True)
       (\<lambda>_. None)) = Some (JBool True)"
proof -
  have "getPreviousQueryFromStore (browser_storage (\<lambda>_. True)) (\<lambda>_. None) = JObject []"
    by (simp add: getPreviousQueryFromStore_def browser_storage_def)
  from previous_query_saved [OF this, of "JBool True" "''A''" "''logs''" "''''" "''list''" "''A''" "''logs''"
      "''''" "''list''"] show ?thesis
    by (simp add: browser_storage_def)
qed

subsection \<open>Ranges added in the same second\<close>

text \<open>\<open>removeCustomTimeRange\<close> identifies a range by its time stamp, in whole seconds: it removes both of two.\<close>

lemma remove_takes_both:
  "(let api = browser_storage (\<lambda>_. True);
        s1 = fst (addCustomTimeRange api 7 (Some (''a'', ''b'')) (\<lambda>_. None));
        s2 = fst (addCustomTimeRange api 7 (Some (''c'', ''d'')) s1)
    in snd (removeCustomTimeRange api 7 s2)) = []"
  by code_simp

subsection \<open>The store of previous queries is a map\<close>

datatype previous_op = Save_Query string json | Remove_Query string | Clear_Queries

definition run_previous :: "'s storage_api \<Rightarrow> previous_op \<Rightarrow> 's \<Rightarrow> 's" where
  "run_previous api opr s =
     (case opr of
        Save_Query k q \<Rightarrow> saveAsPreviousQuery api k q s
      | Remove_Query k \<Rightarrow> removeKeyFromPreviousQuery api k s
      | Clear_Queries \<Rightarrow> clearPreviousQuery api s)"

text \<open>The specification: a map from keys to queries, in which \<open>null\<close> is no query.\<close>

definition run_map :: "previous_op \<Rightarrow> (string \<rightharpoonup> json) \<Rightarrow> (string \<rightharpoonup> json)" where
  "run_map opr m =
     (case opr of
        Save_Query k q \<Rightarrow> m(k := (if q = JNull then None else Some q))
      | Remove_Query k \<Rightarrow> m(k := None)
      | Clear_Queries \<Rightarrow> Map.empty)"

definition previous_queries :: "'s storage_api \<Rightarrow> 's \<Rightarrow> (string \<rightharpoonup> json)" where
  "previous_queries api s = (\<lambda>k. getPreviousQueryFromKey api k s)"

definition object_store :: "'s storage_api \<Rightarrow> 's \<Rightarrow> bool" where
  "object_store api s \<longleftrightarrow> (\<exists>entries. getPreviousQueryFromStore api s = JObject entries)"

text \<open>A storage whose writes all fit.\<close>

locale roomy_storage = web_storage +
  assumes room: "setItem api s k j \<noteq> None"
begin

lemma object_store_step:
  assumes "object_store api s"
  shows "object_store api (run_previous api opr s)"
proof -
  obtain entries where e: "getPreviousQueryFromStore api s = JObject entries"
    using assms by (auto simp: object_store_def)
  have put: "object_store api (writePreviousQueryToStore api (JObject es) s)" for es
    using room by (auto simp: object_store_def writePreviousQueryToStore_def getPreviousQueryFromStore_def get_try_set)
  have "object_store api (clearPreviousQuery api s)"
    by (simp add: object_store_def clearPreviousQuery_def getPreviousQueryFromStore_def get_remove)
  with put e show ?thesis
    by (cases opr) (simp_all add: run_previous_def saveAsPreviousQuery_def removeKeyFromPreviousQuery_def
        json_put_def json_delete_def)
qed

lemma previous_step:
  assumes "object_store api s"
  shows "previous_queries api (run_previous api opr s) = run_map opr (previous_queries api s)"
proof -
  obtain entries where e: "getPreviousQueryFromStore api s = JObject entries"
    using assms by (auto simp: object_store_def)
  have "getPreviousQueryFromStore api (clearPreviousQuery api s) = JObject []"
    by (simp add: clearPreviousQuery_def getPreviousQueryFromStore_def get_remove)
  then have "getPreviousQueryFromKey api k (clearPreviousQuery api s) = None" for k
    by (simp add: getPreviousQueryFromKey_def json_get_def)
  then show ?thesis
    using previous_after_save [OF room e] previous_after_remove [OF room e]
    by (cases opr) (auto simp: run_previous_def run_map_def previous_queries_def fun_eq_iff)
qed

lemma previous_run:
  "object_store api s \<Longrightarrow> previous_queries api (fold (run_previous api) ops s) = fold run_map ops (previous_queries api s)"
  by (induction ops arbitrary: s) (simp_all add: object_store_step previous_step)

end

interpretation roomy: roomy_storage "browser_storage (\<lambda>_. True)"
  by unfold_locales (auto simp: browser_storage_def Let_def)

text \<open>
  C38. The store of previous queries implements a map: after any sequence of saves, removals and clears
  that fit, every key is bound as in the map to which the same operations were applied.
\<close>

theorem previous_queries_refine_map:
  assumes "object_store (browser_storage (\<lambda>_. True)) s"
  shows "previous_queries (browser_storage (\<lambda>_. True)) (fold (run_previous (browser_storage (\<lambda>_. True))) ops s) =
    fold run_map ops (previous_queries (browser_storage (\<lambda>_. True)) s)"
  using assms by (rule roomy.previous_run)

theorem previous_queries_refine_map_witness:
  "previous_queries (browser_storage (\<lambda>_. True))
     (fold (run_previous (browser_storage (\<lambda>_. True)))
        [Save_Query ''a'' (JNum 1), Save_Query ''b'' (JNum 2), Remove_Query ''a''] (\<lambda>_. None)) =
   [''b'' \<mapsto> JNum 2]"
proof -
  let ?api = "browser_storage (\<lambda>_. True)"
  have empty: "getPreviousQueryFromStore ?api (\<lambda>_. None) = JObject []"
    by (simp add: getPreviousQueryFromStore_def browser_storage_def)
  then have "object_store ?api (\<lambda>_. None)" by (simp add: object_store_def)
  moreover have "previous_queries ?api (\<lambda>_. None) = Map.empty"
    by (simp add: previous_queries_def getPreviousQueryFromKey_def empty json_get_def fun_eq_iff)
  ultimately show ?thesis
    by (subst previous_queries_refine_map) (auto simp: run_map_def fun_eq_iff)
qed

end
