(* ===== verification/Query_Payload.thy ===== *)
theory Query_Payload
  imports Filter_Expression Lite_Formula
begin

section \<open>From the query builder to the query-range request\<close>

text \<open>
  \<open>api/v5/queryRange/prepareQueryRangePayloadV5.ts\<close> with \<open>mapQueryDataToApi.ts\<close>,
  \<open>functionNameNormalizer.ts\<close> and \<open>utils/compositeQueryToQueryEnvelope.ts\<close>: the builder queries and
  formulas of the editor become the envelopes of the request. A field that may be \<open>undefined\<close> or
  \<open>null\<close> is an option. Objects used as maps are association lists; the start and end that
  \<open>getStartEndRangeTime\<close> reads from the application's store are arguments.
\<close>

subsection \<open>The data of the builder\<close>

datatype data_source = METRICS | TRACES | LOGS

datatype panel_type = P_TIME_SERIES | P_VALUE | P_TABLE | P_LIST | P_TRACE | P_BAR | P_PIE | P_HISTOGRAM
  | P_EMPTY_WIDGET

datatype request_type = R_time_series | R_scalar | R_trace | R_raw | R_distribution | R_none

record order_by =
  ob_columnName :: string
  ob_order :: string

text \<open>An aggregation of the editor: an expression for logs and traces, the other fields for metrics.\<close>

record aggregation_item =
  ai_expression :: string
  ai_alias :: "string option"
  ai_metricName :: "string option"
  ai_temporality :: "string option"
  ai_timeAggregation :: "string option"
  ai_spaceAggregation :: "string option"
  ai_reduceTo :: "string option"

record having_item =
  hi_columnName :: string
  hi_op :: string
  hi_value :: "js_num list"

datatype having_clause = Having_Items "having_item list" | Having_Expression string

record function_arg =
  fa_name :: "string option"
  fa_value :: js_value

record query_function =
  qf_name :: string
  qf_args :: "function_arg list option"
  qf_namedArgs :: "(string \<times> js_value) list option"

text \<open>A selected column, in the old form (\<open>key\<close>, \<open>dataType\<close>, \<open>type\<close>) or the new one.\<close>

record select_column =
  sc_name :: "string option"
  sc_key :: "string option"
  sc_fieldDataType :: "string option"
  sc_dataType :: "string option"
  sc_signal :: "string option"
  sc_fieldContext :: "string option"
  sc_type :: "string option"

record builder_query =
  bq_queryName :: string
  bq_dataSource :: data_source
  bq_aggregateAttribute :: "autocomplete_data option"
  bq_attributeTemporality :: "string option"
  bq_aggregations :: "aggregation_item list"
  bq_timeAggregation :: "string option"
  bq_spaceAggregation :: "string option"
  bq_functions :: "query_function list"
  bq_filter :: "string option"
  bq_filters :: "tag_filter option"
  bq_groupBy :: "autocomplete_data list"
  bq_disabled :: bool
  bq_having :: having_clause
  bq_limit :: "int option"
  bq_stepInterval :: "int option"
  bq_orderBy :: "order_by list"
  bq_reduceTo :: "string option"
  bq_legend :: string
  bq_pageSize :: "int option"
  bq_offset :: "int option"
  bq_selectColumns :: "select_column list option"
  bq_source :: string

record formula_query =
  fq_queryName :: string
  fq_expression :: string
  fq_disabled :: bool
  fq_legend :: string
  fq_limit :: "int option"
  fq_orderBy :: "order_by list option"

subsection \<open>The data of the request\<close>

record metric_aggregation =
  ma_metricName :: "string option"
  ma_temporality :: "string option"
  ma_timeAggregation :: "string option"
  ma_spaceAggregation :: "string option"
  ma_reduceTo :: "string option"

datatype v5_aggregation =
    Metric_Aggregation metric_aggregation
  | Expression_Aggregation string "string option"

record group_by_key =
  gk_name :: string
  gk_fieldDataType :: string
  gk_fieldContext :: string

record v5_function =
  vf_name :: string
  vf_args :: "function_arg list option"

record telemetry_key =
  tk_name :: "string option"
  tk_fieldDataType :: "string option"
  tk_signal :: "string option"
  tk_fieldContext :: "string option"

record base_spec =
  bs_stepInterval :: "int option"
  bs_disabled :: bool
  bs_filter :: string
  bs_groupBy :: "group_by_key list option"
  bs_limit :: "int option"
  bs_offset :: "int option"
  bs_order :: "(string \<times> string) list option"
  bs_legend :: "string option"
  bs_having :: "having_clause option"
  bs_functions :: "v5_function list option"
  bs_selectFields :: "telemetry_key list option"

record builder_spec =
  sp_name :: string
  sp_signal :: data_source
  sp_source :: "string option"
  sp_base :: base_spec
  sp_aggregations :: "v5_aggregation list option"

record formula_spec =
  fs_name :: string
  fs_expression :: string
  fs_disabled :: bool
  fs_limit :: "int option"
  fs_legend :: "string option"
  fs_order :: "(string \<times> string) list option"

datatype query_envelope = Builder_Query builder_spec | Builder_Formula formula_spec

subsection \<open>Choices between optional values\<close>

text \<open>\<open>a || b\<close> and \<open>a ?? b\<close> on optional texts, and \<open>a || b\<close> on optional numbers with a falsy default.\<close>

definition or_text :: "string option \<Rightarrow> string option \<Rightarrow> string option" where
  "or_text a b = (if truthy_str a then a else b)"

definition coalesce :: "'a option \<Rightarrow> 'a option \<Rightarrow> 'a option" where
  "coalesce a b = (case a of Some x \<Rightarrow> Some x | None \<Rightarrow> b)"

definition truthy_or :: "int option \<Rightarrow> int option \<Rightarrow> int option" where
  "truthy_or a b = (if truthy_num a then a else b)"

definition mapPanelTypeToRequestType :: "panel_type \<Rightarrow> request_type" where
  "mapPanelTypeToRequestType panelType =
     (case panelType of
        P_TIME_SERIES \<Rightarrow> R_time_series
      | P_BAR \<Rightarrow> R_time_series
      | P_TABLE \<Rightarrow> R_scalar
      | P_PIE \<Rightarrow> R_scalar
      | P_VALUE \<Rightarrow> R_scalar
      | P_TRACE \<Rightarrow> R_trace
      | P_LIST \<Rightarrow> R_raw
      | P_HISTOGRAM \<Rightarrow> R_distribution
      | P_EMPTY_WIDGET \<Rightarrow> R_none)"

definition getFilter :: "builder_query \<Rightarrow> string" where
  "getFilter q =
     (let own = str_or (bq_filter q) '''' in
      case bq_filters q of
        None \<Rightarrow> own
      | Some filters \<Rightarrow>
          (if tg_items filters = [] then own
           else
             (let normalizedFilters = filters\<lparr>tg_items := deduplicateEquivalentFilterItems (tg_items filters)\<rparr>;
                  generated = convertFiltersToExpression normalizedFilters False;
                  qualified = convertFiltersToExpression normalizedFilters (bq_dataSource q \<noteq> METRICS)
              in if length (tg_items normalizedFilters) \<noteq> length (tg_items filters) then qualified
                 else if \<not> truthy_str (bq_filter q) \<or> bq_filter q = Some generated then qualified
                 else own)))"

subsection \<open>The common part of a specification\<close>

definition normalizeFunctionName :: "string \<Rightarrow> string" where
  "normalizeFunctionName functionName =
     (case map_of [(''timeshift'', ''timeShift''), (''cutoffmin'', ''cutOffMin''),
        (''cutoffmax'', ''cutOffMax''), (''clampmin'', ''clampMin''), (''clampmax'', ''clampMax''),
        (''absolut'', ''absolute''), (''runningdiff'', ''runningDiff''), (''log2'', ''log2''),
        (''log10'', ''log10''), (''cumulativesum'', ''cumulativeSum''), (''ewma3'', ''ewma3''),
        (''ewma5'', ''ewma5''), (''ewma7'', ''ewma7''), (''median3'', ''median3''),
        (''median5'', ''median5''), (''median7'', ''median7''), (''anomaly'', ''anomaly''),
        (''fillzero'', ''fillZero'')] (to_lower functionName) of
        Some n \<Rightarrow> n | None \<Rightarrow> functionName)"

definition v5_function_of :: "query_function \<Rightarrow> v5_function" where
  "v5_function_of f =
     \<lparr>vf_name = normalizeFunctionName (qf_name f),
      vf_args =
        (case qf_namedArgs f of
           Some (a # as) \<Rightarrow> Some (map (\<lambda>(n, v). \<lparr>fa_name = Some n, fa_value = v\<rparr>) (object_entries (a # as)))
         | _ \<Rightarrow> map_option (map (\<lambda>a. \<lparr>fa_name = None, fa_value = fa_value a\<rparr>)) (qf_args f))\<rparr>"

definition named_column :: "select_column \<Rightarrow> bool" where
  "named_column c = (if sc_key c \<noteq> None then truthy_str (sc_key c) else truthy_str (sc_name c))"

definition select_field :: "select_column \<Rightarrow> telemetry_key" where
  "select_field c =
     (let fieldName = coalesce (sc_name c) (sc_key c) in
      \<lparr>tk_name = fieldName,
       tk_fieldDataType = coalesce (sc_fieldDataType c) (sc_dataType c),
       tk_signal = sc_signal c,
       tk_fieldContext = (if fieldName \<noteq> Some ''name'' then coalesce (sc_fieldContext c) (sc_type c) else None)\<rparr>)"

definition group_by_key_of :: "autocomplete_data \<Rightarrow> group_by_key" where
  "group_by_key_of k =
     \<lparr>gk_name = ac_key k,
      gk_fieldDataType = (case ac_dataType k of Some d \<Rightarrow> data_type_text d | None \<Rightarrow> ''''),
      gk_fieldContext = (case ac_type k of Some t \<Rightarrow> t | None \<Rightarrow> '''')\<rparr>"

definition order_of :: "order_by \<Rightarrow> string \<times> string" where
  "order_of order = (ob_columnName order, ob_order order)"

definition empty_having :: "having_clause \<Rightarrow> bool" where
  "empty_having h = (case h of Having_Items hs \<Rightarrow> hs = [] | Having_Expression _ \<Rightarrow> False)"

definition createBaseSpec :: "builder_query \<Rightarrow> request_type \<Rightarrow> panel_type option \<Rightarrow> base_spec" where
  "createBaseSpec q requestType panelType =
     (let columns = (case bq_selectColumns q of Some cs \<Rightarrow> filter named_column cs | None \<Rightarrow> []) in
      \<lparr>bs_stepInterval = truthy_or (bq_stepInterval q) (if requestType = R_time_series then Some 60 else None),
       bs_disabled = bq_disabled q,
       bs_filter = getFilter q,
       bs_groupBy =
         (if requestType \<noteq> R_raw \<and> requestType \<noteq> R_trace \<and> bq_groupBy q \<noteq> []
          then Some (map group_by_key_of (bq_groupBy q)) else None),
       bs_limit =
         (if requestType = R_time_series then None
          else if panelType = Some P_TABLE \<or> panelType = Some P_LIST
          then truthy_or (bq_limit q) (truthy_or (bq_pageSize q) None)
          else truthy_or (bq_limit q) None),
       bs_offset = (if requestType = R_raw \<or> requestType = R_trace then bq_offset q else None),
       bs_order = (if bq_orderBy q \<noteq> [] then Some (map order_of (bq_orderBy q)) else None),
       bs_legend = (if bq_legend q = '''' then None else Some (bq_legend q)),
       bs_having = (if empty_having (bq_having q) then None else Some (bq_having q)),
       bs_functions = (if bq_functions q = [] then None else Some (map v5_function_of (bq_functions q))),
       bs_selectFields =
         (if requestType \<noteq> R_raw \<or> columns = [] then None else Some (map select_field columns))\<rparr>)"

subsection \<open>Aggregations\<close>

text \<open>The length of a match of \<open>/[a-zA-Z0-9_]+\([^)]*\)/\<close> at the head of a text; 0 for none.\<close>

definition call_length :: "string \<Rightarrow> nat" where
  "call_length s =
     (let w = run_length is_word_char s; r = drop w s; body = run_length (\<lambda>c. c \<noteq> CHR '')'') (drop 1 r)
      in if 0 < w \<and> r \<noteq> [] \<and> hd r = CHR ''('' \<and> drop (1 + body) r \<noteq> [] then w + 1 + body + 1 else 0)"

definition quoted_length :: "char \<Rightarrow> string \<Rightarrow> nat" where
  "quoted_length q s =
     (case s of
        [] \<Rightarrow> 0
      | c # r \<Rightarrow>
          (let body = run_length (\<lambda>d. d \<noteq> q) r
           in if c = q \<and> drop body r \<noteq> [] then 1 + body + 1 else 0))"

definition alias_char :: "char \<Rightarrow> bool" where
  "alias_char c \<longleftrightarrow> is_word_char c \<or> c = CHR ''-''"

text \<open>\<open>'[^']*'|"[^"]*"|[a-zA-Z0-9_-]+\<close>\<close>

definition alias_length :: "string \<Rightarrow> nat" where
  "alias_length s =
     (if 0 < quoted_length (CHR 0x27) s then quoted_length (CHR 0x27) s
      else if 0 < quoted_length (CHR 0x22) s then quoted_length (CHR 0x22) s
      else run_length alias_char s)"

text \<open>The optional \<open>\s*as\s+\<close> with the alias: its length and the alias.\<close>

definition alias_part :: "string \<Rightarrow> (nat \<times> string) option" where
  "alias_part s =
     (let a = run_length js_ws s; r = drop a s; b = run_length js_ws (drop 2 r); t = drop (2 + b) r;
          n = alias_length t
      in if take 2 r = ''as'' \<and> 0 < b \<and> 0 < n then Some (a + 2 + b + n, take n t) else None)"

definition quote_mark :: "char \<Rightarrow> bool" where
  "quote_mark c \<longleftrightarrow> c = CHR 0x27 \<or> c = CHR 0x22"

text \<open>\<open>alias.replace(/^['"]|['"]$/g, '')\<close>\<close>

definition strip_quotes :: "string \<Rightarrow> string" where
  "strip_quotes s =
     (let t = (if s \<noteq> [] \<and> quote_mark (hd s) then tl s else s)
      in if t \<noteq> [] \<and> quote_mark (last t) then butlast t else t)"

definition parsed_aggregation :: "string \<Rightarrow> string option \<Rightarrow> v5_aggregation" where
  "parsed_aggregation expr alias =
     Expression_Aggregation expr (if truthy_str alias then map_option strip_quotes alias else None)"

lemma call_length_le: "call_length s \<le> length s"
proof -
  define w where "w = run_length is_word_char s"
  define body where "body = run_length (\<lambda>c. c \<noteq> CHR '')'') (drop 1 (drop w s))"
  have "w \<le> length s" by (simp add: w_def length_takeWhile_le)
  moreover have "w + 1 + body + 1 \<le> length s" if "drop (1 + body) (drop w s) \<noteq> []"
    using that by (cases "w + (1 + body) < length s") auto
  ultimately show ?thesis by (auto simp: call_length_def Let_def w_def body_def)
qed

lemma alias_length_le: "alias_length s \<le> length s"
proof -
  have "quoted_length q s \<le> length s" for q
  proof (cases s)
    case (Cons c r)
    have "1 + run_length (\<lambda>d. d \<noteq> q) r \<le> length r" if "drop (run_length (\<lambda>d. d \<noteq> q) r) r \<noteq> []"
      using that by (cases "run_length (\<lambda>d. d \<noteq> q) r < length r") auto
    then show ?thesis by (auto simp: quoted_length_def Cons Let_def)
  qed (simp add: quoted_length_def)
  then show ?thesis by (auto simp: alias_length_def length_takeWhile_le)
qed

function parse_aggregations_from :: "string \<Rightarrow> string option \<Rightarrow> v5_aggregation list" where
  "parse_aggregations_from s availableAlias =
     (if s = [] then []
      else
        (let n = call_length s in
         if n = 0 then parse_aggregations_from (tl s) availableAlias
         else
           (case alias_part (drop n s) of
              None \<Rightarrow> parsed_aggregation (take n s) availableAlias # parse_aggregations_from (drop n s) availableAlias
            | Some (k, alias) \<Rightarrow>
                parsed_aggregation (take n s) (or_text (Some alias) availableAlias) #
                parse_aggregations_from (drop (n + k) s) availableAlias)))"
  by pat_completeness auto
termination
  by (relation "measure (\<lambda>(s, a). length s)") auto

declare parse_aggregations_from.simps [simp del]

definition parseAggregations :: "string \<Rightarrow> string option \<Rightarrow> v5_aggregation list" where
  "parseAggregations expression availableAlias = parse_aggregations_from expression availableAlias"

definition first_aggregation :: "(aggregation_item \<Rightarrow> string option) \<Rightarrow> builder_query \<Rightarrow> string option" where
  "first_aggregation f q = (case bq_aggregations q of a # _ \<Rightarrow> f a | [] \<Rightarrow> None)"

definition reduces :: "panel_type option \<Rightarrow> bool" where
  "reduces panelType \<longleftrightarrow> panelType \<in> {Some P_TABLE, Some P_PIE, Some P_VALUE}"

definition metric_aggregation_of :: "builder_query \<Rightarrow> panel_type option \<Rightarrow> metric_aggregation" where
  "metric_aggregation_of q panelType =
     (let explicitHistogram =
            (case bq_aggregateAttribute q of
               Some a \<Rightarrow> (case ac_type a of Some t \<Rightarrow> to_lower t = ''histogram'' | None \<Rightarrow> False)
             | None \<Rightarrow> False);
          nested = first_aggregation ai_timeAggregation q;
          timeAggregation = (if explicitHistogram then coalesce nested (bq_timeAggregation q)
                             else or_text nested (bq_timeAggregation q));
          spaceAggregation = or_text (first_aggregation ai_spaceAggregation q) (bq_spaceAggregation q);
          percentile = (spaceAggregation \<in> set [Some ''p50'', Some ''p90'', Some ''p95'', Some ''p99''])
      in \<lparr>ma_metricName = or_text (first_aggregation ai_metricName q) (map_option ac_key (bq_aggregateAttribute q)),
          ma_temporality = or_text (first_aggregation ai_temporality q) (bq_attributeTemporality q),
          ma_timeAggregation =
            (if explicitHistogram \<and> percentile \<and> (\<not> truthy_str timeAggregation \<or> timeAggregation = Some ''noop'')
             then Some ''count'' else timeAggregation),
          ma_spaceAggregation = spaceAggregation,
          ma_reduceTo = (if reduces panelType then or_text (first_aggregation ai_reduceTo q) (bq_reduceTo q)
                         else None)\<rparr>)"

definition count_aggregation :: v5_aggregation where
  "count_aggregation = Expression_Aggregation ''count()'' None"

definition createAggregation :: "builder_query \<Rightarrow> panel_type option \<Rightarrow> v5_aggregation list" where
  "createAggregation q panelType =
     (if bq_dataSource q = METRICS then [Metric_Aggregation (metric_aggregation_of q panelType)]
      else if bq_aggregations q \<noteq> [] then
        concat (map (\<lambda>a. let parsed = parseAggregations (ai_expression a) (ai_alias a)
                         in if parsed = [] then [count_aggregation] else parsed) (bq_aggregations q))
      else [count_aggregation])"

text \<open>The labels of \<open>getQueryLabelWithAggregation\<close> for the queries of the builder.\<close>

definition aggregation_expression :: "v5_aggregation \<Rightarrow> string option" where
  "aggregation_expression a = (case a of Expression_Aggregation e _ \<Rightarrow> Some e | Metric_Aggregation _ \<Rightarrow> None)"

definition labelled_query_of :: "builder_query \<Rightarrow> labelled_query" where
  "labelled_query_of q =
     \<lparr>lq_queryName = bq_queryName q,
      lq_aggregations =
        (if bq_aggregations q = [] then [] else map aggregation_expression (createAggregation q None))\<rparr>"

subsection \<open>Envelopes\<close>

definition builder_spec_of ::
  "request_type \<Rightarrow> panel_type option \<Rightarrow> string \<times> builder_query \<Rightarrow> builder_spec" where
  "builder_spec_of requestType panelType entry =
     (let (queryName, q) = entry in
      \<lparr>sp_name = queryName,
       sp_signal = bq_dataSource q,
       sp_source = (if bq_dataSource q = METRICS then Some (bq_source q) else None),
       sp_base = createBaseSpec q requestType panelType,
       sp_aggregations = (if requestType = R_raw then None else Some (createAggregation q panelType))\<rparr>)"

definition convertBuilderQueriesToV5 ::
  "(string \<times> builder_query) list \<Rightarrow> request_type \<Rightarrow> panel_type option \<Rightarrow> query_envelope list" where
  "convertBuilderQueriesToV5 builderQueries requestType panelType =
     map (\<lambda>e. Builder_Query (builder_spec_of requestType panelType e)) (object_entries builderQueries)"

definition formula_envelope :: "string \<times> formula_query \<Rightarrow> query_envelope" where
  "formula_envelope entry =
     (let (queryName, f) = entry in
      Builder_Formula
        \<lparr>fs_name = queryName, fs_expression = fq_expression f, fs_disabled = fq_disabled f,
         fs_limit = fq_limit f, fs_legend = (if fq_legend f = '''' then None else Some (fq_legend f)),
         fs_order = map_option (map order_of) (fq_orderBy f)\<rparr>)"

subsection \<open>The request\<close>

record table_params =
  tp_pagination :: "(int \<times> int) option"
  tp_selectColumns :: "select_column list option"

text \<open>\<open>mapQueryDataToApi\<close>: the pagination is the pair of offset and limit.\<close>

definition with_table_params :: "table_params option \<Rightarrow> builder_query \<Rightarrow> builder_query" where
  "with_table_params params q =
     (case params of
        None \<Rightarrow> q
      | Some p \<Rightarrow>
          (let q' = (case tp_pagination p of
                       Some (ofs, lim) \<Rightarrow> q\<lparr>bq_offset := Some ofs, bq_limit := Some lim\<rparr> | None \<Rightarrow> q)
           in case tp_selectColumns p of Some cs \<Rightarrow> q'\<lparr>bq_selectColumns := Some cs\<rparr> | None \<Rightarrow> q'))"

definition mapQueryDataToApi ::
  "('q \<Rightarrow> string) \<Rightarrow> ('q \<Rightarrow> string) \<Rightarrow> ('q \<Rightarrow> 'q) \<Rightarrow> 'q list \<Rightarrow> (string \<times> 'q) list \<times> (string \<times> string) list" where
  "mapQueryDataToApi name legend params qs =
     (fold (\<lambda>q m. map_set (name q) (params q) m) qs [],
      fold (\<lambda>q m. map_set (name q) (legend q) m) qs [])"

record 'v query_results_props =
  rp_builder :: "(builder_query list \<times> formula_query list) option"
  rp_graphType :: panel_type
  rp_tableParams :: "table_params option"
  rp_variables :: "(string \<times> 'v) list"
  rp_start :: "int option"
  rp_end :: "int option"
  rp_formatForWeb :: bool
  rp_originalGraphType :: "panel_type option"
  rp_fillGaps :: bool

record 'v query_payload =
  pl_schemaVersion :: string
  pl_start :: int
  pl_end :: int
  pl_requestType :: request_type
  pl_queries :: "query_envelope list"
  pl_formatTableResultForUI :: bool
  pl_fillGaps :: bool
  pl_variables :: "(string \<times> 'v) list"

text \<open>
  \<open>prepareQueryRangePayloadV5\<close>: the legends and the payload. \<open>rp_builder\<close> is the builder of a
  query of type \<open>builder\<close>, and \<open>bounds\<close> the start and end in seconds of \<open>getStartEndRangeTime\<close>.
\<close>

definition payload_queries :: "'v query_results_props \<Rightarrow> query_envelope list \<times> (string \<times> string) list" where
  "payload_queries props =
     (case rp_builder props of
        None \<Rightarrow> ([], [])
      | Some (queryData, queryFormulas) \<Rightarrow>
          (let (queries, legends) = mapQueryDataToApi bq_queryName bq_legend
                 (with_table_params (rp_tableParams props)) queryData;
               (formulas, formulaLegends) = mapQueryDataToApi fq_queryName fq_legend id
                 (filter (\<lambda>f. js_trim (fq_expression f) \<noteq> '''') queryFormulas)
           in (convertBuilderQueriesToV5 queries (mapPanelTypeToRequestType (rp_graphType props))
                 (Some (rp_graphType props)) @
               map formula_envelope (object_entries formulas),
               fold (\<lambda>(k, v) m. map_set k v m) formulaLegends legends)))"

definition prepareQueryRangePayloadV5 ::
  "int \<times> int \<Rightarrow> 'v query_results_props \<Rightarrow> 'v query_payload \<times> (string \<times> string) list" where
  "prepareQueryRangePayloadV5 bounds props =
     (let (queries, legendMap) = payload_queries props in
      (\<lparr>pl_schemaVersion = ''v1'',
        pl_start = (case rp_start props of Some s \<Rightarrow> (if s \<noteq> 0 then s else fst bounds) | None \<Rightarrow> fst bounds) * 1000,
        pl_end = (case rp_end props of Some e \<Rightarrow> (if e \<noteq> 0 then e else snd bounds) | None \<Rightarrow> snd bounds) * 1000,
        pl_requestType = mapPanelTypeToRequestType (rp_graphType props),
        pl_queries = queries,
        pl_formatTableResultForUI =
          (rp_formatForWeb props \<or>
           (case rp_originalGraphType props of Some g \<Rightarrow> g = P_TABLE | None \<Rightarrow> rp_graphType props = P_TABLE)),
        pl_fillGaps = rp_fillGaps props,
        pl_variables = rp_variables props\<rparr>,
       legendMap))"

subsection \<open>The envelope of an alert's query\<close>

datatype builder_item = Data_Item builder_query | Formula_Item formula_query

record composite_query =
  cq_queryType :: string
  cq_panelType :: panel_type
  cq_resultUnit :: "string option"
  cq_displayUnit :: "string option"
  cq_queries :: "query_envelope list"

definition data_items :: "(string \<times> builder_item) list \<Rightarrow> (string \<times> builder_query) list" where
  "data_items items = concat (map (\<lambda>(k, i). case i of Data_Item q \<Rightarrow> [(k, q)] | Formula_Item _ \<Rightarrow> []) items)"

definition formula_items :: "(string \<times> builder_item) list \<Rightarrow> (string \<times> formula_query) list" where
  "formula_items items = concat (map (\<lambda>(k, i). case i of Formula_Item f \<Rightarrow> [(k, f)] | Data_Item _ \<Rightarrow> []) items)"

definition convertFormulasToV5 :: "(string \<times> formula_query) list \<Rightarrow> query_envelope list" where
  "convertFormulasToV5 formulas =
     map (\<lambda>(k, f). Builder_Formula
       \<lparr>fs_name = k, fs_expression = fq_expression f, fs_disabled = fq_disabled f,
        fs_limit = fq_limit f, fs_legend = Some (fq_legend f),
        fs_order = map_option (map order_of) (fq_orderBy f)\<rparr>)
       (filter (\<lambda>(k, f). js_trim (fq_expression f) \<noteq> '''') (object_entries formulas))"

definition compositeQueryToQueryEnvelope ::
  "(string \<times> builder_item) list \<Rightarrow> string \<Rightarrow> panel_type \<Rightarrow>
     string option \<Rightarrow> string option \<Rightarrow> string option \<Rightarrow> composite_query" where
  "compositeQueryToQueryEnvelope builderQueries queryType panelType unit resultUnit displayUnit =
     (let entries = object_entries builderQueries in
      \<lparr>cq_queryType = queryType,
       cq_panelType = panelType,
       cq_resultUnit = coalesce resultUnit unit,
       cq_displayUnit = coalesce displayUnit (coalesce resultUnit unit),
       cq_queries =
         convertBuilderQueriesToV5 (data_items entries) (mapPanelTypeToRequestType panelType) (Some panelType) @
         convertFormulasToV5 (formula_items entries)\<rparr>)"

subsection \<open>What the request holds\<close>

text \<open>The keys of an object's entries are the keys it was given, each once.\<close>

lemma object_entries_set: "set (object_entries m) = set m"
  by (auto simp: object_entries_def)

lemma object_entries_distinct: "distinct (map fst m) \<Longrightarrow> distinct (map fst (object_entries m))"
proof -
  assume d: "distinct (map fst m)"
  have inj: "inj_on fst (set m)" and dm: "distinct m" using d by (simp_all add: distinct_map)
  have "distinct (object_entries m)" using dm by (auto simp: object_entries_def)
  then show ?thesis using inj by (simp add: distinct_map object_entries_set)
qed

lemma fold_map_set_keys:
  "fst ` set (fold (\<lambda>q m. map_set (name q) (f q) m) qs m) = fst ` set m \<union> name ` set qs"
  by (induction qs arbitrary: m) (auto simp: dom_map_set)

lemma fold_map_set_distinct:
  "distinct (map fst m) \<Longrightarrow> distinct (map fst (fold (\<lambda>q m. map_set (name q) (f q) m) qs m))"
  by (induction qs arbitrary: m) (auto simp: distinct_map_set)

lemma map_set_mem: "(k', v') \<in> set (map_set k v m) \<Longrightarrow> (k', v') = (k, v) \<or> (k', v') \<in> set m"
  by (induction k v m rule: map_set.induct) (auto split: if_splits)

lemma fold_map_set_mem:
  "(k, v) \<in> set (fold (\<lambda>q m. map_set (name q) (f q) m) qs m) \<Longrightarrow>
     (k, v) \<in> set m \<or> (\<exists>q\<in>set qs. k = name q \<and> v = f q)"
proof (induction qs arbitrary: m)
  case (Cons q qs)
  from Cons.IH [of "map_set (name q) (f q) m"] Cons.prems show ?case
    by (auto dest: map_set_mem)
qed simp

definition envelope_names :: "query_envelope list \<Rightarrow> string list" where
  "envelope_names es = concat (map (\<lambda>e. case e of Builder_Query s \<Rightarrow> [sp_name s] | Builder_Formula _ \<Rightarrow> []) es)"

definition formula_names :: "query_envelope list \<Rightarrow> string list" where
  "formula_names es = concat (map (\<lambda>e. case e of Builder_Formula s \<Rightarrow> [fs_name s] | Builder_Query _ \<Rightarrow> []) es)"

lemma envelope_names_append [simp]:
  "envelope_names (a @ b) = envelope_names a @ envelope_names b"
  "formula_names (a @ b) = formula_names a @ formula_names b"
  by (simp_all add: envelope_names_def formula_names_def)

lemma names_of_builders [simp]:
  "envelope_names (convertBuilderQueriesToV5 m r p) = map fst (object_entries m)"
  "formula_names (convertBuilderQueriesToV5 m r p) = []"
proof -
  have "map (\<lambda>e. sp_name (builder_spec_of r p e)) es = map fst es" for es
    by (auto simp: builder_spec_of_def split: prod.splits)
  moreover have "concat (map (\<lambda>x. [f x]) xs) = map f xs" for f and xs :: "(string \<times> builder_query) list"
    by (induction xs) auto
  ultimately show "envelope_names (convertBuilderQueriesToV5 m r p) = map fst (object_entries m)"
    by (simp add: envelope_names_def convertBuilderQueriesToV5_def comp_def)
  show "formula_names (convertBuilderQueriesToV5 m r p) = []"
    by (simp add: formula_names_def convertBuilderQueriesToV5_def comp_def)
qed

lemma names_of_formulas [simp]:
  "formula_names (map formula_envelope es) = map fst es" "envelope_names (map formula_envelope es) = []"
  by (induction es) (auto simp: formula_names_def envelope_names_def formula_envelope_def)

text \<open>
  The request holds one envelope for every name of a data query and one for every name of a
  formula with an expression, and nothing else; a formula row without an expression, which the
  backend would reject, is never sent.
\<close>

theorem request_holds_each_query:
  assumes "rp_builder props = Some (queryData, queryFormulas)"
  shows "(let es = pl_queries (fst (prepareQueryRangePayloadV5 bounds props));
              written = filter (\<lambda>f. js_trim (fq_expression f) \<noteq> '''') queryFormulas
          in distinct (envelope_names es) \<and> set (envelope_names es) = bq_queryName ` set queryData \<and>
             distinct (formula_names es) \<and> set (formula_names es) = fq_queryName ` set written \<and>
             (\<forall>s. Builder_Formula s \<in> set es \<longrightarrow> js_trim (fs_expression s) \<noteq> ''''))"
proof -
  let ?written = "filter (\<lambda>f. js_trim (fq_expression f) \<noteq> '''') queryFormulas"
  let ?q = "fold (\<lambda>q m. map_set (bq_queryName q) (with_table_params (rp_tableParams props) q) m) queryData []"
  let ?f = "fold (\<lambda>q m. map_set (fq_queryName q) (id q) m) ?written []"
  have es: "pl_queries (fst (prepareQueryRangePayloadV5 bounds props)) =
      convertBuilderQueriesToV5 ?q (mapPanelTypeToRequestType (rp_graphType props)) (Some (rp_graphType props)) @
      map formula_envelope (object_entries ?f)"
    using assms by (simp add: prepareQueryRangePayloadV5_def payload_queries_def mapQueryDataToApi_def Let_def)
  have "js_trim (fs_expression s) \<noteq> ''''" if "Builder_Formula s \<in> set (map formula_envelope (object_entries ?f))" for s
  proof -
    from that obtain k f where f: "(k, f) \<in> set ?f" "fs_expression s = fq_expression f"
      by (auto simp: formula_envelope_def object_entries_set)
    from fold_map_set_mem [OF f(1)] have "f \<in> set ?written" by auto
    with f(2) show ?thesis by simp
  qed
  moreover have "distinct (map fst ?q)" "distinct (map fst ?f)" by (simp_all add: fold_map_set_distinct)
  moreover have "fst ` set (object_entries ?q) = bq_queryName ` set queryData"
    "fst ` set (object_entries ?f) = fq_queryName ` set ?written"
    by (simp_all only: object_entries_set fold_map_set_keys) simp_all
  moreover have "Builder_Formula s \<notin> set (convertBuilderQueriesToV5 m r p)" for s m r p
    by (auto simp: convertBuilderQueriesToV5_def)
  ultimately show ?thesis
    unfolding es Let_def
    by (simp del: set_filter fold_map_set_keys add: object_entries_distinct)
qed

definition sample_query :: builder_query where
  "sample_query =
     \<lparr>bq_queryName = ''A'', bq_dataSource = LOGS, bq_aggregateAttribute = None, bq_attributeTemporality = None,
      bq_aggregations = [], bq_timeAggregation = None, bq_spaceAggregation = None, bq_functions = [],
      bq_filter = Some ''a = 1'', bq_filters = None, bq_groupBy = [], bq_disabled = False,
      bq_having = Having_Items [], bq_limit = Some 0, bq_stepInterval = None, bq_orderBy = [], bq_reduceTo = None,
      bq_legend = '''', bq_pageSize = None, bq_offset = None, bq_selectColumns = None, bq_source = ''''\<rparr>"

definition sample_formula :: "string \<Rightarrow> string \<Rightarrow> formula_query" where
  "sample_formula n e =
     \<lparr>fq_queryName = n, fq_expression = e, fq_disabled = False, fq_legend = '''', fq_limit = None, fq_orderBy = None\<rparr>"

definition sample_props :: "unit query_results_props" where
  "sample_props =
     \<lparr>rp_builder = Some ([sample_query], [sample_formula ''F1'' ''A * 2'', sample_formula ''F2'' '' '']),
      rp_graphType = P_TIME_SERIES, rp_tableParams = None, rp_variables = [], rp_start = None, rp_end = None,
      rp_formatForWeb = False, rp_originalGraphType = None, rp_fillGaps = False\<rparr>"

theorem request_holds_each_query_witness:
  "(let es = pl_queries (fst (prepareQueryRangePayloadV5 (0, 60) sample_props))
    in set (envelope_names es) = {''A''} \<and> set (formula_names es) = {''F1''})"
proof -
  have "rp_builder sample_props = Some ([sample_query], [sample_formula ''F1'' ''A * 2'', sample_formula ''F2'' '' ''])"
    by (simp add: sample_props_def)
  from request_holds_each_query [OF this, of "(0, 60)"] show ?thesis
    by (simp add: Let_def sample_query_def sample_formula_def js_trim_def js_ws_def)
qed

subsection \<open>The shape of a specification\<close>

text \<open>
  C34. Every data query of a request has the shape its request type asks for: a time series carries a
  step interval other than zero and no limit, a raw or trace request never groups, a raw request has
  no aggregations, every other request has at least one, and only a raw request selects fields. A list
  that is present is never empty and a limit that is present is never zero.
\<close>

definition some_nonempty :: "'a list option \<Rightarrow> bool" where
  "some_nonempty l = (case l of None \<Rightarrow> True | Some xs \<Rightarrow> xs \<noteq> [])"

definition spec_shape :: "request_type \<Rightarrow> builder_spec \<Rightarrow> bool" where
  "spec_shape r s \<longleftrightarrow>
     (let b = sp_base s in
      (r = R_time_series \<longrightarrow> truthy_num (bs_stepInterval b) \<and> bs_limit b = None) \<and>
      (bs_limit b \<noteq> None \<longrightarrow> truthy_num (bs_limit b)) \<and>
      (bs_stepInterval b \<noteq> None \<longrightarrow> truthy_num (bs_stepInterval b)) \<and>
      (r \<in> {R_raw, R_trace} \<longrightarrow> bs_groupBy b = None) \<and>
      (r \<notin> {R_raw, R_trace} \<longrightarrow> bs_offset b = None) \<and>
      (sp_aggregations s = None \<longleftrightarrow> r = R_raw) \<and>
      (bs_selectFields b \<noteq> None \<longrightarrow> r = R_raw) \<and>
      some_nonempty (sp_aggregations s) \<and> some_nonempty (bs_groupBy b) \<and> some_nonempty (bs_order b) \<and>
      some_nonempty (bs_functions b) \<and> some_nonempty (bs_selectFields b))"

lemma truthy_or_num: "truthy_or a b \<noteq> None \<Longrightarrow> (b \<noteq> None \<Longrightarrow> truthy_num b) \<Longrightarrow> truthy_num (truthy_or a b)"
  by (auto simp: truthy_or_def)

lemma createAggregation_nonempty: "createAggregation q p \<noteq> []"
proof -
  have "concat (map (\<lambda>a. let parsed = f a in if parsed = [] then [c] else parsed) (x # xs)) \<noteq> []"
    for f :: "aggregation_item \<Rightarrow> v5_aggregation list" and c x xs
    by (simp add: Let_def)
  then show ?thesis
    by (cases "bq_aggregations q") (simp_all add: createAggregation_def)
qed

lemma base_spec_step:
  "bs_stepInterval (createBaseSpec q r p) = Some n \<Longrightarrow> truthy_num (Some n)"
  "truthy_num (bs_stepInterval (createBaseSpec q R_time_series p))"
  by (auto simp: createBaseSpec_def Let_def truthy_or_def truthy_num_def split: if_splits)

lemma base_spec_limit:
  "bs_limit (createBaseSpec q r p) = Some n \<Longrightarrow> truthy_num (Some n)"
  "bs_limit (createBaseSpec q R_time_series p) = None"
  by (auto simp: createBaseSpec_def Let_def truthy_or_def truthy_num_def split: if_splits)

lemma base_spec_lists:
  "r \<in> {R_raw, R_trace} \<Longrightarrow> bs_groupBy (createBaseSpec q r p) = None"
  "r \<notin> {R_raw, R_trace} \<Longrightarrow> bs_offset (createBaseSpec q r p) = None"
  "bs_selectFields (createBaseSpec q r p) = Some fs \<Longrightarrow> r = R_raw"
  "some_nonempty (bs_groupBy (createBaseSpec q r p))"
  "some_nonempty (bs_order (createBaseSpec q r p))"
  "some_nonempty (bs_functions (createBaseSpec q r p))"
  "some_nonempty (bs_selectFields (createBaseSpec q r p))"
  by (auto simp: createBaseSpec_def Let_def some_nonempty_def split: if_splits)

lemma builder_spec_shape: "spec_shape r (builder_spec_of r p e)"
proof (cases e)
  case (Pair k q)
  have agg: "sp_aggregations (builder_spec_of r p e) = None \<longleftrightarrow> r = R_raw"
    "some_nonempty (sp_aggregations (builder_spec_of r p e))"
    by (simp_all add: builder_spec_of_def Pair createAggregation_nonempty some_nonempty_def)
  have base: "sp_base (builder_spec_of r p e) = createBaseSpec q r p"
    by (simp add: builder_spec_of_def Pair)
  show ?thesis
    unfolding spec_shape_def Let_def base
    using agg base_spec_step base_spec_limit base_spec_lists by auto
qed

theorem request_shape:
  "Builder_Query s \<in> set (convertBuilderQueriesToV5 queries r p) \<Longrightarrow> spec_shape r s"
  by (auto simp: convertBuilderQueriesToV5_def builder_spec_shape)

theorem request_shape_witness:
  "spec_shape R_time_series (builder_spec_of R_time_series None (''A'', sample_query))"
proof -
  have "Builder_Query (builder_spec_of R_time_series None (''A'', sample_query)) \<in>
          set (convertBuilderQueriesToV5 [(''A'', sample_query)] R_time_series None)"
    by (simp add: convertBuilderQueriesToV5_def object_entries_set)
  from request_shape [OF this] show ?thesis .
qed

subsection \<open>The panel and the alert send the same queries\<close>

text \<open>\<open>mapCompositeQueryFromQuery\<close>: \<open>{...data, ...formulas}\<close> is one object.\<close>

definition builder_items :: "builder_query list \<Rightarrow> formula_query list \<Rightarrow> (string \<times> builder_item) list" where
  "builder_items queryData queryFormulas =
     fold (\<lambda>(k, f) m. map_set k (Formula_Item f) m) (fst (mapQueryDataToApi fq_queryName fq_legend id queryFormulas))
       (map (\<lambda>(k, q). (k, Data_Item q)) (fst (mapQueryDataToApi bq_queryName bq_legend id queryData)))"

definition mapCompositeQueryFromQuery ::
  "string \<Rightarrow> builder_query list \<times> formula_query list \<Rightarrow> panel_type option \<Rightarrow> composite_query" where
  "mapCompositeQueryFromQuery queryType builder panelType =
     compositeQueryToQueryEnvelope
       (if queryType = ''builder'' then builder_items (fst builder) (snd builder) else [])
       queryType (case panelType of Some p \<Rightarrow> p | None \<Rightarrow> P_TIME_SERIES) None None None"

lemma data_items_append [simp]: "data_items (a @ b) = data_items a @ data_items b"
  by (simp add: data_items_def)

lemma data_items_of: "data_items (map (\<lambda>(k, q). (k, Data_Item q)) m) = m"
  by (induction m) (auto simp: data_items_def)

lemma data_items_set_formula:
  "k \<notin> fst ` set (data_items m) \<Longrightarrow> data_items (map_set k (Formula_Item f) m) = data_items m"
  by (induction m) (auto simp: data_items_def split: builder_item.splits)

lemma data_items_spread:
  "fst ` set fs \<inter> fst ` set (data_items m) = {} \<Longrightarrow>
     data_items (fold (\<lambda>(k, f) m. map_set k (Formula_Item f) m) fs m) = data_items m"
  by (induction fs arbitrary: m) (auto simp: data_items_set_formula split: prod.splits)

text \<open>Picking and changing the values of entries commutes with the order of the keys.\<close>

definition pick_items :: "(string \<Rightarrow> 'i \<Rightarrow> 'x option) \<Rightarrow> (string \<times> 'i) list \<Rightarrow> (string \<times> 'x) list" where
  "pick_items g m = concat (map (\<lambda>(k, i). case g k i of Some x \<Rightarrow> [(k, x)] | None \<Rightarrow> []) m)"

lemma pick_items_simps [simp]:
  "pick_items g [] = []"
  "pick_items g ((k, i) # m) = (case g k i of Some x \<Rightarrow> (k, x) # pick_items g m | None \<Rightarrow> pick_items g m)"
  "pick_items g (m @ n) = pick_items g m @ pick_items g n"
  by (simp_all add: pick_items_def split: option.splits)

lemma data_items_pick: "data_items = pick_items (\<lambda>k i. case i of Data_Item q \<Rightarrow> Some q | Formula_Item _ \<Rightarrow> None)"
proof
  show "data_items m = pick_items (\<lambda>k i. case i of Data_Item q \<Rightarrow> Some q | Formula_Item _ \<Rightarrow> None) m" for m
    by (induction m) (auto simp: data_items_def split: builder_item.splits)
qed

lemma formula_items_pick: "formula_items = pick_items (\<lambda>k i. case i of Formula_Item f \<Rightarrow> Some f | Data_Item _ \<Rightarrow> None)"
proof
  show "formula_items m = pick_items (\<lambda>k i. case i of Formula_Item f \<Rightarrow> Some f | Data_Item _ \<Rightarrow> None) m" for m
    by (induction m) (auto simp: formula_items_def split: builder_item.splits)
qed

lemma pick_items_mem: "(k, x) \<in> set (pick_items g m) \<Longrightarrow> \<exists>i. (k, i) \<in> set m \<and> g k i = Some x"
  by (auto simp: pick_items_def split: option.splits)

lemma pick_items_filter: "pick_items g (filter (\<lambda>e. P (fst e)) m) = filter (\<lambda>e. P (fst e)) (pick_items g m)"
  by (induction m) (auto split: option.splits)

lemma pick_items_insort:
  "sorted (map (\<lambda>e. f (fst e)) xs) \<Longrightarrow>
     pick_items g (insort_key (\<lambda>e. f (fst e)) (k, i) xs) =
       (case g k i of Some x \<Rightarrow> insort_key (\<lambda>e. f (fst e)) (k, x) (pick_items g xs) | None \<Rightarrow> pick_items g xs)"
proof (induction xs)
  case (Cons y xs)
  show ?case
  proof (cases "f k \<le> f (fst y)")
    case True
    have "\<forall>e\<in>set (pick_items g xs). f k \<le> f (fst e)"
      using Cons.prems True by (force dest: pick_items_mem)
    then have "insort_key (\<lambda>e. f (fst e)) (k, x) (pick_items g xs) = (k, x) # pick_items g xs" for x
      by (cases "pick_items g xs") auto
    with True show ?thesis by (cases y) (auto split: option.splits)
  next
    case False
    with Cons show ?thesis by (cases y) (auto split: option.splits)
  qed
qed (auto split: option.splits)

lemma pick_items_sort: "pick_items g (sort_key (\<lambda>e. f (fst e)) m) = sort_key (\<lambda>e. f (fst e)) (pick_items g m)"
proof (induction m)
  case (Cons y m)
  then show ?case
    by (cases y) (auto simp: pick_items_insort split: option.splits)
qed simp

lemma pick_items_entries: "pick_items g (object_entries m) = object_entries (pick_items g m)"
  by (simp add: object_entries_def pick_items_sort pick_items_filter [of g array_index]
      pick_items_filter [of g "\<lambda>k. \<not> array_index k"])

lemmas data_items_entries = pick_items_entries [of "\<lambda>k i. case i of Data_Item q \<Rightarrow> Some q | Formula_Item _ \<Rightarrow> None",
    folded data_items_pick]
lemmas formula_items_entries = pick_items_entries [of "\<lambda>k i. case i of Formula_Item f \<Rightarrow> Some f | Data_Item _ \<Rightarrow> None",
    folded formula_items_pick]

lemma object_entries_idem: "object_entries (object_entries m) = object_entries m"
proof -
  have "sort_key f (sort_key f xs) = sort_key f xs" for f :: "string \<times> 'a \<Rightarrow> 'b::linorder" and xs
    by (rule sort_key_id_if_sorted) simp
  then show ?thesis
    by (simp add: object_entries_def filter_sort filter_empty_conv)
qed

definition builder_envelopes :: "query_envelope list \<Rightarrow> query_envelope list" where
  "builder_envelopes es = filter (\<lambda>e. case e of Builder_Query _ \<Rightarrow> True | Builder_Formula _ \<Rightarrow> False) es"

text \<open>
  The two routes from the editor to the backend agree: for the same queries and panel, without
  table parameters and with no name shared by a query and a formula, the composite query of an alert
  holds the same data queries, in the same order, as the query-range request of a panel.
\<close>

theorem alert_and_panel_agree:
  assumes "rp_builder props = Some (queryData, queryFormulas)" and "rp_tableParams props = None"
    and "bq_queryName ` set queryData \<inter> fq_queryName ` set queryFormulas = {}"
  shows "builder_envelopes (cq_queries
            (mapCompositeQueryFromQuery ''builder'' (queryData, queryFormulas) (Some (rp_graphType props)))) =
         builder_envelopes (pl_queries (fst (prepareQueryRangePayloadV5 bounds props)))"
proof -
  have none: "builder_envelopes (map formula_envelope es) = []" "builder_envelopes (convertFormulasToV5 fs) = []" for es fs
    by (auto simp: builder_envelopes_def formula_envelope_def convertFormulasToV5_def filter_empty_conv)
  have app: "builder_envelopes (a @ b) = builder_envelopes a @ builder_envelopes b" for a b
    by (simp add: builder_envelopes_def)
  have idp: "with_table_params None = id" by (simp add: with_table_params_def fun_eq_iff)
  have spread: "data_items (fold (\<lambda>(k, f) m. map_set k (Formula_Item f) m)
      (fold (\<lambda>q m. map_set (fq_queryName q) (id q) m) queryFormulas [])
      (map (\<lambda>(k, q). (k, Data_Item q)) (fold (\<lambda>q m. map_set (bq_queryName q) (id q) m) queryData []))) =
      fold (\<lambda>q m. map_set (bq_queryName q) (id q) m) queryData []"
    using assms(3) by (subst data_items_spread) (auto simp: fold_map_set_keys data_items_of)
  show ?thesis
    using assms(1,2) spread
    by (simp add: mapCompositeQueryFromQuery_def builder_items_def compositeQueryToQueryEnvelope_def Let_def
        prepareQueryRangePayloadV5_def payload_queries_def mapQueryDataToApi_def app none idp
        data_items_entries convertBuilderQueriesToV5_def object_entries_idem id_def)
qed

theorem alert_and_panel_agree_witness:
  "builder_envelopes (cq_queries (mapCompositeQueryFromQuery ''builder''
      ([sample_query], [sample_formula ''F1'' ''A * 2'', sample_formula ''F2'' '' ''])
      (Some (rp_graphType sample_props)))) =
   builder_envelopes (pl_queries (fst (prepareQueryRangePayloadV5 (0, 60) sample_props)))"
  by (rule alert_and_panel_agree) (simp_all add: sample_props_def sample_query_def sample_formula_def)

subsection \<open>Reading a list of aggregations\<close>

text \<open>A call, its arguments and its alias, and how the editor writes a list of them.\<close>

fun render_aggregation :: "string \<times> string \<times> string option \<Rightarrow> string" where
  "render_aggregation (name, args, None) = name @ ''('' @ args @ '')''"
| "render_aggregation (name, args, Some alias) =
     name @ ''('' @ args @ '')'' @ '' as '' @ [CHR 0x27] @ alias @ [CHR 0x27]"

fun render_aggregations :: "(string \<times> string \<times> string option) list \<Rightarrow> string" where
  "render_aggregations [] = ''''"
| "render_aggregations [e] = render_aggregation e"
| "render_aggregations (e # es) = render_aggregation e @ '', '' @ render_aggregations es"

definition plain_aggregation :: "string \<times> string \<times> string option \<Rightarrow> bool" where
  "plain_aggregation e \<longleftrightarrow>
     (case e of (name, args, alias) \<Rightarrow>
        name \<noteq> [] \<and> list_all is_word_char name \<and> CHR '')'' \<notin> set args \<and>
        (case alias of None \<Rightarrow> True | Some a \<Rightarrow> CHR 0x27 \<notin> set a))"

definition read_aggregation :: "string option \<Rightarrow> string \<times> string \<times> string option \<Rightarrow> v5_aggregation" where
  "read_aggregation availableAlias e =
     (case e of
        (name, args, Some a) \<Rightarrow> Expression_Aggregation (name @ ''('' @ args @ '')'') (Some a)
      | (name, args, None) \<Rightarrow> parsed_aggregation (name @ ''('' @ args @ '')'') availableAlias)"

lemma run_length_append:
  "list_all P w \<Longrightarrow> r = [] \<or> \<not> P (hd r) \<Longrightarrow> run_length P (w @ r) = length w"
  by (cases r; induction w) auto

lemma call_length_call:
  assumes "name \<noteq> []" "list_all is_word_char name" "CHR '')'' \<notin> set args"
  shows "call_length (name @ ''('' @ args @ '')'' @ rest) = length (name @ ''('' @ args @ '')'')"
proof -
  have n: "run_length is_word_char (name @ ''('' @ args @ '')'' @ rest) = length name"
    using assms(2) by (rule run_length_append) (simp add: is_word_char_def is_alpha_def is_digit_def)
  have a: "run_length (\<lambda>c. c \<noteq> CHR '')'') (args @ '')'' @ rest) = length args"
    by (rule run_length_append) (use assms(3) in \<open>auto simp: list_all_iff\<close>)
  show ?thesis
    using assms(1) n a by (simp add: call_length_def Let_def)
qed

lemma call_length_separator: "call_length (CHR '','' # s) = 0" "call_length (CHR '' '' # s) = 0"
  by (simp_all add: call_length_def is_word_char_def is_alpha_def is_digit_def)

lemma alias_part_none: "alias_part [] = None" "alias_part ('', '' @ s) = None"
  by (simp_all add: alias_part_def js_ws_def)

lemma alias_part_quoted:
  assumes "CHR 0x27 \<notin> set a"
  shows "alias_part ('' as '' @ [CHR 0x27] @ a @ [CHR 0x27] @ rest) =
           Some (length ('' as '' @ [CHR 0x27] @ a @ [CHR 0x27]), [CHR 0x27] @ a @ [CHR 0x27])"
proof -
  have "run_length (\<lambda>d. d \<noteq> CHR 0x27) (a @ [CHR 0x27] @ rest) = length a"
    by (rule run_length_append) (use assms in \<open>auto simp: list_all_iff\<close>)
  then have "alias_length ([CHR 0x27] @ a @ [CHR 0x27] @ rest) = length a + 2"
    by (simp add: alias_length_def quoted_length_def Let_def)
  then show ?thesis
    by (simp add: alias_part_def js_ws_def Let_def)
qed

lemma parsed_quoted:
  "parsed_aggregation e (or_text (Some ([CHR 0x27] @ a @ [CHR 0x27])) b) = Expression_Aggregation e (Some a)"
  by (simp add: parsed_aggregation_def or_text_def truthy_str_def strip_quotes_def quote_mark_def)

lemma parse_separator: "parse_aggregations_from ('', '' @ s) b = parse_aggregations_from s b"
  by (simp add: parse_aggregations_from.simps [of "CHR '','' # t" for t]
      parse_aggregations_from.simps [of "CHR '' '' # t" for t] call_length_separator)

lemma parse_rendered:
  assumes "plain_aggregation e" and "rest = [] \<or> (\<exists>s. rest = '', '' @ s)"
  shows "parse_aggregations_from (render_aggregation e @ rest) b =
           read_aggregation b e # parse_aggregations_from rest b"
proof -
  obtain name args al where e: "e = (name, args, al)" by (cases e)
  let ?call = "name @ ''('' @ args @ '')''"
  have plain: "name \<noteq> []" "list_all is_word_char name" "CHR '')'' \<notin> set args"
    using assms(1) by (auto simp: plain_aggregation_def e)
  have len: "call_length (?call @ r) = length ?call" for r
    using call_length_call [OF plain, of r] by simp
  show ?thesis
  proof (cases al)
    case None
    have "alias_part rest = None" using assms(2) alias_part_none by auto
    with len [of rest] plain(1) show ?thesis
      by (subst parse_aggregations_from.simps) (simp add: e None read_aggregation_def)
  next
    case (Some a)
    let ?as = "'' as '' @ [CHR 0x27] @ a @ [CHR 0x27]"
    have "CHR 0x27 \<notin> set a" using assms(1) by (simp add: plain_aggregation_def e Some)
    then have "alias_part (?as @ rest) = Some (length ?as, [CHR 0x27] @ a @ [CHR 0x27])"
      using alias_part_quoted [of a rest] by simp
    with len [of "?as @ rest"] plain(1) parsed_quoted [of ?call a b] show ?thesis
      by (subst parse_aggregations_from.simps) (simp add: e Some read_aggregation_def)
  qed
qed

text \<open>
  Aggregations written as calls, each with an optional alias in single quotes and joined by
  commas, are read back: one aggregation per call, in order, with its own alias and otherwise the
  alias the editor keeps for the row.
\<close>

theorem aggregations_read_back:
  assumes "list_all plain_aggregation es"
  shows "parseAggregations (render_aggregations es) availableAlias = map (read_aggregation availableAlias) es"
  using assms
proof (induction es rule: render_aggregations.induct)
  case 1
  then show ?case by (simp add: parseAggregations_def parse_aggregations_from.simps)
next
  case (2 e)
  then show ?case
    using parse_rendered [of e "[]" availableAlias]
    by (simp add: parseAggregations_def parse_aggregations_from.simps [of "[]"])
next
  case (3 e f fs)
  then show ?case
    using parse_rendered [of e "'', '' @ render_aggregations (f # fs)" availableAlias]
      parse_separator [of "render_aggregations (f # fs)" availableAlias]
    by (simp add: parseAggregations_def)
qed

theorem aggregations_read_back_witness:
  "parseAggregations (render_aggregations [(''count'', '''', None), (''p99'', ''duration_nano'', Some ''p 99'')]) (Some ''n'') =
     [Expression_Aggregation ''count()'' (Some ''n''), Expression_Aggregation ''p99(duration_nano)'' (Some ''p 99'')]"
  by (subst aggregations_read_back)
    (simp_all add: plain_aggregation_def is_word_char_def is_alpha_def is_digit_def read_aggregation_def
      parsed_aggregation_def truthy_str_def strip_quotes_def quote_mark_def)

text \<open>
  Storing the filter text that was sent and sending the query again sends the same text: the
  choice between the text and the filter rows is stable.
\<close>

theorem get_filter_stable: "getFilter (q\<lparr>bq_filter := Some (getFilter q)\<rparr>) = getFilter q"
  by (auto simp: getFilter_def Let_def str_or_def truthy_str_def split: option.splits)

end
