(* ===== verification/Alert_Draft.thy ===== *)
theory Alert_Draft
  imports Query_Payload Time_Range
begin

section \<open>Drafts of alerts and the rules they are saved as\<close>

text \<open>
  \<open>features/alerting/basic-editor/serializer.ts\<close> and \<open>draft.ts\<close>: the validation of a draft, the rule
  sent to the backend, and the draft read back from a rule. An error is the message the editor shows;
  a \<open>throw\<close> is \<open>Inl\<close>. A number that may be \<open>null\<close> or missing is an option, and no field holds \<open>NaN\<close>.
\<close>

subsection \<open>The data\<close>

datatype alert_type = METRICS_BASED_ALERT | LOGS_BASED_ALERT | TRACES_BASED_ALERT | EXCEPTIONS_BASED_ALERT

datatype numeric_reduction = R_at_least_once | R_all_the_time | R_average | R_total | R_last

datatype numeric_operator = O_eq | O_neq | O_gt | O_gte | O_lt | O_lte

datatype boolean_policy = B_at_least_once | B_all_the_time | B_last

datatype cumulative_period = One_Hour | One_Day | Seven_Days

datatype alert_evaluation =
    Rolling (evalWindow: string) (frequency: string)
  | Cumulative (period: cumulative_period) (frequency: string) (timezone: string)

record threshold_draft =
  td_severity :: string
  td_target :: "js_num option"
  td_targetUnit :: "string option"
  td_recoveryTarget :: "js_num option"

datatype condition_draft =
    Numeric_Draft string numeric_reduction numeric_operator "threshold_draft list"
  | Boolean_Draft string boolean_policy string

record data_quality_draft =
  dd_alertOnNoData :: bool
  dd_noDataFor :: string
  dd_minPoints :: js_num

record alert_draft =
  ad_name :: string
  ad_alertType :: alert_type
  ad_labels :: "(string \<times> string option) list"
  ad_condition :: condition_draft
  ad_evaluation :: alert_evaluation
  ad_dataQuality :: data_quality_draft
  ad_channel :: string
  ad_groupBy :: "string list"
  ad_messageTemplate :: string

text \<open>The query of the editor.\<close>

record editor_query =
  eq_queryType :: string
  eq_queryData :: "builder_query list"
  eq_queryFormulas :: "formula_query list"
  eq_resultUnit :: "string option"
  eq_displayUnit :: "string option"

text \<open>The rule.\<close>

record rule_threshold =
  rt_severity :: string
  rt_target :: "js_num option"
  rt_targetUnit :: "string option"
  rt_recoveryTarget :: "js_num option"
  rt_channels :: "string list"

record rule_data_quality =
  rd_alertOnNoData :: bool
  rd_noDataFor :: "string option"
  rd_minPoints :: js_num

datatype rule_check =
    Numeric_Check numeric_reduction numeric_operator "rule_threshold list"
  | Boolean_Check boolean_policy string "string list"

record rule_condition =
  rc_compositeQuery :: composite_query
  rc_selectedQueryName :: string
  rc_dataQuality :: rule_data_quality
  rc_check :: rule_check

record notification_settings =
  ns_groupBy :: "string list option"
  ns_messageTemplate :: "string option"

record alert_rule =
  ar_schemaVersion :: string
  ar_alert :: string
  ar_alertType :: alert_type
  ar_ruleType :: string
  ar_condition :: rule_condition
  ar_evaluation :: alert_evaluation
  ar_labels :: "(string \<times> string option) list"
  ar_description :: "string option"
  ar_notificationSettings :: "notification_settings option"
  ar_version :: string
  ar_source :: "string option"

definition CURRENT_BASIC_ALERT_SCHEMA_VERSION :: string where
  "CURRENT_BASIC_ALERT_SCHEMA_VERSION = ''v3alpha1''"

definition condition_name :: "condition_draft \<Rightarrow> string" where
  "condition_name c = (case c of Numeric_Draft n _ _ _ \<Rightarrow> n | Boolean_Draft n _ _ \<Rightarrow> n)"

subsection \<open>Numbers and durations\<close>

definition is_finite :: "js_num option \<Rightarrow> bool" where
  "is_finite x = (case x of Some (Dec _ _) \<Rightarrow> True | _ \<Rightarrow> False)"

definition is_integer :: "js_num \<Rightarrow> bool" where
  "is_integer x = (case x of Dec m e \<Rightarrow> 0 \<le> e \<or> m mod 10 ^ nat (- e) = 0 | Infinite _ \<Rightarrow> False)"

definition is_negative :: "js_num \<Rightarrow> bool" where
  "is_negative x = (case x of Dec m _ \<Rightarrow> m < 0 | Infinite neg \<Rightarrow> neg)"

definition unit_seconds :: "char \<Rightarrow> int option" where
  "unit_seconds c = map_of [(CHR ''s'', 1), (CHR ''m'', 60), (CHR ''h'', 60 * 60)] c"

text \<open>\<open>/^([1-9]\d*)(s|m|h)$/\<close> on the trimmed text; the product is a double.\<close>

definition durationInSeconds :: "string \<Rightarrow> int option" where
  "durationInSeconds value =
     (let t = js_trim value; n = run_length is_digit t in
      if t \<noteq> [] \<and> 0 < n \<and> hd t \<noteq> CHR ''0'' \<and> length t = n + 1
      then map_option (\<lambda>u. js_double (js_double (int (digits_value (take n t))) * u)) (unit_seconds (last t))
      else None)"

subsection \<open>The message template\<close>

text \<open>\<open>/{{\s*([^{}]+?)\s*}}/g\<close>: what is between the braces, for a match at the head of a text.\<close>

definition no_brace :: "char \<Rightarrow> bool" where
  "no_brace c \<longleftrightarrow> c \<noteq> CHR ''{'' \<and> c \<noteq> CHR ''}''"

definition placeholder :: "string \<Rightarrow> string option" where
  "placeholder s =
     (let body = takeWhile no_brace (drop 2 s)
      in if take 2 s = ''{{'' \<and> body \<noteq> [] \<and> take 2 (drop (2 + length body) s) = ''}}''
         then Some body else None)"

text \<open>The placeholders of a template, trimmed, and the text without them.\<close>

function template_parts :: "string \<Rightarrow> string list \<times> string" where
  "template_parts s =
     (case s of
        [] \<Rightarrow> ([], [])
      | c # r \<Rightarrow>
          (case placeholder s of
             Some body \<Rightarrow>
               (let (tokens, plain) = template_parts (drop (4 + length body) s) in (js_trim body # tokens, plain))
           | None \<Rightarrow> (let (tokens, plain) = template_parts r in (tokens, c # plain))))"
  by pat_completeness auto
termination by (relation "measure length") auto

declare template_parts.simps [simp del]

definition label_char :: "char \<Rightarrow> bool" where
  "label_char c \<longleftrightarrow> is_alpha c \<or> c = CHR ''_'' \<or> c = CHR ''.'' \<or> is_digit c"

definition notification_label :: "string \<Rightarrow> bool" where
  "notification_label s \<longleftrightarrow> s \<noteq> [] \<and> list_all label_char s \<and> \<not> is_digit (hd s)"

definition known_placeholder :: "string \<Rightarrow> bool" where
  "known_placeholder tok \<longleftrightarrow>
     tok \<in> set [''alert.name'', ''severity'', ''value'', ''threshold''] \<or>
     (starts_with ''label.'' tok \<and> notification_label (drop (length ''label.'') tok))"

definition validateNotificationMessageTemplate :: "string \<Rightarrow> string option" where
  "validateNotificationMessageTemplate template =
     (if js_trim template = '''' then Some ''Enter a notification message''
      else
        (let (tokens, plainText) = template_parts template in
         if str_includes ''{{'' plainText \<or> str_includes ''}}'' plainText
         then Some ''Notification message has invalid template syntax''
         else map_option (\<lambda>tok. ''Unsupported notification placeholder: '' @ tok)
                (js_find (\<lambda>tok. \<not> known_placeholder tok) tokens)))"

subsection \<open>Validation\<close>

definition maxAlertDataQueries :: nat where "maxAlertDataQueries = 4"
definition maxAlertFormulas :: nat where "maxAlertFormulas = 4"

definition queryNames :: "editor_query \<Rightarrow> string list" where
  "queryNames q =
     map bq_queryName (eq_queryData q) @
     map fq_queryName (filter (\<lambda>f. js_trim (fq_expression f) \<noteq> '''') (eq_queryFormulas q))"

definition validateFormulaDrafts :: "formula_query list \<Rightarrow> string option" where
  "validateFormulaDrafts formulas =
     (if maxAlertFormulas < length formulas then 
        Some (''An alert can contain at most '' @ nat_digits maxAlertFormulas @ '' formulas'')
      else if \<exists>f\<in>set formulas. js_trim (fq_expression f) = ''''
      then Some ''Enter an expression or remove the empty formula''
      else None)"

definition validateQueryShape :: "editor_query \<Rightarrow> string option" where
  "validateQueryShape q =
     (if eq_queryType q \<noteq> ''builder'' then Some ''Basic alerts only support lightweight builder queries''
      else if eq_queryData q = [] \<or> maxAlertDataQueries < length (eq_queryData q)
      then Some (''An alert must contain between one and '' @ nat_digits maxAlertDataQueries @ '' data queries'')
      else validateFormulaDrafts (eq_queryFormulas q))"

definition validateDataQuality :: "alert_draft \<Rightarrow> string option" where
  "validateDataQuality d =
     (let dq = ad_dataQuality d in
      if is_negative (dd_minPoints dq) \<or> \<not> is_integer (dd_minPoints dq)
      then Some ''Minimum data points must be a non-negative integer''
      else if dd_alertOnNoData dq \<and> \<not> truthy_num (durationInSeconds (dd_noDataFor dq))
      then Some ''No data duration must be a positive number of seconds, minutes, or hours''
      else None)"

definition period_seconds :: "cumulative_period \<Rightarrow> int" where
  "period_seconds p =
     (case p of One_Hour \<Rightarrow> 60 * 60 | One_Day \<Rightarrow> 24 * 60 * 60 | Seven_Days \<Rightarrow> 7 * 24 * 60 * 60)"

definition validateEvaluation :: "alert_draft \<Rightarrow> string option" where
  "validateEvaluation d =
     (let freq = durationInSeconds (frequency (ad_evaluation d)) in
      if \<not> truthy_num freq
      then Some ''Evaluation frequency must be a positive number of seconds, minutes, or hours''
      else
        (case ad_evaluation d of
           Rolling window _ \<Rightarrow>
             (let w = durationInSeconds window in
              if \<not> truthy_num w \<or> num_or w 0 < num_or freq 0
              then Some ''Evaluation frequency must not exceed the rolling window'' else None)
         | Cumulative p _ tz \<Rightarrow>
             (if js_trim tz = '''' then Some ''Choose an IANA timezone for cumulative evaluation''
              else if period_seconds p < num_or freq 0
              then Some ''Evaluation frequency must not exceed the cumulative period'' else None)))"

definition threshold_error :: "threshold_draft \<Rightarrow> string option" where
  "threshold_error t =
     (if td_target t = None \<or> \<not> is_finite (td_target t) then Some ''Each threshold needs a numeric target''
      else if td_recoveryTarget t \<noteq> None \<and> \<not> is_finite (td_recoveryTarget t)
      then Some ''Recovery thresholds must be numeric''
      else None)"

fun first_error :: "string option list \<Rightarrow> string option" where
  "first_error [] = None"
| "first_error (e # es) = (case e of Some m \<Rightarrow> Some m | None \<Rightarrow> first_error es)"

definition validateCondition :: "alert_draft \<Rightarrow> string option" where
  "validateCondition d =
     (case ad_condition d of
        Boolean_Draft _ _ sev \<Rightarrow> (if sev = '''' then Some ''Choose a severity'' else None)
      | Numeric_Draft _ _ _ thresholds \<Rightarrow>
          (if thresholds = [] \<or> 3 < length thresholds
           then Some ''Configure between one and three severity thresholds''
           else first_error (map threshold_error thresholds)))"

definition validateBasicAlertDraft :: "alert_draft \<Rightarrow> editor_query \<Rightarrow> string option" where
  "validateBasicAlertDraft d q =
     (if js_trim (ad_name d) = '''' then Some ''Enter an alert name''
      else
        (case validateQueryShape q of
           Some e \<Rightarrow> Some e
         | None \<Rightarrow>
             (if condition_name (ad_condition d) \<notin> set (queryNames q)
              then Some ''Select a query or formula to evaluate''
              else first_error
                [validateDataQuality d, validateEvaluation d, validateCondition d,
                 validateNotificationMessageTemplate (ad_messageTemplate d)])))"

subsection \<open>Saving\<close>

text \<open>\<open>{ ...builderQueries, ...formulas }\<close> is the object \<open>builder_items\<close>.\<close>

definition serializeCompositeQuery :: "editor_query \<Rightarrow> composite_query" where
  "serializeCompositeQuery q =
     compositeQueryToQueryEnvelope (builder_items (eq_queryData q) (eq_queryFormulas q)) (eq_queryType q)
       P_TIME_SERIES None (eq_resultUnit q) (eq_displayUnit q)"

definition rule_threshold_of :: "string list \<Rightarrow> threshold_draft \<Rightarrow> rule_threshold" where
  "rule_threshold_of channels t =
     \<lparr>rt_severity = td_severity t, rt_target = td_target t,
      rt_targetUnit = (if truthy_str (td_targetUnit t) then td_targetUnit t else None),
      rt_recoveryTarget = td_recoveryTarget t, rt_channels = channels\<rparr>"

definition serializeCondition :: "alert_draft \<Rightarrow> editor_query \<Rightarrow> rule_condition" where
  "serializeCondition d q =
     (let dq = ad_dataQuality d; channels = (if ad_channel d = '''' then [] else [ad_channel d]) in
      \<lparr>rc_compositeQuery = serializeCompositeQuery q,
       rc_selectedQueryName = condition_name (ad_condition d),
       rc_dataQuality =
         \<lparr>rd_alertOnNoData = dd_alertOnNoData dq,
          rd_noDataFor = (if dd_alertOnNoData dq then Some (dd_noDataFor dq) else None),
          rd_minPoints = dd_minPoints dq\<rparr>,
       rc_check =
         (case ad_condition d of
            Boolean_Draft _ policy sev \<Rightarrow> Boolean_Check policy sev channels
          | Numeric_Draft _ reduction opr thresholds \<Rightarrow>
              Numeric_Check reduction opr (map (rule_threshold_of channels) thresholds))\<rparr>)"

definition serializeBasicAlertDraft ::
  "alert_draft \<Rightarrow> editor_query \<Rightarrow> string option \<Rightarrow> string + alert_rule" where
  "serializeBasicAlertDraft d q source =
     (case validateBasicAlertDraft d q of
        Some e \<Rightarrow> Inl e
      | None \<Rightarrow>
          Inr \<lparr>ar_schemaVersion = CURRENT_BASIC_ALERT_SCHEMA_VERSION,
               ar_alert = js_trim (ad_name d),
               ar_alertType = ad_alertType d,
               ar_ruleType = ''threshold_rule'',
               ar_condition = serializeCondition d q,
               ar_evaluation = ad_evaluation d,
               ar_labels = ad_labels d,
               ar_description = None,
               ar_notificationSettings =
                 Some \<lparr>ns_groupBy = Some (ad_groupBy d), ns_messageTemplate = Some (ad_messageTemplate d)\<rparr>,
               ar_version = ''v5'',
               ar_source = (if truthy_str source then source else None)\<rparr>)"

subsection \<open>Drafts\<close>

definition line_feed :: string where "line_feed = [CHR 0x0A]"

definition defaultNotificationMessageTemplate :: string where
  "defaultNotificationMessageTemplate =
     ''{{alert.name}}'' @ line_feed @ ''Severity: {{severity}}'' @ line_feed @ ''Value: {{value}}'' @ line_feed @
     ''Threshold: {{threshold}}''"

definition legacyDefaultDescription :: string where
  "legacyDefaultDescription = ''The configured alert condition was met.''"

definition defaultAlertStepInterval :: int where "defaultAlertStepInterval = 60"

definition sourceForAlertType :: "alert_type \<Rightarrow> data_source" where
  "sourceForAlertType t =
     (if t = LOGS_BASED_ALERT then LOGS else if t = METRICS_BASED_ALERT then METRICS else TRACES)"

definition normalizeAlertTimeSeriesQuery :: "editor_query \<Rightarrow> editor_query" where
  "normalizeAlertTimeSeriesQuery q =
     q\<lparr>eq_queryData := map (\<lambda>i. i\<lparr>bq_stepInterval :=
          (case bq_stepInterval i of
             Some n \<Rightarrow> (if 0 < n then Some n else Some defaultAlertStepInterval)
           | None \<Rightarrow> Some defaultAlertStepInterval)\<rparr>) (eq_queryData q)\<rparr>"

definition defaultBasicAlertDraft :: "alert_type \<Rightarrow> alert_draft" where
  "defaultBasicAlertDraft t =
     \<lparr>ad_name = '''', ad_alertType = t, ad_labels = [],
      ad_condition = Numeric_Draft ''A'' R_at_least_once O_gt
        [\<lparr>td_severity = ''critical'', td_target = None, td_targetUnit = None, td_recoveryTarget = None\<rparr>],
      ad_evaluation = Rolling ''5m'' ''1m'',
      ad_dataQuality = \<lparr>dd_alertOnNoData = False, dd_noDataFor = ''5m'', dd_minPoints = Dec 1 0\<rparr>,
      ad_channel = '''', ad_groupBy = [], ad_messageTemplate = defaultNotificationMessageTemplate\<rparr>"

definition normalizeSeverity :: "string \<Rightarrow> string" where
  "normalizeSeverity v = (if v = ''warning'' \<or> v = ''info'' then v else ''critical'')"

definition isV3BasicAlertRule :: "alert_rule \<Rightarrow> bool" where
  "isV3BasicAlertRule rule \<longleftrightarrow>
     ar_schemaVersion rule = CURRENT_BASIC_ALERT_SCHEMA_VERSION \<and> ar_ruleType rule = ''threshold_rule''"

definition threshold_draft_of :: "rule_threshold \<Rightarrow> threshold_draft" where
  "threshold_draft_of t =
     \<lparr>td_severity = normalizeSeverity (rt_severity t), td_target = rt_target t,
      td_targetUnit = rt_targetUnit t, td_recoveryTarget = rt_recoveryTarget t\<rparr>"

definition first_channel :: "string list \<Rightarrow> string" where
  "first_channel cs = (case cs of c # _ \<Rightarrow> c | [] \<Rightarrow> '''')"

definition rule_channel :: "rule_check \<Rightarrow> string" where
  "rule_channel c =
     (case c of
        Boolean_Check _ _ channels \<Rightarrow> first_channel channels
      | Numeric_Check _ _ thresholds \<Rightarrow>
          (case thresholds of t # _ \<Rightarrow> first_channel (rt_channels t) | [] \<Rightarrow> ''''))"

definition own_description :: "alert_rule \<Rightarrow> string" where
  "own_description rule =
     (let d = str_or (ar_description rule) '''' in if d \<noteq> legacyDefaultDescription then d else '''')"

definition draftFromV3Rule :: "alert_rule \<Rightarrow> alert_draft" where
  "draftFromV3Rule rule =
     (let base = defaultBasicAlertDraft (ar_alertType rule);
          c = ar_condition rule; dq = rc_dataQuality c;
          own = (case ar_notificationSettings rule of Some ns \<Rightarrow> ns_messageTemplate ns | None \<Rightarrow> None);
          groups = (case ar_notificationSettings rule of Some ns \<Rightarrow> ns_groupBy ns | None \<Rightarrow> None);
          description = own_description rule
      in \<lparr>ad_name = ar_alert rule,
          ad_alertType = ar_alertType rule,
          ad_labels = ar_labels rule,
          ad_condition =
            (case rc_check c of
               Boolean_Check policy sev _ \<Rightarrow> Boolean_Draft (rc_selectedQueryName c) policy (normalizeSeverity sev)
             | Numeric_Check reduction opr thresholds \<Rightarrow>
                 Numeric_Draft (rc_selectedQueryName c) reduction opr (map threshold_draft_of thresholds)),
          ad_evaluation = ar_evaluation rule,
          ad_dataQuality =
            (ad_dataQuality base)
              \<lparr>dd_alertOnNoData := rd_alertOnNoData dq,
               dd_noDataFor := (case rd_noDataFor dq of Some n \<Rightarrow> n | None \<Rightarrow> dd_noDataFor (ad_dataQuality base)),
               dd_minPoints := rd_minPoints dq\<rparr>,
          ad_channel = rule_channel (rc_check c),
          ad_groupBy = (case groups of Some gs \<Rightarrow> gs | None \<Rightarrow> []),
          ad_messageTemplate =
            str_or own (if description = '''' then defaultNotificationMessageTemplate else description)\<rparr>)"

text \<open>
  \<open>/(?:>=|<=|!=|(?<![><!])=|>|<|\bAND\b|\bOR\b|\bNOT\b)/i\<close>: \<open>prev\<close> is the character before the rest
  of the text.
\<close>

definition word_boundary :: "char option \<Rightarrow> char option \<Rightarrow> bool" where
  "word_boundary a b \<longleftrightarrow>
     (case a of Some c \<Rightarrow> is_word_char c | None \<Rightarrow> False) \<noteq> (case b of Some c \<Rightarrow> is_word_char c | None \<Rightarrow> False)"

definition whole_word :: "string \<Rightarrow> char option \<Rightarrow> string \<Rightarrow> bool" where
  "whole_word w prev s \<longleftrightarrow>
     to_upper (take (length w) s) = w \<and> word_boundary prev (js_nth s 0) \<and>
     word_boundary (js_nth s (int (length w) - 1)) (js_nth s (int (length w)))"

definition comparison_at :: "char option \<Rightarrow> string \<Rightarrow> bool" where
  "comparison_at prev s \<longleftrightarrow>
     starts_with ''>='' s \<or> starts_with ''<='' s \<or> starts_with ''!='' s \<or>
     (starts_with ''='' s \<and> prev \<notin> {Some (CHR ''>''), Some (CHR ''<''), Some (CHR ''!'')}) \<or>
     starts_with ''>'' s \<or> starts_with ''<'' s \<or>
     whole_word ''AND'' prev s \<or> whole_word ''OR'' prev s \<or> whole_word ''NOT'' prev s"

fun has_comparison :: "char option \<Rightarrow> string \<Rightarrow> bool" where
  "has_comparison prev [] = False"
| "has_comparison prev (c # s) = (comparison_at prev (c # s) \<or> has_comparison (Some c) s)"

definition formulaOutputType :: "string \<Rightarrow> string" where
  "formulaOutputType expression = (if has_comparison None expression then ''bool'' else ''number'')"

subsection \<open>A saved rule reopens\<close>

definition draft_severities :: "alert_draft \<Rightarrow> string list" where
  "draft_severities d =
     (case ad_condition d of
        Boolean_Draft _ _ sev \<Rightarrow> [sev] | Numeric_Draft _ _ _ thresholds \<Rightarrow> map td_severity thresholds)"

definition known_severity :: "string \<Rightarrow> bool" where
  "known_severity s \<longleftrightarrow> s \<in> set [''critical'', ''warning'', ''info'']"

definition clean_threshold :: "threshold_draft \<Rightarrow> threshold_draft" where
  "clean_threshold t = t\<lparr>td_targetUnit := (if truthy_str (td_targetUnit t) then td_targetUnit t else None)\<rparr>"

text \<open>What saving keeps of a draft: the name is trimmed, empty units and an unused duration are forgotten.\<close>

definition saved_draft :: "alert_draft \<Rightarrow> alert_draft" where
  "saved_draft d =
     d\<lparr>ad_name := js_trim (ad_name d),
       ad_condition :=
         (case ad_condition d of
            Boolean_Draft n p s \<Rightarrow> Boolean_Draft n p s
          | Numeric_Draft n r opr ts \<Rightarrow> Numeric_Draft n r opr (map clean_threshold ts)),
       ad_dataQuality := (ad_dataQuality d)
         \<lparr>dd_noDataFor := (if dd_alertOnNoData (ad_dataQuality d) then dd_noDataFor (ad_dataQuality d) else ''5m'')\<rparr>\<rparr>"

lemma first_error_none [simp]: "first_error es = None \<longleftrightarrow> (\<forall>e\<in>set es. e = None)"
  by (induction es) (auto split: option.splits)

lemma serialize_ok:
  "serializeBasicAlertDraft d q source = Inr rule \<longleftrightarrow>
     validateBasicAlertDraft d q = None \<and>
     rule = \<lparr>ar_schemaVersion = CURRENT_BASIC_ALERT_SCHEMA_VERSION, ar_alert = js_trim (ad_name d),
       ar_alertType = ad_alertType d, ar_ruleType = ''threshold_rule'', ar_condition = serializeCondition d q,
       ar_evaluation = ad_evaluation d, ar_labels = ad_labels d, ar_description = None,
       ar_notificationSettings =
         Some \<lparr>ns_groupBy = Some (ad_groupBy d), ns_messageTemplate = Some (ad_messageTemplate d)\<rparr>,
       ar_version = ''v5'', ar_source = (if truthy_str source then source else None)\<rparr>"
  by (auto simp: serializeBasicAlertDraft_def split: option.splits)

lemma validate_ok:
  "validateBasicAlertDraft d q = None \<longleftrightarrow>
     js_trim (ad_name d) \<noteq> '''' \<and> validateQueryShape q = None \<and>
     condition_name (ad_condition d) \<in> set (queryNames q) \<and> validateDataQuality d = None \<and>
     validateEvaluation d = None \<and> validateCondition d = None \<and>
     validateNotificationMessageTemplate (ad_messageTemplate d) = None"
  by (auto simp: validateBasicAlertDraft_def split: option.splits)

lemma template_not_empty: "validateNotificationMessageTemplate t = None \<Longrightarrow> t \<noteq> ''''"
  by (auto simp: validateNotificationMessageTemplate_def js_trim_def)

lemma threshold_reopens:
  "known_severity (td_severity t) \<Longrightarrow> threshold_draft_of (rule_threshold_of cs t) = clean_threshold t"
  by (auto simp: threshold_draft_of_def rule_threshold_of_def clean_threshold_def known_severity_def
      normalizeSeverity_def)

lemma threshold_resaves: "rule_threshold_of cs (clean_threshold t) = rule_threshold_of cs t"
  by (simp add: rule_threshold_of_def clean_threshold_def)

lemma condition_channel:
  assumes "validateCondition d = None"
  shows "rule_channel (rc_check (serializeCondition d q)) = ad_channel d"
proof (cases "ad_condition d")
  case (Numeric_Draft n r opr ts)
  with assms obtain t ts' where "ts = t # ts'"
    by (cases ts) (auto simp: validateCondition_def split: if_splits)
  with Numeric_Draft show ?thesis
    by (simp add: serializeCondition_def Let_def rule_channel_def rule_threshold_of_def first_channel_def)
qed (simp add: serializeCondition_def Let_def rule_channel_def first_channel_def)

lemma severity_reopens: "known_severity s \<Longrightarrow> normalizeSeverity s = s"
  by (auto simp: known_severity_def normalizeSeverity_def)

lemma saved_draft_reopens:
  assumes "serializeBasicAlertDraft d q source = Inr rule" "list_all known_severity (draft_severities d)"
  shows "draftFromV3Rule rule = saved_draft d"
proof -
  have "validateCondition d = None" "ad_messageTemplate d \<noteq> ''''"
    using assms(1) by (simp_all add: serialize_ok validate_ok template_not_empty)
  moreover have "map threshold_draft_of (map (rule_threshold_of cs) ts) = map clean_threshold ts"
    if "list_all known_severity (map td_severity ts)" for cs ts
    using that by (induction ts) (simp_all add: threshold_reopens)
  ultimately show ?thesis
    using assms condition_channel [of d q]
    by (cases d; cases "ad_dataQuality d"; cases "ad_condition d")
      (simp_all add: serialize_ok draftFromV3Rule_def Let_def saved_draft_def defaultBasicAlertDraft_def
        serializeCondition_def draft_severities_def severity_reopens str_or_def truthy_str_def condition_name_def)
qed

lemma saved_draft_fields:
  "ad_evaluation (saved_draft d) = ad_evaluation d" "ad_messageTemplate (saved_draft d) = ad_messageTemplate d"
  "ad_name (saved_draft d) = js_trim (ad_name d)" "ad_alertType (saved_draft d) = ad_alertType d"
  "ad_labels (saved_draft d) = ad_labels d" "ad_groupBy (saved_draft d) = ad_groupBy d"
  "ad_channel (saved_draft d) = ad_channel d"
  by (simp_all add: saved_draft_def)

lemma saved_draft_valid:
  assumes "validateBasicAlertDraft d q = None"
  shows "validateBasicAlertDraft (saved_draft d) q = None"
proof -
  have "threshold_error (clean_threshold t) = threshold_error t" for t
    by (simp add: threshold_error_def clean_threshold_def)
  then have "validateCondition (saved_draft d) = None" if "validateCondition d = None"
    using that by (cases "ad_condition d") (auto simp: validateCondition_def saved_draft_def split: if_splits)
  moreover have "validateDataQuality (saved_draft d) = None" if "validateDataQuality d = None"
    using that by (auto simp: validateDataQuality_def saved_draft_def Let_def split: if_splits)
  moreover have "condition_name (ad_condition (saved_draft d)) = condition_name (ad_condition d)"
    by (cases "ad_condition d") (simp_all add: saved_draft_def condition_name_def)
  moreover have "validateEvaluation (saved_draft d) = validateEvaluation d"
    unfolding validateEvaluation_def saved_draft_fields by (rule refl)
  ultimately show ?thesis
    using assms by (simp add: validate_ok saved_draft_fields)
qed

lemma saved_condition: "serializeCondition (saved_draft d) q = serializeCondition d q"
  by (cases "ad_condition d")
    (simp_all add: serializeCondition_def Let_def saved_draft_def condition_name_def threshold_resaves comp_def)

text \<open>
  C10. Opening a saved rule gives the draft it was saved from, up to the space around the name, empty
  units and the duration of a no-data check that is off; and saving it again, unchanged, sends the
  same rule.
\<close>

theorem saved_rule_reopens:
  assumes "serializeBasicAlertDraft d q source = Inr rule" "list_all known_severity (draft_severities d)"
  shows "draftFromV3Rule rule = saved_draft d \<and>
    serializeBasicAlertDraft (draftFromV3Rule rule) q source = Inr rule"
proof -
  have "serializeBasicAlertDraft (saved_draft d) q source = Inr rule"
    using assms(1) by (simp add: serialize_ok saved_draft_valid saved_condition saved_draft_fields)
  with saved_draft_reopens [OF assms] show ?thesis by simp
qed

definition sample_draft :: alert_draft where
  "sample_draft =
     (defaultBasicAlertDraft LOGS_BASED_ALERT)
       \<lparr>ad_name := '' High '',
        ad_condition := Numeric_Draft ''A'' R_total O_gt
          [\<lparr>td_severity = ''warning'', td_target = Some (Dec 5 0), td_targetUnit = Some '''', td_recoveryTarget = None\<rparr>],
        ad_channel := ''ops''\<rparr>"

definition sample_editor_query :: editor_query where
  "sample_editor_query =
     \<lparr>eq_queryType = ''builder'', eq_queryData = [sample_query], eq_queryFormulas = [sample_formula ''F1'' ''A / 2''],
      eq_resultUnit = None, eq_displayUnit = None\<rparr>"

lemma sample_draft_valid: "validateBasicAlertDraft sample_draft sample_editor_query = None"
  by code_simp

theorem saved_rule_reopens_witness:
  "\<exists>rule. serializeBasicAlertDraft sample_draft sample_editor_query None = Inr rule \<and>
     draftFromV3Rule rule = saved_draft sample_draft"
proof -
  obtain rule where r: "serializeBasicAlertDraft sample_draft sample_editor_query None = Inr rule"
    by (simp add: serializeBasicAlertDraft_def sample_draft_valid)
  have "list_all known_severity (draft_severities sample_draft)" by code_simp
  with saved_rule_reopens [OF r] r show ?thesis by blast
qed

subsection \<open>What the editor has checked of a rule it sends\<close>

text \<open>
  The checks of \<open>validateBasicAlertDraft\<close>, as they show on the rule. They are not all that the backend asks for: its
  own checks, and what is left between the two, are in \<open>Rule_Contract\<close>.
\<close>

definition evaluation_ok :: "alert_evaluation \<Rightarrow> bool" where
  "evaluation_ok ev \<longleftrightarrow>
     (\<exists>f. durationInSeconds (frequency ev) = Some f \<and> f \<noteq> 0 \<and>
       (case ev of
          Rolling window _ \<Rightarrow> (\<exists>w. durationInSeconds window = Some w \<and> f \<le> w)
        | Cumulative p _ tz \<Rightarrow> f \<le> period_seconds p \<and> js_trim tz \<noteq> ''''))"

definition check_ok :: "rule_check \<Rightarrow> bool" where
  "check_ok c \<longleftrightarrow>
     (case c of
        Boolean_Check _ sev _ \<Rightarrow> sev \<noteq> ''''
      | Numeric_Check _ _ ts \<Rightarrow>
          ts \<noteq> [] \<and> length ts \<le> 3 \<and>
          (\<forall>t\<in>set ts. is_finite (rt_target t) \<and> (rt_recoveryTarget t = None \<or> is_finite (rt_recoveryTarget t))))"

definition rule_ok :: "alert_rule \<Rightarrow> bool" where
  "rule_ok rule \<longleftrightarrow>
     (let c = ar_condition rule; dq = rc_dataQuality c; es = cq_queries (rc_compositeQuery c) in
      isV3BasicAlertRule rule \<and> ar_alert rule \<noteq> '''' \<and> js_trim (ar_alert rule) = ar_alert rule \<and>
      rc_selectedQueryName c \<in> set (envelope_names es) \<union> set (formula_names es) \<and>
      (rd_noDataFor dq \<noteq> None \<longleftrightarrow> rd_alertOnNoData dq) \<and>
      (\<forall>n. rd_noDataFor dq = Some n \<longrightarrow> truthy_num (durationInSeconds n)) \<and>
      is_integer (rd_minPoints dq) \<and> \<not> is_negative (rd_minPoints dq) \<and>
      evaluation_ok (ar_evaluation rule) \<and> check_ok (rc_check c))"

lemma formula_items_mem: "(k, f) \<in> set (formula_items m) \<longleftrightarrow> (k, Formula_Item f) \<in> set m"
  by (auto simp: formula_items_def split: builder_item.splits)

lemma data_items_mem: "(k, q) \<in> set (data_items m) \<longleftrightarrow> (k, Data_Item q) \<in> set m"
  by (auto simp: data_items_def split: builder_item.splits)

lemma builder_items_keys:
  "fst ` set (builder_items qd qf) = bq_queryName ` set qd \<union> fq_queryName ` set qf"
proof -
  have "fst ` set (fold (\<lambda>(k, f) m. map_set k (Formula_Item f) m) fs m) = fst ` set m \<union> fst ` set fs"
    for fs :: "(string \<times> formula_query) list" and m
    by (induction fs arbitrary: m) (auto simp: dom_map_set split: prod.splits)
  then show ?thesis
    by (simp add: builder_items_def mapQueryDataToApi_def fold_map_set_keys image_image case_prod_beta)
qed

lemma builder_items_formula:
  assumes "(k, Formula_Item f) \<in> set (builder_items qd qf)"
  shows "f \<in> set qf"
proof -
  have "(k, Formula_Item f) \<in> set m \<or> (k, f) \<in> set fs"
    if "(k, Formula_Item f) \<in> set (fold (\<lambda>(k, f) m. map_set k (Formula_Item f) m) fs m)" for fs m
    using that by (induction fs arbitrary: m) (fastforce dest: map_set_mem split: prod.splits)+
  note this [where fs = "fst (mapQueryDataToApi fq_queryName fq_legend id qf)"
      and m = "map (\<lambda>(k, q). (k, Data_Item q)) (fst (mapQueryDataToApi bq_queryName bq_legend id qd))"]
  with assms have "(k, f) \<in> set (fst (mapQueryDataToApi fq_queryName fq_legend id qf))"
    unfolding builder_items_def by auto
  then show ?thesis
    by (auto simp: mapQueryDataToApi_def dest: fold_map_set_mem)
qed

lemma serialized_names:
  assumes "\<forall>f\<in>set (eq_queryFormulas q). js_trim (fq_expression f) \<noteq> ''''"
  shows "set (envelope_names (cq_queries (serializeCompositeQuery q))) \<union>
         set (formula_names (cq_queries (serializeCompositeQuery q))) =
         bq_queryName ` set (eq_queryData q) \<union> fq_queryName ` set (eq_queryFormulas q)"
proof -
  let ?m = "builder_items (eq_queryData q) (eq_queryFormulas q)"
  have formulas: "formula_names (convertFormulasToV5 fs) = map fst (object_entries fs)"
    "envelope_names (convertFormulasToV5 fs) = []"
    if "\<forall>(k, f)\<in>set fs. js_trim (fq_expression f) \<noteq> ''''" for fs
  proof -
    have "concat (map (\<lambda>x. [g x]) xs) = map g xs" for g :: "string \<times> formula_query \<Rightarrow> string" and xs
      by (induction xs) auto
    moreover have "filter (\<lambda>(k, f). js_trim (fq_expression f) \<noteq> '''') (object_entries fs) = object_entries fs"
      using that by (auto simp: filter_id_conv object_entries_set)
    ultimately show "formula_names (convertFormulasToV5 fs) = map fst (object_entries fs)"
      by (simp add: formula_names_def convertFormulasToV5_def comp_def case_prod_beta)
    show "envelope_names (convertFormulasToV5 fs) = []"
      by (auto simp: envelope_names_def convertFormulasToV5_def)
  qed
  have "\<forall>(k, f)\<in>set (formula_items (object_entries ?m)). js_trim (fq_expression f) \<noteq> ''''"
    using assms builder_items_formula by (auto simp: formula_items_mem object_entries_set)
  note names = formulas [OF this]
  have "set (envelope_names (cq_queries (serializeCompositeQuery q))) \<union>
      set (formula_names (cq_queries (serializeCompositeQuery q))) =
      fst ` set (data_items (object_entries ?m)) \<union> fst ` set (formula_items (object_entries ?m))"
    by (simp add: serializeCompositeQuery_def compositeQueryToQueryEnvelope_def Let_def names object_entries_set)
  also have "\<dots> = fst ` set ?m"
  proof -
    have "k \<in> fst ` set (data_items m) \<union> fst ` set (formula_items m)" if "(k, i) \<in> set m" for k i m
      using that by (cases i) (metis UnI1 UnI2 data_items_mem formula_items_mem fst_conv image_eqI)+
    moreover have "k \<in> fst ` set m" if "(k, x) \<in> set (data_items m)" for k x m
      using that by (force simp: data_items_mem)
    moreover have "k \<in> fst ` set m" if "(k, x) \<in> set (formula_items m)" for k x m
      using that by (force simp: formula_items_mem)
    ultimately have "fst ` set (data_items m) \<union> fst ` set (formula_items m) = fst ` set m" for m
      by fastforce
    then show ?thesis by (simp add: object_entries_set)
  qed
  finally show ?thesis by (simp add: builder_items_keys)
qed

lemma query_shape_formulas:
  "validateQueryShape q = None \<Longrightarrow> \<forall>f\<in>set (eq_queryFormulas q). js_trim (fq_expression f) \<noteq> ''''"
  by (auto simp: validateQueryShape_def validateFormulaDrafts_def split: if_splits)

lemma evaluation_valid: "validateEvaluation d = None \<Longrightarrow> evaluation_ok (ad_evaluation d)"
  by (auto simp: validateEvaluation_def evaluation_ok_def Let_def truthy_num_def num_or_def
      split: if_splits option.splits alert_evaluation.splits)

lemma threshold_valid:
  "threshold_error t = None \<longleftrightarrow>
     is_finite (td_target t) \<and> (td_recoveryTarget t = None \<or> is_finite (td_recoveryTarget t))"
  by (auto simp: threshold_error_def is_finite_def)

lemma condition_valid:
  assumes "validateCondition d = None"
  shows "check_ok (rc_check (serializeCondition d q))"
proof (cases "ad_condition d")
  case (Numeric_Draft n r opr ts)
  with assms have "ts \<noteq> []" "length ts \<le> 3" "\<forall>t\<in>set ts. threshold_error t = None"
    by (auto simp: validateCondition_def simp del: length_0_conv split: if_splits)
  with Numeric_Draft show ?thesis
    by (simp add: check_ok_def serializeCondition_def Let_def rule_threshold_of_def threshold_valid)
next
  case (Boolean_Draft n p s)
  with assms show ?thesis
    by (simp add: check_ok_def serializeCondition_def Let_def validateCondition_def split: if_splits)
qed

text \<open>
  Whatever is sent has passed the editor's checks: it has a name, evaluates a query or formula that
  its own composite query holds, asks for a no-data duration exactly when the check is on, evaluates
  at least once per window, and has one to three finite thresholds or a severity.
\<close>

theorem sent_rule_ok:
  assumes "serializeBasicAlertDraft d q source = Inr rule"
  shows "rule_ok rule"
proof -
  have v: "validateBasicAlertDraft d q = None" using assms by (simp add: serialize_ok)
  then have shape: "validateQueryShape q = None" and dq: "validateDataQuality d = None"
    by (simp_all add: validate_ok)
  have "condition_name (ad_condition d) \<in>
      bq_queryName ` set (eq_queryData q) \<union> fq_queryName ` set (eq_queryFormulas q)"
    using v by (auto simp: validate_ok queryNames_def)
  then have "condition_name (ad_condition d) \<in>
      set (envelope_names (cq_queries (serializeCompositeQuery q))) \<union>
      set (formula_names (cq_queries (serializeCompositeQuery q)))"
    using serialized_names [OF query_shape_formulas [OF shape]] by blast
  moreover have "evaluation_ok (ad_evaluation d)" "check_ok (rc_check (serializeCondition d q))"
    using v by (simp_all add: validate_ok evaluation_valid condition_valid)
  moreover have "js_trim (ad_name d) \<noteq> ''''" using v by (simp add: validate_ok)
  moreover have "is_integer (dd_minPoints (ad_dataQuality d))" "\<not> is_negative (dd_minPoints (ad_dataQuality d))"
    "dd_alertOnNoData (ad_dataQuality d) \<longrightarrow> truthy_num (durationInSeconds (dd_noDataFor (ad_dataQuality d)))"
    using dq by (auto simp: validateDataQuality_def Let_def split: if_splits)
  ultimately show ?thesis
    using assms by (auto simp: serialize_ok rule_ok_def Let_def isV3BasicAlertRule_def serializeCondition_def)
qed

theorem sent_rule_ok_witness:
  "\<exists>rule. serializeBasicAlertDraft sample_draft sample_editor_query None = Inr rule \<and> rule_ok rule"
proof -
  obtain rule where r: "serializeBasicAlertDraft sample_draft sample_editor_query None = Inr rule"
    by (simp add: serializeBasicAlertDraft_def sample_draft_valid)
  from sent_rule_ok [OF r] r show ?thesis by blast
qed

end
