(* ===== verification/Query_Reopen.thy ===== *)
theory Query_Reopen
  imports Alert_Draft
begin

section \<open>From the envelopes of a rule back to the editor\<close>

text \<open>
  \<open>utils/convertNewToOldQueryBuilder.ts\<close>, \<open>mapQueryDataFromApi.ts\<close> and
  \<open>lib/newQueryBuilder/transformQueryBuilderDataModel.ts\<close>: a saved composite query becomes the query of
  the editor again, its missing fields filled from the initial form of a metrics query. The theory shows
  that saving what was opened sends the same envelopes.
\<close>

subsection \<open>The initial form\<close>

definition initialAutocompleteData :: autocomplete_data where
  "initialAutocompleteData = \<lparr>ac_id = Some ''----'', ac_dataType = Some DT_EMPTY, ac_key = '''', ac_type = Some ''''\<rparr>"

text \<open>The fields of \<open>initialQueryBuilderFormValues\<close> that the editor's queries have.\<close>

definition initial_form :: builder_query where
  "initial_form =
     \<lparr>bq_queryName = ''A'', bq_dataSource = METRICS, bq_aggregateAttribute = Some initialAutocompleteData,
      bq_attributeTemporality = None,
      bq_aggregations =
        [\<lparr>ai_expression = '''', ai_alias = None, ai_metricName = Some '''', ai_temporality = Some '''',
          ai_timeAggregation = Some ''avg'', ai_spaceAggregation = Some ''sum'', ai_reduceTo = Some ''avg''\<rparr>],
      bq_timeAggregation = Some ''rate'', bq_spaceAggregation = Some ''sum'', bq_functions = [],
      bq_filter = Some '''', bq_filters = Some \<lparr>tg_items = [], tg_op = ''AND''\<rparr>, bq_groupBy = [],
      bq_disabled = False, bq_having = Having_Items [], bq_limit = None, bq_stepInterval = None,
      bq_orderBy = [], bq_reduceTo = Some ''avg'', bq_legend = '''', bq_pageSize = None, bq_offset = None,
      bq_selectColumns = None, bq_source = ''''\<rparr>"

subsection \<open>Queries and formulas\<close>

definition group_of :: "group_by_key \<Rightarrow> autocomplete_data" where
  "group_of g =
     \<lparr>ac_id = Some (gk_name g @ ''--'' @ gk_fieldDataType g @ ''--'' @ gk_fieldContext g),
      ac_dataType = data_type_of (gk_fieldDataType g), ac_key = gk_name g, ac_type = Some (gk_fieldContext g)\<rparr>"

definition order_by_of :: "string \<times> string \<Rightarrow> order_by" where
  "order_by_of ord = \<lparr>ob_columnName = fst ord, ob_order = snd ord\<rparr>"

definition function_of :: "v5_function \<Rightarrow> query_function" where
  "function_of f = \<lparr>qf_name = vf_name f, qf_args = vf_args f, qf_namedArgs = None\<rparr>"

definition aggregation_of :: "v5_aggregation \<Rightarrow> aggregation_item" where
  "aggregation_of a =
     (case a of
        Expression_Aggregation e al \<Rightarrow>
          \<lparr>ai_expression = e, ai_alias = al, ai_metricName = None, ai_temporality = None,
           ai_timeAggregation = None, ai_spaceAggregation = None, ai_reduceTo = None\<rparr>
      | Metric_Aggregation m \<Rightarrow>
          \<lparr>ai_expression = '''', ai_alias = None, ai_metricName = ma_metricName m,
           ai_temporality = ma_temporality m, ai_timeAggregation = ma_timeAggregation m,
           ai_spaceAggregation = ma_spaceAggregation m, ai_reduceTo = ma_reduceTo m\<rparr>)"

definition list_or :: "'a list option \<Rightarrow> 'a list" where
  "list_or l = (case l of Some xs \<Rightarrow> xs | None \<Rightarrow> [])"

text \<open>
  \<open>{ ...initialQueryBuilderFormValuesMap.metrics, ...convertBuilderQueryToIBuilderQuery(spec) }\<close>: a field the
  specification leaves out reads as the empty one, as it does where the request is built.
\<close>

definition convertBuilderQueryToIBuilderQuery :: "builder_spec \<Rightarrow> builder_query" where
  "convertBuilderQueryToIBuilderQuery s =
     (let b = sp_base s in
      initial_form
        \<lparr>bq_queryName := sp_name s,
         bq_dataSource := sp_signal s,
         bq_aggregations := map aggregation_of (list_or (sp_aggregations s)),
         bq_functions := map function_of (list_or (bs_functions b)),
         bq_filter := Some (bs_filter b),
         bq_groupBy := map group_of (list_or (bs_groupBy b)),
         bq_disabled := bs_disabled b,
         bq_having := (case bs_having b of Some h \<Rightarrow> h | None \<Rightarrow> Having_Items []),
         bq_limit := bs_limit b,
         bq_stepInterval := bs_stepInterval b,
         bq_orderBy := map order_by_of (list_or (bs_order b)),
         bq_legend := str_or (bs_legend b) '''',
         bq_offset := bs_offset b,
         bq_source := str_or (sp_source s) ''''\<rparr>)"

definition convertQueryBuilderFormulaToIBuilderFormula :: "formula_spec \<Rightarrow> formula_query" where
  "convertQueryBuilderFormulaToIBuilderFormula s =
     \<lparr>fq_queryName = fs_name s, fq_expression = fs_expression s, fq_disabled = fs_disabled s,
      fq_legend = str_or (fs_legend s) '''', fq_limit = truthy_or (fs_limit s) None,
      fq_orderBy = map_option (map order_by_of) (fs_order s)\<rparr>"

subsection \<open>The query of the editor\<close>

definition put_envelope :: "query_envelope \<Rightarrow> (string \<times> builder_item) list \<Rightarrow> (string \<times> builder_item) list" where
  "put_envelope e m =
     (case e of
        Builder_Query s \<Rightarrow>
          (if sp_name s = '''' then m else map_set (sp_name s) (Data_Item (convertBuilderQueryToIBuilderQuery s)) m)
      | Builder_Formula s \<Rightarrow>
          (if fs_name s = '''' then m
           else map_set (fs_name s) (Formula_Item (convertQueryBuilderFormulaToIBuilderFormula s)) m))"

definition transformQueryBuilderDataModel ::
  "(string \<times> builder_item) list \<Rightarrow> builder_query list \<times> formula_query list" where
  "transformQueryBuilderDataModel items =
     (map snd (data_items (object_entries items)), map snd (formula_items (object_entries items)))"

text \<open>\<open>unit\<close> is the deprecated field of rules saved before units were split.\<close>

definition mapQueryDataFromApi :: "string option \<Rightarrow> composite_query \<Rightarrow> editor_query" where
  "mapQueryDataFromApi unit c =
     (let (queryData, queryFormulas) = transformQueryBuilderDataModel (fold put_envelope (cq_queries c) [])
      in \<lparr>eq_queryType = cq_queryType c, eq_queryData = queryData, eq_queryFormulas = queryFormulas,
          eq_resultUnit = coalesce (cq_resultUnit c) unit,
          eq_displayUnit = coalesce (cq_displayUnit c) (coalesce (cq_resultUnit c) unit)\<rparr>)"

definition queryFromV3Rule :: "string option \<Rightarrow> alert_rule \<Rightarrow> editor_query" where
  "queryFromV3Rule unit rule = mapQueryDataFromApi unit (rc_compositeQuery (ar_condition rule))"

subsection \<open>A specification reopens\<close>

definition plain_alias :: "string option \<Rightarrow> bool" where
  "plain_alias al = (case al of None \<Rightarrow> True | Some a \<Rightarrow> a \<noteq> [] \<and> strip_quotes a = a)"

definition stable_aggregation :: "v5_aggregation \<Rightarrow> bool" where
  "stable_aggregation a =
     (case a of
        Expression_Aggregation _ al \<Rightarrow> plain_alias al
      | Metric_Aggregation m \<Rightarrow>
          ma_metricName m \<noteq> None \<and> ma_temporality m \<noteq> Some '''' \<and>
          truthy_str (ma_timeAggregation m) \<and> truthy_str (ma_spaceAggregation m))"

text \<open>
  A query that survives being reopened: its functions have no named arguments, which are written as
  arguments and lose their names, and its aggregations are complete.
\<close>

definition stable_query :: "builder_query \<Rightarrow> bool" where
  "stable_query q \<longleftrightarrow>
     (\<forall>f\<in>set (bq_functions q). qf_namedArgs f = None \<or> qf_namedArgs f = Some []) \<and>
     list_all stable_aggregation (createAggregation q (Some P_TIME_SERIES))"

lemma data_type_of_text: "data_type_of (data_type_text d) = Some d"
  by (cases d) (simp_all add: data_type_of_def data_type_text_def)

lemma group_reopens: "group_by_key_of (group_of (group_by_key_of k)) = group_by_key_of k"
  using data_type_of_text [of DT_EMPTY]
  by (cases "ac_dataType k")
    (simp_all add: group_by_key_of_def group_of_def data_type_of_text data_type_text_def [of DT_EMPTY])

lemma normalize_function_idem: "normalizeFunctionName (normalizeFunctionName n) = normalizeFunctionName n"
proof (cases "normalizeFunctionName n = n")
  case False
  then have "normalizeFunctionName n \<in> set [''timeShift'', ''cutOffMin'', ''cutOffMax'', ''clampMin'', ''clampMax'',
      ''absolute'', ''runningDiff'', ''log2'', ''log10'', ''cumulativeSum'', ''ewma3'', ''ewma5'', ''ewma7'',
      ''median3'', ''median5'', ''median7'', ''anomaly'', ''fillZero'']"
    by (auto simp: normalizeFunctionName_def split: if_splits)
  moreover have "list_all (\<lambda>m. normalizeFunctionName m = m) [''timeShift'', ''cutOffMin'', ''cutOffMax'', ''clampMin'',
      ''clampMax'', ''absolute'', ''runningDiff'', ''log2'', ''log10'', ''cumulativeSum'', ''ewma3'', ''ewma5'',
      ''ewma7'', ''median3'', ''median5'', ''median7'', ''anomaly'', ''fillZero'']"
    by code_simp
  ultimately show ?thesis unfolding list_all_iff by blast
qed simp

lemma function_reopens:
  assumes "qf_namedArgs f = None \<or> qf_namedArgs f = Some []"
  shows "v5_function_of (function_of (v5_function_of f)) = v5_function_of f"
proof -
  have "vf_args (v5_function_of f) = map_option (map (\<lambda>a. \<lparr>fa_name = None, fa_value = fa_value a\<rparr>)) (qf_args f)"
    using assms by (auto simp: v5_function_of_def)
  moreover have "vf_name (v5_function_of f) = normalizeFunctionName (qf_name f)" by (simp add: v5_function_of_def)
  ultimately show ?thesis
    by (cases "qf_args f") (simp_all add: v5_function_of_def function_of_def normalize_function_idem)
qed

text \<open>An expression that was read is a single call, so it is read again as itself.\<close>

lemma call_length_cases:
  assumes "0 < call_length s"
  obtains name args rest where "s = name @ ''('' @ args @ '')'' @ rest" "name \<noteq> []" "list_all is_word_char name"
    "CHR '')'' \<notin> set args"
proof -
  define r where "r = dropWhile is_word_char s"
  have r: "drop (run_length is_word_char s) s = r" by (simp add: r_def dropWhile_eq_drop)
  have c: "0 < run_length is_word_char s" "r \<noteq> []" "hd r = CHR ''(''"
    "drop (1 + run_length (\<lambda>c. c \<noteq> CHR '')'') (drop 1 r)) r \<noteq> []"
    using assms unfolding call_length_def Let_def r by (auto split: if_splits)
  then obtain r' where r': "r = CHR ''('' # r'" by (cases r) auto
  have "dropWhile (\<lambda>c. c \<noteq> CHR '')'') r' \<noteq> []" using c(4) by (simp add: r' dropWhile_eq_drop)
  then have "dropWhile (\<lambda>c. c \<noteq> CHR '')'') r' = CHR '')'' # tl (dropWhile (\<lambda>c. c \<noteq> CHR '')'') r')"
    using hd_dropWhile [of "\<lambda>c. c \<noteq> CHR '')''" r'] by (cases "dropWhile (\<lambda>c. c \<noteq> CHR '')'') r'") auto
  then obtain rest where rest: "dropWhile (\<lambda>c. c \<noteq> CHR '')'') r' = CHR '')'' # rest" by blast
  have s1: "takeWhile is_word_char s @ CHR ''('' # r' = s"
    unfolding r' [symmetric] r_def by (rule takeWhile_dropWhile_id)
  have r1: "takeWhile (\<lambda>c. c \<noteq> CHR '')'') r' @ CHR '')'' # rest = r'"
    unfolding rest [symmetric] by (rule takeWhile_dropWhile_id)
  have "s = takeWhile is_word_char s @ ''('' @ takeWhile (\<lambda>c. c \<noteq> CHR '')'') r' @ '')'' @ rest"
    by (simp add: r1 s1)
  moreover have "takeWhile is_word_char s \<noteq> []" using c(1) by auto
  moreover have "list_all is_word_char (takeWhile is_word_char s)"
    by (auto simp: list_all_iff dest: set_takeWhileD)
  moreover have "CHR '')'' \<notin> set (takeWhile (\<lambda>c. c \<noteq> CHR '')'') r')" by (auto dest: set_takeWhileD)
  ultimately show ?thesis by (rule that)
qed

lemma parsed_call_again:
  assumes "0 < call_length s"
  shows "parse_aggregations_from (take (call_length s) s) b = [parsed_aggregation (take (call_length s) s) b]"
proof -
  obtain name args rest where c: "s = name @ ''('' @ args @ '')'' @ rest" "name \<noteq> []" "list_all is_word_char name"
    "CHR '')'' \<notin> set args"
    using call_length_cases [OF assms] by blast
  have "call_length s = length (name @ ''('' @ args @ '')'')"
    unfolding c(1) by (rule call_length_call [OF c(2-4)])
  then have t: "take (call_length s) s = render_aggregation (name, args, None)" by (simp add: c(1))
  from parse_rendered [of "(name, args, None)" "[]" b] c(2-4)
  have "parse_aggregations_from (render_aggregation (name, args, None)) b =
      [read_aggregation b (name, args, None)]"
    by (simp add: plain_aggregation_def parse_aggregations_from.simps [of "[]"])
  then show ?thesis unfolding t by (simp add: read_aggregation_def)
qed

definition single_call :: "v5_aggregation \<Rightarrow> bool" where
  "single_call a =
     (case a of
        Expression_Aggregation e _ \<Rightarrow> (\<forall>b. parse_aggregations_from e b = [parsed_aggregation e b])
      | Metric_Aggregation _ \<Rightarrow> False)"

lemma parsed_single_calls: "list_all single_call (parse_aggregations_from s b)"
proof (induction s b rule: parse_aggregations_from.induct)
  case (1 s b)
  have "single_call (parsed_aggregation (take (call_length s) s) al)" if "0 < call_length s" for al
    using parsed_call_again [OF that] by (simp add: single_call_def parsed_aggregation_def)
  with 1 show ?case
    by (subst parse_aggregations_from.simps) (auto simp: Let_def split: option.splits)
qed

lemma stable_alias: "plain_alias al \<Longrightarrow> parsed_aggregation e al = Expression_Aggregation e al"
  by (auto simp: plain_alias_def parsed_aggregation_def truthy_str_def split: option.splits)

lemma single_call_count: "single_call count_aggregation"
proof -
  have "call_length ''count()'' = 7" by code_simp
  with parsed_call_again [of "''count()''"] show ?thesis
    by (simp add: single_call_def count_aggregation_def)
qed

lemma expression_aggregations:
  assumes "bq_dataSource q \<noteq> METRICS"
  shows "list_all single_call (createAggregation q p)"
proof -
  have "list_all single_call (parseAggregations e al)" for e al
    by (simp add: parseAggregations_def parsed_single_calls)
  with assms show ?thesis
    by (auto simp: createAggregation_def single_call_count list_all_iff Let_def)
qed

lemma stable_expression_reopens:
  assumes "single_call a" "stable_aggregation a"
  shows "(let parsed = parseAggregations (ai_expression (aggregation_of a)) (ai_alias (aggregation_of a))
          in if parsed = [] then [count_aggregation] else parsed) = [a]"
  using assms
  by (cases a) (simp_all add: single_call_def stable_aggregation_def aggregation_of_def parseAggregations_def stable_alias)

lemma stable_metric_reopens:
  assumes "stable_aggregation (Metric_Aggregation m)" "ma_reduceTo m = None"
    and q: "bq_aggregations q = [aggregation_of (Metric_Aggregation m)]" "bq_aggregateAttribute q = Some initialAutocompleteData"
      "bq_attributeTemporality q = None"
  shows "metric_aggregation_of q (Some P_TIME_SERIES) = m"
  using assms
  by (cases m) (auto simp: metric_aggregation_of_def Let_def first_aggregation_def aggregation_of_def
      initialAutocompleteData_def stable_aggregation_def or_text_def truthy_str_def reduces_def to_lower_def
      split: option.splits if_splits)

lemma aggregations_reopen:
  assumes "stable_query q" "sp_aggregations s = Some (createAggregation q (Some P_TIME_SERIES))"
    "sp_signal s = bq_dataSource q"
  shows "createAggregation (convertBuilderQueryToIBuilderQuery s) (Some P_TIME_SERIES) =
           createAggregation q (Some P_TIME_SERIES)"
proof -
  let ?q = "convertBuilderQueryToIBuilderQuery s" and ?agg = "createAggregation q (Some P_TIME_SERIES)"
  have q: "bq_dataSource ?q = bq_dataSource q" "bq_aggregations ?q = map aggregation_of ?agg"
    "bq_aggregateAttribute ?q = Some initialAutocompleteData" "bq_attributeTemporality ?q = None"
    using assms(2,3) by (simp_all add: convertBuilderQueryToIBuilderQuery_def Let_def initial_form_def list_or_def)
  show ?thesis
  proof (cases "bq_dataSource q = METRICS")
    case True
    define m where "m = metric_aggregation_of q (Some P_TIME_SERIES)"
    have agg: "?agg = [Metric_Aggregation m]" using True by (simp add: createAggregation_def m_def)
    moreover have "ma_reduceTo m = None" by (simp add: m_def metric_aggregation_of_def Let_def reduces_def)
    ultimately have "metric_aggregation_of ?q (Some P_TIME_SERIES) = m"
      using assms(1) q by (intro stable_metric_reopens) (simp_all add: stable_query_def)
    with True agg q(1) show ?thesis by (simp add: createAggregation_def)
  next
    case False
    have one: "list_all single_call ?agg" "list_all stable_aggregation ?agg"
      using expression_aggregations [OF False] assms(1) by (simp_all add: stable_query_def)
    have "concat (map (\<lambda>a. let parsed = parseAggregations (ai_expression a) (ai_alias a)
        in if parsed = [] then [count_aggregation] else parsed) (map aggregation_of as)) = as"
      if "list_all single_call as" "list_all stable_aggregation as" for as
      using that
    proof (induction as)
      case (Cons a as)
      then show ?case using stable_expression_reopens [of a] by simp
    qed simp
    from this [OF one] show ?thesis
      using False q createAggregation_nonempty [of q "Some P_TIME_SERIES"]
      by (subst createAggregation_def) (simp only: if_False q map_is_Nil_conv not_False_eq_True if_True)
  qed
qed

lemma map_fixed: "(\<And>x. x \<in> set xs \<Longrightarrow> f (g (h x)) = h x) \<Longrightarrow> map f (map g (map h xs)) = map h xs"
  by simp

lemma groups_reopen: "map group_by_key_of (map group_of (map group_by_key_of ks)) = map group_by_key_of ks"
  by (rule map_fixed) (rule group_reopens)

lemma functions_reopen:
  "\<forall>f\<in>set fs. qf_namedArgs f = None \<or> qf_namedArgs f = Some [] \<Longrightarrow>
     map v5_function_of (map function_of (map v5_function_of fs)) = map v5_function_of fs"
  by (rule map_fixed) (auto intro: function_reopens)

lemma order_reopens [simp]: "order_of (order_by_of o') = o'"
  by (simp add: order_of_def order_by_of_def)

lemma orders_reopen: "map order_of (map order_by_of os) = os"
  by (induction os) auto

lemma reopened_fields:
  assumes "s = builder_spec_of R_time_series (Some P_TIME_SERIES) (k, q)"
  shows "bq_queryName (convertBuilderQueryToIBuilderQuery s) = k"
    "bq_dataSource (convertBuilderQueryToIBuilderQuery s) = bq_dataSource q"
    "bq_disabled (convertBuilderQueryToIBuilderQuery s) = bq_disabled q"
    "bq_stepInterval (convertBuilderQueryToIBuilderQuery s) = truthy_or (bq_stepInterval q) (Some 60)"
    "getFilter (convertBuilderQueryToIBuilderQuery s) = getFilter q"
    "bq_groupBy (convertBuilderQueryToIBuilderQuery s) = map group_of (map group_by_key_of (bq_groupBy q))"
    "bq_orderBy (convertBuilderQueryToIBuilderQuery s) = map order_by_of (map order_of (bq_orderBy q))"
    "bq_legend (convertBuilderQueryToIBuilderQuery s) = bq_legend q"
    "bq_functions (convertBuilderQueryToIBuilderQuery s) = map function_of (map v5_function_of (bq_functions q))"
    "bq_having (convertBuilderQueryToIBuilderQuery s) =
       (if empty_having (bq_having q) then Having_Items [] else bq_having q)"
    "bq_source (convertBuilderQueryToIBuilderQuery s) = (if bq_dataSource q = METRICS then bq_source q else '''')"
  using assms
  by (auto simp: convertBuilderQueryToIBuilderQuery_def builder_spec_of_def createBaseSpec_def Let_def initial_form_def
      list_or_def str_or_def truthy_str_def
      getFilter_def empty_having_def split: option.splits having_clause.splits)

lemma same_spec:
  "bq_dataSource c = bq_dataSource q \<Longrightarrow> (bq_dataSource q = METRICS \<Longrightarrow> bq_source c = bq_source q) \<Longrightarrow>
     createBaseSpec c r p = createBaseSpec q r p \<Longrightarrow> createAggregation c p = createAggregation q p \<Longrightarrow>
     builder_spec_of r p (k, c) = builder_spec_of r p (k, q)"
  by (simp add: builder_spec_of_def)

lemma spec_reopens:
  assumes "stable_query q"
  shows "builder_spec_of R_time_series (Some P_TIME_SERIES)
           (k, convertBuilderQueryToIBuilderQuery (builder_spec_of R_time_series (Some P_TIME_SERIES) (k, q))) =
         builder_spec_of R_time_series (Some P_TIME_SERIES) (k, q)"
proof -
  define s where "s = builder_spec_of R_time_series (Some P_TIME_SERIES) (k, q)"
  note f = reopened_fields [OF s_def]
  have "\<forall>f\<in>set (bq_functions q). qf_namedArgs f = None \<or> qf_namedArgs f = Some []"
    using assms by (simp add: stable_query_def)
  note fs = functions_reopen [OF this]
  have step: "truthy_or (truthy_or x (Some 60)) (Some 60) = truthy_or x (Some 60)" for x
    by (simp add: truthy_or_def)
  have "createBaseSpec (convertBuilderQueryToIBuilderQuery s) R_time_series (Some P_TIME_SERIES) =
      createBaseSpec q R_time_series (Some P_TIME_SERIES)"
    by (simp only: createBaseSpec_def f fs step groups_reopen orders_reopen Let_def map_is_Nil_conv)
      (simp add: empty_having_def step)
  moreover have "createAggregation (convertBuilderQueryToIBuilderQuery s) (Some P_TIME_SERIES) =
      createAggregation q (Some P_TIME_SERIES)"
    by (rule aggregations_reopen) (simp_all add: assms s_def builder_spec_of_def)
  ultimately have "builder_spec_of R_time_series (Some P_TIME_SERIES) (k, convertBuilderQueryToIBuilderQuery s) =
      builder_spec_of R_time_series (Some P_TIME_SERIES) (k, q)"
    by (intro same_spec) (simp_all add: f)
  then show ?thesis by (simp only: s_def)
qed

subsection \<open>A composite query reopens\<close>

text \<open>Entries with different keys are put one after the other.\<close>

lemma fold_map_set_names:
  "distinct (map name qs) \<Longrightarrow> fold (\<lambda>q m. map_set (name q) q m) qs [] = map (\<lambda>q. (name q, q)) qs"
proof -
  assume "distinct (map name qs)"
  then have "fold (\<lambda>(k, v) m. map_set k (id v) m) (map (\<lambda>q. (name q, q)) qs) [] =
      [] @ map (\<lambda>(k, v). (k, id v)) (map (\<lambda>q. (name q, q)) qs)"
    by (intro fold_map_set_entries) (simp_all add: comp_def)
  then show ?thesis by (simp add: fold_map comp_def)
qed

definition stable_formula :: "formula_query \<Rightarrow> bool" where
  "stable_formula f \<longleftrightarrow> js_trim (fq_expression f) \<noteq> '''' \<and> fq_limit f \<noteq> Some 0"

text \<open>A query of the editor whose names are all different, and whose queries and formulas are stable.\<close>

definition stable_editor_query :: "editor_query \<Rightarrow> bool" where
  "stable_editor_query q \<longleftrightarrow>
     (let names = map bq_queryName (eq_queryData q) @ map fq_queryName (eq_queryFormulas q) in
      distinct names \<and> '''' \<notin> set names \<and>
      list_all stable_query (eq_queryData q) \<and> list_all stable_formula (eq_queryFormulas q))"

abbreviation time_series_spec :: "string \<times> builder_query \<Rightarrow> builder_spec" where
  "time_series_spec e \<equiv> builder_spec_of R_time_series (Some P_TIME_SERIES) e"

definition composite_formula :: "string \<times> formula_query \<Rightarrow> formula_spec" where
  "composite_formula e =
     \<lparr>fs_name = fst e, fs_expression = fq_expression (snd e), fs_disabled = fq_disabled (snd e),
      fs_limit = fq_limit (snd e), fs_legend = Some (fq_legend (snd e)),
      fs_order = map_option (map order_of) (fq_orderBy (snd e))\<rparr>"

text \<open>What a composite query holds, for queries and formulas given as entries with different keys.\<close>

definition items_of :: "(string \<times> builder_query) list \<Rightarrow> (string \<times> formula_query) list \<Rightarrow> (string \<times> builder_item) list" where
  "items_of ds fs = map (\<lambda>(k, q). (k, Data_Item q)) ds @ map (\<lambda>(k, f). (k, Formula_Item f)) fs"

lemma items_of_parts: "data_items (items_of ds fs) = ds" "formula_items (items_of ds fs) = fs"
proof -
  have "data_items (map (\<lambda>(k, f). (k, Formula_Item f)) fs) = []" by (induction fs) (auto simp: data_items_def)
  then show "data_items (items_of ds fs) = ds" by (simp add: items_of_def data_items_of)
  have "formula_items (map (\<lambda>(k, f). (k, Formula_Item f)) fs) = fs" by (induction fs) (auto simp: formula_items_def)
  moreover have "formula_items (map (\<lambda>(k, q). (k, Data_Item q)) ds) = []"
    by (induction ds) (auto simp: formula_items_def)
  ultimately show "formula_items (items_of ds fs) = fs" by (simp add: items_of_def formula_items_pick)
qed

lemma builder_items_distinct:
  assumes "distinct (map bq_queryName qd @ map fq_queryName qf)"
  shows "builder_items qd qf = items_of (map (\<lambda>q. (bq_queryName q, q)) qd) (map (\<lambda>f. (fq_queryName f, f)) qf)"
proof -
  have "fold (\<lambda>(k, f) m. map_set k (Formula_Item f) m) (map (\<lambda>f. (fq_queryName f, f)) qf)
      (map (\<lambda>q. (bq_queryName q, Data_Item q)) qd) =
      map (\<lambda>q. (bq_queryName q, Data_Item q)) qd @ map (\<lambda>(k, f). (k, Formula_Item f)) (map (\<lambda>f. (fq_queryName f, f)) qf)"
    using assms by (intro fold_map_set_entries) (simp_all add: comp_def image_image Int_commute)
  with assms show ?thesis
    by (simp add: builder_items_def mapQueryDataToApi_def items_of_def fold_map_set_names comp_def id_def)
qed

lemma composite_of_items:
  assumes "\<forall>(k, f)\<in>set fs. js_trim (fq_expression f) \<noteq> ''''"
  shows "cq_queries (compositeQueryToQueryEnvelope (items_of ds fs) t P_TIME_SERIES u r d) =
    map (\<lambda>e. Builder_Query (time_series_spec e)) (object_entries ds) @
    map (\<lambda>e. Builder_Formula (composite_formula e)) (object_entries fs)"
proof -
  have "filter (\<lambda>(k, f). js_trim (fq_expression f) \<noteq> '''') (object_entries fs) = object_entries fs"
    using assms by (auto simp: filter_id_conv object_entries_set)
  then show ?thesis
    by (simp add: compositeQueryToQueryEnvelope_def Let_def data_items_entries formula_items_entries items_of_parts
        convertBuilderQueriesToV5_def convertFormulasToV5_def object_entries_idem mapPanelTypeToRequestType_def
        composite_formula_def case_prod_beta)
qed

text \<open>Reading the envelopes puts one item after the other.\<close>

definition envelope_name :: "query_envelope \<Rightarrow> string" where
  "envelope_name e = (case e of Builder_Query s \<Rightarrow> sp_name s | Builder_Formula s \<Rightarrow> fs_name s)"

definition envelope_item :: "query_envelope \<Rightarrow> builder_item" where
  "envelope_item e =
     (case e of
        Builder_Query s \<Rightarrow> Data_Item (convertBuilderQueryToIBuilderQuery s)
      | Builder_Formula s \<Rightarrow> Formula_Item (convertQueryBuilderFormulaToIBuilderFormula s))"

lemma put_envelope_set: "envelope_name e \<noteq> '''' \<Longrightarrow> put_envelope e m = map_set (envelope_name e) (envelope_item e) m"
  by (simp add: put_envelope_def envelope_name_def envelope_item_def split: query_envelope.splits)

lemma put_envelopes:
  assumes "distinct (map envelope_name es)" "'''' \<notin> envelope_name ` set es"
  shows "fold put_envelope es [] = map (\<lambda>e. (envelope_name e, envelope_item e)) es"
proof -
  have "fold put_envelope es m = fold (\<lambda>e m. map_set (envelope_name e) (envelope_item e) m) es m" for m
    using assms(2) by (induction es arbitrary: m) (auto simp: put_envelope_set)
  moreover have "fold (\<lambda>(k, v) m. map_set k (id v) m) (map (\<lambda>e. (envelope_name e, envelope_item e)) es) [] =
      [] @ map (\<lambda>(k, v). (k, id v)) (map (\<lambda>e. (envelope_name e, envelope_item e)) es)"
    using assms(1) by (intro fold_map_set_entries) (simp_all add: comp_def)
  ultimately show ?thesis by (simp add: fold_map comp_def)
qed

lemma map_entries:
  "object_entries (map (\<lambda>e. (fst e, h e)) m) = map (\<lambda>e. (fst e, h e)) (object_entries m)"
proof -
  have "pick_items (\<lambda>k v. Some (h (k, v))) m = map (\<lambda>e. (fst e, h e)) m" for m
    by (induction m) auto
  with pick_items_entries [of "\<lambda>k v. Some (h (k, v))" m] show ?thesis by simp
qed

lemma spec_name [simp]: "sp_name (builder_spec_of r p e) = fst e"
  by (simp add: builder_spec_of_def split: prod.splits)

lemma converted_name [simp]:
  "bq_queryName (convertBuilderQueryToIBuilderQuery s) = sp_name s"
  "fq_queryName (convertQueryBuilderFormulaToIBuilderFormula f) = fs_name f"
  by (simp_all add: convertBuilderQueryToIBuilderQuery_def convertQueryBuilderFormulaToIBuilderFormula_def Let_def)

lemma composite_formula_name [simp]: "fs_name (composite_formula e) = fst e"
  by (simp add: composite_formula_def)

lemma composite_formula_reopens:
  assumes "fq_limit (snd e) \<noteq> Some 0"
  shows "composite_formula (fst e, convertQueryBuilderFormulaToIBuilderFormula (composite_formula e)) = composite_formula e"
proof -
  have "(\<lambda>x. order_of (order_by_of x)) = id" by (simp add: fun_eq_iff)
  moreover have "truthy_or (fq_limit (snd e)) None = fq_limit (snd e)"
    using assms by (cases "fq_limit (snd e)") (auto simp: truthy_or_def truthy_num_def)
  moreover have "str_or (Some l) [] = l" for l by (simp add: str_or_def truthy_str_def)
  ultimately show ?thesis
    by (simp add: composite_formula_def convertQueryBuilderFormulaToIBuilderFormula_def option.map_comp comp_def)
qed

lemma map_snd_entries: "map snd (map (\<lambda>e. (fst e, h e)) m) = map h m"
  by (simp add: comp_def)

lemma reopened_items:
  assumes "distinct (map fst D @ map fst F)" "'''' \<notin> set (map fst D @ map fst F)"
    and "object_entries D = D" "object_entries F = F"
  shows "transformQueryBuilderDataModel
      (fold put_envelope (map (\<lambda>e. Builder_Query (time_series_spec e)) D @
         map (\<lambda>e. Builder_Formula (composite_formula e)) F) []) =
    (map (\<lambda>e. convertBuilderQueryToIBuilderQuery (time_series_spec e)) D,
     map (\<lambda>e. convertQueryBuilderFormulaToIBuilderFormula (composite_formula e)) F)"
proof -
  let ?es = "map (\<lambda>e. Builder_Query (time_series_spec e)) D @ map (\<lambda>e. Builder_Formula (composite_formula e)) F"
  have names: "map envelope_name ?es = map fst D @ map fst F"
    by (simp add: envelope_name_def comp_def)
  then have "'''' \<notin> envelope_name ` set ?es" using assms(2) by (metis set_map)
  then have "fold put_envelope ?es [] = map (\<lambda>e. (envelope_name e, envelope_item e)) ?es"
    using put_envelopes [of ?es] names assms(1) by (metis (no_types, lifting))
  also have "\<dots> = items_of (map (\<lambda>e. (fst e, convertBuilderQueryToIBuilderQuery (time_series_spec e))) D)
      (map (\<lambda>e. (fst e, convertQueryBuilderFormulaToIBuilderFormula (composite_formula e))) F)"
    by (simp add: items_of_def envelope_name_def envelope_item_def comp_def)
  finally show ?thesis
    by (simp only: transformQueryBuilderDataModel_def data_items_entries formula_items_entries items_of_parts
        map_entries assms(3,4) map_snd_entries)
qed

lemma composite_fields:
  "cq_queryType (compositeQueryToQueryEnvelope items t p u r d) = t"
  "cq_panelType (compositeQueryToQueryEnvelope items t p u r d) = p"
  "cq_resultUnit (compositeQueryToQueryEnvelope items t p u r d) = coalesce r u"
  "cq_displayUnit (compositeQueryToQueryEnvelope items t p u r d) = coalesce d (coalesce r u)"
  "composite_query.more (compositeQueryToQueryEnvelope items t p u r d) = ()"
  by (simp_all add: compositeQueryToQueryEnvelope_def Let_def)

lemma coalesce_again [simp]:
  "coalesce (coalesce a b) b = coalesce a b" "coalesce (coalesce a b) (coalesce b c) = coalesce a (coalesce b c)"
  "coalesce a None = a"
  by (auto simp: coalesce_def split: option.splits)

text \<open>
  C9. Opening the query of a saved rule and saving it again, unchanged, sends the same composite query:
  the same queries, formulas and units, in the same order. The query is a stable one: its names are different and not empty, no
  function has named arguments (which are lost, \<open>named_argument_forgotten\<close>), every aggregation is complete (a metric
  aggregation has its name and both operators, an alias is not empty and not quoted), and every formula has an
  expression and no limit of 0.
\<close>

theorem composite_query_reopens:
  assumes "stable_editor_query q"
  shows "serializeCompositeQuery (mapQueryDataFromApi None (serializeCompositeQuery q)) = serializeCompositeQuery q"
proof -
  define D where "D = object_entries (map (\<lambda>q. (bq_queryName q, q)) (eq_queryData q))"
  define F where "F = object_entries (map (\<lambda>f. (fq_queryName f, f)) (eq_queryFormulas q))"
  let ?qd = "map (\<lambda>e. convertBuilderQueryToIBuilderQuery (time_series_spec e)) D"
  let ?qf = "map (\<lambda>e. convertQueryBuilderFormulaToIBuilderFormula (composite_formula e)) F"
  have d: "distinct (map bq_queryName (eq_queryData q) @ map fq_queryName (eq_queryFormulas q))"
    and stable: "\<forall>e\<in>set D. stable_query (snd e)" "\<forall>e\<in>set F. stable_formula (snd e)"
    using assms by (auto simp: stable_editor_query_def Let_def list_all_iff D_def F_def object_entries_set)
  have keys: "set (map fst D) = bq_queryName ` set (eq_queryData q)" "set (map fst F) = fq_queryName ` set (eq_queryFormulas q)"
    by (simp_all add: D_def F_def object_entries_set image_image)
  have distinct: "distinct (map fst D @ map fst F)"
    using d keys object_entries_distinct [of "map (\<lambda>q. (bq_queryName q, q)) (eq_queryData q)"]
      object_entries_distinct [of "map (\<lambda>f. (fq_queryName f, f)) (eq_queryFormulas q)"]
    by (simp add: D_def F_def comp_def)
  have idem: "object_entries D = D" "object_entries F = F" by (simp_all add: D_def F_def object_entries_idem)
  have first: "cq_queries (serializeCompositeQuery q) =
      map (\<lambda>e. Builder_Query (time_series_spec e)) D @ map (\<lambda>e. Builder_Formula (composite_formula e)) F"
    unfolding serializeCompositeQuery_def builder_items_distinct [OF d] D_def F_def
    by (rule composite_of_items) (use assms in \<open>auto simp: stable_editor_query_def Let_def list_all_iff stable_formula_def\<close>)
  have "transformQueryBuilderDataModel (fold put_envelope (cq_queries (serializeCompositeQuery q)) []) = (?qd, ?qf)"
    unfolding first
    by (rule reopened_items) (use distinct keys idem assms in \<open>auto simp: stable_editor_query_def Let_def\<close>)
  then have reopened: "mapQueryDataFromApi None (serializeCompositeQuery q) =
      \<lparr>eq_queryType = cq_queryType (serializeCompositeQuery q), eq_queryData = ?qd, eq_queryFormulas = ?qf,
       eq_resultUnit = coalesce (cq_resultUnit (serializeCompositeQuery q)) None,
       eq_displayUnit = coalesce (cq_displayUnit (serializeCompositeQuery q))
         (coalesce (cq_resultUnit (serializeCompositeQuery q)) None)\<rparr>"
    by (simp add: mapQueryDataFromApi_def)
  have "map bq_queryName ?qd = map fst D" "map fq_queryName ?qf = map fst F" by (simp_all add: comp_def)
  then have d': "distinct (map bq_queryName ?qd @ map fq_queryName ?qf)" using distinct by (simp only:)
  have items: "builder_items ?qd ?qf =
      items_of (map (\<lambda>e. (fst e, convertBuilderQueryToIBuilderQuery (time_series_spec e))) D)
        (map (\<lambda>e. (fst e, convertQueryBuilderFormulaToIBuilderFormula (composite_formula e))) F)"
    unfolding builder_items_distinct [OF d'] by (simp add: comp_def)
  have again: "cq_queries (compositeQueryToQueryEnvelope (builder_items ?qd ?qf) t P_TIME_SERIES u r w) =
      map (\<lambda>e. Builder_Query (time_series_spec e)) D @ map (\<lambda>e. Builder_Formula (composite_formula e)) F" for t u r w
  proof -
    have "time_series_spec (fst e, convertBuilderQueryToIBuilderQuery (time_series_spec e)) = time_series_spec e"
      if "e \<in> set D" for e
      using spec_reopens [of "snd e" "fst e"] stable(1) that by simp
    moreover have "composite_formula (fst e, convertQueryBuilderFormulaToIBuilderFormula (composite_formula e)) =
        composite_formula e" if "e \<in> set F" for e
      using stable(2) that by (intro composite_formula_reopens) (simp add: stable_formula_def)
    moreover have "fq_expression (convertQueryBuilderFormulaToIBuilderFormula (composite_formula e)) = fq_expression (snd e)" for e
      by (simp add: convertQueryBuilderFormulaToIBuilderFormula_def composite_formula_def)
    ultimately show ?thesis
      unfolding items using stable(2)
      by (subst composite_of_items) (auto simp: map_entries idem stable_formula_def)
  qed
  have once: "serializeCompositeQuery (mapQueryDataFromApi None (serializeCompositeQuery q)) =
      compositeQueryToQueryEnvelope (builder_items ?qd ?qf) (cq_queryType (serializeCompositeQuery q)) P_TIME_SERIES None
        (coalesce (cq_resultUnit (serializeCompositeQuery q)) None)
        (coalesce (cq_displayUnit (serializeCompositeQuery q)) (coalesce (cq_resultUnit (serializeCompositeQuery q)) None))"
    unfolding reopened by (simp add: serializeCompositeQuery_def [of "\<lparr>eq_queryType = _, eq_queryData = _,
      eq_queryFormulas = _, eq_resultUnit = _, eq_displayUnit = _\<rparr>"])
  show ?thesis
    unfolding once
    by (rule composite_query.equality) (simp_all only: again first [unfolded serializeCompositeQuery_def] composite_fields
        serializeCompositeQuery_def coalesce_again)
qed

definition reopen_sample :: editor_query where
  "reopen_sample = sample_editor_query\<lparr>eq_queryData := [sample_query\<lparr>bq_stepInterval := Some 30, bq_limit := Some 7\<rparr>]\<rparr>"

lemma reopen_sample_stable: "stable_editor_query reopen_sample"
  by code_simp

theorem composite_query_reopens_witness:
  "serializeCompositeQuery (mapQueryDataFromApi None (serializeCompositeQuery reopen_sample)) =
     serializeCompositeQuery reopen_sample"
  by (rule composite_query_reopens) (rule reopen_sample_stable)

text \<open>
  A named argument of a function is sent with its name, but the name is lost when the rule is opened
  and saved again.
\<close>

lemma named_argument_forgotten:
  "(let f = \<lparr>qf_name = ''ewma3'', qf_args = None, qf_namedArgs = Some [(''alpha'', SNum (Dec 5 (- 1)))]\<rparr>
    in vf_args (v5_function_of f) = Some [\<lparr>fa_name = Some ''alpha'', fa_value = SNum (Dec 5 (- 1))\<rparr>] \<and>
       vf_args (v5_function_of (function_of (v5_function_of f))) =
         Some [\<lparr>fa_name = None, fa_value = SNum (Dec 5 (- 1))\<rparr>])"
  by code_simp

end
