(* ===== verification/Lite_Filter.thy ===== *)
theory Lite_Filter
  imports Query_Types Query_Pairs Filter_Parser
begin

section \<open>Lightweight filters: printing and parsing\<close>

text \<open>
  \<open>capabilities.ts\<close> up to the formulas: the operators of the lightweight builder, the
  aggregations of a metric, the serializer of structured filters and the parser of the
  lightweight filter language. A failure is \<open>Inl\<close> with the message of the code.
\<close>

subsection \<open>Operators\<close>

definition LITE_FILTER_OPERATORS :: "(string \<times> string) list" where
  "LITE_FILTER_OPERATORS =
     [(''is'', ''=''),
      (''is not'', ''!=''),
      (''greater than'', ''>''),
      (''greater than or equal'', ''>=''),
      (''less than'', ''<''),
      (''less than or equal'', ''<=''),
      (''in'', ''in''),
      (''not in'', ''not in''),
      (''exists'', ''exists''),
      (''does not exist'', ''not exists''),
      (''contains'', ''contains''),
      (''does not contain'', ''not contains''),
      (''matches pattern'', ''like''),
      (''does not match pattern'', ''not like''),
      (''matches pattern ignoring case'', ''ilike''),
      (''does not match pattern ignoring case'', ''not ilike''),
      (''matches regular expression'', ''regexp''),
      (''does not match regular expression'', ''not regexp'')]"

definition noValueOperators :: "string list" where
  "noValueOperators = [''exists'', ''not exists'']"

definition listOperators :: "string list" where
  "listOperators = [''in'', ''not in'']"

definition allowedFilterOperators :: "string list" where
  "allowedFilterOperators = map snd LITE_FILTER_OPERATORS"

definition stringOnlyOperators :: "string list" where
  "stringOnlyOperators =
     [''contains'', ''not contains'', ''like'', ''not like'', ''ilike'', ''not ilike'',
      ''regexp'', ''not regexp'']"

text \<open>\<open>semanticKind\<close> has one value, \<open>positive_bool_scope\<close>.\<close>

record lite_field =
  lf_key :: string
  lf_type :: "string option"
  lf_dataType :: "data_type option"
  lf_positive_bool_scope :: bool

definition getLiteFilterOperatorsForField :: "lite_field option \<Rightarrow> (string \<times> string) list" where
  "getLiteFilterOperatorsForField field =
     (case field of
        Some f \<Rightarrow>
          (if lf_positive_bool_scope f then filter (\<lambda>(l, v). v = ''='') LITE_FILTER_OPERATORS
           else filter (\<lambda>(l, v).
             if lf_dataType f = Some DT_bool then
               v \<in> set [''='', ''!='', ''in'', ''not in'', ''exists'', ''not exists'']
             else if lf_dataType f \<notin> {None, Some DT_EMPTY, Some DT_String} then
               v \<notin> set stringOnlyOperators
             else True) LITE_FILTER_OPERATORS)
      | None \<Rightarrow> LITE_FILTER_OPERATORS)"

definition gaugeAggregations :: "string list" where
  "gaugeAggregations = [''latest'', ''avg'', ''min'', ''max'']"

definition sumAggregations :: "string list" where
  "sumAggregations = [''sum'', ''rate'', ''increase'']"

definition histogramAggregations :: "string list" where
  "histogramAggregations = [''p50'', ''p90'', ''p95'', ''p99'']"

definition meterAggregations :: "string list" where
  "meterAggregations = [''count'', ''sum'', ''avg'', ''rate'', ''increase'']"

definition getLiteMetricAggregationOptions :: "string \<Rightarrow> bool \<Rightarrow> string list" where
  "getLiteMetricAggregationOptions type isMeter =
     (if isMeter then meterAggregations
      else if type = ''gauge'' then gaugeAggregations
      else if type = ''sum'' then sumAggregations
      else if type = ''histogram'' then histogramAggregations
      else gaugeAggregations @ sumAggregations @ histogramAggregations)"

definition isNoValueLiteFilter :: "string \<Rightarrow> bool" where
  "isNoValueLiteFilter operator \<longleftrightarrow> operator \<in> set noValueOperators"

subsection \<open>Printing\<close>

definition quoteFilterValue :: "js_value \<Rightarrow> string" where
  "quoteFilterValue v =
     (case v of
        SStr s \<Rightarrow> [CHR 0x27] @ replace_char (CHR 0x27) [CHR 0x5C, CHR 0x27] (js_trim s) @ [CHR 0x27]
      | _ \<Rightarrow> value_string v)"

definition filterField :: "autocomplete_data \<Rightarrow> string" where
  "filterField k =
     (let key = ac_key k in
      if starts_with ''resource.'' key \<or> starts_with ''attribute.'' key then key
      else if ac_type k = Some ''resource'' then ''resource.'' @ key
      else if ac_type k = Some ''tag'' \<or> ac_type k = Some ''attribute'' then ''attribute.'' @ key
      else key)"

definition serialized :: "tag_filter_item \<Rightarrow> bool" where
  "serialized f \<longleftrightarrow>
     (case tf_key f of None \<Rightarrow> False | Some k \<Rightarrow> ac_key k \<noteq> []) \<and> tf_op f \<in> set allowedFilterOperators"

definition list_values :: "tag_value option \<Rightarrow> js_value list" where
  "list_values v =
     (case v of
        Some (VList xs) \<Rightarrow> xs
      | _ \<Rightarrow> map SStr (filter (\<lambda>s. s \<noteq> []) (map js_trim (js_split (CHR '','') (tag_value_string v)))))"

definition scalar_value :: "tag_value option \<Rightarrow> js_value" where
  "scalar_value v =
     (case v of
        None \<Rightarrow> SStr ''''
      | Some (VOne x) \<Rightarrow> x
      | Some (VList []) \<Rightarrow> SStr ''''
      | Some (VList (x # _)) \<Rightarrow> x)"

definition print_item :: "tag_filter_item \<Rightarrow> string" where
  "print_item f =
     (let key = (case tf_key f of Some k \<Rightarrow> filterField k | None \<Rightarrow> '''') in
      if isNoValueLiteFilter (tf_op f) then key @ '' '' @ tf_op f
      else if tf_op f \<in> set listOperators then
        key @ '' '' @ tf_op f @ '' ['' @
          js_join '', '' (map quoteFilterValue (list_values (tf_value f))) @ '']''
      else key @ '' '' @ tf_op f @ '' '' @ quoteFilterValue (scalar_value (tf_value f)))"

definition toLiteFilterExpression :: "tag_filter \<Rightarrow> string" where
  "toLiteFilterExpression filters =
     js_join (if tg_op filters = ''OR'' then '' OR '' else '' AND '')
       (map print_item (filter serialized (tg_items filters)))"

subsection \<open>Parsing\<close>

datatype literal_kind = K_bool | K_number | K_string

record lite_literal =
  ll_dataType :: data_type
  ll_kind :: literal_kind
  ll_value :: js_value

definition filterOperator :: "string \<Rightarrow> bool \<Rightarrow> string option" where
  "filterOperator operator hasNegation =
     (let normalized = to_lower (js_trim operator) in
      if hasNegation then
        (if normalized \<in> set [''contains'', ''exists'', ''ilike'', ''in'', ''like'', ''regexp'']
         then Some (''not '' @ normalized) else None)
      else if normalized = ''<>'' then Some ''!=''
      else if normalized \<in> set allowedFilterOperators then Some normalized
      else None)"

text \<open>The escaped quote is undone first, then four backslashes become one.\<close>

fun unescape_quote :: "char \<Rightarrow> string \<Rightarrow> string" where
  "unescape_quote q (c # d # r) =
     (if c = CHR 0x5C \<and> d = q then q # unescape_quote q r else c # unescape_quote q (d # r))"
| "unescape_quote q s = s"

fun collapse_backslashes :: "string \<Rightarrow> string" where
  "collapse_backslashes (a # b # c # d # r) =
     (if [a, b, c, d] = replicate 4 (CHR 0x5C) then CHR 0x5C # collapse_backslashes r
      else a # collapse_backslashes (b # c # d # r))"
| "collapse_backslashes s = s"

definition parseFilterLiteral :: "string \<Rightarrow> lite_literal" where
  "parseFilterLiteral rawValue =
     (let trimmed = js_trim rawValue in
      if isQuoted trimmed then
        \<lparr>ll_dataType = DT_String, ll_kind = K_string,
         ll_value = SStr (collapse_backslashes (unescape_quote (hd trimmed) (unquote trimmed)))\<rparr>
      else if trimmed = ''true'' \<or> trimmed = ''false'' then
        \<lparr>ll_dataType = DT_bool, ll_kind = K_bool, ll_value = SBool (trimmed = ''true'')\<rparr>
      else if decimal_literal trimmed then
        \<lparr>ll_dataType = (if CHR ''.'' \<in> set trimmed then DT_Float64 else DT_Int64),
         ll_kind = K_number, ll_value = SNum (literal_num trimmed)\<rparr>
      else \<lparr>ll_dataType = DT_String, ll_kind = K_string, ll_value = SStr trimmed\<rparr>)"

definition liteFilterFieldExpressionKey :: "lite_field \<Rightarrow> string" where
  "liteFilterFieldExpressionKey field =
     (if list_ex (\<lambda>c. starts_with (c @ ''.'') (lf_key field))
           [''resource'', ''attribute'', ''span'', ''log'', ''body'', ''scope'', ''metric'']
      then lf_key field
      else (case lf_type field of
              None \<Rightarrow> lf_key field
            | Some t \<Rightarrow>
                (if t \<in> set [''resource'', ''attribute'', ''span'', ''log'', ''body'', ''scope'', ''metric'']
                 then t @ ''.'' @ lf_key field
                 else if t = ''tag'' then ''attribute.'' @ lf_key field
                 else if t = ''spanSearchScope'' then ''span.'' @ lf_key field
                 else lf_key field)))"

definition matchingDefinedField :: "string \<Rightarrow> lite_field list option \<Rightarrow> lite_field option" where
  "matchingDefinedField key defined =
     (case defined of
        None \<Rightarrow> None
      | Some fs \<Rightarrow> js_find (\<lambda>f. lf_key f = key \<or> liteFilterFieldExpressionKey f = key) fs)"

definition typesAreCompatible :: "data_type \<Rightarrow> data_type \<Rightarrow> bool" where
  "typesAreCompatible expected actual =
     (if expected = DT_EMPTY \<or> expected = actual then True
      else (expected = DT_Int64 \<or> expected = DT_Float64) \<and> (actual = DT_Int64 \<or> actual = DT_Float64))"

definition fieldFromExpression :: "string \<Rightarrow> data_type \<Rightarrow> lite_field option \<Rightarrow> autocomplete_data" where
  "fieldFromExpression key dataType field =
     (case field of
        Some f \<Rightarrow>
          \<lparr>ac_id = Some (''lite-dsl-'' @ lf_key f),
           ac_dataType = Some (case lf_dataType f of Some d \<Rightarrow> (if d = DT_EMPTY then dataType else d)
                                                   | None \<Rightarrow> dataType),
           ac_key = lf_key f,
           ac_type = Some (str_or (lf_type f) '''')\<rparr>
      | None \<Rightarrow>
          (let ctx = to_lower (takeWhile (\<lambda>c. c \<noteq> CHR ''.'') key) in
           \<lparr>ac_id = Some (''lite-dsl-'' @ key), ac_dataType = Some dataType, ac_key = key,
            ac_type = Some (if ctx = ''resource'' then ''resource''
                            else if ctx = ''attribute'' then ''attribute'' else '''')\<rparr>))"

definition defaultFilterTokens :: "string \<Rightarrow> itoken list" where
  "defaultFilterTokens expression =
     filter (\<lambda>t. tk_type t \<noteq> EOF \<and> tk_channel t = 0) (filter_tokens expression)"

fun boolean_shape_error :: "token_type option \<Rightarrow> token_type list \<Rightarrow> string option" where
  "boolean_shape_error prev [] = None"
| "boolean_shape_error prev (t # ts) =
     (if t = LPAREN \<and> prev \<noteq> Some IN then Some ''Parenthesized filter groups are not supported.''
      else if t = NOT \<and> (case ts of [] \<Rightarrow> True
              | n # _ \<Rightarrow> n \<notin> set [IN, EXISTS, LIKE, ILIKE, REGEXP, CONTAINS])
        then Some ''Prefix NOT is not supported by lightweight filters.''
      else boolean_shape_error (Some t) ts)"

definition validateLiteBooleanShape :: "string \<Rightarrow> string + (string \<times> nat)" where
  "validateLiteBooleanShape expression =
     (let types = map tk_type (defaultFilterTokens expression);
          andCount = length (filter (\<lambda>t. t = AND) types);
          orCount = length (filter (\<lambda>t. t = OR) types)
      in if 0 < andCount \<and> 0 < orCount
         then Inl ''Mixing AND and OR is not supported by lightweight filters.''
         else (case boolean_shape_error None types of
                 Some e \<Rightarrow> Inl e
               | None \<Rightarrow> Inr (if 0 < orCount then ''OR'' else ''AND'', andCount + orCount)))"

definition parseLiteFilterValue :: "query_pair \<Rightarrow> string \<Rightarrow> string + (data_type \<times> tag_value)" where
  "parseLiteFilterValue pair opr =
     (if isNoValueLiteFilter opr then Inr (DT_EMPTY, VOne (SStr ''''))
      else if \<not> qp_isComplete pair then Inl ''Use complete filter predicates.''
      else if opr \<notin> set listOperators then
        (let literal = parseFilterLiteral (str_or (qp_value pair) '''')
         in Inr (ll_dataType literal, VOne (ll_value literal)))
      else
        (let literals = map parseFilterLiteral (qp_valueList pair) in
         if literals = [] \<or> length (remdups (map ll_kind literals)) \<noteq> 1
         then Inl ''IN and NOT IN require a non-empty homogeneous value list.''
         else Inr (if list_ex (\<lambda>l. ll_dataType l = DT_Float64) literals then DT_Float64
                   else ll_dataType (hd literals),
                   VList (map ll_value literals))))"

definition parseLiteFilterPair ::
  "query_pair \<Rightarrow> nat \<Rightarrow> lite_field list option \<Rightarrow> string + tag_filter_item" where
  "parseLiteFilterPair pair index defined =
     (case filterOperator (qp_operator pair) (qp_hasNegation pair) of
        None \<Rightarrow>
          Inl (''Filter operator '' @ [CHR 0x22] @ (if qp_hasNegation pair then ''NOT '' else '''') @
               qp_operator pair @ [CHR 0x22] @ '' is not supported.'')
      | Some opr \<Rightarrow>
          (if qp_key pair = [] then Inl ''Use complete filter predicates.''
           else
             (case parseLiteFilterValue pair opr of
                Inl e \<Rightarrow> Inl e
              | Inr (dataType, v) \<Rightarrow>
                  (let field = matchingDefinedField (qp_key pair) defined in
                   if (case field of
                         Some f \<Rightarrow> (case lf_dataType f of
                             Some d \<Rightarrow> d \<noteq> DT_EMPTY \<and> \<not> isNoValueLiteFilter opr \<and> \<not> typesAreCompatible d dataType
                           | None \<Rightarrow> False)
                       | None \<Rightarrow> False)
                   then Inl (''Field '' @ [CHR 0x22] @ lf_key (the field) @ [CHR 0x22] @ '' has type '' @
                          data_type_text (the (lf_dataType (the field))) @ ''; use a matching literal type.'')
                   else if (case field of
                              Some f \<Rightarrow> lf_positive_bool_scope f \<and> (opr \<noteq> ''='' \<or> v \<noteq> VOne (SBool True))
                            | None \<Rightarrow> False)
                   then Inl (''Field '' @ [CHR 0x22] @ lf_key (the field) @ [CHR 0x22] @ '' only supports = true.'')
                   else Inr
                     \<lparr>tf_id = ''lite-dsl-'' @ nat_digits index @ ''-'' @ qp_key pair @ ''-'' @ opr,
                      tf_key = Some (fieldFromExpression (qp_key pair) dataType field),
                      tf_op = opr,
                      tf_value = Some v\<rparr>))))"

fun parse_pairs :: "lite_field list option \<Rightarrow> nat \<Rightarrow> query_pair list \<Rightarrow> string + tag_filter_item list" where
  "parse_pairs defined index [] = Inr []"
| "parse_pairs defined index (p # ps) =
     (case parseLiteFilterPair p index defined of
        Inl e \<Rightarrow> Inl e
      | Inr i \<Rightarrow>
          (case parse_pairs defined (Suc index) ps of Inl e \<Rightarrow> Inl e | Inr is \<Rightarrow> Inr (i # is)))"

definition parseLiteFilterExpression :: "string \<Rightarrow> lite_field list option \<Rightarrow> string + tag_filter" where
  "parseLiteFilterExpression expression defined =
     (let trimmed = js_trim expression in
      if trimmed = [] then Inr \<lparr>tg_items = [], tg_op = ''AND''\<rparr>
      else if \<not> query_is_valid trimmed then Inl ''Invalid filter syntax.''
      else
        (case validateLiteBooleanShape trimmed of
           Inl e \<Rightarrow> Inl e
         | Inr (join, joins) \<Rightarrow>
             (let pairs = extractQueryPairs trimmed in
              if pairs = [] \<or> length pairs \<noteq> joins + 1
              then Inl ''Use complete filter predicates joined by AND or OR.''
              else
                (case parse_pairs defined 0 pairs of
                   Inl e \<Rightarrow> Inl e
                 | Inr items \<Rightarrow> Inr \<lparr>tg_items = items, tg_op = join\<rparr>))))"

subsection \<open>What the parser accepts\<close>

lemma negated_allowed:
  assumes "n \<in> set [''contains'', ''exists'', ''ilike'', ''in'', ''like'', ''regexp'']"
  shows "''not '' @ n \<in> set allowedFilterOperators"
  using assms by (auto simp: allowedFilterOperators_def LITE_FILTER_OPERATORS_def)

lemma differs_allowed: "''!='' \<in> set allowedFilterOperators"
  by (simp add: allowedFilterOperators_def LITE_FILTER_OPERATORS_def)

lemma filterOperator_allowed:
  assumes "filterOperator opr neg = Some opr'"
  shows "opr' \<in> set allowedFilterOperators"
  using assms negated_allowed differs_allowed unfolding filterOperator_def Let_def
  by (metis option.distinct(1) option.inject)

text \<open>A value of the shape its operator asks for; the elements of a list have one kind.\<close>

definition js_kind :: "js_value \<Rightarrow> literal_kind" where
  "js_kind v = (case v of SStr _ \<Rightarrow> K_string | SNum _ \<Rightarrow> K_number | SBool _ \<Rightarrow> K_bool)"

definition value_fits :: "string \<Rightarrow> tag_value \<Rightarrow> bool" where
  "value_fits opr v \<longleftrightarrow>
     (case v of
        VOne x \<Rightarrow> opr \<notin> set listOperators \<and> (isNoValueLiteFilter opr \<longrightarrow> x = SStr '''')
      | VList xs \<Rightarrow> opr \<in> set listOperators \<and> xs \<noteq> [] \<and> (\<forall>x\<in>set xs. js_kind x = js_kind (hd xs)))"

lemma literal_kind_value: "ll_kind (parseFilterLiteral s) = js_kind (ll_value (parseFilterLiteral s))"
  by (auto simp: parseFilterLiteral_def Let_def js_kind_def)

lemma remdups_single: "length (remdups xs) = 1 \<Longrightarrow> x \<in> set xs \<Longrightarrow> x = hd xs"
proof -
  assume a: "length (remdups xs) = 1" "x \<in> set xs"
  then obtain y where "remdups xs = [y]" by (cases "remdups xs") auto
  then have "set xs = {y}" by (metis set_remdups empty_set list.simps(15))
  with a(2) show ?thesis by (metis empty_iff hd_in_set list.set(1) singletonD)
qed

lemma parsed_value_fits:
  assumes "parseLiteFilterValue p opr = Inr (d, v)"
  shows "value_fits opr v"
proof -
  consider (none) "isNoValueLiteFilter opr" | (one) "\<not> isNoValueLiteFilter opr" "opr \<notin> set listOperators"
    | (many) "\<not> isNoValueLiteFilter opr" "opr \<in> set listOperators" by blast
  then show ?thesis
  proof cases
    case none
    then have "opr \<notin> set listOperators"
      by (auto simp: isNoValueLiteFilter_def noValueOperators_def listOperators_def)
    with none assms show ?thesis by (auto simp: parseLiteFilterValue_def value_fits_def)
  next
    case one
    with assms show ?thesis by (auto simp: parseLiteFilterValue_def value_fits_def Let_def split: if_splits)
  next
    case many
    define ls where "ls = map parseFilterLiteral (qp_valueList p)"
    from many assms have ls: "ls \<noteq> []" "length (remdups (map ll_kind ls)) = 1" "v = VList (map ll_value ls)"
      by (auto simp: parseLiteFilterValue_def Let_def ls_def split: if_splits)
    have kind: "js_kind (ll_value l) = js_kind (hd (map ll_value ls))" if "l \<in> set ls" for l
    proof -
      have "ll_kind l \<in> set (map ll_kind ls)" using that by simp
      from remdups_single [OF ls(2) this] have "ll_kind l = ll_kind (hd ls)" using ls(1) by (simp add: hd_map)
      moreover have "ll_kind m = js_kind (ll_value m)" if "m \<in> set ls" for m
        using that by (auto simp: ls_def literal_kind_value)
      ultimately show ?thesis using that ls(1) by (simp add: hd_map)
    qed
    then have "\<forall>x\<in>set (map ll_value ls). js_kind x = js_kind (hd (map ll_value ls))"
      unfolding set_map ball_simps by blast
    moreover have "map ll_value ls \<noteq> []" using ls(1) by simp
    ultimately show ?thesis
      unfolding value_fits_def ls(3) tag_value.case using many(2) by blast
  qed
qed

definition accepted_item :: "tag_filter_item \<Rightarrow> bool" where
  "accepted_item g \<longleftrightarrow>
     serialized g \<and> (case tf_value g of None \<Rightarrow> False | Some v \<Rightarrow> value_fits (tf_op g) v)"

lemma parsed_pair_accepted:
  assumes "parseLiteFilterPair p n None = Inr g"
  shows "accepted_item g"
proof -
  from assms obtain opr d v where
    o: "filterOperator (qp_operator p) (qp_hasNegation p) = Some opr" "qp_key p \<noteq> []"
    and v: "parseLiteFilterValue p opr = Inr (d, v)"
    and g: "tf_op g = opr" "tf_key g = Some (fieldFromExpression (qp_key p) d None)" "tf_value g = Some v"
    by (auto simp: parseLiteFilterPair_def matchingDefinedField_def Let_def
        split: option.splits if_splits sum.splits)
  from parsed_value_fits [OF v] filterOperator_allowed [OF o(1)] o(2) g show ?thesis
    by (simp add: accepted_item_def serialized_def fieldFromExpression_def Let_def)
qed

lemma parsed_pairs_accepted: "parse_pairs None n ps = Inr gs \<Longrightarrow> list_all accepted_item gs"
  by (induction ps arbitrary: n gs) (auto split: sum.splits dest: parsed_pair_accepted)

text \<open>
  Whatever the parser accepts, the serializer prints in full: every predicate has a key
  and an operator the serializer keeps, no value for an existence test, one literal for a
  comparison, and a non-empty list of literals of one kind for a membership test.
\<close>

theorem accepted_filter_serializable:
  assumes "parseLiteFilterExpression expression None = Inr parsed"
  shows "list_all accepted_item (tg_items parsed) \<and> tg_op parsed \<in> {''AND'', ''OR''}"
proof (cases "js_trim expression = []")
  case True
  with assms show ?thesis by (auto simp: parseLiteFilterExpression_def)
next
  case False
  from assms False obtain join joins where
    j: "validateLiteBooleanShape (js_trim expression) = Inr (join, joins)"
    and items: "parse_pairs None 0 (extractQueryPairs (js_trim expression)) = Inr (tg_items parsed)"
    and op: "tg_op parsed = join"
    by (auto simp: parseLiteFilterExpression_def Let_def split: if_splits sum.splits)
  from j have "join \<in> {''AND'', ''OR''}"
    by (auto simp: validateLiteBooleanShape_def Let_def split: if_splits option.splits)
  with parsed_pairs_accepted [OF items] op show ?thesis by simp
qed

lemma accepted_filter_serializable_witness:
  "list_all accepted_item (tg_items (case parseLiteFilterExpression ''a in [1, 2] OR b exists'' None of
      Inr g \<Rightarrow> g | Inl _ \<Rightarrow> \<lparr>tg_items = [], tg_op = ''''\<rparr>))"
proof -
  let ?r = "parseLiteFilterExpression ''a in [1, 2] OR b exists'' None"
  have "isl ?r = False" by code_simp
  then obtain g where "?r = Inr g" by (cases ?r) auto
  with accepted_filter_serializable [OF this] show ?thesis by simp
qed

text \<open>
  A key whose context segment is spelled \<open>resource\<close> is given the type \<open>resource\<close> even when
  the segment is the whole key, and the serializer then adds the context again: the parsed
  predicate on \<open>resource\<close> prints as one on \<open>resource.resource\<close>.
\<close>

theorem bare_resource_key_changes:
  "map_sum id toLiteFilterExpression (parseLiteFilterExpression (''resource = '' @ [CHR 0x27, CHR ''x'', CHR 0x27]) None)
   = Inr (''resource.resource = '' @ [CHR 0x27, CHR ''x'', CHR 0x27])"
  by code_simp

text \<open>
  A number that JavaScript prints with an exponent comes back as a string: the literal
  pattern of the parser has no exponent.
\<close>

theorem exponent_number_becomes_string:
  "parseFilterLiteral (quoteFilterValue (SNum (Dec 1 (-7)))) =
     \<lparr>ll_dataType = DT_String, ll_kind = K_string, ll_value = SStr ''1e-7''\<rparr>"
  by code_simp

end
