(* ===== verification/Lexemes.thy ===== *)
theory Lexemes
  imports Filter_Lexer
begin

section \<open>Lexing a text from its lexemes\<close>

text \<open>
  What the printers of filter expressions rely on: a lexeme followed by a space, a comma or a
  closing bracket is one token of the lexer, whatever comes after; brackets and commas are
  tokens of their own; spaces disappear. The laws compose, so that the tokens of a printed
  text are the lexemes it was printed from.
\<close>

subsection \<open>A lexeme ends at a delimiter\<close>

definition delimiter :: "char \<Rightarrow> bool" where
  "delimiter d \<longleftrightarrow> d = CHR '' '' \<or> d = CHR '','' \<or> d = CHR '']''"

lemma delimiter_chars:
  assumes "delimiter d"
  shows "\<not> seg_char d" "\<not> seg_start d" "\<not> is_digit d" "\<not> free_char d" "d \<noteq> CHR ''.''" "d \<noteq> CHR ''[''"
    "d \<noteq> CHR ''*''" "d \<noteq> CHR ''+''" "d \<noteq> CHR ''-''" "d \<noteq> CHR ''e''" "d \<noteq> CHR ''E''" "lower_char d = d"
  using assms
  by (auto simp: delimiter_def seg_char_def seg_start_def free_char_def is_alpha_def lex_ws_def)

lemma takeWhile_delim: "\<not> p d \<Longrightarrow> takeWhile p (w @ d # r) = takeWhile p w"
  by (induction w) auto

lemma dropWhile_delim: "\<not> p d \<Longrightarrow> dropWhile p (w @ d # r) = dropWhile p w @ d # r"
  by (induction w) auto

lemma match_lit_delim:
  assumes "d \<notin> set l \<or> length l = 1" "w \<noteq> []"
  shows "match_lit l (w @ d # r) = match_lit l w"
proof (cases "length l \<le> length w")
  case True
  then show ?thesis by (simp add: match_lit_def starts_with_def)
next
  case False
  with assms have d: "d \<notin> set l" by (cases w) auto
  have "\<not> starts_with l (w @ d # r)"
  proof
    assume "starts_with l (w @ d # r)"
    then have "take (length l) (w @ d # r) = l" by (simp add: starts_with_def)
    moreover have "d \<in> set (take (length l) (w @ d # r))"
      using False by (simp add: take_Cons' not_le)
    ultimately show False using d by simp
  qed
  moreover have "\<not> starts_with l w" using False by (auto simp: starts_with_iff)
  ultimately show ?thesis by (simp add: match_lit_def)
qed

lemma match_word_delim:
  assumes "lower_char d \<notin> set l"
  shows "match_word l (w @ d # r) = match_word l w"
proof (cases "length l \<le> length w")
  case True
  then show ?thesis by (simp add: match_word_def)
next
  case False
  have "to_lower (take (length l) (w @ d # r)) \<noteq> l"
  proof
    assume "to_lower (take (length l) (w @ d # r)) = l"
    moreover have "lower_char d \<in> set (to_lower (take (length l) (w @ d # r)))"
      using False by (simp add: take_Cons' not_le to_lower_def)
    ultimately show False using assms by simp
  qed
  moreover have "to_lower (take (length l) w) \<noteq> l" using False by (metis length_to_lower length_take min.cobounded1)
  ultimately show ?thesis by (simp add: match_word_def)
qed

lemma match_sign_delim: "delimiter d \<Longrightarrow> match_sign (w @ d # r) = match_sign w"
  by (cases w) (auto simp: match_sign_def dest: delimiter_chars)

lemma drop_delim: "n \<le> length w \<Longrightarrow> drop n (w @ d # r) = drop n w @ d # r"
  by simp

lemma match_exponent_delim: "delimiter d \<Longrightarrow> match_exponent (w @ d # r) = match_exponent w"
proof (cases w)
  case Nil
  assume "delimiter d"
  with Nil show ?thesis by (auto simp: match_exponent_def dest: delimiter_chars)
next
  case (Cons c t)
  assume d: "delimiter d"
  have "drop (match_sign t) (t @ d # r) = drop (match_sign t) t @ d # r"
    by (rule drop_delim) (rule match_sign_le)
  then show ?thesis
    using takeWhile_delim [of is_digit d "drop (match_sign t) t" r] delimiter_chars(3) [OF d]
    by (simp add: Cons match_exponent_def Let_def match_sign_delim [OF d])
qed

lemma match_fraction_delim: "delimiter d \<Longrightarrow> match_fraction (w @ d # r) = match_fraction w"
  by (cases w) (auto simp: match_fraction_def takeWhile_delim dest: delimiter_chars)

lemma match_number_delim:
  assumes d: "delimiter d"
  shows "match_number (w @ d # r) = match_number w"
proof -
  define s where "s = drop (match_sign w) w"
  have s: "drop (match_sign w) (w @ d # r) = s @ d # r"
    unfolding s_def by (rule drop_delim) (rule match_sign_le)
  define n where "n = run_length is_digit s"
  have n: "n \<le> length s" by (simp add: n_def length_takeWhile_le)
  have 1: "drop n (s @ d # r) = drop n s @ d # r" using n by (rule drop_delim)
  have 2: "drop (match_fraction (drop n s)) (drop n s @ d # r) = drop (match_fraction (drop n s)) (drop n s) @ d # r"
    by (rule drop_delim) (rule match_fraction_le)
  have 3: "drop (match_fraction s) (s @ d # r) = drop (match_fraction s) s @ d # r"
    by (rule drop_delim) (rule match_fraction_le)
  show ?thesis
    unfolding match_number_def Let_def match_sign_delim [OF d] s s_def [symmetric]
      takeWhile_delim [where p = is_digit, OF delimiter_chars(3) [OF d]] n_def [symmetric] 1
      match_fraction_delim [OF d] 2 3 match_exponent_delim [OF d] ..
qed

lemma key_tail_step:
  "key_tail (c # e # u) =
     (if c = CHR ''.'' \<and> seg_start e then 2 + run_length seg_char u + key_tail (dropWhile seg_char u)
      else if c = CHR ''.'' \<and> is_digit e then 2 + run_length is_digit u + key_tail (dropWhile is_digit u)
      else if c = CHR ''['' \<and> e = CHR '']'' then 2 + key_tail u
      else if c = CHR ''['' \<and> e = CHR ''*'' then
        (if u \<noteq> [] \<and> hd u = CHR '']'' then 3 + key_tail (tl u) else 0)
      else 0)"
  by (subst key_tail.simps) (cases u; simp)

lemma key_tail_stop:
  assumes "c \<noteq> CHR ''.''" "c \<noteq> CHR ''[''"
  shows "key_tail (c # r) = 0"
  by (subst key_tail.simps) (use assms in \<open>cases r; simp\<close>)

lemma key_tail_short [simp]: "key_tail [] = 0" "key_tail [c] = 0"
  by (simp_all add: key_tail.simps [of "[]"] key_tail.simps [of "[c]"])

lemma key_tail_delim:
  assumes d: "delimiter d"
  shows "d \<noteq> CHR '']'' \<or> CHR ''['' \<notin> set w \<Longrightarrow> key_tail (w @ d # r) = key_tail w"
proof (induction "length w" arbitrary: w rule: less_induct)
  case less
  note dc = delimiter_chars [OF d]
  show ?case
  proof (cases w)
    case Nil
    with dc show ?thesis by (simp add: key_tail_stop)
  next
    case (Cons c t)
    show ?thesis
    proof (cases t)
      case Nil
      with Cons dc less.prems show ?thesis by (auto simp: key_tail_step)
    next
      case (Cons e u)
      note w = \<open>w = c # t\<close> Cons
      have sub: "d \<noteq> CHR '']'' \<or> CHR ''['' \<notin> set v" if "set v \<subseteq> set w" for v
        using less.prems that by auto
      have part: "key_tail (dropWhile p u @ d # r) = key_tail (dropWhile p u)" for p
      proof (rule less.hyps)
        show "length (dropWhile p u) < length w" using length_dropWhile_le [of p u] by (simp add: w)
        show "d \<noteq> CHR '']'' \<or> CHR ''['' \<notin> set (dropWhile p u)"
          by (rule sub) (auto simp: w dest: set_dropWhileD)
      qed
      have all: "key_tail (u @ d # r) = key_tail u"
        by (rule less.hyps) (use less.prems in \<open>auto simp: w\<close>)
      have "set (tl u) \<subseteq> set w" by (cases u) (auto simp: w)
      then have tail: "key_tail (tl u @ d # r) = key_tail (tl u)"
        by (intro less.hyps sub) (simp_all add: w)
      show ?thesis
      proof (cases u)
        case Nil
        with less.prems dc show ?thesis by (auto simp: w key_tail_step key_tail_stop)
      next
        case (Cons f v)
        have "key_tail (c # e # f # v @ d # r) = key_tail (c # e # f # v)"
          using part [of seg_char] part [of is_digit] all tail
          unfolding key_tail_step [of c e] Cons
          by (simp only: append_Cons [symmetric] takeWhile_delim [where p = seg_char, OF dc(1)]
              takeWhile_delim [where p = is_digit, OF dc(3)] dropWhile_delim [where p = seg_char, OF dc(1)]
              dropWhile_delim [where p = is_digit, OF dc(3)] list.sel append_is_Nil_conv list.distinct) simp
        then show ?thesis by (simp add: w Cons)
      qed
    qed
  qed
qed

lemma match_key_delim:
  assumes "delimiter d" "d \<noteq> CHR '']'' \<or> CHR ''['' \<notin> set w" "w \<noteq> []"
  shows "match_key (w @ d # r) = match_key w"
proof (cases w)
  case (Cons c t)
  have "d \<noteq> CHR '']'' \<or> CHR ''['' \<notin> set (dropWhile seg_char t)"
    using assms(2) Cons by (auto dest: set_dropWhileD)
  with assms(1) delimiter_chars [OF assms(1)] Cons show ?thesis
    by (simp add: match_key_def takeWhile_delim dropWhile_delim key_tail_delim)
qed (use assms in simp)

text \<open>A lexeme: a text that is one token by itself. A quoted text is treated apart.\<close>

definition quote_char :: "char \<Rightarrow> bool" where
  "quote_char c \<longleftrightarrow> c = CHR 0x22 \<or> c = CHR 0x27"

definition lexeme :: "token_type \<Rightarrow> string \<Rightarrow> bool" where
  "lexeme t w \<longleftrightarrow> w \<noteq> [] \<and> \<not> lex_ws (hd w) \<and> \<not> quote_char (hd w) \<and> t \<noteq> WS \<and>
     longest_match lex_rules w = (t, length w)"

lemma longest_match_cong:
  "(\<And>t m. (t, m) \<in> set rs \<Longrightarrow> m s = m s') \<Longrightarrow> longest_match rs s = longest_match rs s'"
proof (induction rs)
  case (Cons x rs)
  obtain t m where x: "x = (t, m)" by (cases x)
  have "m s = m s'" by (rule Cons.prems [of t]) (simp add: x)
  moreover have "longest_match rs s = longest_match rs s'"
    by (rule Cons.IH) (meson Cons.prems list.set_intros(2))
  ultimately show ?case by (simp add: x Let_def)
qed simp

lemma lex_rules_delim:
  assumes d: "delimiter d" and w: "w \<noteq> []" "\<not> lex_ws (hd w)" "\<not> quote_char (hd w)"
    and b: "d \<noteq> CHR '']'' \<or> CHR ''['' \<notin> set w" and m: "(t, m) \<in> set lex_rules"
  shows "m (w @ d # r) = m w"
proof -
  have nd: "d \<in> {CHR '' '', CHR '','', CHR '']''}" using d by (auto simp: delimiter_def)
  have lit: "match_lit l (w @ d # r) = match_lit l w"
    if "(CHR '' '' \<notin> set l \<and> CHR '','' \<notin> set l \<and> CHR '']'' \<notin> set l) \<or> length l = 1" for l
    using that nd by (intro match_lit_delim w(1)) auto
  have word: "match_word l (w @ d # r) = match_word l w"
    if "CHR '' '' \<notin> set l \<and> CHR '','' \<notin> set l \<and> CHR '']'' \<notin> set l" for l
    using that nd by (intro match_word_delim) (auto simp: delimiter_chars(12) [OF d])
  have wsp: "run_length lex_ws (w @ d # r) = run_length lex_ws w" using w by (cases w) auto
  have quo: "match_quoted (w @ d # r) = match_quoted w"
    using w by (cases w) (auto simp: match_quoted_def quote_char_def)
  have free: "run_length free_char (w @ d # r) = run_length free_char w"
    by (simp add: takeWhile_delim delimiter_chars(4) [OF d])
  have key: "match_key (w @ d # r) = match_key w" by (rule match_key_delim [OF d b w(1)])
  have num: "match_number (w @ d # r) = match_number w" by (rule match_number_delim [OF d])
  show ?thesis
    using m unfolding lex_rules_def
    by (auto simp: lit word wsp quo free key num match_optional_s_def)
qed

lemma lexeme_delim:
  assumes "lexeme t w" "delimiter d" "d \<noteq> CHR '']'' \<or> CHR ''['' \<notin> set w"
  shows "longest_match lex_rules (w @ d # r) = (t, length w)"
proof -
  have "longest_match lex_rules (w @ d # r) = longest_match lex_rules w"
    using assms lex_rules_delim [of d w _ _ r] by (intro longest_match_cong) (auto simp: lexeme_def)
  with assms(1) show ?thesis by (simp add: lexeme_def)
qed

text \<open>Rules that do not match where the input starts with a punctuation character.\<close>

lemma match_lit_Cons:
  "match_lit (b # l) (c # r) = (if b = c \<and> starts_with l r then Suc (length l) else 0)"
  by (simp add: match_lit_def starts_with_def)

lemma starts_with_Nil [simp]: "starts_with [] r"
  by (simp add: starts_with_def)

lemma match_word_head: "is_lower b \<Longrightarrow> b \<noteq> lower_char c \<Longrightarrow> match_word (b # l) (c # r) = 0"
  by (auto simp: match_word_def to_lower_def)

lemma match_number_head:
  "\<not> is_digit c \<Longrightarrow> c \<notin> set ''+-.'' \<Longrightarrow> match_number (c # r) = 0"
  by (simp add: match_number_def match_sign_def match_fraction_def Let_def)

lemmas head_rules = match_lit_Cons match_word_head match_number_head match_key_def match_quoted_def
  match_optional_s_def seg_start_def is_alpha_def free_char_def lex_ws_def

subsection \<open>Quoted text\<close>

definition escape_quotes :: "string \<Rightarrow> string" where
  "escape_quotes s = replace_char (CHR 0x27) [CHR 0x5C, CHR 0x27] s"

lemma escape_quotes_simps [simp]:
  "escape_quotes [] = []"
  "escape_quotes (c # s) = (if c = CHR 0x27 then [CHR 0x5C, CHR 0x27] else [c]) @ escape_quotes s"
  by (simp_all add: escape_quotes_def replace_char_def)

lemma quoted_rest_escape:
  "CHR 0x5C \<notin> set s \<Longrightarrow>
     quoted_rest (CHR 0x27) (escape_quotes s @ CHR 0x27 # r) = Some (Suc (length (escape_quotes s)))"
  by (induction s) auto

lemma longest_match_quoted:
  assumes "quote_char q" "quoted_rest q w = Some n"
  shows "longest_match lex_rules (q # w) = (QUOTED_TEXT, Suc n)"
proof -
  from assms(1) consider "q = CHR 0x22" | "q = CHR 0x27" by (auto simp: quote_char_def)
  then show ?thesis
    using assms(2) by cases (simp_all add: lex_rules_def head_rules)
qed

subsection \<open>Brackets, commas and spaces\<close>

lemma longest_match_single:
  "longest_match lex_rules (CHR ''['' # r) = (LBRACK, 1)"
  "longest_match lex_rules (CHR '']'' # r) = (RBRACK, 1)"
  "longest_match lex_rules (CHR '','' # r) = (COMMA, 1)"
  by (simp_all add: lex_rules_def head_rules)

lemma longest_match_space:
  assumes "r \<noteq> []" "\<not> lex_ws (hd r)"
  shows "longest_match lex_rules (CHR '' '' # r) = (WS, 1)"
proof -
  have "takeWhile lex_ws r = []" using assms by (cases r) auto
  then show ?thesis by (simp add: lex_rules_def head_rules [unfolded lex_ws_def [abs_def]] lex_ws_def)
qed

subsection \<open>Steps of the lexer\<close>

definition tok_sig :: "itoken \<Rightarrow> token_type \<times> string" where
  "tok_sig t = (tk_type t, tk_text t)"

text \<open>The text \<open>w\<close> before \<open>rest\<close> lexes without error to tokens with the types and texts \<open>ls\<close>.\<close>

definition lex_steps :: "string \<Rightarrow> (token_type \<times> string) list \<Rightarrow> string \<Rightarrow> bool" where
  "lex_steps w ls rest \<longleftrightarrow>
     (\<forall>pos. \<exists>ts. lex_from pos (w @ rest) = ts @ lex_from (pos + length w) rest \<and> map tok_sig ts = ls) \<and>
     lex_error (w @ rest) = lex_error rest"

lemma lex_steps_Nil: "lex_steps [] [] rest"
  by (simp add: lex_steps_def)

lemma lex_steps_append:
  assumes "lex_steps v ks (w @ rest)" "lex_steps w ls rest"
  shows "lex_steps (v @ w) (ks @ ls) rest"
proof -
  have "\<exists>ts. lex_from pos (v @ w @ rest) = ts @ lex_from (pos + length v + length w) rest \<and>
      map tok_sig ts = ks @ ls" for pos
  proof -
    obtain ts where ts: "lex_from pos (v @ w @ rest) = ts @ lex_from (pos + length v) (w @ rest)"
      "map tok_sig ts = ks" using assms(1) by (auto simp: lex_steps_def)
    obtain us where "lex_from (pos + length v) (w @ rest) = us @ lex_from (pos + length v + length w) rest"
      "map tok_sig us = ls" using assms(2) by (auto simp: lex_steps_def)
    with ts show ?thesis by (intro exI [of _ "ts @ us"]) simp
  qed
  with assms show ?thesis by (simp add: lex_steps_def add.assoc)
qed

lemma lex_steps_token:
  assumes "longest_match lex_rules (w @ rest) = (t, length w)" "w \<noteq> []" "t \<noteq> WS"
  shows "lex_steps w [(t, w)] rest"
proof -
  have "lex_from pos (w @ rest) = mk_token pos t w # lex_from (pos + length w) rest" for pos
    using assms by (subst lex_from.simps) simp
  moreover have "lex_error (w @ rest) = lex_error rest"
    using assms by (subst lex_error.simps) (simp add: Let_def)
  ultimately show ?thesis by (auto simp: lex_steps_def tok_sig_def mk_token_def intro: exI [of _ "[mk_token _ t w]"])
qed

lemma lex_steps_space:
  assumes "rest \<noteq> []" "\<not> lex_ws (hd rest)"
  shows "lex_steps '' '' [] rest"
proof -
  note m = longest_match_space [OF assms]
  have "lex_from pos (CHR '' '' # rest) = lex_from (pos + 1) rest" for pos
    using m by (subst lex_from.simps) simp
  moreover have "lex_error (CHR '' '' # rest) = lex_error rest"
    using m by (subst lex_error.simps) simp
  ultimately show ?thesis by (simp add: lex_steps_def)
qed

lemma lex_steps_lexeme:
  assumes "lexeme t w" "rest = [] \<or> delimiter (hd rest)" "CHR ''['' \<notin> set w \<or> rest = [] \<or> hd rest \<noteq> CHR '']''"
  shows "lex_steps w [(t, w)] rest"
proof (cases rest)
  case Nil
  with assms(1) show ?thesis by (intro lex_steps_token) (auto simp: lexeme_def)
next
  case (Cons d r)
  with assms have "longest_match lex_rules (w @ rest) = (t, length w)"
    by (auto intro: lexeme_delim)
  with assms(1) show ?thesis by (intro lex_steps_token) (auto simp: lexeme_def)
qed

lemma lex_steps_single:
  "lex_steps ''['' [(LBRACK, ''['')] rest" "lex_steps '']'' [(RBRACK, '']'')] rest"
  "lex_steps '','' [(COMMA, '','')] rest"
  by (rule lex_steps_token; simp add: longest_match_single)+

lemma lex_steps_quoted:
  assumes "CHR 0x5C \<notin> set s"
  shows "lex_steps (CHR 0x27 # escape_quotes s @ [CHR 0x27])
    [(QUOTED_TEXT, CHR 0x27 # escape_quotes s @ [CHR 0x27])] rest"
  by (rule lex_steps_token)
     (use longest_match_quoted [OF _ quoted_rest_escape [OF assms], of rest] in \<open>simp_all add: quote_char_def\<close>)

text \<open>The whole text.\<close>

lemma lex_steps_all:
  assumes "lex_steps w ls []"
  shows "\<exists>ts e. filter_tokens w = ts @ [e] \<and> tk_type e = EOF \<and> map tok_sig ts = ls \<and> \<not> lex_error w"
proof -
  from assms have "\<exists>ts. lex_from 0 (w @ []) = ts @ lex_from (0 + length w) [] \<and> map tok_sig ts = ls"
    unfolding lex_steps_def by blast
  then obtain ts where "lex_from 0 w = ts @ lex_from (length w) []" "map tok_sig ts = ls" by auto
  moreover have "lex_from (length w) [] = [eof_token (length w)]" by (simp add: lex_from.simps)
  moreover have "\<not> lex_error w" using assms by (simp add: lex_steps_def lex_error.simps [of "[]"])
  ultimately show ?thesis by (auto simp: filter_tokens_def eof_token_def)
qed

end
