(* ===== verification/Lite_Roundtrip.thy ===== *)
theory Lite_Roundtrip
  imports Lite_Filter Lexemes
begin

section \<open>Printing a lightweight filter and parsing it back\<close>

text \<open>
  The contract between \<open>toLiteFilterExpression\<close> and \<open>parseLiteFilterExpression\<close>: a filter whose
  keys are single keys of the grammar and whose values print to literals the parser can undo
  comes back with the same operators, keys and values. The proof follows the text through the
  lexer, the validator, the check of the boolean shape and the extraction of the pairs.
\<close>

subsection \<open>The filters that survive\<close>

definition clean_string :: "string \<Rightarrow> bool" where
  "clean_string s \<longleftrightarrow> CHR 0x5C \<notin> set s \<and> list_all (\<lambda>c. \<not> line_terminator c) s"

definition clean_value :: "js_value \<Rightarrow> bool" where
  "clean_value v =
     (case v of
        SStr s \<Rightarrow> clean_string (js_trim s)
      | SNum x \<Rightarrow> js_num_ok x \<and> plain_num x
      | SBool b \<Rightarrow> True)"

definition value_kind :: "js_value \<Rightarrow> literal_kind" where
  "value_kind v = (case v of SStr _ \<Rightarrow> K_string | SNum _ \<Rightarrow> K_number | SBool _ \<Rightarrow> K_bool)"

definition item_key :: "tag_filter_item \<Rightarrow> string" where
  "item_key f = (case tf_key f of Some k \<Rightarrow> filterField k | None \<Rightarrow> '''')"

definition clean_item :: "tag_filter_item \<Rightarrow> bool" where
  "clean_item f \<longleftrightarrow>
     serialized f \<and> lexeme KEY (item_key f) \<and>
     (if isNoValueLiteFilter (tf_op f) then True
      else if tf_op f \<in> set listOperators then
        (let vs = list_values (tf_value f) in
         vs \<noteq> [] \<and> list_all clean_value vs \<and> list_all (\<lambda>v. value_kind v = value_kind (hd vs)) vs)
      else clean_value (scalar_value (tf_value f)))"

text \<open>The value an item comes back with: strings trimmed, one value or a list by its operator.\<close>

definition trimmed_value :: "js_value \<Rightarrow> js_value" where
  "trimmed_value v = (case v of SStr s \<Rightarrow> SStr (js_trim s) | _ \<Rightarrow> v)"

definition returned_value :: "tag_filter_item \<Rightarrow> tag_value" where
  "returned_value f =
     (if isNoValueLiteFilter (tf_op f) then VOne (SStr '''')
      else if tf_op f \<in> set listOperators then VList (map trimmed_value (list_values (tf_value f)))
      else VOne (trimmed_value (scalar_value (tf_value f))))"

definition same_predicate :: "tag_filter_item \<Rightarrow> tag_filter_item \<Rightarrow> bool" where
  "same_predicate f g \<longleftrightarrow>
     tf_op g = tf_op f \<and> map_option ac_key (tf_key g) = Some (item_key f) \<and>
     tf_value g = Some (returned_value f)"

subsection \<open>The lexemes of a printed item\<close>

definition op_table :: "(string \<times> (token_type \<times> string) list) list" where
  "op_table =
     [(''='', [(EQUALS, ''='')]), (''!='', [(NOT_EQUALS, ''!='')]), (''>'', [(GT, ''>'')]),
      (''>='', [(GE, ''>='')]), (''<'', [(LT, ''<'')]), (''<='', [(LE, ''<='')]),
      (''in'', [(IN, ''in'')]), (''not in'', [(NOT, ''not''), (IN, ''in'')]),
      (''exists'', [(EXISTS, ''exists'')]), (''not exists'', [(NOT, ''not''), (EXISTS, ''exists'')]),
      (''contains'', [(CONTAINS, ''contains'')]), (''not contains'', [(NOT, ''not''), (CONTAINS, ''contains'')]),
      (''like'', [(LIKE, ''like'')]), (''not like'', [(NOT, ''not''), (LIKE, ''like'')]),
      (''ilike'', [(ILIKE, ''ilike'')]), (''not ilike'', [(NOT, ''not''), (ILIKE, ''ilike'')]),
      (''regexp'', [(REGEXP, ''regexp'')]), (''not regexp'', [(NOT, ''not''), (REGEXP, ''regexp'')])]"

definition op_lexemes :: "string \<Rightarrow> (token_type \<times> string) list" where
  "op_lexemes opr = (case map_of op_table opr of Some ls \<Rightarrow> ls | None \<Rightarrow> [])"

definition value_type :: "js_value \<Rightarrow> token_type" where
  "value_type v = (case v of SStr _ \<Rightarrow> QUOTED_TEXT | SNum _ \<Rightarrow> NUMBER | SBool _ \<Rightarrow> BOOL)"

definition value_lexeme :: "js_value \<Rightarrow> token_type \<times> string" where
  "value_lexeme v = (value_type v, quoteFilterValue v)"

fun comma_lexemes :: "js_value list \<Rightarrow> (token_type \<times> string) list" where
  "comma_lexemes [] = []"
| "comma_lexemes [v] = [value_lexeme v]"
| "comma_lexemes (v # w # vs) = value_lexeme v # (COMMA, '','') # comma_lexemes (w # vs)"

definition operand_lexemes :: "tag_filter_item \<Rightarrow> (token_type \<times> string) list" where
  "operand_lexemes f =
     (if isNoValueLiteFilter (tf_op f) then []
      else if tf_op f \<in> set listOperators then
        (LBRACK, ''['') # comma_lexemes (list_values (tf_value f)) @ [(RBRACK, '']'')]
      else [value_lexeme (scalar_value (tf_value f))])"

definition item_lexemes :: "tag_filter_item \<Rightarrow> (token_type \<times> string) list" where
  "item_lexemes f = (KEY, item_key f) # op_lexemes (tf_op f) @ operand_lexemes f"

lemma print_item_eq:
  "print_item f = item_key f @ '' '' @ tf_op f @
     (if isNoValueLiteFilter (tf_op f) then []
      else if tf_op f \<in> set listOperators then
        '' '' @ ''['' @ js_join '', '' (map quoteFilterValue (list_values (tf_value f))) @ '']''
      else '' '' @ quoteFilterValue (scalar_value (tf_value f)))"
  by (simp add: print_item_def item_key_def Let_def)

subsubsection \<open>Operators\<close>

lemma word_lexemes:
  "lexeme EQUALS ''=''" "lexeme NOT_EQUALS ''!=''" "lexeme GT ''>''" "lexeme GE ''>=''"
  "lexeme LT ''<''" "lexeme LE ''<=''" "lexeme IN ''in''" "lexeme NOT ''not''"
  "lexeme EXISTS ''exists''" "lexeme CONTAINS ''contains''" "lexeme LIKE ''like''"
  "lexeme ILIKE ''ilike''" "lexeme REGEXP ''regexp''" "lexeme AND ''AND''" "lexeme OR ''OR''"
  "lexeme BOOL ''true''" "lexeme BOOL ''false''"
  by code_simp+

definition ends_word :: "string \<Rightarrow> bool" where
  "ends_word rest \<longleftrightarrow> rest = [] \<or> hd rest = CHR '' ''"

lemma lex_word: "lexeme t w \<Longrightarrow> ends_word rest \<Longrightarrow> lex_steps w [(t, w)] rest"
  by (rule lex_steps_lexeme) (auto simp: ends_word_def delimiter_def)

lemma lex_space_word:
  "lexeme t w \<Longrightarrow> ends_word rest \<Longrightarrow> lex_steps ('' '' @ w) [(t, w)] rest"
  using lex_steps_append [OF lex_steps_space [of "w @ rest"] lex_word [of t w rest]]
  by (auto simp: lexeme_def)

lemma allowed_cases:
  assumes "opr \<in> set allowedFilterOperators"
  obtains (plain) t w where "lexeme t w" "opr = w" "op_lexemes opr = [(t, w)]"
  | (negated) t w where "lexeme t w" "opr = ''not '' @ w" "op_lexemes opr = [(NOT, ''not''), (t, w)]"
  using assms word_lexemes
  by (simp add: allowedFilterOperators_def LITE_FILTER_OPERATORS_def op_lexemes_def op_table_def)
     (elim disjE; simp)

lemma lex_operator:
  assumes "opr \<in> set allowedFilterOperators" "ends_word rest"
  shows "lex_steps ('' '' @ opr) (op_lexemes opr) rest"
  using assms(1)
proof (cases rule: allowed_cases)
  case (plain t w)
  with lex_space_word [OF plain(1) assms(2)] show ?thesis by simp
next
  case (negated t w)
  have "lex_steps ('' '' @ ''not'') [(NOT, ''not'')] (('' '' @ w) @ rest)"
    by (rule lex_space_word) (use word_lexemes in \<open>auto simp: ends_word_def\<close>)
  from lex_steps_append [OF this lex_space_word [OF negated(1) assms(2)]] negated(2,3)
  show ?thesis by simp
qed

subsubsection \<open>Values\<close>

lemma unsigned_literal_number:
  assumes "unsigned_literal s"
  shows "(let d = run_length is_digit s; f = match_fraction (drop d s)
    in 0 < d \<and> d + f + match_exponent (drop f (drop d s)) = length s)"
proof -
  define ip where "ip = takeWhile is_digit s"
  define r where "r = dropWhile is_digit s"
  have s: "s = ip @ r" by (simp add: ip_def r_def)
  from assms have ip: "ip \<noteq> []"
    and r: "r = [] \<or> (\<exists>fp. r = CHR ''.'' # fp \<and> fp \<noteq> [] \<and> list_all is_digit fp)"
    by (auto simp: unsigned_literal_def Let_def ip_def r_def split: list.splits)
  have d: "drop (length ip) s = r" by (simp add: s)
  have f: "match_fraction r = length r"
    using r by (auto simp: match_fraction_def list_all_iff takeWhile_eq_all_conv [THEN iffD2])
  then show ?thesis
    unfolding Let_def ip_def [symmetric] d using ip by (simp add: match_exponent_def) (simp add: s)
qed

lemma decimal_literal_number: "decimal_literal s \<Longrightarrow> match_number s = length s"
proof (cases s)
  case (Cons c r)
  assume dl: "decimal_literal s"
  show ?thesis
  proof (cases "c = CHR ''-''")
    case True
    with dl Cons have "unsigned_literal r" by (simp add: decimal_literal_def)
    from unsigned_literal_number [OF this] True Cons show ?thesis
      by (simp add: match_number_def match_sign_def Let_def)
  next
    case False
    with dl Cons have u: "unsigned_literal s" by (simp add: decimal_literal_def)
    then have "c \<noteq> CHR ''+''" using unsigned_literal_head [OF u] Cons by auto
    with unsigned_literal_number [OF u] False Cons show ?thesis
      by (simp add: match_number_def match_sign_def Let_def)
  qed
qed (simp add: decimal_literal_def)

lemma decimal_literal_head:
  "decimal_literal s \<Longrightarrow> \<exists>c r. s = c # r \<and> (is_digit c \<or> c = CHR ''-'')"
  by (cases s) (auto simp: decimal_literal_def split: if_splits dest: unsigned_literal_head)

lemma digit_or_minus: "is_digit c \<or> c = CHR ''-'' \<Longrightarrow> c \<in> set ''0123456789-''"
  by (auto simp: is_digit_def)

lemma decimal_literal_lexeme:
  assumes "decimal_literal s"
  shows "lexeme NUMBER s"
proof -
  obtain c r where s: "s = c # r" and c: "c \<in> set ''0123456789-''"
    using decimal_literal_head [OF assms] digit_or_minus by blast
  have head: "\<not> is_lower (lower_char c)" "\<not> is_alpha c" "c \<notin> set ''()[]=!<>,$_{@#''"
    "c \<noteq> CHR 0x22" "c \<noteq> CHR 0x27" "\<not> lex_ws c"
    using c by (auto simp: is_alpha_def lex_ws_def)
  have lit: "match_lit (b # l) s = 0" if "b \<in> set ''()[]=!<>,''" for b l
    using that head(3) by (auto simp: s match_lit_Cons)
  have word: "match_word (b # l) s = 0" if "is_lower b" for b l
    using that head(1) by (auto simp: s intro!: match_word_head)
  have key: "match_key s = 0" using head by (simp add: s match_key_def seg_start_def)
  have wsp: "run_length lex_ws s = 0" using head by (simp add: s)
  have quo: "match_quoted s = 0" using head by (simp add: s match_quoted_def)
  have num: "match_number s = length s" by (rule decimal_literal_number [OF assms])
  have free: "run_length free_char s \<le> length s" by (rule length_takeWhile_le)
  have ne: "s \<noteq> []" by (simp add: s)
  have "longest_match lex_rules s = (NUMBER, length s)"
    unfolding lex_rules_def
    using free ne by (simp add: lit word key wsp quo num match_optional_s_def Let_def del: takeWhile.simps)
  with head s show ?thesis by (simp add: lexeme_def quote_char_def)
qed

lemma unsigned_literal_chars:
  assumes "unsigned_literal s" "c \<in> set s"
  shows "is_digit c \<or> c = CHR ''.''"
proof -
  have "c \<in> set (takeWhile is_digit s) \<or> c \<in> set (dropWhile is_digit s)"
    using assms(2) by (metis Un_iff set_append takeWhile_dropWhile_id)
  with assms(1) show ?thesis
    by (auto simp: unsigned_literal_def Let_def list_all_iff dest: set_takeWhileD split: list.splits)
qed

lemma decimal_literal_chars:
  "decimal_literal s \<Longrightarrow> c \<in> set s \<Longrightarrow> is_digit c \<or> c = CHR ''.'' \<or> c = CHR ''-''"
  by (cases s) (auto simp: decimal_literal_def split: if_splits dest: unsigned_literal_chars)

lemma lex_value:
  assumes "clean_value v" "rest = [] \<or> delimiter (hd rest)"
  shows "lex_steps (quoteFilterValue v) [value_lexeme v] rest"
proof (cases v)
  case (SStr s)
  with assms(1) have "CHR 0x5C \<notin> set (js_trim s)" by (simp add: clean_value_def clean_string_def)
  from lex_steps_quoted [OF this, of rest] SStr show ?thesis
    by (simp add: quoteFilterValue_def value_lexeme_def value_type_def escape_quotes_def)
next
  case (SNum x)
  with assms(1) have dl: "decimal_literal (num_string x)"
    using num_string_reads [of x] by (simp add: clean_value_def)
  have "CHR ''['' \<notin> set (num_string x)"
    using decimal_literal_chars [OF dl, of "CHR ''[''"] by auto
  with lex_steps_lexeme [OF decimal_literal_lexeme [OF dl] assms(2)] SNum show ?thesis
    by (simp add: quoteFilterValue_def value_string_def value_lexeme_def value_type_def)
next
  case (SBool b)
  then show ?thesis
    using lex_steps_lexeme [OF word_lexemes(16) assms(2)] lex_steps_lexeme [OF word_lexemes(17) assms(2)]
    by (cases b) (simp_all add: quoteFilterValue_def value_string_def value_lexeme_def value_type_def)
qed

lemma quoted_value_head: "clean_value v \<Longrightarrow> \<exists>c r. quoteFilterValue v = c # r \<and> \<not> js_ws c"
proof (cases v)
  case (SNum x)
  assume "clean_value v"
  with SNum have "decimal_literal (num_string x)" using num_string_reads [of x] by (simp add: clean_value_def)
  from decimal_literal_head [OF this] obtain c r where "num_string x = c # r" "is_digit c \<or> c = CHR ''-''"
    by blast
  with SNum show ?thesis
    by (auto simp: quoteFilterValue_def value_string_def js_ws_def)
qed (auto simp: quoteFilterValue_def value_string_def js_ws_def)

lemma lex_ws_js_ws: "lex_ws c \<Longrightarrow> js_ws c"
  by (auto simp: lex_ws_def js_ws_def)

lemma lex_values:
  "vs \<noteq> [] \<Longrightarrow> list_all clean_value vs \<Longrightarrow>
     lex_steps (js_join '', '' (map quoteFilterValue vs)) (comma_lexemes vs) ('']'' @ rest)"
proof (induction vs rule: comma_lexemes.induct)
  case (2 v)
  then show ?case by (auto intro!: lex_value simp: delimiter_def)
next
  case (3 v w vs)
  let ?tail = "js_join '', '' (map quoteFilterValue (w # vs))"
  from 3 have w: "clean_value w" by simp
  from quoted_value_head [OF w] obtain c r where c: "quoteFilterValue w = c # r" "\<not> js_ws c" by blast
  have hd: "?tail \<noteq> [] \<and> hd ?tail = c" using c by (cases vs) auto
  have "lex_steps (quoteFilterValue v @ '','' @ '' '' @ ?tail)
      ([value_lexeme v] @ [(COMMA, '','')] @ [] @ comma_lexemes (w # vs)) ('']'' @ rest)"
  proof (intro lex_steps_append)
    show "lex_steps (quoteFilterValue v) [value_lexeme v] (('','' @ '' '' @ ?tail) @ '']'' @ rest)"
      using 3 by (intro lex_value) (auto simp: delimiter_def)
    show "lex_steps '','' [(COMMA, '','')] (('' '' @ ?tail) @ '']'' @ rest)" by (rule lex_steps_single)
    show "lex_steps '' '' [] (?tail @ '']'' @ rest)"
      using hd c lex_ws_js_ws by (intro lex_steps_space) auto
    show "lex_steps ?tail (comma_lexemes (w # vs)) ('']'' @ rest)" using 3 by simp
  qed
  then show ?case by simp
qed simp

subsubsection \<open>Items and the whole expression\<close>

lemma clean_item_allowed: "clean_item f \<Longrightarrow> tf_op f \<in> set allowedFilterOperators \<and> lexeme KEY (item_key f)"
  by (simp add: clean_item_def serialized_def)

lemma lex_item:
  assumes f: "clean_item f" and rest: "ends_word rest"
  shows "lex_steps (print_item f) (item_lexemes f) rest"
proof -
  note al = clean_item_allowed [OF f]
  define opd where "opd = (if isNoValueLiteFilter (tf_op f) then []
      else if tf_op f \<in> set listOperators then
        '' '' @ ''['' @ js_join '', '' (map quoteFilterValue (list_values (tf_value f))) @ '']''
      else '' '' @ quoteFilterValue (scalar_value (tf_value f)))"
  have ends: "ends_word (opd @ rest)" using rest by (simp add: opd_def ends_word_def)
  have operand: "lex_steps opd (operand_lexemes f) rest"
  proof -
    consider (none) "isNoValueLiteFilter (tf_op f)"
      | (many) "\<not> isNoValueLiteFilter (tf_op f)" "tf_op f \<in> set listOperators"
      | (one) "\<not> isNoValueLiteFilter (tf_op f)" "tf_op f \<notin> set listOperators" by blast
    then show ?thesis
    proof cases
      case none
      then show ?thesis by (simp add: opd_def operand_lexemes_def lex_steps_Nil)
    next
      case many
      let ?vs = "list_values (tf_value f)"
      from f many have vs: "?vs \<noteq> []" "list_all clean_value ?vs" by (auto simp: clean_item_def Let_def)
      have "lex_steps ('' '' @ ''['' @ js_join '', '' (map quoteFilterValue ?vs) @ '']'')
          ([] @ [(LBRACK, ''['')] @ comma_lexemes ?vs @ [(RBRACK, '']'')]) rest"
        by (intro lex_steps_append lex_steps_space lex_steps_single lex_values vs) (simp_all add: lex_ws_def)
      then show ?thesis using many by (simp add: opd_def operand_lexemes_def)
    next
      case one
      let ?v = "scalar_value (tf_value f)"
      from f one have v: "clean_value ?v" by (auto simp: clean_item_def)
      from quoted_value_head [OF v] obtain c r where c: "quoteFilterValue ?v = c # r" "\<not> js_ws c" by blast
      have "lex_steps ('' '' @ quoteFilterValue ?v) ([] @ [value_lexeme ?v]) rest"
        by (intro lex_steps_append lex_steps_space lex_value v)
           (use c lex_ws_js_ws rest in \<open>auto simp: ends_word_def delimiter_def\<close>)
      then show ?thesis using one by (simp add: opd_def operand_lexemes_def)
    qed
  qed
  have "lex_steps (item_key f @ ('' '' @ tf_op f) @ opd) ([(KEY, item_key f)] @ op_lexemes (tf_op f) @ operand_lexemes f) rest"
    by (intro lex_steps_append lex_operator operand lex_word)
       (use al ends in \<open>auto simp: ends_word_def\<close>)
  then show ?thesis by (simp add: print_item_eq item_lexemes_def opd_def)
qed

definition join_word :: "bool \<Rightarrow> string" where
  "join_word alt = (if alt then ''OR'' else ''AND'')"

definition join_lexeme :: "bool \<Rightarrow> token_type \<times> string" where
  "join_lexeme alt = (if alt then OR else AND, join_word alt)"

fun joined_lexemes :: "bool \<Rightarrow> tag_filter_item list \<Rightarrow> (token_type \<times> string) list" where
  "joined_lexemes alt [] = []"
| "joined_lexemes alt [f] = item_lexemes f"
| "joined_lexemes alt (f # g # fs) = item_lexemes f @ join_lexeme alt # joined_lexemes alt (g # fs)"

lemma key_head:
  assumes "lexeme KEY k"
  shows "\<exists>c r. k = c # r \<and> seg_start c \<and> \<not> lex_ws c"
proof -
  from assms have k: "longest_match lex_rules k = (KEY, length k)" "k \<noteq> []" "\<not> lex_ws (hd k)"
    by (auto simp: lexeme_def)
  then obtain m where "(KEY, m) \<in> set lex_rules" "length k = m k"
    using longest_match_rule [of lex_rules k KEY "length k"] by auto
  then have "0 < match_key k" using k(2) by (auto simp: lex_rules_def) (metis length_greater_0_conv)
  with k show ?thesis by (cases k) (auto simp: match_key_def split: if_splits)
qed

lemma print_item_head: "clean_item f \<Longrightarrow> \<exists>c r. print_item f = c # r \<and> seg_start c \<and> \<not> lex_ws c"
  using key_head [of "item_key f"] by (auto simp: clean_item_def print_item_eq)

lemma lex_join:
  assumes "rest \<noteq> []" "\<not> lex_ws (hd rest)"
  shows "lex_steps ('' '' @ join_word alt @ '' '') [join_lexeme alt] rest"
proof -
  have "lex_steps ('' '' @ join_word alt @ '' '') ([] @ [join_lexeme alt] @ []) rest"
    using assms word_lexemes(14,15)
    by (intro lex_steps_append lex_steps_space lex_word)
       (auto simp: join_word_def join_lexeme_def ends_word_def lex_ws_def intro!: lex_word)
  then show ?thesis by simp
qed

lemma lex_items:
  "fs \<noteq> [] \<Longrightarrow> list_all clean_item fs \<Longrightarrow>
     lex_steps (js_join ('' '' @ join_word alt @ '' '') (map print_item fs)) (joined_lexemes alt fs) []"
proof (induction alt fs rule: joined_lexemes.induct)
  case (2 alt f)
  then show ?case by (auto intro!: lex_item simp: ends_word_def)
next
  case (3 alt f g fs)
  let ?sep = "'' '' @ join_word alt @ '' ''"
  let ?tail = "js_join ?sep (map print_item (g # fs))"
  from 3 print_item_head [of g] obtain c r where c: "print_item g = c # r" "\<not> lex_ws c" by auto
  have hd: "?tail \<noteq> [] \<and> hd ?tail = c" using c by (cases fs) auto
  have "lex_steps (print_item f @ ?sep @ ?tail)
      (item_lexemes f @ [join_lexeme alt] @ joined_lexemes alt (g # fs)) []"
    by (intro lex_steps_append lex_item lex_join) (use 3 hd c in \<open>auto simp: ends_word_def\<close>)
  then show ?case by simp
qed simp

subsection \<open>The pairs of the tokens\<close>

text \<open>The word of the operator without its negation, as it is printed.\<close>

definition op_word :: "string \<Rightarrow> string" where
  "op_word opr = (if starts_with ''not '' opr then drop 4 opr else opr)"

definition negated_op :: "string \<Rightarrow> bool" where
  "negated_op opr = starts_with ''not '' opr"

text \<open>What the pair of an item must say for the parser to rebuild the item.\<close>

definition pair_of_item :: "tag_filter_item \<Rightarrow> query_pair \<Rightarrow> bool" where
  "pair_of_item f p \<longleftrightarrow>
     qp_key p = item_key f \<and> qp_operator p = op_word (tf_op f) \<and>
     qp_hasNegation p = negated_op (tf_op f) \<and>
     (if isNoValueLiteFilter (tf_op f) then \<not> qp_isComplete p
      else qp_isComplete p \<and>
        (if tf_op f \<in> set listOperators
         then qp_valueList p = map quoteFilterValue (list_values (tf_value f))
         else qp_value p = Some (quoteFilterValue (scalar_value (tf_value f)))))"

lemma map_sig_Cons:
  "map tok_sig ts = (t, w) # ls \<longleftrightarrow>
     (\<exists>x xs. ts = x # xs \<and> tk_type x = t \<and> tk_text x = w \<and> map tok_sig xs = ls)"
  by (cases ts) (auto simp: tok_sig_def)

lemma map_sig_append:
  "map tok_sig ts = ks @ ls \<longleftrightarrow> (\<exists>us vs. ts = us @ vs \<and> map tok_sig us = ks \<and> map tok_sig vs = ls)"
  by (auto simp: map_eq_append_conv)

lemma comma_values:
  "map tok_sig us = comma_lexemes vs \<Longrightarrow>
     (\<forall>t\<in>set us. tk_type t \<noteq> RBRACK) \<and>
     map tk_text (filter (\<lambda>t. isValueToken (tk_type t)) us) = map quoteFilterValue vs"
proof (induction vs arbitrary: us rule: comma_lexemes.induct)
  case (2 v)
  then show ?case
    by (auto simp: value_lexeme_def map_sig_Cons value_type_def isValueToken_def split: js_value.splits)
next
  case (3 v w vs)
  from 3(2) obtain a b xs where us: "us = a # b # xs" "tk_type a = value_type v" "tk_text a = quoteFilterValue v"
    "tk_type b = COMMA" "map tok_sig xs = comma_lexemes (w # vs)"
    by (auto simp: value_lexeme_def map_sig_Cons)
  have "isValueToken (value_type v)" "value_type v \<noteq> RBRACK"
    by (auto simp: value_type_def isValueToken_def split: js_value.splits)
  with 3(1) [OF us(5)] us show ?case by (auto simp: isValueToken_def)
qed simp

lemma collect_values_until:
  "\<forall>t\<in>set us. tk_type t \<noteq> c \<Longrightarrow> tk_type r = c \<Longrightarrow>
     collect_values c (us @ r # post) = Some (filter (\<lambda>t. isValueToken (tk_type t)) us, r # post)"
  by (induction us) auto

lemma value_text_not_Nil: "clean_value v \<Longrightarrow> quoteFilterValue v \<noteq> []"
  using quoted_value_head by fastforce

text \<open>The key token, and a \<open>NOT\<close> before the operator.\<close>

lemma pairs_key:
  "tk_type k = KEY \<Longrightarrow> tk_channel k = 0 \<Longrightarrow>
     pairs_loop q None (k # ts) = pairs_loop q (Some (new_pair k)) ts"
  by (simp add: has_key_def)

lemma pairs_not:
  "tk_type n = NOT \<Longrightarrow> tk_channel n = 0 \<Longrightarrow>
     pairs_loop q (Some p) (n # ts) = pairs_loop q (Some (negate_pair n p)) ts"
  by simp

text \<open>A pair waiting for its operator.\<close>

definition waiting :: "string \<Rightarrow> bool \<Rightarrow> partial_pair \<Rightarrow> bool" where
  "waiting k neg p \<longleftrightarrow> pp_key p = k \<and> k \<noteq> [] \<and> pp_operator p = None \<and> pp_value p = None \<and>
     or_false (pp_hasNegation p) = neg"

lemma waiting_new: "tk_text k \<noteq> [] \<Longrightarrow> waiting (tk_text k) False (new_pair k)"
  by (simp add: waiting_def new_pair_def or_false_def)

lemma waiting_negate: "waiting k neg p \<Longrightarrow> waiting k True (negate_pair n p)"
  by (simp add: waiting_def negate_pair_def or_false_def)

lemma key_places [simp]:
  "keyStart (pp_position (new_pair k)) = tk_start k"
  "keyStart (pp_position (negate_pair n p)) = keyStart (pp_position p)"
  "keyStart (pp_position (value_pair v p)) = keyStart (pp_position p)"
  "valueEnd (pp_position (value_pair v p)) = Some (tk_stop v)"
  "keyStart (qp_position (finish_pair p)) = keyStart (pp_position p)"
  "valueEnd (qp_position (finish_pair p)) = valueEnd (pp_position p)"
  by (simp_all add: new_pair_def negate_pair_def value_pair_def finish_pair_def)

text \<open>A pair starts with the first token of its item, and its value ends with the last.\<close>

definition pair_covers :: "tag_filter_item \<Rightarrow> itoken list \<Rightarrow> query_pair \<Rightarrow> bool" where
  "pair_covers f its p \<longleftrightarrow>
     keyStart (qp_position p) = tk_start (hd its) \<and>
     (\<not> isNoValueLiteFilter (tf_op f) \<longrightarrow> valueEnd (qp_position p) = Some (tk_stop (last its)))"

definition single_op :: "token_type \<Rightarrow> string \<Rightarrow> bool" where
  "single_op t w \<longleftrightarrow> isOperatorToken t \<and> t \<noteq> NOT \<and> t \<noteq> IN \<and> w \<noteq> [] \<and> \<not> isMultiValueOperator (Some w)"

lemma pairs_single_op:
  assumes "waiting k neg p" "tk_channel t = 0" "single_op (tk_type t) (tk_text t)"
  shows "\<exists>p'. (\<forall>ts. pairs_loop q (Some p) (t # ts) = pairs_loop q (Some p') ts) \<and>
    pp_key p' = k \<and> k \<noteq> [] \<and> pp_operator p' = Some (tk_text t) \<and> pp_value p' = None \<and>
    or_false (pp_hasNegation p') = neg \<and> keyStart (pp_position p') = keyStart (pp_position p)"
proof -
  have t: "tk_type t \<noteq> EOF" "tk_type t \<noteq> KEY" "tk_type t \<noteq> NOT" "isOperatorToken (tk_type t)"
    using assms(3) by (auto simp: single_op_def isOperatorToken_def)
  define p' where "p' = fst (the (operator_pair q t [] p))"
  have o: "operator_pair q t ts p = Some (p', ts)" for ts
    using assms(3) by (simp add: p'_def operator_pair_def single_op_def)
  have "pairs_loop q (Some p) (t # ts) = pairs_loop q (Some p') ts" for ts
    using assms(1,2) t o [of ts] by (simp add: waiting_def has_key_def truthy_str_def)
  moreover have "pp_key p' = k \<and> k \<noteq> [] \<and> pp_operator p' = Some (tk_text t) \<and> pp_value p' = None \<and>
      or_false (pp_hasNegation p') = neg \<and> keyStart (pp_position p') = keyStart (pp_position p)"
    using assms(1,3) by (simp add: p'_def operator_pair_def single_op_def waiting_def)
  ultimately show ?thesis by blast
qed

lemma pairs_value:
  assumes "pp_key p \<noteq> []" "pp_operator p = Some w" "w \<noteq> []" "\<not> isNonValueOperator w" "pp_value p = None"
    and "isValueToken (tk_type v)" "tk_type v \<noteq> KEY" "tk_channel v = 0"
  shows "pairs_loop q (Some p) (v # ts) = pairs_loop q (Some (value_pair v p)) ts"
proof -
  have "tk_type v \<noteq> EOF" "tk_type v \<noteq> NOT" "\<not> isOperatorToken (tk_type v)"
    using assms(6) by (auto simp: isValueToken_def isOperatorToken_def)
  with assms show ?thesis by (simp add: has_key_def truthy_str_def)
qed

text \<open>The list of values after \<open>in\<close>.\<close>

lemma pairs_list_op:
  assumes w: "waiting k neg p" and t: "tk_type t = IN" "tk_text t = ''in''" "tk_channel t = 0"
    and l: "tk_type l = LBRACK" "0 < tk_start l" "tk_start l \<le> tk_stop r" "nat (tk_start l) < length q"
    and r: "tk_type r = RBRACK" "tk_channel r = 0"
    and us: "\<forall>u\<in>set us. tk_type u \<noteq> RBRACK"
  shows "\<exists>p'. (\<forall>post. pairs_loop q (Some p) (t # l # us @ r # post) = pairs_loop q (Some p') post) \<and>
    qp_key (finish_pair p') = k \<and> qp_operator (finish_pair p') = ''in'' \<and>
    qp_hasNegation (finish_pair p') = neg \<and> qp_isComplete (finish_pair p') \<and> pp_key p' \<noteq> [] \<and>
    qp_valueList (finish_pair p') = map tk_text (filter (\<lambda>t. isValueToken (tk_type t)) us) \<and>
    keyStart (pp_position p') = keyStart (pp_position p) \<and> valueEnd (pp_position p') = Some (tk_stop r)"
proof -
  have multi: "isMultiValueOperator (Some ''in'')" by code_simp
  define vs where "vs = filter (\<lambda>t. isValueToken (tk_type t)) us"
  have mv: "multi_values (l # us @ r # post) = Some (vs, Some (tk_start l), Some (tk_stop r), r # post)" for post
    using l(1) collect_values_until [OF us r(1), of post] by (simp add: multi_values_def js_nth_def vs_def)
  define p' where "p' = fst (the (operator_pair q t (l # us @ r # []) p))"
  have o: "operator_pair q t (l # us @ r # post) p = Some (p', r # post)" for post
    using multi t(2) mv by (simp add: p'_def operator_pair_def Let_def)
  have "pairs_loop q (Some p) (t # l # us @ r # post) = pairs_loop q (Some p') (r # post)" for post
    using w t o [of post] by (simp add: waiting_def has_key_def truthy_str_def isOperatorToken_def)
  moreover have key: "pp_key p' = k" "k \<noteq> []"
    using w multi t(2) mv by (auto simp: p'_def operator_pair_def Let_def waiting_def)
  then have "pairs_loop q (Some p') (r # post) = pairs_loop q (Some p') post" for post
    using r by (simp add: has_key_def isOperatorToken_def isValueToken_def isConjunctionToken_def)
  moreover have "js_slice q (tk_start l) (tk_stop r + 1) \<noteq> []"
    using l by (auto simp: js_slice_def)
  then have "qp_operator (finish_pair p') = ''in'' \<and> qp_hasNegation (finish_pair p') = neg \<and>
      qp_isComplete (finish_pair p') \<and> qp_valueList (finish_pair p') = map tk_text vs \<and>
      keyStart (pp_position p') = keyStart (pp_position p) \<and> valueEnd (pp_position p') = Some (tk_stop r)"
    using w multi t(2) mv key l
    by (simp add: or_num_def p'_def operator_pair_def Let_def waiting_def finish_pair_def str_or_def truthy_str_def
        truthy_num_def or_list_def)
  ultimately show ?thesis using key by (auto simp: finish_pair_def vs_def intro!: exI [of _ p'])
qed

lemma op_lexemes_cases:
  assumes "opr \<in> set allowedFilterOperators"
  obtains t w where "single_op t w \<or> (t = IN \<and> w = ''in'')" "w = op_word opr" "w \<noteq> []"
    "op_lexemes opr = (if negated_op opr then [(NOT, ''not'')] else []) @ [(t, w)]"
    "isNonValueOperator w = isNoValueLiteFilter opr" "(t = IN \<and> w = ''in'') = (opr \<in> set listOperators)"
    "t \<in> set plain_operators \<or> t = IN \<or> t = EXISTS"
    "negated_op opr \<Longrightarrow> t \<in> set negatable_operators \<or> t = IN \<or> t = EXISTS"
    "t = EXISTS \<longleftrightarrow> isNoValueLiteFilter opr"
proof -
  have "list_ex (\<lambda>(t, w). (single_op t w \<or> (t = IN \<and> w = ''in'')) \<and> w = op_word opr \<and> w \<noteq> [] \<and>
      op_lexemes opr = (if negated_op opr then [(NOT, ''not'')] else []) @ [(t, w)] \<and>
      isNonValueOperator w = isNoValueLiteFilter opr \<and> (t = IN \<and> w = ''in'') = (opr \<in> set listOperators) \<and>
      (t \<in> set plain_operators \<or> t = IN \<or> t = EXISTS) \<and>
      (negated_op opr \<longrightarrow> t \<in> set negatable_operators \<or> t = IN \<or> t = EXISTS) \<and>
      (t = EXISTS \<longleftrightarrow> isNoValueLiteFilter opr)) (concat (map snd op_table))"
  proof -
    have "list_all (\<lambda>opr. list_ex (\<lambda>(t, w). (single_op t w \<or> (t = IN \<and> w = ''in'')) \<and> w = op_word opr \<and> w \<noteq> [] \<and>
      op_lexemes opr = (if negated_op opr then [(NOT, ''not'')] else []) @ [(t, w)] \<and>
      isNonValueOperator w = isNoValueLiteFilter opr \<and> (t = IN \<and> w = ''in'') = (opr \<in> set listOperators) \<and>
      (t \<in> set plain_operators \<or> t = IN \<or> t = EXISTS) \<and>
      (negated_op opr \<longrightarrow> t \<in> set negatable_operators \<or> t = IN \<or> t = EXISTS) \<and>
      (t = EXISTS \<longleftrightarrow> isNoValueLiteFilter opr)) (concat (map snd op_table))) allowedFilterOperators"
      by code_simp
    with assms show ?thesis by (simp add: list_all_iff)
  qed
  then show thesis using that by (auto simp: list_ex_iff)
qed

text \<open>The tokens of an item become its pair.\<close>

lemma item_pair:
  assumes f: "clean_item f" and sig: "map tok_sig its = item_lexemes f"
    and ch: "\<forall>t\<in>set its. tk_channel t = 0" and ah: "ahead q lo its" "-1 \<le> lo"
  shows "\<exists>p. (\<forall>post. pairs_loop q None (its @ post) = pairs_loop q (Some p) post) \<and>
    pp_key p \<noteq> [] \<and> pair_of_item f (finish_pair p) \<and> pair_covers f its (finish_pair p)"
proof -
  note al = clean_item_allowed [OF f]
  have key: "item_key f \<noteq> []" using al by (simp add: lexeme_def)
  from al obtain t w where tw: "single_op t w \<or> (t = IN \<and> w = ''in'')" "w = op_word (tf_op f)" "w \<noteq> []"
    "op_lexemes (tf_op f) = (if negated_op (tf_op f) then [(NOT, ''not'')] else []) @ [(t, w)]"
    "isNonValueOperator w = isNoValueLiteFilter (tf_op f)" "(t = IN \<and> w = ''in'') = (tf_op f \<in> set listOperators)"
    by (elim conjE op_lexemes_cases) blast
  from sig obtain k ns x opd where its: "its = k # ns @ x # opd" and k: "tk_type k = KEY" "tk_text k = item_key f"
    and ns: "map tok_sig ns = (if negated_op (tf_op f) then [(NOT, ''not'')] else [])"
    and x: "tk_type x = t" "tk_text x = w" and opd: "map tok_sig opd = operand_lexemes f"
    by (auto simp: item_lexemes_def tw(4) map_sig_Cons map_sig_append)
  have "\<exists>p. (\<forall>post. pairs_loop q None (k # ns @ post) = pairs_loop q (Some p) post) \<and>
      waiting (item_key f) (negated_op (tf_op f)) p \<and> keyStart (pp_position p) = tk_start k"
  proof (cases "negated_op (tf_op f)")
    case False
    with ns k key ch its waiting_new [of k] pairs_key [of k q] show ?thesis by auto
  next
    case True
    with ns obtain n where n: "ns = [n]" "tk_type n = NOT" by (auto simp: map_sig_Cons)
    with ch its k key pairs_key [of k q] pairs_not [of n q "new_pair k"] waiting_negate [OF waiting_new [of k]] True
    show ?thesis by auto
  qed
  then obtain p where p: "\<And>post. pairs_loop q None (k # ns @ post) = pairs_loop q (Some p) post"
    "waiting (item_key f) (negated_op (tf_op f)) p" "keyStart (pp_position p) = tk_start k" by blast
  consider (many) "tf_op f \<in> set listOperators" | (single) "tf_op f \<notin> set listOperators" "single_op t w"
    using tw(1,6) by blast
  then show ?thesis
  proof cases
    case many
    let ?vs = "list_values (tf_value f)"
    have nv: "\<not> isNoValueLiteFilter (tf_op f)"
      using many by (auto simp: isNoValueLiteFilter_def noValueOperators_def listOperators_def)
    from opd many nv obtain l us r where o: "opd = l # us @ [r]" "tk_type l = LBRACK" "tk_type r = RBRACK"
      "map tok_sig us = comma_lexemes ?vs"
      by (auto simp: operand_lexemes_def map_sig_Cons map_sig_append)
    have "spans q (tk_start l) (tk_stop l) (tk_text l)" "spans q (tk_start r) (tk_stop r) (tk_text r)"
      "spans q (tk_start k) (tk_stop k) (tk_text k)" "tk_stop l < tk_start r" "tk_stop k < tk_start l"
      using ah(1) o k by (auto simp: its ahead_def token_in_query_def sorted_wrt_append)
    then have pos: "0 < tk_start l" "tk_start l \<le> tk_stop r" "nat (tk_start l) < length q"
      by (auto simp: spans_def)
    have xt: "tk_type x = IN" "tk_text x = ''in''" using tw(6) many x by auto
    have xc: "tk_channel x = 0" "tk_channel r = 0" using ch its o(1) by auto
    from pairs_list_op [OF p(2) xt xc(1) o(2) pos o(3) xc(2) comma_values [OF o(4), THEN conjunct1]]
    obtain p' where p': "\<And>post. pairs_loop q (Some p) (x # l # us @ r # post) = pairs_loop q (Some p') post"
      "qp_key (finish_pair p') = item_key f" "qp_operator (finish_pair p') = ''in''"
      "qp_hasNegation (finish_pair p') = negated_op (tf_op f)" "qp_isComplete (finish_pair p')" "pp_key p' \<noteq> []"
      "qp_valueList (finish_pair p') = map tk_text (filter (\<lambda>t. isValueToken (tk_type t)) us)"
      "keyStart (pp_position p') = keyStart (pp_position p)" "valueEnd (pp_position p') = Some (tk_stop r)"
      by blast
    have "pairs_loop q None (its @ post) = pairs_loop q (Some p') post" for post
      using p(1) [of "x # l # us @ r # post"] p'(1) [of post] by (simp add: its o(1))
    moreover have "pair_of_item f (finish_pair p')"
      using p'(2-7) nv many tw(2,6) comma_values [OF o(4)] by (auto simp: pair_of_item_def)
    moreover have "pair_covers f its (finish_pair p')"
      using p'(8,9) p(3) by (simp add: pair_covers_def its o(1))
    ultimately show ?thesis using p'(6) by blast
  next
    case single
    from pairs_single_op [OF p(2), of x q] single x ch its
    obtain p' where p': "\<And>ts. pairs_loop q (Some p) (x # ts) = pairs_loop q (Some p') ts"
      "pp_key p' = item_key f" "pp_operator p' = Some w" "pp_value p' = None"
      "or_false (pp_hasNegation p') = negated_op (tf_op f)" "keyStart (pp_position p') = keyStart (pp_position p)" by auto
    show ?thesis
    proof (cases "isNoValueLiteFilter (tf_op f)")
      case True
      then have "opd = []" using opd by (simp add: operand_lexemes_def)
      then have "pairs_loop q None (its @ post) = pairs_loop q (Some p') post" for post
        using p(1) [of "x # post"] p'(1) by (simp add: its)
      with p' key True tw(2) p(3) show ?thesis
        by (intro exI [of _ p']) (auto simp: pair_of_item_def pair_covers_def its finish_pair_def str_or_def truthy_str_def)
    next
      case False
      let ?v = "scalar_value (tf_value f)"
      from False single(1) opd obtain v where v: "opd = [v]" "tk_type v = value_type ?v"
        "tk_text v = quoteFilterValue ?v"
        by (auto simp: operand_lexemes_def value_lexeme_def map_sig_Cons)
      have vt: "isValueToken (tk_type v)" "tk_type v \<noteq> KEY"
        using v(2) by (auto simp: value_type_def isValueToken_def split: js_value.splits)
      have "tk_text v \<noteq> []" using f False single(1) v(3) value_text_not_Nil by (auto simp: clean_item_def)
      moreover have "pairs_loop q None (its @ post) = pairs_loop q (Some (value_pair v p')) post" for post
        using p(1) [of "x # v # post"] p'(1) pairs_value [of p' w v q post] p'(2-4) key tw(3,5) False vt ch
        by (simp add: its v(1))
      ultimately show ?thesis
        using p' key False single(1) tw(2,3) v(3) p(3)
        by (intro exI [of _ "value_pair v p'"])
           (auto simp: pair_of_item_def pair_covers_def its v(1) finish_pair_def value_pair_def str_or_def truthy_str_def)
    qed
  qed
qed

lemma joined_pairs:
  "fs \<noteq> [] \<Longrightarrow> list_all clean_item fs \<Longrightarrow> map tok_sig ts = joined_lexemes alt fs \<Longrightarrow>
     \<forall>t\<in>set ts. tk_channel t = 0 \<Longrightarrow> tk_type e = EOF \<Longrightarrow> ahead q (-1) ts \<Longrightarrow>
     \<exists>ps. pairs_loop q None (ts @ [e]) = Some ps \<and> list_all2 pair_of_item fs ps"
proof (induction alt fs arbitrary: ts rule: joined_lexemes.induct)
  case (2 alt f)
  then obtain p where "\<And>post. pairs_loop q None (ts @ post) = pairs_loop q (Some p) post"
    "pp_key p \<noteq> []" "pair_of_item f (finish_pair p)"
    using item_pair [of f ts q "-1"] by auto
  with 2(5) show ?case by (intro exI [of _ "[finish_pair p]"]) (simp add: has_key_def)
next
  case (3 alt f g fs)
  from 3(4) obtain its j ts' where ts: "ts = its @ j # ts'" "map tok_sig its = item_lexemes f"
    "tok_sig j = join_lexeme alt" "map tok_sig ts' = joined_lexemes alt (g # fs)"
    by (auto simp: map_eq_append_conv map_eq_Cons_conv)
  have ah: "ahead q (-1) its" "ahead q (-1) ts'"
    using 3(7) by (auto simp: ts(1) ahead_def sorted_wrt_append)
  have j: "isConjunctionToken (tk_type j)" "tk_type j \<noteq> EOF" "tk_type j \<noteq> KEY" "tk_type j \<noteq> NOT"
    "\<not> isOperatorToken (tk_type j)" "\<not> isValueToken (tk_type j)"
    using ts(3) by (auto simp: tok_sig_def join_lexeme_def isConjunctionToken_def isOperatorToken_def
        isValueToken_def split: if_splits)
  from 3 ts ah(1) obtain p where p: "\<And>post. pairs_loop q None (its @ post) = pairs_loop q (Some p) post"
    "pp_key p \<noteq> []" "pair_of_item f (finish_pair p)"
    using item_pair [of f its q "-1"] by auto
  from 3(1) [of ts'] 3(3,5,6) ts ah(2) obtain ps where ps: "pairs_loop q None (ts' @ [e]) = Some ps"
    "list_all2 pair_of_item (g # fs) ps" by auto
  have "pairs_loop q (Some p) (j # ts' @ [e]) = Some (finish_pair p # ps)"
    using j p(2) ps(1) 3(5) ts(1) by (simp add: has_key_def)
  with p(1) [of "j # ts' @ [e]"] p(3) ps(2) show ?case
    by (intro exI [of _ "finish_pair p # ps"]) (simp add: ts(1))
qed simp

subsection \<open>The tokens are a sentence of the grammar\<close>

lemma value_type_token: "isValueToken (value_type v)"
  by (simp add: value_type_def isValueToken_def split: js_value.splits)

lemma comma_grammar: "vs \<noteq> [] \<Longrightarrow> map tok_sig us = comma_lexemes vs \<Longrightarrow> fq R_valueList us"
proof (induction vs arbitrary: us rule: comma_lexemes.induct)
  case (2 v)
  then show ?case
    by (auto simp: value_lexeme_def map_sig_Cons value_type_token intro!: fq_values_one fq_value)
next
  case (3 v w vs)
  then obtain a b xs where us: "us = [a] @ b # xs" "isValueToken (tk_type a)" "tk_type b = COMMA"
    "fq R_valueList xs"
    by (auto simp: value_lexeme_def map_sig_Cons value_type_token)
  then show ?case using fq_values_more [OF fq_value] by simp
qed simp

lemma item_grammar:
  assumes f: "clean_item f" and sig: "map tok_sig its = item_lexemes f"
  shows "fq R_comparison its"
proof -
  note al = clean_item_allowed [OF f]
  from al obtain t w where tw: "op_lexemes (tf_op f) = (if negated_op (tf_op f) then [(NOT, ''not'')] else []) @ [(t, w)]"
    "t \<in> set plain_operators \<or> t = IN \<or> t = EXISTS"
    "negated_op (tf_op f) \<Longrightarrow> t \<in> set negatable_operators \<or> t = IN \<or> t = EXISTS"
    "t = EXISTS \<longleftrightarrow> isNoValueLiteFilter (tf_op f)" "(t = IN \<and> w = ''in'') = (tf_op f \<in> set listOperators)"
    "single_op t w \<or> (t = IN \<and> w = ''in'')"
    by (elim conjE op_lexemes_cases) blast
  from sig obtain k ns x opd where its: "its = [k] @ ns @ x # opd" and k: "tk_type k = KEY"
    and ns: "map tok_sig ns = (if negated_op (tf_op f) then [(NOT, ''not'')] else [])"
    and x: "tk_type x = t" and opd: "map tok_sig opd = operand_lexemes f"
    by (auto simp: item_lexemes_def tw(1) map_sig_Cons map_sig_append)
  have kg: "fq R_key [k]" using k by (rule fq_key)
  have ns': "(\<not> negated_op (tf_op f) \<and> ns = []) \<or> (negated_op (tf_op f) \<and> (\<exists>n. ns = [n] \<and> tk_type n = NOT))"
    using ns by (auto simp: map_sig_Cons split: if_splits)
  consider (exist) "isNoValueLiteFilter (tf_op f)"
    | (many) "\<not> isNoValueLiteFilter (tf_op f)" "tf_op f \<in> set listOperators"
    | (one) "\<not> isNoValueLiteFilter (tf_op f)" "tf_op f \<notin> set listOperators" by blast
  then show ?thesis
  proof cases
    case exist
    then have "opd = []" "tk_type x = EXISTS" using opd tw(4) x by (auto simp: operand_lexemes_def)
    with ns' show ?thesis using fq_exists [OF kg] fq_not_exists [OF kg] by (auto simp: its)
  next
    case many
    then have vs: "list_values (tf_value f) \<noteq> []" using f by (auto simp: clean_item_def Let_def)
    from opd many obtain l us r where o: "opd = l # us @ [r]" "brackets_match l r"
      "map tok_sig us = comma_lexemes (list_values (tf_value f))"
      by (auto simp: operand_lexemes_def map_sig_Cons map_sig_append brackets_match_def)
    have us: "fq R_valueList us" by (rule comma_grammar [OF vs o(3)])
    have xi: "tk_type x = IN" using many tw(5) x by blast
    from ns' show ?thesis
      using fq_compare_in [OF kg fq_in_list [OF xi o(2) us]]
        fq_compare_not_in [OF kg fq_not_in_list [OF _ xi o(2) us]]
      by (auto simp: its o(1))
  next
    case one
    then obtain v where v: "opd = [v]" "isValueToken (tk_type v)"
      using opd by (auto simp: operand_lexemes_def value_lexeme_def map_sig_Cons value_type_token)
    have t: "t \<noteq> EXISTS" "t \<noteq> IN"
      using one tw(4-6) by (auto simp: single_op_def)
    with ns' show ?thesis
      using fq_compare [OF kg _ fq_value [OF v(2)]] fq_compare_not [OF kg _ _ fq_value [OF v(2)]] tw(2,3) x
      by (auto simp: its v(1))
  qed
qed

lemma items_grammar:
  "fs \<noteq> [] \<Longrightarrow> list_all clean_item fs \<Longrightarrow> map tok_sig ts = joined_lexemes alt fs \<Longrightarrow>
     fq (if alt then R_orExpression else R_andExpression) ts"
proof (induction alt fs arbitrary: ts rule: joined_lexemes.induct)
  case (2 alt f)
  then have "fq R_unaryExpression ts"
    by (intro fq_unary fq_primary [where rl = R_comparison] item_grammar [of f]) auto
  then show ?case by (auto intro: fq_and_one fq_or_one)
next
  case (3 alt f g fs)
  from 3(4) obtain its j ts' where ts: "ts = its @ j # ts'" "map tok_sig its = item_lexemes f"
    "tok_sig j = join_lexeme alt" "map tok_sig ts' = joined_lexemes alt (g # fs)"
    by (auto simp: map_eq_append_conv map_eq_Cons_conv)
  from 3 ts have u: "fq R_unaryExpression its"
    by (intro fq_unary fq_primary [where rl = R_comparison] item_grammar [of f]) auto
  have rest: "fq (if alt then R_orExpression else R_andExpression) ts'" using 3 ts by auto
  have j: "tk_type j = (if alt then OR else AND)" using ts(3) by (auto simp: tok_sig_def join_lexeme_def)
  show ?case
    using fq_or_more [OF fq_and_one [OF u]] fq_and_more [OF u] j rest by (auto simp: ts(1))
qed simp

subsection \<open>The boolean shape\<close>

fun shape_ok :: "token_type list \<Rightarrow> bool" where
  "shape_ok [] = True"
| "shape_ok (t # ts) =
     (t \<noteq> LPAREN \<and>
      (t = NOT \<longrightarrow> ts \<noteq> [] \<and> hd ts \<in> set [IN, EXISTS, LIKE, ILIKE, REGEXP, CONTAINS]) \<and> shape_ok ts)"

lemma shape_ok_no_error: "shape_ok ts \<Longrightarrow> boolean_shape_error prev ts = None"
  by (induction prev ts rule: boolean_shape_error.induct) (auto split: list.splits)

lemma shape_ok_append: "shape_ok xs \<Longrightarrow> shape_ok ys \<Longrightarrow> shape_ok (xs @ ys)"
proof (induction xs)
  case (Cons t xs)
  then show ?case by (cases xs) auto
qed simp

definition quiet :: "(token_type \<times> string) list \<Rightarrow> bool" where
  "quiet ls \<longleftrightarrow> shape_ok (map fst ls) \<and> AND \<notin> set (map fst ls) \<and> OR \<notin> set (map fst ls)"

lemma quiet_append: "quiet ks \<Longrightarrow> quiet ls \<Longrightarrow> quiet (ks @ ls)"
  by (auto simp: quiet_def shape_ok_append)

lemma quiet_value: "quiet [value_lexeme v]"
  by (auto simp: quiet_def value_lexeme_def value_type_def split: js_value.splits)

lemma quiet_comma: "quiet (comma_lexemes vs)"
proof (induction vs rule: comma_lexemes.induct)
  case (3 v w vs)
  have "quiet ([value_lexeme v] @ [(COMMA, '','')] @ comma_lexemes (w # vs))"
    by (intro quiet_append quiet_value 3) (simp add: quiet_def)
  then show ?case by simp
qed (simp_all add: quiet_value, simp add: quiet_def)

lemma quiet_operator:
  assumes "opr \<in> set allowedFilterOperators"
  shows "quiet (op_lexemes opr)"
proof -
  have "list_all (\<lambda>opr. quiet (op_lexemes opr)) allowedFilterOperators" by code_simp
  with assms show ?thesis by (simp add: list_all_iff)
qed

lemma quiet_item: "clean_item f \<Longrightarrow> quiet (item_lexemes f)"
proof -
  assume "clean_item f"
  then have al: "tf_op f \<in> set allowedFilterOperators" by (simp add: clean_item_allowed)
  have "quiet (operand_lexemes f)"
  proof -
    have "quiet ([(LBRACK, ''['')] @ comma_lexemes (list_values (tf_value f)) @ [(RBRACK, '']'')])"
      by (intro quiet_append quiet_comma) (simp_all add: quiet_def)
    then show ?thesis by (simp add: operand_lexemes_def quiet_value) (simp add: quiet_def)
  qed
  then have "quiet ([(KEY, item_key f)] @ op_lexemes (tf_op f) @ operand_lexemes f)"
    by (intro quiet_append quiet_operator al) (simp_all add: quiet_def)
  then show ?thesis by (simp add: item_lexemes_def)
qed

lemma filter_none: "x \<notin> set xs \<Longrightarrow> filter (\<lambda>t. t = x) xs = []"
  by (induction xs) auto

lemma joined_shape:
  "list_all clean_item fs \<Longrightarrow> fs \<noteq> [] \<Longrightarrow>
     shape_ok (map fst (joined_lexemes alt fs)) \<and>
     length (filter (\<lambda>t. t = AND) (map fst (joined_lexemes alt fs))) = (if alt then 0 else length fs - 1) \<and>
     length (filter (\<lambda>t. t = OR) (map fst (joined_lexemes alt fs))) = (if alt then length fs - 1 else 0)"
proof (induction alt fs rule: joined_lexemes.induct)
  case (2 alt f)
  then have "quiet (item_lexemes f)" by (simp add: quiet_item)
  then show ?case by (simp add: quiet_def filter_none del: set_map)
next
  case (3 alt f g fs)
  then have "quiet (item_lexemes f)" by (simp add: quiet_item)
  then have "shape_ok (map fst (item_lexemes f))" "filter (\<lambda>t. t = AND) (map fst (item_lexemes f)) = []"
    "filter (\<lambda>t. t = OR) (map fst (item_lexemes f)) = []"
    by (simp_all add: quiet_def filter_none del: set_map)
  with 3 show ?case by (auto simp: join_lexeme_def intro!: shape_ok_append)
qed simp

subsection \<open>Literals and items come back\<close>

lemma unescape_escape: "CHR 0x5C \<notin> set s \<Longrightarrow> unescape_quote (CHR 0x27) (escape_quotes s) = s"
proof (induction s)
  case (Cons c s)
  show ?case
  proof (cases "c = CHR 0x27")
    case True
    with Cons show ?thesis by simp
  next
    case False
    with Cons show ?thesis by (cases "escape_quotes s") auto
  qed
qed simp

lemma collapse_none: "CHR 0x5C \<notin> set s \<Longrightarrow> collapse_backslashes s = s"
  by (induction s rule: collapse_backslashes.induct) (auto simp: numeral_eq_Suc)

lemma escape_quotes_lines:
  "list_all (\<lambda>c. \<not> line_terminator c) s \<Longrightarrow> list_all (\<lambda>c. \<not> line_terminator c) (escape_quotes s)"
  by (induction s) (auto simp: line_terminator_def)

definition value_data_type :: "js_value \<Rightarrow> data_type" where
  "value_data_type v =
     (case v of
        SStr _ \<Rightarrow> DT_String
      | SNum x \<Rightarrow> (if CHR ''.'' \<in> set (num_string x) then DT_Float64 else DT_Int64)
      | SBool _ \<Rightarrow> DT_bool)"

lemma js_trim_decimal: "decimal_literal s \<Longrightarrow> js_trim s = s"
proof (rule js_trim_fixpoint)
  assume dl: "decimal_literal s"
  have "\<not> js_ws c" if "c \<in> set s" for c
    using decimal_literal_chars [OF dl that] by (auto simp: js_ws_def)
  moreover have "s \<noteq> []" using dl by (auto simp: decimal_literal_def)
  ultimately show "s = [] \<or> (\<not> js_ws (hd s) \<and> \<not> js_ws (last s))" by simp
qed

lemma literal_returns:
  assumes "clean_value v"
  shows "parseFilterLiteral (quoteFilterValue v) =
    \<lparr>ll_dataType = value_data_type v, ll_kind = value_kind v, ll_value = trimmed_value v\<rparr>"
proof (cases v)
  case (SStr s)
  define u where "u = escape_quotes (js_trim s)"
  have c: "CHR 0x5C \<notin> set (js_trim s)" "list_all (\<lambda>c. \<not> line_terminator c) (js_trim s)"
    using assms SStr by (auto simp: clean_value_def clean_string_def)
  have q: "quoteFilterValue v = CHR 0x27 # u @ [CHR 0x27]"
    by (simp add: SStr quoteFilterValue_def u_def escape_quotes_def)
  have trim: "js_trim (CHR 0x27 # u @ [CHR 0x27]) = CHR 0x27 # u @ [CHR 0x27]"
    by (rule js_trim_fixpoint) (simp add: js_ws_def)
  have quoted: "isQuoted (CHR 0x27 # u @ [CHR 0x27])"
    using escape_quotes_lines [OF c(2)] by (simp add: isQuoted_def trim Let_def u_def [symmetric])
  have "unquote (CHR 0x27 # u @ [CHR 0x27]) = u" by (rule unquote_quoted) simp
  with quoted c have "parseFilterLiteral (CHR 0x27 # u @ [CHR 0x27]) =
      \<lparr>ll_dataType = DT_String, ll_kind = K_string, ll_value = SStr (js_trim s)\<rparr>"
    unfolding parseFilterLiteral_def trim Let_def by (simp add: u_def unescape_escape collapse_none)
  then show ?thesis
    unfolding q by (simp add: SStr value_data_type_def value_kind_def trimmed_value_def)
next
  case (SNum x)
  then have r: "literal_num (num_string x) = x" "decimal_literal (num_string x)"
    using assms num_string_reads [of x] by (auto simp: clean_value_def)
  from decimal_literal_head [OF r(2)] obtain c w where w: "num_string x = c # w" "is_digit c \<or> c = CHR ''-''"
    by blast
  have trim: "js_trim (c # w) = c # w" using js_trim_decimal [OF r(2)] unfolding w(1) .
  have "\<not> isQuoted (num_string x)"
    using w(2) trim unfolding w(1) by (auto simp: isQuoted_def Let_def)
  moreover have "num_string x \<noteq> ''true''" "num_string x \<noteq> ''false''" using w by auto
  ultimately show ?thesis
    using r by (simp add: SNum quoteFilterValue_def value_string_def parseFilterLiteral_def Let_def
        js_trim_decimal value_data_type_def value_kind_def trimmed_value_def)
next
  case (SBool b)
  have "parseFilterLiteral ''true'' = \<lparr>ll_dataType = DT_bool, ll_kind = K_bool, ll_value = SBool True\<rparr>"
    "parseFilterLiteral ''false'' = \<lparr>ll_dataType = DT_bool, ll_kind = K_bool, ll_value = SBool False\<rparr>"
    by code_simp+
  then show ?thesis
    by (cases b) (simp_all add: SBool quoteFilterValue_def value_string_def value_data_type_def
        value_kind_def trimmed_value_def)
qed

lemma operator_returns:
  assumes "opr \<in> set allowedFilterOperators"
  shows "filterOperator (op_word opr) (negated_op opr) = Some opr"
proof -
  have "list_all (\<lambda>opr. filterOperator (op_word opr) (negated_op opr) = Some opr) allowedFilterOperators"
    by code_simp
  with assms show ?thesis by (simp add: list_all_iff)
qed

lemma remdups_const: "xs \<noteq> [] \<Longrightarrow> \<forall>x\<in>set xs. x = a \<Longrightarrow> remdups xs = [a]"
proof (induction xs)
  case (Cons x xs)
  then show ?case by (cases xs) auto
qed simp

lemma item_returns:
  assumes f: "clean_item f" and p: "pair_of_item f p"
  shows "\<exists>g. parseLiteFilterPair p n None = Inr g \<and> same_predicate f g"
proof -
  note al = clean_item_allowed [OF f]
  have key: "qp_key p = item_key f" "item_key f \<noteq> []" using p al by (auto simp: pair_of_item_def lexeme_def)
  have opr: "filterOperator (qp_operator p) (qp_hasNegation p) = Some (tf_op f)"
    using p al by (simp add: pair_of_item_def operator_returns)
  have "\<exists>d. parseLiteFilterValue p (tf_op f) = Inr (d, returned_value f)"
  proof -
    consider (none) "isNoValueLiteFilter (tf_op f)"
      | (many) "\<not> isNoValueLiteFilter (tf_op f)" "tf_op f \<in> set listOperators"
      | (one) "\<not> isNoValueLiteFilter (tf_op f)" "tf_op f \<notin> set listOperators" by blast
    then show ?thesis
    proof cases
      case none
      then show ?thesis by (simp add: parseLiteFilterValue_def returned_value_def)
    next
      case many
      let ?vs = "list_values (tf_value f)"
      have vs: "?vs \<noteq> []" "list_all clean_value ?vs" "list_all (\<lambda>v. value_kind v = value_kind (hd ?vs)) ?vs"
        using f many by (auto simp: clean_item_def Let_def)
      define ls where "ls = map parseFilterLiteral (qp_valueList p)"
      have comp: "qp_isComplete p" "qp_valueList p = map quoteFilterValue ?vs"
        using p many by (auto simp: pair_of_item_def)
      have ls: "ls \<noteq> []" "map ll_kind ls = map value_kind ?vs" "map ll_value ls = map trimmed_value ?vs"
        using vs(1,2) by (auto simp: ls_def comp(2) list_all_iff literal_returns)
      have "remdups (map ll_kind ls) = [value_kind (hd ?vs)]"
        unfolding ls(2)
      proof (rule remdups_const)
        show "\<forall>x\<in>set (map value_kind ?vs). x = value_kind (hd ?vs)"
          using vs(3) unfolding list_all_iff set_map ball_simps .
      qed (use vs(1) in simp)
      then have one: "\<not> (ls = [] \<or> length (remdups (map ll_kind ls)) \<noteq> 1)" using ls(1) by simp
      show ?thesis
        unfolding parseLiteFilterValue_def Let_def ls_def [symmetric] if_not_P [OF one]
        using many comp(1) ls(3) by (simp add: returned_value_def)
    next
      case one
      then show ?thesis
        using p f by (simp add: parseLiteFilterValue_def pair_of_item_def returned_value_def str_or_def
            clean_item_def literal_returns value_text_not_Nil)
    qed
  qed
  then show ?thesis
    using key opr by (auto simp: parseLiteFilterPair_def matchingDefinedField_def same_predicate_def
        fieldFromExpression_def Let_def)
qed

lemma items_return:
  "list_all2 pair_of_item fs ps \<Longrightarrow> list_all clean_item fs \<Longrightarrow>
     \<exists>gs. parse_pairs None n ps = Inr gs \<and> list_all2 same_predicate fs gs"
proof (induction arbitrary: n rule: list_all2_induct)
  case (Cons f fs p ps)
  from item_returns [of f p n] Cons obtain g where g: "parseLiteFilterPair p n None = Inr g" "same_predicate f g"
    by auto
  from Cons(3) [of "Suc n"] Cons(4) obtain gs where "parse_pairs None (Suc n) ps = Inr gs"
    "list_all2 same_predicate fs gs" by auto
  with g show ?case by auto
qed simp

subsection \<open>The printed text is trimmed\<close>

lemma quoted_value_last: "clean_value v \<Longrightarrow> \<not> js_ws (last (quoteFilterValue v))"
proof (cases v)
  case (SNum x)
  assume "clean_value v"
  with SNum have dl: "decimal_literal (num_string x)" using num_string_reads [of x] by (simp add: clean_value_def)
  then have "num_string x \<noteq> []" by (auto simp: decimal_literal_def)
  with decimal_literal_chars [OF dl, of "last (num_string x)"] SNum show ?thesis
    by (auto simp: quoteFilterValue_def value_string_def js_ws_def)
qed (auto simp: quoteFilterValue_def value_string_def js_ws_def)

lemma operator_last:
  assumes "opr \<in> set allowedFilterOperators"
  shows "opr \<noteq> [] \<and> \<not> js_ws (last opr)"
proof -
  have "list_all (\<lambda>opr. opr \<noteq> [] \<and> \<not> js_ws (last opr)) allowedFilterOperators" by code_simp
  with assms show ?thesis by (simp add: list_all_iff)
qed

lemma print_item_last:
  assumes f: "clean_item f"
  shows "print_item f \<noteq> [] \<and> \<not> js_ws (last (print_item f))"
proof -
  note opr = operator_last [OF clean_item_allowed [OF f, THEN conjunct1]]
  have "clean_value (scalar_value (tf_value f))"
    if "\<not> isNoValueLiteFilter (tf_op f)" "tf_op f \<notin> set listOperators"
    using f that by (auto simp: clean_item_def)
  with opr show ?thesis
    by (auto simp: print_item_eq js_ws_def [of "CHR '']''"] dest: quoted_value_last value_text_not_Nil)
qed

lemma js_join_last: "xs \<noteq> [] \<Longrightarrow> \<forall>x\<in>set xs. x \<noteq> [] \<Longrightarrow> js_join sep xs \<noteq> [] \<and> last (js_join sep xs) = last (last xs)"
proof (induction sep xs rule: js_join.induct)
  case (3 sep x y xs)
  then show ?case by auto
qed auto

lemma js_join_hd: "xs \<noteq> [] \<Longrightarrow> hd xs \<noteq> [] \<Longrightarrow> hd (js_join sep xs) = hd (hd xs)"
  by (induction sep xs rule: js_join.induct) auto

lemma items_trimmed:
  assumes "fs \<noteq> []" "list_all clean_item fs"
  shows "js_trim (js_join sep (map print_item fs)) = js_join sep (map print_item fs) \<and>
    js_join sep (map print_item fs) \<noteq> []"
proof -
  have ne: "\<forall>x\<in>set (map print_item fs). x \<noteq> []" using assms(2) print_item_last by (auto simp: list_all_iff)
  obtain f fs' where fs: "fs = f # fs'" using assms(1) by (cases fs) auto
  from fs assms(2) print_item_head [of f] obtain c r where c: "print_item f = c # r" "seg_start c" by auto
  have "\<not> js_ws c" using c(2) by (auto simp: seg_start_def is_alpha_def js_ws_def)
  moreover have "hd (js_join sep (map print_item fs)) = c"
    using js_join_hd [of "map print_item fs" sep] c fs by simp
  moreover have "\<not> js_ws (last (last (map print_item fs)))"
    using assms print_item_last [of "last fs"] by (simp add: last_map list_all_iff)
  ultimately show ?thesis
    using js_join_last [of "map print_item fs" sep] ne assms(1) by (intro conjI js_trim_fixpoint) auto
qed

subsection \<open>The properties\<close>

text \<open>
  C1. The round trip: a filter with clean keys and values, printed as a lightweight
  expression, parses back to the same predicates in the same order, with the join that was
  printed; a single predicate comes back under \<open>AND\<close>.
\<close>

theorem lite_filter_roundtrip:
  assumes "tg_items filters \<noteq> []" and "list_all clean_item (tg_items filters)"
  shows "\<exists>parsed. parseLiteFilterExpression (toLiteFilterExpression filters) None = Inr parsed \<and>
    list_all2 same_predicate (tg_items filters) (tg_items parsed) \<and>
    tg_op parsed = (if tg_op filters = ''OR'' \<and> 1 < length (tg_items filters) then ''OR'' else ''AND'')"
proof -
  define fs where "fs = tg_items filters"
  define alt where "alt = (tg_op filters = ''OR'')"
  define e where "e = js_join ('' '' @ join_word alt @ '' '') (map print_item fs)"
  have fs: "fs \<noteq> []" "list_all clean_item fs" using assms by (auto simp: fs_def)
  have "filter serialized fs = fs" using fs(2) by (auto simp: filter_id_conv list_all_iff clean_item_def)
  then have printed: "toLiteFilterExpression filters = e"
    by (simp add: toLiteFilterExpression_def fs_def e_def alt_def join_word_def)
  have trim: "js_trim e = e" "e \<noteq> []" using items_trimmed [OF fs] by (auto simp: e_def)
  from lex_steps_all [OF lex_items [OF fs, of alt]] obtain ts x where
    lex: "filter_tokens e = ts @ [x]" "tk_type x = EOF" "map tok_sig ts = joined_lexemes alt fs" "\<not> lex_error e"
    by (auto simp: e_def)
  have types: "map tk_type ts = map fst (joined_lexemes alt fs)"
    by (simp add: lex(3) [symmetric] tok_sig_def comp_def)
  have vis: "\<forall>t\<in>set ts. tk_channel t = 0" using flex.lex_visible [of _ e] lex(1) by auto
  have noeof: "\<forall>t\<in>set ts. tk_type t \<noteq> EOF" using flex.lex_eof [of _ e] lex(1) by auto
  have "fq R_orExpression ts" using items_grammar [OF fs lex(3)] by (cases alt) (auto intro: fq_or_one)
  then have "fq R_query (filter_tokens e)"
    unfolding lex(1) using lex(2) by (intro fq_query fq_expression)
  then have valid: "query_is_valid e"
    using parse_query_complete lex(4) by (auto simp: query_is_valid_def)
  note sh = joined_shape [OF fs(2,1), of alt]
  have dts: "map tk_type (defaultFilterTokens e) = map fst (joined_lexemes alt fs)"
    using vis noeof by (simp add: defaultFilterTokens_def lex(1,2) types [symmetric])
  have shape: "validateLiteBooleanShape e = Inr (if alt \<and> 1 < length fs then ''OR'' else ''AND'', length fs - 1)"
    using sh shape_ok_no_error [of "map fst (joined_lexemes alt fs)" None]
    by (cases alt) (auto simp: validateLiteBooleanShape_def dts Let_def simp del: length_filter_map)
  have "ahead e (-1) ts" using flex.lex_ahead [of e] by (simp add: lex(1) ahead_def sorted_wrt_append)
  from joined_pairs [OF fs lex(3) vis lex(2) this] obtain ps where
    ps: "pairs_loop e None (ts @ [x]) = Some ps" "list_all2 pair_of_item fs ps" by blast
  then have pairs: "extractQueryPairs e = ps" by (simp add: extractQueryPairs_def extract_pairs_with_def lex(1))
  have len: "length ps = length fs" using ps(2) by (auto dest: list_all2_lengthD)
  then have ok: "\<not> (ps = [] \<or> length ps \<noteq> length fs - 1 + 1)" using fs(1) by auto
  from items_return [OF ps(2) fs(2), of 0] obtain gs where
    "parse_pairs None 0 ps = Inr gs" "list_all2 same_predicate fs gs" by blast
  then show ?thesis
    using trim valid shape ok
    by (simp add: printed parseLiteFilterExpression_def pairs Let_def fs_def alt_def del: One_nat_def)
qed

lemma lite_filter_roundtrip_witness:
  "\<exists>parsed. parseLiteFilterExpression (toLiteFilterExpression
      \<lparr>tg_items = [\<lparr>tf_id = ''x'', tf_key = Some \<lparr>ac_id = None, ac_dataType = None, ac_key = ''service.name'',
          ac_type = Some ''resource''\<rparr>, tf_op = ''not in'', tf_value = Some (VList [SStr ''it's'', SStr '' b ''])\<rparr>],
        tg_op = ''AND''\<rparr>) None = Inr parsed \<and>
    list_all2 same_predicate [\<lparr>tf_id = ''x'', tf_key = Some \<lparr>ac_id = None, ac_dataType = None,
          ac_key = ''service.name'', ac_type = Some ''resource''\<rparr>, tf_op = ''not in'',
          tf_value = Some (VList [SStr ''it's'', SStr '' b ''])\<rparr>] (tg_items parsed) \<and> tg_op parsed = ''AND''"
proof -
  let ?item = "\<lparr>tf_id = ''x'', tf_key = Some \<lparr>ac_id = None, ac_dataType = None, ac_key = ''service.name'',
          ac_type = Some ''resource''\<rparr>, tf_op = ''not in'', tf_value = Some (VList [SStr ''it's'', SStr '' b ''])\<rparr>"
  have "clean_item ?item" by code_simp
  then show ?thesis
    using lite_filter_roundtrip [of "\<lparr>tg_items = [?item], tg_op = ''AND''\<rparr>"] by simp
qed

end
