(* ===== verification/Lite_Completion.thy ===== *)
theory Lite_Completion
  imports Lite_Roundtrip Query_Payload
begin

section \<open>Completion in the lite query editor\<close>

text \<open>
  \<open>features/query-builder-v3/completion.ts\<close>: what the editor completes at the cursor (a field, an
  operator, a value or a conjunction), where the completed text begins, and the text of a completed
  value. The regular expressions are written out as the scans they stand for.
\<close>

subsection \<open>Fields\<close>

definition span_field :: "string \<Rightarrow> string \<Rightarrow> data_type \<Rightarrow> lite_field" where
  "span_field key type dataType =
     \<lparr>lf_key = key, lf_type = Some type, lf_dataType = Some dataType, lf_positive_bool_scope = False\<rparr>"

definition traceIntrinsicFields :: "lite_field list" where
  "traceIntrinsicFields =
     [span_field ''timestamp'' ''span'' DT_Int64, span_field ''trace_id'' ''span'' DT_String,
      span_field ''span_id'' ''span'' DT_String, span_field ''parent_span_id'' ''span'' DT_String,
      span_field ''name'' ''span'' DT_String, span_field ''duration_nano'' ''span'' DT_Int64,
      span_field ''status_code'' ''span'' DT_Int64, span_field ''status_code_string'' ''span'' DT_String,
      span_field ''has_error'' ''span'' DT_bool, span_field ''service.name'' ''resource'' DT_String]"

definition logIntrinsicFields :: "lite_field list" where
  "logIntrinsicFields =
     [span_field ''timestamp'' ''log'' DT_Int64, span_field ''id'' ''log'' DT_String,
      span_field ''trace_id'' ''log'' DT_String, span_field ''span_id'' ''log'' DT_String,
      span_field ''severity_text'' ''log'' DT_String, span_field ''severity_number'' ''log'' DT_Int64,
      span_field ''body'' ''body'' DT_String, span_field ''service.name'' ''resource'' DT_String]"

definition defaultLiteFilterFields :: "data_source \<Rightarrow> lite_field list" where
  "defaultLiteFilterFields signal =
     (if signal = TRACES then traceIntrinsicFields else if signal = LOGS then logIntrinsicFields else [])"

definition fallbackContexts :: "string \<Rightarrow> string option" where
  "fallbackContexts = map_of [(''host.name'', ''resource''), (''http.route'', ''attribute''), (''service.name'', ''resource'')]"

definition suggestionDataType :: "string option \<Rightarrow> data_type" where
  "suggestionDataType dataType =
     (case data_type_of (to_lower (str_or dataType '''')) of Some d \<Rightarrow> d | None \<Rightarrow> DT_EMPTY)"

definition fieldFromSuggestion :: "string \<Rightarrow> string option \<Rightarrow> string option \<Rightarrow> data_source \<Rightarrow> lite_field" where
  "fieldFromSuggestion name fieldContext fieldDataType signal =
     (let type = str_or (fallbackContexts name) (str_or fieldContext '''');
          intrinsic = js_find (\<lambda>f. lf_key f = name) (defaultLiteFilterFields signal)
      in \<lparr>lf_key = name,
          lf_type = Some
            (if type \<noteq> '''' then type
             else str_or (Option.bind intrinsic lf_type) (if signal = METRICS then ''attribute'' else '''')),
          lf_dataType = Some (suggestionDataType fieldDataType),
          lf_positive_bool_scope = False\<rparr>)"

definition mergeLiteFilterFields :: "lite_field list list \<Rightarrow> lite_field list" where
  "mergeLiteFilterFields groups =
     map snd (fold (\<lambda>f m. map_set (liteFilterFieldExpressionKey f) f m) (concat groups) [])"

subsection \<open>The last boolean boundary\<close>

record scan_state =
  ss_bracketDepth :: int
  ss_quote :: "char option"

definition nextScanState :: "scan_state \<Rightarrow> char \<Rightarrow> char option \<Rightarrow> scan_state" where
  "nextScanState st c previousChar =
     (case ss_quote st of
        Some q \<Rightarrow> (if c = q \<and> previousChar \<noteq> Some (CHR 0x5C) then st\<lparr>ss_quote := None\<rparr> else st)
      | None \<Rightarrow>
          (if c = CHR 0x27 \<or> c = CHR 0x22 then st\<lparr>ss_quote := Some c\<rparr>
           else if c = CHR ''['' then st\<lparr>ss_bracketDepth := ss_bracketDepth st + 1\<rparr>
           else if c = CHR '']'' then st\<lparr>ss_bracketDepth := max 0 (ss_bracketDepth st - 1)\<rparr>
           else st))"

text \<open>The length of the match of \<open>/^\s+(AND|OR)\s+/i\<close>; 0 for none.\<close>

definition conjunction_length :: "string \<Rightarrow> nat" where
  "conjunction_length s =
     (let a = run_length js_ws s; r = drop a s;
          w = (if to_upper (take 3 r) = ''AND'' then 3 else if to_upper (take 2 r) = ''OR'' then 2 else 0);
          b = run_length js_ws (drop w r)
      in if 0 < a \<and> 0 < w \<and> 0 < b then a + w + b else 0)"

text \<open>The loop: the text left from \<open>index\<close>, the characters before it nearest first.\<close>

function boundary_loop :: "scan_state \<Rightarrow> string \<Rightarrow> nat \<Rightarrow> string \<Rightarrow> nat" where
  "boundary_loop st seen boundary s =
     (case s of
        [] \<Rightarrow> boundary
      | c # r \<Rightarrow>
          (let st' = nextScanState st c (js_nth seen 0); n = conjunction_length s in
           if ss_quote st' = None \<and> ss_bracketDepth st' = 0 \<and> 0 < n
           then boundary_loop st' (rev (take n s) @ seen) (length seen + n) (drop n s)
           else boundary_loop st' (c # seen) boundary r))"
  by pat_completeness auto
termination by (relation "measure (\<lambda>(st, seen, boundary, s). length s)") auto

declare boundary_loop.simps [simp del]

definition lastBooleanBoundary :: "string \<Rightarrow> nat" where
  "lastBooleanBoundary txt = boundary_loop \<lparr>ss_bracketDepth = 0, ss_quote = None\<rparr> [] 0 txt"

subsection \<open>The operator of a segment\<close>

text \<open>
  \<open>operatorPattern\<close>: the shortest prefix, without a line terminator, that white space and an operator
  follow, up to the end or to white space and a value on one line. An operator is followed by white
  space or the end, so at most one of the alternatives matches.
\<close>

definition value_rest :: "string \<Rightarrow> string option option" where
  "value_rest r =
     (if r = [] then Some None
      else if js_ws (hd r) \<and> list_all (\<lambda>c. \<not> line_terminator c) (dropWhile js_ws r)
      then Some (Some (dropWhile js_ws r))
      else None)"

definition word_operators :: "string list" where
  "word_operators = [''IN'', ''EXISTS'', ''CONTAINS'', ''LIKE'', ''ILIKE'', ''REGEXP'']"

definition symbol_operators :: "string list" where
  "symbol_operators = [''>='', ''<='', ''!='', ''<>'', ''='', ''>'', ''<'']"

text \<open>The lengths of the operators a text begins with, in the order of the alternatives.\<close>

definition operator_lengths :: "string \<Rightarrow> nat list" where
  "operator_lengths s =
     (let b = run_length js_ws (drop 3 s) in
      (if to_upper (take 3 s) = ''NOT'' \<and> 0 < b
       then map (\<lambda>w. 3 + b + length w)
              (filter (\<lambda>w. to_upper (take (length w) (drop (3 + b) s)) = w) word_operators)
       else []) @
      map length (filter (\<lambda>w. to_upper (take (length w) s) = w) (symbol_operators @ word_operators)))"

fun first_some :: "('a \<Rightarrow> 'b option) \<Rightarrow> 'a list \<Rightarrow> 'b option" where
  "first_some f [] = None"
| "first_some f (x # xs) = (case f x of Some y \<Rightarrow> Some y | None \<Rightarrow> first_some f xs)"

text \<open>White space, an operator and a value at the head of a text: the operator and the value.\<close>

definition operator_here :: "string \<Rightarrow> (string \<times> string option) option" where
  "operator_here s =
     (let a = run_length js_ws s; r = drop a s in
      if a = 0 then None
      else first_some (\<lambda>n. map_option (\<lambda>v. (take n r, v)) (value_rest (drop n r))) (operator_lengths r))"

fun operator_match :: "string \<Rightarrow> string \<Rightarrow> (string \<times> string \<times> string option) option" where
  "operator_match seen s =
     (case operator_here s of
        Some (opr, v) \<Rightarrow> Some (rev seen, opr, v)
      | None \<Rightarrow> (case s of
          [] \<Rightarrow> None
        | c # r \<Rightarrow> (if line_terminator c then None else operator_match (c # seen) r)))"

declare operator_match.simps [simp del]

subsection \<open>The context of the cursor\<close>

definition findField :: "string \<Rightarrow> lite_field list \<Rightarrow> lite_field option" where
  "findField key defined = js_find (\<lambda>f. lf_key f = key \<or> liteFilterFieldExpressionKey f = key) defined"

datatype completion_kind = C_conjunction | C_field | C_operator | C_value

record completion_context =
  cc_kind :: completion_kind
  cc_field :: "lite_field option"
  cc_from :: int
  cc_search :: string

text \<open>\<open>s.lastIndexOf(p)\<close>; -1 for none.\<close>

fun last_index_from :: "nat \<Rightarrow> string \<Rightarrow> string \<Rightarrow> int" where
  "last_index_from 0 p s = (if starts_with p s then 0 else -1)"
| "last_index_from (Suc n) p s = (if starts_with p (drop (Suc n) s) then int (Suc n) else last_index_from n p s)"

definition lastIndexOf :: "string \<Rightarrow> string \<Rightarrow> int" where
  "lastIndexOf s p = last_index_from (length s) p s"

text \<open>\<open>/\s+(AND|OR)?$/i\<close>\<close>

fun ends_in_conjunction :: "string \<Rightarrow> bool" where
  "ends_in_conjunction [] = False"
| "ends_in_conjunction (c # s) =
     ((js_ws c \<and> (let r = dropWhile js_ws s in r = [] \<or> to_upper r = ''AND'' \<or> to_upper r = ''OR'')) \<or>
      ends_in_conjunction s)"

text \<open>\<open>q(?:[^q\\]|\\.)*q\<close> over the whole text after its first quote.\<close>

fun quoted_to_end :: "char \<Rightarrow> string \<Rightarrow> bool" where
  "quoted_to_end q [] = False"
| "quoted_to_end q (c # s) =
     (if c = q then s = []
      else if c = CHR 0x5C then (case s of [] \<Rightarrow> False | d # r \<Rightarrow> \<not> line_terminator d \<and> quoted_to_end q r)
      else quoted_to_end q s)"

definition complete_value :: "string \<Rightarrow> bool" where
  "complete_value v \<longleftrightarrow>
     to_lower v = ''true'' \<or> to_lower v = ''false'' \<or> decimal_literal v \<or>
     (v \<noteq> [] \<and> (hd v = CHR 0x27 \<or> hd v = CHR 0x22) \<and> quoted_to_end (hd v) (tl v)) \<or>
     (3 \<le> length v \<and> hd v = CHR ''['' \<and> last v = CHR '']'' \<and> CHR '']'' \<notin> set (butlast (tl v)))"

text \<open>\<open>/^(?:exists|not\s+exists)$/i\<close>\<close>

definition exists_operator :: "string \<Rightarrow> bool" where
  "exists_operator opr \<longleftrightarrow>
     to_lower opr = ''exists'' \<or>
     (to_lower (take 3 opr) = ''not'' \<and> 0 < run_length js_ws (drop 3 opr) \<and>
      to_lower (dropWhile js_ws (drop 3 opr)) = ''exists'')"

definition conjunction_context :: "int \<Rightarrow> completion_context" where
  "conjunction_context cursor =
     \<lparr>cc_kind = C_conjunction, cc_field = None, cc_from = cursor, cc_search = ''''\<rparr>"

text \<open>A segment without an operator: \<open>/^(\S+)\s+(.*)$/\<close>, else a field.\<close>

definition field_context :: "nat \<Rightarrow> string \<Rightarrow> lite_field list \<Rightarrow> completion_context" where
  "field_context boundary segment defined =
     (let w = run_length (\<lambda>c. \<not> js_ws c) segment; r = dropWhile js_ws (drop w segment) in
      if 0 < w \<and> drop w segment \<noteq> [] \<and> list_all (\<lambda>c. \<not> line_terminator c) r
      then \<lparr>cc_kind = C_operator, cc_field = findField (take w segment) defined,
            cc_from = int (boundary + w + 1), cc_search = r\<rparr>
      else \<lparr>cc_kind = C_field, cc_field = None, cc_from = int boundary, cc_search = js_trim_start segment\<rparr>)"

definition getLiteCompletionContext :: "string \<Rightarrow> int \<Rightarrow> lite_field list \<Rightarrow> completion_context" where
  "getLiteCompletionContext expression cursor defined =
     (let prefix = js_slice expression 0 cursor;
          boundary = lastBooleanBoundary prefix;
          segment = drop boundary prefix
      in case operator_match [] segment of
           None \<Rightarrow> field_context boundary segment defined
         | Some (rawField, rawOperator, rawValue) \<Rightarrow>
             (let field = findField (js_trim rawField) defined in
              case rawValue of
                Some raw \<Rightarrow>
                  (let valueContext = \<lparr>cc_kind = C_value, cc_field = field, cc_from = lastIndexOf prefix raw,
                         cc_search = js_trim raw\<rparr>
                   in if ends_in_conjunction segment then
                        (if complete_value (js_trim raw) \<and> ends_with '' '' prefix then conjunction_context cursor
                         else valueContext)
                      else if exists_operator rawOperator then conjunction_context cursor
                      else valueContext)
              | None \<Rightarrow>
                  (if exists_operator rawOperator then conjunction_context cursor
                   else \<lparr>cc_kind = C_value, cc_field = field, cc_from = cursor, cc_search = ''''\<rparr>)))"

definition operatorCompletions :: "lite_field option \<Rightarrow> string list" where
  "operatorCompletions field = map snd (getLiteFilterOperatorsForField field)"

definition quoteLiteCompletionValue :: "string \<Rightarrow> string" where
  "quoteLiteCompletionValue v =
     [CHR 0x27] @ replace_char (CHR 0x27) [CHR 0x5C, CHR 0x27] (replace_char (CHR 0x5C) [CHR 0x5C, CHR 0x5C] v) @
     [CHR 0x27]"

subsection \<open>Where a completion begins\<close>

lemma conjunction_length_le: "conjunction_length s \<le> length s"
proof -
  define a where "a = run_length js_ws s"
  define r where "r = drop a s"
  define w where "w = (if to_upper (take 3 r) = ''AND'' then 3 else if to_upper (take 2 r) = ''OR'' then 2 else (0::nat))"
  have "length (to_upper (take n r)) = min (length r) n" for n by (simp add: to_upper_def)
  then have "to_upper (take 3 r) = ''AND'' \<Longrightarrow> 3 \<le> length r" "to_upper (take 2 r) = ''OR'' \<Longrightarrow> 2 \<le> length r"
    by (metis length_Cons list.size(3) min.cobounded1 numeral_2_eq_2 numeral_3_eq_3)+
  then have "w \<le> length r" by (auto simp: w_def split: if_splits)
  moreover have "run_length js_ws (drop w r) \<le> length r - w"
    using length_takeWhile_le [of js_ws "drop w r"] by simp
  moreover have "length r = length s - a" "a \<le> length s" by (simp_all add: r_def a_def length_takeWhile_le)
  ultimately have "a + w + run_length js_ws (drop w r) \<le> length s" by linarith
  then show ?thesis
    unfolding conjunction_length_def Let_def a_def [symmetric] r_def [symmetric] w_def [symmetric] by simp
qed

lemma boundary_loop_le: "boundary \<le> length seen \<Longrightarrow> boundary_loop st seen boundary s \<le> length seen + length s"
proof (induction st seen boundary s rule: boundary_loop.induct)
  case (1 st seen boundary s)
  show ?case
  proof (cases s)
    case (Cons c r)
    define st' where "st' = nextScanState st c (js_nth seen 0)"
    have "conjunction_length (c # r) \<le> Suc (length r)" using conjunction_length_le [of "c # r"] by simp
    with 1(1) [OF Cons st'_def refl] 1(2) [OF Cons st'_def refl] 1(3) show ?thesis
      by (subst boundary_loop.simps) (auto simp: Cons Let_def simp flip: st'_def)
  qed (use 1(3) in \<open>simp add: boundary_loop.simps\<close>)
qed

lemma lastBooleanBoundary_le: "lastBooleanBoundary s \<le> length s"
  using boundary_loop_le [of 0 "[]" _ s] by (simp add: lastBooleanBoundary_def)

lemma value_rest_suffix: "value_rest r = Some (Some v) \<Longrightarrow> \<exists>p. r = p @ v"
  unfolding value_rest_def by (metis option.distinct(1) option.inject takeWhile_dropWhile_id)

lemma first_some_in: "first_some f xs = Some y \<Longrightarrow> \<exists>x\<in>set xs. f x = Some y"
  by (induction xs) (auto split: option.splits)

lemma operator_here_suffix:
  assumes "operator_here s = Some (opr, Some v)"
  shows "\<exists>p. s = p @ v"
proof -
  define r where "r = drop (run_length js_ws s) s"
  obtain n where "value_rest (drop n r) = Some (Some v)"
    using assms by (auto simp: operator_here_def Let_def r_def split: if_splits dest!: first_some_in)
  then obtain p where "drop n r = p @ v" using value_rest_suffix by blast
  then have "s = take (run_length js_ws s) s @ take n r @ p @ v"
    by (metis append_take_drop_id r_def)
  then show ?thesis by (metis append_assoc)
qed

lemma operator_match_suffix:
  "operator_match seen s = Some (f, opr, Some v) \<Longrightarrow> \<exists>p. s = p @ v"
proof (induction seen s rule: operator_match.induct)
  case (1 seen s)
  show ?case
  proof (cases "operator_here s")
    case (Some h)
    with 1(2) show ?thesis by (cases h) (auto simp: operator_match.simps intro: operator_here_suffix)
  next
    case None
    with 1(2) obtain c r where s: "s = c # r" "\<not> line_terminator c"
      by (cases s) (auto simp: operator_match.simps split: if_splits)
    with None 1(2) have "operator_match (c # seen) r = Some (f, opr, Some v)"
      by (simp add: operator_match.simps [of seen "c # r"])
    with 1(1) [OF None s] obtain p where "r = p @ v" by blast
    then have "s = (c # p) @ v" by (simp add: s)
    then show ?thesis by blast
  qed
qed

lemma lastIndexOf_suffix: "lastIndexOf (p @ v) v = int (length p)"
proof -
  have "last_index_from n v (p @ v) = int (length p)" if "length p \<le> n" "n \<le> length (p @ v)" for n
    using that
  proof (induction n)
    case 0
    then show ?case by (simp add: starts_with_def)
  next
    case (Suc n)
    show ?case
    proof (cases "length p = Suc n")
      case True
      then show ?thesis by (simp add: starts_with_def)
    next
      case False
      then have "length (drop (Suc n) (p @ v)) < length v" using Suc.prems by simp
      then have "\<not> starts_with v (drop (Suc n) (p @ v))"
        by (metis linorder_not_less starts_with_def length_take min.cobounded1)
      with Suc False show ?thesis by simp
    qed
  qed
  then show ?thesis by (simp add: lastIndexOf_def)
qed

text \<open>A completion at \<open>from\<close> replaces the searched text, with the white space around it.\<close>

definition completes :: "string \<Rightarrow> completion_context \<Rightarrow> bool" where
  "completes pre ctx \<longleftrightarrow>
     0 \<le> cc_from ctx \<and> cc_from ctx \<le> int (length pre) \<and>
     js_trim (drop (nat (cc_from ctx)) pre) = js_trim (cc_search ctx) \<and>
     (cc_kind ctx = C_conjunction \<longrightarrow> cc_from ctx = int (length pre))"

lemma js_trim_drop_ws: "js_trim (js_trim_start s) = js_trim s"
  by (simp add: js_trim_def js_trim_start_def)

lemma js_trim_after_ws: "list_all js_ws w \<Longrightarrow> js_trim (w @ s) = js_trim s"
  by (induction w) (simp_all add: js_trim_def)

lemma completes_conjunction: "completes pre (conjunction_context (int (length pre)))"
  by (simp add: completes_def conjunction_context_def)

lemma completes_value:
  assumes "pre = p @ v" "cc_from ctx = lastIndexOf pre v" "cc_search ctx = js_trim v" "cc_kind ctx = C_value"
  shows "completes pre ctx"
  using assms by (simp add: completes_def lastIndexOf_suffix)

lemma completes_field:
  assumes "b \<le> length pre"
  shows "completes pre (field_context b (drop b pre) fs)"
proof -
  define w where "w = run_length (\<lambda>c. \<not> js_ws c) (drop b pre)"
  define rest where "rest = drop w (drop b pre)"
  have word: "completes pre \<lparr>cc_kind = C_operator, cc_field = f, cc_from = int (b + w + 1), cc_search = dropWhile js_ws rest\<rparr>"
    if ne: "rest \<noteq> []" for f
  proof -
    have "rest = dropWhile (\<lambda>c. \<not> js_ws c) (drop b pre)" by (simp add: rest_def w_def dropWhile_eq_drop)
    then have "js_ws (hd rest)" using that hd_dropWhile [of "\<lambda>c. \<not> js_ws c" "drop b pre"] by simp
    then obtain c r where r: "rest = c # r" "js_ws c" using ne by (cases rest) auto
    have "drop (b + w) pre = rest" by (simp add: rest_def add.commute)
    then have "drop (b + w + 1) pre = r" using r(1) by (metis drop_Suc drop_drop list.sel(3) Suc_eq_plus1 add.commute tl_drop)
    moreover have "b + w < length pre" using ne by (simp add: rest_def not_le)
    ultimately show ?thesis using js_trim_drop_ws [of rest] js_trim_drop_ws [of r] r(2)
      by (simp add: completes_def js_trim_start_def r nat_add_distrib)
  qed
  have "completes pre \<lparr>cc_kind = C_field, cc_field = None, cc_from = int b, cc_search = js_trim_start (drop b pre)\<rparr>"
    using assms by (simp add: completes_def js_trim_drop_ws)
  with word show ?thesis
    unfolding field_context_def Let_def w_def [symmetric] rest_def [symmetric] by auto
qed

text \<open>
  A completion begins inside the text before the cursor, and what it replaces is what it searched
  for, up to white space; a completed conjunction is inserted at the cursor.
\<close>

theorem completion_replaces_search:
  assumes "0 \<le> cursor" "cursor \<le> int (length expression)"
  shows "completes (js_slice expression 0 cursor) (getLiteCompletionContext expression cursor defined)"
proof -
  define pre where "pre = js_slice expression 0 cursor"
  define b where "b = lastBooleanBoundary pre"
  have len: "int (length pre) = cursor" using assms by (simp add: pre_def js_slice_def)
  have b: "b \<le> length pre" by (simp add: b_def lastBooleanBoundary_le)
  have suffix: "\<exists>p. pre = p @ v" if "operator_match [] (drop b pre) = Some (f, opr, Some v)" for f opr v
    using operator_match_suffix [OF that] by (metis append_assoc append_take_drop_id)
  have none: "completes pre \<lparr>cc_kind = C_value, cc_field = f, cc_from = cursor, cc_search = ''''\<rparr>" for f
    using len by (auto simp: completes_def)
  have conj: "completes pre (conjunction_context cursor)" using completes_conjunction [of pre] len by simp
  show ?thesis
  proof (cases "operator_match [] (drop b pre)")
    case None
    then show ?thesis
      using completes_field [OF b] by (simp add: getLiteCompletionContext_def Let_def flip: pre_def b_def)
  next
    case (Some m)
    obtain f opr rv where m: "m = (f, opr, rv)" by (cases m)
    have val: "completes pre \<lparr>cc_kind = C_value, cc_field = g, cc_from = lastIndexOf pre v, cc_search = js_trim v\<rparr>"
      if "rv = Some v" for g v
      using suffix Some m that completes_value [of pre _ v] by fastforce
    show ?thesis
      using none conj val
      by (simp add: getLiteCompletionContext_def Let_def Some m flip: pre_def b_def split: option.splits)
  qed
qed

theorem completion_replaces_search_witness:
  "completes ''a = 1 AND b >'' (getLiteCompletionContext ''a = 1 AND b > 2'' 13 [])"
  using completion_replaces_search [of 13 "''a = 1 AND b > 2''" "[]"]
  by (simp add: js_slice_def)

subsection \<open>Completed values\<close>

text \<open>
  A completed value is read back by the parser of the lite editor as the text it stands for,
  for a text on one line without backslashes.
\<close>

theorem completed_value_reads_back:
  assumes "CHR 0x5C \<notin> set v" "list_all (\<lambda>c. \<not> line_terminator c) v"
  shows "parseFilterLiteral (quoteLiteCompletionValue v) =
    \<lparr>ll_dataType = DT_String, ll_kind = K_string, ll_value = SStr v\<rparr>"
proof -
  define u where "u = escape_quotes v"
  have "replace_char (CHR 0x5C) w v = v" for w
    using assms(1) by (induction v) (auto simp: replace_char_def)
  then have q: "quoteLiteCompletionValue v = CHR 0x27 # u @ [CHR 0x27]"
    by (simp add: quoteLiteCompletionValue_def u_def escape_quotes_def)
  have trim: "js_trim (CHR 0x27 # u @ [CHR 0x27]) = CHR 0x27 # u @ [CHR 0x27]"
    by (rule js_trim_fixpoint) (simp add: js_ws_def)
  have quoted: "isQuoted (CHR 0x27 # u @ [CHR 0x27])"
    using escape_quotes_lines [OF assms(2)] by (simp add: isQuoted_def trim Let_def u_def [symmetric])
  have "unquote (CHR 0x27 # u @ [CHR 0x27]) = u" by (rule unquote_quoted) simp
  with quoted assms(1) show ?thesis
    unfolding q parseFilterLiteral_def trim Let_def by (simp add: u_def unescape_escape collapse_none)
qed

theorem completed_value_reads_back_witness:
  "parseFilterLiteral (quoteLiteCompletionValue [CHR ''i'', CHR 0x27, CHR ''s'']) =
     \<lparr>ll_dataType = DT_String, ll_kind = K_string, ll_value = SStr [CHR ''i'', CHR 0x27, CHR ''s'']\<rparr>"
  by (rule completed_value_reads_back) (simp_all add: line_terminator_def)

text \<open>A backslash is escaped, but only four of them are read as one.\<close>

lemma completed_backslash_doubles:
  "ll_value (parseFilterLiteral (quoteLiteCompletionValue [CHR ''a'', CHR 0x5C, CHR ''b''])) =
     SStr [CHR ''a'', CHR 0x5C, CHR 0x5C, CHR ''b'']"
  by code_simp

end
