(* ===== verification/Span_Tree.thy ===== *)
theory Span_Tree
  imports Filter_Expression
begin

section \<open>The tree of a trace\<close>

text \<open>
  \<open>utils/spanToTree.ts\<close>: the spans of a trace, each with the references it carries as text, are linked
  into trees. The nodes are objects that are shared between the table \<open>spanMap\<close> and the lists of children,
  so the model keeps them in one store, under their span ids, and lists of children hold ids. The fields
  that are only copied from a span (its name, times, events and status) are one payload.
\<close>

subsection \<open>References and tags\<close>

text \<open>An object from the keys of a reference to its values; \<open>None\<close> is \<open>undefined\<close>.\<close>

type_synonym reference = "(string \<times> string option) list"

definition reference_pair :: "string \<Rightarrow> string \<times> string option" where
  "reference_pair s =
     (case js_split (CHR ''='') s of
        key # v # _ \<Rightarrow> (key, Some v)
      | [key] \<Rightarrow> (key, None)
      | [] \<Rightarrow> ('''', None))"

definition parse_reference :: "string \<Rightarrow> reference" where
  "parse_reference rawRef =
     (let stripped = filter (\<lambda>c. c \<noteq> CHR ''{'' \<and> c \<noteq> CHR ''}'' \<and> c \<noteq> CHR '' '') rawRef in
      fold (\<lambda>p m. map_set (fst (reference_pair p)) (snd (reference_pair p)) m) (js_split (CHR '','') stripped) [])"

definition getSpanReferences :: "string list \<Rightarrow> bool \<Rightarrow> reference list" where
  "getSpanReferences rawReferences isChildReference =
     map parse_reference (filter (\<lambda>v. str_includes ''CHILD_OF'' v = isChildReference) rawReferences)"

definition reference_field :: "string \<Rightarrow> reference \<Rightarrow> string option" where
  "reference_field k r = (case map_of r k of Some v \<Rightarrow> v | None \<Rightarrow> None)"

text \<open>A field of the tags: \<open>null\<close>, a text or a list of texts.\<close>

datatype tag_field = Tag_Null | Tag_Text string | Tag_List "string list"

definition tag_list :: "tag_field \<Rightarrow> string list" where
  "tag_list f = (case f of Tag_Null \<Rightarrow> [] | Tag_Text s \<Rightarrow> map (\<lambda>c. [c]) s | Tag_List xs \<Rightarrow> xs)"

definition getSpanTags :: "tag_field \<Rightarrow> tag_field \<Rightarrow> (string \<times> string option) list" where
  "getSpanTags keys vals =
     (if keys = Tag_Null \<or> vals = Tag_Null then []
      else (case (keys, vals) of
          (Tag_Text k, Tag_Text v) \<Rightarrow> [(k, Some v)]
        | _ \<Rightarrow>
            (let ks = tag_list keys; vs = tag_list vals in
             if ks \<noteq> [] \<and> vs \<noteq> []
             then map (\<lambda>j. (ks ! j, js_nth vs (int j))) [0..<length ks] else [])))"

subsection \<open>The nodes\<close>

record 'd span =
  sp_spanId :: string
  sp_references :: "string list"
  sp_fields :: 'd

record 'd tree_node =
  tn_children :: "string list"
  tn_childReferences :: "reference list option"
  tn_isProcessed :: bool
  tn_fields :: "'d option"

type_synonym 'd nodes = "(string \<times> 'd tree_node) list"

definition span_node :: "'d span \<Rightarrow> 'd tree_node" where
  "span_node s =
     \<lparr>tn_children = [], tn_childReferences = Some (getSpanReferences (sp_references s) True),
      tn_isProcessed = False, tn_fields = Some (sp_fields s)\<rparr>"

definition missing_node :: "'d tree_node" where
  "missing_node = \<lparr>tn_children = [], tn_childReferences = None, tn_isProcessed = False, tn_fields = None\<rparr>"

definition span_map :: "'d span list \<Rightarrow> 'd nodes" where
  "span_map spanList = fold (\<lambda>s m. map_set (sp_spanId s) (span_node s) m) spanList []"

text \<open>An assignment to a field of the object stored under a key.\<close>

definition update_node :: "string \<Rightarrow> ('d tree_node \<Rightarrow> 'd tree_node) \<Rightarrow> 'd nodes \<Rightarrow> 'd nodes" where
  "update_node k f m = map (\<lambda>(k', n). if k' = k then (k', f n) else (k', n)) m"

subsection \<open>Linking\<close>

definition add_trace :: "string option \<Rightarrow> string option list \<Rightarrow> string option list" where
  "add_trace t traces = (if t \<in> set traces then traces else traces @ [t])"

text \<open>\<open>createTraceRootSpan\<close>: a parent that is not in the trace becomes a missing span.\<close>

definition create_parent :: "reference \<Rightarrow> string option list \<times> 'd nodes \<Rightarrow> string option list \<times> 'd nodes" where
  "create_parent r st =
     (let traces = add_trace (reference_field ''TraceId'' r) (fst st); nodes = snd st in
      case reference_field ''SpanId'' r of
        Some spanId \<Rightarrow>
          (if spanId \<noteq> '''' \<and> spanId \<notin> fst ` set nodes
           then (traces, map_set spanId missing_node nodes) else (traces, nodes))
      | None \<Rightarrow> (traces, nodes))"

definition createTraceRootSpan ::
  "reference list \<Rightarrow> string option list \<times> 'd nodes \<Rightarrow> string option list \<times> 'd nodes" where
  "createTraceRootSpan refs st = fold create_parent refs st"

text \<open>The key of \<open>spanMap[parentSpanId]\<close>.\<close>

definition parent_key :: "reference \<Rightarrow> string" where
  "parent_key r = (case reference_field ''SpanId'' r of Some spanId \<Rightarrow> spanId | None \<Rightarrow> ''undefined'')"

definition push_child :: "string \<Rightarrow> reference \<Rightarrow> 'd nodes \<Rightarrow> 'd nodes" where
  "push_child spanId r nodes =
     (if parent_key r \<in> fst ` set nodes
      then update_node (parent_key r) (\<lambda>n. n\<lparr>tn_children := tn_children n @ [spanId]\<rparr>)
             (update_node spanId (\<lambda>n. n\<lparr>tn_isProcessed := True\<rparr>) nodes)
      else nodes)"

definition link_span ::
  "string \<times> 'd tree_node \<Rightarrow> string option list \<times> 'd nodes \<Rightarrow> string option list \<times> 'd nodes" where
  "link_span entry st =
     (case tn_childReferences (snd entry) of
        None \<Rightarrow> st
      | Some refs \<Rightarrow>
          (let (traces, nodes) = createTraceRootSpan refs st
           in (traces, fold (push_child (fst entry)) refs nodes)))"

definition link_spans :: "'d nodes \<Rightarrow> string option list \<times> 'd nodes" where
  "link_spans nodes = fold link_span (object_entries nodes) ([], nodes)"

subsection \<open>The roots\<close>

text \<open>A trace id that is not a text makes \<open>includes\<close> throw.\<close>

fun place_root :: "string \<Rightarrow> string option list \<Rightarrow> string list \<times> string list \<Rightarrow> (string list \<times> string list) option" where
  "place_root spanId [] res = Some res"
| "place_root spanId (None # traces) res = None"
| "place_root spanId (Some traceId # traces) (spanTree, missingTree) =
     (if str_includes spanId traceId then place_root spanId traces (spanTree @ [spanId], missingTree)
      else place_root spanId traces (spanTree, missingTree @ [spanId]))"

definition is_root :: "'d tree_node \<Rightarrow> bool" where
  "is_root n =
     (case tn_childReferences n of
        None \<Rightarrow> False
      | Some refs \<Rightarrow> list_ex (\<lambda>r. reference_field ''SpanId'' r = Some '''') refs)"

fun place_roots ::
  "string option list \<Rightarrow> 'd nodes \<Rightarrow> string list \<times> string list \<Rightarrow> (string list \<times> string list) option" where
  "place_roots traces [] res = Some res"
| "place_roots traces ((spanId, n) # ns) res =
     (if is_root n then place_roots traces ns (fst res @ [spanId], snd res)
      else Option.bind (place_root spanId traces res) (place_roots traces ns))"

record 'd trace_forest =
  tf_spanTree :: "string list"
  tf_missingSpanTree :: "string list"
  tf_nodes :: "'d nodes"

definition spanToTreeUtil :: "'d span list \<Rightarrow> 'd trace_forest option" where
  "spanToTreeUtil spanList =
     (let (traces, nodes) = link_spans (span_map spanList);
          left = filter (\<lambda>e. \<not> tn_isProcessed (snd e)) (object_entries nodes)
      in map_option (\<lambda>(spanTree, missingTree).
           \<lparr>tf_spanTree = spanTree, tf_missingSpanTree = missingTree, tf_nodes = nodes\<rparr>)
           (place_roots traces left ([], [])))"

subsection \<open>Children are references\<close>

definition children_of :: "'d nodes \<Rightarrow> string \<Rightarrow> string list" where
  "children_of nodes p = (case map_of nodes p of Some n \<Rightarrow> tn_children n | None \<Rightarrow> [])"

definition processed :: "'d nodes \<Rightarrow> string \<Rightarrow> bool" where
  "processed nodes k = (case map_of nodes k of Some n \<Rightarrow> tn_isProcessed n | None \<Rightarrow> False)"

definition references_of :: "'d nodes \<Rightarrow> string \<Rightarrow> reference list option" where
  "references_of nodes k = Option.bind (map_of nodes k) tn_childReferences"

text \<open>References that all name a parent, possibly with the empty id.\<close>

definition named :: "reference list \<Rightarrow> bool" where
  "named refs \<longleftrightarrow> (\<forall>r\<in>set refs. reference_field ''SpanId'' r \<noteq> None)"

definition node_refs :: "'d tree_node \<Rightarrow> reference list" where
  "node_refs n = (case tn_childReferences n of Some refs \<Rightarrow> refs | None \<Rightarrow> [])"

lemma map_of_update_node: "map_of (update_node k f m) k' = (if k' = k then map_option f (map_of m k) else map_of m k')"
  by (induction m) (auto simp: update_node_def)

lemma dom_update_node [simp]: "fst ` set (update_node k f m) = fst ` set m"
  by (force simp: update_node_def)

lemma distinct_update_node [simp]: "distinct (map fst (update_node k f m)) = distinct (map fst m)"
proof -
  have "map fst (update_node k f m) = map fst m" by (induction m) (auto simp: update_node_def)
  then show ?thesis by simp
qed

lemma dom_push [simp]: "fst ` set (push_child s r nodes) = fst ` set nodes"
  by (simp add: push_child_def)

lemma key_mem: "k \<in> fst ` set m \<longleftrightarrow> map_of m k \<noteq> None"
  by (simp add: map_of_eq_None_iff)

lemma children_push:
  "children_of (push_child s r nodes) p =
     children_of nodes p @ (if parent_key r = p \<and> p \<in> fst ` set nodes then [s] else [])"
  unfolding children_of_def push_child_def key_mem by (auto simp: map_of_update_node split: option.splits)

lemma processed_push:
  "s \<in> fst ` set nodes \<Longrightarrow>
     processed (push_child s r nodes) k \<longleftrightarrow> processed nodes k \<or> (k = s \<and> parent_key r \<in> fst ` set nodes)"
  unfolding processed_def push_child_def key_mem by (auto simp: map_of_update_node split: option.splits)

lemma references_push [simp]: "references_of (push_child s r nodes) = references_of nodes"
  unfolding references_of_def push_child_def key_mem by (auto simp: map_of_update_node fun_eq_iff bind_eq_Some_conv option.map_comp Option.bind_map_option comp_def)

lemma dom_pushes [simp]: "fst ` set (fold (push_child s) refs nodes) = fst ` set nodes"
  by (induction refs arbitrary: nodes) simp_all

lemma references_pushes [simp]: "references_of (fold (push_child s) refs nodes) = references_of nodes"
  by (induction refs arbitrary: nodes) simp_all

lemma children_pushes:
  "children_of (fold (push_child s) refs nodes) p =
     children_of nodes p @
     (if p \<in> fst ` set nodes then replicate (length (filter (\<lambda>r. parent_key r = p) refs)) s else [])"
  by (induction refs arbitrary: nodes) (auto simp: children_push)

lemma processed_pushes:
  "s \<in> fst ` set nodes \<Longrightarrow>
     processed (fold (push_child s) refs nodes) k \<longleftrightarrow>
       processed nodes k \<or> (k = s \<and> (\<exists>r\<in>set refs. parent_key r \<in> fst ` set nodes))"
  by (induction refs arbitrary: nodes) (auto simp: processed_push)

text \<open>Creating parents changes no child and no mark, and afterwards every named parent is a node.\<close>

lemma create_parent_node:
  "children_of (snd (create_parent r st)) = children_of (snd st)"
  "processed (snd (create_parent r st)) = processed (snd st)"
  "k \<in> fst ` set (snd st) \<Longrightarrow> references_of (snd (create_parent r st)) k = references_of (snd st) k"
  "fst ` set (snd (create_parent r st)) =
     fst ` set (snd st) \<union> {s. reference_field ''SpanId'' r = Some s \<and> s \<noteq> ''''}"
proof -
  have none: "map_of (snd st) s = None" if "s \<notin> fst ` set (snd st)" for s
    using that by (simp add: map_of_eq_None_iff)
  show "children_of (snd (create_parent r st)) = children_of (snd st)"
    using none by (auto simp: create_parent_def Let_def children_of_def missing_node_def fun_eq_iff split: option.splits)
  show "processed (snd (create_parent r st)) = processed (snd st)"
    using none by (auto simp: create_parent_def Let_def processed_def missing_node_def fun_eq_iff split: option.splits)
  show "k \<in> fst ` set (snd st) \<Longrightarrow> references_of (snd (create_parent r st)) k = references_of (snd st) k"
    by (auto simp: create_parent_def Let_def references_of_def split: option.splits)
  show "fst ` set (snd (create_parent r st)) =
      fst ` set (snd st) \<union> {s. reference_field ''SpanId'' r = Some s \<and> s \<noteq> ''''}"
    by (auto simp: create_parent_def Let_def dom_map_set split: option.splits)
qed

lemma create_parents_node:
  "children_of (snd (createTraceRootSpan refs st)) = children_of (snd st)"
  "processed (snd (createTraceRootSpan refs st)) = processed (snd st)"
  "k \<in> fst ` set (snd st) \<Longrightarrow> references_of (snd (createTraceRootSpan refs st)) k = references_of (snd st) k"
  "fst ` set (snd (createTraceRootSpan refs st)) =
     fst ` set (snd st) \<union> {s. \<exists>r\<in>set refs. reference_field ''SpanId'' r = Some s \<and> s \<noteq> ''''}"
proof (induction refs arbitrary: st)
  case (Cons r refs)
  {
    case 1 show ?case using Cons.IH(1) by (simp add: createTraceRootSpan_def create_parent_node(1))
  next
    case 2 show ?case using Cons.IH(2) by (simp add: createTraceRootSpan_def create_parent_node(2))
  next
    case 3
    then have "k \<in> fst ` set (snd (create_parent r st))" unfolding create_parent_node(4) by blast
    from Cons.IH(3) [OF this] 3 show ?case by (simp add: createTraceRootSpan_def create_parent_node(3))
  next
    case 4 show ?case using Cons.IH(4) [of "create_parent r st"]
      by (auto simp: createTraceRootSpan_def create_parent_node(4))
  }
qed (simp_all add: createTraceRootSpan_def)

text \<open>One step of the loop, for a span that is a node.\<close>

lemma link_span_node:
  assumes "snd (link_span (s, n) st) = nodes'" "s \<in> fst ` set (snd st)"
  shows "fst ` set (snd st) \<subseteq> fst ` set nodes'"
    and "named (node_refs n) \<Longrightarrow> p \<noteq> '''' \<Longrightarrow> children_of nodes' p =
      children_of (snd st) p @ replicate (length (filter (\<lambda>r. parent_key r = p) (node_refs n))) s"
    and "set (children_of (snd st) p) \<subseteq> set (children_of nodes' p)"
    and "processed (snd st) k \<Longrightarrow> processed nodes' k"
    and "processed nodes' k \<Longrightarrow> processed (snd st) k \<or> (k = s \<and> (\<exists>p. s \<in> set (children_of nodes' p)))"
    and "named (node_refs n) \<Longrightarrow> r \<in> set (node_refs n) \<Longrightarrow> parent_key r \<noteq> '''' \<Longrightarrow> processed nodes' s"
    and "k \<in> fst ` set (snd st) \<Longrightarrow> references_of nodes' k = references_of (snd st) k"
proof -
  define nodes where "nodes = snd (createTraceRootSpan (node_refs n) st)"
  have nodes': "nodes' = fold (push_child s) (node_refs n) nodes"
    using assms(1) by (auto simp: link_span_def node_refs_def nodes_def createTraceRootSpan_def split: option.splits prod.splits)
  note create = create_parents_node [where refs = "node_refs n" and st = st, folded nodes_def]
  have s: "s \<in> fst ` set nodes" using assms(2) unfolding create(4) by blast
  have parent: "parent_key r \<in> fst ` set nodes" if "named (node_refs n)" "r \<in> set (node_refs n)" "parent_key r \<noteq> ''''" for r
    using that by (auto simp: create(4) named_def parent_key_def split: option.splits)
  show "fst ` set (snd st) \<subseteq> fst ` set nodes'" using create(4) by (auto simp: nodes')
  show "children_of nodes' p = children_of (snd st) p @ replicate (length (filter (\<lambda>r. parent_key r = p) (node_refs n))) s"
    if "named (node_refs n)" "p \<noteq> ''''"
  proof -
    have "filter (\<lambda>r. parent_key r = p) (node_refs n) = []" if "p \<notin> fst ` set nodes"
      using that parent \<open>named (node_refs n)\<close> \<open>p \<noteq> ''''\<close> by (auto simp: filter_empty_conv)
    then show ?thesis by (auto simp: nodes' children_pushes create(1))
  qed
  show "set (children_of (snd st) p) \<subseteq> set (children_of nodes' p)"
    by (auto simp: nodes' children_pushes create(1))
  show "processed (snd st) k \<Longrightarrow> processed nodes' k" by (simp add: nodes' processed_pushes [OF s] create(2))
  show "processed (snd st) k \<or> (k = s \<and> (\<exists>p. s \<in> set (children_of nodes' p)))" if "processed nodes' k"
  proof -
    have "\<exists>p. s \<in> set (children_of nodes' p)" if "r \<in> set (node_refs n)" "parent_key r \<in> fst ` set nodes" for r
    proof -
      have "filter (\<lambda>q. parent_key q = parent_key r) (node_refs n) \<noteq> []" using that(1) by (auto simp: filter_empty_conv)
      then have "s \<in> set (children_of nodes' (parent_key r))" using that(2) by (simp add: nodes' children_pushes)
      then show ?thesis by blast
    qed
    with that show ?thesis by (auto simp: nodes' processed_pushes [OF s] create(2))
  qed
  show "processed nodes' s" if "named (node_refs n)" "r \<in> set (node_refs n)" "parent_key r \<noteq> ''''"
    using parent [OF that] that(2) by (auto simp: nodes' processed_pushes [OF s])
  show "references_of nodes' k = references_of (snd st) k" if "k \<in> fst ` set (snd st)"
    by (simp add: nodes' create(3) [OF that])
qed

definition linked :: "(string \<times> 'd tree_node) list \<Rightarrow> 'd nodes \<Rightarrow> 'd nodes \<Rightarrow> bool" where
  "linked es nodes nodes' \<longleftrightarrow>
     fst ` set nodes \<subseteq> fst ` set nodes' \<and>
     (\<forall>p. p \<noteq> [] \<longrightarrow> children_of nodes' p = children_of nodes p @
        concat (map (\<lambda>(s, n). replicate (length (filter (\<lambda>r. parent_key r = p) (node_refs n))) s) es)) \<and>
     (\<forall>p. set (children_of nodes p) \<subseteq> set (children_of nodes' p)) \<and>
     (\<forall>k. processed nodes k \<longrightarrow> processed nodes' k) \<and>
     (\<forall>k. processed nodes' k \<longrightarrow> processed nodes k \<or> (\<exists>p. k \<in> set (children_of nodes' p))) \<and>
     (\<forall>(s, n)\<in>set es. \<forall>r\<in>set (node_refs n). parent_key r \<noteq> [] \<longrightarrow> processed nodes' s) \<and>
     (\<forall>k\<in>fst ` set nodes. references_of nodes' k = references_of nodes k)"

lemma linkedD:
  assumes "linked es nodes nodes'"
  shows "fst ` set nodes \<subseteq> fst ` set nodes'"
    and "p \<noteq> [] \<Longrightarrow> children_of nodes' p = children_of nodes p @
        concat (map (\<lambda>(s, n). replicate (length (filter (\<lambda>r. parent_key r = p) (node_refs n))) s) es)"
    and "set (children_of nodes p) \<subseteq> set (children_of nodes' p)"
    and "processed nodes k \<Longrightarrow> processed nodes' k"
    and "processed nodes' k \<Longrightarrow> processed nodes k \<or> (\<exists>p. k \<in> set (children_of nodes' p))"
    and "(s, n) \<in> set es \<Longrightarrow> r \<in> set (node_refs n) \<Longrightarrow> parent_key r \<noteq> [] \<Longrightarrow> processed nodes' s"
    and "k \<in> fst ` set nodes \<Longrightarrow> references_of nodes' k = references_of nodes k"
  using assms unfolding linked_def by (blast, blast, blast, blast, blast, fast, blast)

lemma linked_spans:
  "\<forall>e\<in>set es. named (node_refs (snd e)) \<and> fst e \<in> fst ` set (snd st) \<Longrightarrow>
     linked es (snd st) (snd (fold link_span es st))"
proof (induction es arbitrary: st)
  case (Cons e es)
  obtain s0 n0 where e: "e = (s0, n0)" by (cases e)
  define st1 where "st1 = link_span (s0, n0) st"
  define nodes' where "nodes' = snd (fold link_span es st1)"
  have in0: "s0 \<in> fst ` set (snd st)" and named: "named (node_refs n0)" using Cons.prems by (auto simp: e)
  note step = link_span_node [OF refl in0, where n = n0, folded st1_def]
  have "\<forall>e\<in>set es. named (node_refs (snd e)) \<and> fst e \<in> fst ` set (snd st1)"
    using Cons.prems step(1) by (auto simp: e)
  from Cons.IH [OF this] have IH: "linked es (snd st1) nodes'" by (simp add: nodes'_def)
  note ih = linkedD [OF IH]
  have "linked (e # es) (snd st) nodes'"
    unfolding linked_def
  proof (intro conjI allI impI ballI)
    show "fst ` set (snd st) \<subseteq> fst ` set nodes'" using step(1) ih(1) by (rule subset_trans)
    show "children_of nodes' p = children_of (snd st) p @
        concat (map (\<lambda>(s, n). replicate (length (filter (\<lambda>r. parent_key r = p) (node_refs n))) s) (e # es))"
      if "p \<noteq> []" for p
      using step(2) [OF named that] ih(2) [OF that] by (simp add: e)
    show "set (children_of (snd st) p) \<subseteq> set (children_of nodes' p)" for p
      using step(3) ih(3) by (rule subset_trans)
    show "processed nodes' k" if "processed (snd st) k" for k
      using step(4) [OF that] by (rule ih(4))
    show "processed (snd st) k \<or> (\<exists>p. k \<in> set (children_of nodes' p))" if "processed nodes' k" for k
      using ih(5) [OF that]
    proof
      assume "processed (snd st1) k"
      from step(5) [OF this] show ?thesis using ih(3) by blast
    qed simp
    show "case x of (s, n) \<Rightarrow> \<forall>r\<in>set (node_refs n). parent_key r \<noteq> [] \<longrightarrow> processed nodes' s" if "x \<in> set (e # es)" for x
    proof (cases "x = e")
      case True
      then show ?thesis using step(6) [OF named] ih(4) by (auto simp: e)
    next
      case False
      then have "x \<in> set es" using that by simp
      then show ?thesis using ih(6) by (cases x) auto
    qed
    show "references_of nodes' k = references_of (snd st) k" if "k \<in> fst ` set (snd st)" for k
      using ih(7) [OF subsetD [OF step(1) that]] step(7) [OF that] by simp
  qed
  then show ?case by (simp add: e st1_def nodes'_def)
qed (simp add: linked_def)

subsection \<open>The forest\<close>

lemma span_map_distinct: "distinct (map fst (span_map rows))"
  unfolding span_map_def
proof -
  have "distinct (map fst m) \<Longrightarrow> distinct (map fst (fold (\<lambda>s m. map_set (sp_spanId s) (span_node s) m) rows m))" for m
    by (induction rows arbitrary: m) (auto simp: distinct_map_set)
  then show "distinct (map fst (fold (\<lambda>s m. map_set (sp_spanId s) (span_node s) m) rows []))" by simp
qed

lemma span_map_entry:
  "map_of (span_map rows) k = Some n \<Longrightarrow> \<exists>s\<in>set rows. sp_spanId s = k \<and> n = span_node s"
proof -
  have "map_of (fold (\<lambda>s m. map_set (sp_spanId s) (span_node s) m) rows m) k = Some n \<Longrightarrow>
      map_of m k = Some n \<or> (\<exists>s\<in>set rows. sp_spanId s = k \<and> n = span_node s)" for m
    by (induction rows arbitrary: m) (fastforce split: if_splits)+
  then show "map_of (span_map rows) k = Some n \<Longrightarrow> \<exists>s\<in>set rows. sp_spanId s = k \<and> n = span_node s"
    unfolding span_map_def by fastforce
qed

lemma span_map_mem: "s \<in> set rows \<Longrightarrow> sp_spanId s \<in> fst ` set (span_map rows)"
proof -
  have "fst ` set (fold (\<lambda>s m. map_set (sp_spanId s) (span_node s) m) rows m) = fst ` set m \<union> sp_spanId ` set rows" for m
    by (induction rows arbitrary: m) (auto simp: dom_map_set)
  then show "s \<in> set rows \<Longrightarrow> sp_spanId s \<in> fst ` set (span_map rows)" by (simp add: span_map_def)
qed

lemma entries_mem: "(k, n) \<in> set (object_entries m) \<longleftrightarrow> (k, n) \<in> set m"
  by (auto simp: object_entries_def)

text \<open>What the rows of a trace are expected to be: each has a reference, and every reference names a parent.\<close>

definition referenced :: "'d span \<Rightarrow> bool" where
  "referenced s \<longleftrightarrow> getSpanReferences (sp_references s) True \<noteq> [] \<and> named (getSpanReferences (sp_references s) True)"

lemma node_refs_span: "node_refs (span_node s) = getSpanReferences (sp_references s) True"
  by (simp add: node_refs_def span_node_def)

lemma link_spans_linked:
  assumes "list_all referenced rows"
  shows "linked (object_entries (span_map rows)) (span_map rows) (snd (link_spans (span_map rows)))"
proof -
  have "\<exists>s\<in>set rows. sp_spanId s = k \<and> n = span_node s" if "(k, n) \<in> set (span_map rows)" for k n
    using that span_map_entry [of rows k n] span_map_distinct [of rows] by (simp add: map_of_is_SomeI)
  then have "\<forall>e\<in>set (object_entries (span_map rows)). named (node_refs (snd e)) \<and> fst e \<in> fst ` set (snd ([], span_map rows))"
    using assms by (fastforce simp: entries_mem list_all_iff referenced_def node_refs_span)
  from linked_spans [OF this] show ?thesis by (simp add: link_spans_def)
qed

lemma fresh_nodes: "children_of (span_map rows) p = []" "\<not> processed (span_map rows) k"
  by (auto simp: children_of_def processed_def span_node_def dest!: span_map_entry split: option.splits)

lemma distinct_link: "distinct (map fst (snd st)) \<Longrightarrow> distinct (map fst (snd (link_span e st)))"
proof -
  assume d: "distinct (map fst (snd st))"
  have push: "distinct (map fst m) \<Longrightarrow> distinct (map fst (fold (push_child s) refs m))" for s refs and m :: "'a nodes"
    by (induction refs arbitrary: m) (simp_all add: push_child_def)
  have create: "distinct (map fst (snd st)) \<Longrightarrow> distinct (map fst (snd (fold create_parent refs st)))"
    for refs and st :: "string option list \<times> 'a nodes"
  proof (induction refs arbitrary: st)
    case (Cons r refs)
    have "distinct (map fst (snd (create_parent r st)))"
      using Cons.prems by (auto simp: create_parent_def Let_def distinct_map_set split: option.splits)
    from Cons.IH [OF this] show ?case by simp
  qed simp
  show ?thesis
    using push [OF create [OF d]] d
    by (auto simp: link_span_def createTraceRootSpan_def split: option.splits prod.splits) (metis snd_conv)
qed

lemma distinct_link_spans: "distinct (map fst m) \<Longrightarrow> distinct (map fst (snd (link_spans m)))"
proof -
  have "distinct (map fst (snd st)) \<Longrightarrow> distinct (map fst (snd (fold link_span es st)))" for es and st :: "string option list \<times> 'a nodes"
    by (induction es arbitrary: st) (simp_all add: distinct_link)
  then show "distinct (map fst m) \<Longrightarrow> distinct (map fst (snd (link_spans m)))" by (simp add: link_spans_def)
qed

lemma forest_nodes: "spanToTreeUtil rows = Some f \<Longrightarrow> tf_nodes f = snd (link_spans (span_map rows))"
  by (auto simp: spanToTreeUtil_def split: prod.splits)

lemma place_root_keeps: "place_root k traces res = Some res' \<Longrightarrow> set (fst res) \<subseteq> set (fst res')"
  by (induction k traces res rule: place_root.induct) (auto split: if_splits)

lemma place_roots_roots:
  "place_roots traces ns res = Some res' \<Longrightarrow>
     set (fst res) \<subseteq> set (fst res') \<and> (\<forall>(k, n)\<in>set ns. is_root n \<longrightarrow> k \<in> set (fst res'))"
proof (induction traces ns res rule: place_roots.induct)
  case (2 traces k n ns res)
  show ?case
  proof (cases "is_root n")
    case True
    with 2(1) [OF True] 2(3) show ?thesis by auto
  next
    case False
    with 2(3) obtain res1 where r: "place_root k traces res = Some res1" "place_roots traces ns res1 = Some res'"
      by (auto simp: bind_eq_Some_conv)
    with 2(2) [OF False r] place_root_keeps [OF r(1)] False show ?thesis by auto
  qed
qed simp

text \<open>
  C39. In the forest of a trace the children of a node are exactly the spans that refer to it, once per
  reference and in the order of the table; this holds for the nodes of missing parents too.
\<close>

theorem children_are_references:
  assumes "spanToTreeUtil rows = Some f" "list_all referenced rows" "(p, node) \<in> set (tf_nodes f)" "p \<noteq> ''''"
  shows "tn_children node =
    concat (map (\<lambda>(s, n). replicate (length (filter (\<lambda>r. parent_key r = p) (node_refs n))) s)
      (object_entries (span_map rows)))"
proof -
  have nodes: "tf_nodes f = snd (link_spans (span_map rows))" using assms(1) by (rule forest_nodes)
  have "map_of (tf_nodes f) p = Some node"
    using assms(3) distinct_link_spans [OF span_map_distinct, of rows] by (simp add: nodes map_of_is_SomeI)
  then have "tn_children node = children_of (tf_nodes f) p" by (simp add: children_of_def)
  with linkedD(2) [OF link_spans_linked [OF assms(2)]] assms(4) show ?thesis
    by (simp add: nodes fresh_nodes)
qed

text \<open>
  C40. No span of a trace is lost: each is the root of a tree or the child of a node, where every span
  has a reference and every reference names a parent, by an empty id for none. The child of a node need
  not be in a tree that is shown: spans whose references form a cycle are children of each other, and no root reaches them.
\<close>

theorem no_span_lost:
  assumes "spanToTreeUtil rows = Some f" "list_all referenced rows" "s \<in> set rows"
  shows "sp_spanId s \<in> set (tf_spanTree f) \<or> (\<exists>(p, n)\<in>set (tf_nodes f). sp_spanId s \<in> set (tn_children n))"
proof -
  let ?m = "span_map rows" and ?k = "sp_spanId s"
  have nodes: "tf_nodes f = snd (link_spans ?m)" using assms(1) by (rule forest_nodes)
  note link = linkedD [OF link_spans_linked [OF assms(2)], folded nodes]
  have mem: "?k \<in> fst ` set ?m" using assms(3) by (rule span_map_mem)
  then obtain n0 where n0: "map_of ?m ?k = Some n0" by (auto simp: key_mem)
  then obtain s0 where s0: "s0 \<in> set rows" "n0 = span_node s0" using span_map_entry by blast
  have refs: "node_refs n0 \<noteq> []" "named (node_refs n0)"
    using assms(2) s0 by (auto simp: list_all_iff referenced_def node_refs_span)
  have entry: "(?k, n0) \<in> set (object_entries ?m)" using n0 by (simp add: entries_mem map_of_SomeD)
  have "?k \<in> fst ` set (tf_nodes f)" using mem link(1) by blast
  then obtain n where n: "map_of (tf_nodes f) ?k = Some n" by (auto simp: key_mem)
  have same: "tn_childReferences n = tn_childReferences n0"
    using link(7) [OF mem] by (simp add: references_of_def n n0)
  show ?thesis
  proof (cases "processed (tf_nodes f) ?k")
    case True
    then obtain p where "?k \<in> set (children_of (tf_nodes f) p)"
      using link(5) fresh_nodes(2) by blast
    then obtain n' where "map_of (tf_nodes f) p = Some n'" "?k \<in> set (tn_children n')"
      by (cases "map_of (tf_nodes f) p") (auto simp: children_of_def)
    then show ?thesis using map_of_SomeD [of "tf_nodes f" p n'] by blast
  next
    case False
    have "parent_key r = ''''" if "r \<in> set (node_refs n0)" for r
      using link(6) [OF entry that] False by blast
    moreover obtain r where r: "r \<in> set (node_refs n0)" using refs(1) by (cases "node_refs n0") auto
    ultimately have "reference_field ''SpanId'' r = Some ''''"
      using refs(2) by (fastforce simp: named_def parent_key_def split: option.splits)
    then have "is_root n"
      using r by (cases "tn_childReferences n0") (auto simp: is_root_def same node_refs_def list_ex_iff)
    moreover have "\<not> tn_isProcessed n" using False n by (simp add: processed_def)
    moreover have "(?k, n) \<in> set (object_entries (tf_nodes f))" using n by (simp add: entries_mem map_of_SomeD)
    moreover have "place_roots (fst (link_spans ?m)) (filter (\<lambda>e. \<not> tn_isProcessed (snd e)) (object_entries (tf_nodes f)))
        ([], []) = Some (tf_spanTree f, tf_missingSpanTree f)"
      using assms(1) by (auto simp: spanToTreeUtil_def Let_def nodes split: prod.splits)
    ultimately show ?thesis by (fastforce dest!: place_roots_roots)
  qed
qed

definition sample_trace :: "unit span list" where
  "sample_trace =
     [\<lparr>sp_spanId = ''b'', sp_references = [''{TraceId=t1, SpanId=a, RefType=CHILD_OF}''], sp_fields = ()\<rparr>,
      \<lparr>sp_spanId = ''a'', sp_references = [''{TraceId=t1, SpanId=, RefType=CHILD_OF}''], sp_fields = ()\<rparr>]"

lemma sample_trace_forest:
  "map_option (\<lambda>f. (tf_spanTree f, map (\<lambda>(k, n). (k, tn_children n)) (tf_nodes f))) (spanToTreeUtil sample_trace) =
     Some ([''a''], [(''b'', []), (''a'', [''b''])])"
  by code_simp

lemma sample_trace_referenced: "list_all referenced sample_trace"
  by code_simp

theorem children_are_references_witness:
  "\<exists>f node. spanToTreeUtil sample_trace = Some f \<and> (''a'', node) \<in> set (tf_nodes f) \<and> tn_children node = [''b'']"
proof -
  obtain f where f: "spanToTreeUtil sample_trace = Some f" using sample_trace_forest by blast
  then have "map (\<lambda>(k, n). (k, tn_children n)) (tf_nodes f) = [(''b'', []), (''a'', [''b''])]"
    using sample_trace_forest by simp
  then obtain node where node: "(''a'', node) \<in> set (tf_nodes f)" by (auto simp: map_eq_Cons_conv)
  have "concat (map (\<lambda>(s, n). replicate (length (filter (\<lambda>r. parent_key r = ''a'') (node_refs n))) s)
      (object_entries (span_map sample_trace))) = [''b'']" by code_simp
  with children_are_references [OF f sample_trace_referenced node] f node show ?thesis by auto
qed

theorem no_span_lost_witness:
  "\<exists>f. spanToTreeUtil sample_trace = Some f \<and>
     (''b'' \<in> set (tf_spanTree f) \<or> (\<exists>(p, n)\<in>set (tf_nodes f). ''b'' \<in> set (tn_children n)))"
proof -
  obtain f where f: "spanToTreeUtil sample_trace = Some f" using sample_trace_forest by blast
  have "hd sample_trace \<in> set sample_trace" "sp_spanId (hd sample_trace) = ''b''" by (simp_all add: sample_trace_def)
  with no_span_lost [OF f sample_trace_referenced, of "hd sample_trace"] f show ?thesis by auto
qed

text \<open>A trace whose spans carry no reference shows nothing, not even as a missing tree.\<close>

lemma unreferenced_trace_vanishes:
  "map_option (\<lambda>f. (tf_spanTree f, tf_missingSpanTree f))
     (spanToTreeUtil [\<lparr>sp_spanId = ''a'', sp_references = [], sp_fields = ()\<rparr>]) = Some ([], [])"
  by code_simp

end
