(* ===== verification/Chart_Series.thy ===== *)
theory Chart_Series
  imports Prelude Js_Number Complex_Main "HOL-Library.Word"
begin

text \<open>
  The series of a chart: \<^verbatim>\<open>lib/color/generateColor.ts\<close> gives a series its colour from its label, with the
  colours of \<^verbatim>\<open>constants/theme.ts\<close>; \<^verbatim>\<open>lib/uPlotV2/utils/getFocusedSeriesAtPosition.ts\<close> finds the series
  at the mouse. A chart is an object of the library uPlot: \<open>uplot\<close> has the fields the code reads, and
  its functions between values and positions are fields too, so that nothing is assumed of them.
  Positions are exact rationals of pixels.
\<close>

section \<open>Colours of series\<close>

text \<open>
  \<open>hashFn\<close>. The hash is a number that \<open>^\<close> brings to 32 bits with a sign; \<open>>>> 0\<close> reads it without one.
\<close>

unbundle bit_operations_syntax

definition to_int32 :: "int \<Rightarrow> int" where
  "to_int32 n = sint (word_of_int n :: 32 word)"

definition js_xor :: "int \<Rightarrow> int \<Rightarrow> int" where
  "js_xor a b = sint ((word_of_int a :: 32 word) XOR word_of_int b)"

definition js_unsigned :: "int \<Rightarrow> int" where
  "js_unsigned a = uint (word_of_int a :: 32 word)"

definition char_code :: "char \<Rightarrow> int" where
  "char_code c = int (of_char c)"

definition hash_step :: "char \<Rightarrow> int \<Rightarrow> int" where
  "hash_step c hash = js_xor (hash * 33) (char_code c)"

definition hashFn :: "string \<Rightarrow> int" where
  "hashFn str = js_unsigned (fold hash_step str 5381)"

text \<open>\<open>colorMap\<close> lists the entries of the object in the order of \<open>Object.keys\<close>.\<close>

definition generateColor :: "string \<Rightarrow> (string \<times> string) list \<Rightarrow> string option" where
  "generateColor key colorMap =
     (let hashValue = hashFn key; keys = map fst colorMap
      in if keys = [] then None
         else map_of colorMap (keys ! nat (hashValue mod int (length keys))))"

definition chartcolors :: "(string \<times> string) list" where
  "chartcolors =
   [(''dodgerBlue'', ''#2F80ED''), (''royalBlue'', ''#3366E6''), (''steelBlue'', ''#4682B4''),
    (''turquoise'', ''#00CEC9''), (''lagoon'', ''#1ABC9C''), (''cyanBright'', ''#22A6F2''),
    (''emeraldGreen'', ''#27AE60''), (''mediumSeaGreen'', ''#3CB371''), (''limeGreen'', ''#A3E635''),
    (''festivalYellow'', ''#F2C94C''), (''sunflower'', ''#FFD93D''), (''warmAmber'', ''#FFCA28''),
    (''festivalOrange'', ''#F2994A''), (''coralOrange'', ''#E17055''), (''pumpkin'', ''#FF7F50''),
    (''radicalRed'', ''#FF1A66''), (''crimsonRed'', ''#EB5757''), (''fireRed'', ''#E10600''),
    (''hotPink'', ''#E84393''), (''rosePink'', ''#FD79A8''), (''blush'', ''#FF7EB6''),
    (''mediumPurple'', ''#BB6BD9''), (''royalPurple'', ''#9B51E0''), (''orchid'', ''#DA77F2''),
    (''neonViolet'', ''#C77DFF''), (''electricPurple'', ''#6C5CE7''), (''arcticBlue'', ''#48DBFB''),
    (''blue1'', ''#1F63E0''), (''blue2'', ''#3A7AED''), (''blue3'', ''#5A9DF5''),
    (''cyan1'', ''#00B0AA''), (''cyan2'', ''#33D6C2''), (''cyan3'', ''#66E9DA''),
    (''green1'', ''#1E8449''), (''green2'', ''#2ECC71''), (''green3'', ''#58D68D''),
    (''yellow1'', ''#F1C40F''), (''yellow2'', ''#F7DC6F''), (''yellow3'', ''#F9E79F''),
    (''orange1'', ''#D35400''), (''orange2'', ''#E67E22''), (''orange3'', ''#F5B041''),
    (''red1'', ''#C0392B''), (''red2'', ''#E74C3C''), (''red3'', ''#EC7063''),
    (''pink1'', ''#D81B60''), (''pink2'', ''#E91E63''), (''pink3'', ''#F06292''),
    (''purple1'', ''#8E44AD''), (''purple2'', ''#9B59B6''), (''purple3'', ''#BB8FCE''),
    (''teal1'', ''#009688''), (''teal2'', ''#1ABC9C''), (''teal3'', ''#48C9B0''),
    (''lime1'', ''#A3E635''), (''lime2'', ''#B9F18D''), (''lime3'', ''#D4FFB0''),
    (''gold1'', ''#F39C12''), (''gold2'', ''#F1C40F''), (''gold3'', ''#F7DC6F''),
    (''coral1'', ''#E67E22''), (''coral2'', ''#F39C12''), (''coral3'', ''#F5B041''),
    (''crimson1'', ''#C0392B''), (''crimson2'', ''#E74C3C''), (''crimson3'', ''#EC7063''),
    (''violet1'', ''#8E44AD''), (''violet2'', ''#9B59B6''), (''violet3'', ''#BB8FCE''),
    (''aqua1'', ''#00BFFF''), (''aqua2'', ''#1E90FF''), (''aqua3'', ''#63B8FF''),
    (''forest1'', ''#27AE60''), (''forest2'', ''#2ECC71''), (''forest3'', ''#58D68D''),
    (''blush1'', ''#FF6F91''), (''blush2'', ''#FF85A2''), (''blush3'', ''#FFA0B3''),
    (''lavender1'', ''#9B59B6''), (''lavender2'', ''#AF7AC5''), (''lavender3'', ''#C39BD3''),
    (''tomato1'', ''#E74C3C''), (''tomato2'', ''#EC7063''), (''tomato3'', ''#F1948A''),
    (''salmon1'', ''#FF6B6B''), (''salmon2'', ''#FF8787''), (''salmon3'', ''#FFA1A1''),
    (''mustard1'', ''#F1C40F''), (''mustard2'', ''#F7DC6F''), (''mustard3'', ''#F9E79F''),
    (''teal4'', ''#1ABC9C''), (''teal5'', ''#48C9B0''), (''teal6'', ''#76D7C4''),
    (''magenta1'', ''#D6336C''), (''magenta2'', ''#E84393''), (''magenta3'', ''#F06292''),
    (''violet4'', ''#7D3C98''), (''violet5'', ''#8E44AD''), (''violet6'', ''#9B59B6''),
    (''green4'', ''#229954''), (''green5'', ''#27AE60''), (''green6'', ''#52BE80''),
    (''blue4'', ''#2874A6''), (''blue5'', ''#2E86C1''), (''blue6'', ''#3498DB''),
    (''red4'', ''#C0392B''), (''red5'', ''#E74C3C''), (''red6'', ''#EC7063''),
    (''orange4'', ''#D35400''), (''orange5'', ''#E67E22''), (''orange6'', ''#EB984E''),
    (''pink4'', ''#C2185B''), (''pink5'', ''#D81B60''), (''pink6'', ''#E91E63''),
    (''gold4'', ''#B7950B''), (''gold5'', ''#F1C40F''), (''gold6'', ''#F4D03F'')]"

definition lightModeColor :: "(string \<times> string) list" where
  "lightModeColor =
   [(''radicalRed'', ''#D81B60''), (''dodgerBlueDark'', ''#1E5BD9''), (''steelgrey'', ''#344B6B''),
    (''steelpurple'', ''#5E548E''), (''steelindigo'', ''#8E4A7C''), (''steelpink'', ''#B63A6F''),
    (''steelcoral'', ''#E14B5A''), (''steelorange'', ''#E76F2F''), (''steelgold'', ''#E09B00''),
    (''steelrust'', ''#C93A50''), (''steelgreen'', ''#2F7D69''), (''mediumOrchidDark'', ''#8E24AA''),
    (''seaBuckthornDark'', ''#C75A00''), (''seaGreen'', ''#1E7F5A''),
    (''turquoiseBlueDark'', ''#007EA7''), (''silverDark'', ''#5F5F5F''),
    (''outrageousOrangeDark'', ''#E64A19''), (''roseBudDark'', ''#D84315''),
    (''deepSkyBlueDark'', ''#0277BD''), (''royalBlue'', ''#2A4FDB''), (''avocadoDark'', ''#6B6B1E''),
    (''mintGreenDark'', ''#2E9E55''), (''chestnut'', ''#8B3A3A''), (''limaDark'', ''#5C7F00''),
    (''olive'', ''#6E7F00''), (''beautyBushDark'', ''#C93C3C''), (''danube'', ''#4F6FB3''),
    (''oliveDrab'', ''#4F7F1A''), (''lavenderRoseDark'', ''#B0178F''),
    (''electricLimeDark'', ''#6B8F00''), (''robin'', ''#2F4FCC''), (''harleyOrange'', ''#CC2E12''),
    (''gladeGreen'', ''#4F7F46''), (''hemlock'', ''#5C5C45''), (''vidaLoca'', ''#3D6B00''),
    (''rust'', ''#993300''), (''red'', ''#C62828''), (''blue'', ''#1A237E''),
    (''green'', ''#1B7F3A''), (''purple'', ''#6A1B9A''), (''magentaDark'', ''#B000B5''),
    (''pinkDark'', ''#C2185B''), (''brown'', ''#7A3A1E''), (''teal'', ''#006D6F''),
    (''limeDark'', ''#4C8C2B''), (''maroon'', ''#6D1B1B''), (''navy'', ''#0D1B5E''),
    (''gray'', ''#616161''), (''skyBlueDark'', ''#0288D1''), (''indigo'', ''#303F9F''),
    (''slateGray'', ''#556B7C''), (''chocolate'', ''#9C4A1A''), (''tomato'', ''#E53935''),
    (''steelBlue'', ''#3A6EA5''), (''peruDark'', ''#B35E00''), (''darkOliveGreen'', ''#445B1F''),
    (''indianRed'', ''#B04040''), (''mediumSlateBlue'', ''#5C6BC0''),
    (''rosyBrownDark'', ''#A94444''), (''darkSlateGray'', ''#2E4A4A''), (''fuchsia'', ''#C511C5''),
    (''salmonDark'', ''#E64A3C''), (''darkSalmonDark'', ''#C85A3A''),
    (''paleVioletRedDark'', ''#C2186A''), (''mediumPurple'', ''#7E57C2''),
    (''darkOrchid'', ''#7B1FA2''), (''mediumSeaGreenDark'', ''#2E8B57''),
    (''lightCoralDark'', ''#E57373''), (''gold'', ''#D4AF37''), (''sandyBrownDark'', ''#C76A15''),
    (''darkKhakiDark'', ''#8A7F00''), (''cornflowerBlueDark'', ''#355FCC''),
    (''mediumVioletRed'', ''#AD1457''), (''paleGreenDark'', ''#2E7D32'')]"

section \<open>The series at the mouse\<close>

text \<open>A cell of the data: a number, or one of the values without one.\<close>

datatype cell = Cell rat | Cell_Null | Cell_NaN | Cell_Undefined

record series =
  label :: "string option"
  series_show :: "bool option"
  series_focus :: "bool option"
  stroke :: "string option"
  fill :: "string option"

record bbox =
  bb_left :: rat
  bb_top :: rat
  bb_width :: rat
  bb_height :: rat

record uplot =
  rect :: bbox
  over :: bbox
  cursor_event :: bool
  cursor_left :: "rat option"
  cursor_top :: "rat option"
  cursor_idxs :: "nat option list option"
  cursor_lock :: bool
  all_series :: "series list"
  plot_data :: "cell list list"
  posToVal :: "rat \<Rightarrow> string \<Rightarrow> rat"
  posToIdx :: "rat \<Rightarrow> int"
  valToPos :: "rat \<Rightarrow> string \<Rightarrow> rat"

record mouse_event =
  clientX :: rat
  clientY :: rat
  offsetX :: rat
  offsetY :: rat

definition cell_at :: "cell list \<Rightarrow> int \<Rightarrow> cell" where
  "cell_at row i = (case js_nth row i of Some c \<Rightarrow> c | None \<Rightarrow> Cell_Undefined)"

definition data_at :: "uplot \<Rightarrow> nat \<Rightarrow> int \<Rightarrow> cell" where
  "data_at u i idx = (if i < length (plot_data u) then cell_at (plot_data u ! i) idx else Cell_Undefined)"

definition isSeriesValueValid :: "cell \<Rightarrow> bool" where
  "isSeriesValueValid seriesValue = (case seriesValue of Cell _ \<Rightarrow> True | _ \<Rightarrow> False)"

definition cell_number :: "cell \<Rightarrow> rat" where
  "cell_number c = (case c of Cell v \<Rightarrow> v | _ \<Rightarrow> 0)"

definition is_shown :: "series \<Rightarrow> bool" where
  "is_shown s = (series_show s \<noteq> Some False)"

definition series_label :: "series \<Rightarrow> nat \<Rightarrow> string" where
  "series_label s index = str_or (label s) (''Series '' @ nat_digits index)"

definition resolveSeriesColor :: "bool \<Rightarrow> series \<Rightarrow> nat \<Rightarrow> string option" where
  "resolveSeriesColor isDarkMode s index =
     (case stroke s of Some color \<Rightarrow> Some color
      | None \<Rightarrow>
          (case fill s of Some color \<Rightarrow> Some color
           | None \<Rightarrow> generateColor (series_label s index)
               (if isDarkMode then chartcolors else lightModeColor)))"

text \<open>
  \<open>getPreferredSeriesIndex\<close>: the first loop takes the first focused series with a value; the second
  the closest to the mouse, the earlier one on ties. \<open>None\<close> of the distance is \<open>Infinity\<close>.
\<close>

definition is_candidate :: "uplot \<Rightarrow> int \<Rightarrow> nat \<Rightarrow> bool" where
  "is_candidate u timestampIndex i =
     (isSeriesValueValid (data_at u i timestampIndex) \<and> is_shown (all_series u ! i))"

definition pixel_diff :: "uplot \<Rightarrow> int \<Rightarrow> rat \<Rightarrow> nat \<Rightarrow> rat" where
  "pixel_diff u timestampIndex mouseTop i =
     \<bar>valToPos u (cell_number (data_at u i timestampIndex)) ''y'' - mouseTop\<bar>"

definition closest_step ::
  "uplot \<Rightarrow> int \<Rightarrow> rat \<Rightarrow> nat \<Rightarrow> (nat \<times> rat) option \<Rightarrow> (nat \<times> rat) option" where
  "closest_step u timestampIndex mouseTop i best =
     (if is_candidate u timestampIndex i then
        let diff = pixel_diff u timestampIndex mouseTop i
        in case best of None \<Rightarrow> Some (i, diff)
           | Some (_, closestPixelDiff) \<Rightarrow> if diff < closestPixelDiff then Some (i, diff) else best
      else best)"

definition getPreferredSeriesIndex :: "uplot \<Rightarrow> int \<Rightarrow> mouse_event \<Rightarrow> int" where
  "getPreferredSeriesIndex u timestampIndex e =
     (let mouseTop = clientY e - bb_top (over u);
          indexes = [1..<length (all_series u)]
      in case js_find (\<lambda>i. series_focus (all_series u ! i) = Some True \<and>
                            is_shown (all_series u ! i) \<and>
                            isSeriesValueValid (data_at u i timestampIndex)) indexes of
           Some i \<Rightarrow> int i
         | None \<Rightarrow>
             (case fold (closest_step u timestampIndex mouseTop) indexes None of
                Some (i, _) \<Rightarrow> int i
              | None \<Rightarrow> -1))"

record focused_series =
  seriesIndex :: nat
  seriesName :: string
  series_value :: rat
  color :: "string option"
  shown :: bool
  isFocused :: bool

definition getFocusedSeriesAtPosition :: "bool \<Rightarrow> mouse_event \<Rightarrow> uplot \<Rightarrow> focused_series option" where
  "getFocusedSeriesAtPosition isDarkMode e u =
     (let left = clientX e - bb_left (over u);
          timestampIndex = posToIdx u left;
          preferredIndex = getPreferredSeriesIndex u timestampIndex e
      in if 0 < preferredIndex then
           let i = nat preferredIndex; s = all_series u ! i; seriesValue = data_at u i timestampIndex
           in if isSeriesValueValid seriesValue
              then Some \<lparr>seriesIndex = i, seriesName = series_label s i,
                         series_value = cell_number seriesValue,
                         color = resolveSeriesColor isDarkMode s i,
                         shown = is_shown s, isFocused = True\<rparr>
              else None
         else None)"

subsection \<open>Lemmas\<close>

text \<open>The hash keeps the 32 bits of a word, and no product leaves the exact integers of a double.\<close>

definition word_step :: "char \<Rightarrow> 32 word \<Rightarrow> 32 word" where
  "word_step c w = (w * 33) XOR word_of_int (char_code c)"

lemma hash_step_word: "word_of_int (hash_step c h) = word_step c (word_of_int h)"
  by (simp add: hash_step_def js_xor_def word_step_def)

lemma hash_fold_word: "word_of_int (fold hash_step s h) = fold word_step s (word_of_int h)"
  by (induction s arbitrary: h) (simp_all add: hash_step_word)

lemma js_xor_bounds: "- (2 ^ 31) \<le> js_xor a b" "js_xor a b < 2 ^ 31"
  using sint_greater_eq [of "(word_of_int a :: 32 word) XOR word_of_int b"]
    sint_less [of "(word_of_int a :: 32 word) XOR word_of_int b"]
  by (simp_all add: js_xor_def)

lemma hash_fold_bounds:
  "- (2 ^ 31) \<le> h \<Longrightarrow> h < 2 ^ 31 \<Longrightarrow> - (2 ^ 31) \<le> fold hash_step s h \<and> fold hash_step s h < 2 ^ 31"
proof (induction s arbitrary: h)
  case (Cons c s)
  show ?case unfolding fold_simps by (rule Cons.IH) (simp_all only: hash_step_def js_xor_bounds)
qed simp

text \<open>
  The hash is the one of 32-bit words that wrap around: each product is below 2^53, so the
  double that JavaScript computes is the integer.
\<close>

theorem hash_agrees_with_words:
  "hashFn s = uint (fold word_step s (5381 :: 32 word)) \<and>
   (\<forall>n. \<bar>fold hash_step (take n s) 5381 * 33\<bar> < 2 ^ 53)"
proof
  show "hashFn s = uint (fold word_step s (5381 :: 32 word))"
    by (simp add: hashFn_def js_unsigned_def hash_fold_word)
  show "\<forall>n. \<bar>fold hash_step (take n s) 5381 * 33\<bar> < 2 ^ 53"
  proof
    fix n
    show "\<bar>fold hash_step (take n s) 5381 * 33\<bar> < 2 ^ 53"
      using hash_fold_bounds [of 5381 "take n s"] by (simp add: abs_if)
  qed
qed

lemma generateColor_some:
  assumes "colorMap \<noteq> []"
  shows "\<exists>c\<in>snd ` set colorMap. generateColor key colorMap = Some c"
proof -
  let ?i = "nat (hashFn key mod int (length colorMap))"
  have i: "?i < length colorMap"
    using assms by (simp add: nat_less_iff)
  then have "fst (colorMap ! ?i) \<in> fst ` set colorMap" by simp
  then obtain c where "map_of colorMap (fst (colorMap ! ?i)) = Some c"
    by (metis domD dom_map_of_conv_image_fst)
  moreover from this have "c \<in> snd ` set colorMap"
    by (metis image_eqI map_of_SomeD snd_conv)
  ultimately show ?thesis using assms i by (auto simp: generateColor_def Let_def)
qed

text \<open>The table for dark mode repeats colours: 117 names stand for 80 colours.\<close>

lemma chart_colours_repeat:
  "length chartcolors = 117 \<and> length (remdups (map snd chartcolors)) = 80"
  by code_simp

text \<open>
  Every series gets a colour: its own, or one of the table of the mode, chosen by its label.
\<close>

theorem every_series_coloured:
  "\<exists>c. resolveSeriesColor isDarkMode s index = Some c \<and>
     (stroke s = None \<and> fill s = None \<longrightarrow>
        c \<in> snd ` set (if isDarkMode then chartcolors else lightModeColor))"
proof -
  have "(if isDarkMode then chartcolors else lightModeColor) \<noteq> []"
    by (simp add: chartcolors_def lightModeColor_def)
  from generateColor_some [OF this, of "series_label s index"]
  obtain c where "c \<in> snd ` set (if isDarkMode then chartcolors else lightModeColor)"
    and "generateColor (series_label s index) (if isDarkMode then chartcolors else lightModeColor) = Some c"
    by blast
  then show ?thesis by (cases "stroke s"; cases "fill s") (simp_all add: resolveSeriesColor_def)
qed

text \<open>The scan for the closest series: what it holds after the indexes it has passed.\<close>

definition closest_of :: "uplot \<Rightarrow> int \<Rightarrow> rat \<Rightarrow> nat list \<Rightarrow> (nat \<times> rat) option \<Rightarrow> bool" where
  "closest_of u t y is best =
     (case best of None \<Rightarrow> \<forall>j\<in>set is. \<not> is_candidate u t j
      | Some (i, d) \<Rightarrow> i \<in> set is \<and> is_candidate u t i \<and> d = pixel_diff u t y i \<and>
          (\<forall>j\<in>set is. is_candidate u t j \<longrightarrow> d \<le> pixel_diff u t y j \<and> (j < i \<longrightarrow> d < pixel_diff u t y j)))"

lemma closest_step_of:
  assumes "closest_of u t y is best" and "\<forall>j\<in>set is. j < k"
  shows "closest_of u t y (is @ [k]) (closest_step u t y k best)"
  using assms
  by (cases best) (auto simp: closest_of_def closest_step_def Let_def not_less order.strict_implies_order
      split: if_splits; force)+

lemma closest_fold:
  "closest_of u t y [1..<n] (fold (closest_step u t y) [1..<n] None)"
proof (induction n)
  case 0
  show ?case by (simp add: closest_of_def)
next
  case (Suc n)
  show ?case
  proof (cases "1 \<le> n")
    case True
    then show ?thesis using closest_step_of [OF Suc.IH, of n] by simp
  qed (simp add: closest_of_def)
qed

lemma closest_fold_of:
  "fold (closest_step u t y) [1..<n] None = best \<Longrightarrow> closest_of u t y [1..<n] best"
  using closest_fold [of u t y n] by simp

definition preferred_focus :: "uplot \<Rightarrow> int \<Rightarrow> nat \<Rightarrow> bool" where
  "preferred_focus u t i = (series_focus (all_series u ! i) = Some True \<and> is_candidate u t i)"

lemma preferred_index_cases:
  "(case js_find (preferred_focus u t) [1..<length (all_series u)] of
      Some i \<Rightarrow> int i
    | None \<Rightarrow> (case fold (closest_step u t (clientY e - bb_top (over u))) [1..<length (all_series u)] None of
         Some (i, _) \<Rightarrow> int i | None \<Rightarrow> -1)) = getPreferredSeriesIndex u t e"
  unfolding getPreferredSeriesIndex_def Let_def
  by (intro arg_cong2 [where f = "\<lambda>f n. case js_find f _ of Some i \<Rightarrow> int i | None \<Rightarrow> n"])
     (auto simp: preferred_focus_def is_candidate_def fun_eq_iff)


lemma js_find_first:
  assumes "js_find p [m..<n] = Some i"
  shows "m \<le> i \<and> i < n \<and> p i \<and> (\<forall>j. m \<le> j \<longrightarrow> j < i \<longrightarrow> \<not> p j)"
  using assms
proof (induction "n - m" arbitrary: m)
  case (Suc k)
  then have "m < n" by simp
  then have eq: "[m..<n] = m # [Suc m..<n]" by (rule upt_conv_Cons)
  show ?case
  proof (cases "p m")
    case True
    with Suc.prems \<open>m < n\<close> show ?thesis by (auto simp: eq)
  next
    case False
    with Suc.prems have "js_find p [Suc m..<n] = Some i" by (simp add: eq)
    with Suc.hyps(1) [of "Suc m"] Suc.hyps(2) False show ?thesis
      by (metis Suc_le_eq diff_Suc_Suc diff_diff_left le_eq_less_or_eq Suc_leD One_nat_def add.commute diff_Suc_1 plus_1_eq_Suc)
  qed
qed simp

text \<open>What the preferred index stands for.\<close>

definition focus_or_closest :: "uplot \<Rightarrow> int \<Rightarrow> rat \<Rightarrow> nat \<Rightarrow> bool" where
  "focus_or_closest u t y i =
     (1 \<le> i \<and> i < length (all_series u) \<and> is_candidate u t i \<and>
      (\<forall>j. 1 \<le> j \<longrightarrow> j < length (all_series u) \<longrightarrow> is_candidate u t j \<longrightarrow>
         (if series_focus (all_series u ! i) = Some True
          then series_focus (all_series u ! j) = Some True \<longrightarrow> i \<le> j
          else series_focus (all_series u ! j) \<noteq> Some True \<and>
            pixel_diff u t y i \<le> pixel_diff u t y j \<and> (j < i \<longrightarrow> pixel_diff u t y i < pixel_diff u t y j))))"

lemma preferred_index:
  fixes u :: uplot and t :: int and e :: mouse_event
  defines "i \<equiv> getPreferredSeriesIndex u t e"
  shows "if 0 < i then focus_or_closest u t (clientY e - bb_top (over u)) (nat i)
    else \<forall>j. 1 \<le> j \<longrightarrow> j < length (all_series u) \<longrightarrow> \<not> is_candidate u t j"
proof (cases "js_find (preferred_focus u t) [1..<length (all_series u)]")
  case (Some k)
  from js_find_first [OF this] show ?thesis
    unfolding i_def preferred_index_cases [symmetric] Some option.case
    by (auto simp: focus_or_closest_def preferred_focus_def not_less)
next
  case None
  then have unfocused: "1 \<le> j \<Longrightarrow> j < length (all_series u) \<Longrightarrow> is_candidate u t j \<Longrightarrow>
      series_focus (all_series u ! j) \<noteq> Some True" for j
    by (auto simp: js_find_None preferred_focus_def)
  obtain best where best: "fold (closest_step u t (clientY e - bb_top (over u)))
      [1..<length (all_series u)] None = best" by simp
  from closest_fold_of [OF best] unfocused show ?thesis
    unfolding i_def preferred_index_cases [symmetric] best None option.case
    by (cases best) (auto simp: focus_or_closest_def closest_of_def)
qed

text \<open>
  The series found at the mouse is shown and has a value there. It is the first such series
  that uPlot focuses; without one it is the closest to the mouse, the earlier on ties. Nothing is
  found only where no series is shown with a value.
\<close>

theorem focused_series_closest:
  "case getFocusedSeriesAtPosition dark e u of
      None \<Rightarrow> \<not> (\<exists>j. 1 \<le> j \<and> j < length (all_series u) \<and>
        is_candidate u (posToIdx u (clientX e - bb_left (over u))) j)
    | Some r \<Rightarrow>
        focus_or_closest u (posToIdx u (clientX e - bb_left (over u))) (clientY e - bb_top (over u)) (seriesIndex r) \<and>
        data_at u (seriesIndex r) (posToIdx u (clientX e - bb_left (over u))) = Cell (series_value r)"
proof -
  let ?t = "posToIdx u (clientX e - bb_left (over u))"
  let ?i = "getPreferredSeriesIndex u ?t e"
  show ?thesis
  proof (cases "0 < ?i")
    case True
    with preferred_index [of u ?t e]
    have best: "focus_or_closest u ?t (clientY e - bb_top (over u)) (nat ?i)" by simp
    then have "is_candidate u ?t (nat ?i)" by (simp add: focus_or_closest_def)
    then obtain v where "data_at u (nat ?i) ?t = Cell v"
      by (auto simp: is_candidate_def isSeriesValueValid_def split: cell.splits)
    with True best show ?thesis
      by (simp add: getFocusedSeriesAtPosition_def Let_def isSeriesValueValid_def cell_number_def)
  next
    case False
    with preferred_index [of u ?t e]
    have "\<forall>j. 1 \<le> j \<longrightarrow> j < length (all_series u) \<longrightarrow> \<not> is_candidate u ?t j" by simp
    with False show ?thesis by (simp add: getFocusedSeriesAtPosition_def Let_def)
  qed
qed

end
