(* ===== verification/Tooltip.thy ===== *)
theory Tooltip
  imports Chart_Series
begin

text \<open>
  The tooltip of a chart, \<^verbatim>\<open>lib/uPlotV2/plugins/TooltipPlugin\<close>: \<^verbatim>\<open>types.ts\<close>, \<^verbatim>\<open>utils.ts\<close>,
  \<^verbatim>\<open>tooltipController.ts\<close> and the effect of \<^verbatim>\<open>TooltipPlugin.tsx\<close>, as a state machine. The hooks of
  uPlot, the listeners of the browser and the timers are its events; the state has the controller, the
  queues of callbacks and what React shows. One run of the effect is modelled, from its start to
  its cleanup. The effect runs again for another \<open>config\<close>: the state of React survives it, so that a run starts
  from any view and any container that the run before has left, its plot apart, which that cleanup has cleared. A click
  whose callback is still queued when its run ends belongs to the controller of that run, and the events here
  have no callback of an earlier run. The plot is the object of the last \<open>init\<close> hook; its serial number tells it from others.
\<close>

section \<open>Positions: \<open>utils.ts\<close>\<close>

definition TOOLTIP_OFFSET :: rat where
  "TOOLTIP_OFFSET = 10"

definition isPlotInViewport :: "bbox \<Rightarrow> rat \<Rightarrow> rat \<Rightarrow> bool" where
  "isPlotInViewport r windowWidth windowHeight =
     (bb_top r + bb_height r \<le> windowHeight \<and> 0 \<le> bb_top r \<and> 0 \<le> bb_left r \<and>
      bb_left r + bb_width r \<le> windowWidth)"

definition calculateVerticalOffset :: "rat \<Rightarrow> rat \<Rightarrow> rat \<Rightarrow> rat \<Rightarrow> rat" where
  "calculateVerticalOffset currentOffset y tooltipHeight windowHeight =
     (let height = tooltipHeight + TOOLTIP_OFFSET
      in if currentOffset \<noteq> 0 then
           (if y + height < windowHeight \<or> y - height < 0 then 0
            else if currentOffset \<noteq> - height then - height
            else currentOffset)
         else if windowHeight < y + height \<and> 0 \<le> y - height then - height
         else 0)"

definition calculateHorizontalOffset :: "rat \<Rightarrow> rat \<Rightarrow> rat \<Rightarrow> rat \<Rightarrow> rat" where
  "calculateHorizontalOffset currentOffset x tooltipWidth windowWidth =
     (let width = tooltipWidth + TOOLTIP_OFFSET
      in if currentOffset \<noteq> 0 then
           (if x + width < windowWidth \<or> x - width < 0 then 0
            else if currentOffset \<noteq> - width then - width
            else currentOffset)
         else if windowWidth < x + width \<and> 0 \<le> x - width then - width
         else 0)"

definition calculateTooltipOffset ::
  "rat \<Rightarrow> rat \<Rightarrow> rat \<Rightarrow> rat \<Rightarrow> rat \<Rightarrow> rat \<Rightarrow> rat \<Rightarrow> rat \<Rightarrow> rat \<times> rat" where
  "calculateTooltipOffset x y tooltipWidth tooltipHeight currentHorizontalOffset currentVerticalOffset
       windowWidth windowHeight =
     (calculateHorizontalOffset currentHorizontalOffset x tooltipWidth windowWidth,
      calculateVerticalOffset currentVerticalOffset y tooltipHeight windowHeight)"

text \<open>
  A number in a template string. Positions are multiples of a power of two, so that those of at most
  fifteen digits have the exact decimal that JavaScript prints; the rest is cut after 17 places.
\<close>

definition rat_text :: "rat \<Rightarrow> string" where
  "rat_text r = num_string (normal_dec \<lfloor>r * 10 ^ 17\<rfloor> (-17))"

definition buildTransform :: "rat \<Rightarrow> rat \<Rightarrow> rat \<Rightarrow> rat \<Rightarrow> string" where
  "buildTransform x y hOffset vOffset =
     (let translateX = x + (if hOffset = 0 then TOOLTIP_OFFSET else - TOOLTIP_OFFSET);
          translateY = y + (if vOffset = 0 then TOOLTIP_OFFSET else - TOOLTIP_OFFSET);
          reflectX = (if hOffset = 0 then [] else ''translateX(-100%)'');
          reflectY = (if vOffset = 0 then [] else ''translateY(-100%)'')
      in ''translateX('' @ rat_text translateX @ ''px) '' @ reflectX @ '' translateY('' @
         rat_text translateY @ ''px) '' @ reflectY)"


section \<open>State: \<open>types.ts\<close>\<close>

datatype CursorSyncMode = Crosshair | No_sync | Tooltip_sync

record plugin_config =
  canPinTooltip :: bool
  syncMode :: CursorSyncMode

record tooltip_style =
  transform :: string
  pointerEvents :: string

record click_data =
  xValue :: rat
  yValue :: rat
  focusedSeries :: "focused_series option"
  clickedDataTimestamp :: cell
  mouseX :: rat
  mouseY :: rat
  absoluteMouseX :: rat
  absoluteMouseY :: rat

record controller_state =
  the_plot :: "(nat \<times> uplot) option"
  hoverActive :: bool
  isAnySeriesActive :: bool
  pinned :: bool
  clickData :: "click_data option"
  ctl_style :: tooltip_style
  horizontalOffset :: rat
  verticalOffset :: rat
  seriesIndexes :: "nat option list"
  focusedSeriesIndex :: "nat option"
  cursorDrivenBySync :: bool
  plotWithinViewport :: bool
  windowWidth :: rat
  windowHeight :: rat
  pendingPinnedUpdate :: bool

text \<open>The arguments the caller's \<open>render\<close> gets stand for the node it makes of them.\<close>

record render_args =
  uPlotInstance :: nat
  dataIndexes :: "nat option list"
  arg_seriesIndex :: "nat option"
  arg_isPinned :: bool
  viaSync :: bool

record view_state =
  hasPlot :: bool
  view_style :: tooltip_style
  isHovering :: bool
  isPinned :: bool
  view_clickData :: "click_data option"
  contents :: "render_args option"

text \<open>
  The plugin and what it holds of the browser: \<open>frames\<close> and \<open>timeouts\<close> are the callbacks of
  \<open>performRender\<close> that the browser has queued, \<open>pin_timers\<close> counts the queued callbacks of a click,
  \<open>outside_listening\<close> is the pair of listeners on the document and \<open>over_listeners\<close> the plots that
  have the click handler; \<open>container\<close> is the transform of the DOM node while it is mounted.
\<close>

record tooltip =
  ctl :: controller_state
  shown_view :: view_state
  rafId :: "nat option"
  dismissTimeoutId :: "nat option"
  frames :: "nat list"
  timeouts :: "nat list"
  next_id :: nat
  pin_timers :: nat
  outside_listening :: bool
  over_listeners :: "nat list"
  layout :: "(rat \<times> rat) option"
  container :: "string option"
  inner_size :: "rat \<times> rat"
  mounted :: bool

abbreviation on_ctl :: "(controller_state \<Rightarrow> controller_state) \<Rightarrow> tooltip \<Rightarrow> tooltip" where
  "on_ctl f s \<equiv> s\<lparr>ctl := f (ctl s)\<rparr>"

section \<open>The controller: \<open>tooltipController.ts\<close>\<close>

definition WINDOW_OFFSET :: rat where
  "WINDOW_OFFSET = 16"

definition createInitialControllerState :: "rat \<times> rat \<Rightarrow> controller_state" where
  "createInitialControllerState inner =
     \<lparr>the_plot = None, hoverActive = False, isAnySeriesActive = False, pinned = False, clickData = None,
      ctl_style = \<lparr>transform = [], pointerEvents = ''none''\<rparr>, horizontalOffset = 0, verticalOffset = 0,
      seriesIndexes = [], focusedSeriesIndex = None, cursorDrivenBySync = False,
      plotWithinViewport = False, windowWidth = fst inner - WINDOW_OFFSET,
      windowHeight = snd inner - WINDOW_OFFSET, pendingPinnedUpdate = False\<rparr>"

definition updateWindowSize :: "rat \<times> rat \<Rightarrow> controller_state \<Rightarrow> controller_state" where
  "updateWindowSize inner c =
     (let c = (if hoverActive c \<and> \<not> pinned c then c\<lparr>hoverActive := False\<rparr> else c)
      in c\<lparr>windowWidth := fst inner - WINDOW_OFFSET, windowHeight := snd inner - WINDOW_OFFSET\<rparr>)"

definition updatePlotVisibility :: "controller_state \<Rightarrow> controller_state" where
  "updatePlotVisibility c =
     (case the_plot c of
        None \<Rightarrow> c\<lparr>plotWithinViewport := False\<rparr>
      | Some (_, u) \<Rightarrow> c\<lparr>plotWithinViewport := isPlotInViewport (rect u) (windowWidth c) (windowHeight c)\<rparr>)"

definition isScrollEventInPlot :: "bool \<Rightarrow> controller_state \<Rightarrow> bool" where
  "isScrollEventInPlot contains_root c = (the_plot c \<noteq> None \<and> contains_root)"

definition shouldShowTooltipForSync :: "bool \<Rightarrow> controller_state \<Rightarrow> bool" where
  "shouldShowTooltipForSync syncTooltipAcrossCharts c =
     (plotWithinViewport c \<and> isAnySeriesActive c \<and> syncTooltipAcrossCharts)"

definition shouldShowTooltipForInteraction :: "controller_state \<Rightarrow> bool" where
  "shouldShowTooltipForInteraction c = (focusedSeriesIndex c \<noteq> None)"

definition updateHoverState :: "bool \<Rightarrow> controller_state \<Rightarrow> controller_state" where
  "updateHoverState syncTooltipAcrossCharts c =
     c\<lparr>hoverActive :=
         (if cursorDrivenBySync c then shouldShowTooltipForSync syncTooltipAcrossCharts c
          else shouldShowTooltipForInteraction c)\<rparr>"

section \<open>Rendering: \<open>TooltipPlugin.tsx\<close>\<close>

definition createInitialViewState :: view_state where
  "createInitialViewState =
     \<lparr>hasPlot = False, view_style = \<lparr>transform = [], pointerEvents = ''none''\<rparr>, isHovering = False,
      isPinned = False, view_clickData = None, contents = None\<rparr>"

definition cancelPendingRender :: "tooltip \<Rightarrow> tooltip" where
  "cancelPendingRender s =
     (let s = (case rafId s of None \<Rightarrow> s
               | Some i \<Rightarrow> s\<lparr>frames := removeAll i (frames s), rafId := None\<rparr>)
      in case dismissTimeoutId s of None \<Rightarrow> s
         | Some i \<Rightarrow> s\<lparr>timeouts := removeAll i (timeouts s), dismissTimeoutId := None\<rparr>)"

definition scheduleRender :: "bool \<Rightarrow> tooltip \<Rightarrow> tooltip" where
  "scheduleRender updatePinned s =
     (let s = cancelPendingRender s; i = next_id s; s = s\<lparr>next_id := Suc i\<rparr>;
          s = (if hoverActive (ctl s) then s\<lparr>frames := frames s @ [i], rafId := Some i\<rparr>
               else s\<lparr>timeouts := timeouts s @ [i], dismissTimeoutId := Some i\<rparr>)
      in if updatePinned then on_ctl (\<lambda>c. c\<lparr>pendingPinnedUpdate := True\<rparr>) s else s)"

definition updatePointerEvents :: "controller_state \<Rightarrow> controller_state" where
  "updatePointerEvents c =
     c\<lparr>ctl_style := (ctl_style c)\<lparr>pointerEvents := (if pinned c then ''all'' else ''none'')\<rparr>\<rparr>"

definition updateCursorLock :: "controller_state \<Rightarrow> controller_state" where
  "updateCursorLock c =
     (case the_plot c of None \<Rightarrow> c | Some (k, u) \<Rightarrow> c\<lparr>the_plot := Some (k, u\<lparr>cursor_lock := pinned c\<rparr>)\<rparr>)"

definition toggleOutsideListeners :: "bool \<Rightarrow> tooltip \<Rightarrow> tooltip" where
  "toggleOutsideListeners enable s = s\<lparr>outside_listening := enable\<rparr>"

definition applyPinnedSideEffects :: "tooltip \<Rightarrow> tooltip" where
  "applyPinnedSideEffects s =
     (let s = on_ctl updatePointerEvents s; s = on_ctl updateCursorLock s
      in toggleOutsideListeners (pinned (ctl s)) s)"

definition createTooltipContents :: "controller_state \<Rightarrow> render_args option" where
  "createTooltipContents c =
     (case the_plot c of
        None \<Rightarrow> None
      | Some (k, _) \<Rightarrow>
          if hoverActive c
          then Some \<lparr>uPlotInstance = k, dataIndexes = seriesIndexes c, arg_seriesIndex = focusedSeriesIndex c,
                     arg_isPinned = pinned c, viaSync = cursorDrivenBySync c\<rparr>
          else None)"

definition performRender :: "tooltip \<Rightarrow> tooltip" where
  "performRender s =
     (let s = s\<lparr>rafId := None, dismissTimeoutId := None\<rparr>;
          s = (if pendingPinnedUpdate (ctl s)
               then on_ctl (\<lambda>c. c\<lparr>pendingPinnedUpdate := False\<rparr>) (applyPinnedSideEffects s) else s);
          c = ctl s
      in s\<lparr>shown_view := (shown_view s)\<lparr>view_style := ctl_style c, isPinned := pinned c,
             isHovering := hoverActive c, view_clickData := clickData c,
             contents := createTooltipContents c\<rparr>\<rparr>)"

section \<open>Hooks of uPlot and handlers of the browser\<close>

text \<open>
  A hook gets the plot as it is at that moment. The lock of its cursor is written by the plugin alone.
\<close>

definition see_plot :: "uplot \<Rightarrow> controller_state \<Rightarrow> controller_state" where
  "see_plot u c =
     (case the_plot c of None \<Rightarrow> c | Some (k, p) \<Rightarrow> c\<lparr>the_plot := Some (k, u\<lparr>cursor_lock := cursor_lock p\<rparr>)\<rparr>)"

definition createSetCursorHandler :: "uplot \<Rightarrow> tooltip \<Rightarrow> tooltip" where
  "createSetCursorHandler u s0 =
     (let s = on_ctl (\<lambda>c. c\<lparr>cursorDrivenBySync := \<not> cursor_event u\<rparr>) s0
      in if \<not> hoverActive (ctl s) then s
         else
           let left = (case cursor_left u of Some x \<Rightarrow> x | None \<Rightarrow> -10);
               ctop = (case cursor_top u of Some x \<Rightarrow> x | None \<Rightarrow> -10)
           in if left < 0 \<and> ctop < 0 then s
              else
                let x = bb_left (rect u) + left; y = bb_top (rect u) + ctop
                in case layout s of
                     None \<Rightarrow> s
                   | Some (layoutWidth, layoutHeight) \<Rightarrow>
                       let c = ctl s;
                           offsets = calculateTooltipOffset x y layoutWidth layoutHeight
                             (horizontalOffset c) (verticalOffset c) (windowWidth c) (windowHeight c);
                           s = on_ctl (\<lambda>c. c\<lparr>horizontalOffset := fst offsets,
                                 verticalOffset := snd offsets\<rparr>) s;
                           tr = buildTransform x y (fst offsets) (snd offsets)
                       in case container s of
                            Some _ \<Rightarrow> s\<lparr>container := Some tr\<rparr>
                          | None \<Rightarrow> scheduleRender False
                              (on_ctl (\<lambda>c. c\<lparr>ctl_style := (ctl_style c)\<lparr>transform := tr\<rparr>\<rparr>) s))"

definition createSetLegendHandler :: "bool \<Rightarrow> uplot \<Rightarrow> tooltip \<Rightarrow> tooltip" where
  "createSetLegendHandler syncTooltipAcrossCharts u s =
     (case the_plot (ctl s) of
        None \<Rightarrow> s
      | Some (_, p) \<Rightarrow>
          (case cursor_idxs p of
             None \<Rightarrow> s
           | Some newSeriesIndexes \<Rightarrow>
               let old = ctl s;
                   c = updateHoverState syncTooltipAcrossCharts
                     (old\<lparr>seriesIndexes := newSeriesIndexes,
                          isAnySeriesActive := list_ex (\<lambda>v. v \<noteq> None) (drop 1 newSeriesIndexes),
                          cursorDrivenBySync := \<not> cursor_event u\<rparr>);
                   s = s\<lparr>ctl := c\<rparr>
               in if seriesIndexes old \<noteq> newSeriesIndexes \<or> hoverActive c \<noteq> hoverActive old \<or>
                     cursorDrivenBySync c \<noteq> cursorDrivenBySync old
                  then scheduleRender False s else s))"

definition createSetSeriesHandler :: "bool \<Rightarrow> uplot \<Rightarrow> nat option \<Rightarrow> bool \<Rightarrow> tooltip \<Rightarrow> tooltip" where
  "createSetSeriesHandler syncTooltipAcrossCharts u seriesIdx focus_in_opts s =
     (if \<not> focus_in_opts then s
      else scheduleRender False
        (on_ctl (\<lambda>c. updateHoverState syncTooltipAcrossCharts
            (c\<lparr>focusedSeriesIndex := seriesIdx, cursorDrivenBySync := \<not> cursor_event u\<rparr>)) s))"

text \<open>
  \<open>plot.setCursor\<close> runs hooks of uPlot before it returns; which ones is up to uPlot.
\<close>

datatype hook =
    Hook_setCursor uplot
  | Hook_setLegend uplot
  | Hook_setSeries uplot "nat option" bool

definition syncs_tooltip :: "plugin_config \<Rightarrow> bool" where
  "syncs_tooltip cfg = (syncMode cfg = Tooltip_sync)"

definition run_hook :: "plugin_config \<Rightarrow> hook \<Rightarrow> tooltip \<Rightarrow> tooltip" where
  "run_hook cfg h s =
     (case h of
        Hook_setCursor u \<Rightarrow> createSetCursorHandler u (on_ctl (see_plot u) s)
      | Hook_setLegend u \<Rightarrow> createSetLegendHandler (syncs_tooltip cfg) u (on_ctl (see_plot u) s)
      | Hook_setSeries u i f \<Rightarrow> createSetSeriesHandler (syncs_tooltip cfg) u i f (on_ctl (see_plot u) s))"

definition dismissTooltip :: "plugin_config \<Rightarrow> hook list \<Rightarrow> tooltip \<Rightarrow> tooltip" where
  "dismissTooltip cfg fired s =
     (let isPinnedBeforeDismiss = pinned (ctl s);
          s = on_ctl (\<lambda>c. c\<lparr>pinned := False, hoverActive := False, clickData := None\<rparr>) s;
          s = (if the_plot (ctl s) \<noteq> None then fold (run_hook cfg) fired s else s)
      in scheduleRender isPinnedBeforeDismiss s)"

definition onOutsideInteraction :: "plugin_config \<Rightarrow> bool \<Rightarrow> hook list \<Rightarrow> tooltip \<Rightarrow> tooltip" where
  "onOutsideInteraction cfg inside_container fired s =
     (if \<not> inside_container then dismissTooltip cfg fired s else s)"

definition handleWindowResize :: "rat \<times> rat \<Rightarrow> tooltip \<Rightarrow> tooltip" where
  "handleWindowResize inner s = on_ctl (updateWindowSize inner) (s\<lparr>inner_size := inner\<rparr>)"

definition handleScroll :: "plugin_config \<Rightarrow> bool \<Rightarrow> hook list \<Rightarrow> tooltip \<Rightarrow> tooltip" where
  "handleScroll cfg contains_root fired s =
     (let s = on_ctl updatePlotVisibility s
      in if hoverActive (ctl s) \<and> isScrollEventInPlot contains_root (ctl s)
         then dismissTooltip cfg fired s else s)"

definition click_timestamp :: "uplot \<Rightarrow> mouse_event \<Rightarrow> cell" where
  "click_timestamp u e =
     (let dataIndex = posToIdx u (offsetX e)
      in case plot_data u of
           [] \<Rightarrow> Cell (posToVal u (offsetX e) ''x'')
         | xSeriesData # _ \<Rightarrow>
             if 0 \<le> dataIndex \<and> dataIndex < int (length xSeriesData) \<and>
                cell_at xSeriesData dataIndex \<noteq> Cell_Undefined
             then cell_at xSeriesData dataIndex
             else Cell (posToVal u (offsetX e) ''x''))"

definition handleUPlotOverClick :: "bool \<Rightarrow> nat \<Rightarrow> mouse_event \<Rightarrow> tooltip \<Rightarrow> tooltip" where
  "handleUPlotOverClick isDarkMode target e s =
     (case the_plot (ctl s) of
        None \<Rightarrow> s
      | Some (k, u) \<Rightarrow>
          if target = k \<and> hoverActive (ctl s) \<and> \<not> pinned (ctl s) \<and> focusedSeriesIndex (ctl s) \<noteq> None
          then
            let x = posToVal u (offsetX e) ''x''; y = posToVal u (offsetY e) ''y'';
                focused = getFocusedSeriesAtPosition isDarkMode e u;
                data = \<lparr>xValue = x, yValue = y, focusedSeries = focused,
                        clickedDataTimestamp = (if focused = None then Cell x else click_timestamp u e),
                        mouseX = offsetX e, mouseY = offsetY e, absoluteMouseX = clientX e,
                        absoluteMouseY = clientY e\<rparr>
            in (on_ctl (\<lambda>c. c\<lparr>clickData := Some data\<rparr>) s)\<lparr>pin_timers := Suc (pin_timers s)\<rparr>
          else s)"

text \<open>The callback that the click leaves to \<open>setTimeout(..., 0)\<close>.\<close>

definition pin_callback :: "tooltip \<Rightarrow> tooltip" where
  "pin_callback s = scheduleRender True (on_ctl (\<lambda>c. c\<lparr>pinned := True\<rparr>) s)"

definition handleInit :: "plugin_config \<Rightarrow> nat \<Rightarrow> uplot \<Rightarrow> tooltip \<Rightarrow> tooltip" where
  "handleInit cfg k u s =
     (let s = on_ctl (\<lambda>c. c\<lparr>the_plot := Some (k, u)\<rparr>) s;
          s = s\<lparr>shown_view := (shown_view s)\<lparr>hasPlot := True\<rparr>\<rparr>
      in if canPinTooltip cfg then s\<lparr>over_listeners := over_listeners s @ [k]\<rparr> else s)"

definition handleSetData :: "plugin_config \<Rightarrow> hook list \<Rightarrow> tooltip \<Rightarrow> tooltip" where
  "handleSetData cfg fired s = (if pinned (ctl s) then dismissTooltip cfg fired s else s)"

text \<open>
  The start of the effect and its cleanup. The controller is new; the state of React and the DOM node
  are those of the component, which at its first run are \<open>createInitialViewState\<close> and none.
\<close>

definition start_effect :: "rat \<times> rat \<Rightarrow> view_state \<Rightarrow> string option \<Rightarrow> tooltip" where
  "start_effect inner viewState node =
     handleWindowResize inner
       \<lparr>ctl = createInitialControllerState inner, shown_view = viewState\<lparr>hasPlot := False\<rparr>, rafId = None,
        dismissTimeoutId = None, frames = [], timeouts = [], next_id = 1, pin_timers = 0,
        outside_listening = False, over_listeners = [], layout = Some (0, 0), container = node,
        inner_size = inner, mounted = True\<rparr>"

abbreviation first_start :: "rat \<times> rat \<Rightarrow> tooltip" where
  "first_start inner \<equiv> start_effect inner createInitialViewState None"

definition clearPlotReferences :: "tooltip \<Rightarrow> tooltip" where
  "clearPlotReferences s =
     (on_ctl (\<lambda>c. c\<lparr>the_plot := None\<rparr>) s)\<lparr>shown_view := (shown_view s)\<lparr>hasPlot := False\<rparr>\<rparr>"

definition cleanup :: "tooltip \<Rightarrow> tooltip" where
  "cleanup s =
     (let s = cancelPendingRender (s\<lparr>outside_listening := False\<rparr>);
          s = s\<lparr>mounted := False\<rparr>;
          s = (case the_plot (ctl s) of None \<Rightarrow> s
               | Some (k, _) \<Rightarrow> s\<lparr>over_listeners := removeAll k (over_listeners s)\<rparr>)
      in clearPlotReferences s)"

text \<open>What the observer of the container reports: the size of its last entry.\<close>

definition createLayoutObserver_callback :: "(rat \<times> rat) list \<Rightarrow> (rat \<times> rat) option \<Rightarrow> (rat \<times> rat) option" where
  "createLayoutObserver_callback entries current =
     (case current of None \<Rightarrow> None | Some _ \<Rightarrow> fold (\<lambda>entry _. Some entry) entries current)"

text \<open>The layout effect: the size of the container, zero while it is not mounted.\<close>

definition measure_layout :: "(rat \<times> rat) option \<Rightarrow> tooltip \<Rightarrow> tooltip" where
  "measure_layout bounding_rect s =
     (if \<not> hasPlot (shown_view s) \<or> layout s = None then s
      else s\<lparr>layout := Some (case bounding_rect of Some wh \<Rightarrow> wh | None \<Rightarrow> (0, 0))\<rparr>)"

text \<open>The body of the tooltip and whether it is visible.\<close>

datatype tooltip_body = Pinned_element click_data | Hover_contents render_args

definition tooltipBody :: "bool \<Rightarrow> view_state \<Rightarrow> tooltip_body option" where
  "tooltipBody has_pinned_element v =
     (case view_clickData v of
        Some d \<Rightarrow> if isPinned v \<and> has_pinned_element then Some (Pinned_element d)
          else if isHovering v then map_option Hover_contents (contents v) else None
      | None \<Rightarrow> if isHovering v then map_option Hover_contents (contents v) else None)"

definition isTooltipVisible :: "bool \<Rightarrow> view_state \<Rightarrow> bool" where
  "isTooltipVisible has_pinned_element v = (isHovering v \<or> tooltipBody has_pinned_element v \<noteq> None)"

section \<open>Steps\<close>

text \<open>
  An event is possible when its handler is registered or its callback is queued. A new plot
  is not locked.
\<close>

datatype event =
    Init nat uplot
  | Ready uplot
  | Set_data uplot "hook list"
  | Plot_hook hook
  | Resize "rat \<times> rat"
  | Scroll uplot bool "hook list"
  | Over_click bool nat mouse_event uplot
  | Outside bool "hook list"
  | Frame nat
  | Timeout nat
  | Pin_timer
  | Observe "(rat \<times> rat) list"
  | Measure "(rat \<times> rat) option"
  | Commit "string option"
  | Unmount

inductive tooltip_step :: "plugin_config \<Rightarrow> tooltip \<Rightarrow> event \<Rightarrow> tooltip \<Rightarrow> bool" for cfg where
  step_init: "mounted s \<Longrightarrow> \<not> cursor_lock u \<Longrightarrow>
    tooltip_step cfg s (Init k u) (handleInit cfg k u s)"
| step_ready: "mounted s \<Longrightarrow>
    tooltip_step cfg s (Ready u) (on_ctl (\<lambda>c. updatePlotVisibility (see_plot u c)) s)"
| step_data: "mounted s \<Longrightarrow>
    tooltip_step cfg s (Set_data u fired) (handleSetData cfg fired (on_ctl (see_plot u) s))"
| step_hook: "mounted s \<Longrightarrow> tooltip_step cfg s (Plot_hook h) (run_hook cfg h s)"
| step_resize: "mounted s \<Longrightarrow> tooltip_step cfg s (Resize inner) (handleWindowResize inner s)"
| step_scroll: "mounted s \<Longrightarrow>
    tooltip_step cfg s (Scroll u contains_root fired)
      (handleScroll cfg contains_root fired (on_ctl (see_plot u) s))"
| step_click: "target \<in> set (over_listeners s) \<Longrightarrow>
    tooltip_step cfg s (Over_click isDarkMode target e u)
      (handleUPlotOverClick isDarkMode target e (on_ctl (see_plot u) s))"
| step_outside: "outside_listening s \<Longrightarrow>
    tooltip_step cfg s (Outside inside_container fired) (onOutsideInteraction cfg inside_container fired s)"
| step_frame: "i \<in> set (frames s) \<Longrightarrow>
    tooltip_step cfg s (Frame i) (performRender (s\<lparr>frames := removeAll i (frames s)\<rparr>))"
| step_timeout: "i \<in> set (timeouts s) \<Longrightarrow>
    tooltip_step cfg s (Timeout i) (performRender (s\<lparr>timeouts := removeAll i (timeouts s)\<rparr>))"
| step_pin: "pin_timers s = Suc n \<Longrightarrow>
    tooltip_step cfg s Pin_timer (pin_callback (s\<lparr>pin_timers := n\<rparr>))"
| step_observe: "tooltip_step cfg s (Observe entries)
    (s\<lparr>layout := createLayoutObserver_callback entries (layout s)\<rparr>)"
| step_measure: "tooltip_step cfg s (Measure bounds) (measure_layout bounds s)"
| step_commit: "tooltip_step cfg s (Commit node) (s\<lparr>container := node\<rparr>)"
| step_unmount: "mounted s \<Longrightarrow> tooltip_step cfg s Unmount (cleanup s)"

inductive tooltip_steps :: "plugin_config \<Rightarrow> tooltip \<Rightarrow> event list \<Rightarrow> tooltip \<Rightarrow> bool" for cfg where
  no_steps: "tooltip_steps cfg s [] s"
| more_steps: "tooltip_step cfg s e t \<Longrightarrow> tooltip_steps cfg t es r \<Longrightarrow> tooltip_steps cfg s (e # es) r"

text \<open>The states of any run of the effect, the first or a later one.\<close>

definition reachable :: "plugin_config \<Rightarrow> tooltip \<Rightarrow> bool" where
  "reachable cfg s = (\<exists>inner view node es. tooltip_steps cfg (start_effect inner view node) es s)"

text \<open>
  The two events that change what is shown without a render: a new plot under a tooltip, and a resize of
  the window under one that hovers.
\<close>

fun disturbs :: "tooltip \<Rightarrow> event \<Rightarrow> bool" where
  "disturbs s (Init k u) = (hoverActive (ctl s) \<or> pinned (ctl s))"
| "disturbs s (Resize inner) = (hoverActive (ctl s) \<and> \<not> pinned (ctl s))"
| "disturbs s e = False"

fun renders :: "event \<Rightarrow> bool" where
  "renders (Frame i) = True"
| "renders (Timeout i) = True"
| "renders e = False"

text \<open>
  The states of the runs without them. The flag tells that the view is one of this run: at once in the
  first run of the component, after the first render in a later one.
\<close>

inductive undisturbed :: "plugin_config \<Rightarrow> bool \<Rightarrow> tooltip \<Rightarrow> bool" for cfg where
  first_run: "undisturbed cfg True (first_start inner)"
| later_run: "undisturbed cfg False (start_effect inner view node)"
| undisturbed_step: "undisturbed cfg b s \<Longrightarrow> tooltip_step cfg s e t \<Longrightarrow> \<not> disturbs s e \<Longrightarrow>
    undisturbed cfg (b \<or> renders e) t"

declare tooltip_step.intros [intro] tooltip_steps.intros [intro]

inductive_cases steps_NilE: "tooltip_steps cfg s [] t"
inductive_cases steps_ConsE: "tooltip_steps cfg s (e # es) t"
inductive_simps steps_simps: "tooltip_steps cfg s [] t" "tooltip_steps cfg s (e # es) t"
inductive_simps step_frame_iff: "tooltip_step cfg s (Frame i) t"
inductive_simps step_timeout_iff: "tooltip_step cfg s (Timeout i) t"
inductive_simps step_outside_iff: "tooltip_step cfg s (Outside b fired) t"
inductive_simps step_pin_iff: "tooltip_step cfg s Pin_timer t"
inductive_simps step_click_iff: "tooltip_step cfg s (Over_click d k e u) t"

section \<open>The invariant\<close>

definition render_pending :: "tooltip \<Rightarrow> bool" where
  "render_pending s = (rafId s \<noteq> None \<or> dismissTimeoutId s \<noteq> None)"

text \<open>The queues hold the callback whose id is kept, and there is at most one.\<close>

definition one_render :: "tooltip \<Rightarrow> bool" where
  "one_render s =
     ((case rafId s of None \<Rightarrow> frames s = [] | Some i \<Rightarrow> frames s = [i]) \<and>
      (case dismissTimeoutId s of None \<Rightarrow> timeouts s = [] | Some i \<Rightarrow> timeouts s = [i]) \<and>
      (rafId s = None \<or> dismissTimeoutId s = None))"

text \<open>
  The effects of being pinned: listeners, pointer events and the lock of the cursor. The weaker form
  allows a cursor that is not locked under a pinned tooltip, as that of a new plot is.
\<close>

definition effects_applied :: "tooltip \<Rightarrow> bool" where
  "effects_applied s =
     (outside_listening s = pinned (ctl s) \<and>
      pointerEvents (ctl_style (ctl s)) = (if pinned (ctl s) then ''all'' else ''none'') \<and>
      (case the_plot (ctl s) of None \<Rightarrow> True | Some (_, u) \<Rightarrow> cursor_lock u = pinned (ctl s)))"

definition effects_sound :: "tooltip \<Rightarrow> bool" where
  "effects_sound s =
     (outside_listening s = pinned (ctl s) \<and>
      pointerEvents (ctl_style (ctl s)) = (if pinned (ctl s) then ''all'' else ''none'') \<and>
      (case the_plot (ctl s) of None \<Rightarrow> True | Some (_, u) \<Rightarrow> cursor_lock u \<longrightarrow> pinned (ctl s)))"

text \<open>
  What React shows is what the controller has: the pin, the hover, the style, the data of the click once its
  callback has run, and contents that are there exactly when a plot is hovered, rendered for that plot and for the indexes,
  the series and the pin that the controller has. Nothing is said of \<open>viaSync\<close>, which may be older: \<open>setCursor\<close>
  changes \<open>cursorDrivenBySync\<close> and asks for no render.
\<close>

definition contents_current :: "controller_state \<Rightarrow> render_args option \<Rightarrow> bool" where
  "contents_current c node =
     (case node of
        None \<Rightarrow> \<not> hoverActive c \<or> the_plot c = None
      | Some a \<Rightarrow> hoverActive c \<and> map_option fst (the_plot c) = Some (uPlotInstance a) \<and>
          dataIndexes a = seriesIndexes c \<and> arg_seriesIndex a = focusedSeriesIndex c \<and> arg_isPinned a = pinned c)"

definition view_current :: "tooltip \<Rightarrow> bool" where
  "view_current s =
     (isPinned (shown_view s) = pinned (ctl s) \<and> view_style (shown_view s) = ctl_style (ctl s) \<and>
      isHovering (shown_view s) = hoverActive (ctl s) \<and>
      (pin_timers s = 0 \<longrightarrow> view_clickData (shown_view s) = clickData (ctl s)) \<and>
      contents_current (ctl s) (contents (shown_view s)))"

text \<open>
  What holds in every run; and what holds besides in a run that nothing disturbs, where \<open>rendered\<close> tells
  whether the view is one of this run.
\<close>

definition tooltip_inv :: "tooltip \<Rightarrow> bool" where
  "tooltip_inv s =
     (one_render s \<and>
      (mounted s \<longrightarrow> (if pendingPinnedUpdate (ctl s) then render_pending s else effects_sound s)))"

definition shown_inv :: "bool \<Rightarrow> tooltip \<Rightarrow> bool" where
  "shown_inv rendered s =
     (mounted s \<longrightarrow>
       (pendingPinnedUpdate (ctl s) \<or> effects_applied s) \<and>
       (rendered \<and> \<not> render_pending s \<longrightarrow> view_current s))"

lemmas tooltip_inv_defs = tooltip_inv_def one_render_def effects_sound_def render_pending_def

lemmas shown_inv_defs = shown_inv_def effects_applied_def view_current_def render_pending_def contents_current_def

text \<open>Scheduling: whatever was pending, one render is pending afterwards.\<close>

lemma schedule_pending [simp]: "render_pending (scheduleRender b s)"
  by (simp add: render_pending_def scheduleRender_def Let_def)

lemma schedule_one: "one_render s \<Longrightarrow> one_render (scheduleRender b s) \<and> render_pending (scheduleRender b s)"
  by (auto simp: one_render_def render_pending_def scheduleRender_def cancelPendingRender_def Let_def
      split: option.splits)

lemma schedule_frame [simp]:
  "mounted (scheduleRender b s) = mounted s"
  "effects_sound (scheduleRender b s) = effects_sound s"
  "effects_applied (scheduleRender b s) = effects_applied s"
  "ctl (scheduleRender b s) = (if b then (ctl s)\<lparr>pendingPinnedUpdate := True\<rparr> else ctl s)"
  "shown_view (scheduleRender b s) = shown_view s"
  "outside_listening (scheduleRender b s) = outside_listening s"
  "pin_timers (scheduleRender b s) = pin_timers s"
  by (auto simp: effects_sound_def effects_applied_def scheduleRender_def cancelPendingRender_def Let_def
      split: option.splits)

lemma inv_schedule:
  assumes "one_render s" and "mounted s \<Longrightarrow> b \<or> pendingPinnedUpdate (ctl s) \<or> effects_sound s"
  shows "tooltip_inv (scheduleRender b s)"
  using schedule_one [OF assms(1), of b] assms(2) by (auto simp: tooltip_inv_def)

lemma shown_schedule:
  "(mounted s \<Longrightarrow> b \<or> pendingPinnedUpdate (ctl s) \<or> effects_applied s) \<Longrightarrow> shown_inv r (scheduleRender b s)"
  by (auto simp: shown_inv_def)

text \<open>What a hook leaves alone.\<close>

lemma see_plot_fields [simp]:
  "hoverActive (see_plot u c) = hoverActive c" "pinned (see_plot u c) = pinned c"
  "clickData (see_plot u c) = clickData c" "ctl_style (see_plot u c) = ctl_style c"
  "pendingPinnedUpdate (see_plot u c) = pendingPinnedUpdate c"
  "the_plot (see_plot u c) = None \<longleftrightarrow> the_plot c = None"
  by (auto simp: see_plot_def split: option.splits)

lemma effects_see_plot [simp]:
  "effects_sound (on_ctl (see_plot u) s) = effects_sound s"
  "effects_applied (on_ctl (see_plot u) s) = effects_applied s"
  by (cases "the_plot (ctl s)", auto simp: effects_sound_def effects_applied_def see_plot_def)+

lemma contents_same:
  assumes "hoverActive c = hoverActive d" "map_option fst (the_plot c) = map_option fst (the_plot d)"
    "seriesIndexes c = seriesIndexes d" "focusedSeriesIndex c = focusedSeriesIndex d" "pinned c = pinned d"
  shows "contents_current c = contents_current d"
  using assms by (cases "the_plot c"; cases "the_plot d") (auto simp: contents_current_def fun_eq_iff split: option.split)

lemma contents_see_plot [simp]: "contents_current (see_plot u c) = contents_current c"
  by (rule contents_same) (auto simp: see_plot_def split: option.splits)

lemma contents_created: "contents_current c (createTooltipContents c)"
  by (auto simp: contents_current_def createTooltipContents_def split: option.split)

lemma one_render_ctl [simp]: "one_render (s\<lparr>ctl := c\<rparr>) = one_render s"
  by (simp add: one_render_def split: option.split)

lemma render_pending_ctl [simp]: "render_pending (s\<lparr>ctl := c\<rparr>) = render_pending s"
  by (simp add: render_pending_def)

lemma hover_fields [simp]:
  "pinned (updateHoverState b c) = pinned c" "clickData (updateHoverState b c) = clickData c"
  "ctl_style (updateHoverState b c) = ctl_style c" "the_plot (updateHoverState b c) = the_plot c"
  "pendingPinnedUpdate (updateHoverState b c) = pendingPinnedUpdate c"
  "seriesIndexes (updateHoverState b c) = seriesIndexes c"
  "focusedSeriesIndex (updateHoverState b c) = focusedSeriesIndex c"
  by (simp_all add: updateHoverState_def)

lemma inv_see_plot: "tooltip_inv s \<Longrightarrow> tooltip_inv (on_ctl (see_plot u) s)"
  by (simp add: tooltip_inv_def)

lemma shown_see_plot: "shown_inv r s \<Longrightarrow> shown_inv r (on_ctl (see_plot u) s)"
  by (simp add: shown_inv_def view_current_def)

lemma effects_same:
  assumes "pinned c = pinned (ctl s)" "ctl_style c = (ctl_style (ctl s))\<lparr>transform := tr\<rparr>"
    "the_plot c = the_plot (ctl s)"
  shows "effects_sound (s\<lparr>ctl := c\<rparr>) = effects_sound s" "effects_applied (s\<lparr>ctl := c\<rparr>) = effects_applied s"
  using assms by (auto simp: effects_sound_def effects_applied_def split: option.splits)

lemma effects_same_style:
  assumes "pinned c = pinned (ctl s)" "ctl_style c = ctl_style (ctl s)" "the_plot c = the_plot (ctl s)"
  shows "effects_sound (s\<lparr>ctl := c\<rparr>) = effects_sound s" "effects_applied (s\<lparr>ctl := c\<rparr>) = effects_applied s"
  using assms by (auto simp: effects_sound_def effects_applied_def split: option.splits)

lemma effects_container [simp]:
  "effects_sound (s\<lparr>container := t\<rparr>) = effects_sound s" "effects_applied (s\<lparr>container := t\<rparr>) = effects_applied s"
  by (simp_all add: effects_sound_def effects_applied_def split: option.split)

text \<open>A handler that only moves the tooltip, or asks for a render.\<close>

definition hook_keeps :: "tooltip \<Rightarrow> tooltip \<Rightarrow> bool" where
  "hook_keeps s t =
     (effects_sound t = effects_sound s \<and> effects_applied t = effects_applied s \<and> mounted t = mounted s \<and> pinned (ctl t) = pinned (ctl s) \<and>
      pendingPinnedUpdate (ctl t) = pendingPinnedUpdate (ctl s) \<and> (the_plot (ctl t) = None \<longleftrightarrow> the_plot (ctl s) = None) \<and>
      outside_listening t = outside_listening s \<and> pin_timers t = pin_timers s \<and>
      clickData (ctl t) = clickData (ctl s) \<and>
      (one_render s \<longrightarrow> one_render t) \<and> (tooltip_inv s \<longrightarrow> tooltip_inv t) \<and>
      (\<forall>r. shown_inv r s \<longrightarrow> shown_inv r t))"

lemma hook_keeps_refl: "hook_keeps s s"
  by (simp add: hook_keeps_def)

lemma hook_keeps_trans: "hook_keeps s t \<Longrightarrow> hook_keeps t r \<Longrightarrow> hook_keeps s r"
  by (auto simp: hook_keeps_def)

lemma keeps_see_plot: "hook_keeps s (on_ctl (see_plot u) s)"
  using inv_see_plot [of s u] shown_see_plot [of _ s u] by (simp add: hook_keeps_def)

lemma keeps_schedule: "hook_keeps s (scheduleRender False s)"
  using schedule_one [of s False] inv_schedule [of s False]
  by (auto simp: hook_keeps_def tooltip_inv_def shown_inv_def)

text \<open>A change of the controller that is followed by a render.\<close>

lemma keeps_schedule_ctl:
  assumes "pinned c = pinned (ctl s)" "pendingPinnedUpdate c = pendingPinnedUpdate (ctl s)"
    "the_plot c = the_plot (ctl s)" "clickData c = clickData (ctl s)"
    "ctl_style c = (ctl_style (ctl s))\<lparr>transform := tr\<rparr>"
  shows "hook_keeps s (scheduleRender False (s\<lparr>ctl := c\<rparr>))"
proof -
  have e: "effects_sound (s\<lparr>ctl := c\<rparr>) = effects_sound s" "effects_applied (s\<lparr>ctl := c\<rparr>) = effects_applied s"
    using assms by (intro effects_same; auto)+
  have "tooltip_inv (scheduleRender False (s\<lparr>ctl := c\<rparr>))" if "tooltip_inv s"
    using that assms(2) e by (intro inv_schedule) (auto simp: tooltip_inv_def split: if_splits)
  moreover have "shown_inv r (scheduleRender False (s\<lparr>ctl := c\<rparr>))" if "shown_inv r s" for r
    using that assms(2) e by (intro shown_schedule) (auto simp: shown_inv_def)
  ultimately show ?thesis using e assms schedule_one [of "s\<lparr>ctl := c\<rparr>" False] by (simp add: hook_keeps_def)
qed

lemma keeps_schedule_plain:
  assumes "pinned c = pinned (ctl s)" "pendingPinnedUpdate c = pendingPinnedUpdate (ctl s)"
    "the_plot c = the_plot (ctl s)" "clickData c = clickData (ctl s)" "ctl_style c = ctl_style (ctl s)"
  shows "hook_keeps s (scheduleRender False (s\<lparr>ctl := c\<rparr>))"
  using assms by (intro keeps_schedule_ctl [where tr = "transform (ctl_style (ctl s))"]) simp_all

text \<open>A change of the controller that shows nothing new.\<close>

lemma keeps_ctl:
  assumes "pinned c = pinned (ctl s)" "pendingPinnedUpdate c = pendingPinnedUpdate (ctl s)"
    "the_plot c = the_plot (ctl s)" "clickData c = clickData (ctl s)" "ctl_style c = ctl_style (ctl s)"
    "hoverActive c = hoverActive (ctl s)" "seriesIndexes c = seriesIndexes (ctl s)"
    "focusedSeriesIndex c = focusedSeriesIndex (ctl s)"
  shows "hook_keeps s (s\<lparr>ctl := c\<rparr>)"
proof -
  have "contents_current c = contents_current (ctl s)" using assms by (intro contents_same) simp_all
  then show ?thesis using assms effects_same_style [of c s]
    by (auto simp: hook_keeps_def tooltip_inv_def shown_inv_def view_current_def)
qed

lemma keeps_container: "hook_keeps s (s\<lparr>container := t\<rparr>)"
  by (simp add: hook_keeps_def tooltip_inv_defs shown_inv_def view_current_def split: option.split)

lemma keeps_cursor: "hook_keeps s (createSetCursorHandler u s)"
proof -
  let ?s = "on_ctl (\<lambda>c. c\<lparr>cursorDrivenBySync := \<not> cursor_event u\<rparr>) s"
  have a: "hook_keeps s ?s" by (rule keeps_ctl) simp_all
  have b: "hook_keeps ?s (?s\<lparr>ctl := (ctl ?s)\<lparr>horizontalOffset := h, verticalOffset := v\<rparr>\<rparr>)" for h v
    by (rule keeps_ctl) simp_all
  have c: "hook_keeps r (scheduleRender False (r\<lparr>ctl := (ctl r)\<lparr>ctl_style := (ctl_style (ctl r))\<lparr>transform := tr\<rparr>\<rparr>\<rparr>))"
    for r tr by (rule keeps_schedule_ctl) simp_all
  show ?thesis
    unfolding createSetCursorHandler_def Let_def
    using hook_keeps_trans [OF a b, THEN hook_keeps_trans, OF keeps_container]
      hook_keeps_trans [OF a b, THEN hook_keeps_trans, OF c] a
    by (auto split: option.splits)
qed

lemma keeps_legend: "hook_keeps s (createSetLegendHandler b u s)"
proof -
  have a: "hook_keeps s (scheduleRender False (s\<lparr>ctl := updateHoverState b
      ((ctl s)\<lparr>seriesIndexes := is, isAnySeriesActive := q, cursorDrivenBySync := d\<rparr>)\<rparr>))" for "is" q d
    by (rule keeps_schedule_plain) simp_all
  show ?thesis
  proof (cases "the_plot (ctl s)")
    case None
    then show ?thesis by (simp add: createSetLegendHandler_def hook_keeps_refl)
  next
    case (Some kp)
    then show ?thesis
      using a by (cases kp) (auto simp: createSetLegendHandler_def Let_def hook_keeps_refl
          split: option.splits intro!: keeps_ctl)
  qed
qed

lemma keeps_series: "hook_keeps s (createSetSeriesHandler b u i f s)"
  by (auto simp: createSetSeriesHandler_def hook_keeps_refl intro!: keeps_schedule_plain)

lemma keeps_hook: "hook_keeps s (run_hook cfg h s)"
  by (cases h) (auto simp: run_hook_def intro: hook_keeps_trans [OF keeps_see_plot] keeps_cursor keeps_legend
      keeps_series)

lemma keeps_hooks: "hook_keeps s (fold (run_hook cfg) hs s)"
  by (induction hs arbitrary: s) (auto simp: hook_keeps_refl intro: hook_keeps_trans [OF keeps_hook])

text \<open>The handlers of the plugin.\<close>

lemma inv_dismiss:
  assumes "tooltip_inv s"
  shows "tooltip_inv (dismissTooltip cfg fired s)"
proof -
  let ?s = "on_ctl (\<lambda>c. c\<lparr>pinned := False, hoverActive := False, clickData := None\<rparr>) s"
  let ?t = "if the_plot (ctl ?s) \<noteq> None then fold (run_hook cfg) fired ?s else ?s"
  have k: "hook_keeps ?s ?t" by (simp add: keeps_hooks hook_keeps_refl)
  have "effects_sound ?s = effects_sound s" if "\<not> pinned (ctl s)"
    using that by (auto simp: effects_sound_def split: option.splits)
  then have "mounted s \<Longrightarrow> pinned (ctl s) \<or> pendingPinnedUpdate (ctl s) \<or> effects_sound ?s"
    using assms by (auto simp: tooltip_inv_def split: if_splits)
  moreover have "one_render ?s" using assms by (simp add: tooltip_inv_def)
  ultimately have "tooltip_inv (scheduleRender (pinned (ctl s)) ?t)"
    using k by (intro inv_schedule) (auto simp: hook_keeps_def)
  then show ?thesis by (simp add: dismissTooltip_def Let_def)
qed

lemma pin_timer_parts [simp]:
  "one_render (s\<lparr>pin_timers := n\<rparr>) = one_render s"
  "render_pending (s\<lparr>pin_timers := n\<rparr>) = render_pending s"
  "effects_sound (s\<lparr>pin_timers := n\<rparr>) = effects_sound s"
  "effects_applied (s\<lparr>pin_timers := n\<rparr>) = effects_applied s"
  "one_render (s\<lparr>ctl := c, pin_timers := n\<rparr>) = one_render s"
  "render_pending (s\<lparr>ctl := c, pin_timers := n\<rparr>) = render_pending s"
  "effects_sound (s\<lparr>ctl := c, pin_timers := n\<rparr>) = effects_sound (s\<lparr>ctl := c\<rparr>)"
  "effects_applied (s\<lparr>ctl := c, pin_timers := n\<rparr>) = effects_applied (s\<lparr>ctl := c\<rparr>)"
  by (simp_all add: one_render_def render_pending_def effects_sound_def effects_applied_def split: option.split)

lemma effects_clickData [simp]:
  "effects_sound (s\<lparr>ctl := (ctl s)\<lparr>clickData := d\<rparr>\<rparr>) = effects_sound s"
  "effects_applied (s\<lparr>ctl := (ctl s)\<lparr>clickData := d\<rparr>\<rparr>) = effects_applied s"
  by (rule effects_same_style; simp)+

lemma inv_pin: "tooltip_inv s \<Longrightarrow> tooltip_inv (pin_callback (s\<lparr>pin_timers := n\<rparr>))"
  unfolding pin_callback_def by (rule inv_schedule) (simp_all add: tooltip_inv_def)

lemma view_performRender:
  "effects_sound (performRender s) = (effects_sound s \<or> pendingPinnedUpdate (ctl s))"
  "effects_applied (performRender s) = (effects_applied s \<or> pendingPinnedUpdate (ctl s))"
  "view_current (performRender s)" "\<not> render_pending (performRender s)"
  "\<not> pendingPinnedUpdate (ctl (performRender s))"
  by (auto simp: performRender_def Let_def applyPinnedSideEffects_def updatePointerEvents_def contents_created
      updateCursorLock_def toggleOutsideListeners_def effects_sound_def effects_applied_def view_current_def
      render_pending_def split: option.splits)

lemma queues_performRender:
  "frames (performRender s) = frames s" "timeouts (performRender s) = timeouts s"
  "rafId (performRender s) = None" "dismissTimeoutId (performRender s) = None"
  "mounted (performRender s) = mounted s" "pin_timers (performRender s) = pin_timers s"
  "pinned (ctl (performRender s)) = pinned (ctl s)"
  by (auto simp: performRender_def Let_def applyPinnedSideEffects_def updatePointerEvents_def
      updateCursorLock_def toggleOutsideListeners_def split: option.splits)

lemma inv_render:
  assumes "one_render s" and "frames r = []" "timeouts r = []"
    and "mounted r \<Longrightarrow> effects_sound r \<or> pendingPinnedUpdate (ctl r)"
  shows "tooltip_inv (performRender r)"
  using assms by (auto simp: tooltip_inv_def one_render_def view_performRender queues_performRender)

lemma inv_frame:
  assumes "tooltip_inv s" and "i \<in> set (frames s)"
  shows "tooltip_inv (performRender (s\<lparr>frames := removeAll i (frames s)\<rparr>))"
proof (rule inv_render)
  show "one_render s" using assms(1) by (simp add: tooltip_inv_def)
qed (use assms in \<open>auto simp: tooltip_inv_def one_render_def effects_sound_def split: option.splits if_splits\<close>)

lemma inv_timeout:
  assumes "tooltip_inv s" and "i \<in> set (timeouts s)"
  shows "tooltip_inv (performRender (s\<lparr>timeouts := removeAll i (timeouts s)\<rparr>))"
proof (rule inv_render)
  show "one_render s" using assms(1) by (simp add: tooltip_inv_def)
qed (use assms in \<open>auto simp: tooltip_inv_def one_render_def effects_sound_def split: option.splits if_splits\<close>)

lemma inv_init: "tooltip_inv s \<Longrightarrow> \<not> cursor_lock u \<Longrightarrow> tooltip_inv (handleInit cfg k u s)"
  by (auto simp: handleInit_def Let_def tooltip_inv_defs split: option.splits if_splits)

lemma inv_visibility: "tooltip_inv s \<Longrightarrow> tooltip_inv (on_ctl updatePlotVisibility s)"
  using keeps_ctl [of "updatePlotVisibility (ctl s)" s]
  by (auto simp: hook_keeps_def updatePlotVisibility_def split: option.splits)

lemma inner_size_parts [simp]:
  "one_render (s\<lparr>inner_size := inner\<rparr>) = one_render s"
  "render_pending (s\<lparr>inner_size := inner\<rparr>) = render_pending s"
  "effects_sound (s\<lparr>inner_size := inner\<rparr>) = effects_sound s"
  "effects_applied (s\<lparr>inner_size := inner\<rparr>) = effects_applied s"
  by (simp_all add: one_render_def render_pending_def effects_sound_def effects_applied_def split: option.split)

lemma resized_fields [simp]:
  "pinned (updateWindowSize i c) = pinned c" "pendingPinnedUpdate (updateWindowSize i c) = pendingPinnedUpdate c"
  "the_plot (updateWindowSize i c) = the_plot c" "clickData (updateWindowSize i c) = clickData c"
  "ctl_style (updateWindowSize i c) = ctl_style c" "seriesIndexes (updateWindowSize i c) = seriesIndexes c"
  "focusedSeriesIndex (updateWindowSize i c) = focusedSeriesIndex c"
  "hoverActive (updateWindowSize i c) = (hoverActive c \<and> pinned c)"
  by (auto simp: updateWindowSize_def Let_def)

lemma inv_resize: "tooltip_inv s \<Longrightarrow> tooltip_inv (handleWindowResize inner s)"
  using effects_same_style(1) [of "updateWindowSize inner (ctl s)" "s\<lparr>inner_size := inner\<rparr>"]
  by (simp add: tooltip_inv_def handleWindowResize_def)

lemma inv_clicked:
  "tooltip_inv s \<Longrightarrow> tooltip_inv (s\<lparr>ctl := (ctl s)\<lparr>clickData := d\<rparr>, pin_timers := Suc n\<rparr>)"
  by (simp add: tooltip_inv_def)

lemma inv_click:
  assumes "tooltip_inv s"
  shows "tooltip_inv (handleUPlotOverClick d k e s)"
proof (cases "the_plot (ctl s)")
  case None
  with assms show ?thesis by (simp add: handleUPlotOverClick_def)
next
  case (Some kp)
  then show ?thesis
    unfolding handleUPlotOverClick_def Some option.case prod.case_eq_if Let_def
    by (simp only: if_split) (intro conjI impI inv_clicked assms)
qed

lemma cancel_none: "rafId (cancelPendingRender s) = None" "dismissTimeoutId (cancelPendingRender s) = None"
  by (auto simp: cancelPendingRender_def Let_def split: option.splits)

lemma cancel_queues:
  "one_render s \<Longrightarrow> frames (cancelPendingRender s) = [] \<and> timeouts (cancelPendingRender s) = []"
  by (auto simp: cancelPendingRender_def one_render_def Let_def split: option.splits)

lemma inv_cleanup: "tooltip_inv s \<Longrightarrow> tooltip_inv (cleanup s)"
  using cancel_none [of "s\<lparr>outside_listening := False\<rparr>"] cancel_queues [of "s\<lparr>outside_listening := False\<rparr>"]
  by (auto simp: tooltip_inv_def one_render_def cleanup_def clearPlotReferences_def Let_def split: option.splits)

lemma inv_ready: "tooltip_inv s \<Longrightarrow> tooltip_inv (on_ctl (\<lambda>c. updatePlotVisibility (see_plot u c)) s)"
  using inv_visibility [OF inv_see_plot] by simp

lemma inv_data: "tooltip_inv s \<Longrightarrow> tooltip_inv (handleSetData cfg fired s)"
  by (simp add: handleSetData_def inv_dismiss)

lemma inv_scroll: "tooltip_inv s \<Longrightarrow> tooltip_inv (handleScroll cfg r fired s)"
  by (auto simp: handleScroll_def Let_def inv_dismiss inv_visibility)

lemma inv_outside: "tooltip_inv s \<Longrightarrow> tooltip_inv (onOutsideInteraction cfg b fired s)"
  by (simp add: onOutsideInteraction_def inv_dismiss)

lemma inv_hook: "tooltip_inv s \<Longrightarrow> tooltip_inv (run_hook cfg h s)"
  using keeps_hook [of s cfg h] by (simp add: hook_keeps_def)

lemma inv_layout: "tooltip_inv s \<Longrightarrow> tooltip_inv (s\<lparr>layout := l\<rparr>)" "tooltip_inv s \<Longrightarrow> tooltip_inv (s\<lparr>container := t\<rparr>)"
  by (auto simp: tooltip_inv_defs split: option.splits)

lemma inv_measure: "tooltip_inv s \<Longrightarrow> tooltip_inv (measure_layout b s)"
  by (simp add: measure_layout_def inv_layout)

lemmas tooltip_inv_steps = inv_init inv_ready inv_see_plot inv_data inv_hook inv_resize inv_scroll inv_click
  inv_outside inv_frame inv_timeout inv_pin inv_layout inv_measure inv_cleanup

lemma inv_step: "tooltip_step cfg s e t \<Longrightarrow> tooltip_inv s \<Longrightarrow> tooltip_inv t"
  by (induction rule: tooltip_step.induct) (blast intro: tooltip_inv_steps)+

lemma inv_steps: "tooltip_steps cfg s es t \<Longrightarrow> tooltip_inv s \<Longrightarrow> tooltip_inv t"
  by (induction rule: tooltip_steps.induct) (auto intro: inv_step)

lemma inv_start: "tooltip_inv (start_effect inner view node)"
  by (simp add: start_effect_def createInitialControllerState_def handleWindowResize_def updateWindowSize_def
      tooltip_inv_defs)

lemma reachable_inv: "reachable cfg s \<Longrightarrow> tooltip_inv s"
  by (auto simp: reachable_def intro: inv_steps inv_start)

text \<open>Runs that nothing disturbs keep the view as well.\<close>

lemma shown_dismiss:
  assumes "shown_inv r s"
  shows "shown_inv r (dismissTooltip cfg fired s)"
proof -
  let ?s = "on_ctl (\<lambda>c. c\<lparr>pinned := False, hoverActive := False, clickData := None\<rparr>) s"
  let ?t = "if the_plot (ctl ?s) \<noteq> None then fold (run_hook cfg) fired ?s else ?s"
  have k: "hook_keeps ?s ?t" by (simp add: keeps_hooks hook_keeps_refl)
  have "effects_applied ?s = effects_applied s" if "\<not> pinned (ctl s)"
    using that by (auto simp: effects_applied_def split: option.splits)
  then have "mounted s \<Longrightarrow> pinned (ctl s) \<or> pendingPinnedUpdate (ctl s) \<or> effects_applied ?s"
    using assms by (auto simp: shown_inv_def)
  with k have "shown_inv r (scheduleRender (pinned (ctl s)) ?t)"
    by (intro shown_schedule) (auto simp: hook_keeps_def)
  then show ?thesis by (simp add: dismissTooltip_def Let_def)
qed

lemma shown_pin: "shown_inv r (pin_callback s)"
  unfolding pin_callback_def by (rule shown_schedule) simp

lemma effects_queues [simp]:
  "effects_applied (s\<lparr>frames := q\<rparr>) = effects_applied s" "effects_applied (s\<lparr>timeouts := q\<rparr>) = effects_applied s"
  by (simp_all add: effects_applied_def split: option.split)

lemma shown_render:
  "shown_inv r s \<Longrightarrow> shown_inv True (performRender (s\<lparr>frames := q\<rparr>))"
  "shown_inv r s \<Longrightarrow> shown_inv True (performRender (s\<lparr>timeouts := q\<rparr>))"
  by (auto simp: shown_inv_def view_performRender queues_performRender)

lemma shown_init:
  "shown_inv r s \<Longrightarrow> \<not> cursor_lock u \<Longrightarrow> \<not> disturbs s (Init k u) \<Longrightarrow> shown_inv r (handleInit cfg k u s)"
  by (auto simp: handleInit_def Let_def shown_inv_defs split: option.splits)

lemma shown_visibility: "shown_inv r s \<Longrightarrow> shown_inv r (on_ctl updatePlotVisibility s)"
  using keeps_ctl [of "updatePlotVisibility (ctl s)" s]
  by (auto simp: hook_keeps_def updatePlotVisibility_def split: option.splits)

lemma shown_resize:
  assumes "shown_inv r s" and "\<not> disturbs s (Resize inner)"
  shows "shown_inv r (handleWindowResize inner s)"
proof -
  let ?r = "s\<lparr>inner_size := inner\<rparr>"
  have "shown_inv r ?r" using assms(1) by (simp add: shown_inv_def view_current_def)
  moreover have "hook_keeps ?r (on_ctl (updateWindowSize inner) ?r)"
    using assms(2) by (intro keeps_ctl) (auto simp del: not_None_eq)
  ultimately show ?thesis by (simp add: hook_keeps_def handleWindowResize_def)
qed

lemma contents_clicked [simp]: "contents_current (c\<lparr>clickData := d\<rparr>) = contents_current c"
  by (rule contents_same) simp_all

lemma shown_clicked: "shown_inv r s \<Longrightarrow> shown_inv r (s\<lparr>ctl := (ctl s)\<lparr>clickData := d\<rparr>, pin_timers := Suc n\<rparr>)"
  by (simp add: shown_inv_def view_current_def)

lemma shown_click:
  assumes "shown_inv r s"
  shows "shown_inv r (handleUPlotOverClick d k e s)"
proof (cases "the_plot (ctl s)")
  case None
  with assms show ?thesis by (simp add: handleUPlotOverClick_def)
next
  case (Some kp)
  then show ?thesis
    unfolding handleUPlotOverClick_def Some option.case prod.case_eq_if Let_def
    by (simp only: if_split) (intro conjI impI shown_clicked assms)
qed

lemma shown_cleanup: "shown_inv r (cleanup s)"
  by (auto simp: shown_inv_def cleanup_def clearPlotReferences_def Let_def split: option.split)

lemma shown_ready: "shown_inv r s \<Longrightarrow> shown_inv r (on_ctl (\<lambda>c. updatePlotVisibility (see_plot u c)) s)"
  using shown_visibility [OF shown_see_plot] by simp

lemma shown_handlers:
  "shown_inv r s \<Longrightarrow> shown_inv r (handleSetData cfg fired s)"
  "shown_inv r s \<Longrightarrow> shown_inv r (handleScroll cfg c fired s)"
  "shown_inv r s \<Longrightarrow> shown_inv r (onOutsideInteraction cfg i fired s)"
  "shown_inv r s \<Longrightarrow> shown_inv r (run_hook cfg h s)"
  using keeps_hook [of s cfg h]
  by (auto simp: handleSetData_def handleScroll_def Let_def onOutsideInteraction_def shown_dismiss
      shown_visibility hook_keeps_def)

lemma shown_layout:
  "shown_inv r s \<Longrightarrow> shown_inv r (s\<lparr>layout := l\<rparr>)" "shown_inv r s \<Longrightarrow> shown_inv r (s\<lparr>container := t\<rparr>)"
  "shown_inv r s \<Longrightarrow> shown_inv r (measure_layout b s)"
  by (auto simp: shown_inv_defs measure_layout_def split: option.splits)

lemmas shown_steps = shown_init shown_ready shown_see_plot shown_handlers shown_resize shown_click
  shown_pin shown_layout shown_cleanup shown_render

lemma shown_step:
  "tooltip_step cfg s e t \<Longrightarrow> \<not> disturbs s e \<Longrightarrow> shown_inv r s \<Longrightarrow> shown_inv (r \<or> renders e) t"
  by (induction rule: tooltip_step.induct) (simp_all add: shown_steps)

lemma shown_start: "shown_inv True (first_start inner)" "shown_inv False (start_effect inner view node)"
  by (simp_all add: start_effect_def createInitialControllerState_def createInitialViewState_def
      handleWindowResize_def updateWindowSize_def shown_inv_defs)

lemma undisturbed_inv: "undisturbed cfg r s \<Longrightarrow> tooltip_inv s \<and> shown_inv r s"
  by (induction rule: undisturbed.induct) (auto intro: shown_start inv_start shown_step inv_step)

section \<open>Running events\<close>

text \<open>The steps are deterministic: an event that is possible has one result, which can be computed.\<close>

definition exec :: "plugin_config \<Rightarrow> event \<Rightarrow> tooltip \<Rightarrow> tooltip option" where
  "exec cfg e s =
     (case e of
        Init k u \<Rightarrow> if mounted s \<and> \<not> cursor_lock u then Some (handleInit cfg k u s) else None
      | Ready u \<Rightarrow> if mounted s then Some (on_ctl (\<lambda>c. updatePlotVisibility (see_plot u c)) s) else None
      | Set_data u fired \<Rightarrow> if mounted s then Some (handleSetData cfg fired (on_ctl (see_plot u) s)) else None
      | Plot_hook h \<Rightarrow> if mounted s then Some (run_hook cfg h s) else None
      | Resize inner \<Rightarrow> if mounted s then Some (handleWindowResize inner s) else None
      | Scroll u r fired \<Rightarrow> if mounted s then Some (handleScroll cfg r fired (on_ctl (see_plot u) s)) else None
      | Over_click d k e u \<Rightarrow>
          if k \<in> set (over_listeners s) then Some (handleUPlotOverClick d k e (on_ctl (see_plot u) s)) else None
      | Outside b fired \<Rightarrow> if outside_listening s then Some (onOutsideInteraction cfg b fired s) else None
      | Frame i \<Rightarrow>
          if i \<in> set (frames s) then Some (performRender (s\<lparr>frames := removeAll i (frames s)\<rparr>)) else None
      | Timeout i \<Rightarrow>
          if i \<in> set (timeouts s) then Some (performRender (s\<lparr>timeouts := removeAll i (timeouts s)\<rparr>)) else None
      | Pin_timer \<Rightarrow> (case pin_timers s of 0 \<Rightarrow> None | Suc n \<Rightarrow> Some (pin_callback (s\<lparr>pin_timers := n\<rparr>)))
      | Observe entries \<Rightarrow> Some (s\<lparr>layout := createLayoutObserver_callback entries (layout s)\<rparr>)
      | Measure b \<Rightarrow> Some (measure_layout b s)
      | Commit node \<Rightarrow> Some (s\<lparr>container := node\<rparr>)
      | Unmount \<Rightarrow> if mounted s then Some (cleanup s) else None)"

lemma exec_step: "exec cfg e s = Some t \<Longrightarrow> tooltip_step cfg s e t"
  by (cases e) (auto simp: exec_def split: if_splits nat.splits)

lemma step_exec: "tooltip_step cfg s e t \<Longrightarrow> exec cfg e s = Some t"
  by (induction rule: tooltip_step.induct) (auto simp: exec_def)

fun exec_all :: "plugin_config \<Rightarrow> event list \<Rightarrow> tooltip \<Rightarrow> tooltip option" where
  "exec_all cfg [] s = Some s"
| "exec_all cfg (e # es) s = (case exec cfg e s of None \<Rightarrow> None | Some t \<Rightarrow> exec_all cfg es t)"

lemma exec_iff: "exec cfg e s = Some t \<longleftrightarrow> tooltip_step cfg s e t"
  by (blast intro: exec_step step_exec)

lemma exec_all_steps: "exec_all cfg es s = Some t \<longleftrightarrow> tooltip_steps cfg s es t"
proof (induction es arbitrary: s)
  case (Cons e es)
  show ?case
  proof (cases "exec cfg e s")
    case None
    then have "\<not> tooltip_step cfg s e r" for r by (simp flip: exec_iff)
    with None show ?thesis by (simp add: steps_simps)
  next
    case (Some r)
    then have "tooltip_step cfg s e r' \<longleftrightarrow> r' = r" for r' by (auto simp flip: exec_iff)
    with Some Cons.IH show ?thesis by (simp add: steps_simps)
  qed
qed (auto simp: steps_simps)

lemma reachable_run: "exec_all cfg es (start_effect inner view node) = Some s \<Longrightarrow> reachable cfg s"
  unfolding reachable_def exec_all_steps by blast

text \<open>A plot with one series of one point, a mouse over it, and a run that pins the tooltip.\<close>

definition sample_series :: series where
  "sample_series = \<lparr>label = Some ''A'', series_show = None, series_focus = Some True, stroke = Some ''#fff'',
     fill = None\<rparr>"

definition sample_plot :: uplot where
  "sample_plot =
     \<lparr>rect = \<lparr>bb_left = 0, bb_top = 0, bb_width = 100, bb_height = 50\<rparr>,
      over = \<lparr>bb_left = 0, bb_top = 0, bb_width = 100, bb_height = 50\<rparr>,
      cursor_event = True, cursor_left = Some 20, cursor_top = Some 20, cursor_idxs = Some [Some 0, Some 0],
      cursor_lock = False, all_series = [sample_series, sample_series],
      plot_data = [[Cell 5], [Cell 7]], posToVal = (\<lambda>x _. x), posToIdx = (\<lambda>_. 0), valToPos = (\<lambda>v _. v)\<rparr>"

definition sample_mouse :: mouse_event where
  "sample_mouse = \<lparr>clientX = 20, clientY = 20, offsetX = 20, offsetY = 20\<rparr>"

definition sample_config :: plugin_config where
  "sample_config = \<lparr>canPinTooltip = True, syncMode = No_sync\<rparr>"

abbreviation sample_run :: "event list \<Rightarrow> tooltip option" where
  "sample_run es \<equiv> exec_all sample_config es (first_start (800, 600))"

definition hover_events :: "event list" where
  "hover_events = [Init 1 sample_plot, Plot_hook (Hook_setSeries sample_plot (Some 1) True)]"

definition pin_events :: "event list" where
  "pin_events = hover_events @ [Frame 1, Over_click True 1 sample_mouse sample_plot, Pin_timer, Frame 2]"

section \<open>Properties\<close>

text \<open>
  In every reachable state at most one render is queued, and its id is the one the plugin keeps, so
  that the next request can cancel it.
\<close>

theorem one_render_queued:
  assumes "reachable cfg s"
  shows "length (frames s @ timeouts s) \<le> 1 \<and> set (frames s) = set_option (rafId s) \<and>
    set (timeouts s) = set_option (dismissTimeoutId s)"
  using reachable_inv [OF assms] by (auto simp: tooltip_inv_def one_render_def split: option.splits)

lemma sample_pinned:
  "(case sample_run pin_events of None \<Rightarrow> False
    | Some s \<Rightarrow> mounted s \<and> isPinned (shown_view s) \<and> pinned (ctl s) \<and> outside_listening s \<and>
        frames s = [] \<and> timeouts s = [] \<and> pin_timers s = 0)"
  by code_simp

lemma sample_hovering:
  "(case sample_run hover_events of None \<Rightarrow> False | Some s \<Rightarrow> frames s = [1])"
  by code_simp

theorem one_render_queued_witness:
  "\<exists>s. reachable sample_config s \<and> frames s = [1] \<and> rafId s = Some 1"
proof -
  obtain s where run: "sample_run hover_events = Some s" and f: "frames s = [1]"
    using sample_hovering by (auto split: option.splits)
  have "reachable sample_config s" using run by (rule reachable_run)
  with one_render_queued [OF this] f show ?thesis by (cases "rafId s") auto
qed

text \<open>An undisturbed run, computed.\<close>

fun calm_all :: "plugin_config \<Rightarrow> event list \<Rightarrow> tooltip \<Rightarrow> tooltip option" where
  "calm_all cfg [] s = Some s"
| "calm_all cfg (e # es) s =
     (if disturbs s e then None else case exec cfg e s of None \<Rightarrow> None | Some t \<Rightarrow> calm_all cfg es t)"

lemma calm_run: "undisturbed cfg r s \<Longrightarrow> calm_all cfg es s = Some t \<Longrightarrow> undisturbed cfg (r \<or> list_ex renders es) t"
proof (induction es arbitrary: r s)
  case (Cons e es)
  then obtain s' where e: "\<not> disturbs s e" "exec cfg e s = Some s'" "calm_all cfg es s' = Some t"
    by (auto split: if_splits option.splits)
  from undisturbed_step [OF Cons.prems(1) exec_step [OF e(2)] e(1)] Cons.IH e(3)
  have "undisturbed cfg ((r \<or> renders e) \<or> list_ex renders es) t" by blast
  then show ?case by (simp add: disj_assoc)
qed simp

text \<open>
  C30. In a run in which no plot is created under a tooltip and the window is not resized under a hovering one:
  when no render is queued, React shows what the controller holds (the pin, the hover, the style, the data of the click
  once its callback has run, and contents exactly for a hovered plot, rendered for its indexes, series and pin);
  and the listeners on the document, the pointer events and the lock of the cursor are those of the pin. In a later run of
  the effect this holds from its first render on.
\<close>

theorem idle_view_current:
  assumes "undisturbed cfg True s" and "mounted s" and "frames s = []" and "timeouts s = []"
  shows "view_current s \<and> effects_applied s"
proof -
  have inv: "tooltip_inv s" "shown_inv True s" using undisturbed_inv [OF assms(1)] by simp_all
  then have "\<not> render_pending s"
    using assms(3,4) by (auto simp: tooltip_inv_def one_render_def render_pending_def split: option.splits)
  with inv assms(2) show ?thesis by (simp add: tooltip_inv_def shown_inv_def split: if_splits)
qed

text \<open>The pinned run; and one of a later effect, which starts from the view of a pinned tooltip.\<close>

definition stale_view :: view_state where
  "stale_view =
     \<lparr>hasPlot = True, view_style = \<lparr>transform = ''translateX(1px)'', pointerEvents = ''all''\<rparr>, isHovering = True,
      isPinned = True, view_clickData = None, contents = None\<rparr>"

lemma sample_calm:
  "(case calm_all sample_config pin_events (first_start (800, 600)) of None \<Rightarrow> False
    | Some s \<Rightarrow> mounted s \<and> frames s = [] \<and> timeouts s = [] \<and> isPinned (shown_view s) \<and>
        contents (shown_view s) \<noteq> None \<and> (case the_plot (ctl s) of None \<Rightarrow> False | Some (_, u) \<Rightarrow> cursor_lock u))"
  by code_simp

lemma sample_later:
  "(case calm_all sample_config (hover_events @ [Frame 1]) (start_effect (800, 600) stale_view None) of None \<Rightarrow> False
    | Some s \<Rightarrow> mounted s \<and> frames s = [] \<and> timeouts s = [])"
  by code_simp

theorem idle_view_current_witness:
  "(case calm_all sample_config pin_events (first_start (800, 600)) of None \<Rightarrow> False
    | Some s \<Rightarrow> isPinned (shown_view s) \<and> contents (shown_view s) \<noteq> None \<and> view_current s \<and> effects_applied s) \<and>
   (case calm_all sample_config (hover_events @ [Frame 1]) (start_effect (800, 600) stale_view None) of None \<Rightarrow> False
    | Some s \<Rightarrow> view_current s \<and> effects_applied s)"
proof -
  obtain s where run: "calm_all sample_config pin_events (first_start (800, 600)) = Some s"
    and s: "mounted s" "frames s = []" "timeouts s = []" "isPinned (shown_view s)" "contents (shown_view s) \<noteq> None"
    using sample_calm by (auto split: option.splits)
  obtain t where later: "calm_all sample_config (hover_events @ [Frame 1]) (start_effect (800, 600) stale_view None) = Some t"
    and t: "mounted t" "frames t = []" "timeouts t = []"
    using sample_later by (auto split: option.splits)
  have "undisturbed sample_config True s" "undisturbed sample_config True t"
    using calm_run [OF first_run run] calm_run [OF later_run later] by (simp_all add: hover_events_def)
  with idle_view_current s t have "view_current s \<and> effects_applied s" "view_current t \<and> effects_applied t" by blast+
  with run later s show ?thesis by simp
qed

text \<open>What a mouse or key outside the tooltip leads to.\<close>

definition released :: "tooltip \<Rightarrow> bool" where
  "released s =
     (\<not> pinned (ctl s) \<and> \<not> isPinned (shown_view s) \<and> \<not> outside_listening s \<and>
      (case the_plot (ctl s) of None \<Rightarrow> True | Some (_, u) \<Rightarrow> \<not> cursor_lock u))"

lemma dismiss_unpins: "\<not> pinned (ctl (dismissTooltip cfg fired s))"
proof -
  let ?s = "on_ctl (\<lambda>c. c\<lparr>pinned := False, hoverActive := False, clickData := None\<rparr>) s"
  have "hook_keeps ?s (fold (run_hook cfg) fired ?s)" by (rule keeps_hooks)
  then show ?thesis by (simp add: dismissTooltip_def Let_def hook_keeps_def)
qed

lemma dismiss_pending:
  assumes "tooltip_inv s"
  shows "render_pending (dismissTooltip cfg fired s)" "mounted (dismissTooltip cfg fired s) = mounted s"
proof -
  let ?s = "on_ctl (\<lambda>c. c\<lparr>pinned := False, hoverActive := False, clickData := None\<rparr>) s"
  let ?t = "if the_plot (ctl ?s) \<noteq> None then fold (run_hook cfg) fired ?s else ?s"
  have k: "hook_keeps ?s ?t" by (simp add: keeps_hooks hook_keeps_refl)
  have "one_render ?s" using assms by (simp add: tooltip_inv_def)
  with k have "one_render ?t" by (simp add: hook_keeps_def)
  from schedule_one [OF this] show "render_pending (dismissTooltip cfg fired s)"
    by (simp add: dismissTooltip_def Let_def)
  show "mounted (dismissTooltip cfg fired s) = mounted s"
    using k by (simp add: dismissTooltip_def Let_def hook_keeps_def)
qed

lemma rendered_released:
  assumes "tooltip_inv t" and "mounted t" and "\<not> pinned (ctl t)"
    and "tooltip_step cfg t (Frame i) r \<or> tooltip_step cfg t (Timeout i) r"
  shows "released r"
proof -
  from assms(1,4) have inv: "tooltip_inv r" by (blast intro: inv_step)
  from assms(2-4) have "mounted r" "\<not> pinned (ctl r)" "view_current r" "\<not> pendingPinnedUpdate (ctl r)"
    by (auto simp: step_frame_iff step_timeout_iff queues_performRender view_performRender)
  with inv show ?thesis
    by (auto simp: tooltip_inv_def view_current_def effects_sound_def released_def split: option.splits if_splits)
qed

lemma pending_step:
  assumes "one_render t" and "render_pending t"
  shows "\<exists>i r. tooltip_step cfg t (Frame i) r \<or> tooltip_step cfg t (Timeout i) r"
  using assms by (auto simp: one_render_def render_pending_def step_frame_iff step_timeout_iff split: option.splits)

text \<open>
  C36. An interaction outside the tooltip leaves a render queued, whatever hooks uPlot runs meanwhile;
  and whichever callback runs next, it leaves the tooltip unpinned, without its listeners on the
  document and with the cursor unlocked.
\<close>

theorem outside_interaction_unpins:
  assumes "reachable cfg s" and "mounted s" and "tooltip_step cfg s (Outside False fired) t"
  shows "(\<exists>i r. tooltip_step cfg t (Frame i) r \<or> tooltip_step cfg t (Timeout i) r) \<and>
    (\<forall>i r. tooltip_step cfg t (Frame i) r \<or> tooltip_step cfg t (Timeout i) r \<longrightarrow> released r)"
proof -
  from assms(3) have t: "t = dismissTooltip cfg fired s"
    by (simp add: step_outside_iff onOutsideInteraction_def)
  have s: "tooltip_inv s" by (rule reachable_inv [OF assms(1)])
  have inv: "tooltip_inv t" using s by (simp add: t inv_dismiss)
  have "\<not> pinned (ctl t)" "mounted t" "render_pending t"
    using dismiss_pending [OF s] assms(2) by (simp_all add: t dismiss_unpins)
  with inv show ?thesis
    using rendered_released [OF inv] pending_step [of t cfg] by (auto simp: tooltip_inv_def)
qed

theorem outside_interaction_unpins_witness:
  "\<exists>s t i r. reachable sample_config s \<and> isPinned (shown_view s) \<and>
     tooltip_step sample_config s (Outside False []) t \<and>
     (tooltip_step sample_config t (Frame i) r \<or> tooltip_step sample_config t (Timeout i) r) \<and> released r"
proof -
  obtain s where run: "sample_run pin_events = Some s" and *: "mounted s" "isPinned (shown_view s)"
      "outside_listening s"
    using sample_pinned by (auto split: option.splits)
  have r: "reachable sample_config s" using run by (rule reachable_run)
  have "tooltip_step sample_config s (Outside False []) (onOutsideInteraction sample_config False [] s)"
    using *(3) by (rule step_outside)
  with outside_interaction_unpins [OF r *(1) this] r *(2) show ?thesis by blast
qed

text \<open>After the cleanup.\<close>

definition gone :: "tooltip \<Rightarrow> bool" where
  "gone s =
     (\<not> mounted s \<and> the_plot (ctl s) = None \<and> \<not> outside_listening s \<and> frames s = [] \<and> timeouts s = [] \<and>
      pin_timers s = 0)"

lemma gone_step: "tooltip_step cfg s e t \<Longrightarrow> gone s \<Longrightarrow> gone t"
  by (induction rule: tooltip_step.induct)
     (auto simp: gone_def handleUPlotOverClick_def see_plot_def measure_layout_def)

lemma gone_steps: "tooltip_steps cfg s es t \<Longrightarrow> gone s \<Longrightarrow> gone t"
  by (induction rule: tooltip_steps.induct) (auto dest: gone_step)

lemma cleanup_gone:
  assumes "one_render s" and "pin_timers s = 0"
  shows "gone (cleanup s)"
proof -
  let ?s = "s\<lparr>outside_listening := False\<rparr>"
  have "one_render ?s" using assms(1) by (simp add: one_render_def split: option.splits)
  then have "frames (cancelPendingRender ?s) = []" "timeouts (cancelPendingRender ?s) = []"
    by (simp_all add: cancel_queues)
  moreover have "pin_timers (cancelPendingRender ?s) = 0" "\<not> outside_listening (cancelPendingRender ?s)"
    using assms(2) by (auto simp: cancelPendingRender_def Let_def split: option.splits)
  ultimately show ?thesis
    by (auto simp: gone_def cleanup_def clearPlotReferences_def Let_def split: option.splits)
qed

text \<open>
  Without a click that waits for its callback, the cleanup leaves nothing behind: no reference to the
  plot, no listener on the document, no queued callback; and nothing that happens later brings one back.
\<close>

theorem cleanup_leaves_nothing:
  assumes "reachable cfg s" and "pin_timers s = 0" and "tooltip_steps cfg s (Unmount # es) t"
  shows "gone t"
proof -
  from assms(3) have "tooltip_steps cfg (cleanup s) es t"
    by (auto simp: steps_simps elim: tooltip_step.cases)
  moreover have "gone (cleanup s)"
    using reachable_inv [OF assms(1)] assms(2) by (intro cleanup_gone) (simp_all add: tooltip_inv_def)
  ultimately show ?thesis by (rule gone_steps)
qed

theorem cleanup_leaves_nothing_witness:
  "\<exists>s t. reachable sample_config s \<and> outside_listening s \<and>
     tooltip_steps sample_config s [Unmount, Commit None] t \<and> gone t"
proof -
  obtain s where run: "sample_run pin_events = Some s" and *: "mounted s" "outside_listening s"
      "pin_timers s = 0"
    using sample_pinned by (auto split: option.splits)
  have r: "reachable sample_config s" using run by (rule reachable_run)
  have steps: "tooltip_steps sample_config s [Unmount, Commit None] ((cleanup s)\<lparr>container := None\<rparr>)"
    using *(1) by (blast intro: step_commit)
  from cleanup_leaves_nothing [OF r *(3) this] r steps *(2) show ?thesis by blast
qed

lemma vertical_as_horizontal: "calculateVerticalOffset = calculateHorizontalOffset"
  by (simp add: fun_eq_iff calculateVerticalOffset_def calculateHorizontalOffset_def Let_def)

text \<open>The side of one axis: right of the cursor for zero, left of it otherwise.\<close>

definition axis_fits :: "rat \<Rightarrow> rat \<Rightarrow> rat \<Rightarrow> rat \<Rightarrow> bool" where
  "axis_fits d x len window =
     (d = 0 \<and> x + (len + TOOLTIP_OFFSET) \<le> window \<or>
      d = - (len + TOOLTIP_OFFSET) \<and> 0 \<le> x - (len + TOOLTIP_OFFSET))"

lemma offset_fits:
  assumes "x + (len + TOOLTIP_OFFSET) \<le> window \<or> 0 \<le> x - (len + TOOLTIP_OFFSET)"
  shows "axis_fits (calculateHorizontalOffset c x len window) x len window"
  using assms by (auto simp: axis_fits_def calculateHorizontalOffset_def Let_def)

lemma offset_stable:
  assumes "0 \<le> len"
  shows "calculateHorizontalOffset (calculateHorizontalOffset c x len window) x len window =
    calculateHorizontalOffset c x len window"
  using assms by (auto simp: calculateHorizontalOffset_def Let_def TOOLTIP_OFFSET_def)

text \<open>
  C37. If a side of the cursor has room for the tooltip, on each axis it is put on a side that has; and the
  side does not change while the cursor rests, so that the tooltip does not flicker.
\<close>

theorem tooltip_stays_in_window:
  assumes "0 \<le> w" and "0 \<le> h"
    and "x + (w + TOOLTIP_OFFSET) \<le> windowW \<or> 0 \<le> x - (w + TOOLTIP_OFFSET)"
    and "y + (h + TOOLTIP_OFFSET) \<le> windowH \<or> 0 \<le> y - (h + TOOLTIP_OFFSET)"
    and "calculateTooltipOffset x y w h hOffset vOffset windowW windowH = (dx, dy)"
  shows "axis_fits dx x w windowW \<and> axis_fits dy y h windowH \<and>
    calculateTooltipOffset x y w h dx dy windowW windowH = (dx, dy)"
  using assms offset_fits [OF assms(3), of hOffset] offset_fits [OF assms(4), of vOffset]
    offset_stable [of w hOffset x windowW] offset_stable [of h vOffset y windowH]
  by (auto simp: calculateTooltipOffset_def vertical_as_horizontal)

theorem tooltip_stays_in_window_witness:
  "axis_fits 0 20 100 784 \<and> axis_fits (-60) 570 50 584 \<and>
   calculateTooltipOffset 20 570 100 50 0 (-60) 784 584 = (0, -60)"
  by (rule tooltip_stays_in_window [of 100 50 20 784 570 584 "-5" 0])
     (simp_all add: TOOLTIP_OFFSET_def calculateTooltipOffset_def calculateHorizontalOffset_def
       calculateVerticalOffset_def Let_def)

section \<open>What the code lets through\<close>

text \<open>
  A resize clears the hover of the controller and asks for no render, so that React goes on showing
  the tooltip: the orphan that the comment of \<open>updateWindowSize\<close> means to avoid.
\<close>

lemma resize_leaves_tooltip_shown:
  "(case sample_run (hover_events @ [Frame 1, Resize (400, 300)]) of None \<Rightarrow> False
    | Some s \<Rightarrow> \<not> hoverActive (ctl s) \<and> isTooltipVisible False (shown_view s) \<and> frames s = [] \<and> timeouts s = [])"
  by code_simp

text \<open>
  The state of React survives the effect, its controller does not: a run of the effect that follows one with a
  pinned tooltip shows it pinned from the first plot on, although nothing is pinned and no interaction outside is listened to.
\<close>

lemma stale_view_stays_pinned:
  "(case exec_all sample_config [Init 2 sample_plot] (start_effect (800, 600) stale_view None) of None \<Rightarrow> False
    | Some s \<Rightarrow> hasPlot (shown_view s) \<and> isPinned (shown_view s) \<and> isTooltipVisible True (shown_view s) \<and>
        \<not> pinned (ctl s) \<and> \<not> outside_listening s \<and> frames s = [] \<and> timeouts s = [])"
  by code_simp

text \<open>A plot that is created under a pinned tooltip has a cursor that moves: the lock is written when the pin changes.\<close>

lemma new_plot_not_locked:
  "(case sample_run (pin_events @ [Init 2 sample_plot]) of None \<Rightarrow> False
    | Some s \<Rightarrow> pinned (ctl s) \<and> \<not> effects_applied s \<and> frames s = [] \<and> timeouts s = [])"
  by code_simp

text \<open>
  The callback of a click is not cancelled by the cleanup: it pins a tooltip that is gone, and the render
  it asks for puts the listeners on the document.
\<close>

lemma late_click_listens:
  "(case sample_run (hover_events @ [Frame 1, Over_click True 1 sample_mouse sample_plot, Unmount, Pin_timer, Frame 2])
    of None \<Rightarrow> False | Some s \<Rightarrow> \<not> mounted s \<and> outside_listening s)"
  by code_simp

text \<open>
  A scroll between a click and its callback dismisses the tooltip; the callback then pins it without
  the data of the click. It is not visible, but the cursor is locked and the document listened to.
\<close>

lemma dismissed_click_pins:
  "(case sample_run (hover_events @ [Frame 1, Over_click True 1 sample_mouse sample_plot,
        Scroll sample_plot True [], Pin_timer, Timeout 3])
    of None \<Rightarrow> False
     | Some s \<Rightarrow> pinned (ctl s) \<and> clickData (ctl s) = None \<and> \<not> isTooltipVisible True (shown_view s) \<and>
         outside_listening s)"
  by code_simp

end
