(* ===== verification/Query_Response.thy ===== *)
theory Query_Response
  imports Query_Payload
begin

text \<open>
  From the answer of the backend to what the panels read: \<^verbatim>\<open>api/v5/queryRange/normalizeQueryRangeResponse.ts\<close>
  with the response types of \<^verbatim>\<open>types/api/v5/queryRange.ts\<close> and the result types of
  \<^verbatim>\<open>types/api/widgets/getQuery.ts\<close>. Objects are association lists in the order of insertion; what the
  code only hands on (meta data, warnings, page information, a distribution) is a text.
\<close>

section \<open>Values\<close>

text \<open>A value of the answer; an object or array is given by the text \<open>JSON.stringify\<close> makes of it.\<close>

datatype json_cell = C_null | C_undefined | C_num js_num | C_str string | C_bool bool | C_object string

definition cell_of :: "json_cell list \<Rightarrow> nat \<Rightarrow> json_cell" where
  "cell_of row i = (if i < length row then row ! i else C_undefined)"

section \<open>The answer of the backend\<close>

record ts_value =
  tv_timestamp :: int
  tv_value :: js_value
  tv_boolValue :: "bool option"

record time_series =
  ts_labels :: "(string \<times> json_cell) list option"
  ts_values :: "ts_value list"

record aggregation_bucket =
  ab_index :: nat
  ab_alias :: string
  ab_series :: "time_series list option"
  ab_predictedSeries :: "time_series list option"
  ab_upperBoundSeries :: "time_series list option"
  ab_lowerBoundSeries :: "time_series list option"
  ab_anomalyScores :: "time_series list option"

record time_series_data =
  td_queryName :: string
  td_valueType :: "string option"
  td_aggregations :: "aggregation_bucket list option"

datatype column_type = Group_column | Aggregation_column

record column_descriptor =
  cd_name :: string
  cd_queryName :: string
  cd_aggregationIndex :: int
  cd_columnType :: column_type

text \<open>A scalar result that carries aggregations is read as a time series too.\<close>

record scalar_data =
  sd_columns :: "column_descriptor list"
  sd_data :: "json_cell list list"
  sd_time_series :: "time_series_data option"

record raw_row =
  rr_timestamp :: string
  rr_data :: "(string \<times> json_cell) list"

record raw_data =
  rd_queryName :: string
  rd_pageInfo :: "string option"
  rd_rows :: "raw_row list option"

record distribution_data =
  di_queryName :: "string option"
  di_payload :: string

datatype v5_results =
    V_time_series "time_series_data list"
  | V_scalar "scalar_data list"
  | V_raw "raw_data list"
  | V_trace "raw_data list"
  | V_distribution "distribution_data list"
  | V_none

record v5_response =
  v5_results :: v5_results
  v5_data_warning :: "string list option"
  v5_meta :: "string option"
  v5_warning :: "string option"

section \<open>What the panels read\<close>

record series_meta =
  sm_alias :: string
  sm_index :: nat
  sm_queryName :: string

record series_item =
  si_labels :: "(string \<times> json_cell) list"
  si_labelsArray :: "(string \<times> json_cell) list"
  si_values :: "(int \<times> string) list"
  si_metaData :: series_meta

record table_column =
  tc_name :: string
  tc_queryName :: string
  tc_isValueColumn :: bool
  tc_id :: "string option"

record result_table =
  rt_columns :: "table_column list"
  rt_rows :: "(string \<times> json_cell) list list"

record list_item =
  li_timestamp :: string
  li_data :: "(string \<times> json_cell) list"

record query_result =
  qr_queryName :: "string option"
  qr_legend :: "string option"
  qr_series :: "series_item list option"
  qr_predictedSeries :: "series_item list option"
  qr_upperBoundSeries :: "series_item list option"
  qr_lowerBoundSeries :: "series_item list option"
  qr_anomalyScores :: "series_item list option"
  qr_list :: "list_item list option"
  qr_table :: "result_table option"
  qr_pageInfo :: "string option"
  qr_distribution :: "string option"
  qr_metric :: "(string \<times> string option) list option"

text \<open>A result without any of the optional parts.\<close>

definition plain_result :: "string option \<Rightarrow> string option \<Rightarrow> query_result" where
  "plain_result name legend =
     \<lparr>qr_queryName = name, qr_legend = legend, qr_series = None, qr_predictedSeries = None,
      qr_upperBoundSeries = None, qr_lowerBoundSeries = None, qr_anomalyScores = None, qr_list = None,
      qr_table = None, qr_pageInfo = None, qr_distribution = None, qr_metric = None\<rparr>"

record view_payload =
  vp_resultType :: string
  vp_result :: "query_result list"
  vp_warnings :: "string list option"
  vp_warning :: "string option"
  vp_meta :: "string option"

section \<open>Names and ids of columns\<close>

type_synonym legend_map = "(string \<times> string) list"
type_synonym aggregation_map = "(string \<times> v5_aggregation list) list"

definition aggregation_alias :: "v5_aggregation option \<Rightarrow> string option" where
  "aggregation_alias a = (case a of Some (Expression_Aggregation _ alias) \<Rightarrow> alias | _ \<Rightarrow> None)"

definition aggregation_expression :: "v5_aggregation option \<Rightarrow> string" where
  "aggregation_expression a = (case a of Some (Expression_Aggregation e _) \<Rightarrow> e | _ \<Rightarrow> '''')"

definition aggregations_of :: "column_descriptor \<Rightarrow> aggregation_map \<Rightarrow> v5_aggregation list" where
  "aggregations_of col aggs = (case map_of aggs (cd_queryName col) of Some l \<Rightarrow> l | None \<Rightarrow> [])"

definition column_aggregation :: "column_descriptor \<Rightarrow> aggregation_map \<Rightarrow> v5_aggregation option" where
  "column_aggregation col aggs = js_nth (aggregations_of col aggs) (cd_aggregationIndex col)"

definition getColName :: "column_descriptor \<Rightarrow> legend_map \<Rightarrow> aggregation_map \<Rightarrow> string" where
  "getColName col legendMap aggs =
     (if cd_columnType col = Group_column then cd_name col
      else
        let aggregation = column_aggregation col aggs;
            legend = map_of legendMap (cd_queryName col);
            alias = aggregation_alias aggregation;
            expr = aggregation_expression aggregation;
            aggregationsCount = length (aggregations_of col aggs)
        in if 0 < aggregationsCount then
             (if aggregationsCount = 1
              then str_or alias (str_or legend (str_or (Some expr) (cd_queryName col)))
              else str_or alias (str_or (Some expr) (cd_queryName col)))
           else str_or legend (cd_queryName col))"

definition getScalarColId :: "column_descriptor \<Rightarrow> aggregation_map \<Rightarrow> string" where
  "getScalarColId col aggs =
     (if cd_columnType col = Group_column then cd_name col
      else
        let expr = aggregation_expression (column_aggregation col aggs)
        in if 1 < length (aggregations_of col aggs) \<and> expr \<noteq> [] then cd_queryName col @ ''.'' @ expr
           else cd_queryName col)"

section \<open>Time series\<close>

datatype series_key = K_series | K_predictedSeries | K_upperBoundSeries | K_lowerBoundSeries | K_anomalyScores

definition series_of :: "series_key \<Rightarrow> aggregation_bucket \<Rightarrow> time_series list option" where
  "series_of k a =
     (case k of K_series \<Rightarrow> ab_series a | K_predictedSeries \<Rightarrow> ab_predictedSeries a
      | K_upperBoundSeries \<Rightarrow> ab_upperBoundSeries a | K_lowerBoundSeries \<Rightarrow> ab_lowerBoundSeries a
      | K_anomalyScores \<Rightarrow> ab_anomalyScores a)"

text \<open>\<open>Object.fromEntries\<close>\<close>

definition from_entries :: "('k \<times> 'v) list \<Rightarrow> ('k \<times> 'v) list" where
  "from_entries es = fold (\<lambda>(k, v). map_set k v) es []"

definition bool_text :: "bool option \<Rightarrow> string" where
  "bool_text b = (case b of None \<Rightarrow> ''undefined'' | Some True \<Rightarrow> ''true'' | Some False \<Rightarrow> ''false'')"

definition series_value :: "string option \<Rightarrow> ts_value \<Rightarrow> int \<times> string" where
  "series_value valueType v =
     (tv_timestamp v,
      if valueType = Some ''bool'' then bool_text (tv_boolValue v) else value_string (tv_value v))"

definition series_item_of :: "time_series_data \<Rightarrow> aggregation_bucket \<Rightarrow> time_series \<Rightarrow> series_item" where
  "series_item_of d a s =
     \<lparr>si_labels = (case ts_labels s of Some ls \<Rightarrow> from_entries ls | None \<Rightarrow> []),
      si_labelsArray = (case ts_labels s of Some ls \<Rightarrow> ls | None \<Rightarrow> []),
      si_values = map (series_value (td_valueType d)) (ts_values s),
      si_metaData = \<lparr>sm_alias = ab_alias a, sm_index = ab_index a, sm_queryName = td_queryName d\<rparr>\<rparr>"

definition processSeriesData :: "time_series_data \<Rightarrow> series_key \<Rightarrow> series_item list option" where
  "processSeriesData d k =
     map_option
       (\<lambda>aggregations. concat (map (\<lambda>a. case series_of k a of
            None \<Rightarrow> [] | Some ss \<Rightarrow> map (series_item_of d a) ss) aggregations))
       (td_aggregations d)"

definition legend_or :: "legend_map \<Rightarrow> string \<Rightarrow> string \<Rightarrow> string" where
  "legend_or legendMap name d = str_or (map_of legendMap name) d"

definition convertTimeSeriesData :: "time_series_data \<Rightarrow> legend_map \<Rightarrow> query_result" where
  "convertTimeSeriesData d legendMap =
     (plain_result (Some (td_queryName d)) (Some (legend_or legendMap (td_queryName d) (td_queryName d))))
       \<lparr>qr_series := processSeriesData d K_series,
        qr_predictedSeries := processSeriesData d K_predictedSeries,
        qr_upperBoundSeries := processSeriesData d K_upperBoundSeries,
        qr_lowerBoundSeries := processSeriesData d K_lowerBoundSeries,
        qr_anomalyScores := processSeriesData d K_anomalyScores\<rparr>"

section \<open>Tables\<close>

definition first_query_name :: "column_descriptor list \<Rightarrow> string" where
  "first_query_name columns = (case columns of c # _ \<Rightarrow> cd_queryName c | [] \<Rightarrow> [])"

definition table_column_of :: "legend_map \<Rightarrow> aggregation_map \<Rightarrow> column_descriptor \<Rightarrow> table_column" where
  "table_column_of legendMap aggs col =
     \<lparr>tc_name = getColName col legendMap aggs, tc_queryName = cd_queryName col,
      tc_isValueColumn = (cd_columnType col = Aggregation_column), tc_id = Some (getScalarColId col aggs)\<rparr>"

text \<open>\<open>rowData[columnId || columnName] = dataRow[colIndex]\<close> for each column.\<close>

definition column_key :: "legend_map \<Rightarrow> aggregation_map \<Rightarrow> column_descriptor \<Rightarrow> string" where
  "column_key legendMap aggs col = str_or (Some (getScalarColId col aggs)) (getColName col legendMap aggs)"

definition table_row ::
  "legend_map \<Rightarrow> aggregation_map \<Rightarrow> column_descriptor list \<Rightarrow> json_cell list \<Rightarrow> (string \<times> json_cell) list" where
  "table_row legendMap aggs columns dataRow =
     fold (\<lambda>i. map_set (column_key legendMap aggs (columns ! i)) (cell_of dataRow i)) [0..<length columns] []"

definition or_empty :: "'a list option \<Rightarrow> 'a list" where
  "or_empty l = (case l of Some xs \<Rightarrow> xs | None \<Rightarrow> [])"

definition scalar_table :: "legend_map \<Rightarrow> aggregation_map \<Rightarrow> scalar_data \<Rightarrow> result_table" where
  "scalar_table legendMap aggs s =
     \<lparr>rt_columns = map (table_column_of legendMap aggs) (sd_columns s),
      rt_rows = map (table_row legendMap aggs (sd_columns s)) (sd_data s)\<rparr>"

definition has_aggregations :: "scalar_data \<Rightarrow> bool" where
  "has_aggregations s =
     (case sd_time_series s of None \<Rightarrow> False | Some d \<Rightarrow> or_empty (td_aggregations d) \<noteq> [])"

definition convertScalarDataArrayToTable ::
  "scalar_data list \<Rightarrow> legend_map \<Rightarrow> aggregation_map \<Rightarrow> query_result list" where
  "convertScalarDataArrayToTable scalars legendMap aggs =
     map (\<lambda>s. let queryName = first_query_name (sd_columns s)
              in if has_aggregations s
                 then (convertTimeSeriesData (the (sd_time_series s)) legendMap)
                        \<lparr>qr_table := Some \<lparr>rt_columns = [], rt_rows = []\<rparr>\<rparr>
                 else (plain_result (Some queryName) (Some (legend_or legendMap queryName '''')))
                        \<lparr>qr_table := Some (scalar_table legendMap aggs s)\<rparr>)
       scalars"

text \<open>The row loop of the web format reads the id and name from the columns it has made.\<close>

definition web_key :: "table_column \<Rightarrow> string" where
  "web_key col = str_or (tc_id col) (tc_name col)"

definition web_row :: "table_column list \<Rightarrow> json_cell list \<Rightarrow> (string \<times> json_cell) list" where
  "web_row columns dataRow =
     fold (\<lambda>i. map_set (web_key (columns ! i)) (cell_of dataRow i)) [0..<length columns] []"

definition convertScalarWithFormatForWeb ::
  "scalar_data list \<Rightarrow> legend_map \<Rightarrow> aggregation_map \<Rightarrow> query_result list" where
  "convertScalarWithFormatForWeb scalars legendMap aggs =
     map (\<lambda>s. let columns = map (table_column_of legendMap aggs) (sd_columns s);
                  rows = map (web_row columns) (sd_data s);
                  queryName = first_query_name (sd_columns s)
              in (plain_result (Some queryName) (Some (legend_or legendMap queryName queryName)))
                   \<lparr>qr_table := Some \<lparr>rt_columns = columns, rt_rows = rows\<rparr>\<rparr>)
       scalars"

section \<open>Rows and distributions\<close>

definition cell_or_object :: "string \<Rightarrow> (string \<times> json_cell) list \<Rightarrow> json_cell" where
  "cell_or_object k row =
     (case map_of row k of None \<Rightarrow> C_object ''{}'' | Some C_null \<Rightarrow> C_object ''{}''
      | Some C_undefined \<Rightarrow> C_object ''{}'' | Some c \<Rightarrow> c)"

definition object_fields :: "string list" where
  "object_fields =
     [''attributes_string'', ''attributes_number'', ''attributes_bool'', ''resources_string'', ''scope_string'']"

definition raw_row_data :: "raw_row \<Rightarrow> (string \<times> json_cell) list" where
  "raw_row_data row =
     fold (\<lambda>k. map_set k (cell_or_object k (rr_data row))) object_fields
       (map_set ''date'' (C_str (rr_timestamp row)) (rr_data row))"

definition convertRawData :: "raw_data \<Rightarrow> legend_map \<Rightarrow> query_result" where
  "convertRawData d legendMap =
     (plain_result (Some (rd_queryName d)) (Some (legend_or legendMap (rd_queryName d) (rd_queryName d))))
       \<lparr>qr_pageInfo := rd_pageInfo d,
        qr_list := map_option (map (\<lambda>row. \<lparr>li_timestamp = rr_timestamp row, li_data = raw_row_data row\<rparr>))
          (rd_rows d)\<rparr>"

definition convertDistributionData :: "distribution_data \<Rightarrow> legend_map \<Rightarrow> query_result" where
  "convertDistributionData d legendMap =
     (plain_result (di_queryName d) None)\<lparr>qr_distribution := Some (di_payload d)\<rparr>"

definition convertV5DataByType ::
  "v5_results \<Rightarrow> legend_map \<Rightarrow> aggregation_map \<Rightarrow> string \<times> query_result list" where
  "convertV5DataByType results legendMap aggs =
     (case results of
        V_time_series ts \<Rightarrow> (''time_series'', map (\<lambda>d. convertTimeSeriesData d legendMap) ts)
      | V_scalar ss \<Rightarrow> (''scalar'', convertScalarDataArrayToTable ss legendMap aggs)
      | V_raw rs \<Rightarrow> (''raw'', map (\<lambda>d. convertRawData d legendMap) rs)
      | V_trace rs \<Rightarrow> (''trace'', map (\<lambda>d. convertRawData d legendMap) rs)
      | V_distribution ds \<Rightarrow> (''distribution'', map (\<lambda>d. convertDistributionData d legendMap) ds)
      | V_none \<Rightarrow> ('''', []))"

section \<open>The whole answer\<close>

definition aggregations_per_query :: "query_envelope list \<Rightarrow> aggregation_map" where
  "aggregations_per_query queries =
     fold (\<lambda>q acc. case q of
             Builder_Query sp \<Rightarrow>
               (case sp_aggregations sp of
                  Some aggs \<Rightarrow> if sp_name sp \<noteq> '''' then map_set (sp_name sp) aggs acc else acc
                | None \<Rightarrow> acc)
           | Builder_Formula _ \<Rightarrow> acc)
       queries []"

definition apply_legend :: "legend_map \<Rightarrow> query_result \<Rightarrow> query_result" where
  "apply_legend legendMap r =
     (let name = qr_queryName r;
          own = (case name of Some n \<Rightarrow> map_of legendMap n | None \<Rightarrow> None);
          legend = (if own = None then name else own);
          r = r\<lparr>qr_legend := own\<rparr>
      in if or_empty (qr_metric r) = [] then
           let r = r\<lparr>qr_legend := legend\<rparr>
           in if name = legend
              then r\<lparr>qr_metric := Some (map_set (case name of Some n \<Rightarrow> n | None \<Rightarrow> ''undefined'') name
                       (or_empty (qr_metric r)))\<rparr>
              else r
         else r)"

definition normalizeQueryRangeResponse ::
  "v5_response \<Rightarrow> query_envelope list \<Rightarrow> legend_map \<Rightarrow> bool \<Rightarrow> view_payload" where
  "normalizeQueryRangeResponse v5 params legendMap formatForWeb =
     (let aggs = aggregations_per_query params
      in case (formatForWeb, v5_results v5) of
           (True, V_scalar ss) \<Rightarrow>
             \<lparr>vp_resultType = ''scalar'', vp_result = convertScalarWithFormatForWeb ss legendMap aggs,
              vp_warnings = Some (or_empty (v5_data_warning v5)), vp_warning = v5_warning v5,
              vp_meta = v5_meta v5\<rparr>
         | (_, results) \<Rightarrow>
             let (resultType, result) = convertV5DataByType results legendMap aggs
             in \<lparr>vp_resultType = resultType, vp_result = map (apply_legend legendMap) result,
                 vp_warnings = None, vp_warning = v5_warning v5, vp_meta = v5_meta v5\<rparr>)"

end
