(* ===== verification/Query_Table.thy ===== *)
theory Query_Table
  imports Query_Response "HOL-Library.List_Lexorder" "HOL-Library.Char_ord"
begin

text \<open>
  From the results of a query to the rows and columns of a table:
  \<^verbatim>\<open>lib/query/createTableColumnsFromQuery.ts\<close>. The columns are objects that the code fills in place; here the
  list of columns is passed along. A query or formula of the panel is given by the fields the table
  reads, the cells are values of the answer, and \<open>uuid()\<close> is an argument.
\<close>

section \<open>Numbers with two decimals\<close>

text \<open>
  The double nearest to \<open>p / q\<close>, as \<open>n * 2 ^ k\<close> with 53 bits of \<open>n\<close>, ties to even.
\<close>

fun bits :: "nat \<Rightarrow> nat" where
  "bits n = (if n = 0 then 0 else Suc (bits (n div 2)))"

declare bits.simps [simp del]

definition half_even :: "nat \<Rightarrow> nat \<Rightarrow> nat" where
  "half_even p q =
     (let d = p div q; r = 2 * (p mod q)
      in if r < q then d else if q < r then Suc d else if even d then d else Suc d)"

definition scaled :: "nat \<Rightarrow> nat \<Rightarrow> int \<Rightarrow> nat \<times> nat" where
  "scaled p q k = (if 0 \<le> k then (p, q * 2 ^ nat k) else (p * 2 ^ nat (- k), q))"

definition nearest_double :: "nat \<Rightarrow> nat \<Rightarrow> nat \<times> int" where
  "nearest_double p q =
     (let k0 = int (bits p) - int (bits q) - 53;
          k = (case scaled p q k0 of (a, b) \<Rightarrow> if 2 ^ 53 * b \<le> a then k0 + 1 else k0)
      in case scaled p q k of (a, b) \<Rightarrow> (half_even a b, k))"

text \<open>\<open>x.toFixed(2)\<close> of the double of a decimal: the nearest hundredth, the larger one on ties.\<close>

definition hundredths :: "nat \<times> int \<Rightarrow> nat" where
  "hundredths d =
     (case d of (n, k) \<Rightarrow>
        if 0 \<le> k then n * 2 ^ nat k * 100
        else (200 * n + 2 ^ nat (- k)) div (2 * 2 ^ nat (- k)))"

definition two_digits :: "nat \<Rightarrow> string" where
  "two_digits n = [digit_char (n div 10), digit_char (n mod 10)]"

definition to_fixed_2 :: "js_num option \<Rightarrow> string" where
  "to_fixed_2 x =
     (case x of
        None \<Rightarrow> ''NaN''
      | Some (Infinite neg) \<Rightarrow> num_string (Infinite neg)
      | Some (Dec m e) \<Rightarrow>
          let a = nat \<bar>m\<bar>; p = (if 0 \<le> e then a * 10 ^ nat e else a); q = (if 0 \<le> e then 1 else 10 ^ nat (- e))
          in if 10 ^ 21 * q \<le> p then num_string (Dec m e)
             else
               let n = (if a = 0 then 0 else hundredths (nearest_double p q))
               in (if m < 0 then ''-'' else []) @ nat_digits (n div 100) @ ''.'' @ two_digits (n mod 100))"

section \<open>Columns\<close>

record staged_query =
  sq_queryName :: string
  sq_legend :: string
  sq_aggregateOperator :: "string option"
  sq_attribute_key :: "string option"
  sq_expression :: string

record staged =
  st_builder :: bool
  st_queryData :: "staged_query list"
  st_queryFormulas :: "staged_query list"

datatype column_kind = Field | Operator | Formula

record dynamic_column =
  dc_query :: staged_query
  dc_field :: string
  dc_dataIndex :: string
  dc_title :: string
  dc_data :: "json_cell list"
  dc_type :: column_kind
  dc_id :: "string option"

text \<open>\<open>/F\d+/.test(s)\<close>\<close>

fun isFormula :: "string \<Rightarrow> bool" where
  "isFormula (c # d # s) = (c = CHR ''F'' \<and> is_digit d \<or> isFormula (d # s))"
| "isFormula _ = False"

definition initial_query :: staged_query where
  "initial_query =
     \<lparr>sq_queryName = ''A'', sq_legend = [], sq_aggregateOperator = Some ''count'', sq_attribute_key = Some [],
      sq_expression = ''A''\<rparr>"

definition initial_formula :: staged_query where
  "initial_formula =
     \<lparr>sq_queryName = ''F1'', sq_legend = [], sq_aggregateOperator = None, sq_attribute_key = None,
      sq_expression = []\<rparr>"

text \<open>\<open>None\<close> is the error for a query that is not of the builder.\<close>

definition getQueryByName :: "staged \<Rightarrow> string option \<Rightarrow> bool \<Rightarrow> staged_query option" where
  "getQueryByName query currentQueryName formulas =
     (if st_builder query then
        Some (case js_find (\<lambda>q. Some (sq_queryName q) = currentQueryName)
                     (if formulas then st_queryFormulas query else st_queryData query) of
                Some q \<Rightarrow> q
              | None \<Rightarrow> if formulas then initial_formula else initial_query)
      else None)"

definition isValueExist :: "string \<Rightarrow> dynamic_column list \<Rightarrow> bool" where
  "isValueExist value columns = list_ex (\<lambda>c. dc_dataIndex c = value) columns"

definition addLabels ::
  "staged_query \<Rightarrow> string \<Rightarrow> string option \<Rightarrow> dynamic_column list \<Rightarrow> dynamic_column list" where
  "addLabels q lab columnId columns =
     (if isValueExist lab columns then columns
      else columns @ [\<lparr>dc_query = q, dc_field = lab, dc_dataIndex = lab, dc_title = lab, dc_data = [],
             dc_type = Field, dc_id = columnId\<rparr>])"

definition addOperatorFormulaColumns ::
  "staged_query \<Rightarrow> bool \<Rightarrow> string option \<Rightarrow> string option \<Rightarrow> dynamic_column list \<Rightarrow> dynamic_column list" where
  "addOperatorFormulaColumns q builder customLabel columnId columns =
     (if isFormula (sq_queryName q) then
        let formulaLabel = (if sq_legend q \<noteq> [] then sq_legend q
                            else sq_queryName q @ ''('' @ sq_expression q @ '')'')
        in columns @ [\<lparr>dc_query = q, dc_field = sq_queryName q, dc_dataIndex = sq_queryName q,
             dc_title = str_or customLabel formulaLabel, dc_data = [], dc_type = Formula, dc_id = columnId\<rparr>]
      else if builder then
        let operator = (case sq_aggregateOperator q of Some s \<Rightarrow> s | None \<Rightarrow> ''undefined'');
            operatorLabel =
              (if sq_legend q \<noteq> [] then sq_legend q
               else if truthy_str (sq_attribute_key q) then operator @ ''('' @ the (sq_attribute_key q) @ '')''
               else operator)
        in columns @ [\<lparr>dc_query = q, dc_field = sq_queryName q,
             dc_dataIndex = str_or customLabel (sq_queryName q), dc_title = str_or customLabel operatorLabel,
             dc_data = [], dc_type = Operator, dc_id = columnId\<rparr>]
      else columns)"

definition processTableColumns ::
  "result_table \<Rightarrow> staged_query \<Rightarrow> bool \<Rightarrow> dynamic_column list \<Rightarrow> dynamic_column list" where
  "processTableColumns table q builder columns =
     fold (\<lambda>col cs. if tc_isValueColumn col
                    then addOperatorFormulaColumns q builder (Some (tc_name col)) (tc_id col) cs
                    else addLabels q (tc_name col) (tc_id col) cs)
       (rt_columns table) columns"

definition processSeriesColumns ::
  "series_item list \<Rightarrow> staged_query \<Rightarrow> bool \<Rightarrow> string option \<Rightarrow> dynamic_column list \<Rightarrow> dynamic_column list" where
  "processSeriesColumns series q builder queryName columns =
     (let isValuesColumnExist = list_ex (\<lambda>s. si_values s \<noteq> []) series;
          isEveryValuesExist = list_all (\<lambda>s. si_values s \<noteq> []) series;
          cs = (if isValuesColumnExist
                then addOperatorFormulaColumns q builder
                       (if isEveryValuesExist then None else Some (sq_queryName q)) None columns
                else columns)
      in fold (\<lambda>s cs. fold (\<lambda>(lab, _) cs. if Some lab = queryName then cs else addLabels q lab None cs)
                 (si_labelsArray s) cs)
           series cs)"

definition columns_of_result ::
  "staged \<Rightarrow> query_result \<Rightarrow> dynamic_column list \<Rightarrow> dynamic_column list option" where
  "columns_of_result query r columns =
     (case getQueryByName query (qr_queryName r)
             (case qr_queryName r of Some n \<Rightarrow> isFormula n | None \<Rightarrow> False) of
        None \<Rightarrow> None
      | Some q \<Rightarrow>
          let cs = (case qr_list r of
                      None \<Rightarrow> columns
                    | Some items \<Rightarrow> fold (\<lambda>i cs. fold (\<lambda>(lab, _) cs. addLabels q lab None cs)
                         (object_entries (li_data i)) cs) items columns);
              cs = (case qr_table r of None \<Rightarrow> cs | Some t \<Rightarrow> processTableColumns t q (st_builder query) cs)
          in Some (case qr_series r of
                     None \<Rightarrow> cs
                   | Some ss \<Rightarrow> processSeriesColumns ss q (st_builder query) (qr_queryName r) cs))"

fun getDynamicColumns_from ::
  "staged \<Rightarrow> query_result list \<Rightarrow> dynamic_column list \<Rightarrow> dynamic_column list option" where
  "getDynamicColumns_from query [] columns = Some columns"
| "getDynamicColumns_from query (r # rs) columns =
     (case columns_of_result query r columns of
        None \<Rightarrow> None | Some cs \<Rightarrow> getDynamicColumns_from query rs cs)"

definition getDynamicColumns :: "query_result list \<Rightarrow> staged \<Rightarrow> dynamic_column list option" where
  "getDynamicColumns results query = getDynamicColumns_from query results []"

section \<open>Filling the columns\<close>

definition not_available :: json_cell where
  "not_available = C_str ''N/A''"

definition push_data :: "json_cell \<Rightarrow> dynamic_column \<Rightarrow> dynamic_column" where
  "push_data v c = c\<lparr>dc_data := dc_data c @ [v]\<rparr>"

definition push_at :: "nat \<Rightarrow> json_cell \<Rightarrow> dynamic_column list \<Rightarrow> dynamic_column list" where
  "push_at i v cs = cs[i := push_data v (cs ! i)]"

text \<open>Pushing to the first column with a property.\<close>

fun push_first :: "(dynamic_column \<Rightarrow> bool) \<Rightarrow> json_cell \<Rightarrow> dynamic_column list \<Rightarrow> dynamic_column list" where
  "push_first p v [] = []"
| "push_first p v (c # cs) = (if p c then push_data v c # cs else c # push_first p v cs)"

subsection \<open>Series\<close>

text \<open>The columns, the keys not used yet in the row, and the queries whose labels another has.\<close>

record fill_state =
  fl_columns :: "dynamic_column list"
  fl_unused :: "string list"
  fl_equal :: "string list"

definition fillEmptyRowCells :: "string \<Rightarrow> fill_state \<Rightarrow> fill_state" where
  "fillEmptyRowCells field s =
     (if field \<in> set (fl_unused s)
      then s\<lparr>fl_columns := push_first (\<lambda>c. dc_field c = field) not_available (fl_columns s),
             fl_unused := removeAll field (fl_unused s)\<rparr>
      else s)"

definition findSeriaValueFromAnotherQuery ::
  "(string \<times> json_cell) list \<Rightarrow> query_result option \<Rightarrow> series_item option" where
  "findSeriaValueFromAnotherQuery currentLabels nextQuery =
     (case nextQuery of
        None \<Rightarrow> None
      | Some r \<Rightarrow>
          (case qr_series r of
             None \<Rightarrow> None
           | Some series \<Rightarrow>
               js_last (filter (\<lambda>s. object_entries (si_labels s) = object_entries currentLabels) series)))"

definition fillAggregationData :: "nat \<Rightarrow> string \<Rightarrow> fill_state \<Rightarrow> fill_state" where
  "fillAggregationData i v s =
     s\<lparr>fl_columns := push_at i (C_str (to_fixed_2 (parse_float v))) (fl_columns s),
       fl_unused := removeAll (dc_field (fl_columns s ! i)) (fl_unused s)\<rparr>"

definition fillRestAggregationData ::
  "nat \<Rightarrow> query_result list \<Rightarrow> series_item \<Rightarrow> bool \<Rightarrow> fill_state \<Rightarrow> fill_state" where
  "fillRestAggregationData i queryTableData seria isEqualQuery s =
     (let field = dc_field (fl_columns s ! i);
          nextQueryData = js_find (\<lambda>q. qr_queryName q = Some field) queryTableData;
          targetSeria = findSeriaValueFromAnotherQuery (si_labels seria) nextQueryData
      in if targetSeria \<noteq> None then
           (if field \<notin> set (fl_equal s) then s\<lparr>fl_equal := fl_equal s @ [field]\<rparr> else s)
         else if \<not> isEqualQuery then s\<lparr>fl_columns := push_at i not_available (fl_columns s)\<rparr>
         else s)"

definition fillLabelsData :: "nat \<Rightarrow> series_item \<Rightarrow> fill_state \<Rightarrow> fill_state" where
  "fillLabelsData i seria s =
     fold (\<lambda>(key, currentValue) s.
             if dc_field (fl_columns s ! i) = key
             then s\<lparr>fl_columns := push_at i currentValue (fl_columns s), fl_unused := removeAll key (fl_unused s)\<rparr>
             else s)
       (object_entries (si_labels seria)) s"

definition fill_series_column ::
  "query_result list \<Rightarrow> string option \<Rightarrow> bool \<Rightarrow> series_item \<Rightarrow> nat \<Rightarrow> fill_state \<Rightarrow> fill_state" where
  "fill_series_column queryTableData queryName isEqualQuery seria i s =
     (let c = fl_columns s ! i
      in if queryName = Some (dc_field c) then
           (case si_values seria of
              [] \<Rightarrow> s
            | (_, v) # _ \<Rightarrow> fillAggregationData i (to_fixed_2 (parse_float v)) s)
         else if dc_type c \<noteq> Field then fillRestAggregationData i queryTableData seria isEqualQuery s
         else if isEqualQuery then s
         else fillEmptyRowCells (dc_field c) (fillLabelsData i seria s))"

definition fillDataFromSeries ::
  "query_result list \<Rightarrow> query_result \<Rightarrow> dynamic_column list \<times> string list \<Rightarrow> dynamic_column list \<times> string list" where
  "fillDataFromSeries queryTableData r st =
     (case qr_series r of
        None \<Rightarrow> st
      | Some series \<Rightarrow>
          let isEqualQuery = (case qr_queryName r of Some n \<Rightarrow> n \<in> set (snd st) | None \<Rightarrow> False)
          in fold (\<lambda>seria (columns, eq).
                 let s = fold (fill_series_column queryTableData (qr_queryName r) isEqualQuery seria)
                           [0..<length columns]
                           \<lparr>fl_columns = columns, fl_unused = remdups (map dc_field columns), fl_equal = eq\<rparr>
                 in (fl_columns s, fl_equal s))
               series st)"

subsection \<open>Lists\<close>

definition list_cell :: "json_cell \<Rightarrow> json_cell" where
  "list_cell v =
     (case v of
        C_str s \<Rightarrow> if s \<noteq> [] then C_str s else not_available
      | C_num x \<Rightarrow> C_str (num_string x)
      | C_bool b \<Rightarrow> C_str (if b then ''true'' else ''false'')
      | C_object t \<Rightarrow> C_str t
      | C_null \<Rightarrow> C_str []
      | C_undefined \<Rightarrow> C_str [])"

definition fillDataFromList :: "list_item \<Rightarrow> dynamic_column list \<Rightarrow> dynamic_column list" where
  "fillDataFromList item columns =
     map (\<lambda>c. if isFormula (dc_field c) then c
              else fold (\<lambda>(lab, v) c. if dc_dataIndex c = lab then push_data (list_cell v) c else c)
                     (object_entries (li_data item)) c)
       columns"

subsection \<open>Tables\<close>

text \<open>\<open>Number(value)\<close> of a text reads it without the white space around it.\<close>

definition processTableRowValue :: "json_cell \<Rightarrow> json_cell" where
  "processTableRowValue v =
     (case v of
        C_null \<Rightarrow> not_available
      | C_undefined \<Rightarrow> not_available
      | C_str s \<Rightarrow>
          if s = [] then not_available
          else (case string_num (js_trim s) of Some n \<Rightarrow> C_num n | None \<Rightarrow> C_str s)
      | C_object t \<Rightarrow> C_str t
      | C_num n \<Rightarrow> C_num n
      | C_bool b \<Rightarrow> C_num (Dec (if b then 1 else 0) 0))"

definition column_field :: "dynamic_column \<Rightarrow> string" where
  "column_field c = str_or (dc_id c) (str_or (Some (dc_title c)) (dc_field c))"

definition table_cell :: "(string \<times> json_cell) list \<Rightarrow> dynamic_column \<Rightarrow> json_cell" where
  "table_cell rowData c =
     (case map_of rowData (column_field c) of Some v \<Rightarrow> processTableRowValue v | None \<Rightarrow> not_available)"

definition fill_table_row :: "(string \<times> json_cell) list \<Rightarrow> dynamic_column list \<Rightarrow> dynamic_column list" where
  "fill_table_row rowData columns =
     (let unused = remdups (map (\<lambda>c. str_or (dc_id c) (dc_title c)) columns);
          filled = map (\<lambda>c. push_data (table_cell rowData c) c) columns;
          rest = filter (\<lambda>k. k \<notin> column_field ` set columns) unused
      in fold (\<lambda>k cs. push_first (\<lambda>c. dc_id c = Some k \<or> dc_title c = k) not_available cs) rest filled)"

definition fillDataFromTable :: "query_result \<Rightarrow> dynamic_column list \<Rightarrow> dynamic_column list" where
  "fillDataFromTable r columns =
     (case qr_table r of None \<Rightarrow> columns | Some t \<Rightarrow> fold fill_table_row (rt_rows t) columns)"

subsection \<open>All results\<close>

definition fill_result ::
  "query_result list \<Rightarrow> query_result \<Rightarrow> dynamic_column list \<times> string list \<Rightarrow> dynamic_column list \<times> string list" where
  "fill_result queryTableData r st =
     (let (columns, eq) = fillDataFromSeries queryTableData r st;
          columns = fold fillDataFromList (or_empty (qr_list r)) columns
      in (fillDataFromTable r columns, eq))"

definition result_columns :: "dynamic_column list \<Rightarrow> dynamic_column list" where
  "result_columns cols =
     filter (\<lambda>c. dc_type c = Field) cols @ filter (\<lambda>c. dc_type c = Operator) cols @
     filter (\<lambda>c. dc_type c = Formula) cols"

definition fillColumnsData :: "query_result list \<Rightarrow> dynamic_column list \<Rightarrow> dynamic_column list \<times> nat" where
  "fillColumnsData queryTableData cols =
     (let filled = fst (fold (fill_result queryTableData) queryTableData (result_columns cols, []))
      in (filled, case filled of [] \<Rightarrow> 0 | c # _ \<Rightarrow> length (dc_data c)))"

section \<open>Rows and columns of the table\<close>

definition row_key :: "dynamic_column \<Rightarrow> string" where
  "row_key c = str_or (dc_id c) (dc_dataIndex c)"

text \<open>\<open>uid\<close> gives the text of the n-th call of \<open>uuid()\<close>; each cell of a row makes a new key.\<close>

definition generate_row :: "(nat \<Rightarrow> string) \<Rightarrow> dynamic_column list \<Rightarrow> nat \<Rightarrow> (string \<times> json_cell) list" where
  "generate_row uid columns i =
     fold (\<lambda>j acc. map_set ''key'' (C_str (uid (i * length columns + j)))
                     (map_set (row_key (columns ! j)) (cell_of (dc_data (columns ! j)) i) acc))
       [0..<length columns] []"

definition generateData :: "(nat \<Rightarrow> string) \<Rightarrow> dynamic_column list \<Rightarrow> nat \<Rightarrow> (string \<times> json_cell) list list" where
  "generateData uid columns rowsLength = map (generate_row uid columns) [0..<rowsLength]"

text \<open>A column of the rendered table: its key and its title.\<close>

definition generateTableColumns :: "dynamic_column list \<Rightarrow> (string \<times> string) list" where
  "generateTableColumns columns = map (\<lambda>c. (row_key c, dc_title c)) columns"

definition getColumnUnit :: "string \<Rightarrow> (string \<times> string) list \<Rightarrow> string option" where
  "getColumnUnit columnKey columnUnits =
     (case map_of columnUnits columnKey of
        Some u \<Rightarrow> Some (if u \<noteq> [] then u else ''none'')
      | None \<Rightarrow>
          if CHR ''.'' \<in> set columnKey then
            (case map_of columnUnits (hd (js_split (CHR ''.'') columnKey)) of
               Some u \<Rightarrow> Some (if u \<noteq> [] then u else ''none'')
             | None \<Rightarrow> None)
          else None)"

definition getColumnWidth :: "string \<Rightarrow> (string \<times> int) list \<Rightarrow> int option" where
  "getColumnWidth columnKey columnWidths =
     (if truthy_num (map_of columnWidths columnKey) then map_of columnWidths columnKey
      else if CHR ''.'' \<in> set columnKey then map_of columnWidths (hd (js_split (CHR ''.'') columnKey))
      else None)"

record rendered_table =
  rd_columns :: "(string \<times> string) list"
  rd_dataSource :: "(string \<times> json_cell) list list"
  rd_rowsLength :: nat

text \<open>
  \<open>sort\<close> with a comparator that never answers 0 keeps results of one name in their order. The type of a
  result asks for a name; only a distribution, which no table shows, can be without.
\<close>

definition sort_name :: "query_result \<Rightarrow> string" where
  "sort_name r = (case qr_queryName r of Some n \<Rightarrow> n | None \<Rightarrow> ''undefined'')"

definition createTableColumnsFromQuery ::
  "(nat \<Rightarrow> string) \<Rightarrow> staged \<Rightarrow> query_result list \<Rightarrow> bool \<Rightarrow> rendered_table option" where
  "createTableColumnsFromQuery uid query queryTableData has_actions =
     (let sorted = sort_key sort_name queryTableData
      in case getDynamicColumns sorted query of
           None \<Rightarrow> None
         | Some dynamicColumns \<Rightarrow>
             let (filled, rowsLength) = fillColumnsData sorted dynamicColumns;
                 dataSource = generateData uid filled rowsLength;
                 columns = generateTableColumns filled
             in Some \<lparr>rd_columns = (if has_actions \<and> dataSource \<noteq> [] then columns @ [(''actions'', ''Actions'')]
                                   else columns),
                      rd_dataSource = dataSource, rd_rowsLength = rowsLength\<rparr>)"

section \<open>Tables of scalar results\<close>

lemma str_or_text [simp]: "str_or (Some s) d = (if s \<noteq> [] then s else d)" "str_or None d = d"
  by (simp_all add: str_or_def)

lemma push_data_fields [simp]:
  "dc_id (push_data v c) = dc_id c" "dc_title (push_data v c) = dc_title c" "dc_field (push_data v c) = dc_field c"
  "dc_type (push_data v c) = dc_type c" "dc_dataIndex (push_data v c) = dc_dataIndex c"
  "dc_data (push_data v c) = dc_data c @ [v]" "column_field (push_data v c) = column_field c"
  "table_cell row (push_data v c) = table_cell row c" "row_key (push_data v c) = row_key c"
  by (simp_all add: push_data_def column_field_def table_cell_def row_key_def)

text \<open>A column that has an id or a title; each row of a table gives it one cell.\<close>

definition titled_column :: "dynamic_column \<Rightarrow> bool" where
  "titled_column c = (truthy_str (dc_id c) \<or> dc_title c \<noteq> [])"

definition add_cells :: "(string \<times> json_cell) list list \<Rightarrow> dynamic_column \<Rightarrow> dynamic_column" where
  "add_cells rows c = c\<lparr>dc_data := dc_data c @ map (\<lambda>row. table_cell row c) rows\<rparr>"

lemma add_cells_fields [simp]:
  "titled_column (add_cells rows c) = titled_column c" "row_key (add_cells rows c) = row_key c"
  "dc_data (add_cells rows c) = dc_data c @ map (\<lambda>row. table_cell row c) rows" "dc_id (add_cells rows c) = dc_id c"
  "table_cell row (add_cells rows c) = table_cell row c"
  by (simp_all add: add_cells_def titled_column_def row_key_def table_cell_def column_field_def)

lemma add_cells_add: "add_cells rows' (add_cells rows c) = add_cells (rows @ rows') c"
  by (simp add: add_cells_def table_cell_def column_field_def)

lemma add_cells_Nil [simp]: "add_cells [] c = c"
  by (simp add: add_cells_def)

lemma map_add_cells_Nil [simp]: "map (add_cells []) columns = columns"
  by (simp add: map_idI)

lemma push_add_cells: "push_data (table_cell row c) c = add_cells [row] c"
  by (simp add: push_data_def add_cells_def)

lemma titled_field: "titled_column c \<Longrightarrow> str_or (dc_id c) (dc_title c) = column_field c"
  by (auto simp: titled_column_def column_field_def truthy_str_def split: option.splits)

lemma fill_row_named:
  assumes "\<forall>c\<in>set columns. titled_column c"
  shows "fill_table_row row columns = map (add_cells [row]) columns"
proof -
  have "filter (\<lambda>k. k \<notin> column_field ` set columns)
      (remdups (map (\<lambda>c. str_or (dc_id c) (dc_title c)) columns)) = []"
    using assms by (auto simp: filter_empty_conv titled_field)
  then show ?thesis by (simp add: fill_table_row_def push_add_cells)
qed

lemma fill_rows_named:
  "\<forall>c\<in>set columns. titled_column c \<Longrightarrow> fold fill_table_row rows columns = map (add_cells rows) columns"
proof (induction rows arbitrary: columns)
  case (Cons row rows)
  then have "\<forall>c\<in>set (map (add_cells [row]) columns). titled_column c" by simp
  from Cons.IH [OF this] Cons.prems show ?case by (simp add: fill_row_named comp_def add_cells_add)
qed simp

text \<open>A result with a table only, and the rows of a list of results.\<close>

definition table_only :: "query_result \<Rightarrow> bool" where
  "table_only r = (qr_series r = None \<and> qr_list r = None)"

definition table_rows :: "query_result \<Rightarrow> (string \<times> json_cell) list list" where
  "table_rows r = (case qr_table r of Some t \<Rightarrow> rt_rows t | None \<Rightarrow> [])"

lemma fill_result_table:
  assumes "table_only r" and "\<forall>c\<in>set columns. titled_column c"
  shows "fill_result results r (columns, eq) = (map (add_cells (table_rows r)) columns, eq)"
  using assms
  by (simp add: fill_result_def fillDataFromSeries_def table_only_def or_empty_def fillDataFromTable_def
      table_rows_def fill_rows_named map_idI split: option.split)

lemma fill_results_tables:
  assumes "\<forall>r\<in>set rs. table_only r" and "\<forall>c\<in>set columns. titled_column c"
  shows "fold (fill_result results) rs (columns, eq) =
    (map (add_cells (concat (map table_rows rs))) columns, eq)"
  using assms
proof (induction rs arbitrary: columns)
  case (Cons r rs)
  then have "\<forall>c\<in>set (map (add_cells (table_rows r)) columns). titled_column c" by simp
  with Cons show ?case by (simp add: fill_result_table comp_def add_cells_add)
qed (simp add: map_idI)

lemma set_result_columns [simp]: "set (result_columns cols) = set cols"
proof -
  have "dc_type c = Field \<or> dc_type c = Operator \<or> dc_type c = Formula" for c :: dynamic_column
    by (cases "dc_type c") auto
  then show ?thesis by (auto simp: result_columns_def)
qed

lemma fill_columns_tables:
  assumes "\<forall>r\<in>set rs. table_only r" and "\<forall>c\<in>set cols. titled_column c \<and> dc_data c = []"
  shows "fst (fillColumnsData rs cols) = map (add_cells (concat (map table_rows rs))) (result_columns cols)"
    and "cols \<noteq> [] \<Longrightarrow> snd (fillColumnsData rs cols) = length (concat (map table_rows rs))"
proof -
  have named: "\<forall>c\<in>set (result_columns cols). titled_column c" using assms(2) by simp
  show fill: "fst (fillColumnsData rs cols) = map (add_cells (concat (map table_rows rs))) (result_columns cols)"
    by (simp add: fillColumnsData_def Let_def fill_results_tables [OF assms(1) named])
  assume "cols \<noteq> []"
  then obtain c cs where c: "result_columns cols = c # cs"
    by (cases "result_columns cols") (use set_result_columns [of cols] in auto)
  with set_result_columns [of cols] have "c \<in> set cols" by auto
  with assms(2) have "dc_data c = []" by simp
  moreover have "snd (fillColumnsData rs cols) =
      (case fst (fillColumnsData rs cols) of [] \<Rightarrow> 0 | c # _ \<Rightarrow> length (dc_data c))"
    by (simp add: fillColumnsData_def Let_def)
  ultimately show "snd (fillColumnsData rs cols) = length (concat (map table_rows rs))"
    by (simp add: fill c)
qed

subsection \<open>One row\<close>

lemma generate_row_keeps:
  assumes "k \<noteq> ''key''" and "\<forall>j\<in>set js. row_key (columns ! j) = k \<longrightarrow> cell_of (dc_data (columns ! j)) i = v"
    and "map_of acc k = Some v \<or> (\<exists>j\<in>set js. row_key (columns ! j) = k)"
  shows "map_of (fold (\<lambda>j acc. map_set ''key'' (C_str (uid (i * length columns + j)))
      (map_set (row_key (columns ! j)) (cell_of (dc_data (columns ! j)) i) acc)) js acc) k = Some v"
  using assms by (induction js arbitrary: acc) auto

lemma generate_row_cell:
  assumes "k \<noteq> ''key''" and "c \<in> set columns" and "row_key c = k"
    and "\<forall>d\<in>set columns. row_key d = k \<longrightarrow> cell_of (dc_data d) i = v"
  shows "map_of (generate_row uid columns i) k = Some v"
  unfolding generate_row_def
proof (rule generate_row_keeps [OF assms(1)])
  show "\<forall>j\<in>set [0..<length columns]. row_key (columns ! j) = k \<longrightarrow> cell_of (dc_data (columns ! j)) i = v"
    using assms(4) by simp
  show "map_of [] k = Some v \<or> (\<exists>j\<in>set [0..<length columns]. row_key (columns ! j) = k)"
    using assms(2,3) by (auto simp: in_set_conv_nth)
qed

subsection \<open>The columns of a scalar answer\<close>

definition column_key_ok :: "legend_map \<Rightarrow> aggregation_map \<Rightarrow> string set \<Rightarrow> column_descriptor \<Rightarrow> bool" where
  "column_key_ok legendMap aggs names c =
     (getScalarColId c aggs \<noteq> [] \<and> getScalarColId c aggs \<noteq> ''key'' \<and>
      (if cd_columnType c = Group_column then \<not> isFormula (cd_name c) \<and> cd_name c \<notin> names
       else getColName c legendMap aggs \<noteq> [] \<and> getColName c legendMap aggs \<in> names))"

definition scalar_keys_ok :: "legend_map \<Rightarrow> aggregation_map \<Rightarrow> string set \<Rightarrow> scalar_data \<Rightarrow> bool" where
  "scalar_keys_ok legendMap aggs names s =
     (distinct (map (\<lambda>c. getScalarColId c aggs) (sd_columns s)) \<and>
      (\<forall>c\<in>set (sd_columns s). column_key_ok legendMap aggs names c))"

definition column_ok :: "string set \<Rightarrow> dynamic_column \<Rightarrow> bool" where
  "column_ok names d =
     (dc_data d = [] \<and> (\<exists>k. dc_id d = Some k \<and> k \<noteq> [] \<and> k \<noteq> ''key'') \<and>
      (if dc_type d = Field then dc_id d = Some (dc_dataIndex d)
       else isFormula (dc_dataIndex d) \<or> dc_dataIndex d \<in> names))"

definition column_ids :: "dynamic_column list \<Rightarrow> string set" where
  "column_ids cs = {k. \<exists>d\<in>set cs. dc_id d = Some k}"

abbreviation columns_ok :: "string set \<Rightarrow> dynamic_column list \<Rightarrow> bool" where
  "columns_ok names cs \<equiv> \<forall>d\<in>set cs. column_ok names d"

lemma group_column_added:
  assumes "columns_ok names cs" and "\<not> isFormula n" "n \<notin> names" "n \<noteq> []" "n \<noteq> ''key''"
  shows "columns_ok names (addLabels q n (Some n) cs) \<and>
    insert n (column_ids cs) \<subseteq> column_ids (addLabels q n (Some n) cs)"
proof (cases "isValueExist n cs")
  case True
  then obtain d where d: "d \<in> set cs" "dc_dataIndex d = n" by (auto simp: isValueExist_def list_ex_iff)
  with assms have "dc_id d = Some n" by (auto simp: column_ok_def split: if_splits)
  with d True assms(1) show ?thesis by (auto simp: addLabels_def column_ids_def)
next
  case False
  with assms show ?thesis by (auto simp: addLabels_def column_ids_def column_ok_def)
qed

lemma value_column_added:
  assumes "columns_ok names cs" and "n \<noteq> []" "n \<in> names" "k \<noteq> []" "k \<noteq> ''key''"
  shows "columns_ok names (addOperatorFormulaColumns q True (Some n) (Some k) cs) \<and>
    insert k (column_ids cs) \<subseteq> column_ids (addOperatorFormulaColumns q True (Some n) (Some k) cs)"
  using assms by (auto simp: addOperatorFormulaColumns_def column_ids_def column_ok_def Let_def)

lemma table_columns_added:
  assumes "columns_ok names cs"
    and "\<forall>c\<in>set cols. column_key_ok legendMap aggs names c"
  shows "columns_ok names (processTableColumns \<lparr>rt_columns = map (table_column_of legendMap aggs) cols, rt_rows = rows\<rparr> q True cs) \<and>
    (\<lambda>c. getScalarColId c aggs) ` set cols \<union> column_ids cs \<subseteq>
      column_ids (processTableColumns \<lparr>rt_columns = map (table_column_of legendMap aggs) cols, rt_rows = rows\<rparr> q True cs)"
  using assms
proof (induction cols arbitrary: cs)
  case Nil
  then show ?case by (simp add: processTableColumns_def)
next
  case (Cons c cols)
  let ?t = "table_column_of legendMap aggs c"
  let ?cs = "if tc_isValueColumn ?t then addOperatorFormulaColumns q True (Some (tc_name ?t)) (tc_id ?t) cs
    else addLabels q (tc_name ?t) (tc_id ?t) cs"
  have step: "columns_ok names ?cs \<and> insert (getScalarColId c aggs) (column_ids cs) \<subseteq> column_ids ?cs"
  proof (cases "cd_columnType c")
    case Group_column
    then show ?thesis
      using group_column_added [OF Cons.prems(1), of "cd_name c" q] Cons.prems(2)
      by (simp add: table_column_of_def getColName_def getScalarColId_def column_key_ok_def)
  next
    case Aggregation_column
    then show ?thesis
      using value_column_added [OF Cons.prems(1), of "getColName c legendMap aggs" "getScalarColId c aggs" q] Cons.prems(2)
      by (simp add: table_column_of_def column_key_ok_def)
  qed
  then have ok: "columns_ok names ?cs" ..
  have rest: "\<forall>c\<in>set cols. column_key_ok legendMap aggs names c" using Cons.prems(2) by simp
  from Cons.IH [OF ok rest] step show ?case
    unfolding processTableColumns_def result_table.simps list.map fold_simps by (auto simp del: if_split)
qed

text \<open>The result of the web format for one scalar result.\<close>

definition web_result :: "legend_map \<Rightarrow> aggregation_map \<Rightarrow> scalar_data \<Rightarrow> query_result" where
  "web_result legendMap aggs s =
     (let columns = map (table_column_of legendMap aggs) (sd_columns s); queryName = first_query_name (sd_columns s)
      in (plain_result (Some queryName) (Some (legend_or legendMap queryName queryName)))
           \<lparr>qr_table := Some \<lparr>rt_columns = columns, rt_rows = map (web_row columns) (sd_data s)\<rparr>\<rparr>)"

lemma web_results: "convertScalarWithFormatForWeb ss legendMap aggs = map (web_result legendMap aggs) ss"
  by (simp add: convertScalarWithFormatForWeb_def web_result_def Let_def)

lemma web_result_fields [simp]:
  "qr_series (web_result l a s) = None" "qr_list (web_result l a s) = None"
  "qr_queryName (web_result l a s) = Some (first_query_name (sd_columns s))"
  "qr_table (web_result l a s) = Some \<lparr>rt_columns = map (table_column_of l a) (sd_columns s),
     rt_rows = map (web_row (map (table_column_of l a) (sd_columns s))) (sd_data s)\<rparr>"
  by (simp_all add: web_result_def plain_result_def Let_def)

lemma web_columns_added:
  assumes "st_builder query" and "\<forall>s\<in>set ss. scalar_keys_ok legendMap aggs names s" and "columns_ok names cs"
  shows "\<exists>cs'. getDynamicColumns_from query (map (web_result legendMap aggs) ss) cs = Some cs' \<and> columns_ok names cs' \<and>
    column_ids cs \<union> (\<Union>s\<in>set ss. (\<lambda>c. getScalarColId c aggs) ` set (sd_columns s)) \<subseteq> column_ids cs'"
  using assms(2,3)
proof (induction ss arbitrary: cs)
  case (Cons s ss)
  from assms(1) obtain q where q: "columns_of_result query (web_result legendMap aggs s) cs =
      Some (processTableColumns \<lparr>rt_columns = map (table_column_of legendMap aggs) (sd_columns s),
        rt_rows = map (web_row (map (table_column_of legendMap aggs) (sd_columns s))) (sd_data s)\<rparr> q True cs)"
    by (simp add: columns_of_result_def getQueryByName_def Let_def)
  from Cons.prems(1) have "scalar_keys_ok legendMap aggs names s" by simp
  then have ok: "\<forall>c\<in>set (sd_columns s). column_key_ok legendMap aggs names c"
    by (simp add: scalar_keys_ok_def)
  note added = table_columns_added [OF Cons.prems(2) ok]
  obtain r where r: "columns_of_result query (web_result legendMap aggs s) cs = Some r" "columns_ok names r"
    "(\<lambda>c. getScalarColId c aggs) ` set (sd_columns s) \<union> column_ids cs \<subseteq> column_ids r"
    using q added by blast
  from Cons.prems(1) have "\<forall>s\<in>set ss. scalar_keys_ok legendMap aggs names s" by simp
  from Cons.IH [OF this r(2)] obtain cs' where
    "getDynamicColumns_from query (map (web_result legendMap aggs) ss) r = Some cs'" "columns_ok names cs'"
    "column_ids r \<union> (\<Union>s\<in>set ss. (\<lambda>c. getScalarColId c aggs) ` set (sd_columns s)) \<subseteq> column_ids cs'"
    by blast
  with r show ?case by (intro exI [of _ cs']) auto
qed simp

subsection \<open>Every cell of a scalar answer\<close>

lemma web_row_keys:
  "map fst (map (\<lambda>i. (web_key (columns ! i), cell_of row i)) [0..<length columns]) = map web_key columns"
  by (rule nth_equalityI) simp_all

lemma web_row_entries:
  assumes "distinct (map web_key columns)"
  shows "web_row columns row = map (\<lambda>i. (web_key (columns ! i), cell_of row i)) [0..<length columns]"
proof -
  let ?es = "map (\<lambda>i. (web_key (columns ! i), cell_of row i)) [0..<length columns]"
  have "fold (\<lambda>(k, v). map_set k (id v)) ?es [] = [] @ map (\<lambda>(k, v). (k, id v)) ?es"
    using assms by (intro fold_map_set_entries) (simp_all only: web_row_keys, simp)
  then show ?thesis by (simp add: web_row_def fold_map comp_def)
qed

lemma web_row_cell:
  assumes "distinct (map web_key columns)" and "j < length columns"
  shows "map_of (web_row columns row) (web_key (columns ! j)) = Some (cell_of row j)"
  unfolding web_row_entries [OF assms(1)]
proof (rule map_of_is_SomeI)
  show "distinct (map fst (map (\<lambda>i. (web_key (columns ! i), cell_of row i)) [0..<length columns]))"
    using assms(1) by (simp only: web_row_keys)
qed (use assms(2) in auto)

lemma sort_key_map: "sort_key f (map g xs) = map g (sort_key (f \<circ> g) xs)"
proof (induction xs)
  case (Cons x xs)
  have "insort_key f (g x) (map g ys) = map g (insort_key (f \<circ> g) x ys)" for ys
    by (induction ys) auto
  with Cons show ?case by (simp add: comp_def)
qed simp

text \<open>The rows of a scalar answer, with the result they come from, in the order of the table.\<close>

definition scalar_rows :: "scalar_data list \<Rightarrow> (scalar_data \<times> json_cell list) list" where
  "scalar_rows ss =
     concat (map (\<lambda>s. map (Pair s) (sd_data s)) (sort_key (\<lambda>s. first_query_name (sd_columns s)) ss))"

lemma sorted_web_results:
  "sort_key sort_name (map (web_result l a) ss) =
     map (web_result l a) (sort_key (\<lambda>s. first_query_name (sd_columns s)) ss)"
  by (simp add: sort_key_map comp_def sort_name_def)

lemma table_rows_web:
  "concat (map table_rows (map (web_result l a) (sort_key (\<lambda>s. first_query_name (sd_columns s)) ss))) =
     map (\<lambda>(s, row). web_row (map (table_column_of l a) (sd_columns s)) row) (scalar_rows ss)"
  by (simp add: scalar_rows_def table_rows_def map_concat comp_def)

lemma scalar_rows_mem: "(s, row) \<in> set (scalar_rows ss) \<Longrightarrow> s \<in> set ss"
  by (auto simp: scalar_rows_def)

lemma web_table_cell:
  assumes "scalar_keys_ok l a names s" and "j < length (sd_columns s)"
    and "dc_id d = Some (getScalarColId (sd_columns s ! j) a)"
  shows "table_cell (web_row (map (table_column_of l a) (sd_columns s)) row) d = processTableRowValue (cell_of row j)"
proof -
  let ?cols = "map (table_column_of l a) (sd_columns s)"
  have key: "web_key (table_column_of l a c) = getScalarColId c a" if "c \<in> set (sd_columns s)" for c
    using that assms(1) by (auto simp: web_key_def table_column_of_def scalar_keys_ok_def column_key_ok_def)
  then have eq: "map web_key ?cols = map (\<lambda>c. getScalarColId c a) (sd_columns s)" by simp
  have dist: "distinct (map web_key ?cols)"
    unfolding eq using assms(1) by (simp add: scalar_keys_ok_def)
  have id: "getScalarColId (sd_columns s ! j) a \<noteq> []"
    using assms(1,2) by (auto simp: scalar_keys_ok_def column_key_ok_def)
  from web_row_cell [OF dist, of j row] assms(2) key [of "sd_columns s ! j"]
  have "map_of (web_row ?cols row) (getScalarColId (sd_columns s ! j) a) = Some (cell_of row j)" by simp
  with assms(3) id show ?thesis by (simp add: table_cell_def column_field_def)
qed

text \<open>
  C5. A table shows every cell of a scalar answer: it has one row per row of the results, in the order of
  the query names, and in the row the cell of a column is found under the id of the column, as a number
  where it reads as one. The ids of a result differ, no id is \<open>key\<close>, and no grouping key is named like an
  aggregation or a formula.
\<close>

theorem scalar_cells_shown:
  assumes "v5_results v5 = V_scalar ss"
    and "\<forall>s\<in>set ss. scalar_keys_ok legendMap (aggregations_per_query params) names s"
    and "\<exists>s\<in>set ss. sd_columns s \<noteq> []"
    and "createTableColumnsFromQuery uid query
      (vp_result (normalizeQueryRangeResponse v5 params legendMap True)) actions = Some t"
  shows "length (rd_dataSource t) = length (scalar_rows ss) \<and>
    (\<forall>i s row j. i < length (scalar_rows ss) \<longrightarrow> scalar_rows ss ! i = (s, row) \<longrightarrow> j < length (sd_columns s) \<longrightarrow>
       map_of (rd_dataSource t ! i) (getScalarColId (sd_columns s ! j) (aggregations_per_query params)) =
         Some (processTableRowValue (cell_of row j)))"
proof -
  define aggs where "aggs = aggregations_per_query params"
  define sorted where "sorted = sort_key (\<lambda>s. first_query_name (sd_columns s)) ss"
  define rs where "rs = map (web_result legendMap aggs) sorted"
  have result: "vp_result (normalizeQueryRangeResponse v5 params legendMap True) = map (web_result legendMap aggs) ss"
    using assms(1) by (simp add: normalizeQueryRangeResponse_def aggs_def web_results)
  have set_sorted: "set sorted = set ss" by (simp add: sorted_def)
  have created: "createTableColumnsFromQuery uid query (map (web_result legendMap aggs) ss) actions = Some t"
    using assms(4) result by simp
  obtain cols where dyn: "getDynamicColumns rs query = Some cols"
    using created by (auto simp: createTableColumnsFromQuery_def Let_def sorted_web_results rs_def sorted_def
        split: option.splits)
  from assms(3) set_sorted have "rs \<noteq> []" by (auto simp: rs_def)
  with dyn have builder: "st_builder query"
    by (cases rs) (auto simp: getDynamicColumns_def columns_of_result_def getQueryByName_def split: option.splits if_splits)
  have keys: "\<forall>s\<in>set sorted. scalar_keys_ok legendMap aggs names s"
    using assms(2) by (simp add: set_sorted aggs_def)
  have "columns_ok names []" by simp
  from web_columns_added [OF builder keys this] dyn
  have ok: "columns_ok names cols"
    and ids: "(\<Union>s\<in>set ss. (\<lambda>c. getScalarColId c aggs) ` set (sd_columns s)) \<subseteq> column_ids cols"
    by (simp_all add: getDynamicColumns_def rs_def set_sorted)
  have plain: "\<forall>r\<in>set rs. table_only r" by (simp add: rs_def table_only_def)
  have titled: "\<forall>c\<in>set cols. titled_column c \<and> dc_data c = []"
    using ok by (fastforce simp: column_ok_def titled_column_def truthy_str_def)
  have rows: "concat (map table_rows rs) =
      map (\<lambda>(s, row). web_row (map (table_column_of legendMap aggs) (sd_columns s)) row) (scalar_rows ss)"
    unfolding rs_def sorted_def by (rule table_rows_web)
  define filled where "filled = map (add_cells (concat (map table_rows rs))) (result_columns cols)"
  have "cols \<noteq> []" using ids assms(3) by (auto simp: column_ids_def)
  then have n: "fillColumnsData rs cols = (filled, length (scalar_rows ss))"
    using fill_columns_tables [OF plain titled] by (simp add: filled_def rows prod_eq_iff)
  have source: "rd_dataSource t = generateData uid filled (length (scalar_rows ss))"
    using created dyn n
    by (auto simp: createTableColumnsFromQuery_def Let_def sorted_web_results rs_def sorted_def split: option.splits)
  show ?thesis
  proof (intro conjI allI impI)
    show "length (rd_dataSource t) = length (scalar_rows ss)" by (simp add: source generateData_def)
    fix i s row j
    assume i: "i < length (scalar_rows ss)" "scalar_rows ss ! i = (s, row)" and j: "j < length (sd_columns s)"
    let ?k = "getScalarColId (sd_columns s ! j) aggs"
    from i have s: "s \<in> set ss" by (metis nth_mem scalar_rows_mem)
    then have sk: "scalar_keys_ok legendMap aggs names s" using keys by (simp add: set_sorted)
    have k: "?k \<noteq> []" "?k \<noteq> ''key''" using sk j by (auto simp: scalar_keys_ok_def column_key_ok_def)
    have cell: "cell_of (dc_data d) i = processTableRowValue (cell_of row j)"
      if "d \<in> set filled" "row_key d = ?k" for d
    proof -
      from that(1) obtain c where c: "c \<in> set cols" "d = add_cells (concat (map table_rows rs)) c"
        by (auto simp: filled_def)
      obtain k' where "dc_id c = Some k'" "k' \<noteq> []"
        using ok c(1) by (auto simp: column_ok_def)
      with that(2) c(2) have "dc_id c = Some ?k" by (simp add: row_key_def)
      from web_table_cell [OF sk j this, of row] titled c i show ?thesis by (simp add: cell_of_def rows)
    qed
    have "?k \<in> column_ids cols"
      by (rule subsetD [OF ids], rule UN_I [OF s], rule imageI, rule nth_mem, rule j)
    then obtain c where c: "c \<in> set cols" "dc_id c = Some ?k" by (auto simp: column_ids_def)
    then have "add_cells (concat (map table_rows rs)) c \<in> set filled"
      and "row_key (add_cells (concat (map table_rows rs)) c) = ?k"
      using k by (simp_all add: filled_def row_key_def)
    from generate_row_cell [OF k(2) this] cell i
    have "map_of (generate_row uid filled i) ?k = Some (processTableRowValue (cell_of row j))" by blast
    then show "map_of (rd_dataSource t ! i) (getScalarColId (sd_columns s ! j) (aggregations_per_query params)) =
        Some (processTableRowValue (cell_of row j))"
      using i by (simp add: source generateData_def flip: aggs_def)
  qed
qed

subsection \<open>An answer with a grouping key and a value\<close>

definition sample_column :: "string \<Rightarrow> string \<Rightarrow> int \<Rightarrow> column_type \<Rightarrow> column_descriptor" where
  "sample_column name q i k = \<lparr>cd_name = name, cd_queryName = q, cd_aggregationIndex = i, cd_columnType = k\<rparr>"

definition sample_scalar :: scalar_data where
  "sample_scalar =
     \<lparr>sd_columns = [sample_column ''service'' ''A'' 0 Group_column, sample_column ''__result_0'' ''A'' 0 Aggregation_column],
      sd_data = [[C_str ''api'', C_num (Dec 5 0)], [C_str ''web'', C_num (Dec 7 0)]], sd_time_series = None\<rparr>"

definition sample_response :: "scalar_data list \<Rightarrow> v5_response" where
  "sample_response ss =
     \<lparr>v5_results = V_scalar ss, v5_data_warning = None, v5_meta = None, v5_warning = None\<rparr>"

definition sample_staged :: staged where
  "sample_staged = \<lparr>st_builder = True, st_queryData = [], st_queryFormulas = []\<rparr>"

definition sample_uid :: "nat \<Rightarrow> string" where
  "sample_uid n = ''uid-'' @ nat_digits n"

lemma sample_table:
  "createTableColumnsFromQuery sample_uid sample_staged
     (vp_result (normalizeQueryRangeResponse (sample_response [sample_scalar]) [] [] True)) False \<noteq> None"
  by code_simp

theorem scalar_cells_shown_witness:
  "\<exists>t. createTableColumnsFromQuery sample_uid sample_staged
        (vp_result (normalizeQueryRangeResponse (sample_response [sample_scalar]) [] [] True)) False = Some t \<and>
     map_of (rd_dataSource t ! 1) ''A'' = Some (C_num (Dec 7 0))"
proof -
  obtain t where t: "createTableColumnsFromQuery sample_uid sample_staged
      (vp_result (normalizeQueryRangeResponse (sample_response [sample_scalar]) [] [] True)) False = Some t"
    using sample_table by blast
  have v: "v5_results (sample_response [sample_scalar]) = V_scalar [sample_scalar]"
    by (simp add: sample_response_def)
  have keys: "\<forall>s\<in>set [sample_scalar]. scalar_keys_ok [] (aggregations_per_query []) {''A''} s"
    by (simp add: sample_scalar_def sample_column_def scalar_keys_ok_def column_key_ok_def getScalarColId_def getColName_def
        aggregations_per_query_def aggregations_of_def column_aggregation_def aggregation_expression_def js_nth_def Let_def)
  have cols: "\<exists>s\<in>set [sample_scalar]. sd_columns s \<noteq> []" by (simp add: sample_scalar_def)
  have row: "1 < length (scalar_rows [sample_scalar])"
    "scalar_rows [sample_scalar] ! 1 = (sample_scalar, [C_str ''web'', C_num (Dec 7 0)])" "1 < length (sd_columns sample_scalar)"
    by (simp_all add: scalar_rows_def sample_scalar_def)
  have id: "getScalarColId (sd_columns sample_scalar ! 1) (aggregations_per_query []) = ''A''"
    by (simp add: sample_scalar_def sample_column_def getScalarColId_def aggregations_per_query_def aggregations_of_def)
  from scalar_cells_shown [OF v keys cols t] row
  have "map_of (rd_dataSource t ! 1) ''A'' = Some (processTableRowValue (cell_of [C_str ''web'', C_num (Dec 7 0)] 1))"
    unfolding id [symmetric] by blast
  then show ?thesis using t by (simp add: cell_of_def processTableRowValue_def)
qed

section \<open>What the code lets through\<close>

text \<open>
  Two aggregations of one expression differ in their alias but share the id of their column, so that both
  columns show the value of the second.
\<close>

lemma same_expression_collides:
  "case createTableColumnsFromQuery sample_uid sample_staged
     (convertScalarWithFormatForWeb
        [\<lparr>sd_columns = [sample_column ''__result_0'' ''A'' 0 Aggregation_column, sample_column ''__result_1'' ''A'' 1 Aggregation_column],
          sd_data = [[C_num (Dec 5 0), C_num (Dec 7 0)]], sd_time_series = None\<rparr>] []
        [(''A'', [Expression_Aggregation ''count()'' (Some ''a''), Expression_Aggregation ''count()'' (Some ''b'')])]) False
   of None \<Rightarrow> False
    | Some t \<Rightarrow> rd_columns t = [(''A.count()'', ''a''), (''A.count()'', ''b'')] \<and>
        map (\<lambda>row. map_of row ''A.count()'') (rd_dataSource t) = [Some (C_num (Dec 7 0))]"
  by code_simp

definition list_result :: "(string \<times> json_cell) list list \<Rightarrow> query_result" where
  "list_result rows =
     (plain_result (Some ''A'') None)\<lparr>qr_list := Some (map (\<lambda>r. \<lparr>li_timestamp = [], li_data = r\<rparr>) rows)\<rparr>"

text \<open>A row of a list without a label leaves its column short, so that later values move up.\<close>

lemma missing_label_shifts:
  "case createTableColumnsFromQuery sample_uid sample_staged
     [list_result [[(''a'', C_str ''1'')], [(''a'', C_str ''2''), (''b'', C_str ''x'')]]] False
   of None \<Rightarrow> False
    | Some t \<Rightarrow> map (\<lambda>row. map_of row ''b'') (rd_dataSource t) = [Some (C_str ''x''), Some C_undefined]"
  by code_simp

text \<open>A label of a list that looks like a formula gets no values.\<close>

lemma formula_like_label_empty:
  "case createTableColumnsFromQuery sample_uid sample_staged
     [list_result [[(''a'', C_str ''1''), (''UTF8'', C_str ''x'')]]] False
   of None \<Rightarrow> False | Some t \<Rightarrow> map (\<lambda>row. map_of row ''UTF8'') (rd_dataSource t) = [Some C_undefined]"
  by code_simp

text \<open>A column called \<open>key\<close> shows the key of the row.\<close>

lemma key_column_shows_uuid:
  "case createTableColumnsFromQuery sample_uid sample_staged
     [list_result [[(''key'', C_str ''k1'')]]] False
   of None \<Rightarrow> False | Some t \<Rightarrow> map (\<lambda>row. map_of row ''key'') (rd_dataSource t) = [Some (C_str ''uid-0'')]"
  by code_simp

text \<open>A text that reads as a number is shown as the number, a boolean as one or zero.\<close>

lemma text_labels_become_numbers:
  "processTableRowValue (C_str ''007'') = C_num (Dec 7 0) \<and> processTableRowValue (C_str '' '') = C_num (Dec 0 0) \<and>
   processTableRowValue (C_bool True) = C_num (Dec 1 0)"
  by code_simp

text \<open>Two decimals, rounded from the double: 1.005 is below the tie, 0.125 is on it.\<close>

lemma two_decimals:
  "to_fixed_2 (Some (Dec 1005 (-3))) = ''1.00''" "to_fixed_2 (Some (Dec 125 (-3))) = ''0.13''"
  "to_fixed_2 (Some (Dec (-25) 0)) = ''-25.00''"
  by (simp_all add: to_fixed_2_def nearest_double_def scaled_def half_even_def hundredths_def two_digits_def Let_def
      bits.simps nat_digits.simps digit_char_def)

end
