(* ===== verification/Provider_Data.thy ===== *)
theory Provider_Data
  imports Query_Reopen
begin

text \<open>
  The tables and helpers of the query builder provider: operators per data source and panel from
  \<^verbatim>\<open>constants/queryBuilderOperators.ts\<close> and \<^verbatim>\<open>getOperatorsBySourceAndPanelType.ts\<close>, the fields a panel type
  keeps (\<^verbatim>\<open>container/NewWidget/utils.ts\<close>), names of new rows (\<^verbatim>\<open>createNewBuilderItemName.ts\<close>), initial
  values (\<^verbatim>\<open>constants/queryBuilder.ts\<close>), ids of attributes, the sanitizer of sort columns
  (\<^verbatim>\<open>utils/sanitizeOrderBy.ts\<close> with \<^verbatim>\<open>utils/aggregationConverter.ts\<close>) and the check of a query that comes
  from a URL (\<^verbatim>\<open>lib/replaceIncorrectObjectFields.ts\<close>).
\<close>

section \<open>The queries of the provider\<close>

text \<open>\<open>IBuilderQuery\<close> with the two fields that requests do not read.\<close>

record provider_query = builder_query +
  pq_aggregateOperator :: "string option"
  pq_expression :: string

record query_state =
  qs_queryData :: "provider_query list"
  qs_queryFormulas :: "formula_query list"
  qs_id :: string
  qs_unit :: "string option"
  qs_resultUnit :: "string option"
  qs_displayUnit :: "string option"

record typed_query = query_state +
  tq_queryType :: string

text \<open>A query some of whose parts are missing, as it comes from a URL or is given to a redirect.\<close>

record partial_query =
  pt_queryType :: "string option"
  pt_builder :: "(provider_query list \<times> formula_query list) option"
  pt_id :: "string option"
  pt_unit :: "string option"
  pt_resultUnit :: "string option"
  pt_displayUnit :: "string option"

definition partial_of :: "typed_query \<Rightarrow> partial_query" where
  "partial_of q =
     \<lparr>pt_queryType = Some (tq_queryType q), pt_builder = Some (qs_queryData q, qs_queryFormulas q),
      pt_id = Some (qs_id q), pt_unit = qs_unit q, pt_resultUnit = qs_resultUnit q, pt_displayUnit = qs_displayUnit q\<rparr>"

section \<open>Operators\<close>

definition metricAggregateOperatorOptions :: "string list" where
  "metricAggregateOperatorOptions =
     [''count'', ''count_distinct'', ''sum'', ''avg'', ''max'', ''min'', ''p05'', ''p10'', ''p20'', ''p25'', ''p50'', ''p75'',
      ''p90'', ''p95'', ''p99'', ''rate'', ''sum_rate'', ''avg_rate'', ''max_rate'', ''min_rate'', ''rate_sum'', ''rate_avg'',
      ''rate_min'', ''rate_max'', ''hist_quantile_50'', ''hist_quantile_75'', ''hist_quantile_90'',
      ''hist_quantile_95'', ''hist_quantile_99'']"

definition tracesAggregateOperatorOptions :: "string list" where
  "tracesAggregateOperatorOptions =
     [''count'', ''count_distinct'', ''sum'', ''avg'', ''max'', ''min'', ''p05'', ''p10'', ''p20'', ''p25'', ''p50'', ''p75'',
      ''p90'', ''p95'', ''p99'', ''rate'', ''rate_sum'', ''rate_avg'', ''rate_min'', ''rate_max'']"

definition logsAggregateOperatorOptions :: "string list" where
  "logsAggregateOperatorOptions =
     [''count'', ''count_distinct'', ''sum'', ''avg'', ''max'', ''min'', ''p05'', ''p10'', ''p20'', ''p25'', ''p50'', ''p75'',
      ''p90'', ''p95'', ''p99'', ''rate'', ''rate_sum'', ''rate_avg'', ''rate_min'', ''rate_max'']"

definition mapOfOperators :: "data_source \<Rightarrow> string list" where
  "mapOfOperators d =
     (case d of METRICS \<Rightarrow> metricAggregateOperatorOptions | LOGS \<Rightarrow> logsAggregateOperatorOptions
      | TRACES \<Rightarrow> tracesAggregateOperatorOptions)"

definition getOperatorsBySourceAndPanelType :: "data_source \<Rightarrow> panel_type \<Rightarrow> string list" where
  "getOperatorsBySourceAndPanelType dataSource panelType =
     (let ops = mapOfOperators dataSource;
          ops = (if panelType = P_LIST \<or> panelType = P_TRACE then filter (\<lambda>v. v = ''noop'') ops else ops);
          ops = (if panelType = P_TABLE \<and> dataSource = METRICS
                 then filter (\<lambda>v. v \<noteq> ''noop'' \<and> v \<noteq> ''rate'') ops else ops)
      in if dataSource \<noteq> METRICS \<and> panelType \<noteq> P_LIST \<and> panelType \<noteq> P_TRACE
         then filter (\<lambda>v. v \<noteq> ''noop'') ops else ops)"

section \<open>Fields a panel type keeps\<close>

definition series_fields :: "string list" where
  "series_fields =
     [''aggregateAttribute'', ''aggregateOperator'', ''filters'', ''filter'', ''groupBy'', ''limit'', ''having'', ''orderBy'',
      ''functions'', ''stepInterval'', ''disabled'', ''queryName'', ''legend'', ''expression'', ''aggregations'']"

definition series_metric_fields :: "string list" where
  "series_metric_fields =
     [''aggregateAttribute'', ''aggregateOperator'', ''timeAggregation'', ''filters'', ''filter'', ''spaceAggregation'',
      ''groupBy'', ''limit'', ''having'', ''orderBy'', ''stepInterval'', ''legend'', ''queryName'', ''disabled'', ''functions'',
      ''expression'', ''aggregations'']"

definition table_fields :: "string list" where
  "table_fields =
     [''aggregateAttribute'', ''aggregateOperator'', ''filters'', ''filter'', ''groupBy'', ''limit'', ''having'', ''orderBy'',
      ''functions'', ''stepInterval'', ''disabled'', ''queryName'', ''expression'', ''legend'', ''aggregations'']"

definition table_metric_fields :: "string list" where
  "table_metric_fields =
     [''aggregateAttribute'', ''aggregateOperator'', ''timeAggregation'', ''filters'', ''filter'', ''spaceAggregation'',
      ''groupBy'', ''reduceTo'', ''limit'', ''having'', ''orderBy'', ''stepInterval'', ''legend'', ''queryName'', ''expression'',
      ''disabled'', ''functions'', ''aggregations'']"

definition list_fields :: "string list" where
  "list_fields = [''queryName'', ''filters'', ''filter'', ''limit'', ''orderBy'', ''functions'', ''aggregations'']"

definition list_metric_fields :: "string list" where
  "list_metric_fields = [''queryName'', ''filters'', ''filter'', ''aggregations'']"

definition value_fields :: "string list" where
  "value_fields =
     [''aggregateAttribute'', ''aggregateOperator'', ''filters'', ''filter'', ''reduceTo'', ''having'', ''functions'',
      ''stepInterval'', ''queryName'', ''expression'', ''disabled'', ''legend'', ''aggregations'']"

definition value_metric_fields :: "string list" where
  "value_metric_fields =
     [''aggregateAttribute'', ''aggregateOperator'', ''timeAggregation'', ''filters'', ''filter'', ''spaceAggregation'',
      ''having'', ''reduceTo'', ''stepInterval'', ''legend'', ''queryName'', ''expression'', ''disabled'', ''functions'',
      ''aggregations'']"

definition panelTypeDataSourceFormValuesMap :: "panel_type \<Rightarrow> data_source \<Rightarrow> string list option" where
  "panelTypeDataSourceFormValuesMap p d =
     (let pick = (\<lambda>other metrics. Some (if d = METRICS then metrics else other))
      in case p of
           P_BAR \<Rightarrow> pick series_fields series_metric_fields
         | P_TIME_SERIES \<Rightarrow> pick series_fields series_metric_fields
         | P_HISTOGRAM \<Rightarrow> pick series_fields series_metric_fields
         | P_TABLE \<Rightarrow> pick table_fields table_metric_fields
         | P_PIE \<Rightarrow> pick table_fields table_metric_fields
         | P_LIST \<Rightarrow> pick list_fields list_metric_fields
         | P_VALUE \<Rightarrow> pick value_fields value_metric_fields
         | P_TRACE \<Rightarrow> None
         | P_EMPTY_WIDGET \<Rightarrow> None)"

text \<open>\<open>set(target, field, get(source, field))\<close>\<close>

definition set_field :: "provider_query \<Rightarrow> string \<Rightarrow> provider_query \<Rightarrow> provider_query" where
  "set_field n p q =
     (if p = ''aggregateAttribute'' then q\<lparr>bq_aggregateAttribute := bq_aggregateAttribute n\<rparr>
      else if p = ''aggregateOperator'' then q\<lparr>pq_aggregateOperator := pq_aggregateOperator n\<rparr>
      else if p = ''timeAggregation'' then q\<lparr>bq_timeAggregation := bq_timeAggregation n\<rparr>
      else if p = ''spaceAggregation'' then q\<lparr>bq_spaceAggregation := bq_spaceAggregation n\<rparr>
      else if p = ''filters'' then q\<lparr>bq_filters := bq_filters n\<rparr>
      else if p = ''filter'' then q\<lparr>bq_filter := bq_filter n\<rparr>
      else if p = ''groupBy'' then q\<lparr>bq_groupBy := bq_groupBy n\<rparr>
      else if p = ''limit'' then q\<lparr>bq_limit := bq_limit n\<rparr>
      else if p = ''having'' then q\<lparr>bq_having := bq_having n\<rparr>
      else if p = ''orderBy'' then q\<lparr>bq_orderBy := bq_orderBy n\<rparr>
      else if p = ''functions'' then q\<lparr>bq_functions := bq_functions n\<rparr>
      else if p = ''stepInterval'' then q\<lparr>bq_stepInterval := bq_stepInterval n\<rparr>
      else if p = ''disabled'' then q\<lparr>bq_disabled := bq_disabled n\<rparr>
      else if p = ''queryName'' then q\<lparr>bq_queryName := bq_queryName n\<rparr>
      else if p = ''legend'' then q\<lparr>bq_legend := bq_legend n\<rparr>
      else if p = ''expression'' then q\<lparr>pq_expression := pq_expression n\<rparr>
      else if p = ''aggregations'' then q\<lparr>bq_aggregations := bq_aggregations n\<rparr>
      else if p = ''reduceTo'' then q\<lparr>bq_reduceTo := bq_reduceTo n\<rparr>
      else if p = ''dataSource'' then q\<lparr>bq_dataSource := bq_dataSource n\<rparr>
      else q)"

section \<open>New rows\<close>

definition MAX_QUERIES :: nat where
  "MAX_QUERIES = 26"

definition MAX_FORMULAS :: nat where
  "MAX_FORMULAS = 20"

definition alphabet :: "string list" where
  "alphabet = map (\<lambda>i. [char_of (65 + i)]) [0..<MAX_QUERIES]"

definition formulasNames :: "string list" where
  "formulasNames = map (\<lambda>i. CHR ''F'' # nat_digits (i + 1)) [0..<MAX_FORMULAS]"

definition createNewBuilderItemName :: "string list \<Rightarrow> string list \<Rightarrow> string" where
  "createNewBuilderItemName existNames sourceNames =
     (case js_find (\<lambda>n. n \<notin> set existNames) sourceNames of Some n \<Rightarrow> n | None \<Rightarrow> '''')"

definition initialQueryBuilderFormValues :: provider_query where
  "initialQueryBuilderFormValues = builder_query.extend initial_form (provider_query.fields (Some ''count'') ''A'')"

text \<open>The aggregation of logs and traces; the space at the end is the code's.\<close>

definition initialQueryBuilderFormValuesMap :: "data_source \<Rightarrow> provider_query" where
  "initialQueryBuilderFormValuesMap d =
     (let count = \<lparr>ai_expression = ''count() '', ai_alias = None, ai_metricName = None, ai_temporality = None,
                   ai_timeAggregation = None, ai_spaceAggregation = None, ai_reduceTo = None\<rparr>
      in case d of
           METRICS \<Rightarrow> initialQueryBuilderFormValues
         | LOGS \<Rightarrow> initialQueryBuilderFormValues\<lparr>bq_aggregations := [count], bq_dataSource := LOGS\<rparr>
         | TRACES \<Rightarrow> initialQueryBuilderFormValues\<lparr>bq_aggregations := [count], bq_dataSource := TRACES\<rparr>)"

definition initialFormulaBuilderFormValues :: formula_query where
  "initialFormulaBuilderFormValues =
     \<lparr>fq_queryName = ''F1'', fq_expression = [], fq_disabled = False, fq_legend = [], fq_limit = None, fq_orderBy = None\<rparr>"

text \<open>The identifier is drawn once, when the module is loaded.\<close>

definition initialQueriesMap :: "string \<Rightarrow> data_source \<Rightarrow> typed_query" where
  "initialQueriesMap i d =
     \<lparr>qs_queryData = [initialQueryBuilderFormValuesMap d], qs_queryFormulas = [], qs_id = i, qs_unit = Some [],
      qs_resultUnit = None, qs_displayUnit = None, tq_queryType = ''builder''\<rparr>"

section \<open>Attributes and sort columns\<close>

definition attribute_id :: "autocomplete_data \<Rightarrow> string" where
  "attribute_id a =
     js_join ''--'' [ac_key a, (case ac_dataType a of Some d \<Rightarrow> data_type_text d | None \<Rightarrow> []), str_or (ac_type a) []]"

definition with_id :: "autocomplete_data \<Rightarrow> autocomplete_data" where
  "with_id a = a\<lparr>ac_id := Some (attribute_id a)\<rparr>"

definition text_or_undefined :: "string option \<Rightarrow> string" where
  "text_or_undefined t = (case t of Some s \<Rightarrow> s | None \<Rightarrow> ''undefined'')"

definition aggregation_column :: "v5_aggregation \<Rightarrow> string" where
  "aggregation_column a =
     (case a of
        Expression_Aggregation e al \<Rightarrow> str_or al e
      | Metric_Aggregation m \<Rightarrow>
          text_or_undefined (ma_spaceAggregation m) @ ''('' @ text_or_undefined (ma_metricName m) @ '')'')"

definition convertAggregationsToBaseAutocompleteData ::
  "v5_aggregation list \<Rightarrow> data_source \<Rightarrow> string option \<Rightarrow> string option \<Rightarrow> string list" where
  "convertAggregationsToBaseAutocompleteData aggregations dataSource metricName spaceAggregation =
     (if aggregations = [] then
        (if dataSource = METRICS
         then [str_or spaceAggregation ''avg'' @ ''('' @ str_or metricName ''metric'' @ '')'']
         else [''count()''])
      else map aggregation_column aggregations)"

definition getParsedAggregationColumns :: "provider_query \<Rightarrow> string list" where
  "getParsedAggregationColumns q =
     convertAggregationsToBaseAutocompleteData (createAggregation (builder_query.truncate q) None) (bq_dataSource q)
       (map_option ac_key (bq_aggregateAttribute q)) (bq_spaceAggregation q)"

definition sanitizeOrderByForExplorer :: "provider_query \<Rightarrow> order_by list" where
  "sanitizeOrderByForExplorer q =
     (let allowed = filter (\<lambda>k. k \<noteq> []) (map ac_key (bq_groupBy q) @ getParsedAggregationColumns q)
      in filter (\<lambda>o'. ob_columnName o' \<in> set allowed) (bq_orderBy q))"

section \<open>Queries from a URL\<close>

text \<open>
  The keys of the default query are \<open>id\<close>, \<open>builder\<close>, \<open>unit\<close> and \<open>queryType\<close>: the query is valid if it has
  them, and what is returned has no others.
\<close>

definition replaceIncorrectObjectFields :: "partial_query \<Rightarrow> typed_query \<Rightarrow> bool \<times> partial_query" where
  "replaceIncorrectObjectFields c d =
     (pt_id c \<noteq> None \<and> pt_builder c \<noteq> None \<and> pt_unit c \<noteq> None \<and> pt_queryType c \<noteq> None,
      \<lparr>pt_queryType = coalesce (pt_queryType c) (Some (tq_queryType d)),
       pt_builder = coalesce (pt_builder c) (Some (qs_queryData d, qs_queryFormulas d)),
       pt_id = coalesce (pt_id c) (Some (qs_id d)), pt_unit = coalesce (pt_unit c) (qs_unit d),
       pt_resultUnit = None, pt_displayUnit = None\<rparr>)"

section \<open>Names are never used up\<close>

lemma alphabet_names: "distinct alphabet" "length alphabet = MAX_QUERIES"
  "distinct formulasNames" "length formulasNames = MAX_FORMULAS"
  by (auto simp: alphabet_def formulasNames_def distinct_map inj_on_def MAX_QUERIES_def MAX_FORMULAS_def
      dest: nat_digits_inject [THEN iffD1])

lemma new_name:
  assumes "distinct names" and "length existing < length names"
  shows "createNewBuilderItemName existing names \<in> set names - set existing"
proof -
  have "\<exists>n\<in>set names. n \<notin> set existing"
  proof (rule ccontr)
    assume "\<not> ?thesis"
    then have "card (set names) \<le> card (set existing)" by (intro card_mono) auto
    also have "\<dots> \<le> length existing" by (rule card_length)
    finally show False using assms distinct_card [of names] by simp
  qed
  then show ?thesis
    by (auto simp: createNewBuilderItemName_def js_find_None split: option.split dest: js_find_Some)
qed

lemma alphabet_formulas_differ: "set alphabet \<inter> set formulasNames = {}"
  by code_simp

end
