(* ===== verification/Query_Provider.thy ===== *)
theory Query_Provider
  imports Provider_Data
begin

text \<open>
  \<^verbatim>\<open>providers/QueryBuilder.tsx\<close> with \<^verbatim>\<open>hooks/queryBuilder/useGetCompositeQueryParam.ts\<close>: the state of the
  query editor, its operations, the URL it is kept in and the effects that load a query from there. A
  call of an operation is a function of the state; the effects run once per render (\<open>commit\<close>), with the
  values that render saw. Query parameters of a URL are given by the values their texts stand for, and
  \<open>uid\<close> gives the text of the n-th call of \<open>uuid()\<close>, of which the first made the id of the initial query.
\<close>

section \<open>The state\<close>

text \<open>\<open>U_text\<close> is a text that is no JSON of an object, as most parameters are.\<close>

datatype url_param = U_query partial_query | U_page "int option" int | U_text string

type_synonym url_params = "(string \<times> url_param) list"

text \<open>
  \<open>pv_urlQuery\<close> is the \<open>URLSearchParams\<close> object made from \<open>pv_search\<close>, which redirects change in place.
  \<open>pv_pushed\<close> lists the entries of the shared table of fields to which \<open>dataSource\<close> was pushed.
\<close>

record provider =
  pv_pathname :: string
  pv_search :: url_params
  pv_urlQuery :: url_params
  pv_pathRef :: string
  pv_called :: bool
  pv_initialDataSource :: "data_source option"
  pv_panelType :: "panel_type option"
  pv_currentQuery :: query_state
  pv_supersetQuery :: query_state
  pv_lastUsedQuery :: "int option"
  pv_stagedQuery :: "typed_query option"
  pv_queryType :: string
  pv_pushed :: "(panel_type \<times> data_source) list"
  pv_uuids :: nat

definition is_explorer :: "string \<Rightarrow> bool" where
  "is_explorer pathname \<longleftrightarrow> pathname = ''/logs/logs-explorer'' \<or> pathname = ''/traces-explorer''"

definition getInitialPanelType :: "string \<Rightarrow> panel_type option \<Rightarrow> panel_type option" where
  "getInitialPanelType pathname panelTypeQueryParam =
     (case panelTypeQueryParam of Some p \<Rightarrow> Some p | None \<Rightarrow> if is_explorer pathname then Some P_LIST else None)"

section \<open>The query in the URL\<close>

definition synchronize_row :: "(nat \<Rightarrow> string) \<Rightarrow> provider_query \<Rightarrow> provider_query" where
  "synchronize_row uuid q =
     (let (filters, expression) = convertFiltersToExpressionWithExistingQuery uuid
            (case bq_filters q of Some f \<Rightarrow> f | None \<Rightarrow> \<lparr>tg_items = [], tg_op = ''AND''\<rparr>)
            (str_or (bq_filter q) '''') False
      in q\<lparr>bq_filter := Some expression, bq_filters := Some filters\<rparr>)"

definition useGetCompositeQueryParam :: "(nat \<Rightarrow> string) \<Rightarrow> url_params \<Rightarrow> partial_query option" where
  "useGetCompositeQueryParam uuid params =
     (case map_of params ''compositeQuery'' of
        Some (U_query c) \<Rightarrow>
          Some (c\<lparr>pt_builder := map_option (\<lambda>(qs, fs). (map (synchronize_row uuid) qs, fs)) (pt_builder c)\<rparr>)
      | _ \<Rightarrow> None)"

section \<open>Loading a query\<close>

text \<open>\<open>{ ...defaults, ...item }\<close>: fields the item leaves out are those of the defaults.\<close>

definition spread_defaults :: "provider_query \<Rightarrow> provider_query \<Rightarrow> provider_query" where
  "spread_defaults d item =
     item\<lparr>bq_aggregateAttribute := coalesce (bq_aggregateAttribute item) (bq_aggregateAttribute d),
          bq_timeAggregation := coalesce (bq_timeAggregation item) (bq_timeAggregation d),
          bq_spaceAggregation := coalesce (bq_spaceAggregation item) (bq_spaceAggregation d),
          bq_filter := coalesce (bq_filter item) (bq_filter d), bq_filters := coalesce (bq_filters item) (bq_filters d),
          bq_reduceTo := coalesce (bq_reduceTo item) (bq_reduceTo d),
          pq_aggregateOperator := coalesce (pq_aggregateOperator item) (pq_aggregateOperator d)\<rparr>"

definition source_or :: "data_source option \<Rightarrow> data_source" where
  "source_or d = (case d of Some s \<Rightarrow> s | None \<Rightarrow> METRICS)"

definition prepare_row :: "provider \<Rightarrow> provider_query \<Rightarrow> provider_query" where
  "prepare_row s item =
     (let item = spread_defaults (initialQueryBuilderFormValuesMap (source_or (pv_initialDataSource s))) item;
          currentElement = item\<lparr>bq_groupBy := map with_id (bq_groupBy item),
            bq_aggregateAttribute := map_option with_id (bq_aggregateAttribute item)\<rparr>
      in if is_explorer (pv_pathname s) \<and> \<not> pv_called s
         then currentElement\<lparr>bq_orderBy := sanitizeOrderByForExplorer currentElement\<rparr>
         else currentElement)"

definition prepareQueryBuilderData :: "provider \<Rightarrow> typed_query \<Rightarrow> typed_query" where
  "prepareQueryBuilderData s q = q\<lparr>qs_queryData := map (prepare_row s) (qs_queryData q)\<rparr>"

text \<open>\<open>s0\<close> is the state of the render whose callback runs.\<close>

definition initQueryBuilderData :: "provider \<Rightarrow> typed_query \<Rightarrow> provider \<Rightarrow> provider" where
  "initQueryBuilderData s0 query s =
     (let q = prepareQueryBuilderData s0 query;
          type = (if tq_queryType q \<noteq> [] then tq_queryType q else ''builder'')
      in s\<lparr>pv_stagedQuery := Some (q\<lparr>tq_queryType := type\<rparr>), pv_currentQuery := query_state.truncate q,
           pv_queryType := type\<rparr>)"

section \<open>Operators and the default query\<close>

definition getElementWithActualOperator :: "data_source \<Rightarrow> panel_type \<Rightarrow> provider_query \<Rightarrow> provider_query" where
  "getElementWithActualOperator dataSource currentPanelType q =
     (let initialOperators = getOperatorsBySourceAndPanelType dataSource currentPanelType
      in if str_or (pq_aggregateOperator q) '''' \<in> set initialOperators then q
         else q\<lparr>pq_aggregateOperator := (case initialOperators of o' # _ \<Rightarrow> Some o' | [] \<Rightarrow> None)\<rparr>)"

definition updateAllQueriesOperators ::
  "typed_query \<Rightarrow> panel_type \<Rightarrow> data_source \<Rightarrow> string \<Rightarrow> typed_query" where
  "updateAllQueriesOperators query panelType dataSource signalSource =
     query\<lparr>qs_queryData := map (\<lambda>q. (getElementWithActualOperator dataSource panelType q)\<lparr>bq_source := signalSource\<rparr>)
       (qs_queryData query)\<rparr>"

definition updateQueriesData ::
  "typed_query \<Rightarrow> (provider_query \<Rightarrow> nat \<Rightarrow> provider_query) \<Rightarrow> typed_query" where
  "updateQueriesData query updateCallback =
     query\<lparr>qs_queryData := map (\<lambda>(i, q). updateCallback q i) (enumerate 0 (qs_queryData query))\<rparr>"

definition updateFormulasData ::
  "typed_query \<Rightarrow> (formula_query \<Rightarrow> nat \<Rightarrow> formula_query) \<Rightarrow> typed_query" where
  "updateFormulasData query updateCallback =
     query\<lparr>qs_queryFormulas := map (\<lambda>(i, f). updateCallback f i) (enumerate 0 (qs_queryFormulas query))\<rparr>"

text \<open>The fields that \<open>extractRelevantKeys\<close> sets to a constant play no part in the comparison.\<close>

definition extractRelevantKeys :: "provider_query \<Rightarrow> provider_query" where
  "extractRelevantKeys q =
     q\<lparr>bq_aggregateAttribute := map_option (\<lambda>a. a\<lparr>ac_id := Some []\<rparr>) (bq_aggregateAttribute q),
       bq_attributeTemporality := None, bq_aggregations := [], bq_filter := None, bq_orderBy := [], bq_limit := None,
       bq_reduceTo := Some ''avg'', bq_pageSize := None, bq_offset := None, bq_selectColumns := None, bq_source := []\<rparr>"

text \<open>\<open>None\<close> is the error of reading the first query of none.\<close>

definition isDefaultQuery :: "string \<Rightarrow> typed_query \<Rightarrow> data_source \<Rightarrow> bool option" where
  "isDefaultQuery initial_id currentQuery sourcePage =
     (let defaultQuery = updateAllQueriesOperators (initialQueriesMap initial_id sourcePage) P_LIST sourcePage []
      in if tq_queryType currentQuery \<noteq> tq_queryType defaultQuery then Some False
         else if tq_queryType currentQuery \<noteq> ''builder'' then Some False
         else if 1 < length (qs_queryData currentQuery) then Some False
         else case (qs_queryData currentQuery, qs_queryData defaultQuery) of
                (c # _, d # _) \<Rightarrow> Some (extractRelevantKeys c = extractRelevantKeys d)
              | _ \<Rightarrow> None)"

section \<open>Edits\<close>

text \<open>The edits change the current query and the superset with one and the same function.\<close>

definition set_both :: "(query_state \<Rightarrow> query_state) \<Rightarrow> provider \<Rightarrow> provider" where
  "set_both f s = s\<lparr>pv_currentQuery := f (pv_currentQuery s), pv_supersetQuery := f (pv_supersetQuery s)\<rparr>"

definition remove_at :: "nat \<Rightarrow> 'a list \<Rightarrow> 'a list" where
  "remove_at i xs = take i xs @ drop (Suc i) xs"

definition removeQueryByIndex :: "nat \<Rightarrow> provider \<Rightarrow> provider" where
  "removeQueryByIndex i = set_both (\<lambda>q. q\<lparr>qs_queryData := remove_at i (qs_queryData q)\<rparr>)"

definition removeFormulaByIndex :: "nat \<Rightarrow> provider \<Rightarrow> provider" where
  "removeFormulaByIndex i = set_both (\<lambda>q. q\<lparr>qs_queryFormulas := remove_at i (qs_queryFormulas q)\<rparr>)"

definition removeAllQueries :: "provider \<Rightarrow> provider" where
  "removeAllQueries = set_both (\<lambda>q. q\<lparr>qs_queryData := []\<rparr>)"

definition removeAllFormulas :: "provider \<Rightarrow> provider" where
  "removeAllFormulas = set_both (\<lambda>q. q\<lparr>qs_queryFormulas := []\<rparr>)"

definition new_query_name :: "provider_query list \<Rightarrow> string" where
  "new_query_name queries = createNewBuilderItemName (map bq_queryName queries) alphabet"

definition createNewBuilderQuery :: "data_source option \<Rightarrow> provider_query list \<Rightarrow> provider_query" where
  "createNewBuilderQuery initialDataSource queries =
     (initialQueryBuilderFormValuesMap (source_or initialDataSource))
       \<lparr>bq_source := (case queries of q # _ \<Rightarrow> bq_source q | [] \<Rightarrow> []),
        bq_queryName := new_query_name queries, pq_expression := new_query_name queries\<rparr>"

definition cloneNewBuilderQuery :: "provider_query list \<Rightarrow> provider_query \<Rightarrow> provider_query" where
  "cloneNewBuilderQuery queries q =
     q\<lparr>bq_queryName := new_query_name queries, pq_expression := new_query_name queries\<rparr>"

definition createNewBuilderFormula :: "formula_query list \<Rightarrow> formula_query" where
  "createNewBuilderFormula formulas =
     initialFormulaBuilderFormValues\<lparr>fq_queryName := createNewBuilderItemName (map fq_queryName formulas) formulasNames\<rparr>"

text \<open>Appending a row made from the rows there are, up to the limit.\<close>

definition append_query :: "(provider_query list \<Rightarrow> provider_query) \<Rightarrow> query_state \<Rightarrow> query_state" where
  "append_query mk q =
     (if MAX_QUERIES \<le> length (qs_queryData q) then q
      else q\<lparr>qs_queryData := qs_queryData q @ [mk (qs_queryData q)]\<rparr>)"

definition append_formula :: "query_state \<Rightarrow> query_state" where
  "append_formula q =
     (if MAX_FORMULAS \<le> length (qs_queryFormulas q) then q
      else q\<lparr>qs_queryFormulas := qs_queryFormulas q @ [createNewBuilderFormula (qs_queryFormulas q)]\<rparr>)"

definition addNewBuilderQuery :: "provider \<Rightarrow> provider" where
  "addNewBuilderQuery s = set_both (append_query (createNewBuilderQuery (pv_initialDataSource s))) s"

definition cloneQuery :: "provider_query \<Rightarrow> provider \<Rightarrow> provider" where
  "cloneQuery q = set_both (append_query (\<lambda>queries. cloneNewBuilderQuery queries q))"

definition addNewFormula :: "provider \<Rightarrow> provider" where
  "addNewFormula = set_both append_formula"

definition handleOnUnitsChange :: "string \<Rightarrow> provider \<Rightarrow> provider" where
  "handleOnUnitsChange unit = set_both (\<lambda>q. q\<lparr>qs_unit := Some unit\<rparr>)"

definition updateQueryBuilderData :: "'a list \<Rightarrow> nat \<Rightarrow> 'a \<Rightarrow> 'a list" where
  "updateQueryBuilderData arr i newQueryItem = arr[i := newQueryItem]"

text \<open>
  The row of the superset takes the fields the panel type keeps for its old data source, with the entries
  \<open>dataSource\<close> that earlier calls have pushed to that list of fields and the one of this call.
\<close>

definition kept_fields :: "(panel_type \<times> data_source) list \<Rightarrow> panel_type \<Rightarrow> data_source \<Rightarrow> string list" where
  "kept_fields pushed p d =
     (case panelTypeDataSourceFormValuesMap p d of
        None \<Rightarrow> [] | Some fields' \<Rightarrow> fields' @ map (\<lambda>_. ''dataSource'') (filter (\<lambda>e. e = (p, d)) pushed))"

definition superset_item :: "string list \<Rightarrow> provider_query \<Rightarrow> provider_query \<Rightarrow> provider_query" where
  "superset_item fields' newQueryItem item = fold (set_field newQueryItem) fields' item"

definition updateSuperSetQueryBuilderData ::
  "panel_type option \<Rightarrow> (panel_type \<times> data_source) list \<Rightarrow> provider_query list \<Rightarrow> nat \<Rightarrow> provider_query \<Rightarrow>
     provider_query list \<times> (panel_type \<times> data_source) list" where
  "updateSuperSetQueryBuilderData panelType pushed arr i newQueryItem =
     (if length arr \<le> i then (arr, pushed)
      else case panelType of
             None \<Rightarrow> (arr[i := newQueryItem], pushed)
           | Some p \<Rightarrow>
               let d = bq_dataSource (arr ! i);
                   pushed' = (if panelTypeDataSourceFormValuesMap p d = None then pushed else pushed @ [(p, d)])
               in (arr[i := superset_item (kept_fields pushed' p d) newQueryItem (arr ! i)], pushed'))"

definition handleSetQueryData :: "nat \<Rightarrow> provider_query \<Rightarrow> provider \<Rightarrow> provider" where
  "handleSetQueryData i newQueryData s =
     (let current = pv_currentQuery s; super = pv_supersetQuery s;
          (rows, pushed) = updateSuperSetQueryBuilderData (pv_panelType s) (pv_pushed s) (qs_queryData super) i newQueryData
      in s\<lparr>pv_currentQuery := current\<lparr>qs_queryData := updateQueryBuilderData (qs_queryData current) i newQueryData\<rparr>,
           pv_supersetQuery := super\<lparr>qs_queryData := rows\<rparr>, pv_pushed := pushed\<rparr>)"

definition handleSetFormulaData :: "nat \<Rightarrow> formula_query \<Rightarrow> provider \<Rightarrow> provider" where
  "handleSetFormulaData i formulaData =
     set_both (\<lambda>q. q\<lparr>qs_queryFormulas := updateQueryBuilderData (qs_queryFormulas q) i formulaData\<rparr>)"

datatype edit =
    Add_Query | Clone_Query provider_query | Add_Formula
  | Remove_Query nat | Remove_Formula nat | Remove_Queries | Remove_Formulas
  | Set_Query nat provider_query | Set_Formula nat formula_query | Set_Unit string

definition apply_edit :: "edit \<Rightarrow> provider \<Rightarrow> provider" where
  "apply_edit e s =
     (case e of
        Add_Query \<Rightarrow> addNewBuilderQuery s | Clone_Query q \<Rightarrow> cloneQuery q s | Add_Formula \<Rightarrow> addNewFormula s
      | Remove_Query i \<Rightarrow> removeQueryByIndex i s | Remove_Formula i \<Rightarrow> removeFormulaByIndex i s
      | Remove_Queries \<Rightarrow> removeAllQueries s | Remove_Formulas \<Rightarrow> removeAllFormulas s
      | Set_Query i q \<Rightarrow> handleSetQueryData i q s | Set_Formula i f \<Rightarrow> handleSetFormulaData i f s
      | Set_Unit u \<Rightarrow> handleOnUnitsChange u s)"

section \<open>Resetting, redirecting and running\<close>

text \<open>A reset by a query with a type sets the type too.\<close>

definition resetQuery :: "(query_state \<times> string option) option \<Rightarrow> provider \<Rightarrow> provider" where
  "resetQuery newCurrentQuery s =
     (let s = s\<lparr>pv_stagedQuery := None\<rparr>
      in case newCurrentQuery of
           None \<Rightarrow> s
         | Some (q, type) \<Rightarrow>
             let s = s\<lparr>pv_currentQuery := q, pv_supersetQuery := q\<rparr>
             in if truthy_str type then s\<lparr>pv_queryType := the type\<rparr> else s)"

definition handleSetConfig :: "panel_type \<Rightarrow> data_source option \<Rightarrow> provider \<Rightarrow> provider" where
  "handleSetConfig newPanelType dataSource s = s\<lparr>pv_panelType := Some newPanelType, pv_initialDataSource := dataSource\<rparr>"

text \<open>The pagination of the URL starts over; \<open>None\<close> is the error of reading a text that is no object.\<close>

definition reset_pagination :: "url_params \<Rightarrow> url_params option" where
  "reset_pagination params =
     (case map_of params ''pagination'' of
        None \<Rightarrow> Some params
      | Some (U_text t) \<Rightarrow> if t = [] then Some params else None
      | Some (U_page limit _) \<Rightarrow> Some (map_set ''pagination'' (U_page limit 0) params)
      | Some (U_query _) \<Rightarrow> Some (map_set ''pagination'' (U_page None 0) params))"

definition delete_param :: "string \<Rightarrow> url_params \<Rightarrow> url_params" where
  "delete_param k params = filter (\<lambda>(k', _). k' \<noteq> k) params"

definition query_types :: "string list" where
  "query_types = [''builder'']"

definition generated_query :: "string \<Rightarrow> partial_query \<Rightarrow> partial_query" where
  "generated_query i query =
     \<lparr>pt_queryType = Some (case pt_queryType query of Some t \<Rightarrow> if t \<in> set query_types then t else ''builder'' | None \<Rightarrow> ''builder''),
      pt_builder =
        (case pt_builder query of
           Some (q # qs, fs) \<Rightarrow> Some (q # qs, fs)
         | _ \<Rightarrow> Some ([initialQueryBuilderFormValues], [])),
      pt_id = Some i, pt_unit = Some (str_or (pt_unit query) []), pt_resultUnit = pt_resultUnit query,
      pt_displayUnit = pt_displayUnit query\<rparr>"

definition redirect_params :: "partial_query \<Rightarrow> url_params \<Rightarrow> url_params \<Rightarrow> url_params option" where
  "redirect_params query searchParams params =
     map_option
       (\<lambda>params. delete_param ''activeLogId''
          (fold (\<lambda>(k, v). map_set k v) searchParams (map_set ''compositeQuery'' (U_query query) params)))
       (reset_pagination params)"

definition redirectWithQueryBuilderData ::
  "(nat \<Rightarrow> string) \<Rightarrow> partial_query \<Rightarrow> url_params \<Rightarrow> string option \<Rightarrow> bool \<Rightarrow> provider \<Rightarrow> provider option" where
  "redirectWithQueryBuilderData uid query searchParams redirectingUrl newTab s =
     map_option
       (\<lambda>params.
          let s = s\<lparr>pv_uuids := Suc (pv_uuids s), pv_urlQuery := params\<rparr>
          in if newTab then s else s\<lparr>pv_pathname := str_or redirectingUrl (pv_pathname s), pv_search := params\<rparr>)
       (redirect_params (generated_query (uid (pv_uuids s)) query) searchParams (pv_urlQuery s))"

definition run_row :: "provider_query \<Rightarrow> provider_query" where
  "run_row item =
     item\<lparr>bq_filter := Some (case bq_filter item of None \<Rightarrow> [] | Some e \<Rightarrow> if js_trim e = [] then [] else e),
          bq_filters := Some \<lparr>tg_items = [], tg_op = ''AND''\<rparr>\<rparr>"

text \<open>\<open>updateStepInterval\<close> turns an \<open>undefined\<close> step into \<open>null\<close>, which are one value here.\<close>

definition running_query :: "provider \<Rightarrow> partial_query" where
  "running_query s =
     (let q = pv_currentQuery s
      in \<lparr>pt_queryType = Some (pv_queryType s),
          pt_builder = Some (map run_row (qs_queryData q), qs_queryFormulas q), pt_id = Some (qs_id q),
          pt_unit = qs_unit q, pt_resultUnit = qs_resultUnit q, pt_displayUnit = qs_displayUnit q\<rparr>)"

definition handleRunQuery :: "(nat \<Rightarrow> string) \<Rightarrow> provider \<Rightarrow> provider option" where
  "handleRunQuery uid s =
     redirectWithQueryBuilderData uid (running_query s) [] None False
       (if is_explorer (pv_pathname s) then s\<lparr>pv_called := True\<rparr> else s)"

section \<open>Effects\<close>

text \<open>The effect of a new path name.\<close>

definition path_effect :: "provider \<Rightarrow> provider" where
  "path_effect s =
     (if pv_pathname s \<noteq> pv_pathRef s
      then s\<lparr>pv_pathRef := pv_pathname s, pv_stagedQuery := None, pv_lastUsedQuery := Some 0, pv_called := False\<rparr>
      else s)"

definition full_of :: "partial_query \<Rightarrow> typed_query" where
  "full_of c =
     \<lparr>qs_queryData = (case pt_builder c of Some (qs, _) \<Rightarrow> qs | None \<Rightarrow> []),
      qs_queryFormulas = (case pt_builder c of Some (_, fs) \<Rightarrow> fs | None \<Rightarrow> []), qs_id = str_or (pt_id c) [],
      qs_unit = pt_unit c, qs_resultUnit = pt_resultUnit c, qs_displayUnit = pt_displayUnit c,
      tq_queryType = str_or (pt_queryType c) []\<rparr>"

definition is_staged :: "provider \<Rightarrow> partial_query \<Rightarrow> bool" where
  "is_staged s c = (case pv_stagedQuery s of Some q \<Rightarrow> Some (qs_id q) = pt_id c | None \<Rightarrow> False)"

text \<open>
  Both effects of a render, with the values it saw. The second runs on every render here, while React runs
  it when one of its values has changed; a run without a change does nothing, since the query of the URL
  is then the staged one.
\<close>

definition load_effect ::
  "(nat \<Rightarrow> string) \<Rightarrow> (nat \<Rightarrow> string) \<Rightarrow> provider \<Rightarrow> provider \<Rightarrow> provider option" where
  "load_effect uid uuid s0 s =
     (case useGetCompositeQueryParam uuid (pv_search s0) of
        None \<Rightarrow> Some s
      | Some c \<Rightarrow>
          if is_staged s0 c then Some s
          else
            (case replaceIncorrectObjectFields c (initialQueriesMap (uid 0) METRICS) of
               (isValid, validData) \<Rightarrow>
                 if \<not> isValid then redirectWithQueryBuilderData uid validData [] None False s
                 else Some (initQueryBuilderData s0 (full_of c) s)))"

definition commit :: "(nat \<Rightarrow> string) \<Rightarrow> (nat \<Rightarrow> string) \<Rightarrow> provider \<Rightarrow> provider option" where
  "commit uid uuid s = load_effect uid uuid s (path_effect s)"

fun commits :: "(nat \<Rightarrow> string) \<Rightarrow> (nat \<Rightarrow> string) \<Rightarrow> nat \<Rightarrow> provider \<Rightarrow> provider option" where
  "commits uid uuid 0 s = Some s"
| "commits uid uuid (Suc n) s = Option.bind (commit uid uuid s) (commits uid uuid n)"

section \<open>Names of rows\<close>

text \<open>Every row has a name of its own, from the names for queries and for formulas.\<close>

definition names_ok :: "query_state \<Rightarrow> bool" where
  "names_ok q \<longleftrightarrow>
     distinct (map bq_queryName (qs_queryData q)) \<and> bq_queryName ` set (qs_queryData q) \<subseteq> set alphabet \<and>
     distinct (map fq_queryName (qs_queryFormulas q)) \<and> fq_queryName ` set (qs_queryFormulas q) \<subseteq> set formulasNames"

text \<open>The superset has the rows of the current query under the same names, the same formulas and unit.\<close>

definition in_step :: "provider \<Rightarrow> bool" where
  "in_step s \<longleftrightarrow>
     (let q = pv_currentQuery s; q' = pv_supersetQuery s
      in map bq_queryName (qs_queryData q) = map bq_queryName (qs_queryData q') \<and>
         qs_queryFormulas q = qs_queryFormulas q' \<and> qs_unit q = qs_unit q')"

text \<open>The editor hands back the row it was given, with its name.\<close>

definition keeps_name :: "edit \<Rightarrow> provider \<Rightarrow> bool" where
  "keeps_name e s =
     (case e of
        Set_Query i q \<Rightarrow>
          (let rows = qs_queryData (pv_currentQuery s) in i < length rows \<longrightarrow> bq_queryName q = bq_queryName (rows ! i))
      | Set_Formula i f \<Rightarrow>
          (let rows = qs_queryFormulas (pv_currentQuery s) in i < length rows \<longrightarrow> fq_queryName f = fq_queryName (rows ! i))
      | _ \<Rightarrow> True)"

fun names_kept :: "edit list \<Rightarrow> provider \<Rightarrow> bool" where
  "names_kept [] s = True"
| "names_kept (e # es) s = (keeps_name e s \<and> names_kept es (apply_edit e s))"

lemma names_ok_bounds:
  assumes "names_ok q"
  shows "length (qs_queryData q) \<le> MAX_QUERIES" "length (qs_queryFormulas q) \<le> MAX_FORMULAS"
proof -
  have "length xs \<le> length ys" if "distinct xs" "set xs \<subseteq> set ys" for xs ys :: "string list"
    using that by (metis card_length card_mono distinct_card finite_set le_trans)
  from this [of "map bq_queryName (qs_queryData q)" alphabet]
    this [of "map fq_queryName (qs_queryFormulas q)" formulasNames] assms
  show "length (qs_queryData q) \<le> MAX_QUERIES" "length (qs_queryFormulas q) \<le> MAX_FORMULAS"
    by (simp_all add: names_ok_def alphabet_names)
qed

lemma set_remove_at: "set (remove_at i xs) \<subseteq> set xs"
  by (auto simp: remove_at_def dest: in_set_takeD in_set_dropD)

lemma map_remove_at: "map f (remove_at i xs) = remove_at i (map f xs)"
  by (simp add: remove_at_def take_map drop_map)

lemma distinct_remove_at: "distinct xs \<Longrightarrow> distinct (remove_at i xs)"
  by (simp add: remove_at_def set_take_disj_set_drop_if_distinct)

lemma new_query_name_fresh:
  assumes "length qs < MAX_QUERIES"
  shows "new_query_name qs \<in> set alphabet" "new_query_name qs \<notin> bq_queryName ` set qs"
  using new_name [of alphabet "map bq_queryName qs"] assms by (simp_all add: new_query_name_def alphabet_names)

lemma names_ok_append_query:
  assumes "names_ok q" and "\<And>qs. bq_queryName (mk qs) = new_query_name qs"
  shows "names_ok (append_query mk q)"
  using assms new_query_name_fresh [of "qs_queryData q"] by (auto simp: names_ok_def append_query_def)

lemma names_ok_append_formula:
  assumes "names_ok q"
  shows "names_ok (append_formula q)"
  using assms new_name [of formulasNames "map fq_queryName (qs_queryFormulas q)"]
  by (auto simp: names_ok_def append_formula_def createNewBuilderFormula_def alphabet_names)

lemma map_update_same: "(i < length xs \<Longrightarrow> f x = f (xs ! i)) \<Longrightarrow> map f (xs[i := x]) = map f xs"
  by (cases "i < length xs") (simp_all add: map_update list_update_same_conv list_update_beyond)

lemma names_ok_names:
  "names_ok q \<longleftrightarrow>
     (let ns = map bq_queryName (qs_queryData q); fs = map fq_queryName (qs_queryFormulas q)
      in distinct ns \<and> set ns \<subseteq> set alphabet \<and> distinct fs \<and> set fs \<subseteq> set formulasNames)"
  by (simp add: names_ok_def Let_def)

lemma remove_at_subset: "set xs \<subseteq> A \<Longrightarrow> set (remove_at i xs) \<subseteq> A"
  by (rule subset_trans [OF set_remove_at])

lemma names_ok_remove:
  assumes "names_ok q"
  shows "names_ok (q\<lparr>qs_queryData := remove_at i (qs_queryData q)\<rparr>)"
    "names_ok (q\<lparr>qs_queryFormulas := remove_at i (qs_queryFormulas q)\<rparr>)"
  using assms
  by (simp_all del: set_map add: names_ok_names Let_def map_remove_at distinct_remove_at remove_at_subset)

lemma new_row_names [simp]:
  "bq_queryName (createNewBuilderQuery d qs) = new_query_name qs"
  "bq_queryName (cloneNewBuilderQuery qs q) = new_query_name qs"
  by (simp_all add: createNewBuilderQuery_def cloneNewBuilderQuery_def)

lemmas edit_defs = addNewBuilderQuery_def cloneQuery_def addNewFormula_def removeQueryByIndex_def
  removeFormulaByIndex_def removeAllQueries_def removeAllFormulas_def handleSetFormulaData_def handleOnUnitsChange_def
  set_both_def updateQueryBuilderData_def

lemma current_set_query [simp]:
  "pv_currentQuery (handleSetQueryData i q s) =
     (pv_currentQuery s)\<lparr>qs_queryData := (qs_queryData (pv_currentQuery s))[i := q]\<rparr>"
  by (simp add: handleSetQueryData_def Let_def updateQueryBuilderData_def split: prod.split)

lemma names_ok_edit:
  assumes "names_ok (pv_currentQuery s)" and "keeps_name e s"
  shows "names_ok (pv_currentQuery (apply_edit e s))"
proof (cases e)
  case (Set_Query i q)
  then show ?thesis using assms by (simp add: apply_edit_def names_ok_names keeps_name_def Let_def map_update_same)
next
  case (Set_Formula i f)
  then show ?thesis
    using assms by (simp add: apply_edit_def names_ok_names keeps_name_def Let_def map_update_same edit_defs)
next
  case Add_Query
  then show ?thesis using assms by (simp add: apply_edit_def edit_defs names_ok_append_query)
next
  case (Clone_Query q)
  then show ?thesis using assms by (simp add: apply_edit_def edit_defs names_ok_append_query)
next
  case Add_Formula
  then show ?thesis using assms by (simp add: apply_edit_def edit_defs names_ok_append_formula)
next
  case (Remove_Query i)
  then show ?thesis using assms names_ok_remove(1) by (simp add: apply_edit_def edit_defs)
next
  case (Remove_Formula i)
  then show ?thesis using assms names_ok_remove(2) by (simp add: apply_edit_def edit_defs)
qed (use assms in \<open>simp_all add: apply_edit_def edit_defs names_ok_def\<close>)

lemma set_field_name: "bq_queryName n = bq_queryName q \<Longrightarrow> bq_queryName (set_field n p q) = bq_queryName q"
  by (simp add: set_field_def)

lemma superset_item_name:
  "bq_queryName n = bq_queryName q \<Longrightarrow> bq_queryName (superset_item fs n q) = bq_queryName q"
  unfolding superset_item_def by (induction fs arbitrary: q) (simp_all add: set_field_name)

lemma superset_names:
  assumes "i < length arr \<Longrightarrow> bq_queryName n = bq_queryName (arr ! i)"
  shows "map bq_queryName (fst (updateSuperSetQueryBuilderData p pushed arr i n)) = map bq_queryName arr"
  using assms by (auto simp: updateSuperSetQueryBuilderData_def Let_def superset_item_name map_update_same split: option.split)

lemma append_query_names:
  assumes "map bq_queryName (qs_queryData q) = map bq_queryName (qs_queryData q')"
    and "\<And>qs. bq_queryName (mk qs) = new_query_name qs"
  shows "map bq_queryName (qs_queryData (append_query mk q)) = map bq_queryName (qs_queryData (append_query mk q'))"
  using assms map_eq_imp_length_eq [OF assms(1)] by (simp add: append_query_def new_query_name_def)

lemma append_query_rest [simp]:
  "qs_queryFormulas (append_query mk q) = qs_queryFormulas q" "qs_unit (append_query mk q) = qs_unit q"
  "qs_queryData (append_formula q) = qs_queryData q" "qs_unit (append_formula q) = qs_unit q"
  by (simp_all add: append_query_def append_formula_def)

lemma in_step_edit:
  assumes "in_step s" and "keeps_name e s"
  shows "in_step (apply_edit e s)"
proof (cases e)
  case (Set_Query i q)
  let ?rows = "qs_queryData (pv_currentQuery s)" and ?rows' = "qs_queryData (pv_supersetQuery s)"
  have names: "map bq_queryName ?rows = map bq_queryName ?rows'" using assms(1) by (simp add: in_step_def Let_def)
  then have "length ?rows = length ?rows'" by (rule map_eq_imp_length_eq)
  moreover have row: "i < length ?rows \<Longrightarrow> bq_queryName q = bq_queryName (?rows ! i)"
    using assms(2) Set_Query by (simp add: keeps_name_def Let_def)
  moreover have "map bq_queryName ?rows ! i = map bq_queryName ?rows' ! i" by (simp only: names)
  ultimately have "i < length ?rows' \<Longrightarrow> bq_queryName q = bq_queryName (?rows' ! i)" by simp
  note super = superset_names [OF this, of "pv_panelType s" "pv_pushed s"]
  have "map bq_queryName (?rows[i := q]) = map bq_queryName ?rows" by (rule map_update_same, rule row)
  with super names assms(1) Set_Query show ?thesis
    by (simp add: in_step_def apply_edit_def handleSetQueryData_def Let_def updateQueryBuilderData_def case_prod_beta)
next
  case Add_Query
  have "map bq_queryName (qs_queryData (pv_currentQuery s)) = map bq_queryName (qs_queryData (pv_supersetQuery s))"
    using assms(1) by (simp add: in_step_def Let_def)
  from append_query_names [OF this, of "createNewBuilderQuery (pv_initialDataSource s)"] Add_Query assms(1)
  show ?thesis by (simp add: in_step_def apply_edit_def edit_defs Let_def)
next
  case (Clone_Query q)
  have "map bq_queryName (qs_queryData (pv_currentQuery s)) = map bq_queryName (qs_queryData (pv_supersetQuery s))"
    using assms(1) by (simp add: in_step_def Let_def)
  from append_query_names [OF this, of "\<lambda>queries. cloneNewBuilderQuery queries q"] Clone_Query assms(1)
  show ?thesis by (simp add: in_step_def apply_edit_def edit_defs Let_def)
qed (use assms in \<open>simp_all add: in_step_def apply_edit_def edit_defs Let_def map_remove_at append_formula_def\<close>)

text \<open>
  C7. In any session of edits that hand back the rows they were given every query and every formula has a name
  of its own, from the names for it, and there are never more than 26 queries and 20 formulas; the superset
  has the same rows under the same names.
\<close>

theorem edits_keep_names:
  assumes "names_ok (pv_currentQuery s)" and "in_step s" and "names_kept es s"
  shows "let s' = fold apply_edit es s; q = pv_currentQuery s'
    in names_ok q \<and> in_step s' \<and> length (qs_queryData q) \<le> 26 \<and> length (qs_queryFormulas q) \<le> 20"
proof -
  have "names_ok (pv_currentQuery (fold apply_edit es s)) \<and> in_step (fold apply_edit es s)"
    using assms by (induction es arbitrary: s) (simp_all add: names_ok_edit in_step_edit)
  then show ?thesis
    using names_ok_bounds [of "pv_currentQuery (fold apply_edit es s)"] by (simp add: Let_def MAX_QUERIES_def MAX_FORMULAS_def)
qed

lemma names_ok_edits: "names_ok (pv_currentQuery s) \<Longrightarrow> names_kept es s \<Longrightarrow> names_ok (pv_currentQuery (fold apply_edit es s))"
  by (induction es arbitrary: s) (simp_all add: names_ok_edit)

lemma fold_map_set_rows:
  assumes "distinct (map name qs)"
  shows "fold (\<lambda>q m. map_set (name q) (f q) m) qs [] = map (\<lambda>q. (name q, f q)) qs"
proof -
  have "fold (\<lambda>(k, v) m. map_set k (f v) m) (map (\<lambda>q. (name q, q)) qs) [] =
      [] @ map (\<lambda>(k, v). (k, f v)) (map (\<lambda>q. (name q, q)) qs)"
    using assms by (intro fold_map_set_entries) (simp_all add: comp_def)
  then show ?thesis by (simp add: fold_map comp_def)
qed

lemma length_object_entries: "length (object_entries m) = length m"
  by (simp add: object_entries_def sum_length_filter_compl)

text \<open>
  C12. After any such session the request holds one envelope for every row of the editor, made from the row
  itself, one for every formula with an expression, and no others.
\<close>

theorem edited_rows_sent:
  assumes "names_ok (pv_currentQuery s)" and "names_kept es s"
    and "q = pv_currentQuery (fold apply_edit es s)"
    and "rp_builder props = Some (map builder_query.truncate (qs_queryData q), qs_queryFormulas q)"
  shows "let sent = pl_queries (fst (prepareQueryRangePayloadV5 bounds props));
             written = filter (\<lambda>f. js_trim (fq_expression f) \<noteq> '''') (qs_queryFormulas q)
    in length sent = length (qs_queryData q) + length written \<and>
       (\<forall>r\<in>set (qs_queryData q).
          Builder_Query (builder_spec_of (mapPanelTypeToRequestType (rp_graphType props)) (Some (rp_graphType props))
            (bq_queryName r, with_table_params (rp_tableParams props) (builder_query.truncate r))) \<in> set sent) \<and>
       (\<forall>f\<in>set written. formula_envelope (fq_queryName f, f) \<in> set sent)"
proof -
  let ?written = "filter (\<lambda>f. js_trim (fq_expression f) \<noteq> '''') (qs_queryFormulas q)"
  let ?rows = "map builder_query.truncate (qs_queryData q)"
  have ok: "names_ok q" using assms(1-3) names_ok_edits by blast
  have name: "bq_queryName (builder_query.truncate r) = bq_queryName r" for r :: provider_query
    by (simp add: builder_query.truncate_def)
  have rows: "fold (\<lambda>r m. map_set (bq_queryName r) (with_table_params (rp_tableParams props) r) m) ?rows [] =
      map (\<lambda>r. (bq_queryName r, with_table_params (rp_tableParams props) r)) ?rows"
    using ok by (subst fold_map_set_rows) (simp_all add: names_ok_def name comp_def)
  have "distinct (map fq_queryName ?written)" using ok by (simp add: names_ok_def distinct_map_filter)
  then have formulas: "fold (\<lambda>f m. map_set (fq_queryName f) f m) ?written [] = map (\<lambda>f. (fq_queryName f, f)) ?written"
    by (rule fold_map_set_rows)
  show ?thesis
    using assms(4)
    by (auto simp: prepareQueryRangePayloadV5_def payload_queries_def mapQueryDataToApi_def convertBuilderQueriesToV5_def
        rows formulas Let_def object_entries_set length_object_entries name)
qed

subsection \<open>A session\<close>

definition sample_uid :: "nat \<Rightarrow> string" where
  "sample_uid n = ''id-'' @ nat_digits n"

definition sample_provider :: provider where
  "sample_provider =
     (let q = query_state.truncate (initialQueriesMap (sample_uid 0) LOGS)
      in \<lparr>pv_pathname = ''/logs/logs-explorer'', pv_search = [], pv_urlQuery = [], pv_pathRef = ''/logs/logs-explorer'',
          pv_called = False, pv_initialDataSource = Some LOGS, pv_panelType = Some P_LIST, pv_currentQuery = q,
          pv_supersetQuery = q, pv_lastUsedQuery = Some 0, pv_stagedQuery = None, pv_queryType = ''builder'',
          pv_pushed = [], pv_uuids = 1\<rparr>)"

definition sample_edits :: "edit list" where
  "sample_edits = [Add_Query, Add_Formula, Remove_Query 0, Add_Query]"

lemma sample_provider_ok: "names_ok (pv_currentQuery sample_provider)" "in_step sample_provider"
  "names_kept sample_edits sample_provider"
  by (unfold names_ok_def in_step_def) code_simp+

theorem edits_keep_names_witness:
  "let q = pv_currentQuery (fold apply_edit sample_edits sample_provider)
   in map bq_queryName (qs_queryData q) = [''B'', ''A''] \<and> names_ok q"
proof -
  have "map bq_queryName (qs_queryData (pv_currentQuery (fold apply_edit sample_edits sample_provider))) = [''B'', ''A'']"
    by code_simp
  then show ?thesis using edits_keep_names [OF sample_provider_ok] by (simp add: Let_def)
qed

definition editor_props :: "query_state \<Rightarrow> unit query_results_props" where
  "editor_props q =
     \<lparr>rp_builder = Some (map builder_query.truncate (qs_queryData q), qs_queryFormulas q),
      rp_graphType = P_TIME_SERIES, rp_tableParams = None, rp_variables = [], rp_start = None, rp_end = None,
      rp_formatForWeb = False, rp_originalGraphType = None, rp_fillGaps = False\<rparr>"

theorem edited_rows_sent_witness:
  "let q = pv_currentQuery (fold apply_edit sample_edits sample_provider)
   in length (pl_queries (fst (prepareQueryRangePayloadV5 (0, 60) (editor_props q)))) = 2"
proof -
  let ?q = "pv_currentQuery (fold apply_edit sample_edits sample_provider)"
  have "length (qs_queryData ?q) = 2" "filter (\<lambda>f. js_trim (fq_expression f) \<noteq> '''') (qs_queryFormulas ?q) = []"
    by code_simp+
  moreover have "rp_builder (editor_props ?q) = Some (map builder_query.truncate (qs_queryData ?q), qs_queryFormulas ?q)"
    by (simp add: editor_props_def)
  note edited_rows_sent [OF sample_provider_ok(1,3) refl this, of "(0, 60)"]
  ultimately show ?thesis by (simp add: Let_def)
qed

section \<open>Loading settles\<close>

definition settled :: "(nat \<Rightarrow> string) \<Rightarrow> provider \<Rightarrow> bool" where
  "settled uuid s \<longleftrightarrow>
     pv_pathname s = pv_pathRef s \<and>
     (case useGetCompositeQueryParam uuid (pv_search s) of None \<Rightarrow> True | Some c \<Rightarrow> is_staged s c)"

lemma settled_commit: "settled uuid s \<Longrightarrow> commit uid uuid s = Some s"
  by (auto simp: settled_def commit_def path_effect_def load_effect_def split: option.splits)

text \<open>A query as a redirect writes it: none of the keys of the default query is missing.\<close>

definition complete_query :: "partial_query \<Rightarrow> bool" where
  "complete_query c \<longleftrightarrow> pt_id c \<noteq> None \<and> pt_builder c \<noteq> None \<and> pt_unit c \<noteq> None \<and> pt_queryType c \<noteq> None"

lemma generated_complete [simp]: "complete_query (generated_query i q)"
  by (simp add: complete_query_def generated_query_def split: option.split list.split)

lemma valid_iff_complete [simp]: "fst (replaceIncorrectObjectFields c d) = complete_query c"
  by (simp add: replaceIncorrectObjectFields_def complete_query_def)

lemma map_of_delete: "k \<noteq> k' \<Longrightarrow> map_of (delete_param k' params) k = map_of params k"
  by (induction params) (auto simp: delete_param_def)

lemma redirect_composite:
  assumes "redirect_params q [] params = Some params'"
  shows "map_of params' ''compositeQuery'' = Some (U_query q)"
  using assms by (auto simp: redirect_params_def map_of_delete map_of_map_set)

lemma composite_id [simp]: "useGetCompositeQueryParam uuid params = Some c \<Longrightarrow>
    \<exists>c'. map_of params ''compositeQuery'' = Some (U_query c') \<and> pt_id c = pt_id c' \<and> complete_query c = complete_query c'"
  by (auto simp: useGetCompositeQueryParam_def complete_query_def split: option.splits url_param.splits)

lemma loaded_settled:
  assumes "pv_pathname s' = pv_pathRef s'" and "useGetCompositeQueryParam uuid (pv_search s') = Some c"
    and "complete_query c"
  shows "settled uuid (initQueryBuilderData s0 (full_of c) s')"
  using assms
  by (auto simp: settled_def initQueryBuilderData_def Let_def is_staged_def prepareQueryBuilderData_def full_of_def
      complete_query_def str_or_def)

lemma path_effect_fields [simp]:
  "pv_pathname (path_effect s) = pv_pathname s" "pv_pathRef (path_effect s) = pv_pathname s"
  "pv_search (path_effect s) = pv_search s" "pv_urlQuery (path_effect s) = pv_urlQuery s"
  by (simp_all add: path_effect_def)

text \<open>The effect of loading has nothing to do: no query in the URL, or the staged one.\<close>

definition quiet :: "(nat \<Rightarrow> string) \<Rightarrow> provider \<Rightarrow> bool" where
  "quiet uuid s = (case useGetCompositeQueryParam uuid (pv_search s) of None \<Rightarrow> True | Some c \<Rightarrow> is_staged s c)"

definition complete_url :: "(nat \<Rightarrow> string) \<Rightarrow> provider \<Rightarrow> bool" where
  "complete_url uuid s =
     (case useGetCompositeQueryParam uuid (pv_search s) of None \<Rightarrow> True | Some c \<Rightarrow> complete_query c)"

lemma settled_quiet: "settled uuid s \<longleftrightarrow> pv_pathname s = pv_pathRef s \<and> quiet uuid s"
  by (simp add: settled_def quiet_def)

lemma path_effect_same: "pv_pathname s = pv_pathRef s \<Longrightarrow> path_effect s = s"
  by (simp add: path_effect_def)

text \<open>
  A render has nothing to load, or it loads the query of the URL and settles, or it replaces a query that
  is not complete.
\<close>

lemma commit_cases:
  assumes "complete_url uuid s \<or> reset_pagination (pv_urlQuery s) \<noteq> None"
  shows "commit uid uuid s = Some (path_effect s) \<and> quiet uuid s \<or>
    (\<exists>s'. commit uid uuid s = Some s' \<and> settled uuid s') \<or>
    (\<exists>s'. commit uid uuid s = Some s' \<and> pv_pathname s' = pv_pathRef s' \<and> complete_url uuid s' \<and>
       \<not> complete_url uuid s)"
proof (cases "quiet uuid s")
  case True
  then show ?thesis by (auto simp: commit_def load_effect_def quiet_def split: option.splits)
next
  case False
  then obtain c where c: "useGetCompositeQueryParam uuid (pv_search s) = Some c" "\<not> is_staged s c"
    by (auto simp: quiet_def split: option.splits)
  define d where "d = initialQueriesMap (uid 0) METRICS"
  show ?thesis
  proof (cases "complete_query c")
    case True
    then have "fst (replaceIncorrectObjectFields c d)" by simp
    with c have "commit uid uuid s = Some (initQueryBuilderData s (full_of c) (path_effect s))"
      by (auto simp: commit_def load_effect_def case_prod_beta d_def)
    then show ?thesis using loaded_settled [of "path_effect s" uuid c s] c True by simp
  next
    case False
    define n q where "n = pv_uuids (path_effect s)" and "q = generated_query (uid n) (snd (replaceIncorrectObjectFields c d))"
    have url: "\<not> complete_url uuid s" using c False by (simp add: complete_url_def)
    with assms obtain params where params: "redirect_params q [] (pv_urlQuery s) = Some params"
      by (auto simp: redirect_params_def)
    define s' where "s' = (path_effect s)
      \<lparr>pv_uuids := Suc n, pv_urlQuery := params, pv_pathname := pv_pathname s, pv_search := params\<rparr>"
    have "\<not> fst (replaceIncorrectObjectFields c d)" using False by simp
    then have "commit uid uuid s = Some s'"
      using c params
      by (auto simp: commit_def load_effect_def case_prod_beta redirectWithQueryBuilderData_def q_def n_def s'_def d_def
          str_or_def)
    moreover have "complete_url uuid s'"
    proof (cases "useGetCompositeQueryParam uuid (pv_search s')")
      case (Some c')
      from composite_id [OF this] redirect_composite [OF params] have "complete_query c'" by (auto simp: s'_def q_def)
      with Some show ?thesis by (simp add: complete_url_def)
    qed (simp add: complete_url_def)
    moreover have "pv_pathname s' = pv_pathRef s'" by (simp add: s'_def)
    ultimately show ?thesis using url by blast
  qed
qed

text \<open>A URL with a complete query is loaded by one render; a redirect takes one before, a new path one more.\<close>

lemma complete_settles:
  assumes "complete_url uuid s" and "pv_pathname s = pv_pathRef s"
  shows "\<exists>s'. commit uid uuid s = Some s' \<and> settled uuid s'"
  using commit_cases [OF disjI1, OF assms(1), of uid] assms by (auto simp: path_effect_same settled_quiet)

lemma redirect_settles:
  assumes "pv_pathname s = pv_pathRef s" and "reset_pagination (pv_urlQuery s) \<noteq> None"
  shows "\<exists>s1 s2. commit uid uuid s = Some s1 \<and> commit uid uuid s1 = Some s2 \<and> settled uuid s2"
proof -
  from commit_cases [OF disjI2, OF assms(2), of uid uuid] consider
      "settled uuid s"
    | s1 where "commit uid uuid s = Some s1" "settled uuid s1"
    | s1 where "commit uid uuid s = Some s1" "pv_pathname s1 = pv_pathRef s1" "complete_url uuid s1"
    using assms(1) by (auto simp: settled_quiet)
  then show ?thesis
  proof cases
    case 3
    from complete_settles [OF this(3,2)] 3(1) show ?thesis by blast
  qed (use settled_commit in blast)+
qed

text \<open>
  C13. Whatever the state and the URL, the effects come to rest: after three renders at most nothing changes any
  more, the query of the URL is the staged one, and no effect has thrown. Only a pagination in the URL that
  does not parse is excluded.
\<close>

theorem loading_settles:
  assumes "reset_pagination (pv_urlQuery s) \<noteq> None"
  shows "\<exists>s'. commits uid uuid 3 s = Some s' \<and> commit uid uuid s' = Some s' \<and>
    (case useGetCompositeQueryParam uuid (pv_search s') of None \<Rightarrow> True | Some c \<Rightarrow> is_staged s' c)"
proof -
  from commit_cases [OF disjI2, OF assms, of uid uuid] consider
      "commit uid uuid s = Some (path_effect s)"
    | s1 where "commit uid uuid s = Some s1" "settled uuid s1"
    | s1 where "commit uid uuid s = Some s1" "pv_pathname s1 = pv_pathRef s1" "complete_url uuid s1"
    by blast
  then have "\<exists>s1 s2 s3. commit uid uuid s = Some s1 \<and> commit uid uuid s1 = Some s2 \<and> commit uid uuid s2 = Some s3 \<and>
      settled uuid s3"
  proof cases
    case 1
    from redirect_settles [of "path_effect s" uid uuid] assms 1 show ?thesis by auto
  next
    case 2
    then show ?thesis using settled_commit by blast
  next
    case 3
    from complete_settles [OF this(3,2), of uid] 3(1) show ?thesis using settled_commit by blast
  qed
  then obtain s1 s2 s3 where s: "commit uid uuid s = Some s1" "commit uid uuid s1 = Some s2" "commit uid uuid s2 = Some s3"
    "settled uuid s3" by blast
  then have "commits uid uuid 3 s = Some s3" by (simp add: numeral_3_eq_3)
  with s(4) settled_commit [OF s(4), of uid] show ?thesis by (auto simp: settled_def)
qed

text \<open>A visit of the explorer with a URL whose query has no unit, coming from another page.\<close>

definition sample_row :: provider_query where
  "sample_row = (initialQueryBuilderFormValuesMap LOGS)\<lparr>bq_filter := Some ''a = 1'', bq_filters := None\<rparr>"

definition sample_visit :: provider where
  "sample_visit =
     (let params = [(''compositeQuery'', U_query \<lparr>pt_queryType = Some ''builder'', pt_builder = Some ([sample_row], []),
             pt_id = Some ''id-9'', pt_unit = None, pt_resultUnit = Some ''ms'', pt_displayUnit = None\<rparr>),
           (''pagination'', U_page (Some 50) 100)]
      in sample_provider\<lparr>pv_pathRef := ''/home'', pv_search := params, pv_urlQuery := params\<rparr>)"

theorem loading_settles_witness:
  "\<exists>s'. commits sample_uid sample_uid 3 sample_visit = Some s' \<and> commit sample_uid sample_uid s' = Some s'"
proof -
  have "reset_pagination (pv_urlQuery sample_visit) \<noteq> None" by code_simp
  from loading_settles [OF this, of sample_uid sample_uid] show ?thesis by blast
qed

section \<open>Running a query stages it\<close>

text \<open>A row in which the editor has filled the optional fields that have a default.\<close>

definition complete_row :: "provider_query \<Rightarrow> bool" where
  "complete_row r \<longleftrightarrow>
     bq_aggregateAttribute r \<noteq> None \<and> bq_timeAggregation r \<noteq> None \<and> bq_spaceAggregation r \<noteq> None \<and>
     bq_reduceTo r \<noteq> None \<and> pq_aggregateOperator r \<noteq> None"

text \<open>
  The staged row is the row of the editor, with its filter text (nothing for a blank one), the filters read
  back from that text, and the ids of its attributes computed anew.
\<close>

definition run_text :: "provider_query \<Rightarrow> string" where
  "run_text r = (let e = str_or (bq_filter r) [] in if js_trim e = [] then [] else e)"

definition staged_as :: "provider_query \<Rightarrow> provider_query \<Rightarrow> bool" where
  "staged_as r r' \<longleftrightarrow>
     r' = r\<lparr>bq_filter := Some (run_text r), bq_filters := bq_filters r',
            bq_groupBy := map with_id (bq_groupBy r),
            bq_aggregateAttribute := map_option with_id (bq_aggregateAttribute r)\<rparr>"

lemma merge_nothing:
  "snd (convertFiltersToExpressionWithExistingQuery uuid \<lparr>tg_items = [], tg_op = c\<rparr> e b) = e"
  by (simp add: convertFiltersToExpressionWithExistingQuery_def normalized_items_def convertFiltersToExpression_def Let_def)

lemma run_row_text: "bq_filter (run_row r) = Some (run_text r)"
  by (auto simp: run_row_def run_text_def str_or_def Let_def js_trim_def split: option.split)

lemma synchronized_run_row:
  "synchronize_row uuid (run_row r) =
     r\<lparr>bq_filter := Some (run_text r), bq_filters := bq_filters (synchronize_row uuid (run_row r))\<rparr>"
proof -
  have own: "str_or (Some t) [] = t" for t by (simp add: str_or_def)
  have "run_row r = r\<lparr>bq_filter := Some (run_text r), bq_filters := Some \<lparr>tg_items = [], tg_op = ''AND''\<rparr>\<rparr>"
    using run_row_text [of r] by (simp add: run_row_def)
  then show ?thesis
    using merge_nothing [of uuid "''AND''" "run_text r" False]
    by (simp add: synchronize_row_def case_prod_beta own)
qed

lemma spread_complete:
  "complete_row r \<Longrightarrow> bq_filter r \<noteq> None \<Longrightarrow> bq_filters r \<noteq> None \<Longrightarrow> spread_defaults d r = r"
  by (auto simp: spread_defaults_def complete_row_def coalesce_def)

lemma prepared_run_row:
  assumes "complete_row r" and "is_explorer (pv_pathname s) \<longrightarrow> pv_called s"
  shows "staged_as r (prepare_row s (synchronize_row uuid (run_row r)))"
proof -
  obtain fs where row: "synchronize_row uuid (run_row r) = r\<lparr>bq_filter := Some (run_text r), bq_filters := Some fs\<rparr>"
    using synchronized_run_row [of uuid r] by (auto simp: synchronize_row_def case_prod_beta)
  have "spread_defaults d (r\<lparr>bq_filter := Some (run_text r), bq_filters := Some fs\<rparr>) =
      r\<lparr>bq_filter := Some (run_text r), bq_filters := Some fs\<rparr>" for d
    using assms(1) by (intro spread_complete) (simp_all add: complete_row_def)
  then show ?thesis
    using assms(2) by (auto simp: row prepare_row_def Let_def staged_as_def)
qed

lemma staged_rows:
  assumes "list_all complete_row rs" and "is_explorer (pv_pathname s) \<longrightarrow> pv_called s"
  shows "list_all2 staged_as rs (map (prepare_row s) (map (synchronize_row uuid) (map run_row rs)))"
  using assms(1) by (induction rs) (simp_all add: prepared_run_row [OF _ assms(2)])

text \<open>
  C6. Running the query of the editor stages that query: the next render loads it from the URL, row for row and
  with its formulas, result and display unit, under a new id, makes it the current query, and nothing
  changes after that. The editor has a row, its rows are complete, and the new id is not the staged one.
\<close>

theorem run_stages_query:
  assumes "handleRunQuery uid s = Some s1" and "pv_pathname s = pv_pathRef s" and "pv_queryType s = ''builder''"
    and "qs_queryData (pv_currentQuery s) \<noteq> []" and "list_all complete_row (qs_queryData (pv_currentQuery s))"
    and "\<forall>q. pv_stagedQuery s = Some q \<longrightarrow> qs_id q \<noteq> uid (pv_uuids s)"
  shows "\<exists>s2 q. commit uid uuid s1 = Some s2 \<and> commit uid uuid s2 = Some s2 \<and>
    pv_stagedQuery s2 = Some q \<and> pv_currentQuery s2 = query_state.truncate q \<and> qs_id q = uid (pv_uuids s) \<and>
    list_all2 staged_as (qs_queryData (pv_currentQuery s)) (qs_queryData q) \<and>
    qs_queryFormulas q = qs_queryFormulas (pv_currentQuery s) \<and>
    qs_resultUnit q = qs_resultUnit (pv_currentQuery s) \<and> qs_displayUnit q = qs_displayUnit (pv_currentQuery s)"
proof -
  define c where "c = generated_query (uid (pv_uuids s)) (running_query s)"
  define c' where "c' = c\<lparr>pt_builder := map_option (\<lambda>(qs, fs). (map (synchronize_row uuid) qs, fs)) (pt_builder c)\<rparr>"
  define q where "q = (prepareQueryBuilderData s1 (full_of c'))\<lparr>tq_queryType := ''builder''\<rparr>"
  define s2 where "s2 = initQueryBuilderData s1 (full_of c') (path_effect s1)"
  obtain params where params: "redirect_params c [] (pv_urlQuery s) = Some params"
    and s1: "pv_search s1 = params" "pv_pathname s1 = pv_pathname s" "pv_stagedQuery s1 = pv_stagedQuery s"
      "pv_called s1 = (is_explorer (pv_pathname s) \<or> pv_called s)" "pv_pathRef s1 = pv_pathRef s"
    using assms(1) by (auto simp: handleRunQuery_def redirectWithQueryBuilderData_def c_def str_or_def split: if_splits)
  have found: "useGetCompositeQueryParam uuid (pv_search s1) = Some c'"
    using redirect_composite [OF params] by (simp add: useGetCompositeQueryParam_def s1 c'_def)
  have id: "pt_id c' = Some (uid (pv_uuids s))" by (simp add: c'_def c_def generated_query_def)
  have "\<not> is_staged s1 c'" using assms(6) by (auto simp: is_staged_def s1 id split: option.splits)
  moreover have complete: "complete_query c'"
    using generated_complete [of "uid (pv_uuids s)" "running_query s"] by (auto simp: complete_query_def c'_def c_def)
  then have "fst (replaceIncorrectObjectFields c' (initialQueriesMap (uid 0) METRICS))" by simp
  ultimately have run: "commit uid uuid s1 = Some s2"
    by (auto simp: commit_def load_effect_def found case_prod_beta s2_def)
  have "settled uuid s2"
    using loaded_settled [of "path_effect s1" uuid c' s1] found complete by (simp add: s2_def)
  note settled_commit [OF this, of uid]
  moreover have builder: "pt_builder c' = Some (map (synchronize_row uuid) (map run_row (qs_queryData (pv_currentQuery s))),
      qs_queryFormulas (pv_currentQuery s))"
    using assms(4) by (cases "qs_queryData (pv_currentQuery s)")
      (simp_all add: c'_def c_def generated_query_def running_query_def Let_def)
  moreover have type: "tq_queryType (full_of c') = ''builder''"
    using assms(3) by (simp add: full_of_def c'_def c_def generated_query_def running_query_def query_types_def str_or_def Let_def)
  then have "pv_stagedQuery s2 = Some q" "pv_currentQuery s2 = query_state.truncate q"
    by (simp_all add: s2_def q_def initQueryBuilderData_def prepareQueryBuilderData_def Let_def query_state.truncate_def)
  moreover have "list_all2 staged_as (qs_queryData (pv_currentQuery s)) (qs_queryData q)"
    using staged_rows [OF assms(5), of s1 uuid] s1
    by (simp add: q_def prepareQueryBuilderData_def full_of_def builder)
  moreover have "qs_id q = uid (pv_uuids s)"
    by (auto simp: q_def prepareQueryBuilderData_def full_of_def id str_or_def)
  moreover have "qs_queryFormulas q = qs_queryFormulas (pv_currentQuery s)"
    by (simp add: q_def prepareQueryBuilderData_def full_of_def builder)
  moreover have "qs_resultUnit q = qs_resultUnit (pv_currentQuery s)" "qs_displayUnit q = qs_displayUnit (pv_currentQuery s)"
    by (simp_all add: q_def prepareQueryBuilderData_def full_of_def c'_def c_def generated_query_def running_query_def Let_def)
  ultimately show ?thesis using run by blast
qed

theorem run_stages_query_witness:
  "\<exists>s1 s2 q. handleRunQuery sample_uid sample_provider = Some s1 \<and> commit sample_uid sample_uid s1 = Some s2 \<and>
    pv_stagedQuery s2 = Some q \<and> qs_id q = ''id-1'' \<and> commit sample_uid sample_uid s2 = Some s2"
proof -
  have "handleRunQuery sample_uid sample_provider \<noteq> None" by code_simp
  then obtain s1 where s1: "handleRunQuery sample_uid sample_provider = Some s1" by blast
  have "pv_pathname sample_provider = pv_pathRef sample_provider" "pv_queryType sample_provider = ''builder''"
    "qs_queryData (pv_currentQuery sample_provider) \<noteq> []"
    "list_all complete_row (qs_queryData (pv_currentQuery sample_provider))" "pv_stagedQuery sample_provider = None"
    "sample_uid (pv_uuids sample_provider) = ''id-1''"
    by code_simp+
  with run_stages_query [OF s1, of sample_uid] s1 show ?thesis by (metis option.distinct(1))
qed

section \<open>The URL of a redirect\<close>

lemma fold_map_set_other: "k \<notin> fst ` set es \<Longrightarrow> map_of (fold (\<lambda>(k', v). map_set k' v) es m) k = map_of m k"
  by (induction es arbitrary: m) (auto simp: map_of_map_set)

lemma map_of_delete_same: "map_of (delete_param k params) k = None"
  by (induction params) (auto simp: delete_param_def)

lemma reset_pagination_other:
  assumes "reset_pagination params = Some params'" and "k \<noteq> ''pagination''"
  shows "map_of params' k = map_of params k"
  using assms by (auto simp: reset_pagination_def map_of_map_set split: option.splits url_param.splits if_splits)

lemma reset_pagination_page:
  assumes "reset_pagination params = Some params'" and "map_of params ''pagination'' = Some (U_page limit ofs)"
  shows "map_of params' ''pagination'' = Some (U_page limit 0)"
  using assms by (auto simp: reset_pagination_def map_of_map_set)

text \<open>
  A redirect puts the generated query into the URL, starts the pagination over with its page size, closes the
  open log, takes the given parameters and keeps every other one.
\<close>

theorem redirect_keeps_params:
  assumes "redirectWithQueryBuilderData uid query searchParams url False s = Some s'"
    and "{''pagination'', ''compositeQuery'', ''activeLogId''} \<inter> fst ` set searchParams = {}"
  shows "map_of (pv_search s') ''compositeQuery'' = Some (U_query (generated_query (uid (pv_uuids s)) query)) \<and>
    map_of (pv_search s') ''activeLogId'' = None \<and>
    (\<forall>limit ofs. map_of (pv_urlQuery s) ''pagination'' = Some (U_page limit ofs) \<longrightarrow>
       map_of (pv_search s') ''pagination'' = Some (U_page limit 0)) \<and>
    (\<forall>k. k \<notin> {''pagination'', ''compositeQuery'', ''activeLogId''} \<union> fst ` set searchParams \<longrightarrow>
       map_of (pv_search s') k = map_of (pv_urlQuery s) k)"
proof -
  define c where "c = generated_query (uid (pv_uuids s)) query"
  obtain params where params: "reset_pagination (pv_urlQuery s) = Some params"
    and search: "pv_search s' = delete_param ''activeLogId''
      (fold (\<lambda>(k, v). map_set k v) searchParams (map_set ''compositeQuery'' (U_query c) params))"
    using assms(1) by (auto simp: redirectWithQueryBuilderData_def redirect_params_def c_def)
  have other: "map_of (pv_search s') k = map_of (map_set ''compositeQuery'' (U_query c) params) k"
    if "k \<notin> fst ` set searchParams" "k \<noteq> ''activeLogId''" for k
    using that by (simp add: search map_of_delete fold_map_set_other)
  show ?thesis
    using assms(2) other reset_pagination_other [OF params] reset_pagination_page [OF params]
    by (auto simp: map_of_map_set c_def) (simp_all add: search map_of_delete_same)
qed

section \<open>What the code lets through\<close>

text \<open>The state after the explorer has loaded its default query from the URL.\<close>

definition default_url :: url_params where
  "default_url =
     [(''compositeQuery'', U_query (partial_of
        (updateAllQueriesOperators (initialQueriesMap (sample_uid 7) LOGS) P_LIST LOGS [])))]"

definition default_visit :: provider where
  "default_visit = sample_provider\<lparr>pv_search := default_url, pv_urlQuery := default_url\<rparr>"

text \<open>
  No list of operators has \<open>noop\<close>, so the default query of an explorer has no operator. The URL drops it, the
  load fills in \<open>count\<close>, and the loaded default query is not recognized as one.
\<close>

lemma default_query_not_recognized:
  "getOperatorsBySourceAndPanelType LOGS P_LIST = [] \<and>
   (case commit sample_uid sample_uid default_visit of
      None \<Rightarrow> False
    | Some s \<Rightarrow>
        (case pv_stagedQuery s of None \<Rightarrow> False | Some q \<Rightarrow> isDefaultQuery (sample_uid 0) q LOGS = Some False))"
  by code_simp

text \<open>A reset by a query is undone by the next render while the URL has a query; the superset keeps it.\<close>

lemma reset_undone_by_url:
  "let other = (pv_currentQuery default_visit)\<lparr>qs_unit := Some ''bytes''\<rparr>
   in case commit sample_uid sample_uid default_visit of
        None \<Rightarrow> False
      | Some s \<Rightarrow>
          (case commit sample_uid sample_uid (resetQuery (Some (other, None)) s) of
             None \<Rightarrow> False
           | Some s' \<Rightarrow> pv_currentQuery s' = pv_currentQuery s \<and> qs_unit (pv_currentQuery s') = Some [] \<and>
               qs_unit (pv_supersetQuery s') = Some ''bytes'')"
  by code_simp

text \<open>The parameters of a redirect to a new tab stay in the shared object and get into the next URL of this tab.\<close>

lemma new_tab_leaks:
  "case redirectWithQueryBuilderData sample_uid (running_query sample_provider) [(''relativeTime'', U_text ''1h'')]
      (Some ''/traces-explorer'') True sample_provider of
     None \<Rightarrow> False
   | Some s \<Rightarrow>
       pv_search s = [] \<and>
       (case handleRunQuery sample_uid s of
          None \<Rightarrow> False | Some s' \<Rightarrow> map_of (pv_search s') ''relativeTime'' = Some (U_text ''1h''))"
  by code_simp

text \<open>Loading a query from the URL leaves the superset behind.\<close>

lemma load_leaves_superset:
  "let q = \<lparr>pt_queryType = Some ''builder'', pt_builder = Some ([sample_row\<lparr>bq_queryName := ''C''\<rparr>], []),
             pt_id = Some ''id-9'', pt_unit = Some [], pt_resultUnit = None, pt_displayUnit = None\<rparr>
   in case commit sample_uid sample_uid (sample_provider\<lparr>pv_search := [(''compositeQuery'', U_query q)]\<rparr>) of
        None \<Rightarrow> False
      | Some s \<Rightarrow> map bq_queryName (qs_queryData (pv_currentQuery s)) = [''C''] \<and>
          map bq_queryName (qs_queryData (pv_supersetQuery s)) = [''A'']"
  by code_simp

text \<open>A URL without a unit is replaced by one that also loses the unit of the result.\<close>

lemma result_unit_lost:
  "case commits sample_uid sample_uid 2 sample_visit of
     None \<Rightarrow> False
   | Some s \<Rightarrow> (case pv_stagedQuery s of None \<Rightarrow> False | Some q \<Rightarrow> qs_resultUnit q = None)"
  by code_simp

end
