(* ===== verification/Saved_View.thy ===== *)
theory Saved_View
  imports Query_Provider
begin

text \<open>
  \<^verbatim>\<open>components/ExplorerCard/utils.ts\<close>: whether the staged query of an explorer differs from a saved view.
  The query of a view is opened by \<open>mapQueryDataFromApi\<close>; a row is compared by the fields that requests
  read. The options of a view are the parsed \<open>extraData\<close>, \<open>None\<close> where it is empty.
\<close>

record view_options =
  vo_selectColumns :: "select_column list option"
  vo_format :: "string option"
  vo_maxLines :: "int option"
  vo_fontSize :: "string option"

record saved_view =
  vw_id :: string
  vw_name :: string
  vw_compositeQuery :: composite_query
  vw_unit :: "string option"
  vw_extraData :: "view_options option"

record view_details =
  vd_query :: editor_query
  vd_name :: string
  vd_id :: string
  vd_panelType :: panel_type
  vd_extraData :: "view_options option"

definition getViewDetailsUsingViewKey :: "string \<Rightarrow> saved_view list \<Rightarrow> view_details option" where
  "getViewDetailsUsingViewKey viewKey data =
     map_option
       (\<lambda>v. \<lparr>vd_query = mapQueryDataFromApi (vw_unit v) (vw_compositeQuery v), vd_name = vw_name v, vd_id = vw_id v,
             vd_panelType = cq_panelType (vw_compositeQuery v), vd_extraData = vw_extraData v\<rparr>)
       (js_find (\<lambda>v. vw_id v = viewKey) data)"

definition omit_attribute_id :: "autocomplete_data \<Rightarrow> autocomplete_data" where
  "omit_attribute_id a = a\<lparr>ac_id := None\<rparr>"

definition omit_item_ids :: "tag_filter_item \<Rightarrow> tag_filter_item" where
  "omit_item_ids f = f\<lparr>tf_id := [], tf_key := map_option omit_attribute_id (tf_key f)\<rparr>"

definition zero_or :: "int option \<Rightarrow> int option" where
  "zero_or n = (if truthy_num n then n else Some 0)"

definition omit_row_ids :: "builder_query \<Rightarrow> builder_query" where
  "omit_row_ids q =
     q\<lparr>bq_aggregateAttribute := map_option omit_attribute_id (bq_aggregateAttribute q),
       bq_groupBy := map omit_attribute_id (bq_groupBy q),
       bq_filters := map_option (\<lambda>f. f\<lparr>tg_items := map omit_item_ids (tg_items f)\<rparr>) (bq_filters q),
       bq_limit := zero_or (bq_limit q), bq_offset := zero_or (bq_offset q), bq_pageSize := zero_or (bq_pageSize q)\<rparr>"

text \<open>Without a staged query the builder has no rows at all, neither of queries nor of formulas.\<close>

definition omitIdFromQuery :: "typed_query option \<Rightarrow> builder_query list option \<times> formula_query list option" where
  "omitIdFromQuery query =
     (map_option (\<lambda>q. map (\<lambda>r. omit_row_ids (builder_query.truncate r)) (qs_queryData q)) query,
      map_option qs_queryFormulas query)"

definition view_option :: "(view_options \<Rightarrow> 'a option) \<Rightarrow> view_options option \<Rightarrow> 'a option" where
  "view_option f o' = (case o' of Some x \<Rightarrow> f x | None \<Rightarrow> None)"

definition isQueryUpdatedInView ::
  "string \<Rightarrow> saved_view list \<Rightarrow> typed_query option \<Rightarrow> panel_type option \<Rightarrow> view_options \<Rightarrow> bool" where
  "isQueryUpdatedInView viewKey data stagedQuery currentPanelType options =
     (case getViewDetailsUsingViewKey viewKey data of
        None \<Rightarrow> False
      | Some v \<Rightarrow>
          let query = vd_query v; extra = vd_extraData v;
              staged_logs = (case stagedQuery of
                  Some q \<Rightarrow> (case qs_queryData q of r # _ \<Rightarrow> bq_dataSource r = LOGS | [] \<Rightarrow> False) | None \<Rightarrow> False)
          in Some (vd_panelType v) \<noteq> currentPanelType \<or>
             (Some (eq_queryData query), Some (eq_queryFormulas query)) \<noteq> omitIdFromQuery stagedQuery \<or>
             vo_selectColumns options \<noteq> view_option vo_selectColumns extra \<or>
             staged_logs \<and>
               (vo_format options \<noteq> view_option vo_format extra \<or> vo_maxLines options \<noteq> view_option vo_maxLines extra \<or>
                vo_fontSize options \<noteq> view_option vo_fontSize extra))"

definition isStagedQueryUpdated :: "saved_view list \<Rightarrow> string \<Rightarrow> view_options \<Rightarrow> provider \<Rightarrow> bool" where
  "isStagedQueryUpdated viewData viewKey options s =
     isQueryUpdatedInView viewKey viewData (pv_stagedQuery s) (pv_panelType s) options"

definition trimViewName :: "string \<Rightarrow> string" where
  "trimViewName viewName = (if 20 < length viewName then take 20 viewName @ ''...'' else viewName)"

section \<open>A view is always reported as changed\<close>

lemma put_envelope_data:
  assumes "(k, Data_Item q) \<in> set (put_envelope e m)"
  shows "(k, Data_Item q) \<in> set m \<or> bq_aggregateAttribute q = Some initialAutocompleteData"
  using assms
  by (auto simp: put_envelope_def convertBuilderQueryToIBuilderQuery_def initial_form_def Let_def dest!: map_set_mem
      split: query_envelope.splits if_splits)

lemma put_envelopes_data:
  "(k, Data_Item q) \<in> set (fold put_envelope es m) \<Longrightarrow>
     (k, Data_Item q) \<in> set m \<or> bq_aggregateAttribute q = Some initialAutocompleteData"
  by (induction es arbitrary: m) (auto dest: put_envelope_data)

lemma opened_row_attribute:
  assumes "q \<in> set (eq_queryData (mapQueryDataFromApi u c))"
  shows "bq_aggregateAttribute q = Some initialAutocompleteData"
proof -
  from assms obtain k where "(k, Data_Item q) \<in> set (fold put_envelope (cq_queries c) [])"
    by (auto simp: mapQueryDataFromApi_def transformQueryBuilderDataModel_def Let_def data_items_mem object_entries_set)
  from put_envelopes_data [OF this] show ?thesis by simp
qed

text \<open>
  The rows of a view keep the ids of their attributes while those of the staged query lose them, so a view
  with a query is reported as changed, whatever is staged.
\<close>

lemma view_always_updated:
  assumes "getViewDetailsUsingViewKey viewKey data = Some v" and "eq_queryData (vd_query v) \<noteq> []"
  shows "isStagedQueryUpdated data viewKey options s"
proof -
  obtain w :: saved_view where w: "vd_query v = mapQueryDataFromApi (vw_unit w) (vw_compositeQuery w)"
    using assms(1) by (auto simp: getViewDetailsUsingViewKey_def)
  have "Some (eq_queryData (vd_query v)) \<noteq> fst (omitIdFromQuery (pv_stagedQuery s))"
  proof
    assume eq: "Some (eq_queryData (vd_query v)) = fst (omitIdFromQuery (pv_stagedQuery s))"
    have "hd (eq_queryData (vd_query v)) \<in> set (eq_queryData (vd_query v))" using assms(2) by simp
    with opened_row_attribute have "bq_aggregateAttribute (hd (eq_queryData (vd_query v))) = Some initialAutocompleteData"
      by (simp add: w)
    moreover obtain q :: typed_query where "eq_queryData (vd_query v) = map (\<lambda>r. omit_row_ids (builder_query.truncate r)) (qs_queryData q)"
      using eq by (cases "pv_stagedQuery s") (simp_all add: omitIdFromQuery_def)
    then obtain r where "hd (eq_queryData (vd_query v)) = omit_row_ids r"
      using assms(2) by (cases "qs_queryData q") auto
    ultimately have "\<exists>a. omit_attribute_id a = initialAutocompleteData" by (auto simp: omit_row_ids_def)
    then obtain a where a: "omit_attribute_id a = initialAutocompleteData" by blast
    from arg_cong [OF a, of ac_id] show False by (simp add: omit_attribute_id_def initialAutocompleteData_def)
  qed
  then show ?thesis
    using assms(1) by (auto simp: isStagedQueryUpdated_def isQueryUpdatedInView_def Let_def prod_eq_iff)
qed

end
