(* ===== verification/Chart_Data.thy ===== *)
theory Chart_Data
  imports Chart_Series
begin

text \<open>
  The data of a chart, from the series of a panel to what uPlot draws: the common axis
  (\<^verbatim>\<open>container/PanelVisualization/panels/utils/index.ts\<close>), breaks at large gaps
  (\<^verbatim>\<open>lib/uPlotV2/utils/dataUtils.ts\<close>), and the two ways to stack bars
  (\<^verbatim>\<open>charts/utils/stackSeriesUtils.ts\<close>, of which \<^verbatim>\<open>stackUtils.ts\<close> is a copy, with the hook
  \<^verbatim>\<open>useBarChartStacking.ts\<close>, and \<^verbatim>\<open>getUPlotChartData.ts\<close>). Numbers are exact rationals; the first row of
  the data of uPlot, the axis, is kept apart from the series.
\<close>

type_synonym aligned = "rat list \<times> cell list list"

section \<open>The axis\<close>

definition dec_rat :: "int \<Rightarrow> int \<Rightarrow> rat" where
  "dec_rat m e = (if 0 \<le> e then of_int m * 10 ^ nat e else of_int m / 10 ^ nat (- e))"

definition parsed_cell :: "js_num option \<Rightarrow> cell" where
  "parsed_cell x = (case x of Some (Dec m e) \<Rightarrow> Cell (dec_rat m e) | Some (Infinite _) \<Rightarrow> Cell_Null | None \<Rightarrow> Cell_NaN)"

definition isInvalidPlotValue :: "string \<Rightarrow> bool" where
  "isInvalidPlotValue v \<longleftrightarrow>
     v \<in> {''+Inf'', ''-Inf'', ''Infinity'', ''-Infinity'', ''NaN''} \<or>
     (case parse_float v of None \<Rightarrow> True | Some (Infinite _) \<Rightarrow> True | Some (Dec _ _) \<Rightarrow> False)"

definition normalizePlotValue :: "string \<Rightarrow> cell" where
  "normalizePlotValue v = (if isInvalidPlotValue v then Cell_Null else parsed_cell (parse_float v))"

type_synonym panel_series = "(rat \<times> string) list"

definition getXAxisTimestamps :: "panel_series list \<Rightarrow> rat list" where
  "getXAxisTimestamps seriesList = sort (remdups (concat (map (map fst) seriesList)))"

text \<open>A later value of a timestamp replaces an earlier one.\<close>

definition buildSeriesYValues :: "rat list \<Rightarrow> panel_series \<Rightarrow> cell list" where
  "buildSeriesYValues timestamps values =
     (if values = [] then []
      else
        let valueByTimestamp = map_of (rev (map (\<lambda>(t, v). (t, normalizePlotValue v)) values))
        in map (\<lambda>t. case valueByTimestamp t of Some c \<Rightarrow> c | None \<Rightarrow> Cell_Null) timestamps)"

definition fillMissingXAxisTimestamps :: "rat list \<Rightarrow> panel_series list \<Rightarrow> cell list list" where
  "fillMissingXAxisTimestamps timestampArr data = map (buildSeriesYValues (sort (remdups timestampArr))) data"

definition prepareBarPanelData :: "panel_series list \<Rightarrow> aligned" where
  "prepareBarPanelData seriesList =
     (let timestampArr = getXAxisTimestamps seriesList
      in (timestampArr, fillMissingXAxisTimestamps timestampArr seriesList))"

section \<open>Breaks at large gaps\<close>

datatype span_gaps = Span_Bool bool | Span_Num rat | Span_None

definition gapExceedsThreshold :: "rat \<Rightarrow> span_gaps list \<Rightarrow> bool" where
  "gapExceedsThreshold gapSize seriesOptions =
     list_ex (\<lambda>s. case s of Span_Num n \<Rightarrow> 0 < n \<and> n < gapSize | _ \<Rightarrow> False) seriesOptions"

definition gap_after :: "span_gaps list \<Rightarrow> rat list \<Rightarrow> nat \<Rightarrow> bool" where
  "gap_after opts ts i \<longleftrightarrow> Suc i < length ts \<and> gapExceedsThreshold (ts ! Suc i - ts ! i) opts"

definition insertion_count :: "span_gaps list \<Rightarrow> rat list \<Rightarrow> nat" where
  "insertion_count opts ts =
     fold (\<lambda>i n. if gapExceedsThreshold (ts ! Suc i - ts ! i) opts then Suc n else n) [0..<length ts - 1] 0"

definition break_at :: "rat list \<Rightarrow> nat \<Rightarrow> rat" where
  "break_at ts i = ts ! i + max 1 (of_int \<lfloor>(ts ! Suc i - ts ! i) / 2\<rfloor>)"

text \<open>The arrays of the second pass, with the cursor; an entry that has not been written is a hole.\<close>

record fill_arrays =
  fa_x :: "rat option list"
  fa_series :: "cell list list"
  fa_write :: nat

definition write_point :: "rat \<Rightarrow> cell list \<Rightarrow> fill_arrays \<Rightarrow> fill_arrays" where
  "write_point x cs s =
     (let w = fa_write s
      in s\<lparr>fa_x := (fa_x s)[w := Some x], fa_series := map2 (\<lambda>c row. row[w := c]) cs (fa_series s), fa_write := Suc w\<rparr>)"

definition fill_step :: "span_gaps list \<Rightarrow> rat list \<Rightarrow> cell list list \<Rightarrow> nat \<Rightarrow> fill_arrays \<Rightarrow> fill_arrays" where
  "fill_step opts ts rows i s =
     (let s = write_point (ts ! i) (map (\<lambda>row. cell_at row (int i)) rows) s
      in if gap_after opts ts i then write_point (break_at ts i) (map (\<lambda>_. Cell_Null) rows) s else s)"

definition insertLargeGapNullsIntoAlignedData :: "aligned \<Rightarrow> span_gaps list \<Rightarrow> aligned" where
  "insertLargeGapNullsIntoAlignedData d opts =
     (let (ts, rows) = d
      in if length ts < 2 \<or> rows = [] \<or> insertion_count opts ts = 0 then d
         else
           let n = length ts + insertion_count opts ts;
               s = fold (fill_step opts ts rows) [0..<length ts]
                     \<lparr>fa_x = replicate n None, fa_series = map (\<lambda>_. replicate n Cell_Undefined) rows, fa_write = 0\<rparr>
           in (map the (fa_x s), fa_series s))"

definition span_nulls :: "cell list \<Rightarrow> cell list" where
  "span_nulls row = map (\<lambda>c. if c = Cell_Null then Cell_Undefined else c) row"

definition applySpanGapsToAlignedData :: "aligned \<Rightarrow> span_gaps list \<Rightarrow> aligned" where
  "applySpanGapsToAlignedData d opts =
     (if snd d = [] then d
      else
        let g = (if list_ex (\<lambda>s. case s of Span_Num _ \<Rightarrow> True | _ \<Rightarrow> False) opts
                 then insertLargeGapNullsIntoAlignedData d opts else d)
        in if Span_Bool True \<notin> set opts then g
           else (fst g, map (\<lambda>i. if i < length opts \<and> opts ! i = Span_Bool True then span_nulls (snd g ! i) else snd g ! i)
                  [0..<length (snd g)]))"

definition prepareAlignedData :: "aligned \<Rightarrow> span_gaps list \<Rightarrow> aligned" where
  "prepareAlignedData d opts = (if opts \<noteq> [] then applySpanGapsToAlignedData d opts else d)"

section \<open>Stacking\<close>

text \<open>\<open>None\<close> in the cumulative acc is \<open>NaN\<close>.\<close>

definition stack_number :: "cell \<Rightarrow> rat option" where
  "stack_number c = (case c of Cell v \<Rightarrow> Some v | Cell_NaN \<Rightarrow> None | _ \<Rightarrow> Some 0)"

definition add_numbers :: "rat option \<Rightarrow> rat option \<Rightarrow> rat option" where
  "add_numbers a b = (case (a, b) of (Some x, Some y) \<Rightarrow> Some (x + y) | _ \<Rightarrow> None)"

definition sum_at :: "rat option list \<Rightarrow> nat \<Rightarrow> rat option" where
  "sum_at acc j = (if j < length acc then acc ! j else None)"

definition add_row :: "cell list \<Rightarrow> rat option list \<Rightarrow> rat option list" where
  "add_row row acc =
     map (\<lambda>j. add_numbers (sum_at acc j) (stack_number (row ! j))) [0..<length row] @ drop (length row) acc"

definition number_cell :: "rat option \<Rightarrow> cell" where
  "number_cell x = (case x of Some v \<Rightarrow> Cell v | None \<Rightarrow> Cell_NaN)"

text \<open>The rows from series \<open>i\<close> on, stacked from the last one up, with the acc so far.\<close>

fun buildStackedSeries :: "(nat \<Rightarrow> bool) \<Rightarrow> nat \<Rightarrow> nat \<Rightarrow> cell list list \<Rightarrow> cell list list \<times> rat option list" where
  "buildStackedSeries omit pointCount i [] = ([], replicate pointCount (Some 0))"
| "buildStackedSeries omit pointCount i (row # rows) =
     (let (stacked, acc) = buildStackedSeries omit pointCount (Suc i) rows
      in if omit i then (row # stacked, acc)
         else let acc = add_row row acc in (map number_cell (take (length row) acc) # stacked, acc))"

definition findNextVisibleSeriesIndex :: "nat \<Rightarrow> nat \<Rightarrow> (nat \<Rightarrow> bool) \<Rightarrow> nat option" where
  "findNextVisibleSeriesIndex seriesLength afterIndex omit = js_find (\<lambda>i. \<not> omit i) [Suc afterIndex..<seriesLength]"

definition buildFillBands :: "nat \<Rightarrow> (nat \<Rightarrow> bool) \<Rightarrow> (nat \<times> nat) list" where
  "buildFillBands seriesLength omit =
     concat (map (\<lambda>i. if omit i then []
                  else case findNextVisibleSeriesIndex seriesLength i omit of Some j \<Rightarrow> [(i, j)] | None \<Rightarrow> [])
       [1..<seriesLength])"

definition stackSeries :: "aligned \<Rightarrow> (nat \<Rightarrow> bool) \<Rightarrow> aligned \<times> (nat \<times> nat) list" where
  "stackSeries d omit =
     ((fst d, fst (buildStackedSeries omit (length (fst d)) 1 (snd d))), buildFillBands (length (snd d) + 1) omit)"

definition getInitialStackedBands :: "nat \<Rightarrow> (nat \<times> nat) list" where
  "getInitialStackedBands seriesCount = map (\<lambda>i. (i, i + 1)) [1..<seriesCount]"

subsection \<open>The other stacking\<close>

text \<open>\<open>(x || 0)\<close>: \<open>null\<close>, \<open>undefined\<close> and \<open>NaN\<close> count as 0.\<close>

definition or_zero :: "cell \<Rightarrow> rat" where
  "or_zero c = (case c of Cell v \<Rightarrow> v | _ \<Rightarrow> 0)"

fun getStackedSeries :: "cell list list \<Rightarrow> cell list list" where
  "getStackedSeries [] = []"
| "getStackedSeries [row] = [row]"
| "getStackedSeries (row # below # rows) =
     (let stacked = getStackedSeries (below # rows)
      in map (\<lambda>j. Cell (or_zero (row ! j) + or_zero (cell_at (hd stacked) (int j)))) [0..<length row] # stacked)"

definition getUPlotChartData :: "panel_series list \<Rightarrow> bool \<Rightarrow> bool \<Rightarrow> aligned" where
  "getUPlotChartData seriesList stackedBarChart hidden_given =
     (let timestamps = getXAxisTimestamps seriesList; values = fillMissingXAxisTimestamps timestamps seriesList
      in (timestamps, if stackedBarChart \<and> \<not> hidden_given then getStackedSeries values else values))"

section \<open>Stacking a shown chart\<close>

text \<open>
  The plot has the data and bands it draws and the series it shows, \<open>unstacked\<close> is the data of the last
  render, \<open>None\<close> when the chart is not stacked, and \<open>updating\<close> guards the hook against its own call.
\<close>

record stacked_plot =
  sp_data :: aligned
  sp_bands :: "(nat \<times> nat) list"
  sp_show :: "bool list"
  sp_unstacked :: "aligned option"
  sp_updating :: bool

definition isSeriesHidden :: "stacked_plot \<Rightarrow> nat \<Rightarrow> bool" where
  "isSeriesHidden p i = (\<not> (i < length (sp_show p) \<and> sp_show p ! i))"

definition canApplyStacking :: "aligned \<Rightarrow> stacked_plot \<Rightarrow> bool" where
  "canApplyStacking unstacked p \<longleftrightarrow> \<not> sp_updating p \<and> length (fst unstacked) = length (fst (sp_data p))"

text \<open>
  \<open>plot.setData\<close> runs the hook \<open>onDataChange\<close>, which does nothing while the chart is updating itself.
\<close>

definition applyStackingToChart :: "stacked_plot \<Rightarrow> stacked_plot" where
  "applyStackingToChart p =
     (case sp_unstacked p of
        None \<Rightarrow> p
      | Some unstacked \<Rightarrow>
          if \<not> canApplyStacking unstacked p then p
          else (case stackSeries unstacked (isSeriesHidden p) of
                  (stacked, bands) \<Rightarrow> p\<lparr>sp_bands := bands, sp_data := stacked\<rparr>))"

definition onDataChange :: "stacked_plot \<Rightarrow> stacked_plot" where
  "onDataChange p = (if sp_updating p then p else applyStackingToChart p)"

definition onSeriesVisibilityChange :: "bool \<Rightarrow> stacked_plot \<Rightarrow> stacked_plot" where
  "onSeriesVisibilityChange has_focus p = (if has_focus then p else applyStackingToChart p)"

text \<open>What a render hands to uPlot: the stack of all series.\<close>

definition chart_data :: "bool \<Rightarrow> aligned \<Rightarrow> aligned" where
  "chart_data isStackedBarChart data =
     (if \<not> isStackedBarChart \<or> snd data = [] then data else fst (stackSeries data (\<lambda>_. False)))"

datatype stack_event = Render_Data bool aligned | Toggle_Series nat bool | Focus_Series nat

text \<open>A render sets the data of the plot; uPlot shows or hides a series and then runs the hook.\<close>

definition stack_event :: "stack_event \<Rightarrow> stacked_plot \<Rightarrow> stacked_plot" where
  "stack_event e p =
     (case e of
        Render_Data stacked d \<Rightarrow>
          onDataChange (p\<lparr>sp_unstacked := (if stacked then Some d else None), sp_data := chart_data stacked d\<rparr>)
      | Toggle_Series i b \<Rightarrow> onSeriesVisibilityChange False (p\<lparr>sp_show := (sp_show p)[i := b]\<rparr>)
      | Focus_Series _ \<Rightarrow> onSeriesVisibilityChange True p)"

section \<open>The two passes insert exactly one break per large gap\<close>

text \<open>The data with its breaks, written down point by point.\<close>

definition point_x :: "span_gaps list \<Rightarrow> rat list \<Rightarrow> nat \<Rightarrow> rat list" where
  "point_x opts ts i = ts ! i # (if gap_after opts ts i then [break_at ts i] else [])"

definition point_y :: "span_gaps list \<Rightarrow> rat list \<Rightarrow> cell list \<Rightarrow> nat \<Rightarrow> cell list" where
  "point_y opts ts row i = row ! i # (if gap_after opts ts i then [Cell_Null] else [])"

definition with_breaks :: "aligned \<Rightarrow> span_gaps list \<Rightarrow> aligned" where
  "with_breaks d opts =
     (let (ts, rows) = d
      in (concat (map (point_x opts ts) [0..<length ts]),
          map (\<lambda>row. concat (map (point_y opts ts row) [0..<length ts])) rows))"

definition aligned_data :: "aligned \<Rightarrow> bool" where
  "aligned_data d \<longleftrightarrow> (\<forall>row\<in>set (snd d). length row = length (fst d))"

abbreviation xs_to :: "span_gaps list \<Rightarrow> rat list \<Rightarrow> nat \<Rightarrow> rat list" where
  "xs_to opts ts k \<equiv> concat (map (point_x opts ts) [0..<k])"

abbreviation ys_to :: "span_gaps list \<Rightarrow> rat list \<Rightarrow> cell list \<Rightarrow> nat \<Rightarrow> cell list" where
  "ys_to opts ts row k \<equiv> concat (map (point_y opts ts row) [0..<k])"

lemma length_points [simp]:
  "length (point_x opts ts i) = (if gap_after opts ts i then 2 else 1)"
  "length (point_y opts ts row i) = length (point_x opts ts i)"
  by (simp_all add: point_x_def point_y_def)

lemma length_ys_to: "length (ys_to opts ts row k) = length (xs_to opts ts k)"
  by (induction k) (simp_all del: length_points(1))

lemma insertion_count_filter:
  "insertion_count opts ts = length (filter (gap_after opts ts) [0..<length ts])"
proof -
  have count: "fold (\<lambda>i n. if p i then Suc n else n) is m = m + length (filter p is)" for p :: "nat \<Rightarrow> bool" and "is" m
    by (induction "is" arbitrary: m) auto
  have "filter (\<lambda>i. gapExceedsThreshold (ts ! Suc i - ts ! i) opts) [0..<length ts - 1] =
      filter (gap_after opts ts) [0..<length ts - 1]"
    by (rule filter_cong) (auto simp: gap_after_def)
  moreover have "filter (gap_after opts ts) [0..<length ts] = filter (gap_after opts ts) [0..<length ts - 1]"
    by (cases "length ts") (simp_all add: gap_after_def)
  ultimately show ?thesis by (simp add: insertion_count_def count)
qed

lemma length_xs_to: "length (xs_to opts ts k) = k + length (filter (gap_after opts ts) [0..<k])"
  by (induction k) auto

lemma length_xs_to_mono: "k \<le> n \<Longrightarrow> length (xs_to opts ts k) \<le> length (xs_to opts ts n)"
  by (rule lift_Suc_mono_le [where f = "\<lambda>k. length (xs_to opts ts k)"]) simp_all

text \<open>The arrays when the first entries have been written and \<open>m\<close> are left.\<close>

definition written :: "rat list \<Rightarrow> (cell list \<Rightarrow> cell list) \<Rightarrow> cell list list \<Rightarrow> nat \<Rightarrow> fill_arrays" where
  "written xs f rows m =
     \<lparr>fa_x = map Some xs @ replicate m None, fa_series = map (\<lambda>row. f row @ replicate m Cell_Undefined) rows,
      fa_write = length xs\<rparr>"

lemma write_written:
  assumes "\<And>row. row \<in> set rows \<Longrightarrow> length (f row) = length xs"
  shows "write_point x (map g rows) (written xs f rows (Suc m)) = written (xs @ [x]) (\<lambda>row. f row @ [g row]) rows m"
proof -
  have x: "(map Some xs @ replicate (Suc m) None)[length xs := Some x] = map Some (xs @ [x]) @ replicate m None"
    using list_update_length [of "map Some xs" None "replicate m None" "Some x"] by simp
  have row: "(f row @ replicate (Suc m) Cell_Undefined)[length xs := c] = (f row @ [c]) @ replicate m Cell_Undefined"
    if "row \<in> set rows" for row c
    using list_update_length [of "f row" Cell_Undefined "replicate m Cell_Undefined" c] assms [OF that] by simp
  have "map2 (\<lambda>c row. row[length xs := c]) (map g rows) (map (\<lambda>row. f row @ replicate (Suc m) Cell_Undefined) rows) =
      map (\<lambda>row. (f row @ [g row]) @ replicate m Cell_Undefined) rows"
    using row by (simp add: map2_map_map del: replicate_Suc append_assoc cong: map_cong)
  with x show ?thesis by (simp add: write_point_def written_def Let_def del: replicate_Suc append_assoc)
qed

lemma fill_step_written:
  assumes "aligned_data (ts, rows)" and "k < length ts" and "length (xs_to opts ts (Suc k)) \<le> n"
  shows "fill_step opts ts rows k
      (written (xs_to opts ts k) (\<lambda>row. ys_to opts ts row k) rows (n - length (xs_to opts ts k))) =
    written (xs_to opts ts (Suc k)) (\<lambda>row. ys_to opts ts row (Suc k)) rows (n - length (xs_to opts ts (Suc k)))"
proof -
  let ?xs = "xs_to opts ts k" and ?f = "\<lambda>row. ys_to opts ts row k"
  have cells: "map (\<lambda>row. cell_at row (int k)) rows = map (\<lambda>row. row ! k) rows"
    using assms(1,2) by (auto simp: cell_at_def js_nth_def aligned_data_def)
  define m where "m = n - length (xs_to opts ts (Suc k))"
  have len: "n - length ?xs = (if gap_after opts ts k then Suc (Suc m) else Suc m)"
    using assms(3) by (auto simp: m_def)
  have first: "write_point (ts ! k) (map (\<lambda>row. row ! k) rows) (written ?xs ?f rows (Suc j)) =
      written (?xs @ [ts ! k]) (\<lambda>row. ?f row @ [row ! k]) rows j" for j
    by (rule write_written) (simp add: length_ys_to)
  have second: "write_point (break_at ts k) (map (\<lambda>_. Cell_Null) rows)
      (written (?xs @ [ts ! k]) (\<lambda>row. ?f row @ [row ! k]) rows (Suc m)) =
      written ((?xs @ [ts ! k]) @ [break_at ts k]) (\<lambda>row. (?f row @ [row ! k]) @ [Cell_Null]) rows m"
    by (rule write_written) (simp add: length_ys_to)
  show ?thesis
    unfolding fill_step_def Let_def cells len m_def [symmetric]
    using first second by (simp add: point_x_def point_y_def)
qed

lemma fill_written:
  assumes "aligned_data (ts, rows)" and "k \<le> length ts" and "length (xs_to opts ts (length ts)) = n"
  shows "fold (fill_step opts ts rows) [0..<k]
      \<lparr>fa_x = replicate n None, fa_series = map (\<lambda>_. replicate n Cell_Undefined) rows, fa_write = 0\<rparr> =
    written (xs_to opts ts k) (\<lambda>row. ys_to opts ts row k) rows (n - length (xs_to opts ts k))"
  using assms(2)
proof (induction k)
  case 0
  then show ?case by (simp add: written_def)
next
  case (Suc k)
  have "length (xs_to opts ts (Suc k)) \<le> n" using length_xs_to_mono [OF Suc.prems, of opts ts] assms(3) by simp
  with fill_step_written [OF assms(1)] Suc show ?case by simp
qed

lemma points_without_gaps:
  assumes "insertion_count opts ts = 0" and "aligned_data (ts, rows)"
  shows "with_breaks (ts, rows) opts = (ts, rows)"
proof -
  have no: "\<not> gap_after opts ts i" if "i < length ts" for i
    using assms(1) that by (simp add: insertion_count_filter filter_empty_conv)
  have "concat (map (point_x opts ts) [0..<length ts]) = concat (map (\<lambda>i. [ts ! i]) [0..<length ts])"
    using no by (intro arg_cong [where f = concat] map_cong) (simp_all add: point_x_def)
  moreover have "concat (map (point_y opts ts row) [0..<length ts]) = concat (map (\<lambda>i. [row ! i]) [0..<length ts])" for row
    using no by (intro arg_cong [where f = concat] map_cong) (simp_all add: point_y_def)
  moreover have "map ((!) row) [0..<length ts] = row" if "row \<in> set rows" for row
    using assms(2) that map_nth [of row] by (simp add: aligned_data_def)
  ultimately show ?thesis
    by (simp add: with_breaks_def map_nth cong: map_cong)
qed

text \<open>
  C19. The two passes over preallocated arrays compute the data with one break after every gap that exceeds a
  threshold, for every series, and nothing else.
\<close>

theorem breaks_inserted:
  assumes "aligned_data d" and "2 \<le> length (fst d)" and "snd d \<noteq> []"
  shows "insertLargeGapNullsIntoAlignedData d opts = with_breaks d opts"
proof -
  obtain ts rows where d: "d = (ts, rows)" by (cases d)
  show ?thesis
  proof (cases "insertion_count opts ts = 0")
    case True
    then show ?thesis
      using points_without_gaps [OF True] assms(1)
      by (auto simp: insertLargeGapNullsIntoAlignedData_def d)
  next
    case False
    have n: "length (xs_to opts ts (length ts)) = length ts + insertion_count opts ts"
      by (simp add: length_xs_to insertion_count_filter)
    show ?thesis
      using assms False fill_written [OF _ order_refl n, of rows]
      by (simp add: insertLargeGapNullsIntoAlignedData_def d with_breaks_def written_def n comp_def)
  qed
qed

text \<open>A break lies strictly between the two points of its gap, as long as the gap is more than one unit.\<close>

lemma break_between:
  assumes "1 < ts ! Suc i - ts ! i"
  shows "ts ! i < break_at ts i" "break_at ts i < ts ! Suc i"
proof -
  have "of_int \<lfloor>(ts ! Suc i - ts ! i) / 2\<rfloor> \<le> (ts ! Suc i - ts ! i) / 2" by (rule of_int_floor_le)
  with assms show "break_at ts i < ts ! Suc i" by (auto simp: break_at_def)
  show "ts ! i < break_at ts i" by (simp add: break_at_def)
qed

text \<open>A gap of one unit above its threshold puts the break on the next point.\<close>

lemma break_doubles_point:
  "insertLargeGapNullsIntoAlignedData ([0, 1], [[Cell 5, Cell 7]]) [Span_Num (1 / 2)] =
     ([0, 1, 1], [[Cell 5, Cell_Null, Cell 7]])"
  by (simp add: insertLargeGapNullsIntoAlignedData_def insertion_count_def gapExceedsThreshold_def fill_step_def
      gap_after_def write_point_def break_at_def cell_at_def js_nth_def numeral_eq_Suc Let_def)

section \<open>Bands join neighbours\<close>

text \<open>Each band joins a shown series with the next shown one.\<close>

lemma js_find_filter: "js_find p xs = (case filter p xs of [] \<Rightarrow> None | x # _ \<Rightarrow> Some x)"
  by (induction xs) auto

lemma fill_bands_from:
  assumes "i \<le> n"
  shows "concat (map (\<lambda>i. if omit i then []
           else case findNextVisibleSeriesIndex n i omit of Some j \<Rightarrow> [(i, j)] | None \<Rightarrow> []) [i..<n]) =
    zip (filter (\<lambda>i. \<not> omit i) [i..<n]) (tl (filter (\<lambda>i. \<not> omit i) [i..<n]))"
  using assms
proof (induction i rule: inc_induct)
  case base
  then show ?case by simp
next
  case (step i)
  then show ?case
    by (simp add: upt_conv_Cons findNextVisibleSeriesIndex_def js_find_filter split: list.split)
qed

lemma bands_join_neighbours:
  "buildFillBands n omit = (let shown = filter (\<lambda>i. \<not> omit i) [1..<n] in zip shown (tl shown))"
proof (cases "1 \<le> n")
  case True
  then show ?thesis by (simp only: buildFillBands_def fill_bands_from [OF True] Let_def)
next
  case False
  then show ?thesis by (simp add: buildFillBands_def)
qed

lemma initial_bands_agree: "getInitialStackedBands n = buildFillBands (Suc n) (\<lambda>_. False)"
proof -
  have "zip [1..<Suc n] [2..<Suc n] = map (\<lambda>i. (i, i + 1)) [1..<n]"
    by (rule nth_equalityI) (auto simp del: upt_Suc)
  moreover have "tl [1..<Suc n] = [2..<Suc n]"
    by (cases n) (simp_all add: upt_conv_Cons numeral_2_eq_2 del: upt_Suc)
  ultimately show ?thesis by (simp add: getInitialStackedBands_def bands_join_neighbours Let_def del: upt_Suc)
qed

text \<open>
  The configuration of a bar panel gives its bands one series too many, so the last band ends at a series that
  does not exist.
\<close>

definition bar_panel_bands :: "nat \<Rightarrow> (nat \<times> nat) list" where
  "bar_panel_bands resultCount = getInitialStackedBands (resultCount + 1)"

lemma bar_panel_extra_band:
  assumes "1 \<le> n"
  shows "bar_panel_bands n = getInitialStackedBands n @ [(n, n + 1)]"
    "snd (stackSeries (ts, replicate n row) (\<lambda>_. False)) = getInitialStackedBands n"
proof -
  show "bar_panel_bands n = getInitialStackedBands n @ [(n, n + 1)]"
    using assms by (simp add: bar_panel_bands_def getInitialStackedBands_def)
  show "snd (stackSeries (ts, replicate n row) (\<lambda>_. False)) = getInitialStackedBands n"
    by (simp add: stackSeries_def initial_bands_agree)
qed

section \<open>The height of a band is the value of its series\<close>

text \<open>Rows as long as the axis, of numbers and gaps.\<close>

definition plot_rows :: "nat \<Rightarrow> cell list list \<Rightarrow> bool" where
  "plot_rows n rows \<longleftrightarrow> (\<forall>row\<in>set rows. length row = n \<and> Cell_NaN \<notin> set row)"

definition value_at :: "cell list \<Rightarrow> nat \<Rightarrow> rat" where
  "value_at row j = the (stack_number (row ! j))"

text \<open>The total of the shown series among those from \<open>i\<close> on, at point \<open>j\<close>.\<close>

fun shown_total :: "(nat \<Rightarrow> bool) \<Rightarrow> nat \<Rightarrow> cell list list \<Rightarrow> nat \<Rightarrow> rat" where
  "shown_total omit i [] j = 0"
| "shown_total omit i (row # rows) j = (if omit i then 0 else value_at row j) + shown_total omit (Suc i) rows j"

lemma stack_number_value: "j < length row \<Longrightarrow> Cell_NaN \<notin> set row \<Longrightarrow> stack_number (row ! j) = Some (value_at row j)"
  by (auto simp: value_at_def stack_number_def split: cell.split dest: nth_mem)

lemma add_row_values:
  assumes "length row = n" and "Cell_NaN \<notin> set row"
  shows "add_row row (map (\<lambda>j. Some (g j)) [0..<n]) = map (\<lambda>j. Some (g j + value_at row j)) [0..<n]"
  using assms by (simp add: add_row_def sum_at_def add_numbers_def stack_number_value)

lemma stacked_totals:
  assumes "plot_rows n rows"
  shows "buildStackedSeries omit n i rows =
    (map (\<lambda>k. if omit (i + k) then rows ! k
          else map (\<lambda>j. Cell (shown_total omit (i + k) (drop k rows) j)) [0..<n]) [0..<length rows],
     map (\<lambda>j. Some (shown_total omit i rows j)) [0..<n])"
  using assms
proof (induction rows arbitrary: i)
  case Nil
  then show ?case by (simp add: map_replicate_const)
next
  case (Cons row rows)
  then have row: "length row = n" "Cell_NaN \<notin> set row" and rows: "plot_rows n rows" by (auto simp: plot_rows_def)
  show ?case
    using Cons.IH [OF rows, of "Suc i"] row
    by (simp add: add_row_values number_cell_def Let_def add.commute upt_conv_Cons map_Suc_upt [symmetric] comp_def
        del: upt_Suc cong: map_cong)
qed

lemma shown_total_drop:
  assumes "k < length rows" and "\<not> omit (i + k)"
  shows "shown_total omit (i + k) (drop k rows) j =
    value_at (rows ! k) j + shown_total omit (Suc (i + k)) (drop (Suc k) rows) j"
  using assms by (simp flip: Cons_nth_drop_Suc)

lemma hidden_total:
  assumes "\<And>m. a \<le> m \<Longrightarrow> m < b \<Longrightarrow> omit (i + m)" and "a \<le> b" and "b \<le> length rows"
  shows "shown_total omit (i + a) (drop a rows) j = shown_total omit (i + b) (drop b rows) j"
  using assms(2,1,3)
proof (induction a rule: inc_induct)
  case base
  then show ?case by simp
next
  case (step a)
  then show ?case by (simp flip: Cons_nth_drop_Suc)
qed

lemma js_find_upt:
  assumes "js_find p [i..<n] = Some b"
  shows "i \<le> b" "b < n" "p b" "\<And>m. i \<le> m \<Longrightarrow> m < b \<Longrightarrow> \<not> p m"
proof -
  have "i \<le> n" using assms by (cases "i \<le> n") auto
  then have "i \<le> b \<and> b < n \<and> p b \<and> (\<forall>m. i \<le> m \<longrightarrow> m < b \<longrightarrow> \<not> p m)" using assms
  proof (induction i rule: inc_induct)
    case base
    then show ?case by simp
  next
    case (step i)
    show ?case
    proof (cases "p i")
      case True
      with step show ?thesis by (auto simp: upt_conv_Cons)
    next
      case False
      with step have rest: "Suc i \<le> b \<and> b < n \<and> p b \<and> (\<forall>m. Suc i \<le> m \<longrightarrow> m < b \<longrightarrow> \<not> p m)"
        by (simp add: upt_conv_Cons)
      have "\<not> p m" if "i \<le> m" "m < b" for m
        using that False rest by (cases "m = i") auto
      with rest show ?thesis by simp
    qed
  qed
  then show "i \<le> b" "b < n" "p b" "\<And>m. i \<le> m \<Longrightarrow> m < b \<Longrightarrow> \<not> p m" by auto
qed

lemma band_neighbours:
  assumes "(a, b) \<in> set (buildFillBands n omit)"
  shows "1 \<le> a" "a < b" "b < n" "\<not> omit a" "\<not> omit b" "\<And>m. a < m \<Longrightarrow> m < b \<Longrightarrow> omit m"
proof -
  from assms have a: "1 \<le> a" "\<not> omit a" and nxt: "js_find (\<lambda>i. \<not> omit i) [Suc a..<n] = Some b"
    by (auto simp: buildFillBands_def findNextVisibleSeriesIndex_def split: if_splits option.splits)
  show "1 \<le> a" "a < b" "b < n" "\<not> omit a" "\<not> omit b" "\<And>m. a < m \<Longrightarrow> m < b \<Longrightarrow> omit m"
    using a js_find_upt [OF nxt] by auto
qed

text \<open>
  C20. The area uPlot fills for a series lies between its own line and the line of its band, so its height at every
  point is the value of the series there, whatever series are hidden.
\<close>

theorem band_height:
  assumes "plot_rows (length ts) rows" and "(a, b) \<in> set (snd (stackSeries (ts, rows) omit))" and "j < length ts"
  shows "\<exists>upper lower. snd (fst (stackSeries (ts, rows) omit)) ! (a - 1) ! j = Cell upper \<and>
    snd (fst (stackSeries (ts, rows) omit)) ! (b - 1) ! j = Cell lower \<and>
    upper - lower = value_at (rows ! (a - 1)) j"
proof -
  have band: "(a, b) \<in> set (buildFillBands (length rows + 1) omit)" using assms(2) by (simp add: stackSeries_def)
  note band = band_neighbours [OF band]
  define c d where "c = a - 1" and "d = b - 1"
  with band have ab: "a = 1 + c" "b = 1 + d" "c < d" "d < length rows" by auto
  let ?total = "\<lambda>k. shown_total omit (1 + k) (drop k rows) j"
  have "?total c = value_at (rows ! c) j + ?total (Suc c)"
    using shown_total_drop [of c rows omit 1 j] ab band(4) by simp
  also have "?total (Suc c) = ?total d"
    by (rule hidden_total) (use ab band(6) in auto)
  finally have "?total c - ?total d = value_at (rows ! c) j" by simp
  with ab band(4,5) assms(3) show ?thesis by (simp add: stackSeries_def stacked_totals [OF assms(1)])
qed

text \<open>The first shown row is the total of the shown series.\<close>

lemma top_row_total:
  assumes "plot_rows (length ts) rows" and "k < length rows" and "\<not> omit (1 + k)" and "\<And>m. m < k \<Longrightarrow> omit (1 + m)"
    and "j < length ts"
  shows "snd (fst (stackSeries (ts, rows) omit)) ! k ! j = Cell (shown_total omit 1 rows j)"
  using hidden_total [of 0 k omit 1 rows j] assms by (simp add: stackSeries_def stacked_totals)

section \<open>The two ways to stack\<close>

lemma or_zero_value: "j < length row \<Longrightarrow> Cell_NaN \<notin> set row \<Longrightarrow> or_zero (row ! j) = value_at row j"
  by (auto simp: value_at_def stack_number_def or_zero_def split: cell.split dest: nth_mem)

text \<open>What the rows from one on add up to at a point.\<close>

definition column_total :: "cell list list \<Rightarrow> nat \<Rightarrow> rat" where
  "column_total rows j = sum_list (map (\<lambda>row. value_at row j) rows)"

lemma shown_total_all: "shown_total (\<lambda>_. False) i rows j = column_total rows j"
  by (induction rows arbitrary: i) (simp_all add: column_total_def)

lemma legacy_totals:
  assumes "plot_rows n rows" and "rows \<noteq> []"
  shows "getStackedSeries rows =
    map (\<lambda>k. map (\<lambda>j. Cell (column_total (drop k rows) j)) [0..<n]) [0..<length rows - 1] @ [last rows]"
  using assms
proof (induction rows rule: getStackedSeries.induct)
  case 1
  then show ?case by simp
next
  case (2 row)
  then show ?case by simp
next
  case (3 row below rows)
  let ?stacked = "getStackedSeries (below # rows)"
  have row: "length row = n" "Cell_NaN \<notin> set row" and rest: "plot_rows n (below # rows)"
    using "3.prems" by (auto simp: plot_rows_def)
  have stacked: "?stacked = map (\<lambda>k. map (\<lambda>j. Cell (column_total (drop k (below # rows)) j)) [0..<n])
      [0..<length rows] @ [last (below # rows)]"
    using "3.IH" [OF rest] by simp
  have top: "or_zero (cell_at (hd ?stacked) (int j)) = column_total (below # rows) j" if "j < n" for j
  proof (cases rows)
    case Nil
    with rest that show ?thesis
      by (simp add: cell_at_def js_nth_def or_zero_value plot_rows_def column_total_def)
  next
    case (Cons r rs)
    with that show ?thesis
      unfolding stacked by (simp add: hd_append hd_map cell_at_def js_nth_def or_zero_def del: upt_Suc)
  qed
  have "map (\<lambda>j. Cell (or_zero (row ! j) + or_zero (cell_at (hd ?stacked) (int j)))) [0..<length row] =
      map (\<lambda>j. Cell (column_total (row # below # rows) j)) [0..<n]"
    using row by (simp add: top or_zero_value column_total_def)
  with stacked show ?case
    by (simp add: Let_def upt_conv_Cons map_Suc_upt [symmetric] comp_def del: upt_Suc)
qed

text \<open>
  The stacking of the dashboards' charts and that of the legacy charts draw the same rows, except that the last
  series of the legacy one keeps its gaps.
\<close>

theorem stacks_agree:
  assumes "plot_rows (length ts) rows" and "rows \<noteq> []"
  shows "getStackedSeries rows =
    butlast (snd (fst (stackSeries (ts, rows) (\<lambda>_. False)))) @ [last rows] \<and>
    last (snd (fst (stackSeries (ts, rows) (\<lambda>_. False)))) = map (Cell \<circ> or_zero) (last rows)"
proof -
  obtain m where m: "length rows = Suc m" using assms(2) by (cases rows) auto
  have "length (last rows) = length ts" "Cell_NaN \<notin> set (last rows)"
    using assms by (auto simp: plot_rows_def)
  then have "map (\<lambda>j. Cell (column_total (drop m rows) j)) [0..<length ts] = map (Cell \<circ> or_zero) (last rows)"
    using m Cons_nth_drop_Suc [of m rows, symmetric]
    by (intro nth_equalityI) (simp_all add: or_zero_value column_total_def last_conv_nth assms(2))
  with m show ?thesis
    by (simp add: legacy_totals [OF assms] stackSeries_def stacked_totals [OF assms(1)] shown_total_all butlast_append)
qed

section \<open>The shown chart follows its data and its legend\<close>

definition plot_stacked :: "stacked_plot \<Rightarrow> bool" where
  "plot_stacked p \<longleftrightarrow> \<not> sp_updating p \<and>
     (case sp_unstacked p of None \<Rightarrow> True | Some d \<Rightarrow> stackSeries d (isSeriesHidden p) = (sp_data p, sp_bands p))"

lemma isSeriesHidden_simps [simp]:
  "isSeriesHidden (p\<lparr>sp_data := d\<rparr>) = isSeriesHidden p"
  "isSeriesHidden (p\<lparr>sp_bands := b\<rparr>) = isSeriesHidden p"
  by (simp_all add: isSeriesHidden_def fun_eq_iff)

lemma applyStacking_stacked:
  assumes "\<not> sp_updating p" and "\<And>d. sp_unstacked p = Some d \<Longrightarrow> length (fst d) = length (fst (sp_data p))"
  shows "plot_stacked (applyStackingToChart p)"
  using assms
  by (auto simp: plot_stacked_def applyStackingToChart_def canApplyStacking_def
      split: option.split prod.split)

lemma stackSeries_axis: "fst (fst (stackSeries d omit)) = fst d"
  by (simp add: stackSeries_def)

lemma plot_stacked_axis:
  "plot_stacked p \<Longrightarrow> sp_unstacked p = Some d \<Longrightarrow> length (fst d) = length (fst (sp_data p))"
  using stackSeries_axis [of d "isSeriesHidden p"] by (simp add: plot_stacked_def)

lemma stack_event_stacked:
  assumes "plot_stacked p"
  shows "plot_stacked (stack_event e p)"
proof (cases e)
  case (Render_Data stacked d)
  have "\<not> sp_updating p" using assms by (simp add: plot_stacked_def)
  then have "plot_stacked (applyStackingToChart
      (p\<lparr>sp_unstacked := (if stacked then Some d else None), sp_data := chart_data stacked d\<rparr>))"
    by (intro applyStacking_stacked) (simp_all add: chart_data_def stackSeries_axis split: if_splits)
  with \<open>\<not> sp_updating p\<close> show ?thesis by (simp add: Render_Data stack_event_def onDataChange_def)
next
  case (Toggle_Series i b)
  have "\<not> sp_updating p" using assms by (simp add: plot_stacked_def)
  with plot_stacked_axis [OF assms] show ?thesis
    by (auto simp: Toggle_Series stack_event_def onSeriesVisibilityChange_def intro!: applyStacking_stacked)
next
  case (Focus_Series i)
  with assms show ?thesis by (simp add: stack_event_def onSeriesVisibilityChange_def)
qed

lemma stack_events_stacked: "plot_stacked p \<Longrightarrow> plot_stacked (fold stack_event es p)"
  by (induction es arbitrary: p) (simp_all add: stack_event_stacked)

text \<open>
  C21. After any sequence of renders, legend toggles and focus changes, a stacked chart draws the stack of the data of
  its last render over the series it shows, with the bands between them.
\<close>

theorem stack_follows_events:
  assumes "sp_unstacked p = None" and "\<not> sp_updating p" and "sp_unstacked (fold stack_event es p) = Some d"
  shows "(sp_data (fold stack_event es p), sp_bands (fold stack_event es p)) =
    stackSeries d (isSeriesHidden (fold stack_event es p))"
  using stack_events_stacked [of p es] assms by (simp add: plot_stacked_def)

theorem breaks_inserted_witness:
  "insertLargeGapNullsIntoAlignedData ([0, 10, 100], [[Cell 1, Cell 2, Cell 3]]) [Span_Num 20] =
     ([0, 10, 55, 100], [[Cell 1, Cell 2, Cell_Null, Cell 3]])"
proof -
  have "with_breaks ([0, 10, 100], [[Cell 1, Cell 2, Cell 3]]) [Span_Num 20] =
      ([0, 10, 55, 100], [[Cell 1, Cell 2, Cell_Null, Cell 3]])"
    by code_simp
  then show ?thesis
    using breaks_inserted [of "([0, 10, 100], [[Cell 1, Cell 2, Cell 3]])" "[Span_Num 20]"]
    by (simp add: aligned_data_def)
qed

theorem band_height_witness:
  "\<exists>upper lower.
     snd (fst (stackSeries ([0], [[Cell 1], [Cell 2], [Cell 4]]) (\<lambda>i. i = 2))) ! (1 - 1) ! 0 = Cell upper \<and>
     snd (fst (stackSeries ([0], [[Cell 1], [Cell 2], [Cell 4]]) (\<lambda>i. i = 2))) ! (3 - 1) ! 0 = Cell lower \<and>
     upper - lower = value_at ([[Cell 1], [Cell 2], [Cell 4]] ! (1 - 1)) 0"
proof (rule band_height)
  show "plot_rows (length [0 :: rat]) [[Cell 1], [Cell 2], [Cell 4]]" by (simp add: plot_rows_def)
  show "(1, 3) \<in> set (snd (stackSeries ([0], [[Cell 1], [Cell 2], [Cell 4]]) (\<lambda>i. i = 2)))" by code_simp
qed simp

theorem stacks_agree_witness:
  "getStackedSeries [[Cell 1, Cell_Null], [Cell 2, Cell_Null]] = [[Cell 3, Cell 0], [Cell 2, Cell_Null]]"
proof -
  have "snd (fst (stackSeries ([0, 1], [[Cell 1, Cell_Null], [Cell 2, Cell_Null]]) (\<lambda>_. False))) =
      [[Cell 3, Cell 0], [Cell 2, Cell 0]]"
    by code_simp
  then show ?thesis
    using stacks_agree [of "[0, 1]" "[[Cell 1, Cell_Null], [Cell 2, Cell_Null]]"] by (simp add: plot_rows_def)
qed

definition example_plot :: stacked_plot where
  "example_plot = \<lparr>sp_data = ([], []), sp_bands = [], sp_show = [True, True, True], sp_unstacked = None,
     sp_updating = False\<rparr>"

definition example_events :: "stack_event list" where
  "example_events = [Render_Data True ([0], [[Cell 1], [Cell 2]]), Toggle_Series 2 False]"

theorem stack_follows_events_witness:
  "(sp_data (fold stack_event example_events example_plot), sp_bands (fold stack_event example_events example_plot)) =
     stackSeries ([0], [[Cell 1], [Cell 2]]) (isSeriesHidden (fold stack_event example_events example_plot))"
proof (rule stack_follows_events)
  show "sp_unstacked example_plot = None" "\<not> sp_updating example_plot" by (simp_all add: example_plot_def)
  show "sp_unstacked (fold stack_event example_events example_plot) = Some ([0], [[Cell 1], [Cell 2]])" by code_simp
qed

end
