(* ===== verification/Legend.thy ===== *)
theory Legend
  imports Query_Response Provider_Data
begin

text \<open>
  The names of the series of a chart: the legend template or the labels of a series
  (\<^verbatim>\<open>lib/getLabelName.ts\<close>), and the alias or expression of its aggregation
  (\<open>getLegend\<close> of \<^verbatim>\<open>lib/query/getQueryResults.ts\<close>).
\<close>

section \<open>Replacing in a text\<close>

fun js_split_text :: "string \<Rightarrow> nat \<Rightarrow> string \<Rightarrow> string list" where
  "js_split_text sep skip [] = [[]]"
| "js_split_text sep skip (c # cs) =
     (case skip of
        Suc k \<Rightarrow> js_split_text sep k cs
      | 0 \<Rightarrow> if take (length sep) (c # cs) = sep then [] # js_split_text sep (length sep - 1) cs
            else (case js_split_text sep 0 cs of [] \<Rightarrow> [[c]] | w # ws \<Rightarrow> (c # w) # ws))"

text \<open>The patterns with a dollar that stand for the match and what is around it.\<close>

fun expand_replacement :: "string \<Rightarrow> string \<Rightarrow> string \<Rightarrow> string \<Rightarrow> string" where
  "expand_replacement matched before after [] = []"
| "expand_replacement matched before after [c] = [c]"
| "expand_replacement matched before after (c # d # cs) =
     (if c = CHR ''$'' \<and> d = CHR ''$'' then CHR ''$'' # expand_replacement matched before after cs
      else if c = CHR ''$'' \<and> d = CHR ''&'' then matched @ expand_replacement matched before after cs
      else if c = CHR ''$'' \<and> d = CHR 0x60 then before @ expand_replacement matched before after cs
      else if c = CHR ''$'' \<and> d = CHR 0x27 then after @ expand_replacement matched before after cs
      else c # expand_replacement matched before after (d # cs))"

fun replace_from :: "string \<Rightarrow> string \<Rightarrow> string \<Rightarrow> string \<Rightarrow> string" where
  "replace_from pattern replacement before s =
     (if take (length pattern) s = pattern
      then expand_replacement pattern before (drop (length pattern) s) replacement @ drop (length pattern) s
      else (case s of [] \<Rightarrow> [] | c # cs \<Rightarrow> c # replace_from pattern replacement (before @ [c]) cs))"

declare replace_from.simps [simp del]

definition js_replace_text :: "string \<Rightarrow> string \<Rightarrow> string \<Rightarrow> string" where
  "js_replace_text pattern replacement s = replace_from pattern replacement [] s"

section \<open>The name from the labels\<close>

type_synonym labels = "(string \<times> string option) list"

definition label_text :: "string option \<Rightarrow> string" where
  "label_text v = (case v of Some t \<Rightarrow> t | None \<Rightarrow> ''undefined'')"

definition label_value :: "labels \<Rightarrow> string \<Rightarrow> string option" where
  "label_value metric k = (case map_of metric k of Some v \<Rightarrow> v | None \<Rightarrow> None)"

definition braced :: "string \<Rightarrow> string" where
  "braced v = ''{{'' @ v @ ''}}''"

definition template_variables :: "string \<Rightarrow> string list" where
  "template_variables legends =
     map (\<lambda>e. hd (js_split_text ''}}'' 0 e)) (filter (\<lambda>e. e \<noteq> []) (js_split_text ''{{'' 0 legends))"

definition fill_template :: "labels \<Rightarrow> string \<Rightarrow> string" where
  "fill_template metric legends =
     fold (\<lambda>v endResult. js_replace_text (braced v) (label_text (label_value metric v)) endResult)
       (template_variables legends) legends"

definition label_pair :: "labels \<Rightarrow> string \<Rightarrow> string" where
  "label_pair metric e = e @ ''=\"'' @ label_text (label_value metric e) @ ''\"''"

text \<open>Without a name the key read is that of index \<open>-1\<close>, \<open>undefined\<close>.\<close>

definition getLabelName :: "labels option \<Rightarrow> string \<Rightarrow> string \<Rightarrow> string" where
  "getLabelName metric query legends =
     (case metric of
        None \<Rightarrow> []
      | Some metric \<Rightarrow>
          if legends \<noteq> [] then fill_template metric legends
          else
            let keysArray = map fst (object_entries metric);
                before = takeWhile (\<lambda>k. k \<noteq> ''__name__'') keysArray;
                named = ''__name__'' \<in> set keysArray;
                preArray = (if named then before else []);
                postArray = (if named then drop (Suc (length before)) keysArray else keysArray);
                post = js_join '','' (map (label_pair metric) postArray);
                pre = js_join '','' (map (label_pair metric) preArray);
                result = (case label_value metric (if named then ''__name__'' else ''undefined'') of None \<Rightarrow> [] | Some v \<Rightarrow> v)
            in if post = [] \<and> pre = [] then (if result \<noteq> [] then result else query)
               else result @ ''{'' @ pre @ post @ ''}'')"

section \<open>The name from the aggregation\<close>

record legend_series =
  lg_metric :: "labels option"
  lg_queryName :: string
  lg_legend :: "string option"
  lg_metaData :: "series_meta option"

definition aggregation_alias :: "v5_aggregation \<Rightarrow> string" where
  "aggregation_alias a = (case a of Expression_Aggregation _ al \<Rightarrow> str_or al [] | Metric_Aggregation _ \<Rightarrow> [])"

definition aggregation_text :: "v5_aggregation \<Rightarrow> string" where
  "aggregation_text a = (case a of Expression_Aggregation e _ \<Rightarrow> e | Metric_Aggregation _ \<Rightarrow> [])"

definition has_group_by :: "provider_query list \<Rightarrow> string \<Rightarrow> bool" where
  "has_group_by allQueries name =
     (case js_find (\<lambda>q. bq_queryName q = name) allQueries of Some q \<Rightarrow> bq_groupBy q \<noteq> [] | None \<Rightarrow> False)"

definition text_or :: "string \<Rightarrow> string \<Rightarrow> string" where
  "text_or a b = (if a \<noteq> [] then a else b)"

definition getLegendForSingleAggregation ::
    "legend_series \<Rightarrow> provider_query list \<Rightarrow> string \<Rightarrow> string \<Rightarrow> string \<Rightarrow> bool \<Rightarrow> string" where
  "getLegendForSingleAggregation queryData allQueries aggregationAlias aggregationExpression labelName singleAggregation =
     (let legend = (case js_find (\<lambda>q. bq_queryName q = lg_queryName queryData) allQueries of
                      Some q \<Rightarrow> bq_legend q | None \<Rightarrow> [])
      in if has_group_by allQueries (lg_queryName queryData)
         then (if singleAggregation then labelName else text_or aggregationAlias aggregationExpression @ ''-'' @ labelName)
         else if singleAggregation then text_or aggregationAlias (text_or legend aggregationExpression)
         else text_or aggregationAlias aggregationExpression)"

definition getLegendForMultipleAggregations ::
    "legend_series \<Rightarrow> provider_query list \<Rightarrow> string \<Rightarrow> string \<Rightarrow> string \<Rightarrow> bool \<Rightarrow> string" where
  "getLegendForMultipleAggregations queryData allQueries aggregationAlias aggregationExpression labelName singleAggregation =
     (if has_group_by allQueries (lg_queryName queryData)
      then (if singleAggregation then labelName else text_or aggregationAlias aggregationExpression @ ''-'' @ labelName)
      else if singleAggregation then text_or aggregationAlias (text_or labelName aggregationExpression)
      else text_or aggregationAlias aggregationExpression @ ''-'' @ labelName)"

text \<open>
  The aggregations of the last row with the name of the series, found under the name in the meta data; a
  series without meta data is looked up as \<open>undefined\<close>, and no index is found.
\<close>

definition named_aggregations :: "legend_series \<Rightarrow> provider_query list \<Rightarrow> v5_aggregation list option" where
  "named_aggregations queryData allQueries =
     (if (case lg_metaData queryData of Some d \<Rightarrow> sm_queryName d | None \<Rightarrow> ''undefined'') \<noteq> lg_queryName queryData then None
      else map_option (\<lambda>q. createAggregation (builder_query.truncate q) None)
             (js_find (\<lambda>q. bq_queryName q = lg_queryName queryData) (rev allQueries)))"

definition getLegend :: "legend_series \<Rightarrow> typed_query \<Rightarrow> string \<Rightarrow> string" where
  "getLegend queryData payloadQuery labelName =
     (if tq_queryType payloadQuery \<noteq> ''builder'' then labelName
      else
        let allQueries = qs_queryData payloadQuery;
            aggregations = named_aggregations queryData allQueries;
            aggregation = (case (aggregations, lg_metaData queryData) of
                (Some as, Some d) \<Rightarrow> if sm_index d < length as then Some (as ! sm_index d) else None
              | _ \<Rightarrow> None);
            aggregationAlias = (case aggregation of Some a \<Rightarrow> aggregation_alias a | None \<Rightarrow> []);
            aggregationExpression = (case aggregation of Some a \<Rightarrow> aggregation_text a | None \<Rightarrow> []);
            singleAggregation = (case aggregations of Some as \<Rightarrow> length as = 1 | None \<Rightarrow> False)
        in if aggregationAlias \<noteq> [] \<or> aggregationExpression \<noteq> []
           then (if length allQueries = 1
                 then getLegendForSingleAggregation queryData allQueries aggregationAlias aggregationExpression labelName singleAggregation
                 else getLegendForMultipleAggregations queryData allQueries aggregationAlias aggregationExpression labelName singleAggregation)
           else text_or labelName
                  (text_or (case lg_metaData queryData of Some d \<Rightarrow> sm_queryName d | None \<Rightarrow> []) (lg_queryName queryData)))"

text \<open>The label of a series in a chart, a query always being there.\<close>

definition series_name :: "legend_series \<Rightarrow> typed_query \<Rightarrow> string" where
  "series_name s currentQuery =
     getLegend s currentQuery (getLabelName (lg_metric s) (lg_queryName s) (str_or (lg_legend s) []))"

section \<open>A template is filled in place by place\<close>

text \<open>A template is a list of literals and variables with a last literal, none of which has braces.\<close>

definition plain :: "string \<Rightarrow> bool" where
  "plain s \<longleftrightarrow> CHR 0x7B \<notin> set s \<and> CHR 0x7D \<notin> set s"

definition template_text :: "(string \<times> string) list \<Rightarrow> string \<Rightarrow> string" where
  "template_text ps t = concat (map (\<lambda>(l, v). l @ braced v) ps) @ t"

definition template_shown :: "labels \<Rightarrow> (string \<times> string) list \<Rightarrow> string \<Rightarrow> string" where
  "template_shown metric ps t = concat (map (\<lambda>(l, v). l @ label_text (label_value metric v)) ps) @ t"

definition plain_template :: "(string \<times> string) list \<Rightarrow> string \<Rightarrow> bool" where
  "plain_template ps t \<longleftrightarrow> (\<forall>(l, v)\<in>set ps. plain l \<and> plain v) \<and> plain t"

lemma expand_plain: "CHR ''$'' \<notin> set r \<Longrightarrow> expand_replacement m b a r = r"
  by (induction m b a r rule: expand_replacement.induct) auto

lemma replace_skip:
  assumes "CHR 0x7B \<notin> set p"
  shows "replace_from (CHR 0x7B # q) r b (p @ s) = p @ replace_from (CHR 0x7B # q) r (b @ p) s"
  using assms
proof (induction p arbitrary: b)
  case Nil
  then show ?case by simp
next
  case (Cons c p)
  then show ?case by (subst replace_from.simps) auto
qed

lemma takeWhile_brace: "CHR 0x7D \<notin> set w \<Longrightarrow> takeWhile (\<lambda>c. c \<noteq> CHR 0x7D) (w @ CHR 0x7D # xs) = w"
  by (induction w) auto

lemma braced_prefix:
  assumes "plain v" "plain w" and "take (length (braced v)) (braced w @ s) = braced v"
  shows "v = w"
proof -
  have "braced w @ s = braced v @ drop (length (braced v)) (braced w @ s)"
    by (metis append_take_drop_id assms(3))
  then have "w @ ''}}'' @ s = v @ ''}}'' @ drop (length (braced v)) (braced w @ s)" by (simp add: braced_def)
  then have "w @ CHR 0x7D # CHR 0x7D # s = v @ CHR 0x7D # CHR 0x7D # drop (length (braced v)) (braced w @ s)"
    by simp
  then show ?thesis
    using takeWhile_brace [of w] takeWhile_brace [of v] assms(1,2) unfolding plain_def by metis
qed

lemma replace_other:
  assumes "plain v" "plain w" "v \<noteq> w"
  shows "replace_from (braced v) r b (braced w @ s) = braced w @ replace_from (braced v) r (b @ braced w) s"
proof -
  have no: "take (length (braced v)) (braced w @ s) \<noteq> braced v" using braced_prefix [OF assms(1,2)] assms(3) by blast
  have first: "replace_from (braced v) r b (braced w @ s) =
      CHR 0x7B # replace_from (braced v) r (b @ [CHR 0x7B]) (tl (braced w @ s))"
    using no by (subst replace_from.simps) (simp add: braced_def)
  have "hd ((w @ ''}}'') @ s) \<noteq> CHR 0x7B" using assms(2) by (cases w) (auto simp: plain_def)
  then have second: "replace_from (braced v) r b' (tl (braced w @ s)) =
      CHR 0x7B # replace_from (braced v) r (b' @ [CHR 0x7B]) ((w @ ''}}'') @ s)" for b'
    by (subst replace_from.simps) (cases w; simp add: braced_def)
  have "CHR 0x7B \<notin> set (w @ ''}}'')" using assms(2) by (simp add: plain_def)
  from replace_skip [OF this] show ?thesis
    unfolding first second by (simp add: braced_def)
qed

lemma replace_here:
  assumes "CHR ''$'' \<notin> set r"
  shows "replace_from (braced v) r b (braced v @ s) = r @ s"
  by (subst replace_from.simps) (simp add: expand_plain assms)

text \<open>A template some of whose places are filled.\<close>

type_synonym places = "(string \<times> string \<times> bool) list"

definition places_text :: "labels \<Rightarrow> places \<Rightarrow> string \<Rightarrow> string" where
  "places_text metric ps t =
     concat (map (\<lambda>(l, v, filled). l @ (if filled then label_text (label_value metric v) else braced v)) ps) @ t"

fun fill_place :: "string \<Rightarrow> places \<Rightarrow> places" where
  "fill_place w [] = []"
| "fill_place w ((l, v, filled) # ps) =
     (if v = w \<and> \<not> filled then (l, v, True) # ps else (l, v, filled) # fill_place w ps)"

definition open_places :: "string \<Rightarrow> places \<Rightarrow> nat" where
  "open_places w ps = length (filter (\<lambda>(l, v, filled). v = w \<and> \<not> filled) ps)"

definition plain_places :: "labels \<Rightarrow> places \<Rightarrow> bool" where
  "plain_places metric ps \<longleftrightarrow> (\<forall>(l, v, filled)\<in>set ps. plain l \<and> plain v \<and>
     CHR 0x7B \<notin> set (label_text (label_value metric v)) \<and> CHR ''$'' \<notin> set (label_text (label_value metric v)))"

lemma open_fill_place: "open_places v (fill_place w ps) = open_places v ps - (if v = w then 1 else 0)"
  by (induction w ps rule: fill_place.induct) (auto simp: open_places_def)

lemma fill_place_plain: "plain_places metric ps \<Longrightarrow> plain_places metric (fill_place w ps)"
  by (induction w ps rule: fill_place.induct) (auto simp: plain_places_def)

lemma replace_none:
  assumes "plain t"
  shows "replace_from (braced w) r b t = t"
proof -
  have "replace_from (CHR 0x7B # q) r b [] = []" for q b by (subst replace_from.simps) simp
  with replace_skip [of t "CHR 0x7B # w @ ''}}''" r b "[]"] assms show ?thesis by (simp add: plain_def braced_def)
qed

lemma places_text_Cons:
  "places_text metric ((l, v, filled) # ps) t =
     l @ (if filled then label_text (label_value metric v) else braced v) @ places_text metric ps t"
  by (simp add: places_text_def)

lemma replace_place:
  assumes "plain_places metric ps" and "plain w" and "plain t"
  shows "replace_from (braced w) (label_text (label_value metric w)) b (places_text metric ps t) =
    places_text metric (fill_place w ps) t"
  using assms
proof (induction w ps arbitrary: b rule: fill_place.induct)
  case (1 w)
  then show ?case by (simp add: places_text_def replace_none)
next
  case (2 w l v filled ps)
  let ?r = "label_text (label_value metric w)" and ?val = "label_text (label_value metric v)"
  have l: "CHR 0x7B \<notin> set l" and v: "plain v" and val: "CHR 0x7B \<notin> set ?val" "CHR ''$'' \<notin> set ?val"
    and ps: "plain_places metric ps"
    using "2.prems"(1) by (auto simp: plain_places_def plain_def)
  have skip: "replace_from (braced w) ?r b (p @ s) = p @ replace_from (braced w) ?r (b @ p) s" if "CHR 0x7B \<notin> set p" for p b s
    using replace_skip [OF that] by (simp add: braced_def)
  show ?case
  proof (cases "v = w \<and> \<not> filled")
    case True
    with val show ?thesis by (simp add: places_text_Cons skip [OF l] replace_here)
  next
    case False
    with "2.IH" [OF _ ps "2.prems"(2,3)] val show ?thesis
      by (auto simp: places_text_Cons skip [OF l] skip replace_other [OF "2.prems"(2) v])
  qed
qed

lemma fill_places:
  assumes "plain_places metric ps" and "list_all plain vs" and "plain t"
  shows "fold (\<lambda>v s. js_replace_text (braced v) (label_text (label_value metric v)) s) vs (places_text metric ps t) =
    places_text metric (fold fill_place vs ps) t"
  using assms(1,2)
proof (induction vs arbitrary: ps)
  case Nil
  then show ?case by simp
next
  case (Cons w vs)
  then show ?case by (simp add: js_replace_text_def replace_place assms(3) fill_place_plain)
qed

lemma open_fill_places: "open_places v (fold fill_place vs ps) = open_places v ps - count_list vs v"
  by (induction vs arbitrary: ps) (simp_all add: open_fill_place)

lemma filled_text:
  assumes "\<And>v. open_places v ps = 0"
  shows "places_text metric ps t = concat (map (\<lambda>(l, v, filled). l @ label_text (label_value metric v)) ps) @ t"
proof -
  have "(l, v, False) \<notin> set ps" for l v
    using assms [of v] by (auto simp: open_places_def filter_empty_conv)
  then show ?thesis by (auto simp: places_text_def intro!: arg_cong [where f = concat] map_cong)
qed

lemma fill_place_keeps: "map (\<lambda>(l, v, filled). l @ f v) (fill_place w ps) = map (\<lambda>(l, v, filled). l @ f v) ps"
  by (induction w ps rule: fill_place.induct) auto

lemma fill_places_keep: "map (\<lambda>(l, v, filled). l @ f v) (fold fill_place vs ps) = map (\<lambda>(l, v, filled). l @ f v) ps"
  by (induction vs arbitrary: ps) (simp_all add: fill_place_keeps)

section \<open>The variables of a template\<close>

lemma split_skip: "k \<le> length s \<Longrightarrow> js_split_text sep k s = js_split_text sep 0 (drop k s)"
proof (induction k arbitrary: s)
  case 0
  then show ?case by simp
next
  case (Suc k)
  then show ?case by (cases s) auto
qed

lemma split_not_Nil [simp]: "js_split_text sep k s \<noteq> []"
  by (induction sep k s rule: js_split_text.induct) (auto split: nat.split list.split)

lemma split_sep: "js_split_text [c, c] 0 (c # c # s) = [] # js_split_text [c, c] 0 s"
  using split_skip [of 1 "c # s" "[c, c]"] by simp

lemma split_plain:
  assumes "c \<notin> set p"
  shows "js_split_text [c, c] 0 (p @ s) =
    (p @ hd (js_split_text [c, c] 0 s)) # tl (js_split_text [c, c] 0 s)"
  using assms
proof (induction p)
  case Nil
  then show ?case by (simp add: hd_Cons_tl)
next
  case (Cons d p)
  then show ?case by auto
qed

fun first_literal :: "(string \<times> string) list \<Rightarrow> string \<Rightarrow> string" where
  "first_literal [] t = t"
| "first_literal ((l, v) # ps) t = l"

fun later_parts :: "(string \<times> string) list \<Rightarrow> string \<Rightarrow> string list" where
  "later_parts [] t = []"
| "later_parts ((l, v) # ps) t = (v @ ''}}'' @ first_literal ps t) # later_parts ps t"

lemma split_template:
  assumes "plain_template ps t"
  shows "js_split_text ''{{'' 0 (template_text ps t) = first_literal ps t # later_parts ps t"
  using assms
proof (induction ps t rule: later_parts.induct)
  case (1 t)
  then show ?case
    using split_plain [of "CHR 0x7B" t "[]"] by (simp add: template_text_def plain_template_def plain_def)
next
  case (2 l v ps t)
  have l: "CHR 0x7B \<notin> set l" and v: "CHR 0x7B \<notin> set (v @ ''}}'')" and ps: "plain_template ps t"
    using "2.prems" by (auto simp: plain_template_def plain_def)
  have "template_text ((l, v) # ps) t = l @ CHR 0x7B # CHR 0x7B # (v @ ''}}'') @ template_text ps t"
    by (simp add: template_text_def braced_def)
  then show ?case
    by (simp only: split_plain [OF l] split_sep split_plain [OF v] "2.IH" [OF ps]) simp
qed

lemma template_variables_plain:
  assumes "plain_template ps t"
  shows "template_variables (template_text ps t) =
    (if first_literal ps t = [] then [] else [first_literal ps t]) @ map snd ps"
proof -
  have head: "hd (js_split_text ''}}'' 0 (v @ s)) = v @ hd (js_split_text ''}}'' 0 s)" if "CHR 0x7D \<notin> set v" for v s
    using split_plain [OF that] by simp
  have "map (\<lambda>e. hd (js_split_text ''}}'' 0 e)) (filter (\<lambda>e. e \<noteq> []) (later_parts ps t)) = map snd ps"
    using assms
  proof (induction ps t rule: later_parts.induct)
    case (1 t)
    then show ?case by simp
  next
    case (2 l v ps t)
    then have "CHR 0x7D \<notin> set v" "plain_template ps t" by (auto simp: plain_template_def plain_def)
    then show ?case using "2.IH" by (simp add: head split_sep)
  qed
  moreover have "CHR 0x7D \<notin> set (first_literal ps t)"
    using assms by (cases "(ps, t)" rule: first_literal.cases) (auto simp: plain_template_def plain_def)
  with head [of "first_literal ps t" "[]"] have "hd (js_split_text ''}}'' 0 (first_literal ps t)) = first_literal ps t"
    by simp
  ultimately show ?thesis by (simp add: template_variables_def split_template [OF assms])
qed

text \<open>
  C28. A legend template shows each variable's label and keeps the text between them, as long as no label of a
  variable has a brace or a dollar.
\<close>

theorem legend_fills_template:
  assumes "plain_template ps t" and "template_text ps t \<noteq> []"
    and "\<And>l v. (l, v) \<in> set ps \<Longrightarrow> CHR 0x7B \<notin> set (label_text (label_value metric v)) \<and>
           CHR ''$'' \<notin> set (label_text (label_value metric v))"
  shows "getLabelName (Some metric) query (template_text ps t) = template_shown metric ps t"
proof -
  let ?vs = "template_variables (template_text ps t)" and ?places = "map (\<lambda>(l, v). (l, v, False)) ps"
  have start: "template_text ps t = places_text metric ?places t"
    by (simp add: template_text_def places_text_def comp_def split_def)
  have places: "plain_places metric ?places"
    using assms(1,3) by (fastforce simp: plain_places_def plain_template_def)
  have vs: "?vs = (if first_literal ps t = [] then [] else [first_literal ps t]) @ map snd ps"
    by (rule template_variables_plain [OF assms(1)])
  have "plain (first_literal ps t)"
    using assms(1) by (cases "(ps, t)" rule: first_literal.cases) (auto simp: plain_template_def)
  then have plain_vs: "list_all plain ?vs" using assms(1) by (auto simp: vs list_all_iff plain_template_def)
  have "open_places v ?places \<le> count_list ?vs v" for v
  proof -
    have "open_places v ?places = count_list (map snd ps) v"
      by (induction ps) (auto simp: open_places_def)
    then show ?thesis by (simp add: vs)
  qed
  then have "open_places v (fold fill_place ?vs ?places) = 0" for v by (simp add: open_fill_places)
  note filled = filled_text [OF this]
  have "map (\<lambda>(l, v, filled). l @ label_text (label_value metric v)) (fold fill_place ?vs ?places) =
      map (\<lambda>(l, v). l @ label_text (label_value metric v)) ps"
    unfolding fill_places_keep by auto
  with filled have "places_text metric (fold fill_place ?vs ?places) t = template_shown metric ps t"
    by (simp add: template_shown_def)
  moreover have "plain t" using assms(1) by (simp add: plain_template_def)
  ultimately show ?thesis
    using fill_places [OF places plain_vs, of t] assms(2) by (simp add: getLabelName_def fill_template_def flip: start)
qed

theorem legend_fills_template_witness:
  "getLabelName (Some [(''service'', Some ''api''), (''code'', Some ''500'')]) ''A'' ''svc {{service}}/{{code}}'' = ''svc api/500''"
proof -
  have "template_text [(''svc '', ''service''), (''/'', ''code'')] [] = ''svc {{service}}/{{code}}''"
    "template_shown [(''service'', Some ''api''), (''code'', Some ''500'')] [(''svc '', ''service''), (''/'', ''code'')] [] = ''svc api/500''"
    by code_simp+
  then show ?thesis
    using legend_fills_template [of "[(''svc '', ''service''), (''/'', ''code'')]" "[]"
        "[(''service'', Some ''api''), (''code'', Some ''500'')]" "''A''"]
    by (auto simp: plain_template_def plain_def label_text_def label_value_def)
qed

section \<open>Labels around a name\<close>

text \<open>The labels before and after the name are joined without a comma.\<close>

lemma labels_run_together:
  "getLabelName (Some [(''Zone'', Some ''a''), (''__name__'', Some ''cpu''), (''host'', Some ''b'')]) ''A'' [] =
     ''cpu{Zone=\"a\"host=\"b\"}''"
  by code_simp

text \<open>A label with a dollar pattern is expanded: the two characters \<open>$&\<close> give the variable back.\<close>

lemma dollar_label_expands:
  "getLabelName (Some [(''path'', Some ''a$&b'')]) ''A'' ''{{path}}'' = ''a{{path}}b''"
  by code_simp

text \<open>A variable without a label is shown as \<open>undefined\<close>.\<close>

lemma missing_label_shows_undefined: "getLabelName (Some []) ''A'' ''{{pod}}'' = ''undefined''"
  by code_simp

end
