(* ===== verification/Histogram.thy ===== *)
theory Histogram
  imports Chart_Data Legend
begin

text \<open>
  The data of a histogram panel (\<^verbatim>\<open>container/PanelVisualization/panels/utils/histogram.ts\<close>,
  \<^verbatim>\<open>panels/HistogramPanel/utils.ts\<close>, \<^verbatim>\<open>utils/round.ts\<close>): the size of the buckets, the
  counts of each series, the join of the series on one axis and the empty bucket in front. The list of bucket
  sizes belongs to the charting library and is an argument. Values are exact rationals; a result with an
  infinite value, whose arithmetic leaves them, gives \<open>None\<close>.
\<close>

section \<open>Rounding\<close>

definition roundHalfUp :: "rat \<Rightarrow> int" where
  "roundHalfUp v = \<lfloor>v + 1 / 2\<rfloor>"

definition incrRoundDn :: "rat \<Rightarrow> rat \<Rightarrow> rat" where
  "incrRoundDn num incr = of_int \<lfloor>num / incr\<rfloor> * incr"

definition incrRoundUp :: "rat \<Rightarrow> rat \<Rightarrow> rat" where
  "incrRoundUp num incr = of_int \<lceil>num / incr\<rceil> * incr"

text \<open>\<open>Number.EPSILON\<close> is \<open>2\<close> to the power of \<open>-52\<close>; \<open>Math.round\<close> rounds halves up.\<close>

definition roundDecimals :: "rat \<Rightarrow> nat \<Rightarrow> rat" where
  "roundDecimals val dec =
     (if of_int \<lfloor>val\<rfloor> = val then val
      else of_int (roundHalfUp (val * 10 ^ dec * (1 + 1 / 2 ^ 52))) / 10 ^ dec)"

section \<open>Joining tables on one axis\<close>

datatype null_mode = Null_Remove | Null_Retain | Null_Expand

definition nullish :: "cell \<Rightarrow> bool" where
  "nullish c \<longleftrightarrow> c = Cell_Null \<or> c = Cell_Undefined"

fun expand_left :: "nat \<Rightarrow> cell list \<Rightarrow> cell list" where
  "expand_left 0 row = row"
| "expand_left (Suc i) row = (if nullish (row ! i) then expand_left i (row[i := Cell_Null]) else row)"

function expand_right :: "nat \<Rightarrow> nat \<Rightarrow> cell list \<Rightarrow> int \<Rightarrow> cell list \<times> int" where
  "expand_right n i row lastExpandedNullIndex =
     (if i < n \<and> nullish (row ! i) then expand_right n (Suc i) (row[i := Cell_Null]) (int i)
      else (row, lastExpandedNullIndex))"
  by auto
termination by (relation "measure (\<lambda>(n, i, row, k). n - i)") auto

declare expand_right.simps [simp del]

definition propagateNullsAcrossNeighbors :: "nat list \<Rightarrow> nat \<Rightarrow> cell list \<Rightarrow> cell list" where
  "propagateNullsAcrossNeighbors nullIndices alignedLength seriesValues =
     fst (fold (\<lambda>nullIndex (row, lastExpandedNullIndex).
             if lastExpandedNullIndex < int nullIndex
             then expand_right alignedLength (Suc nullIndex) (expand_left nullIndex row) lastExpandedNullIndex
             else (row, lastExpandedNullIndex))
           nullIndices (seriesValues, -1))"

text \<open>The index of an \<open>x\<close> on the merged axis, whose entries are distinct.\<close>

fun index_of :: "rat \<Rightarrow> rat list \<Rightarrow> nat option" where
  "index_of x [] = None"
| "index_of x (y # ys) = (if x = y then Some 0 else map_option Suc (index_of x ys))"

definition place_value :: "rat list \<Rightarrow> null_mode \<Rightarrow> rat \<times> cell \<Rightarrow> cell list \<times> nat list \<Rightarrow> cell list \<times> nat list" where
  "place_value axis mode p s =
     (let (x, c) = p; (row, nullIndices) = s
      in case index_of x axis of
           None \<Rightarrow> s
         | Some k \<Rightarrow>
             if c = Cell_Null
             then if mode = Null_Remove then s
                  else (row[k := c], if mode = Null_Expand then nullIndices @ [k] else nullIndices)
             else (row[k := c], nullIndices))"

definition align_row :: "rat list \<Rightarrow> null_mode \<Rightarrow> rat list \<Rightarrow> cell list \<Rightarrow> cell list" where
  "align_row axis mode xs values =
     (let (row, nullIndices) = fold (place_value axis mode) (zip xs values)
            (replicate (length axis) Cell_Undefined, [])
      in propagateNullsAcrossNeighbors nullIndices (length axis) row)"

text \<open>A value without an \<open>x\<close> finds no index; the series of a table count from 1.\<close>

definition mergeAlignedDataTables :: "aligned list \<Rightarrow> (nat \<Rightarrow> nat \<Rightarrow> null_mode) \<Rightarrow> aligned" where
  "mergeAlignedDataTables tables modes =
     (let axis = sort (remdups (concat (map fst tables)))
      in (axis,
          concat (map (\<lambda>t. let (xs, rows) = tables ! t
                   in map (\<lambda>s. align_row axis (modes t (Suc s)) xs (rows ! s)) [0..<length rows])
                 [0..<length tables])))"

section \<open>Buckets\<close>

fun count_value :: "rat \<Rightarrow> (rat \<times> nat) list \<Rightarrow> (rat \<times> nat) list" where
  "count_value v [] = [(v, 1)]"
| "count_value v ((w, n) # bs) = (if w = v then (w, Suc n) # bs else (w, n) # count_value v bs)"

definition buildHistogramBuckets :: "rat list \<Rightarrow> (rat \<Rightarrow> rat) \<Rightarrow> bool \<Rightarrow> aligned" where
  "buildHistogramBuckets values getBucketForValue sort_given =
     (let counted = fold (\<lambda>v. count_value (getBucketForValue v)) values [];
          buckets = (if sort_given then sort_key fst counted else counted)
      in (map fst buckets, [map (\<lambda>b. Cell (of_nat (snd b))) buckets]))"

definition replaceUndefinedWithNullInAlignedData :: "aligned \<Rightarrow> aligned" where
  "replaceUndefinedWithNullInAlignedData d =
     (fst d, map (map (\<lambda>c. if c = Cell_Undefined then Cell_Null else c)) (snd d))"

definition prependNullBinToFirstHistogramSeries :: "rat \<Rightarrow> aligned \<Rightarrow> aligned" where
  "prependNullBinToFirstHistogramSeries bucketSize d =
     (case fst d of [] \<Rightarrow> d | x # xs \<Rightarrow> ((x - bucketSize) # x # xs, map ((#) Cell_Null) (snd d)))"

section \<open>The data of the panel\<close>

text \<open>\<open>Number.parseFloat(text) || 0\<close>; \<open>None\<close> is an infinite value.\<close>

definition histogram_number :: "string \<Rightarrow> rat option" where
  "histogram_number v = (case parse_float v of None \<Rightarrow> Some 0 | Some (Dec m e) \<Rightarrow> Some (dec_rat m e) | Some (Infinite _) \<Rightarrow> None)"

fun all_some :: "'a option list \<Rightarrow> 'a list option" where
  "all_some [] = Some []"
| "all_some (x # xs) = (case (x, all_some xs) of (Some y, Some ys) \<Rightarrow> Some (y # ys) | _ \<Rightarrow> None)"

definition extractNumericValues :: "rat list list \<Rightarrow> rat list" where
  "extractNumericValues result = concat result"

text \<open>\<open>None\<close> is the initial infinity of the minimum.\<close>

definition smaller_delta :: "rat list \<Rightarrow> nat \<Rightarrow> rat option \<Rightarrow> rat option" where
  "smaller_delta vs i smallest =
     (let delta = vs ! i - vs ! (i - 1)
      in if 0 < delta then Some (case smallest of None \<Rightarrow> delta | Some s \<Rightarrow> min s delta) else smallest)"

definition computeSmallestDelta :: "rat list \<Rightarrow> rat" where
  "computeSmallestDelta sortedValues =
     (if length sortedValues \<le> 1 then 0
      else case fold (smaller_delta sortedValues) [1..<length sortedValues] None of None \<Rightarrow> 0 | Some s \<Rightarrow> s)"

text \<open>With a count of 0 the target is infinite or \<open>NaN\<close>, and no candidate is above it.\<close>

definition selectBucketSize :: "rat list \<Rightarrow> rat \<Rightarrow> int \<Rightarrow> rat \<Rightarrow> rat option \<Rightarrow> rat" where
  "selectBucketSize histogramBucketSizes spread bucketCount smallestDelta bucketWidthOverride =
     (let chosen = (if bucketCount = 0 then 0
            else case js_find (\<lambda>c. spread / of_int bucketCount < c \<and> smallestDelta \<le> c) histogramBucketSizes of
                   Some c \<Rightarrow> c | None \<Rightarrow> 0)
      in case bucketWidthOverride of Some w \<Rightarrow> if 0 < w then w else chosen | None \<Rightarrow> chosen)"

definition buildFrames :: "rat list list \<Rightarrow> bool \<Rightarrow> rat list list" where
  "buildFrames result mergeAllActiveQueries =
     (if mergeAllActiveQueries \<and> 1 < length result then concat result # map (\<lambda>_. []) (tl result) else result)"

definition getBucket :: "rat \<Rightarrow> rat \<Rightarrow> rat" where
  "getBucket bucketSize v = roundDecimals (incrRoundDn v bucketSize) 9"

text \<open>The size of the buckets; \<open>None\<close> when it is infinite.\<close>

definition bucket_size :: "rat list \<Rightarrow> rat list \<Rightarrow> rat option \<Rightarrow> int option \<Rightarrow> rat option" where
  "bucket_size histogramBucketSizes seriesValues bucketWidth bucketCountProp =
     (let bucketCount = (case bucketCountProp of Some n \<Rightarrow> n | None \<Rightarrow> 30);
          sorted = sort seriesValues; spread = last sorted - hd sorted;
          bucketSize = selectBucketSize histogramBucketSizes spread bucketCount (computeSmallestDelta sorted) bucketWidth
      in if 0 < bucketSize then Some bucketSize
         else if spread \<le> 0 then Some 1
         else if bucketCount = 0 then None
         else Some (spread / of_int bucketCount))"

definition histogram_of :: "rat \<Rightarrow> rat list list \<Rightarrow> aligned" where
  "histogram_of bucketSize frames =
     (let histogramsPerSeries = map (\<lambda>frame. buildHistogramBuckets frame (getBucket bucketSize) True)
            (filter (\<lambda>frame. frame \<noteq> []) frames)
      in if histogramsPerSeries = [] then ([], [])
         else prependNullBinToFirstHistogramSeries bucketSize
                (replaceUndefinedWithNullInAlignedData
                  (mergeAlignedDataTables histogramsPerSeries (\<lambda>_ _. Null_Retain))))"

definition prepareHistogramPanelData ::
    "rat list \<Rightarrow> panel_series list \<Rightarrow> rat option \<Rightarrow> int option \<Rightarrow> bool \<Rightarrow> aligned option" where
  "prepareHistogramPanelData histogramBucketSizes result bucketWidth bucketCount mergeAllActiveQueries =
     (case all_some (map (\<lambda>item. all_some (map (\<lambda>p. histogram_number (snd p)) item)) result) of
        None \<Rightarrow> None
      | Some numbers \<Rightarrow>
          let seriesValues = extractNumericValues numbers
          in if seriesValues = [] then Some ([], [])
             else case bucket_size histogramBucketSizes seriesValues bucketWidth bucketCount of
                    None \<Rightarrow> None
                  | Some bucketSize \<Rightarrow> Some (histogram_of bucketSize (buildFrames numbers mergeAllActiveQueries)))"

text \<open>The labels of the series that \<open>prepareHistogramPanelConfig\<close> adds.\<close>

definition histogram_labels :: "bool \<Rightarrow> legend_series list \<Rightarrow> typed_query \<Rightarrow> string list" where
  "histogram_labels mergeAllActiveQueries results currentQuery =
     (if mergeAllActiveQueries then [[]] else map (\<lambda>s. series_name s currentQuery) results)"

section \<open>Each bucket is counted once per value\<close>

definition values_at :: "('a \<Rightarrow> rat) \<Rightarrow> 'a list \<Rightarrow> rat \<Rightarrow> nat" where
  "values_at f vs x = length (filter (\<lambda>v. f v = x) vs)"

definition axis_of :: "('a \<Rightarrow> rat) \<Rightarrow> 'a list \<Rightarrow> rat list" where
  "axis_of f vs = sort (remdups (map f vs))"

lemma set_axis_of [simp]: "set (axis_of f vs) = f ` set vs"
  by (simp add: axis_of_def)

lemma distinct_axis_of [simp]: "distinct (axis_of f vs)"
  by (simp add: axis_of_def)

lemma axis_ofI: "sorted xs \<Longrightarrow> distinct xs \<Longrightarrow> set xs = f ` set vs \<Longrightarrow> xs = axis_of f vs"
  by (rule sorted_distinct_set_unique) (simp_all add: axis_of_def)

lemma count_value_keys: "set (map fst (count_value v bs)) = insert v (set (map fst bs))"
  by (induction v bs rule: count_value.induct) auto

lemma count_value_distinct: "distinct (map fst bs) \<Longrightarrow> distinct (map fst (count_value v bs))"
proof (induction v bs rule: count_value.induct)
  case (2 v w n bs)
  then show ?case using count_value_keys [of v bs] by auto
qed simp

lemma count_value_map:
  "map_of (count_value v bs) = (map_of bs)(v \<mapsto> (case map_of bs v of None \<Rightarrow> 1 | Some n \<Rightarrow> Suc n))"
  by (induction v bs rule: count_value.induct) (auto simp: fun_eq_iff)

lemma counted_values:
  "distinct (map fst (fold (\<lambda>v. count_value (f v)) vs [])) \<and>
   map_of (fold (\<lambda>v. count_value (f v)) vs []) = (\<lambda>x. if x \<in> f ` set vs then Some (values_at f vs x) else None)"
proof (induction vs rule: rev_induct)
  case Nil
  then show ?case by (simp add: fun_eq_iff)
next
  case (snoc v vs)
  have "values_at f vs x = 0" if "x \<notin> f ` set vs" for x
    using that by (auto simp: values_at_def filter_empty_conv)
  with snoc show ?case
    by (auto simp: count_value_distinct count_value_map values_at_def fun_eq_iff)
qed

lemma buckets_counted:
  "buildHistogramBuckets vs f True = (axis_of f vs, [map (\<lambda>x. Cell (of_nat (values_at f vs x))) (axis_of f vs)])"
proof -
  define bs where "bs = fold (\<lambda>v. count_value (f v)) vs []"
  have distinct: "distinct (map fst bs)"
    and counts: "map_of bs = (\<lambda>x. if x \<in> f ` set vs then Some (values_at f vs x) else None)"
    using counted_values [of f vs] by (simp_all add: bs_def)
  have "dom (map_of bs) = f ` set vs" by (auto simp: counts dom_def)
  then have keys: "fst ` set bs = f ` set vs" by (simp add: dom_map_of_conv_image_fst)
  have axis: "map fst (sort_key fst bs) = axis_of f vs"
    using distinct keys by (intro axis_ofI) (simp_all add: distinct_map inj_on_def)
  have "snd b = values_at f vs (fst b)" if "b \<in> set bs" for b
  proof -
    have "map_of bs (fst b) = Some (snd b)" using distinct that by (simp add: map_of_eq_Some_iff)
    then show ?thesis by (simp add: counts split: if_splits)
  qed
  then have "map (\<lambda>b. Cell (of_nat (snd b))) (sort_key fst bs) = map (\<lambda>x. Cell (of_nat (values_at f vs x))) (axis_of f vs)"
    by (simp flip: axis)
  with axis show ?thesis by (simp add: buildHistogramBuckets_def Let_def flip: bs_def)
qed

section \<open>A retained row is the table looked up along the axis\<close>

lemma index_of_Some:
  assumes "distinct axis"
  shows "index_of x axis = Some k \<longleftrightarrow> k < length axis \<and> axis ! k = x"
  using assms
proof (induction axis arbitrary: k)
  case Nil
  then show ?case by simp
next
  case (Cons y ys)
  then show ?case by (cases k) (auto dest: nth_mem)
qed

lemma index_of_None: "index_of x axis = None \<longleftrightarrow> x \<notin> set axis"
  by (induction axis) auto

definition along :: "rat list \<Rightarrow> (rat \<Rightarrow> cell option) \<Rightarrow> cell list" where
  "along axis m = map (\<lambda>x. case m x of Some c \<Rightarrow> c | None \<Rightarrow> Cell_Undefined) axis"

lemma place_along:
  assumes "distinct axis"
  shows "place_value axis Null_Retain (x, c) (along axis m, []) = (along axis (m(x \<mapsto> c)), [])"
proof (cases "index_of x axis")
  case None
  then have "along axis (m(x \<mapsto> c)) = along axis m" by (auto simp: along_def index_of_None)
  with None show ?thesis by (simp add: place_value_def)
next
  case (Some k)
  then have k: "k < length axis" "axis ! k = x" using index_of_Some [OF assms] by auto
  have "(along axis m)[k := c] = along axis (m(x \<mapsto> c))"
    using k assms by (intro nth_equalityI) (auto simp: along_def nth_list_update nth_eq_iff_index_eq)
  with Some show ?thesis by (cases "c = Cell_Null") (simp_all add: place_value_def)
qed

lemma align_row_retain:
  assumes "distinct axis"
  shows "align_row axis Null_Retain xs values = along axis (map_of (rev (zip xs values)))"
proof -
  have "fold (place_value axis Null_Retain) ps (along axis m, []) = (along axis (m ++ map_of (rev ps)), [])" for ps m
  proof (induction ps arbitrary: m)
    case Nil
    then show ?case by simp
  next
    case (Cons p ps)
    obtain x c where p: "p = (x, c)" by (cases p)
    have later: "m ++ map_of (rev (p # ps)) = m(x \<mapsto> c) ++ map_of (rev ps)"
      by (auto simp: p fun_eq_iff map_add_def split: option.split)
    show ?case unfolding later by (simp add: p place_along [OF assms] Cons.IH fun_upd_def)
  qed
  moreover have "replicate (length axis) Cell_Undefined = along axis Map.empty"
    by (simp add: along_def map_replicate_const)
  ultimately show ?thesis by (simp add: align_row_def propagateNullsAcrossNeighbors_def)
qed

section \<open>The histogram is the table of counts\<close>

definition bucket_cell :: "nat \<Rightarrow> cell" where
  "bucket_cell n = (if n = 0 then Cell_Null else Cell (of_nat n))"

lemma values_at_0: "values_at f vs x = 0 \<longleftrightarrow> x \<notin> f ` set vs"
  by (auto simp: values_at_def filter_empty_conv)

lemma histogram_row:
  "map (\<lambda>c. if c = Cell_Undefined then Cell_Null else c)
     (along axis (map_of (rev (zip (axis_of f vs) (map (\<lambda>x. Cell (of_nat (values_at f vs x))) (axis_of f vs)))))) =
   map (\<lambda>x. bucket_cell (values_at f vs x)) axis"
proof -
  have "map_of (rev (zip xs (map g xs))) = (\<lambda>x. if x \<in> set xs then Some (g x) else None)" if "distinct xs" for xs and g :: "rat \<Rightarrow> cell"
    using that map_of_inject_set [of "rev (zip xs (map g xs))" "zip xs (map g xs)"]
    by (simp add: map_of_zip_map flip: rev_map)
  then show ?thesis
    by (simp add: along_def bucket_cell_def values_at_0)
qed

lemma merged_buckets:
  "mergeAlignedDataTables (map (\<lambda>vs. buildHistogramBuckets vs f True) fs) (\<lambda>_ _. Null_Retain) =
     (axis_of f (concat fs),
      map (\<lambda>vs. along (axis_of f (concat fs))
             (map_of (rev (zip (axis_of f vs) (map (\<lambda>x. Cell (of_nat (values_at f vs x))) (axis_of f vs)))))) fs)"
proof -
  have axis: "sort (remdups (concat (map fst (map (\<lambda>vs. buildHistogramBuckets vs f True) fs)))) = axis_of f (concat fs)"
    by (rule axis_ofI) (auto simp: buckets_counted)
  have "map (\<lambda>t. case map (\<lambda>vs. buildHistogramBuckets vs f True) fs ! t of (xs, rows) \<Rightarrow>
          map (\<lambda>s. align_row (axis_of f (concat fs)) Null_Retain xs (rows ! s)) [0..<length rows])
        [0..<length (map (\<lambda>vs. buildHistogramBuckets vs f True) fs)] =
      map (\<lambda>vs. [along (axis_of f (concat fs))
             (map_of (rev (zip (axis_of f vs) (map (\<lambda>x. Cell (of_nat (values_at f vs x))) (axis_of f vs)))))]) fs"
    by (rule nth_equalityI) (simp_all add: buckets_counted align_row_retain)
  then show ?thesis
    unfolding mergeAlignedDataTables_def axis Let_def by simp
qed

text \<open>
  C22. The histogram of several series: an empty bucket, then every bucket some value falls in, in order, and in the
  row of a series the number of its values in each bucket, with a gap where it has none.
\<close>

theorem histogram_counts:
  assumes "fs = filter (\<lambda>frame. frame \<noteq> []) frames" and "fs \<noteq> []"
    and "axis = axis_of (getBucket bucketSize) (concat fs)"
  shows "histogram_of bucketSize frames =
    ((hd axis - bucketSize) # axis,
     map (\<lambda>vs. Cell_Null # map (\<lambda>x. bucket_cell (values_at (getBucket bucketSize) vs x)) axis) fs)"
proof -
  have "concat fs \<noteq> []" using assms(1,2) by (auto simp: filter_empty_conv)
  then have "axis \<noteq> []" using assms(3) by (metis image_is_empty set_axis_of set_empty)
  then obtain x xs where "axis = x # xs" by (cases axis) auto
  then show ?thesis
    using assms(2)
    by (simp add: histogram_of_def merged_buckets replaceUndefinedWithNullInAlignedData_def histogram_row
        prependNullBinToFirstHistogramSeries_def comp_def flip: assms(1,3) cong: map_cong)
qed

text \<open>No value is lost: the counts of a series add up to the number of its values.\<close>

lemma values_at_total:
  assumes "distinct xs" and "f ` set vs \<subseteq> set xs"
  shows "sum_list (map (values_at f vs) xs) = length vs"
  using assms(2)
proof (induction vs)
  case Nil
  then show ?case by (simp add: values_at_def)
next
  case (Cons v vs)
  have "values_at f (v # vs) = (\<lambda>x. (if x = f v then 1 else 0) + values_at f vs x)"
    by (auto simp: values_at_def fun_eq_iff)
  with Cons assms(1) show ?case by (simp add: sum_list_addf sum_list_distinct_conv_sum_set)
qed

lemma cell_number_bucket [simp]: "cell_number (bucket_cell n) = of_nat n" "cell_number Cell_Null = 0"
  by (simp_all add: bucket_cell_def cell_number_def)

lemma sum_list_of_nat: "sum_list (map (\<lambda>x. of_nat (g x)) xs) = (of_nat (sum_list (map g xs)) :: rat)"
  by (induction xs) simp_all

theorem histogram_keeps_values:
  assumes "fs = filter (\<lambda>frame. frame \<noteq> []) frames" and "fs \<noteq> []" and "k < length fs"
  shows "sum_list (map cell_number (snd (histogram_of bucketSize frames) ! k)) = of_nat (length (fs ! k))"
proof -
  let ?f = "getBucket bucketSize" and ?axis = "axis_of (getBucket bucketSize) (concat fs)"
  have "sum_list (map (values_at ?f (fs ! k)) ?axis) = length (fs ! k)"
    by (rule values_at_total) (use nth_mem [OF assms(3)] in auto)
  then have "sum_list (map (\<lambda>x. of_nat (values_at ?f (fs ! k) x)) ?axis) = (of_nat (length (fs ! k)) :: rat)"
    by (simp add: sum_list_of_nat)
  then show ?thesis
    using assms(3) by (simp add: histogram_counts [OF assms(1,2) refl] comp_def)
qed

section \<open>Where a value goes\<close>

lemma incrRoundDn_bounds:
  assumes "0 < incr"
  shows "incrRoundDn num incr \<le> num" "num < incrRoundDn num incr + incr"
proof -
  have floor: "of_int \<lfloor>num / incr\<rfloor> \<le> num / incr" "num / incr < of_int \<lfloor>num / incr\<rfloor> + 1" by linarith+
  have num: "num / incr * incr = num" using assms by simp
  show "incrRoundDn num incr \<le> num"
    using mult_right_mono [OF floor(1), of incr] assms unfolding incrRoundDn_def num by simp
  show "num < incrRoundDn num incr + incr"
    using mult_strict_right_mono [OF floor(2) assms] unfolding incrRoundDn_def num by (simp add: distrib_right)
qed

lemma incrRoundUp_bounds:
  assumes "0 < incr"
  shows "num \<le> incrRoundUp num incr" "incrRoundUp num incr < num + incr"
proof -
  have ceiling: "num / incr \<le> of_int \<lceil>num / incr\<rceil>" "of_int \<lceil>num / incr\<rceil> < num / incr + 1" by linarith+
  have num: "num / incr * incr = num" using assms by simp
  show "num \<le> incrRoundUp num incr"
    using mult_right_mono [OF ceiling(1), of incr] assms unfolding incrRoundUp_def num by simp
  show "incrRoundUp num incr < num + incr"
    using mult_strict_right_mono [OF ceiling(2) assms] unfolding incrRoundUp_def distrib_right num by simp
qed

lemma roundDecimals_error: "\<bar>roundDecimals val dec - val\<bar> \<le> 1 / 2 / 10 ^ dec + \<bar>val\<bar> / 2 ^ 52"
proof (cases "of_int \<lfloor>val\<rfloor> = val")
  case True
  then show ?thesis by (simp add: roundDecimals_def)
next
  case False
  define p :: rat where "p = 10 ^ dec"
  define n where "n = val * p * (1 + 1 / 2 ^ 52)"
  have p: "0 < p" by (simp add: p_def)
  have "\<bar>of_int (roundHalfUp n) - n\<bar> \<le> 1 / 2" unfolding roundHalfUp_def by linarith
  then have "\<bar>of_int (roundHalfUp n) - n\<bar> / \<bar>p\<bar> \<le> 1 / 2 / p"
    using divide_right_mono [of "\<bar>of_int (roundHalfUp n) - n\<bar>" "1 / 2" p] p by simp
  then have "\<bar>(of_int (roundHalfUp n) - n) / p\<bar> \<le> 1 / 2 / p" by (simp only: abs_divide)
  moreover have "n / p - val = val / 2 ^ 52" using p by (simp add: n_def field_simps)
  then have "\<bar>n / p - val\<bar> = \<bar>val\<bar> / 2 ^ 52" by (simp only: abs_divide) simp
  ultimately have "\<bar>of_int (roundHalfUp n) / p - val\<bar> \<le> 1 / 2 / p + \<bar>val\<bar> / 2 ^ 52"
    unfolding diff_divide_distrib by linarith
  with False show ?thesis by (simp add: roundDecimals_def p_def n_def)
qed

text \<open>A series without values has no row, but it has its place among the labels: the later rows get the wrong one.\<close>

definition named_series :: "string \<Rightarrow> legend_series" where
  "named_series name = \<lparr>lg_metric = Some [(''pod'', Some name)], lg_queryName = ''A'', lg_legend = Some ''{{pod}}'', lg_metaData = None\<rparr>"

lemma empty_series_shifts_labels:
  "prepareHistogramPanelData [1, 2, 5] [[], [(0, ''3''), (1, ''4'')]] None None False =
     Some ([2, 3, 4], [[Cell_Null, Cell 1, Cell 1]])"
  "histogram_labels False [named_series ''idle'', named_series ''busy''] (initialQueriesMap ''q'' METRICS) =
     [''idle'', ''busy'']"
  by code_simp+

theorem histogram_counts_witness:
  "histogram_of 2 [[], [1, 2, 3], [5]] =
     ([-2, 0, 2, 4], [[Cell_Null, Cell 1, Cell 2, Cell_Null], [Cell_Null, Cell_Null, Cell_Null, Cell 1]])"
proof -
  have "axis_of (getBucket 2) (concat [[1, 2, 3], [5]]) = [0, 2, 4]" by code_simp
  moreover have "map (\<lambda>vs. Cell_Null # map (\<lambda>x. bucket_cell (values_at (getBucket 2) vs x)) [0, 2, 4]) [[1, 2, 3], [5]] =
      [[Cell_Null, Cell 1, Cell 2, Cell_Null], [Cell_Null, Cell_Null, Cell_Null, Cell 1]]"
    by code_simp
  ultimately show ?thesis
    using histogram_counts [of "[[1, 2, 3], [5]]" "[[], [1, 2, 3], [5]]" "[0, 2, 4]" 2] by simp
qed

end
