(* ===== verification/Units.thy ===== *)
theory Units
  imports Unit_Tables
begin

text \<open>
  Units of values: the universal unit of a name a metric comes with and the categories of the selector
  (\<^verbatim>\<open>components/YAxisUnitSelector/utils.tsx\<close>), the scaling of a value to a unit that fits it
  (\<open>scaleValue\<close> of \<^verbatim>\<open>formatter.ts\<close>) and conversion (\<^verbatim>\<open>lib/getConvertedValue.ts\<close>,
  \<^verbatim>\<open>container/NewWidget/RightContainer/dataFormatCategories.ts\<close>). Values are exact rationals.
\<close>

section \<open>Names of units\<close>

definition isUniversalUnit :: "string \<Rightarrow> bool" where
  "isUniversalUnit format = list_ex (\<lambda>u. u = format) universal_units"

definition mapMetricUnitToUniversalUnit :: "string option \<Rightarrow> string option" where
  "mapMetricUnitToUniversalUnit unit =
     (case unit of
        None \<Rightarrow> None
      | Some t \<Rightarrow>
          if t = [] then None
          else (case js_find (\<lambda>u. (case map_of UniversalYAxisUnitMappings u of Some names \<Rightarrow> t \<in> set names | None \<Rightarrow> False)
                                \<or> t = u) universal_units of
                  Some u \<Rightarrow> Some u | None \<Rightarrow> Some t))"

section \<open>Categories\<close>

type_synonym category = "string \<times> string list"

definition add_category :: "category \<Rightarrow> category list \<Rightarrow> category list" where
  "add_category c m =
     (case map_of m (fst c) of
        Some units \<Rightarrow> map_set (fst c) (units @ snd c) m
      | None \<Rightarrow> map_set (fst c) (snd c) m)"

definition mergeCategories :: "category list \<Rightarrow> category list \<Rightarrow> category list" where
  "mergeCategories categories1 categories2 =
     fold add_category categories2 (fold (\<lambda>(n, us). map_set n us) categories1 [])"

datatype y_axis_source = Alerts | Dashboards | Explorer

definition getYAxisCategories :: "y_axis_source \<Rightarrow> category list" where
  "getYAxisCategories src =
     (if src \<noteq> Dashboards then BASE_Y_AXIS_CATEGORIES
      else mergeCategories BASE_Y_AXIS_CATEGORIES ADDITIONAL_Y_AXIS_CATEGORIES)"

definition names_unit :: "string \<Rightarrow> string \<Rightarrow> bool" where
  "names_unit unitId u \<longleftrightarrow> u = unitId \<or> map_of UniversalUnitToGrafanaUnit u = Some unitId"

definition getCategoryName :: "string \<Rightarrow> string option" where
  "getCategoryName unitId =
     map_option fst (js_find (\<lambda>c. list_ex (names_unit unitId) (snd c)) (getYAxisCategories Dashboards))"

section \<open>Conversion\<close>

definition findUnitObject :: "string \<Rightarrow> rat option" where
  "findUnitObject unitValue =
     (case js_find (\<lambda>f. f \<noteq> None) (map (\<lambda>category. map_of category unitValue) unitsMapping) of Some f \<Rightarrow> f | None \<Rightarrow> None)"

definition getFormattedUnit :: "string \<Rightarrow> string" where
  "getFormattedUnit unit =
     (if isUniversalUnit unit then str_or (map_of UniversalUnitToGrafanaUnit unit) unit else unit)"

definition convertValue :: "rat \<Rightarrow> string option \<Rightarrow> string option \<Rightarrow> rat option" where
  "convertValue value' currentUnit targetUnit =
     (if targetUnit = Some ''none'' \<or> \<not> truthy_str currentUnit \<or> \<not> truthy_str targetUnit \<or> currentUnit = targetUnit
      then Some value'
      else
        (case (findUnitObject (getFormattedUnit (the currentUnit)), findUnitObject (getFormattedUnit (the targetUnit))) of
           (Some f, Some g) \<Rightarrow> Some (value' * f / g)
         | _ \<Rightarrow> None))"

definition convertUnit :: "rat \<Rightarrow> string option \<Rightarrow> string option \<Rightarrow> rat option" where
  "convertUnit value' fromUnitId toUnitId =
     (if \<not> truthy_str fromUnitId \<or> \<not> truthy_str toUnitId then None
      else
        let fromCategory = getCategoryName (the fromUnitId); toCategory = getCategoryName (the toUnitId)
        in if fromCategory = None \<or> toCategory = None \<or> fromCategory \<noteq> toCategory then None
           else convertValue value' fromUnitId toUnitId)"

section \<open>Scaling\<close>

function scale_up :: "rat \<Rightarrow> nat \<Rightarrow> rat \<Rightarrow> nat \<Rightarrow> rat \<times> nat" where
  "scale_up factor n scaled idx =
     (if factor \<le> scaled \<and> Suc idx < n then scale_up factor n (scaled / factor) (Suc idx) else (scaled, idx))"
  by auto
termination by (relation "measure (\<lambda>(factor, n, scaled, idx). n - idx)") auto

declare scale_up.simps [simp del]

fun scale_down :: "rat \<Rightarrow> rat \<Rightarrow> nat \<Rightarrow> rat \<times> nat" where
  "scale_down factor scaled 0 = (scaled, 0)"
| "scale_down factor scaled (Suc idx) =
     (if scaled < 1 then scale_down factor (scaled * factor) idx else (scaled, Suc idx))"

fun index_in :: "string \<Rightarrow> string list \<Rightarrow> nat option" where
  "index_in u [] = None"
| "index_in u (v # vs) = (if u = v then Some 0 else map_option Suc (index_in u vs))"

definition unit_label :: "string \<Rightarrow> string" where
  "unit_label u = str_or (map_of AdditionalLabelsMappingForGrafanaUnits u) []"

definition scale_index :: "rat \<Rightarrow> nat \<Rightarrow> nat \<Rightarrow> rat \<Rightarrow> rat \<times> nat" where
  "scale_index value' idx n factor = (let (scaled, i) = scale_up factor n value' idx in scale_down factor scaled i)"

definition scaleValue :: "rat \<Rightarrow> string \<Rightarrow> string list \<Rightarrow> rat \<Rightarrow> rat \<times> string" where
  "scaleValue value' unit family factor =
     (case index_in unit family of
        None \<Rightarrow> (value', unit_label unit)
      | Some idx \<Rightarrow> let (scaled, i) = scale_index value' idx (length family) factor in (scaled, unit_label (family ! i)))"

section \<open>Conversion can be undone\<close>

lemma factors_positive: "list_all (list_all (\<lambda>p. 0 < snd p)) unitsMapping"
  by code_simp

lemma findUnitObject_positive:
  assumes "findUnitObject u = Some f"
  shows "0 < f"
proof -
  from assms obtain category where "category \<in> set unitsMapping" "map_of category u = Some f"
    by (auto simp: findUnitObject_def split: option.splits dest!: js_find_Some)
  then show ?thesis using factors_positive map_of_SomeD unfolding list_all_iff by fastforce
qed

lemma convertValue_factors:
  assumes "convertValue v (Some a) (Some b) = Some w" and "a \<noteq> b" "a \<noteq> []" "b \<noteq> []" "b \<noteq> ''none''"
  obtains f g where "findUnitObject (getFormattedUnit a) = Some f" "findUnitObject (getFormattedUnit b) = Some g"
    "0 < f" "0 < g" "w = v * f / g"
  using assms by (auto simp: convertValue_def truthy_str_def findUnitObject_positive split: option.splits)

text \<open>Converting a value back gives the value, for every pair of units between which it can be converted.\<close>

theorem converted_value_converts_back:
  assumes "convertValue v (Some a) (Some b) = Some w" and "a \<noteq> ''none''" and "b \<noteq> ''none''"
  shows "convertValue w (Some b) (Some a) = Some v"
proof (cases "a = b \<or> a = [] \<or> b = []")
  case True
  with assms show ?thesis by (auto simp: convertValue_def truthy_str_def)
next
  case False
  then have "a \<noteq> b" "a \<noteq> []" "b \<noteq> []" by auto
  from convertValue_factors [OF assms(1) this assms(3)] obtain f g
    where "findUnitObject (getFormattedUnit a) = Some f" "findUnitObject (getFormattedUnit b) = Some g"
      "0 < f" "0 < g" "w = v * f / g" .
  with False assms(2) show ?thesis by (auto simp: convertValue_def truthy_str_def)
qed

lemma convert_same [simp]: "convertValue v a a = Some v"
  by (simp add: convertValue_def)

text \<open>Conversions compose.\<close>

lemma conversions_compose:
  assumes "convertValue v (Some a) (Some b) = Some w" and "convertValue w (Some b) (Some c) = Some x"
    and "a \<noteq> []" "b \<noteq> []" "c \<noteq> []" "b \<noteq> ''none''" "c \<noteq> ''none''"
  shows "convertValue v (Some a) (Some c) = Some x"
proof (cases "a = b \<or> b = c")
  case True
  with assms(1,2) show ?thesis by (auto simp: convert_same)
next
  case False
  then have "a \<noteq> b" "b \<noteq> c" by auto
  from convertValue_factors [OF assms(1) this(1) assms(3,4,6)] obtain f g
    where f: "findUnitObject (getFormattedUnit a) = Some f" "findUnitObject (getFormattedUnit b) = Some g"
      "0 < f" "0 < g" "w = v * f / g" .
  from convertValue_factors [OF assms(2) \<open>b \<noteq> c\<close> assms(4,5,7)] f(2) obtain h
    where h: "findUnitObject (getFormattedUnit c) = Some h" "0 < h" "x = w * g / h" by (metis option.inject)
  show ?thesis
  proof (cases "a = c")
    case True
    with f h assms(3,5,7) show ?thesis by (simp add: convertValue_def truthy_str_def)
  next
    case False
    with f h assms(3,5,7) show ?thesis by (simp add: convertValue_def truthy_str_def)
  qed
qed

section \<open>Scaling keeps the quantity\<close>

lemma scale_up_keeps:
  assumes "scale_up factor n v idx = (s, i)" and "0 < factor" and "idx < n"
  shows "s * factor ^ i = v * factor ^ idx \<and> idx \<le> i \<and> i < n \<and> (s < factor \<or> Suc i = n) \<and> (idx < i \<longrightarrow> 1 \<le> s)"
  using assms
proof (induction factor n v idx rule: scale_up.induct)
  case (1 factor n v idx)
  show ?case
  proof (cases "factor \<le> v \<and> Suc idx < n")
    case True
    with "1.prems"(1) have up: "scale_up factor n (v / factor) (Suc idx) = (s, i)" by (subst (asm) scale_up.simps) simp
    have ih: "s * factor ^ i = v / factor * factor ^ Suc idx \<and> Suc idx \<le> i \<and> i < n \<and> (s < factor \<or> Suc i = n) \<and>
        (Suc idx < i \<longrightarrow> 1 \<le> s)"
      using "1.IH" [OF True up "1.prems"(2)] True by simp
    have "1 \<le> s" if "i = Suc idx"
    proof -
      have "s = v / factor" using ih that "1.prems"(2) by (simp add: eq_divide_eq)
      with True "1.prems"(2) show ?thesis by simp
    qed
    with ih "1.prems"(2) show ?thesis by (auto simp: le_less)
  next
    case False
    with "1.prems" have "s = v" "i = idx" by (auto simp: scale_up.simps [of factor n v idx])
    with False "1.prems"(3) show ?thesis by auto
  qed
qed

lemma scale_down_keeps:
  assumes "scale_down factor v idx = (s, i)" and "0 < factor"
  shows "s * factor ^ i = v * factor ^ idx \<and> i \<le> idx \<and> (1 \<le> s \<or> i = 0) \<and> (i < idx \<longrightarrow> s < factor) \<and> (i = idx \<longrightarrow> s = v)"
  using assms
proof (induction factor v idx rule: scale_down.induct)
  case (1 factor v)
  then show ?case by simp
next
  case (2 factor v idx)
  show ?case
  proof (cases "v < 1")
    case True
    with "2.prems"(1) have down: "scale_down factor (v * factor) idx = (s, i)" by simp
    note ih = "2.IH" [OF True down "2.prems"(2)]
    have "v * factor < factor" using True "2.prems"(2) by simp
    with ih show ?thesis by (auto simp: le_less ac_simps)
  next
    case False
    with "2.prems" show ?thesis by auto
  qed
qed

text \<open>
  A value that is not negative is shown in a unit of its family as the same quantity, below the factor to the
  next unit unless there is none, and from 1 on unless there is no smaller unit.
\<close>

theorem scaled_value_fits:
  assumes "scale_index v idx n factor = (s, i)" and "0 < factor" and "idx < n"
  shows "i < n \<and> s * factor ^ i = v * factor ^ idx \<and> (1 \<le> s \<or> i = 0) \<and> (s < factor \<or> Suc i = n)"
proof -
  obtain u j where up: "scale_up factor n v idx = (u, j)" and down: "scale_down factor u j = (s, i)"
    using assms(1) by (auto simp: scale_index_def split: prod.splits)
  from scale_up_keeps [OF up assms(2,3)] scale_down_keeps [OF down assms(2)] show ?thesis
    by (auto simp: le_less)
qed

theorem converted_value_converts_back_witness:
  "convertValue 3 (Some ''h'') (Some ''min'') = Some 180 \<and> convertValue 180 (Some ''min'') (Some ''h'') = Some 3"
proof -
  have "convertValue 3 (Some ''h'') (Some ''min'') = Some 180" by code_simp
  with converted_value_converts_back [OF this] show ?thesis by simp
qed

theorem scaled_value_fits_witness:
  "3 < (9 :: nat) \<and> (5 / 2 :: rat) * 1000 ^ 3 = 2500000 * 1000 ^ 1 \<and> (1 \<le> (5 / 2 :: rat) \<or> (3 :: nat) = 0) \<and>
     ((5 / 2 :: rat) < 1000 \<or> Suc 3 = 9)"
proof (rule scaled_value_fits)
  show "scale_index 2500000 1 9 1000 = (5 / 2, 3)" by code_simp
qed simp_all

section \<open>What the tables say\<close>

text \<open>Counts per minute are taken for sixty counts per second, so a conversion is off by a factor of 3600.\<close>

lemma per_minute_multiplies: "convertValue 60 (Some ''{count}/min'') (Some ''cps'') = Some 3600"
  by code_simp

text \<open>The names of a pebibyte are listed under the petabyte.\<close>

lemma pebibytes_listed_as_petabytes:
  "map_of UniversalYAxisUnitMappings ''PBy'' = Some [''Petabytes'', ''PiBy'', ''pebibytes'']"
  by code_simp

text \<open>Megabytes per second and all larger rates but the binary ones have no factor.\<close>

lemma no_factor_for_megabytes_per_second:
  "map_of UniversalUnitToGrafanaUnit ''MBy/s'' = Some ''MBs''" "findUnitObject ''MBs'' = None" "findUnitObject ''KBs'' = Some 1000"
  by code_simp+

text \<open>\<open>convertValue\<close>, which thresholds use, does not look at the category: a byte is a nanosecond.\<close>

lemma bytes_become_seconds: "convertValue 2000000000 (Some ''By'') (Some ''s'') = Some 2"
  by code_simp

text \<open>A negative value is always below 1, so it is shown in the smallest unit of its family.\<close>

lemma negative_value_not_scaled: "scaleValue (- 5) ''Mbit'' [''bit'', ''kbit'', ''Mbit'', ''Gbit''] 1000 = (- 5000000, ''b'')"
  by code_simp

end
