(* ===== verification/Chart_Scale.thy ===== *)
theory Chart_Scale
  imports Chart_Data Units "HOL-Library.Log_Nat"
begin

text \<open>
  The scales of a chart: thresholds in the unit of the axis (\<^verbatim>\<open>lib/uPlotV2/utils/threshold.ts\<close>), limits,
  distribution and the range function (\<^verbatim>\<open>lib/uPlotV2/utils/scale.ts\<close>), the builder of a scale
  (\<^verbatim>\<open>lib/uPlotV2/config/UPlotScaleBuilder.ts\<close>) and the data of a time series panel in its unit
  (\<^verbatim>\<open>panels/TimeSeriesPanel/utils.ts\<close>). The two range functions of uPlot are arguments. Numbers are exact
  rationals, \<open>None\<close> is \<open>null\<close>, and the local time zone is off by whole minutes.
\<close>

section \<open>Thresholds\<close>

record threshold =
  th_value :: "rat option"
  th_unit :: "string option"

definition widen :: "rat \<Rightarrow> rat option \<times> rat option \<Rightarrow> rat option \<times> rat option" where
  "widen v m =
     ((case fst m of None \<Rightarrow> Some v | Some lo \<Rightarrow> if v < lo then Some v else Some lo),
      (case snd m of None \<Rightarrow> Some v | Some hi \<Rightarrow> if hi < v then Some v else Some hi))"

definition threshold_value :: "string option \<Rightarrow> threshold \<Rightarrow> rat option" where
  "threshold_value yAxisUnit t = (case th_value t of None \<Rightarrow> None | Some v \<Rightarrow> convertValue v (th_unit t) yAxisUnit)"

definition findMinMaxThresholdValues :: "threshold list \<Rightarrow> string option \<Rightarrow> rat option \<times> rat option" where
  "findMinMaxThresholdValues thresholds yAxisUnit =
     fold (\<lambda>t m. case threshold_value yAxisUnit t of None \<Rightarrow> m | Some v \<Rightarrow> widen v m) thresholds (None, None)"

definition adjustSoftLimitsWithThresholds ::
    "rat option \<Rightarrow> rat option \<Rightarrow> threshold list \<Rightarrow> string option \<Rightarrow> rat option \<times> rat option" where
  "adjustSoftLimitsWithThresholds softMin softMax thresholds yAxisUnit =
     (let (lo, hi) = findMinMaxThresholdValues thresholds yAxisUnit
      in if thresholds = [] \<or> (lo = None \<and> hi = None) then (softMin, softMax)
         else
           (case lo of
              Some l \<Rightarrow> (case softMin of Some s \<Rightarrow> Some (min s l) | None \<Rightarrow> Some l)
            | None \<Rightarrow> softMin,
            case hi of
              Some h \<Rightarrow> (case softMax of Some s \<Rightarrow> Some (max s h) | None \<Rightarrow> Some h)
            | None \<Rightarrow> softMax))"

section \<open>Powers of the base\<close>

definition power_int_of :: "nat \<Rightarrow> int \<Rightarrow> rat" where
  "power_int_of b e = power_int (of_nat b) e"

text \<open>\<open>Math.floor\<close> and \<open>Math.ceil\<close> of the logarithm of a positive number.\<close>

definition floor_log_above :: "nat \<Rightarrow> rat \<Rightarrow> nat" where
  "floor_log_above b v = floorlog b (nat \<lfloor>v\<rfloor>) - 1"

definition floor_log :: "nat \<Rightarrow> rat \<Rightarrow> int" where
  "floor_log b v =
     (if 1 \<le> v then int (floor_log_above b v)
      else let e = floor_log_above b (1 / v) in if of_nat b ^ e = 1 / v then - int e else - int e - 1)"

definition ceil_log :: "nat \<Rightarrow> rat \<Rightarrow> int" where
  "ceil_log b v = - floor_log b (1 / v)"

section \<open>Limits\<close>

datatype distribution = Linear | Logarithmic

definition normalizeLogLimit :: "rat option \<Rightarrow> nat \<Rightarrow> (nat \<Rightarrow> rat \<Rightarrow> int) \<Rightarrow> rat option" where
  "normalizeLogLimit value' logBase round_log =
     (case value' of None \<Rightarrow> None | Some v \<Rightarrow> if v \<le> 0 then Some v else Some (power_int_of logBase (round_log logBase v)))"

record limits =
  lm_min :: "rat option"
  lm_max :: "rat option"
  lm_softMin :: "rat option"
  lm_softMax :: "rat option"

definition normalizeLogScaleLimits :: "distribution option \<Rightarrow> nat \<Rightarrow> limits \<Rightarrow> limits" where
  "normalizeLogScaleLimits distr logBase l =
     (if distr \<noteq> Some Logarithmic then l
      else \<lparr>lm_min = normalizeLogLimit (lm_min l) logBase floor_log, lm_max = normalizeLogLimit (lm_max l) logBase ceil_log,
            lm_softMin = normalizeLogLimit (lm_softMin l) logBase floor_log,
            lm_softMax = normalizeLogLimit (lm_softMax l) logBase ceil_log\<rparr>)"

text \<open>The number of the distribution and the base; nothing for a time scale.\<close>

definition getDistributionConfig :: "bool \<Rightarrow> distribution option \<Rightarrow> nat option \<Rightarrow> (nat \<times> nat) option" where
  "getDistributionConfig time distr logBase =
     (if time then None
      else Some (if distr = Some Logarithmic then 3 else 1, if logBase = Some 2 then 2 else 10))"

text \<open>One side of the range configuration; a hard limit of \<open>None\<close> is infinite.\<close>

record range_side =
  rs_pad :: rat
  rs_hard :: "rat option"
  rs_soft :: "rat option"
  rs_mode :: nat

record range_params =
  rp_config_min :: range_side
  rp_config_max :: range_side
  rp_hardMinOnly :: bool
  rp_hardMaxOnly :: bool
  rp_hasFixedRange :: bool
  rp_min :: "rat option"
  rp_max :: "rat option"

definition range_side_of :: "rat option \<Rightarrow> rat option \<Rightarrow> rat \<Rightarrow> range_side" where
  "range_side_of hard soft pad = \<lparr>rs_pad = pad, rs_hard = hard, rs_soft = soft, rs_mode = (if soft = None then 3 else 1)\<rparr>"

definition getRangeConfig ::
    "rat option \<Rightarrow> rat option \<Rightarrow> rat option \<Rightarrow> rat option \<Rightarrow> rat \<Rightarrow> rat \<Rightarrow> range_params" where
  "getRangeConfig mn mx softMin softMax padMinBy padMaxBy =
     (let hardMinOnly = (softMin = None \<and> mn \<noteq> None); hardMaxOnly = (softMax = None \<and> mx \<noteq> None)
      in \<lparr>rp_config_min = range_side_of mn softMin padMinBy, rp_config_max = range_side_of mx softMax padMaxBy,
          rp_hardMinOnly = hardMinOnly, rp_hardMaxOnly = hardMaxOnly, rp_hasFixedRange = (hardMinOnly \<and> hardMaxOnly),
          rp_min = mn, rp_max = mx\<rparr>)"

section \<open>The range function\<close>

type_synonym min_max = "cell \<times> cell"

definition number_or_null :: "rat option \<Rightarrow> cell" where
  "number_or_null v = (case v of Some x \<Rightarrow> Cell x | None \<Rightarrow> Cell_Null)"

definition getInitialMinMax :: "rat option \<Rightarrow> rat option \<Rightarrow> bool \<Rightarrow> min_max option" where
  "getInitialMinMax dataMin dataMax hasFixedRange =
     (if \<not> hasFixedRange \<and> dataMin = None \<and> dataMax = None then None
      else Some (number_or_null dataMin, number_or_null dataMax))"

text \<open>The two functions of uPlot; the last argument of \<open>rangeLog\<close>, which is fixed, is left out.\<close>

record uplot_ranges =
  rangeNum :: "rat \<Rightarrow> rat \<Rightarrow> range_side \<times> range_side \<Rightarrow> rat \<times> rat"
  rangeLog :: "rat \<Rightarrow> rat \<Rightarrow> nat \<Rightarrow> rat \<times> rat"

definition or_null :: "'a option \<Rightarrow> 'a option \<Rightarrow> 'a option" where
  "or_null a b = (case a of Some x \<Rightarrow> Some x | None \<Rightarrow> b)"

definition cells_of :: "rat \<times> rat \<Rightarrow> min_max" where
  "cells_of p = (Cell (fst p), Cell (snd p))"

definition getLinearScaleRange ::
    "uplot_ranges \<Rightarrow> min_max \<Rightarrow> range_params \<Rightarrow> rat option \<Rightarrow> rat option \<Rightarrow> min_max" where
  "getLinearScaleRange u minMax params dataMin dataMax =
     (case (if rp_hardMinOnly params then rp_min params else dataMin,
            if rp_hardMaxOnly params then rp_max params else dataMax) of
        (Some lo, Some hi) \<Rightarrow> cells_of (rangeNum u lo hi (rp_config_min params, rp_config_max params))
      | _ \<Rightarrow> minMax)"

definition getLogScaleRange ::
    "uplot_ranges \<Rightarrow> min_max \<Rightarrow> range_params \<Rightarrow> rat option \<Rightarrow> rat option \<Rightarrow> nat option \<Rightarrow> min_max" where
  "getLogScaleRange u minMax params dataMin dataMax logBase =
     (case (or_null (rp_min params) dataMin, or_null (rp_max params) dataMax) of
        (Some lo, Some hi) \<Rightarrow> cells_of (rangeLog u lo hi (case logBase of Some b \<Rightarrow> b | None \<Rightarrow> 10))
      | _ \<Rightarrow> minMax)"

text \<open>The logarithm of 0 is minus infinity, whose power is 0, and that of a negative number \<open>NaN\<close>.\<close>

definition log_power :: "nat \<Rightarrow> (nat \<Rightarrow> rat \<Rightarrow> int) \<Rightarrow> cell \<Rightarrow> cell" where
  "log_power b round_log c =
     (case c of
        Cell v \<Rightarrow> if 0 < v then Cell (power_int_of b (round_log b v)) else if v = 0 then Cell 0 else Cell_NaN
      | _ \<Rightarrow> c)"

definition adjustLogRange :: "min_max \<Rightarrow> nat \<Rightarrow> min_max" where
  "adjustLogRange minMax logBase =
     (let lo = log_power logBase floor_log (fst minMax); hi = log_power logBase ceil_log (snd minMax)
      in (lo, case hi of Cell v \<Rightarrow> if lo = hi then Cell (v * of_nat logBase) else hi | _ \<Rightarrow> hi))"

definition applyHardLimits :: "min_max \<Rightarrow> range_params \<Rightarrow> nat \<Rightarrow> min_max" where
  "applyHardLimits minMax params distr =
     (if distr \<noteq> 1 then minMax
      else (if rp_hardMinOnly params \<and> rp_min params \<noteq> None then number_or_null (rp_min params) else fst minMax,
            if rp_hardMaxOnly params \<and> rp_max params \<noteq> None then number_or_null (rp_max params) else snd minMax))"

definition enforceValidRange :: "min_max \<Rightarrow> nat \<Rightarrow> min_max" where
  "enforceValidRange minMax distr =
     (case minMax of
        (Cell lo, Cell hi) \<Rightarrow> if hi \<le> lo then (Cell (if distr = 3 then 1 else 0), Cell 100) else minMax
      | _ \<Rightarrow> minMax)"

text \<open>
  The function gets the distribution and base of its scale from the plot. The base of \<open>adjustLogRange\<close>
  is that of the scale; its logarithm is binary when the base is 2 and decimal otherwise.
\<close>

definition createRangeFunction ::
    "uplot_ranges \<Rightarrow> range_params \<Rightarrow> nat \<times> nat option \<Rightarrow> rat option \<Rightarrow> rat option \<Rightarrow> min_max" where
  "createRangeFunction u params scale dataMin dataMax =
     (case getInitialMinMax dataMin dataMax (rp_hasFixedRange params) of
        None \<Rightarrow> (number_or_null dataMin, number_or_null dataMax)
      | Some minMax \<Rightarrow>
          let distr = fst scale; logBase = snd scale;
              minMax = (if distr = 1 then getLinearScaleRange u minMax params dataMin dataMax
                        else if distr = 3
                        then adjustLogRange (getLogScaleRange u minMax params dataMin dataMax logBase)
                               (case logBase of Some b \<Rightarrow> b | None \<Rightarrow> 10)
                        else minMax)
          in enforceValidRange (applyHardLimits minMax params distr) distr)"

section \<open>The builder of a scale\<close>

text \<open>\<open>sc_softMin\<close> and its companions are the private fields, which a merge changes.\<close>

record scale_props =
  sc_time :: bool
  sc_thresholds :: "(threshold list \<times> string option) option"
  sc_padMinBy :: "rat option"
  sc_padMaxBy :: "rat option"
  sc_has_range :: bool
  sc_auto :: "bool option"
  sc_logBase :: "nat option"
  sc_distribution :: "distribution option"
  sc_min :: "rat option"
  sc_max :: "rat option"
  sc_softMin :: "rat option"
  sc_softMax :: "rat option"

text \<open>A new widget has both soft limits 0, which count as none.\<close>

definition new_scale_builder :: "scale_props \<Rightarrow> scale_props" where
  "new_scale_builder props =
     (if sc_softMin props = Some 0 \<and> sc_softMax props = Some 0 then props\<lparr>sc_softMin := None, sc_softMax := None\<rparr> else props)"

text \<open>A merge names the properties it sets; the two limits of a new widget are not special here.\<close>

record scale_update =
  mg_time :: "bool option"
  mg_thresholds :: "(threshold list \<times> string option) option"
  mg_padMinBy :: "rat option"
  mg_padMaxBy :: "rat option"
  mg_has_range :: bool
  mg_auto :: "bool option"
  mg_logBase :: "nat option"
  mg_distribution :: "distribution option"
  mg_min :: "rat option"
  mg_max :: "rat option"
  mg_softMin :: "rat option"
  mg_softMax :: "rat option"

definition merge_scale :: "scale_update \<Rightarrow> scale_props \<Rightarrow> scale_props" where
  "merge_scale props b =
     \<lparr>sc_time = (case mg_time props of Some t \<Rightarrow> t | None \<Rightarrow> sc_time b),
      sc_thresholds = or_null (mg_thresholds props) (sc_thresholds b),
      sc_padMinBy = or_null (mg_padMinBy props) (sc_padMinBy b),
      sc_padMaxBy = or_null (mg_padMaxBy props) (sc_padMaxBy b),
      sc_has_range = (mg_has_range props \<or> sc_has_range b),
      sc_auto = or_null (mg_auto props) (sc_auto b),
      sc_logBase = or_null (mg_logBase props) (sc_logBase b),
      sc_distribution = or_null (mg_distribution props) (sc_distribution b),
      sc_min = or_null (mg_min props) (sc_min b), sc_max = or_null (mg_max props) (sc_max b),
      sc_softMin = or_null (mg_softMin props) (sc_softMin b), sc_softMax = or_null (mg_softMax props) (sc_softMax b)\<rparr>"

datatype scale_range = Time_Range rat int | Own_Range | Range_Function range_params

record scale_config =
  sg_time :: bool
  sg_auto :: bool
  sg_range :: scale_range
  sg_distr :: "(nat \<times> nat) option"

text \<open>The clock is in milliseconds; the fallback is the last day, in seconds.\<close>

definition getFallbackMinMaxTimeStamp :: "int \<Rightarrow> rat \<times> rat" where
  "getFallbackMinMaxTimeStamp now = (of_int ((now - 86400000) div 1000), of_int (now div 1000))"

text \<open>The minute before the end; \<open>new Date\<close> drops fractions of a millisecond.\<close>

definition truncate_rat :: "rat \<Rightarrow> int" where
  "truncate_rat v = (if 0 \<le> v then \<lfloor>v\<rfloor> else \<lceil>v\<rceil>)"

definition aligned_end :: "rat \<Rightarrow> int" where
  "aligned_end maxTime = truncate_rat ((maxTime - 60) * 1000) div 60000 * 60"

definition truthy_rat :: "rat option \<Rightarrow> bool" where
  "truthy_rat v = (case v of Some x \<Rightarrow> x \<noteq> 0 | None \<Rightarrow> False)"

definition getConfig :: "int \<Rightarrow> scale_props \<Rightarrow> scale_config" where
  "getConfig now b =
     (if sc_time b then
        let (minTime, maxTime) =
              (if \<not> truthy_rat (sc_min b) \<or> \<not> truthy_rat (sc_max b) then getFallbackMinMaxTimeStamp now
               else (the (sc_min b), the (sc_max b)))
        in \<lparr>sg_time = True, sg_auto = False, sg_range = Time_Range minTime (aligned_end maxTime), sg_distr = None\<rparr>
      else
        let distr = sc_distribution b;
            logBase = (case sc_logBase b of Some n \<Rightarrow> n | None \<Rightarrow> 10);
            (softMin, softMax) = (case sc_thresholds b of
                Some (ts, unit) \<Rightarrow> adjustSoftLimitsWithThresholds (sc_softMin b) (sc_softMax b) ts unit
              | None \<Rightarrow> (sc_softMin b, sc_softMax b));
            l = normalizeLogScaleLimits distr logBase
                  \<lparr>lm_min = sc_min b, lm_max = sc_max b, lm_softMin = softMin, lm_softMax = softMax\<rparr>;
            params = getRangeConfig (lm_min l) (lm_max l) (lm_softMin l) (lm_softMax l)
                       (case sc_padMinBy b of Some p \<Rightarrow> p | None \<Rightarrow> 0) (case sc_padMaxBy b of Some p \<Rightarrow> p | None \<Rightarrow> 1 / 20)
        in \<lparr>sg_time = False,
            sg_auto = (case sc_auto b of Some a \<Rightarrow> a | None \<Rightarrow> \<not> rp_hasFixedRange params),
            sg_range = (if sc_has_range b then Own_Range else Range_Function params),
            sg_distr = getDistributionConfig False distr (Some logBase)\<rparr>)"

section \<open>The panel\<close>

text \<open>Each value in the unit of display; a unit that cannot be converted leaves the value.\<close>

definition prepareChartData :: "panel_series list \<Rightarrow> string option \<Rightarrow> string option \<Rightarrow> aligned" where
  "prepareChartData seriesList resultUnit displayUnit =
     (let timestampArr = getXAxisTimestamps seriesList;
          show = (\<lambda>c. case c of
              Cell v \<Rightarrow> if \<not> truthy_str resultUnit \<or> \<not> truthy_str displayUnit then c
                        else (case convertValue v resultUnit displayUnit of Some w \<Rightarrow> Cell w | None \<Rightarrow> c)
            | _ \<Rightarrow> c)
      in (timestampArr, map (map show) (fillMissingXAxisTimestamps timestampArr seriesList)))"

text \<open>At most one point that can be drawn; the loop stops at the second one.\<close>

fun valid_points_at_most :: "nat \<Rightarrow> panel_series \<Rightarrow> bool" where
  "valid_points_at_most n [] = True"
| "valid_points_at_most n ((t, v) # ps) =
     (if isInvalidPlotValue v then valid_points_at_most n ps
      else case n of 0 \<Rightarrow> False | Suc k \<Rightarrow> valid_points_at_most k ps)"

definition hasSingleVisiblePointForSeries :: "panel_series \<Rightarrow> bool" where
  "hasSingleVisiblePointForSeries values = valid_points_at_most 1 values"

section \<open>Thresholds stay in view\<close>

lemma fold_widen:
  "fold widen vs (Some lo, Some hi) = (Some (fold min vs lo), Some (fold max vs hi))"
proof (induction vs arbitrary: lo hi)
  case Nil
  then show ?case by simp
next
  case (Cons v vs)
  have "widen v (Some lo, Some hi) = (Some (min v lo), Some (max v hi))" by (simp add: widen_def min_def max_def)
  with Cons show ?case by simp
qed

lemma fold_min_le: "fold min vs lo \<le> lo \<and> (\<forall>v\<in>set vs. fold min vs lo \<le> v)" for lo :: rat
  by (induction vs arbitrary: lo) (simp_all, meson min.boundedE)

lemma fold_max_ge: "hi \<le> fold max vs hi \<and> (\<forall>v\<in>set vs. v \<le> fold max vs hi)" for hi :: rat
  by (induction vs arbitrary: hi) (simp_all, meson max.boundedE)

definition shown_thresholds :: "threshold list \<Rightarrow> string option \<Rightarrow> rat list" where
  "shown_thresholds thresholds yAxisUnit =
     concat (map (\<lambda>t. case threshold_value yAxisUnit t of Some v \<Rightarrow> [v] | None \<Rightarrow> []) thresholds)"

lemma findMinMax_fold: "findMinMaxThresholdValues thresholds unit = fold widen (shown_thresholds thresholds unit) (None, None)"
proof -
  have "fold (\<lambda>t m. case threshold_value unit t of None \<Rightarrow> m | Some v \<Rightarrow> widen v m) ts m =
      fold widen (shown_thresholds ts unit) m" for ts m
    by (induction ts arbitrary: m) (auto simp: shown_thresholds_def split: option.split)
  then show ?thesis by (simp add: findMinMaxThresholdValues_def)
qed

text \<open>C29. The soft limits of a scale enclose every threshold that can be shown in its unit, and the limits asked for.\<close>

theorem thresholds_in_view:
  assumes "t \<in> set thresholds" and "threshold_value unit t = Some v"
  shows "\<exists>lo hi. adjustSoftLimitsWithThresholds softMin softMax thresholds unit = (Some lo, Some hi) \<and>
    lo \<le> v \<and> v \<le> hi \<and> (\<forall>s. softMin = Some s \<longrightarrow> lo \<le> s) \<and> (\<forall>s. softMax = Some s \<longrightarrow> s \<le> hi)"
proof -
  have v: "v \<in> set (shown_thresholds thresholds unit)" using assms by (force simp: shown_thresholds_def)
  then obtain w vs where vs: "shown_thresholds thresholds unit = w # vs" by (cases "shown_thresholds thresholds unit") auto
  have "widen w (None, None) = (Some w, Some w)" by (simp add: widen_def)
  then have limits: "findMinMaxThresholdValues thresholds unit = (Some (fold min vs w), Some (fold max vs w))"
    by (simp add: findMinMax_fold vs fold_widen)
  have "fold min vs w \<le> v" "v \<le> fold max vs w"
    using v fold_min_le [of vs w] fold_max_ge [of w vs] by (auto simp: vs)
  moreover have "thresholds \<noteq> []" using assms(1) by auto
  ultimately show ?thesis
    by (cases softMin; cases softMax) (auto simp: adjustSoftLimitsWithThresholds_def limits min_def max_def)
qed

section \<open>Powers around a number\<close>

lemma floor_log_above_bounds:
  assumes "2 \<le> b" and "1 \<le> v"
  shows "of_nat b ^ floor_log_above b v \<le> v" "v < of_nat b ^ Suc (floor_log_above b v)"
proof -
  define n where "n = nat \<lfloor>v\<rfloor>"
  have n: "0 < n" using assms(2) by (simp add: n_def)
  have v: "of_nat n \<le> v" "v < of_nat n + 1" using assms(2) floor_correct [of v] by (simp_all add: n_def of_nat_nat)
  have pow: "b ^ (floorlog b n - 1) \<le> n" "n < b ^ floorlog b n"
    using floorlog_bounds [OF n, of b] assms(1) by auto
  have "0 < floorlog b n" using n assms(1) by (simp add: floorlog_def)
  then have suc: "Suc (floor_log_above b v) = floorlog b n" by (simp add: floor_log_above_def n_def)
  have "(of_nat b :: rat) ^ floor_log_above b v = of_nat (b ^ (floorlog b n - 1))"
    by (simp add: floor_log_above_def n_def)
  also have "\<dots> \<le> of_nat n" using pow(1) by (simp only: of_nat_le_iff)
  finally show "of_nat b ^ floor_log_above b v \<le> v" using v(1) by (rule order_trans)
  have "(of_nat n :: rat) + 1 \<le> of_nat (b ^ floorlog b n)" using pow(2) by (metis Suc_leI of_nat_Suc of_nat_le_iff add.commute)
  then show "v < of_nat b ^ Suc (floor_log_above b v)" using v unfolding suc by simp
qed

lemma floor_log_bounds:
  assumes "2 \<le> b" and "0 < v"
  shows "power_int_of b (floor_log b v) \<le> v" "v < power_int_of b (floor_log b v + 1)"
proof -
  have b: "(0 :: rat) < of_nat b" using assms(1) by simp
  have both: "power_int_of b (floor_log b v) \<le> v \<and> v < power_int_of b (floor_log b v + 1)"
  proof (cases "1 \<le> v")
    case True
    have nat: "power_int_of b (int n) = of_nat b ^ n" for n by (simp add: power_int_of_def)
    have "floor_log b v = int (floor_log_above b v)" "floor_log b v + 1 = int (Suc (floor_log_above b v))"
      using True by (simp_all add: floor_log_def)
    with floor_log_above_bounds [OF assms(1) True] show ?thesis by (simp only: nat)
  next
    case False
    let ?e = "floor_log_above b (1 / v)"
    have above: "of_nat b ^ ?e \<le> 1 / v" "1 / v < of_nat b ^ Suc ?e"
      using floor_log_above_bounds [OF assms(1), of "1 / v"] False assms(2) by simp_all
    have inv: "power_int_of b (- int n) = 1 / of_nat b ^ n" for n
      by (simp add: power_int_of_def power_int_minus divide_simps)
    show ?thesis
    proof (cases "of_nat b ^ ?e = 1 / v")
      case True
      have "power_int_of b (- int ?e + 1) = of_nat b * power_int_of b (- int ?e)"
        using b unfolding power_int_of_def by (subst power_int_add) simp_all
      moreover have "1 < (of_nat b :: rat)" using assms(1) by simp
      moreover have "power_int_of b (- int ?e) = v" by (simp add: inv True)
      ultimately show ?thesis using \<open>\<not> 1 \<le> v\<close> True assms(2) by (simp add: floor_log_def Let_def)
    next
      case False
      have log: "floor_log b v = - int (Suc ?e)" using False \<open>\<not> 1 \<le> v\<close> by (simp add: floor_log_def Let_def)
      have pos: "(0 :: rat) < of_nat b ^ ?e" "(0 :: rat) < of_nat b ^ Suc ?e" using b by simp_all
      have "of_nat b ^ ?e < 1 / v" using above(1) False by (rule le_neq_trans)
      then have "v < 1 / of_nat b ^ ?e" by (simp only: less_divide_eq pos assms(2) if_True) (simp only: mult.commute)
      moreover have "1 / of_nat b ^ Suc ?e < v"
        using above(2) by (simp only: divide_less_eq pos assms(2) if_True) (simp only: mult.commute)
      moreover have "floor_log b v + 1 = - int ?e" by (simp add: log)
      ultimately show ?thesis by (simp only: log inv) simp
    qed
  qed
  then show "power_int_of b (floor_log b v) \<le> v" "v < power_int_of b (floor_log b v + 1)" by auto
qed

lemma ceil_log_bounds:
  assumes "2 \<le> b" and "0 < v"
  shows "v \<le> power_int_of b (ceil_log b v)" "power_int_of b (ceil_log b v - 1) < v"
proof -
  let ?f = "floor_log b (1 / v)"
  have b: "(0 :: rat) < of_nat b" using assms(1) by simp
  have inv: "power_int_of b (- e) = 1 / power_int_of b e" for e
    by (simp add: power_int_of_def power_int_minus divide_simps)
  have pos: "0 < power_int_of b e" for e using b by (simp add: power_int_of_def)
  note bounds = floor_log_bounds [OF assms(1), of "1 / v"]
  have "v \<le> 1 / power_int_of b ?f"
    using bounds(1) assms(2) pos [of ?f] by (simp add: field_simps)
  then show "v \<le> power_int_of b (ceil_log b v)" by (simp add: ceil_log_def inv)
  have "1 / power_int_of b (?f + 1) < v"
    using bounds(2) assms(2) pos [of "?f + 1"] by (simp add: field_simps)
  moreover have "ceil_log b v - 1 = - (?f + 1)" by (simp add: ceil_log_def)
  ultimately show "power_int_of b (ceil_log b v - 1) < v" by (simp only: inv)
qed

text \<open>On a logarithmic scale positive limits move outward to powers of the base, by less than one factor.\<close>

theorem log_limits_widen:
  assumes "2 \<le> b" and "0 < v"
  shows "\<exists>lo hi. normalizeLogLimit (Some v) b floor_log = Some lo \<and> normalizeLogLimit (Some v) b ceil_log = Some hi \<and>
    lo \<le> v \<and> v < lo * of_nat b \<and> v \<le> hi \<and> hi < v * of_nat b"
proof -
  have b: "(0 :: rat) < of_nat b" using assms(1) by simp
  have up: "power_int_of b (floor_log b v + 1) = power_int_of b (floor_log b v) * of_nat b"
    using b by (simp add: power_int_of_def power_int_add)
  have "power_int_of b (ceil_log b v - 1 + 1) = power_int_of b (ceil_log b v - 1) * of_nat b"
    using b unfolding power_int_of_def by (subst power_int_add) simp_all
  then have "power_int_of b (ceil_log b v) < v * of_nat b"
    using mult_strict_right_mono [OF ceil_log_bounds(2) [OF assms] b] by simp
  with floor_log_bounds [OF assms] ceil_log_bounds(1) [OF assms] up assms(2) show ?thesis
    by (simp add: normalizeLogLimit_def)
qed

section \<open>The range is valid\<close>

text \<open>The range of a scale is never empty or reversed, whatever the data and whatever uPlot proposes.\<close>

theorem range_not_reversed:
  assumes "createRangeFunction u params scale dataMin dataMax = (Cell lo, Cell hi)"
  shows "lo < hi"
proof -
  have "lo < hi" if "enforceValidRange m d = (Cell lo, Cell hi)" for m d
    using that by (auto simp: enforceValidRange_def split: prod.splits cell.splits if_splits)
  with assms show ?thesis
    by (auto simp: createRangeFunction_def Let_def getInitialMinMax_def number_or_null_def split: if_splits option.splits)
qed

text \<open>On a linear scale two fixed limits are the range, whatever the data.\<close>

lemma fixed_range_shown:
  assumes "mn < mx"
  shows "createRangeFunction u (getRangeConfig (Some mn) (Some mx) None None padMin padMax) (1, base) dataMin dataMax =
    (Cell mn, Cell mx)"
  using assms
  by (simp add: createRangeFunction_def getInitialMinMax_def getRangeConfig_def applyHardLimits_def number_or_null_def
      enforceValidRange_def Let_def)

section \<open>The end of the time axis\<close>

lemma aligned_end_bounds:
  assumes "60 \<le> t"
  shows "of_int (aligned_end t) \<le> t - 60" "t - 120 < of_int (aligned_end t)"
proof -
  define ms where "ms = \<lfloor>(t - 60) * 1000\<rfloor>"
  have aligned: "aligned_end t = ms div 60000 * 60" using assms by (simp add: aligned_end_def truncate_rat_def ms_def)
  have ms: "of_int ms \<le> (t - 60) * 1000" "(t - 60) * 1000 < of_int ms + 1" unfolding ms_def by linarith+
  have "ms div 60000 * 60000 \<le> ms" "ms < ms div 60000 * 60000 + 60000"
    by (simp_all add: minus_mod_eq_div_mult [symmetric] algebra_simps)
  then have "ms div 60000 * 60 * 1000 \<le> ms" "ms + 1 \<le> ms div 60000 * 60 * 1000 + 60000" by simp_all
  then have "of_int (ms div 60000 * 60 * 1000) \<le> (of_int ms :: rat)"
    "(of_int (ms + 1) :: rat) \<le> of_int (ms div 60000 * 60 * 1000 + 60000)" by (simp_all only: of_int_le_iff)
  with ms show "of_int (aligned_end t) \<le> t - 60" "t - 120 < of_int (aligned_end t)"
    unfolding aligned by simp_all
qed

text \<open>A time range of a minute or less is reversed.\<close>

lemma short_range_reversed:
  assumes "0 < a" and "a < e" and "e \<le> a + 60" and "60 \<le> e" and "sc_time b" and "sc_min b = Some a" and "sc_max b = Some e"
  shows "\<exists>m. sg_range (getConfig now b) = Time_Range a m \<and> of_int m \<le> a"
proof -
  have "sg_range (getConfig now b) = Time_Range a (aligned_end e)"
    using assms by (simp add: getConfig_def truthy_rat_def)
  moreover have "of_int (aligned_end e) \<le> a" using aligned_end_bounds(1) [OF assms(4)] assms(3) by simp
  ultimately show ?thesis by blast
qed

section \<open>Concrete instances\<close>

theorem thresholds_in_view_witness:
  "\<exists>lo hi. adjustSoftLimitsWithThresholds (Some 10) None [\<lparr>th_value = Some 2, th_unit = Some ''s''\<rparr>] (Some ''ms'') =
      (Some lo, Some hi) \<and> lo \<le> 2000 \<and> 2000 \<le> hi \<and> (\<forall>s. Some 10 = Some s \<longrightarrow> lo \<le> s) \<and>
      (\<forall>s. None = Some s \<longrightarrow> s \<le> hi)"
proof (rule thresholds_in_view [of "\<lparr>th_value = Some 2, th_unit = Some ''s''\<rparr>"])
  show "threshold_value (Some ''ms'') \<lparr>th_value = Some 2, th_unit = Some ''s''\<rparr> = Some 2000" by code_simp
qed simp

theorem log_limits_widen_witness:
  "\<exists>lo hi. normalizeLogLimit (Some 250) 10 floor_log = Some lo \<and> normalizeLogLimit (Some 250) 10 ceil_log = Some hi \<and>
    lo \<le> 250 \<and> 250 < lo * of_nat 10 \<and> 250 \<le> hi \<and> hi < 250 * of_nat 10"
  by (rule log_limits_widen) simp_all

lemma log_limits_250:
  "normalizeLogLimit (Some 250) 10 floor_log = Some 100" "normalizeLogLimit (Some 250) 10 ceil_log = Some 1000"
  by code_simp+

lemma log_limits_fraction:
  "normalizeLogLimit (Some (1 / 3)) 2 floor_log = Some (1 / 4)" "normalizeLogLimit (Some (1 / 3)) 2 ceil_log = Some (1 / 2)"
  by code_simp+

section \<open>Lone points\<close>

text \<open>A series is drawn as a point exactly when at most one of its values can be drawn.\<close>

lemma valid_points_count:
  "valid_points_at_most n ps \<longleftrightarrow> length (filter (\<lambda>p. \<not> isInvalidPlotValue (snd p)) ps) \<le> n"
  by (induction n ps rule: valid_points_at_most.induct) (auto split: nat.split)

lemma single_point_series:
  "hasSingleVisiblePointForSeries ps \<longleftrightarrow> length (filter (\<lambda>p. \<not> isInvalidPlotValue (snd p)) ps) \<le> 1"
  by (simp add: hasSingleVisiblePointForSeries_def valid_points_count)

end
