(* ===== verification/Series_Visibility.thy ===== *)
theory Series_Visibility
  imports Prelude
begin

text \<open>
  Which series of a chart are shown: what \<^verbatim>\<open>panels/utils/legendVisibilityUtils.ts\<close> keeps in the browser,
  how \<^verbatim>\<open>lib/uPlotV2/config/UPlotConfigBuilder.ts\<close> and \<^verbatim>\<open>lib/uPlotV2/utils/seriesVisibility.ts\<close> apply it, the
  toggles of \<^verbatim>\<open>lib/uPlotV2/context/PlotContext.tsx\<close>, and the legend that follows the plot
  (\<^verbatim>\<open>lib/uPlotV2/hooks/useLegendsSync.ts\<close>, \<^verbatim>\<open>useLegendActions.ts\<close>). A step of the session is one event of the
  browser: a click, a mouse move, an animation frame, a new configuration.
\<close>

section \<open>What the browser keeps\<close>

text \<open>
  The shown series of every widget. \<open>No_Item\<close> is an absent or empty text, \<open>Not_Json\<close> one that
  \<open>JSON.parse\<close> rejects. A write that throws leaves the store; it is the last action of its handler.
\<close>

type_synonym item = "string \<times> bool"

datatype visibility_store = No_Item | Not_Json | States "(string \<times> item list) list"

definition getStoredSeriesVisibility :: "string \<Rightarrow> visibility_store \<Rightarrow> item list option \<times> visibility_store" where
  "getStoredSeriesVisibility widgetId st =
     (case st of
        No_Item \<Rightarrow> (None, st)
      | Not_Json \<Rightarrow> (None, No_Item)
      | States states \<Rightarrow>
          (case js_find (\<lambda>p. fst p = widgetId) states of
             Some p \<Rightarrow> if snd p = [] then (None, st) else (Some (snd p), st)
           | None \<Rightarrow> (None, st)))"

definition updateSeriesVisibilityToLocalStorage ::
    "((string \<times> item list) list \<Rightarrow> bool) \<Rightarrow> string \<Rightarrow> item list \<Rightarrow> visibility_store \<Rightarrow> visibility_store" where
  "updateSeriesVisibilityToLocalStorage fits widgetId seriesVisibility st =
     (let states = map_set widgetId seriesVisibility (case st of States states \<Rightarrow> states | _ \<Rightarrow> [])
      in if fits states then States states else st)"

section \<open>How it is applied\<close>

record config_series =
  vs_label :: "string option"
  vs_show :: "bool option"

record legend_config =
  lc_id :: string
  lc_local :: bool
  lc_save :: bool
  lc_series :: "config_series list"

definition series_label :: "config_series \<Rightarrow> string" where
  "series_label s = (case vs_label s of Some l \<Rightarrow> l | None \<Rightarrow> [])"

definition getStoredVisibility :: "legend_config \<Rightarrow> visibility_store \<Rightarrow> item list option \<times> visibility_store" where
  "getStoredVisibility c st = (if lc_id c \<noteq> [] \<and> lc_local c then getStoredSeriesVisibility (lc_id c) st else (None, st))"

record visibility_resolution =
  vr_visible :: "string set"
  vr_hidden :: "string set"
  vr_active :: bool

text \<open>One stored entry; the two flags tell whether an entry was visible or hidden.\<close>

definition note_item ::
    "item \<Rightarrow> (string set \<times> string set) \<times> bool \<times> bool \<Rightarrow> (string set \<times> string set) \<times> bool \<times> bool" where
  "note_item it acc =
     (let ((vis, hid), anyVisible, anyHidden) = acc; label = fst it
      in if snd it then ((insert label vis, hid - {label}), True, anyHidden)
         else ((vis, if label \<in> vis then hid else insert label hid), anyVisible, True))"

definition getVisibilityResolutionState :: "config_series list \<Rightarrow> item list option \<Rightarrow> visibility_resolution" where
  "getVisibilityResolutionState series stored =
     (case stored of
        None \<Rightarrow> \<lparr>vr_visible = {}, vr_hidden = {}, vr_active = False\<rparr>
      | Some [] \<Rightarrow> \<lparr>vr_visible = {}, vr_hidden = {}, vr_active = False\<rparr>
      | Some items \<Rightarrow>
          let ((vis, hid), anyVisible, anyHidden) = fold note_item items (({}, {}), False, False);
              hasMix = (anyVisible \<and> anyHidden);
              hasActivePreference = (hasMix \<and> list_ex (\<lambda>s. series_label s \<in> vis) series)
          in if \<not> hasMix \<or> hasActivePreference
             then \<lparr>vr_visible = vis, vr_hidden = hid, vr_active = hasActivePreference\<rparr>
             else \<lparr>vr_visible = {}, vr_hidden = {}, vr_active = hasActivePreference\<rparr>)"

definition resolveSeriesVisibility :: "bool option \<Rightarrow> string \<Rightarrow> visibility_resolution \<Rightarrow> bool" where
  "resolveSeriesVisibility seriesShow label r =
     (if label \<in> vr_visible r then True
      else if label \<in> vr_hidden r then False
      else if vr_active r then False
      else (case seriesShow of Some b \<Rightarrow> b | None \<Rightarrow> True))"

text \<open>The legend has one item per series, the first at index 1; the plot has the time axis before them.\<close>

definition resolved_items :: "legend_config \<Rightarrow> item list option \<Rightarrow> item list" where
  "resolved_items c stored =
     map (\<lambda>s. (series_label s, resolveSeriesVisibility (vs_show s) (series_label s)
                                 (getVisibilityResolutionState (lc_series c) stored))) (lc_series c)"

definition getLegendItems :: "legend_config \<Rightarrow> visibility_store \<Rightarrow> item list" where
  "getLegendItems c st = resolved_items c (fst (getStoredVisibility c st))"

definition config_items :: "legend_config \<Rightarrow> visibility_store \<Rightarrow> item list" where
  "config_items c st = (''Timestamp'', True) # resolved_items c (fst (getStoredVisibility c st))"

section \<open>The session of one chart\<close>

record plot_context =
  pc_plot :: "item list option"
  pc_id :: "string option"
  pc_active :: "nat option"
  pc_save :: bool

text \<open>
  The context of the plot, the store, the legend, the updates of visibility that wait for the next
  frame, and the focus: that of the legend, the one that waits for a frame, and that of the plot.
\<close>

record legend_session =
  ls_context :: plot_context
  ls_store :: visibility_store
  ls_legend :: "item list"
  ls_updates :: "(nat \<times> bool) list"
  ls_frame :: bool
  ls_focused :: "nat option"
  ls_focus_frame :: "nat option option"
  ls_plot_focus :: "nat option"

definition setPlotContextInitialState ::
    "item list option \<Rightarrow> string option \<Rightarrow> bool \<Rightarrow> legend_session \<Rightarrow> legend_session" where
  "setPlotContextInitialState plot ident save s =
     s\<lparr>ls_context := \<lparr>pc_plot = plot, pc_id = ident, pc_active = None, pc_save = save\<rparr>\<rparr>"

definition has_id :: "legend_session \<Rightarrow> bool" where
  "has_id s \<longleftrightarrow> truthy_str (pc_id (ls_context s))"

subsection \<open>The legend follows the plot\<close>

definition queueVisibilityUpdate :: "nat \<Rightarrow> bool \<Rightarrow> legend_session \<Rightarrow> legend_session" where
  "queueVisibilityUpdate seriesIndex b s = s\<lparr>ls_updates := map_set seriesIndex b (ls_updates s), ls_frame := True\<rparr>"

text \<open>The legend keeps one entry per index; an update of an index it does not have is skipped.\<close>

definition apply_update :: "nat \<times> bool \<Rightarrow> item list \<Rightarrow> item list" where
  "apply_update u items =
     (case fst u of 0 \<Rightarrow> items
      | Suc i \<Rightarrow> if i < length items \<and> snd (items ! i) \<noteq> snd u then items[i := (fst (items ! i), snd u)] else items)"

definition applyVisibilityUpdates :: "(nat \<times> bool) list \<Rightarrow> item list \<Rightarrow> item list" where
  "applyVisibilityUpdates updates items = fold apply_update updates items"

definition visibility_frame :: "legend_session \<Rightarrow> legend_session" where
  "visibility_frame s =
     (if ls_frame s
      then s\<lparr>ls_legend := applyVisibilityUpdates (ls_updates s) (ls_legend s), ls_updates := [], ls_frame := False\<rparr>
      else s)"

text \<open>uPlot changes the series and runs the hook, which queues the update.\<close>

definition set_series_show :: "nat \<Rightarrow> bool \<Rightarrow> legend_session \<Rightarrow> legend_session" where
  "set_series_show i b s =
     (let s = s\<lparr>ls_context := (ls_context s)\<lparr>pc_plot :=
               map_option (\<lambda>items. items[i := (fst (items ! i), b)]) (pc_plot (ls_context s))\<rparr>\<rparr>
      in if i = 0 then s else queueVisibilityUpdate i b s)"

definition handle_focus :: "bool \<Rightarrow> nat option \<Rightarrow> legend_session \<Rightarrow> legend_session" where
  "handle_focus subscribeToFocusChange i s = (if subscribeToFocusChange then s\<lparr>ls_focused := i\<rparr> else s)"

subsection \<open>The operations of the context\<close>

definition syncSeriesVisibilityToLocalStorage ::
    "((string \<times> item list) list \<Rightarrow> bool) \<Rightarrow> legend_session \<Rightarrow> legend_session" where
  "syncSeriesVisibilityToLocalStorage fits s =
     (case pc_plot (ls_context s) of
        Some items \<Rightarrow>
          if has_id s
          then s\<lparr>ls_store := updateSeriesVisibilityToLocalStorage fits (the (pc_id (ls_context s))) items (ls_store s)\<rparr>
          else s
      | None \<Rightarrow> s)"

definition sync_if_saved :: "((string \<times> item list) list \<Rightarrow> bool) \<Rightarrow> legend_session \<Rightarrow> legend_session" where
  "sync_if_saved fits s =
     (if has_id s \<and> pc_save (ls_context s) then syncSeriesVisibilityToLocalStorage fits s else s)"

definition onToggleSeriesVisibility ::
    "((string \<times> item list) list \<Rightarrow> bool) \<Rightarrow> nat \<Rightarrow> legend_session \<Rightarrow> legend_session" where
  "onToggleSeriesVisibility fits seriesIndex s =
     (case pc_plot (ls_context s) of
        None \<Rightarrow> s
      | Some items \<Rightarrow>
          let isReset = (pc_active (ls_context s) = Some seriesIndex);
              s = s\<lparr>ls_context := (ls_context s)\<lparr>pc_active := (if isReset then None else Some seriesIndex)\<rparr>\<rparr>;
              s = fold (\<lambda>i. set_series_show i (isReset \<or> i = seriesIndex)) [1..<length items] s
          in sync_if_saved fits s)"

definition onToggleSeriesOnOff ::
    "((string \<times> item list) list \<Rightarrow> bool) \<Rightarrow> nat \<Rightarrow> legend_session \<Rightarrow> legend_session" where
  "onToggleSeriesOnOff fits seriesIndex s =
     (case pc_plot (ls_context s) of
        None \<Rightarrow> s
      | Some items \<Rightarrow>
          if seriesIndex < length items
          then sync_if_saved fits (set_series_show seriesIndex (\<not> snd (items ! seriesIndex)) s)
          else s)"

text \<open>The focus is set without running the hooks.\<close>

definition onFocusSeriesPlot :: "nat option \<Rightarrow> legend_session \<Rightarrow> legend_session" where
  "onFocusSeriesPlot i s = (if pc_plot (ls_context s) = None then s else s\<lparr>ls_plot_focus := i\<rparr>)"

subsection \<open>The events of the legend\<close>

definition onLegendClick ::
    "((string \<times> item list) list \<Rightarrow> bool) \<Rightarrow> nat option \<Rightarrow> bool \<Rightarrow> legend_session \<Rightarrow> legend_session" where
  "onLegendClick fits legendItem isLegendMarker s =
     (case legendItem of
        None \<Rightarrow> s
      | Some i \<Rightarrow> if isLegendMarker then onToggleSeriesOnOff fits i s else onToggleSeriesVisibility fits i s)"

definition onFocusSeries :: "nat option \<Rightarrow> legend_session \<Rightarrow> legend_session" where
  "onFocusSeries i s = s\<lparr>ls_focus_frame := Some i\<rparr>"

definition focus_frame :: "legend_session \<Rightarrow> legend_session" where
  "focus_frame s =
     (case ls_focus_frame s of
        None \<Rightarrow> s
      | Some i \<Rightarrow> onFocusSeriesPlot i (s\<lparr>ls_focus_frame := None, ls_focused := i\<rparr>))"

definition onLegendMouseMove :: "nat option \<Rightarrow> legend_session \<Rightarrow> legend_session" where
  "onLegendMouseMove i s = (if i = ls_focused s then s else onFocusSeries i s)"

definition onLegendMouseLeave :: "legend_session \<Rightarrow> legend_session" where
  "onLegendMouseLeave s = onFocusSeries None (s\<lparr>ls_focus_frame := None, ls_focused := None\<rparr>)"

datatype legend_event =
    Click "nat option" bool | Save | Frame | Move "nat option" | Leave | Focus_Frame | Plot_Focus "nat option"
  | New_Config legend_config

text \<open>A new configuration makes a new legend and a new plot; the updates that wait for a frame stay.\<close>

definition legend_event :: "((string \<times> item list) list \<Rightarrow> bool) \<Rightarrow> legend_event \<Rightarrow> legend_session \<Rightarrow> legend_session" where
  "legend_event fits e s =
     (case e of
        Click i marker \<Rightarrow> onLegendClick fits i marker s
      | Save \<Rightarrow> syncSeriesVisibilityToLocalStorage fits s
      | Frame \<Rightarrow> visibility_frame s
      | Move i \<Rightarrow> onLegendMouseMove i s
      | Leave \<Rightarrow> onLegendMouseLeave s
      | Focus_Frame \<Rightarrow> focus_frame s
      | Plot_Focus i \<Rightarrow> handle_focus True i (s\<lparr>ls_plot_focus := i\<rparr>)
      | New_Config c \<Rightarrow>
          let s = s\<lparr>ls_legend := getLegendItems c (ls_store s), ls_store := snd (getStoredVisibility c (ls_store s))\<rparr>
          in (setPlotContextInitialState (Some (config_items c (ls_store s))) (Some (lc_id c)) (lc_save c) s)
               \<lparr>ls_plot_focus := None\<rparr>)"

section \<open>The legend shows what the plot shows\<close>

lemma apply_update_zero [simp]: "apply_update (0, b) items = items"
  by (simp add: apply_update_def)

lemma apply_update_Suc [simp]: "apply_update (Suc i, b) items = items[i := (fst (items ! i), b)]"
proof (cases "i < length items \<and> snd (items ! i) = b")
  case True
  then have "(fst (items ! i), b) = items ! i" by (simp add: prod_eq_iff)
  with True show ?thesis by (simp add: apply_update_def)
next
  case False
  then show ?thesis by (cases "i < length items") (auto simp: apply_update_def list_update_beyond not_less)
qed

lemma length_apply_update [simp]: "length (apply_update u items) = length items"
  by (cases u; cases "fst u") (auto simp: apply_update_def)

lemma length_updates [simp]: "length (applyVisibilityUpdates us items) = length items"
  unfolding applyVisibilityUpdates_def by (induction us arbitrary: items) simp_all

lemma apply_update_nth:
  assumes "i < length items"
  shows "apply_update u items ! i = (fst (items ! i), if fst u = Suc i then snd u else snd (items ! i))"
  using assms by (cases u; cases "fst u") (auto simp: nth_list_update)

lemma updates_nth:
  assumes "distinct (map fst us)" and "i < length items"
  shows "applyVisibilityUpdates us items ! i =
    (fst (items ! i), case map_of us (Suc i) of Some b \<Rightarrow> b | None \<Rightarrow> snd (items ! i))"
  using assms
proof (induction us arbitrary: items)
  case Nil
  then show ?case by (simp add: applyVisibilityUpdates_def)
next
  case (Cons u us)
  have "map_of us (Suc i) = None" if "fst u = Suc i"
    using Cons.prems(1) that by (force simp: map_of_eq_None_iff)
  with Cons.IH [of "apply_update u items"] Cons.prems show ?case
    by (cases u) (auto simp: applyVisibilityUpdates_def apply_update_nth split: option.split)
qed

lemma queued_update_view:
  assumes "distinct (map fst us)"
  shows "applyVisibilityUpdates (map_set (Suc i) b us) items =
    (let v = applyVisibilityUpdates us items in v[i := (fst (v ! i), b)])"
  unfolding Let_def
  by (rule nth_equalityI)
    (auto simp: updates_nth assms distinct_map_set nth_list_update)

text \<open>The legend with the updates that wait is what the plot shows, and they wait only while a frame does.\<close>

definition legend_synced :: "legend_session \<Rightarrow> bool" where
  "legend_synced s \<longleftrightarrow>
     distinct (map fst (ls_updates s)) \<and> (ls_updates s \<noteq> [] \<longrightarrow> ls_frame s) \<and>
     map_option tl (pc_plot (ls_context s)) = Some (applyVisibilityUpdates (ls_updates s) (ls_legend s)) \<and>
     pc_plot (ls_context s) \<noteq> Some []"

lemma synced_cong:
  assumes "legend_synced s" and "ls_updates s' = ls_updates s" and "ls_frame s' = ls_frame s"
    and "ls_legend s' = ls_legend s" and "pc_plot (ls_context s') = pc_plot (ls_context s)"
  shows "legend_synced s'"
  using assms by (simp add: legend_synced_def)

lemma set_series_show_synced:
  assumes "legend_synced s"
  shows "legend_synced (set_series_show i b s)"
proof (cases i)
  case 0
  from assms obtain x v where "pc_plot (ls_context s) = Some (x # v)"
    by (auto simp: legend_synced_def neq_Nil_conv)
  with 0 assms show ?thesis by (simp add: set_series_show_def legend_synced_def)
next
  case (Suc k)
  from assms obtain x where plot: "pc_plot (ls_context s) = Some (x # applyVisibilityUpdates (ls_updates s) (ls_legend s))"
    by (auto simp: legend_synced_def neq_Nil_conv)
  with Suc assms show ?thesis
    by (simp add: set_series_show_def queueVisibilityUpdate_def legend_synced_def distinct_map_set queued_update_view Let_def)
qed

lemma fold_set_series_show_synced:
  "legend_synced s \<Longrightarrow> legend_synced (fold (\<lambda>i. set_series_show i (b i)) is s)"
  by (induction "is" arbitrary: s) (simp_all add: set_series_show_synced)

lemma sync_keeps:
  "ls_updates (syncSeriesVisibilityToLocalStorage fits s) = ls_updates s"
  "ls_frame (syncSeriesVisibilityToLocalStorage fits s) = ls_frame s"
  "ls_legend (syncSeriesVisibilityToLocalStorage fits s) = ls_legend s"
  "ls_context (syncSeriesVisibilityToLocalStorage fits s) = ls_context s"
  by (simp_all add: syncSeriesVisibilityToLocalStorage_def split: option.split)

lemma sync_synced: "legend_synced s \<Longrightarrow> legend_synced (syncSeriesVisibilityToLocalStorage fits s)"
  by (erule synced_cong) (simp_all add: sync_keeps)

lemma sync_if_saved_synced: "legend_synced s \<Longrightarrow> legend_synced (sync_if_saved fits s)"
  by (simp add: sync_if_saved_def sync_synced)

lemma toggle_visibility_synced:
  assumes "legend_synced s"
  shows "legend_synced (onToggleSeriesVisibility fits i s)"
proof -
  have "legend_synced (s\<lparr>ls_context := (ls_context s)\<lparr>pc_active := a\<rparr>\<rparr>)" for a
    using assms by (rule synced_cong) simp_all
  then show ?thesis using assms
    unfolding onToggleSeriesVisibility_def Let_def
    by (auto intro!: sync_if_saved_synced fold_set_series_show_synced split: option.split)
qed

lemma frame_synced: "legend_synced s \<Longrightarrow> legend_synced (visibility_frame s)"
  by (auto simp: legend_synced_def visibility_frame_def applyVisibilityUpdates_def [of "[]"])

lemma legend_event_synced:
  assumes "legend_synced s" and "\<And>c. e \<noteq> New_Config c"
  shows "legend_synced (legend_event fits e s)"
proof (cases e)
  case (Click i marker)
  have "legend_synced (onToggleSeriesOnOff fits j s)" for j
    using assms(1) unfolding onToggleSeriesOnOff_def
    by (auto intro!: sync_if_saved_synced set_series_show_synced split: option.split)
  with Click assms(1) toggle_visibility_synced [OF assms(1)] show ?thesis
    by (simp add: legend_event_def onLegendClick_def split: option.split)
next
  case Focus_Frame
  with assms(1) show ?thesis
    by (auto simp: legend_event_def focus_frame_def onFocusSeriesPlot_def split: option.split elim!: synced_cong)
qed (use assms in \<open>auto simp: legend_event_def sync_synced frame_synced onLegendMouseMove_def onFocusSeries_def
    onLegendMouseLeave_def handle_focus_def elim!: synced_cong\<close>)

lemma stored_again: "fst (getStoredVisibility c (snd (getStoredVisibility c st))) = fst (getStoredVisibility c st)"
  by (auto simp: getStoredVisibility_def getStoredSeriesVisibility_def split: visibility_store.split option.split)

lemma new_config_synced:
  assumes "ls_updates s = []"
  shows "legend_synced (legend_event fits (New_Config c) s)"
  using assms
  by (simp add: legend_event_def setPlotContextInitialState_def legend_synced_def Let_def config_items_def getLegendItems_def
      stored_again applyVisibilityUpdates_def)

text \<open>One configuration and the events until a frame after the last of them.\<close>

definition legend_episode ::
    "((string \<times> item list) list \<Rightarrow> bool) \<Rightarrow> legend_config \<times> legend_event list \<Rightarrow> legend_session \<Rightarrow> legend_session" where
  "legend_episode fits ep s = fold (legend_event fits) (New_Config (fst ep) # snd ep @ [Frame]) s"

lemma events_synced:
  assumes "legend_synced s" and "\<forall>e\<in>set es. \<forall>c. e \<noteq> New_Config c"
  shows "legend_synced (fold (legend_event fits) es s)"
  using assms by (induction es arbitrary: s) (simp_all add: legend_event_synced)

lemma episode_settles:
  assumes "ls_updates s = []" and "\<forall>e\<in>set (snd ep). \<forall>c. e \<noteq> New_Config c"
  shows "legend_synced (legend_episode fits ep s) \<and> ls_updates (legend_episode fits ep s) = []"
proof -
  let ?s = "fold (legend_event fits) (snd ep) (legend_event fits (New_Config (fst ep)) s)"
  have synced: "legend_synced ?s" by (rule events_synced [OF new_config_synced [OF assms(1)] assms(2)])
  then have "ls_updates (visibility_frame ?s) = []" by (auto simp: visibility_frame_def legend_synced_def)
  moreover have "legend_episode fits ep s = visibility_frame ?s" by (simp add: legend_episode_def legend_event_def)
  ultimately show ?thesis using frame_synced [OF synced] by simp
qed

text \<open>
  C24. Under one configuration after another, each followed by any clicks, saves, mouse moves and frames and
  then by a frame before the next configuration comes, the legend shows exactly the series the plot shows. A session
  starts with no update waiting; without the frame an update that waits would be applied to the next
  configuration (\<open>stale_update_hides\<close>).
\<close>

theorem legend_shows_plot:
  assumes "ls_updates s = []" and "eps \<noteq> []"
    and "\<forall>ep\<in>set eps. \<forall>e\<in>set (snd ep). \<forall>c. e \<noteq> New_Config c"
  shows "map_option tl (pc_plot (ls_context (fold (legend_episode fits) eps s))) =
    Some (ls_legend (fold (legend_episode fits) eps s))"
proof -
  have "legend_synced (fold (legend_episode fits) eps s) \<and> ls_updates (fold (legend_episode fits) eps s) = []"
    using assms
  proof (induction eps arbitrary: s)
    case (Cons ep eps)
    then show ?case using episode_settles [of s ep fits] by (cases eps) simp_all
  qed simp
  then show ?thesis by (auto simp: legend_synced_def applyVisibilityUpdates_def)
qed

section \<open>A saved choice is restored\<close>

lemma note_item_cases:
  "note_item (l, True) ((V, H), v, h) = ((insert l V, H - {l}), True, h)"
  "note_item (l, False) ((V, H), v, h) = ((V, if l \<in> V then H else insert l H), v, True)"
  by (simp_all add: note_item_def)

lemma fold_note_item:
  assumes "V \<inter> H = {}"
  shows "fold note_item items ((V, H), v, h) =
    ((V \<union> {l. (l, True) \<in> set items}, (H \<union> {l. (l, False) \<in> set items}) - (V \<union> {l. (l, True) \<in> set items})),
     v \<or> (\<exists>it\<in>set items. snd it), h \<or> (\<exists>it\<in>set items. \<not> snd it))"
  using assms
proof (induction items arbitrary: V H v h)
  case Nil
  then show ?case by auto
next
  case (Cons it items)
  obtain l b where it: "it = (l, b)" by (cases it)
  show ?case
  proof (cases b)
    case True
    have "insert l V \<inter> (H - {l}) = {}" using Cons.prems by auto
    note ih = Cons.IH [OF this]
    from True it have "fold note_item (it # items) ((V, H), v, h) = fold note_item items ((insert l V, H - {l}), True, h)"
      by (simp add: note_item_cases)
    then show ?thesis unfolding ih using True it by auto
  next
    case False
    have "V \<inter> (if l \<in> V then H else insert l H) = {}" using Cons.prems by auto
    note ih = Cons.IH [OF this]
    from False it have "fold note_item (it # items) ((V, H), v, h) =
        fold note_item items ((V, if l \<in> V then H else insert l H), v, True)"
      by (simp add: note_item_cases)
    then show ?thesis unfolding ih using False it by auto
  qed
qed

lemma resolution_of:
  assumes "items \<noteq> []"
  defines "V \<equiv> {l. (l, True) \<in> set items}" and "H \<equiv> {l. (l, False) \<in> set items}"
  shows "getVisibilityResolutionState series (Some items) =
    (let active = (V \<noteq> {} \<and> H \<noteq> {} \<and> (\<exists>s\<in>set series. series_label s \<in> V))
     in if \<not> (V \<noteq> {} \<and> H \<noteq> {}) \<or> active then \<lparr>vr_visible = V, vr_hidden = H - V, vr_active = active\<rparr>
        else \<lparr>vr_visible = {}, vr_hidden = {}, vr_active = active\<rparr>)"
proof -
  have get: "getVisibilityResolutionState series (Some items) =
      (let ((vis, hid), anyVisible, anyHidden) = fold note_item items (({}, {}), False, False);
           hasMix = (anyVisible \<and> anyHidden);
           hasActivePreference = (hasMix \<and> list_ex (\<lambda>s. series_label s \<in> vis) series)
       in if \<not> hasMix \<or> hasActivePreference
          then \<lparr>vr_visible = vis, vr_hidden = hid, vr_active = hasActivePreference\<rparr>
          else \<lparr>vr_visible = {}, vr_hidden = {}, vr_active = hasActivePreference\<rparr>)"
    using assms(1) by (cases items) (simp_all add: getVisibilityResolutionState_def)
  have any: "(\<exists>it\<in>set items. snd it) \<longleftrightarrow> V \<noteq> {}" "(\<exists>it\<in>set items. \<not> snd it) \<longleftrightarrow> H \<noteq> {}"
    by (auto simp: V_def H_def) force+
  have "fold note_item items (({}, {}), False, False) =
      ((V, H - V), (\<exists>it\<in>set items. snd it), (\<exists>it\<in>set items. \<not> snd it))"
    by (simp add: fold_note_item V_def H_def)
  then have "fold note_item items (({}, {}), False, False) = ((V, H - V), V \<noteq> {}, H \<noteq> {})" unfolding any .
  then show ?thesis by (auto simp: get Let_def list_ex_iff)
qed

text \<open>With the time axis before them, and a visible series of the chart among them, the stored items decide.\<close>

lemma resolved_stored:
  assumes "map series_label (lc_series c) = map fst items" and "it \<in> set items" "snd it"
    and "axis \<notin> fst ` set items"
  shows "resolved_items c (Some ((axis, True) # items)) = map (\<lambda>(l, b). (l, (l, True) \<in> set items)) items"
proof -
  let ?all = "(axis, True) # items"
  let ?V = "{l. (l, True) \<in> set ?all}" and ?H = "{l. (l, False) \<in> set ?all}"
  have series: "\<exists>s\<in>set (lc_series c). series_label s \<in> ?V"
  proof -
    have "fst it \<in> set (map series_label (lc_series c))" using assms(1,2) by simp
    moreover have "(fst it, True) \<in> set items" using assms(2,3) by (metis (full_types) prod.collapse)
    then have "fst it \<in> ?V" by simp
    ultimately show ?thesis by auto
  qed
  have "?V \<noteq> {}" by auto
  then have res: "getVisibilityResolutionState (lc_series c) (Some ?all) =
      \<lparr>vr_visible = ?V, vr_hidden = ?H - ?V, vr_active = (?H \<noteq> {})\<rparr>"
    using series by (subst resolution_of) (simp_all add: Let_def, blast)
  have shown: "resolveSeriesVisibility d l \<lparr>vr_visible = ?V, vr_hidden = ?H - ?V, vr_active = (?H \<noteq> {})\<rparr> =
      ((l, True) \<in> set items)" if "l \<in> fst ` set items" for d l
  proof -
    note member = that
    have "l \<noteq> axis" using that assms(4) by auto
    moreover obtain b where "(l, b) \<in> set items" using member by auto
    then have "l \<in> ?H" if "(l, True) \<notin> set items" using that by (cases b) auto
    ultimately show ?thesis by (auto simp: resolveSeriesVisibility_def)
  qed
  have "resolved_items c (Some ?all) = map (\<lambda>s. (series_label s, (series_label s, True) \<in> set items)) (lc_series c)"
    unfolding resolved_items_def res
  proof (rule map_cong [OF refl])
    fix s assume "s \<in> set (lc_series c)"
    then have "series_label s \<in> set (map fst items)" unfolding assms(1) [symmetric] by simp
    then show "(series_label s, resolveSeriesVisibility (vs_show s) (series_label s)
        \<lparr>vr_visible = ?V, vr_hidden = ?H - ?V, vr_active = (?H \<noteq> {})\<rparr>) = (series_label s, (series_label s, True) \<in> set items)"
      by (simp only: shown set_map)
  qed
  also have "\<dots> = map (\<lambda>l. (l, (l, True) \<in> set items)) (map series_label (lc_series c))" by simp
  also have "\<dots> = map (\<lambda>(l, b). (l, (l, True) \<in> set items)) items" by (simp add: assms(1) split_def)
  finally show ?thesis .
qed

lemma stored_after_update:
  assumes "fits (map_set n items (case st of States states \<Rightarrow> states | _ \<Rightarrow> []))" and "items \<noteq> []"
  shows "getStoredSeriesVisibility n (updateSeriesVisibilityToLocalStorage fits n items st) =
    (Some items, updateSeriesVisibilityToLocalStorage fits n items st)"
proof -
  have "js_find (\<lambda>p. fst p = n) (map_set n items m) = Some (n, items)" for m
    by (induction n items m rule: map_set.induct) simp_all
  with assms show ?thesis by (simp add: updateSeriesVisibilityToLocalStorage_def getStoredSeriesVisibility_def)
qed

text \<open>Other widgets keep what was stored for them.\<close>

lemma update_keeps_others:
  assumes "m \<noteq> n"
  shows "fst (getStoredSeriesVisibility m (updateSeriesVisibilityToLocalStorage fits n items st)) =
    fst (getStoredSeriesVisibility m st)"
proof -
  have "js_find (\<lambda>p. fst p = m) (map_set n items l) = js_find (\<lambda>p. fst p = m) l" for l
    using assms by (induction n items l rule: map_set.induct) auto
  then show ?thesis
    by (auto simp: updateSeriesVisibilityToLocalStorage_def getStoredSeriesVisibility_def Let_def
        split: visibility_store.split option.split)
qed

definition keeps_axis :: "legend_session \<Rightarrow> legend_session \<Rightarrow> bool" where
  "keeps_axis s s' \<longleftrightarrow> ls_store s' = ls_store s \<and> pc_id (ls_context s') = pc_id (ls_context s) \<and>
     pc_save (ls_context s') = pc_save (ls_context s) \<and>
     map_option length (pc_plot (ls_context s')) = map_option length (pc_plot (ls_context s))"

lemma fold_set_series_keeps: "keeps_axis s (fold (\<lambda>i. set_series_show i (b i)) is s)"
proof (induction "is" arbitrary: s)
  case Nil
  then show ?case by (simp add: keeps_axis_def)
next
  case (Cons i "is")
  have "keeps_axis s (set_series_show i (b i) s)"
    by (simp add: keeps_axis_def set_series_show_def queueVisibilityUpdate_def Let_def option.map_comp comp_def)
  with Cons [of "set_series_show i (b i) s"] show ?case by (simp add: keeps_axis_def)
qed

text \<open>Saving writes the series of the plot; a click does it too where choices are saved.\<close>

definition saves_choice :: "legend_event \<Rightarrow> legend_session \<Rightarrow> bool" where
  "saves_choice e s \<longleftrightarrow>
     e = Save \<or> pc_save (ls_context s) \<and>
       (\<exists>i m items. e = Click (Some i) m \<and> pc_plot (ls_context s) = Some items \<and> i < length items)"

lemma saved_store:
  assumes "saves_choice e s" and "truthy_str (pc_id (ls_context s))"
    and "pc_plot (ls_context (legend_event fits e s)) = Some items"
  obtains st where "ls_store (legend_event fits e s) =
    updateSeriesVisibilityToLocalStorage fits (the (pc_id (ls_context s))) items st"
proof -
  have sync: "ls_store (syncSeriesVisibilityToLocalStorage fits t) =
      updateSeriesVisibilityToLocalStorage fits (the (pc_id (ls_context t))) items (ls_store t)"
    if "has_id t" "pc_plot (ls_context (syncSeriesVisibilityToLocalStorage fits t)) = Some items" for t
    using that by (simp add: sync_keeps) (simp add: syncSeriesVisibilityToLocalStorage_def)
  consider (save) "e = Save" | (click) i m old where "e = Click (Some i) m" "pc_plot (ls_context s) = Some old"
      "i < length old" "pc_save (ls_context s)"
    using assms(1) by (auto simp: saves_choice_def)
  then show ?thesis
  proof cases
    case save
    then show ?thesis using sync [of s] assms(2,3) that by (simp add: legend_event_def has_id_def)
  next
    case click
    have "\<exists>t. keeps_axis s t \<and> legend_event fits e s = sync_if_saved fits t"
    proof (cases m)
      case True
      have "keeps_axis s (set_series_show i (\<not> snd (old ! i)) s)"
        using fold_set_series_keeps [of s "\<lambda>_. \<not> snd (old ! i)" "[i]"] by simp
      with True click show ?thesis by (auto simp: legend_event_def onLegendClick_def onToggleSeriesOnOff_def)
    next
      case False
      let ?reset = "pc_active (ls_context s) = Some i"
      let ?s = "s\<lparr>ls_context := (ls_context s)\<lparr>pc_active := (if ?reset then None else Some i)\<rparr>\<rparr>"
      have "keeps_axis s (fold (\<lambda>j. set_series_show j (?reset \<or> j = i)) [1..<length old] ?s)"
        using fold_set_series_keeps [of ?s "\<lambda>j. ?reset \<or> j = i" "[1..<length old]"] by (simp add: keeps_axis_def)
      with False click show ?thesis
        by (auto simp: legend_event_def onLegendClick_def onToggleSeriesVisibility_def Let_def)
    qed
    then obtain t where t: "keeps_axis s t" "legend_event fits e s = sync_if_saved fits t" by auto
    then have "legend_event fits e s = syncSeriesVisibilityToLocalStorage fits t" "has_id t" "pc_id (ls_context t) = pc_id (ls_context s)"
      using click(4) assms(2) by (auto simp: sync_if_saved_def keeps_axis_def has_id_def)
    with sync [of t] assms(3) that show ?thesis by simp
  qed
qed

text \<open>
  C23. What a click or a save keeps in the browser is what the next configuration of the same series shows,
  as long as some series is visible and no two series share a label.
\<close>

theorem visibility_restored:
  assumes "saves_choice e s" and "pc_id (ls_context s) = Some (lc_id c)" and "lc_id c \<noteq> []" and "lc_local c"
    and "\<And>states. fits states"
    and "pc_plot (ls_context (legend_event fits e s)) = Some ((axis, True) # items)"
    and "map series_label (lc_series c) = map fst items" and "distinct (axis # map fst items)" and "\<exists>it\<in>set items. snd it"
  shows "pc_plot (ls_context (legend_event fits (New_Config c) (legend_event fits e s))) = Some ((''Timestamp'', True) # items)"
proof -
  let ?s = "legend_event fits e s"
  have "truthy_str (pc_id (ls_context s))" using assms(2,3) by (simp add: truthy_str_def)
  from saved_store [OF assms(1) this assms(6)] obtain st
    where st: "ls_store ?s = updateSeriesVisibilityToLocalStorage fits (lc_id c) ((axis, True) # items) st"
    by (auto simp: assms(2))
  have "getStoredVisibility c (ls_store ?s) = (Some ((axis, True) # items), ls_store ?s)"
    using assms(3,4,5) by (simp add: getStoredVisibility_def st stored_after_update)
  moreover from assms(9) obtain it where "it \<in> set items" "snd it" by auto
  then have "resolved_items c (Some ((axis, True) # items)) = map (\<lambda>(l, b). (l, (l, True) \<in> set items)) items"
    using assms(7,8) by (intro resolved_stored) auto
  moreover have "map (\<lambda>(l, b). (l, (l, True) \<in> set items)) items = items"
  proof (rule map_idI)
    fix it assume it: "it \<in> set items"
    obtain l b where lb: "it = (l, b)" by (cases it)
    have "distinct (map fst items)" using assms(8) by simp
    then have "True = b" if "(l, True) \<in> set items" using that it unfolding lb by (rule eq_key_imp_eq_value)
    moreover have "(l, True) \<in> set items" if b using it lb that by simp
    ultimately show "(\<lambda>(l, b). (l, (l, True) \<in> set items)) it = it" unfolding lb by auto
  qed
  ultimately show ?thesis by (simp add: legend_event_def setPlotContextInitialState_def config_items_def Let_def)
qed

section \<open>Clicks\<close>

lemma fold_set_series_plot:
  assumes "pc_plot (ls_context s) = Some items" and "distinct is"
  shows "pc_plot (ls_context (fold (\<lambda>i. set_series_show i (b i)) is s)) =
    Some (map (\<lambda>i. (fst (items ! i), if i \<in> set is then b i else snd (items ! i))) [0..<length items])"
  using assms
proof (induction "is" arbitrary: s items)
  case Nil
  then show ?case by (simp add: map_nth [of items, simplified])
next
  case (Cons i "is")
  let ?items = "items[i := (fst (items ! i), b i)]"
  have "pc_plot (ls_context (set_series_show i (b i) s)) = Some ?items"
    using Cons.prems(1) by (simp add: set_series_show_def queueVisibilityUpdate_def Let_def)
  moreover have "fst (?items ! x) = fst (items ! x)" for x
    by (cases "x = i"; cases "i < length items") (auto simp: list_update_beyond not_less)
  ultimately show ?case using Cons.IH [of "set_series_show i (b i) s" ?items] Cons.prems(2) by (auto simp: nth_list_update)
qed

text \<open>A click on a label shows that series alone; a second click on it shows all of them again.\<close>

theorem click_isolates:
  assumes "pc_plot (ls_context s) = Some (axis # items)" and "0 < i"
  shows "pc_plot (ls_context (legend_event fits (Click (Some i) False) s)) =
      Some (axis # map (\<lambda>j. (fst (items ! j), pc_active (ls_context s) = Some i \<or> Suc j = i)) [0..<length items]) \<and>
    pc_active (ls_context (legend_event fits (Click (Some i) False) s)) =
      (if pc_active (ls_context s) = Some i then None else Some i)"
proof -
  let ?reset = "pc_active (ls_context s) = Some i"
  let ?s = "s\<lparr>ls_context := (ls_context s)\<lparr>pc_active := (if ?reset then None else Some i)\<rparr>\<rparr>"
  let ?f = "fold (\<lambda>j. set_series_show j (?reset \<or> j = i)) [1..<Suc (length items)] ?s"
  have event: "ls_context (legend_event fits (Click (Some i) False) s) = ls_context ?f"
    using assms(1)
    by (simp add: legend_event_def onLegendClick_def onToggleSeriesVisibility_def Let_def sync_if_saved_def sync_keeps)
  have "pc_plot (ls_context ?f) = Some (map (\<lambda>j. (fst ((axis # items) ! j), if j \<in> set [1..<Suc (length items)]
      then ?reset \<or> j = i else snd ((axis # items) ! j))) [0..<Suc (length items)])"
    using fold_set_series_plot [of ?s "axis # items" "[1..<Suc (length items)]"] assms(1) by simp
  also have "[0..<Suc (length items)] = 0 # map Suc [0..<length items]" by (simp add: map_Suc_upt upt_conv_Cons del: upt_Suc)
  finally have plot: "pc_plot (ls_context ?f) = Some (axis # map (\<lambda>j. (fst (items ! j), ?reset \<or> Suc j = i)) [0..<length items])"
    by (simp add: comp_def del: upt_Suc cong: map_cong)
  have "pc_active (ls_context (fold (\<lambda>j. set_series_show j (b j)) is t)) = pc_active (ls_context t)" for b "is" t
    by (induction "is" arbitrary: t) (simp_all add: set_series_show_def queueVisibilityUpdate_def Let_def)
  then have "pc_active (ls_context ?f) = (if ?reset then None else Some i)" by simp
  with plot show ?thesis unfolding event by simp
qed

section \<open>Concrete sessions\<close>

definition example_config :: legend_config where
  "example_config =
     \<lparr>lc_id = ''w'', lc_local = True, lc_save = True,
      lc_series = [\<lparr>vs_label = Some ''a'', vs_show = Some True\<rparr>, \<lparr>vs_label = Some ''b'', vs_show = Some True\<rparr>]\<rparr>"

definition example_session :: legend_session where
  "example_session =
     \<lparr>ls_context = \<lparr>pc_plot = Some [(''Timestamp'', True), (''a'', True), (''b'', True)], pc_id = Some ''w'', pc_active = None,
        pc_save = True\<rparr>, ls_store = No_Item, ls_legend = [(''a'', True), (''b'', True)], ls_updates = [], ls_frame = False,
      ls_focused = None, ls_focus_frame = None, ls_plot_focus = None\<rparr>"

theorem legend_shows_plot_witness:
  "map_option tl (pc_plot (ls_context (fold (legend_episode (\<lambda>_. True)) [(example_config, [Click (Some 1) False])] example_session))) =
    Some (ls_legend (fold (legend_episode (\<lambda>_. True)) [(example_config, [Click (Some 1) False])] example_session))"
  by (rule legend_shows_plot) (simp_all add: example_session_def)

lemma example_click:
  "pc_plot (ls_context (legend_event fits (Click (Some 1) False) example_session)) =
     Some ((''Timestamp'', True) # [(''a'', True), (''b'', False)])"
proof -
  have "pc_plot (ls_context example_session) = Some ((''Timestamp'', True) # [(''a'', True), (''b'', True)])"
    "pc_active (ls_context example_session) = None"
    by (simp_all add: example_session_def)
  with click_isolates [OF this(1), of 1 fits] show ?thesis by (simp add: upt_rec)
qed

theorem visibility_restored_witness:
  "pc_plot (ls_context (legend_event (\<lambda>_. True) (New_Config example_config)
      (legend_event (\<lambda>_. True) (Click (Some 1) False) example_session))) =
    Some ((''Timestamp'', True) # [(''a'', True), (''b'', False)])"
proof (rule visibility_restored [where axis = "''Timestamp''" and items = "[(''a'', True), (''b'', False)]"])
  show "pc_plot (ls_context (legend_event (\<lambda>_. True) (Click (Some 1) False) example_session)) =
      Some ((''Timestamp'', True) # [(''a'', True), (''b'', False)])"
    by (rule example_click)
qed (simp_all add: example_session_def example_config_def saves_choice_def series_label_def ex_bool_eq)

text \<open>When every series is hidden the entry of the time axis is the only visible one, and the choice is not applied.\<close>

lemma all_hidden_forgotten:
  assumes "axis \<notin> set (map series_label (lc_series c))" and "items \<noteq> []" and "\<forall>it\<in>set items. \<not> snd it"
  shows "resolved_items c (Some ((axis, True) # items)) =
    map (\<lambda>s. (series_label s, case vs_show s of Some b \<Rightarrow> b | None \<Rightarrow> True)) (lc_series c)"
proof -
  have V: "{l. (l, True) \<in> set ((axis, True) # items)} = {axis}" using assms(3) by force
  obtain l b its where items: "items = (l, b) # its" using assms(2) by (metis list.exhaust surj_pair)
  then have "l \<in> {l. (l, False) \<in> set ((axis, True) # items)}" using assms(3) by (cases b) auto
  then have H: "{l. (l, False) \<in> set ((axis, True) # items)} \<noteq> {}" by auto
  have "\<not> (\<exists>s\<in>set (lc_series c). series_label s \<in> {axis})" using assms(1) by auto
  with H have "getVisibilityResolutionState (lc_series c) (Some ((axis, True) # items)) =
      \<lparr>vr_visible = {}, vr_hidden = {}, vr_active = False\<rparr>"
    by (subst resolution_of) (simp, simp only: V Let_def, simp)
  then show ?thesis by (simp add: resolved_items_def resolveSeriesVisibility_def)
qed

text \<open>Of two series with one label both are shown when one of them was.\<close>

lemma same_label_shown:
  "config_items \<lparr>lc_id = ''w'', lc_local = True, lc_save = True,
      lc_series = [\<lparr>vs_label = Some ''a'', vs_show = None\<rparr>, \<lparr>vs_label = Some ''a'', vs_show = None\<rparr>]\<rparr>
     (States [(''w'', [(''Timestamp'', True), (''a'', True), (''a'', False)])]) =
   [(''Timestamp'', True), (''a'', True), (''a'', True)]"
  by code_simp

text \<open>An update that waits for its frame is applied to the legend of the next configuration.\<close>

lemma stale_update_hides:
  "let s = fold (legend_event (\<lambda>_. True)) [Click (Some 1) False, New_Config (example_config\<lparr>lc_local := False\<rparr>), Frame] example_session
   in pc_plot (ls_context s) = Some [(''Timestamp'', True), (''a'', True), (''b'', True)] \<and>
      ls_legend s = [(''a'', True), (''b'', False)]"
  by code_simp

text \<open>The mouse goes back to the focused item before the frame, and the frame focuses the item it left.\<close>

lemma stale_focus:
  assumes "ls_focused s = Some i" and "j \<noteq> i" and "pc_plot (ls_context s) \<noteq> None"
  shows "ls_plot_focus (fold (legend_event fits) [Move (Some j), Move (Some i), Focus_Frame] s) = Some j"
  using assms by (auto simp: legend_event_def onLegendMouseMove_def onFocusSeries_def focus_frame_def onFocusSeriesPlot_def)

text \<open>After the mouse has left, nothing is focused once the frame has passed.\<close>

lemma leave_clears_focus:
  assumes "pc_plot (ls_context s) \<noteq> None"
  shows "let t = fold (legend_event fits) [Leave, Focus_Frame] s in ls_focused t = None \<and> ls_plot_focus t = None \<and> ls_focus_frame t = None"
  using assms by (auto simp: legend_event_def onLegendMouseLeave_def onFocusSeries_def focus_frame_def onFocusSeriesPlot_def)

end
