(* ===== verification/Chart_Plot.thy ===== *)
theory Chart_Plot
  imports Chart_Data
begin

text \<open>
  The plot of a chart: how \<^verbatim>\<open>lib/uPlotV2/components/UPlotChart/UPlotChart.tsx\<close> creates, changes and destroys
  it, the place it gets beside its legend (\<^verbatim>\<open>container/PanelVisualization/charts/utils.ts\<close>), and the lone
  points it draws (\<^verbatim>\<open>lib/uPlotV2/utils/seriesPointsFilter.ts\<close>). Lengths are exact rationals.
\<close>

section \<open>The life of a plot\<close>

text \<open>
  A configuration is given by its identity under \<open>isEqual\<close>, its id, whether choices are saved, and how its
  series span gaps. A plot holds its configuration, data and size, and the element it was put in.
\<close>

record chart_config =
  cc_identity :: nat
  cc_id :: string
  cc_save :: bool
  cc_gaps :: "span_gaps list"

record chart_props =
  cp_config :: chart_config
  cp_data :: aligned
  cp_width :: rat
  cp_height :: rat

record shown_plot =
  up_config :: chart_config
  up_data :: aligned
  up_width :: int
  up_height :: int
  up_parent :: nat

record chart_state =
  cs_plot :: "shown_plot option"
  cs_container :: "nat option"
  cs_prev :: "chart_props option"
  cs_context :: "(string \<times> bool) option"
  cs_created :: nat
  cs_destroyed :: nat

definition sameDimensions :: "chart_props \<Rightarrow> chart_props \<Rightarrow> bool" where
  "sameDimensions p q \<longleftrightarrow> cp_width q = cp_width p \<and> cp_height q = cp_height p"

definition sameData :: "chart_props \<Rightarrow> chart_props \<Rightarrow> bool" where
  "sameData p q \<longleftrightarrow> cp_data q = cp_data p"

definition sameConfig :: "chart_props \<Rightarrow> chart_props \<Rightarrow> bool" where
  "sameConfig p q \<longleftrightarrow> cp_config q = cp_config p"

definition destroyPlot :: "chart_state \<Rightarrow> chart_state" where
  "destroyPlot s =
     (case cs_plot s of
        None \<Rightarrow> s
      | Some _ \<Rightarrow> s\<lparr>cs_plot := None, cs_context := None, cs_destroyed := Suc (cs_destroyed s)\<rparr>)"

definition createPlot :: "chart_props \<Rightarrow> chart_state \<Rightarrow> chart_state" where
  "createPlot p s =
     (let s = destroyPlot s
      in case cs_container s of
           None \<Rightarrow> s
         | Some element \<Rightarrow>
             if cp_width p = 0 \<or> cp_height p = 0 then s
             else s\<lparr>cs_plot := Some
                      \<lparr>up_config = cp_config p, up_data = prepareAlignedData (cp_data p) (cc_gaps (cp_config p)),
                       up_width = \<lfloor>cp_width p\<rfloor>, up_height = \<lfloor>cp_height p\<rfloor>, up_parent = element\<rparr>,
                    cs_context := Some (cc_id (cp_config p), cc_save (cp_config p)),
                    cs_created := Suc (cs_created s)\<rparr>)"

definition isDataEmpty :: "chart_props \<Rightarrow> bool" where
  "isDataEmpty p \<longleftrightarrow> fst (cp_data p) = []"

definition isPlotOrphaned :: "chart_state \<Rightarrow> bool" where
  "isPlotOrphaned s = (case cs_plot s of None \<Rightarrow> False | Some u \<Rightarrow> cs_container s \<noteq> Some (up_parent u))"

text \<open>The second effect: the first render creates the plot, later ones change what has changed.\<close>

definition update_plot :: "chart_props \<Rightarrow> chart_state \<Rightarrow> chart_state" where
  "update_plot p s =
     (case cs_prev s of
        None \<Rightarrow> (createPlot p s)\<lparr>cs_prev := Some p\<rparr>
      | Some prev \<Rightarrow>
          let orphaned = isPlotOrphaned s;
              s = (case cs_plot s of
                     Some u \<Rightarrow> if \<not> sameDimensions prev p \<and> \<not> orphaned
                               then s\<lparr>cs_plot := Some (u\<lparr>up_width := \<lfloor>cp_width p\<rfloor>, up_height := \<lfloor>cp_height p\<rfloor>\<rparr>)\<rparr> else s
                   | None \<Rightarrow> s);
              s = (if \<not> sameConfig prev p \<or> orphaned then createPlot p s
                   else case cs_plot s of
                          Some u \<Rightarrow> if \<not> sameData prev p
                                    then s\<lparr>cs_plot := Some (u\<lparr>up_data := prepareAlignedData (cp_data p) (cc_gaps (cp_config p))\<rparr>)\<rparr>
                                    else s
                        | None \<Rightarrow> s)
          in s\<lparr>cs_prev := Some p\<rparr>)"

text \<open>
  A commit mounts the element of the plot, unless there is no data, and runs the two effects. The second
  argument is the element React has for it; it changes when React mounts the component's tree again.
  React runs the second effect only when the configuration, the data, the width or the height is another; here it
  runs at every commit. It then changes nothing for the same props, so that the two differ only when a commit
  with the same props comes with another element.
\<close>

definition commit_chart :: "chart_props \<times> nat \<Rightarrow> chart_state \<Rightarrow> chart_state" where
  "commit_chart pe s =
     (let p = fst pe;
          s = s\<lparr>cs_container := (if isDataEmpty p then None else Some (snd pe))\<rparr>;
          s = (if isDataEmpty p then destroyPlot s else s)
      in update_plot p s)"

definition new_chart :: chart_state where
  "new_chart = \<lparr>cs_plot = None, cs_container = None, cs_prev = None, cs_context = None, cs_created = 0, cs_destroyed = 0\<rparr>"

section \<open>The place of the plot\<close>

datatype legend_position = Bottom | Right

record chart_dimensions =
  cd_width :: rat
  cd_height :: rat
  cd_legendWidth :: rat
  cd_legendHeight :: rat
  cd_averageLegendWidth :: rat

definition AVG_CHAR_WIDTH :: nat where "AVG_CHAR_WIDTH = 8"
definition DEFAULT_AVG_LABEL_LENGTH :: nat where "DEFAULT_AVG_LABEL_LENGTH = 15"
definition BASE_LEGEND_WIDTH :: nat where "BASE_LEGEND_WIDTH = 16"
definition LEGEND_PADDING :: nat where "LEGEND_PADDING = 12"
definition LEGEND_LINE_HEIGHT :: nat where "LEGEND_LINE_HEIGHT = 28"
definition MAX_LEGEND_WIDTH :: nat where "MAX_LEGEND_WIDTH = 240"

text \<open>The percentile is 0.85, and \<open>Math.ceil (0.85 * n)\<close> the integer at or above \<open>17 * n / 20\<close>.\<close>

definition percentile_length :: "string list \<Rightarrow> nat" where
  "percentile_length legends =
     (let lengths = sort (map length legends) in lengths ! ((17 * length lengths + 19) div 20 - 1))"

definition calculateAverageLegendWidth :: "string list \<Rightarrow> nat" where
  "calculateAverageLegendWidth legends =
     (if legends = [] then DEFAULT_AVG_LABEL_LENGTH * AVG_CHAR_WIDTH
      else BASE_LEGEND_WIDTH + percentile_length legends * AVG_CHAR_WIDTH)"

definition right_legend_width :: "rat \<Rightarrow> nat \<Rightarrow> rat" where
  "right_legend_width containerWidth approx =
     min (max 150 (of_nat approx)) (min (of_nat MAX_LEGEND_WIDTH) (containerWidth * 3 / 10))"

definition legend_rows :: "rat \<Rightarrow> nat \<Rightarrow> nat \<Rightarrow> int" where
  "legend_rows containerWidth itemWidth count =
     (let itemsPerRow = max 1 \<lfloor>(containerWidth - of_nat (LEGEND_PADDING * 2)) / of_nat itemWidth\<rfloor>
      in min 2 \<lceil>(of_nat count :: rat) / of_int itemsPerRow\<rceil>)"

definition calculateChartDimensions :: "rat \<Rightarrow> rat \<Rightarrow> legend_position \<Rightarrow> string list \<Rightarrow> chart_dimensions" where
  "calculateChartDimensions containerWidth containerHeight position seriesLabels =
     (if containerWidth \<le> 0 \<or> containerHeight \<le> 0
      then \<lparr>cd_width = 0, cd_height = 0, cd_legendWidth = 0, cd_legendHeight = 0, cd_averageLegendWidth = 0\<rparr>
      else
        let approx = calculateAverageLegendWidth seriesLabels
        in if position = Right then
             let w = right_legend_width containerWidth approx
             in \<lparr>cd_width = max 0 (containerWidth - w), cd_height = containerHeight, cd_legendWidth = w,
                 cd_legendHeight = containerHeight, cd_averageLegendWidth = w\<rparr>
           else
             let rowHeight = LEGEND_LINE_HEIGHT + LEGEND_PADDING;
                 itemWidth = min approx MAX_LEGEND_WIDTH;
                 rows = legend_rows containerWidth itemWidth (length seriesLabels);
                 ideal = (if 1 < rows then rows * int rowHeight - int LEGEND_PADDING else int rowHeight);
                 h = min ideal (int (min (2 * rowHeight) 80))
             in \<lparr>cd_width = containerWidth, cd_height = max 0 (containerHeight - of_int h), cd_legendWidth = containerWidth,
                 cd_legendHeight = of_int h, cd_averageLegendWidth = of_nat itemWidth\<rparr>)"

section \<open>Lone points\<close>

definition present_at :: "cell list \<Rightarrow> int \<Rightarrow> bool" where
  "present_at yData i \<longleftrightarrow> 0 \<le> i \<and> nat i < length yData \<and> yData ! nat i \<noteq> Cell_Null \<and> yData ! nat i \<noteq> Cell_Undefined"

text \<open>The loop looks one place right and one left, from distance 1 up to 99.\<close>

fun nearest_within :: "cell list \<Rightarrow> int \<Rightarrow> nat list \<Rightarrow> int" where
  "nearest_within yData approxIdx [] = approxIdx"
| "nearest_within yData approxIdx (j # js) =
     (if present_at yData (approxIdx + int j) then approxIdx + int j
      else if present_at yData (approxIdx - int j) then approxIdx - int j
      else nearest_within yData approxIdx js)"

definition findNearestNonNull :: "cell list \<Rightarrow> int \<Rightarrow> int" where
  "findNearestNonNull yData approxIdx = nearest_within yData approxIdx [1..<100]"

type_synonym gap = "rat \<times> rat"

fun findSandwichedIndices :: "gap list \<Rightarrow> cell list \<Rightarrow> (rat \<Rightarrow> int) \<Rightarrow> int list" where
  "findSandwichedIndices (g # h # gs) yData idx_at =
     (if snd g = fst h
      then [if present_at yData (idx_at (snd g)) then idx_at (snd g) else findNearestNonNull yData (idx_at (snd g))]
      else []) @ findSandwichedIndices (h # gs) yData idx_at"
| "findSandwichedIndices gs yData idx_at = []"

text \<open>The two functions of the plot are arguments; the points of the axis are read at the ends of the view.\<close>

definition isolatedPointFilter ::
    "(rat \<Rightarrow> int) \<Rightarrow> (rat \<Rightarrow> rat) \<Rightarrow> (nat \<times> nat) option \<Rightarrow> rat list \<Rightarrow> cell list \<Rightarrow> bool \<Rightarrow> gap list option \<Rightarrow> int list option" where
  "isolatedPointFilter idx_at pos_of idxs xData yData show_points gaps =
     (case (gaps, idxs) of
        (Some (g # gs), Some (firstIdx, lastIdx)) \<Rightarrow>
          if show_points then None
          else
            let pos = (\<lambda>i. of_int \<lfloor>pos_of (xData ! i) + 1 / 2\<rfloor>);
                filtered = (if fst g = pos firstIdx then [int firstIdx] else []) @
                  findSandwichedIndices (g # gs) yData idx_at @
                  (if snd (last (g # gs)) = pos lastIdx then [int lastIdx] else [])
            in if filtered = [] then None else Some filtered
      | _ \<Rightarrow> None)"

section \<open>The plot shows the last render\<close>

text \<open>What a commit leaves: the plot, if there is one, shows these properties in the element that is mounted.\<close>

definition plot_shows :: "chart_props \<Rightarrow> chart_state \<Rightarrow> bool" where
  "plot_shows p s \<longleftrightarrow>
     cs_prev s = Some p \<and>
     (\<forall>u. cs_plot s = Some u \<longrightarrow>
        up_config u = cp_config p \<and> up_data u = prepareAlignedData (cp_data p) (cc_gaps (cp_config p)) \<and>
        up_width u = \<lfloor>cp_width p\<rfloor> \<and> up_height u = \<lfloor>cp_height p\<rfloor> \<and> cs_container s = Some (up_parent u) \<and>
        cs_context s = Some (cc_id (cp_config p), cc_save (cp_config p)))"

lemma destroy_simps [simp]:
  "cs_plot (destroyPlot s) = None" "cs_container (destroyPlot s) = cs_container s" "cs_prev (destroyPlot s) = cs_prev s"
  by (auto simp: destroyPlot_def split: option.split)

lemma create_shows: "cs_plot (createPlot p s) = Some u \<Longrightarrow>
    up_config u = cp_config p \<and> up_data u = prepareAlignedData (cp_data p) (cc_gaps (cp_config p)) \<and>
    up_width u = \<lfloor>cp_width p\<rfloor> \<and> up_height u = \<lfloor>cp_height p\<rfloor> \<and> cs_container (createPlot p s) = Some (up_parent u) \<and>
    cs_context (createPlot p s) = Some (cc_id (cp_config p), cc_save (cp_config p))"
  by (auto simp: createPlot_def Let_def split: option.splits if_splits)

lemma create_plot_shows: "plot_shows p ((createPlot p s)\<lparr>cs_prev := Some p\<rparr>)"
  unfolding plot_shows_def by (simp, intro allI impI, drule create_shows, simp)

text \<open>Between commits only the element and, without data, the plot can have gone.\<close>

definition stale_plot :: "chart_state \<Rightarrow> bool" where
  "stale_plot s \<longleftrightarrow>
     (case cs_prev s of
        None \<Rightarrow> True
      | Some p \<Rightarrow> \<forall>u. cs_plot s = Some u \<longrightarrow>
          up_config u = cp_config p \<and> up_data u = prepareAlignedData (cp_data p) (cc_gaps (cp_config p)) \<and>
          up_width u = \<lfloor>cp_width p\<rfloor> \<and> up_height u = \<lfloor>cp_height p\<rfloor> \<and>
          cs_context s = Some (cc_id (cp_config p), cc_save (cp_config p)))"

lemma update_shows:
  assumes "stale_plot s"
  shows "plot_shows p (update_plot p s)"
proof (cases "cs_prev s")
  case None
  then show ?thesis using create_plot_shows [of p s] by (simp add: update_plot_def)
next
  case (Some prev)
  show ?thesis
  proof (cases "\<not> sameConfig prev p \<or> isPlotOrphaned s")
    case True
    let ?s = "case cs_plot s of
        Some u \<Rightarrow> if \<not> sameDimensions prev p \<and> \<not> isPlotOrphaned s
                  then s\<lparr>cs_plot := Some (u\<lparr>up_width := \<lfloor>cp_width p\<rfloor>, up_height := \<lfloor>cp_height p\<rfloor>\<rparr>)\<rparr> else s
      | None \<Rightarrow> s"
    have "update_plot p s = (createPlot p ?s)\<lparr>cs_prev := Some p\<rparr>"
      using Some True by (simp add: update_plot_def Let_def)
    with create_plot_shows [of p ?s] show ?thesis by simp
  next
    case False
    then have same: "cp_config p = cp_config prev" by (simp add: sameConfig_def)
    show ?thesis
    proof (cases "cs_plot s")
      case None
      with Some False show ?thesis by (simp add: update_plot_def Let_def plot_shows_def)
    next
      case (Some u)
      then have "cs_container s = Some (up_parent u)" using False by (simp add: isPlotOrphaned_def)
      with Some \<open>cs_prev s = Some prev\<close> False assms same show ?thesis
        by (auto simp: update_plot_def Let_def plot_shows_def stale_plot_def sameDimensions_def sameData_def)
    qed
  qed
qed

lemma commit_shows:
  assumes "stale_plot s"
  shows "plot_shows (fst pe) (commit_chart pe s)"
proof -
  let ?s = "s\<lparr>cs_container := (if isDataEmpty (fst pe) then None else Some (snd pe))\<rparr>"
  have "stale_plot ?s" using assms by (simp add: stale_plot_def split: option.splits)
  then have "stale_plot (if isDataEmpty (fst pe) then destroyPlot ?s else ?s)"
    by (auto simp: stale_plot_def split: option.splits)
  then show ?thesis unfolding commit_chart_def Let_def by (rule update_shows)
qed

lemma shows_stale: "plot_shows p s \<Longrightarrow> stale_plot s"
  by (simp add: plot_shows_def stale_plot_def)

lemma commits_stale: "stale_plot s \<Longrightarrow> stale_plot (fold commit_chart pes s)"
  by (induction pes arbitrary: s) (auto intro: shows_stale commit_shows)

text \<open>When there is a plot after a render with data and space.\<close>

lemma create_exists:
  assumes "cs_container s \<noteq> None" and "cp_width p \<noteq> 0" and "cp_height p \<noteq> 0"
  shows "cs_plot (createPlot p s) \<noteq> None"
  using assms by (auto simp: createPlot_def Let_def)

lemma plot_exists_iff:
  assumes "\<not> isDataEmpty p" and "cp_width p \<noteq> 0" and "cp_height p \<noteq> 0"
  shows "cs_plot (commit_chart (p, e) s) \<noteq> None \<longleftrightarrow>
    cs_plot s \<noteq> None \<or> cs_prev s = None \<or> (\<exists>q. cs_prev s = Some q \<and> cp_config q \<noteq> cp_config p)"
proof -
  have create: "cs_plot (createPlot p t) \<noteq> None" if "cs_container t = Some e" for t
    using that assms(2,3) by (intro create_exists) simp_all
  show ?thesis
    using assms(1) create
    by (auto simp: commit_chart_def update_plot_def Let_def sameConfig_def isPlotOrphaned_def
        simp del: not_None_eq split: option.split if_splits)
qed

definition has_room :: "chart_props \<Rightarrow> bool" where
  "has_room p \<longleftrightarrow> \<not> isDataEmpty p \<and> cp_width p \<noteq> 0 \<and> cp_height p \<noteq> 0"

lemma commits_keep_plot:
  assumes "\<forall>pe\<in>set pes. has_room (fst pe)" and "pes \<noteq> [] \<or> cs_plot s \<noteq> None" and "cs_plot s \<noteq> None \<or> cs_prev s = None"
  shows "cs_plot (fold commit_chart pes s) \<noteq> None"
  using assms
proof (induction pes arbitrary: s)
  case Nil
  then show ?case by simp
next
  case (Cons pe pes)
  obtain p e where pe: "pe = (p, e)" by (cases pe)
  have "cs_plot (commit_chart pe s) \<noteq> None"
    using Cons.prems by (subst pe, subst plot_exists_iff) (auto simp: has_room_def pe)
  with Cons.IH [of "commit_chart pe s"] Cons.prems(1) show ?case by simp
qed

text \<open>
  C25. After any renders a plot that is there has the configuration, data and size of the last one, sits in
  the mounted element, and is the one the context of the chart names; it is there when every render had
  data and space.
\<close>

theorem plot_shows_last_render:
  "plot_shows p (fold commit_chart (pes @ [(p, element)]) new_chart) \<and>
   ((\<forall>pe\<in>set (pes @ [(p, element)]). has_room (fst pe)) \<longrightarrow>
      cs_plot (fold commit_chart (pes @ [(p, element)]) new_chart) \<noteq> None)"
proof -
  have "stale_plot new_chart" by (simp add: stale_plot_def new_chart_def)
  then have "plot_shows p (fold commit_chart (pes @ [(p, element)]) new_chart)"
    using commit_shows [OF commits_stale, of new_chart "(p, element)" pes] by simp
  moreover have "cs_plot (fold commit_chart (pes @ [(p, element)]) new_chart) \<noteq> None"
    if "\<forall>pe\<in>set (pes @ [(p, element)]). has_room (fst pe)"
    by (rule commits_keep_plot [OF that]) (simp_all add: new_chart_def)
  ultimately show ?thesis by blast
qed

text \<open>Every plot is destroyed once, before the next is created.\<close>

definition plots_balanced :: "chart_state \<Rightarrow> bool" where
  "plots_balanced s \<longleftrightarrow> cs_created s = cs_destroyed s + (if cs_plot s = None then 0 else 1)"

lemma destroy_balanced: "plots_balanced s \<Longrightarrow> plots_balanced (destroyPlot s)"
  by (auto simp: plots_balanced_def destroyPlot_def split: option.split)

lemma create_balanced: "plots_balanced s \<Longrightarrow> plots_balanced (createPlot p s)"
  using destroy_balanced [of s] destroy_simps(1) [of s]
  by (auto simp: plots_balanced_def createPlot_def Let_def split: option.split)

lemma balanced_cong:
  assumes "plots_balanced s" and "cs_created s' = cs_created s" and "cs_destroyed s' = cs_destroyed s"
    and "cs_plot s' = None \<longleftrightarrow> cs_plot s = None"
  shows "plots_balanced s'"
  using assms by (simp add: plots_balanced_def)

lemma commit_balanced:
  assumes "plots_balanced s"
  shows "plots_balanced (commit_chart pe s)"
proof -
  have update: "plots_balanced (update_plot p t)" if "plots_balanced t" for p t
  proof (cases "cs_prev t")
    case None
    with create_balanced [OF that, of p] show ?thesis by (simp add: update_plot_def plots_balanced_def)
  next
    case (Some prev)
    let ?t = "case cs_plot t of
        Some u \<Rightarrow> if \<not> sameDimensions prev p \<and> \<not> isPlotOrphaned t
                  then t\<lparr>cs_plot := Some (u\<lparr>up_width := \<lfloor>cp_width p\<rfloor>, up_height := \<lfloor>cp_height p\<rfloor>\<rparr>)\<rparr> else t
      | None \<Rightarrow> t"
    have t: "plots_balanced ?t" using that by (auto simp: plots_balanced_def split: option.split)
    show ?thesis
    proof (cases "\<not> sameConfig prev p \<or> isPlotOrphaned t")
      case True
      then have "update_plot p t = (createPlot p ?t)\<lparr>cs_prev := Some p\<rparr>"
        using Some by (simp add: update_plot_def Let_def)
      with create_balanced [OF t, of p] show ?thesis by (simp add: plots_balanced_def)
    next
      case False
      with Some t show ?thesis by (auto simp: update_plot_def Let_def plots_balanced_def split: option.splits)
    qed
  qed
  have "plots_balanced (s\<lparr>cs_container := c\<rparr>)" for c using assms by (rule balanced_cong) simp_all
  then show ?thesis unfolding commit_chart_def Let_def by (auto intro!: update destroy_balanced)
qed

lemma plots_destroyed_once: "plots_balanced (fold commit_chart pes new_chart)"
proof -
  have "plots_balanced s \<Longrightarrow> plots_balanced (fold commit_chart pes s)" for s
    by (induction pes arbitrary: s) (simp_all add: commit_balanced)
  then show ?thesis by (simp add: plots_balanced_def new_chart_def)
qed

text \<open>
  A chart whose first render has no width never gets a plot while its configuration stays the same: later
  renders with data and space only change a plot that exists.
\<close>

lemma zero_width_never_drawn:
  assumes "cp_width p = 0" and "\<forall>pe\<in>set pes. cp_config (fst pe) = cp_config p"
  shows "cs_plot (fold commit_chart ((p, e) # pes) new_chart) = None"
proof -
  have first: "cs_plot (commit_chart (p, e) new_chart) = None \<and> cs_prev (commit_chart (p, e) new_chart) = Some p"
    using assms(1)
    by (simp add: commit_chart_def update_plot_def Let_def new_chart_def createPlot_def destroyPlot_def)
  have "cs_plot (fold commit_chart pes s) = None"
    if "cs_plot s = None" "cs_prev s = Some q" "cp_config q = cp_config p" for s q
    using that assms(2)
  proof (induction pes arbitrary: s q)
    case Nil
    then show ?case by simp
  next
    case (Cons pe pes)
    have "cs_plot (commit_chart pe s) = None \<and> cs_prev (commit_chart pe s) = Some (fst pe)"
      using Cons.prems
      by (simp add: commit_chart_def update_plot_def Let_def destroyPlot_def sameConfig_def isPlotOrphaned_def)
    with Cons.IH [of "commit_chart pe s" "fst pe"] Cons.prems(4) show ?case by simp
  qed
  with first show ?thesis by simp
qed

definition example_props :: chart_props where
  "example_props =
     \<lparr>cp_config = \<lparr>cc_identity = 0, cc_id = ''w'', cc_save = True, cc_gaps = []\<rparr>, cp_data = ([0], [[Cell 1]]),
      cp_width = 600, cp_height = 400\<rparr>"

theorem plot_shows_last_render_witness:
  "cs_plot (fold commit_chart ([(example_props, 0)] @ [(example_props\<lparr>cp_width := 750\<rparr>, 0)]) new_chart) \<noteq> None"
  by (rule plot_shows_last_render [THEN conjunct2, rule_format]) (auto simp: has_room_def isDataEmpty_def example_props_def)

section \<open>The plot and its legend fit the panel\<close>

lemma chart_fits:
  assumes "0 < w" and "0 < h"
  shows "let d = calculateChartDimensions w h position labels
     in 0 \<le> cd_width d \<and> 0 \<le> cd_height d \<and>
        (if position = Right
         then cd_width d + cd_legendWidth d = w \<and> 0 < cd_legendWidth d \<and> cd_legendWidth d \<le> w * 3 / 10 \<and> cd_height d = h
         else cd_width d = w \<and> cd_height d = max 0 (h - cd_legendHeight d) \<and> cd_legendHeight d \<in> {40, 68})"
proof (cases position)
  case Bottom
  have "legend_rows w n k \<le> 2" for n k by (simp add: legend_rows_def Let_def)
  then have rows: "legend_rows w n k \<le> 1 \<or> legend_rows w n k = 2" for n k by (smt (verit))
  show ?thesis using assms Bottom rows [of "min (calculateAverageLegendWidth labels) MAX_LEGEND_WIDTH" "length labels"]
    by (auto simp: calculateChartDimensions_def Let_def LEGEND_LINE_HEIGHT_def LEGEND_PADDING_def)
next
  case Right
  have "right_legend_width w n \<le> w * 3 / 10" "0 < right_legend_width w n" for n
    using assms by (auto simp: right_legend_width_def MAX_LEGEND_WIDTH_def)
  moreover have "w * 3 / 10 \<le> w" using assms(1) by simp
  then have "right_legend_width w n \<le> w" for n using calculation(1) [of n] by linarith
  ultimately show ?thesis using assms Right by (auto simp: calculateChartDimensions_def Let_def)
qed

text \<open>A legend on the right takes at most three tenths of the width, one below at most 68 pixels.\<close>

theorem chart_fits_panel:
  assumes "0 < w" and "0 < h"
  shows "let d = calculateChartDimensions w h position labels
     in 0 \<le> cd_width d \<and> 0 \<le> cd_height d \<and>
        (if position = Right
         then cd_width d + cd_legendWidth d = w \<and> 0 < cd_legendWidth d \<and> cd_legendWidth d \<le> w * 3 / 10 \<and> cd_height d = h
         else cd_width d = w \<and> cd_height d = max 0 (h - cd_legendHeight d) \<and> cd_legendHeight d \<in> {40, 68})"
  using assms by (rule chart_fits)

theorem chart_fits_panel_witness:
  "let d = calculateChartDimensions 600 400 Right [''api'', ''worker'']
   in 0 \<le> cd_width d \<and> 0 \<le> cd_height d \<and>
      (if Right = Right
       then cd_width d + cd_legendWidth d = 600 \<and> 0 < cd_legendWidth d \<and> cd_legendWidth d \<le> 600 * 3 / 10 \<and> cd_height d = 400
       else cd_width d = 600 \<and> cd_height d = max 0 (400 - cd_legendHeight d) \<and> cd_legendHeight d \<in> {40, 68})"
  by (rule chart_fits_panel) simp_all

text \<open>No part of the height bounds a legend below the plot, so a low panel has no plot at all.\<close>

lemma low_panel_has_no_plot:
  assumes "0 < w" and "0 < h" and "h \<le> 40"
  shows "cd_height (calculateChartDimensions w h Bottom labels) = 0"
  using chart_fits [of w h Bottom labels] assms by (auto simp: Let_def)

text \<open>At least 85 in 100 labels are no longer than the length the legend is sized for.\<close>

lemma sorted_prefix_count:
  assumes "sorted xs" and "k < length xs"
  shows "Suc k \<le> length (filter (\<lambda>x. x \<le> xs ! k) xs)"
proof -
  have "filter (\<lambda>x. x \<le> xs ! k) (take (Suc k) xs) = take (Suc k) xs"
    using assms by (auto simp: filter_id_conv in_set_conv_nth sorted_nth_mono)
  then have "length (filter (\<lambda>x. x \<le> xs ! k) (take (Suc k) xs)) = Suc k" using assms(2) by simp
  moreover have "filter P xs = filter P (take (Suc k) xs) @ filter P (drop (Suc k) xs)" for P
    by (simp flip: filter_append)
  ultimately show ?thesis by (metis length_append le_add1)
qed

lemma percentile_covers:
  assumes "legends \<noteq> []"
  shows "17 * length legends \<le> 20 * length (filter (\<lambda>l. length l \<le> percentile_length legends) legends)"
proof -
  let ?xs = "sort (map length legends)" and ?n = "length legends"
  let ?k = "(17 * ?n + 19) div 20 - 1"
  have n: "0 < ?n" using assms by simp
  then have "0 < (17 * ?n + 19) div 20" "17 * ?n \<le> 20 * ((17 * ?n + 19) div 20)" "(17 * ?n + 19) div 20 \<le> ?n"
    using div_mult_mod_eq [of "17 * ?n + 19" 20] mod_less_divisor [of 20 "17 * ?n + 19"] n by linarith+
  moreover from this(1) have "Suc ?k = (17 * ?n + 19) div 20" by simp
  ultimately have "?k < ?n" "17 * ?n \<le> 20 * Suc ?k" by (linarith, simp only:)
  then have k: "?k < length ?xs" "17 * ?n \<le> 20 * Suc ?k" unfolding length_sort length_map .
  have "Suc ?k \<le> length (filter (\<lambda>x. x \<le> ?xs ! ?k) ?xs)" by (rule sorted_prefix_count [OF _ k(1)]) simp
  also have "filter (\<lambda>x. x \<le> ?xs ! ?k) ?xs = sort (filter (\<lambda>x. x \<le> ?xs ! ?k) (map length legends))"
    by (simp add: filter_sort)
  also have "length \<dots> = length (filter (\<lambda>l. length l \<le> percentile_length legends) legends)"
    by (simp add: percentile_length_def Let_def filter_map comp_def)
  finally show ?thesis using k(2) by linarith
qed

section \<open>Lone points\<close>

lemma nearest_within_cases:
  "(\<exists>j\<in>set js. nearest_within yData a js \<in> {a + int j, a - int j} \<and> present_at yData (nearest_within yData a js)) \<or>
   nearest_within yData a js = a \<and> (\<forall>j\<in>set js. \<not> present_at yData (a + int j) \<and> \<not> present_at yData (a - int j))"
  by (induction js) auto

lemma nearest_within_first:
  assumes "sorted js" and "j \<in> set js" and "present_at yData (a + int j) \<or> present_at yData (a - int j)"
  shows "present_at yData (nearest_within yData a js) \<and> \<bar>nearest_within yData a js - a\<bar> \<le> int j"
  using assms by (induction js) auto

text \<open>The index is the closest one with a value, as long as there is one within 99 places.\<close>

lemma nearest_point_found:
  assumes "present_at yData i" and "i \<noteq> a" and "\<bar>i - a\<bar> < 100"
  shows "present_at yData (findNearestNonNull yData a) \<and> \<bar>findNearestNonNull yData a - a\<bar> \<le> \<bar>i - a\<bar>"
proof -
  let ?j = "nat \<bar>i - a\<bar>"
  have "?j \<in> set [1..<100]" using assms(2,3) by auto
  moreover have "present_at yData (a + int ?j) \<or> present_at yData (a - int ?j)" using assms(1) by (auto simp: abs_if)
  ultimately show ?thesis unfolding findNearestNonNull_def using nearest_within_first [of "[1..<100]" ?j yData a] by simp
qed

text \<open>Every point drawn for two gaps that meet has a value, when one has within 99 places.\<close>

lemma sandwiched_points_present:
  assumes "\<And>x. \<exists>i. present_at yData i \<and> \<bar>i - idx_at x\<bar> < 100" and "k \<in> set (findSandwichedIndices gaps yData idx_at)"
  shows "present_at yData k"
  using assms(2)
proof (induction gaps rule: induct_list012)
  case (3 g h gs)
  have "present_at yData (findNearestNonNull yData (idx_at x))" if absent: "\<not> present_at yData (idx_at x)" for x
  proof -
    obtain i where i: "present_at yData i" "\<bar>i - idx_at x\<bar> < 100" using assms(1) by blast
    with absent have "i \<noteq> idx_at x" by auto
    with nearest_point_found i show ?thesis by blast
  qed
  with 3 show ?case by (auto split: if_splits)
qed simp_all

end
