(* ===== verification/Metric_Inspect.thy ===== *)
theory Metric_Inspect
  imports Chart_Series
begin

text \<open>
  Inspection of a metric under \<^verbatim>\<open>container/MetricsExplorer/Inspect\<close>: aggregation of its series over time and
  over labels, the series at the mouse and the tables of the expanded view (\<^verbatim>\<open>utils.ts\<close>), and the state
  with its reducer and effects (\<^verbatim>\<open>useInspectMetrics.ts\<close>). The text of a value is given by the number it
  stands for, \<open>None\<close> being \<open>NaN\<close>, so that \<open>parseFloat\<close> and \<open>toString\<close> undo each other. Timestamps are
  whole milliseconds and values exact rationals.
\<close>

section \<open>Series\<close>

type_synonym number = "rat option"

record inspect_series =
  is_title :: string
  is_labels :: "(string \<times> string) list"
  is_points :: "(int \<times> number) list"

definition getAllTimestampsOfMetrics :: "inspect_series list \<Rightarrow> int list" where
  "getAllTimestampsOfMetrics seriesList = remdups_adj (sort (concat (map (\<lambda>s. map fst (is_points s)) seriesList)))"

definition getDefaultTimeAggregationInterval :: "inspect_series option \<Rightarrow> rat" where
  "getDefaultTimeAggregationInterval timeSeries =
     (case timeSeries of
        None \<Rightarrow> 60
      | Some s \<Rightarrow>
          max 60 (if 1 < length (is_points s)
                  then of_int \<bar>fst (is_points s ! 1) - fst (is_points s ! 0)\<bar> / 1000 else 0))"

section \<open>Maps of lists\<close>

text \<open>\<open>if (!m.has(k)) m.set(k, []); m.get(k).push(v)\<close> on a map in insertion order.\<close>

definition push_to :: "'k \<Rightarrow> 'v \<Rightarrow> ('k \<times> 'v list) list \<Rightarrow> ('k \<times> 'v list) list" where
  "push_to k v m = (case map_of m k of Some vs \<Rightarrow> map_set k (vs @ [v]) m | None \<Rightarrow> map_set k [v] m)"

definition group_by :: "('a \<Rightarrow> 'k) \<Rightarrow> ('a \<Rightarrow> 'v) \<Rightarrow> 'a list \<Rightarrow> ('k \<times> 'v list) list" where
  "group_by k v xs = fold (\<lambda>x. push_to (k x) (v x)) xs []"

section \<open>Numbers of a group\<close>

definition num2 :: "(rat \<Rightarrow> rat \<Rightarrow> rat) \<Rightarrow> number \<Rightarrow> number \<Rightarrow> number" where
  "num2 f a b = (case (a, b) of (Some x, Some y) \<Rightarrow> Some (f x y) | _ \<Rightarrow> None)"

definition sum_numbers :: "number list \<Rightarrow> number" where
  "sum_numbers vs = foldl (num2 (+)) (Some 0) vs"

definition avg_numbers :: "number list \<Rightarrow> number" where
  "avg_numbers vs = map_option (\<lambda>s. s / of_nat (length vs)) (sum_numbers vs)"

text \<open>\<open>Math.min\<close> and \<open>Math.max\<close> of a group, which is never empty.\<close>

fun extreme :: "(rat \<Rightarrow> rat \<Rightarrow> rat) \<Rightarrow> number list \<Rightarrow> number" where
  "extreme f [] = None"
| "extreme f [v] = v"
| "extreme f (v # vs) = num2 f v (extreme f vs)"

section \<open>Aggregation over time\<close>

text \<open>
  The interval is a whole number of milliseconds here, a thousand times that of the code, which comes from a
  field for whole seconds or from the distance of two timestamps; \<open>None\<close> is \<open>undefined\<close> or \<open>NaN\<close>.
\<close>

datatype time_option = Latest | Sum | Avg | Min | Max | Count
datatype space_option = Sum_By | Min_By | Max_By | Avg_By

record inspect_options =
  io_time :: "time_option option"
  io_interval :: "int option"
  io_space :: "space_option option"
  io_labels :: "string list"
  io_filters :: nat

text \<open>What the popover and the tables show of a point; a value of \<open>None\<close> is a dash.\<close>

datatype popover_type = Instance | Aggregated

record popover_data =
  pd_timestamp :: "int option"
  pd_value :: "number option"
  pd_title :: string
  pd_type :: popover_type

definition interval_bucket :: "int \<Rightarrow> int \<Rightarrow> int" where
  "interval_bucket interval timestamp = timestamp div interval * interval"

definition time_value :: "time_option option \<Rightarrow> number list \<Rightarrow> number" where
  "time_value opt vs =
     (case opt of
        Some Latest \<Rightarrow> last vs
      | Some Sum \<Rightarrow> sum_numbers vs
      | Some Avg \<Rightarrow> avg_numbers vs
      | Some Min \<Rightarrow> extreme min vs
      | Some Max \<Rightarrow> extreme max vs
      | Some Count \<Rightarrow> Some (of_nat (length vs))
      | None \<Rightarrow> last vs)"

definition aggregate_series :: "time_option option \<Rightarrow> int \<Rightarrow> inspect_series \<Rightarrow> inspect_series" where
  "aggregate_series opt interval s =
     s\<lparr>is_points := map (\<lambda>(b, vs). (b, time_value opt vs)) (group_by (\<lambda>p. interval_bucket interval (fst p)) snd (is_points s))\<rparr>"

definition instance_data :: "inspect_series \<Rightarrow> int \<times> number \<Rightarrow> popover_data" where
  "instance_data s p = \<lparr>pd_timestamp = Some (fst p), pd_value = Some (snd p), pd_title = is_title s, pd_type = Instance\<rparr>"

definition applyTimeAggregation ::
    "inspect_series list \<Rightarrow> inspect_options \<Rightarrow> inspect_series list \<times> (int \<times> popover_data list) list" where
  "applyTimeAggregation seriesList opts =
     (case io_interval opts of
        Some interval \<Rightarrow>
          if interval = 0 then (seriesList, [])
          else (map (aggregate_series (io_time opts) interval) seriesList,
                group_by (\<lambda>(s, p). interval_bucket interval (fst p)) (\<lambda>(s, p). instance_data s p)
                  (concat (map (\<lambda>s. map (Pair s) (is_points s)) seriesList)))
      | None \<Rightarrow> (seriesList, []))"

section \<open>Aggregation over labels\<close>

definition label_of :: "inspect_series \<Rightarrow> string \<Rightarrow> string option" where
  "label_of s l = map_of (is_labels s) l"

definition space_key :: "string list \<Rightarrow> inspect_series \<Rightarrow> string" where
  "space_key labels s =
     js_join '','' (map (\<lambda>l. l @ '':'' @ (case label_of s l of Some v \<Rightarrow> v | None \<Rightarrow> ''undefined'')) labels)"

definition space_value :: "space_option option \<Rightarrow> number list \<Rightarrow> number" where
  "space_value opt vs =
     (case opt of
        Some Sum_By \<Rightarrow> sum_numbers vs
      | Some Avg_By \<Rightarrow> avg_numbers vs
      | Some Min_By \<Rightarrow> extreme min vs
      | Some Max_By \<Rightarrow> extreme max vs
      | None \<Rightarrow> hd vs)"

definition number_or_zero :: "number \<Rightarrow> number" where
  "number_or_zero v = (case v of Some x \<Rightarrow> Some x | None \<Rightarrow> Some 0)"

definition aggregate_group :: "space_option option \<Rightarrow> string \<times> inspect_series list \<Rightarrow> inspect_series" where
  "aggregate_group opt g =
     (hd (snd g))\<lparr>is_points := sort_key fst (map (\<lambda>(t, vs). (t, number_or_zero (space_value opt vs)))
                     (group_by fst snd (concat (map is_points (snd g))))),
                  is_title := map (\<lambda>c. if c = CHR '','' then CHR '' '' else c) (fst g)\<rparr>"

definition applySpaceAggregation ::
    "inspect_series list \<Rightarrow> inspect_options \<Rightarrow> inspect_series list \<times> (string \<times> inspect_series list) list" where
  "applySpaceAggregation seriesList opts =
     (let groups = group_by (space_key (io_labels opts)) id seriesList
      in (map (aggregate_group (io_space opts)) groups, groups))"

section \<open>The mouse\<close>

text \<open>One series at an index, with the index and distance found so far; \<open>None\<close> is infinitely far.\<close>

definition closer_series :: "rat \<Rightarrow> (rat \<Rightarrow> rat) \<Rightarrow> nat \<times> number \<Rightarrow> (nat \<times> rat) option \<Rightarrow> (nat \<times> rat) option" where
  "closer_series top' y_pos iv best =
     (case snd iv of
        None \<Rightarrow> best
      | Some v \<Rightarrow>
          let d = \<bar>y_pos v - top'\<bar>
          in case best of
               Some (_, d') \<Rightarrow> if d < d' then Some (fst iv, d) else best
             | None \<Rightarrow> Some (fst iv, d))"

text \<open>The values of the series at the index of the mouse, the first series at 1; -1 when there is none.\<close>

definition getSeriesIndexFromPixel :: "rat \<Rightarrow> (rat \<Rightarrow> rat) \<Rightarrow> number list \<Rightarrow> int" where
  "getSeriesIndexFromPixel top' y_pos values =
     (case fold (closer_series top' y_pos) (zip [1..<Suc (length values)] values) None of
        Some (i, _) \<Rightarrow> int i | None \<Rightarrow> -1)"

definition closer_point :: "rat \<Rightarrow> int \<times> number \<Rightarrow> int \<times> number \<Rightarrow> int \<times> number" where
  "closer_point xVal p q =
     (if \<bar>of_int (fst p) - xVal\<bar> < \<bar>of_int (fst q) - xVal\<bar> then p else q)"

fun closest_point :: "rat \<Rightarrow> (int \<times> number) list \<Rightarrow> (int \<times> number) option" where
  "closest_point xVal [] = None"
| "closest_point xVal (p # ps) = Some (foldl (closer_point xVal) p ps)"

section \<open>The tables of the expanded view\<close>

definition from_time :: "(int \<times> number) list \<Rightarrow> int \<Rightarrow> nat option" where
  "from_time points timestamp = js_find (\<lambda>i. timestamp \<le> fst (points ! i)) [0..<length points]"

text \<open>\<open>findIndex\<close> gives -1 when no value is late enough; the test against \<open>undefined\<close> does not see it.\<close>

definition getRawDataFromTimeSeries :: "inspect_series \<Rightarrow> int \<Rightarrow> bool \<Rightarrow> popover_data list" where
  "getRawDataFromTimeSeries s timestamp showAll =
     (if showAll then map (instance_data s) (is_points s)
      else
        let i = (case from_time (is_points s) timestamp of Some i \<Rightarrow> int i | None \<Rightarrow> -1)
        in map (\<lambda>j. instance_data s (is_points s ! nat j)) [max 0 (i - 2)..min (int (length (is_points s)) - 1) (i + 2)])"

definition applied_labels :: "(string \<times> inspect_series list) list \<Rightarrow> string list" where
  "applied_labels groups = map (takeWhile (\<lambda>c. c \<noteq> CHR '':'')) (js_split CHR '','' (fst (hd groups)))"

definition getSpaceAggregatedDataFromTimeSeries ::
    "inspect_series \<Rightarrow> (string \<times> inspect_series list) list \<Rightarrow> int \<Rightarrow> bool \<Rightarrow> (string \<times> popover_data) list" where
  "getSpaceAggregatedDataFromTimeSeries s groups timestamp showAll =
     (if groups = [] then []
      else
        let matches = (\<lambda>g. list_all (\<lambda>l. label_of s l = label_of (hd (snd g)) l) (applied_labels groups));
            matching = fold (\<lambda>g m. if matches g then snd g else m) groups []
        in map (\<lambda>m. (js_join '','' (map (\<lambda>(k, v). k @ '':'' @ v) (is_labels m)),
                     \<lparr>pd_timestamp = None,
                      pd_value = map_option (\<lambda>i. snd (is_points m ! i)) (from_time (is_points m) timestamp),
                      pd_title = is_title m, pd_type = Aggregated\<rparr>))
             (if showAll then matching else take 5 matching))"

section \<open>The state of the inspection\<close>

datatype inspect_action =
    Set_Time time_option | Set_Interval "int option" | Set_Space space_option | Set_Labels "string list" | Set_Filters nat
  | Reset_Inspection | Apply_Options

definition initial_options :: inspect_options where
  "initial_options = \<lparr>io_time = None, io_interval = None, io_space = None, io_labels = [], io_filters = 0\<rparr>"

text \<open>The current and the applied options.\<close>

type_synonym inspect_choice = "inspect_options \<times> inspect_options"

definition metricInspectionReducer :: "inspect_choice \<Rightarrow> inspect_action \<Rightarrow> inspect_choice" where
  "metricInspectionReducer st action =
     (let (current, applied) = st
      in case action of
           Set_Time t \<Rightarrow> (current\<lparr>io_time := Some t\<rparr>, applied)
         | Set_Interval i \<Rightarrow> (current\<lparr>io_interval := i\<rparr>, applied)
         | Set_Space sp \<Rightarrow> (current\<lparr>io_space := Some sp\<rparr>, applied)
         | Set_Labels ls \<Rightarrow> (current\<lparr>io_labels := ls\<rparr>, applied)
         | Set_Filters f \<Rightarrow> (current\<lparr>io_filters := f\<rparr>, applied)
         | Apply_Options \<Rightarrow> (current, current)
         | Reset_Inspection \<Rightarrow> (initial_options, initial_options))"

definition inspection_step :: "inspect_options \<Rightarrow> nat" where
  "inspection_step opts =
     (if io_space opts \<noteq> None then 3
      else if io_time opts \<noteq> None \<and> (case io_interval opts of Some i \<Rightarrow> i \<noteq> 0 | None \<Rightarrow> False) then 2 else 1)"

definition aggregates_time :: "inspect_options \<Rightarrow> bool" where
  "aggregates_time opts \<longleftrightarrow>
     2 \<le> inspection_step opts \<and> io_time opts \<noteq> None \<and> (case io_interval opts of Some i \<Rightarrow> i \<noteq> 0 | None \<Rightarrow> False)"

text \<open>The series that are drawn, and their data on the common axis.\<close>

definition shown_series :: "inspect_series list \<Rightarrow> inspect_options \<Rightarrow> inspect_series list" where
  "shown_series raw opts =
     (let timeSeries = (if aggregates_time opts then fst (applyTimeAggregation raw opts) else raw)
      in if inspection_step opts = 3 then fst (applySpaceAggregation timeSeries opts) else timeSeries)"

definition format_series :: "inspect_series list \<Rightarrow> int list \<times> number list list" where
  "format_series seriesList =
     (let timestamps = getAllTimestampsOfMetrics seriesList
      in (timestamps, map (\<lambda>s. map (\<lambda>t. case map_of (rev (is_points s)) t of Some v \<Rightarrow> v | None \<Rightarrow> None) timestamps) seriesList))"

record inspect_state =
  in_raw :: "inspect_series list"
  in_choice :: inspect_choice
  in_formatted :: "int list \<times> number list list"
  in_aggregated :: "inspect_series list"
  in_time_map :: "(int \<times> popover_data list) list"
  in_space_map :: "(string \<times> inspect_series list) list"

text \<open>The memo of the drawn data, which sets the other three on the way.\<close>

definition recompute :: "inspect_state \<Rightarrow> inspect_state" where
  "recompute s =
     (let opts = snd (in_choice s);
          time = applyTimeAggregation (in_raw s) opts;
          s1 = (if aggregates_time opts then s\<lparr>in_time_map := snd time, in_aggregated := fst time\<rparr> else s);
          series = (if aggregates_time opts then fst time else in_raw s);
          space = applySpaceAggregation series opts;
          s2 = (if inspection_step opts = 3 then s1\<lparr>in_space_map := snd space, in_aggregated := fst space\<rparr> else s1)
      in s2\<lparr>in_formatted := format_series (shown_series (in_raw s) opts)\<rparr>)"

datatype inspect_event = Dispatch inspect_action | Answer "inspect_series list" | Reset

text \<open>The series of an answer by time, under titles of their own.\<close>

definition titled_series :: "inspect_series list \<Rightarrow> inspect_series list" where
  "titled_series seriesList =
     map (\<lambda>(i, s). s\<lparr>is_points := sort_key fst (is_points s), is_title := ''TS'' @ nat_digits (Suc i)\<rparr>)
       (zip [0..<length seriesList] seriesList)"

text \<open>
  An answer changes the series, which runs the memo in the render and then the effect; an action changes the
  options, which runs the memo; the reset sets the maps and the aggregated series too.
\<close>

definition inspect_event :: "inspect_event \<Rightarrow> inspect_state \<Rightarrow> inspect_state" where
  "inspect_event e s =
     (case e of
        Dispatch action \<Rightarrow> recompute (s\<lparr>in_choice := metricInspectionReducer (in_choice s) action\<rparr>)
      | Answer seriesList \<Rightarrow> (recompute (s\<lparr>in_raw := titled_series seriesList\<rparr>))\<lparr>in_aggregated := titled_series seriesList\<rparr>
      | Reset \<Rightarrow>
          recompute (s\<lparr>in_choice := metricInspectionReducer (in_choice s) Reset_Inspection, in_space_map := [],
            in_time_map := [], in_aggregated := in_raw s\<rparr>))"

section \<open>Groups\<close>

text \<open>The distinct elements in the order of their first appearance.\<close>

definition first_keys :: "'a list \<Rightarrow> 'a list" where
  "first_keys ks = rev (remdups (rev ks))"

lemma first_keys_Nil [simp]: "first_keys [] = []"
  by (simp add: first_keys_def)

lemma first_keys_snoc: "first_keys (ks @ [a]) = (if a \<in> set ks then first_keys ks else first_keys ks @ [a])"
  by (simp add: first_keys_def)

lemma first_keys_distinct [simp]: "distinct (first_keys ks)"
  by (simp add: first_keys_def)

lemma set_first_keys [simp]: "set (first_keys ks) = set ks"
  by (simp add: first_keys_def)

lemma push_to_map:
  assumes "distinct ks"
  shows "push_to a v (map (\<lambda>b. (b, F b)) ks) =
    (if a \<in> set ks then map (\<lambda>b. (b, if b = a then F b @ [v] else F b)) ks else map (\<lambda>b. (b, F b)) ks @ [(a, [v])])"
proof (cases "a \<in> set ks")
  case False
  then have "map_of (map (\<lambda>b. (b, F b)) ks) a = None" by (auto simp: map_of_eq_None_iff)
  with False show ?thesis by (simp add: push_to_def map_set_new image_iff)
next
  case True
  have "map_set a w (map (\<lambda>b. (b, F b)) ks) = map (\<lambda>b. (b, if b = a then w else F b)) ks" for w
    using True assms by (induction ks) auto
  moreover have "map_of (map (\<lambda>b. (b, F b)) ks) a = Some (F a)" using True by (induction ks) auto
  ultimately show ?thesis using True by (auto simp: push_to_def)
qed

text \<open>Grouping gives every key once, in the order of its first element, with the values of its elements in order.\<close>

lemma group_by_eq:
  "group_by k v xs = map (\<lambda>a. (a, map v (filter (\<lambda>x. k x = a) xs))) (first_keys (map k xs))"
proof (induction xs rule: rev_induct)
  case Nil
  then show ?case by (simp add: group_by_def)
next
  case (snoc x xs)
  have "group_by k v (xs @ [x]) = push_to (k x) (v x) (group_by k v xs)" by (simp add: group_by_def)
  also have "\<dots> = map (\<lambda>a. (a, map v (filter (\<lambda>y. k y = a) (xs @ [x])))) (first_keys (map k (xs @ [x])))"
  proof (cases "k x \<in> k ` set xs")
    case True
    then show ?thesis by (auto simp: snoc push_to_map first_keys_snoc)
  next
    case False
    then have "filter (\<lambda>y. k y = k x) xs = []" by (auto simp: filter_empty_conv image_iff)
    with False show ?thesis by (auto simp: snoc push_to_map first_keys_snoc)
  qed
  finally show ?case .
qed

lemma sum_over_groups:
  fixes f :: "'a \<Rightarrow> rat"
  assumes "distinct ks" and "k ` set xs \<subseteq> set ks"
  shows "(\<Sum>a\<leftarrow>ks. \<Sum>x\<leftarrow>filter (\<lambda>x. k x = a) xs. f x) = (\<Sum>x\<leftarrow>xs. f x)"
  using assms(2)
proof (induction xs)
  case Nil
  then show ?case by simp
next
  case (Cons x xs)
  have "(\<Sum>a\<leftarrow>ks. \<Sum>y\<leftarrow>filter (\<lambda>y. k y = a) (x # xs). f y) =
      (\<Sum>a\<leftarrow>ks. (if a = k x then f x else 0) + (\<Sum>y\<leftarrow>filter (\<lambda>y. k y = a) xs. f y))"
    by (intro arg_cong [where f = sum_list] map_cong) auto
  also have "\<dots> = (\<Sum>a\<leftarrow>ks. if a = k x then f x else 0) + (\<Sum>x\<leftarrow>xs. f x)"
    using Cons by (simp add: sum_list_addf)
  also have "(\<Sum>a\<leftarrow>ks. if a = k x then f x else 0) = f x"
    using assms(1) Cons.prems by (simp add: sum_list_distinct_conv_sum_set)
  finally show ?case by simp
qed

lemma sum_groups: "(\<Sum>g\<leftarrow>group_by k v xs. F (snd g)) = (\<Sum>a\<leftarrow>first_keys (map k xs). F (map v (filter (\<lambda>x. k x = a) xs)))"
  for F :: "_ \<Rightarrow> rat"
  by (simp add: group_by_eq comp_def)

section \<open>Sums are kept\<close>

definition all_numbers :: "(int \<times> number) list \<Rightarrow> bool" where
  "all_numbers ps \<longleftrightarrow> (\<forall>p\<in>set ps. snd p \<noteq> None)"

lemma foldl_num2: "None \<notin> set vs \<Longrightarrow> foldl (num2 (+)) (Some a) vs = Some (a + (\<Sum>v\<leftarrow>vs. the v))"
  by (induction vs arbitrary: a) (auto simp: num2_def add.assoc split: option.split)

lemma sum_numbers_eq: "None \<notin> set vs \<Longrightarrow> sum_numbers vs = Some (\<Sum>v\<leftarrow>vs. the v)"
  by (simp add: sum_numbers_def foldl_num2)

definition points_total :: "(int \<times> number) list \<Rightarrow> rat" where
  "points_total ps = (\<Sum>p\<leftarrow>ps. the (snd p))"

text \<open>Summing over time keeps the total of a series; counting gives the number of its points.\<close>

lemma time_sum_kept:
  assumes "all_numbers (is_points s)"
  shows "points_total (is_points (aggregate_series (Some Sum) interval s)) = points_total (is_points s)"
proof -
  let ?k = "\<lambda>p. interval_bucket interval (fst p)" and ?ps = "is_points s"
  have "points_total (is_points (aggregate_series (Some Sum) interval s)) =
      (\<Sum>g\<leftarrow>group_by ?k snd ?ps. the (sum_numbers (snd g)))"
    by (simp add: aggregate_series_def points_total_def time_value_def comp_def split_def)
  also have "\<dots> = (\<Sum>a\<leftarrow>first_keys (map ?k ?ps). the (sum_numbers (map snd (filter (\<lambda>p. ?k p = a) ?ps))))"
    by (rule sum_groups)
  also have "\<dots> = (\<Sum>a\<leftarrow>first_keys (map ?k ?ps). \<Sum>p\<leftarrow>filter (\<lambda>p. ?k p = a) ?ps. the (snd p))"
    using assms by (subst sum_numbers_eq) (force simp: all_numbers_def comp_def)+
  also have "\<dots> = points_total ?ps" unfolding points_total_def by (rule sum_over_groups) auto
  finally show ?thesis .
qed

lemma time_count_kept:
  "points_total (is_points (aggregate_series (Some Count) interval s)) = of_nat (length (is_points s))"
proof -
  let ?k = "\<lambda>p. interval_bucket interval (fst p)" and ?ps = "is_points s"
  have "points_total (is_points (aggregate_series (Some Count) interval s)) =
      (\<Sum>g\<leftarrow>group_by ?k snd ?ps. of_nat (length (snd g)))"
    by (simp add: aggregate_series_def points_total_def time_value_def comp_def split_def)
  also have "\<dots> = (\<Sum>a\<leftarrow>first_keys (map ?k ?ps). \<Sum>p\<leftarrow>filter (\<lambda>p. ?k p = a) ?ps. 1)"
    by (simp add: sum_groups [where F = "\<lambda>vs. of_nat (length vs)"] sum_list_triv)
  also have "\<dots> = (\<Sum>p\<leftarrow>?ps. 1)" by (rule sum_over_groups) auto
  finally show ?thesis by (simp add: sum_list_triv)
qed

text \<open>A bucket holds the points of its interval.\<close>

lemma interval_bucket_bounds:
  assumes "0 < interval"
  shows "interval_bucket interval t \<le> t \<and> t < interval_bucket interval t + interval"
proof -
  have "t = interval_bucket interval t + t mod interval" by (simp add: interval_bucket_def)
  moreover have "0 \<le> t mod interval" "t mod interval < interval" using assms by simp_all
  ultimately show ?thesis by linarith
qed

definition at_time :: "int \<Rightarrow> int \<times> number \<Rightarrow> rat" where
  "at_time t p = (if fst p = t then the (snd p) else 0)"

definition total_at :: "int \<Rightarrow> inspect_series list \<Rightarrow> rat" where
  "total_at t seriesList = (\<Sum>s\<leftarrow>seriesList. \<Sum>p\<leftarrow>is_points s. at_time t p)"

lemma sum_list_concat: "(\<Sum>x\<leftarrow>concat xss. f x) = (\<Sum>xs\<leftarrow>xss. \<Sum>x\<leftarrow>xs. f x)" for f :: "_ \<Rightarrow> rat"
  by (induction xss) simp_all

lemma sum_list_sort: "(\<Sum>x\<leftarrow>sort_key k xs. f x) = (\<Sum>x\<leftarrow>xs. f x)" for f :: "_ \<Rightarrow> rat"
proof -
  have "(\<Sum>x\<leftarrow>insort_key k y ys. f x) = f y + (\<Sum>x\<leftarrow>ys. f x)" for y ys by (induction ys) simp_all
  then show ?thesis by (induction xs) simp_all
qed

lemma group_sum_kept:
  assumes "\<forall>s\<in>set (snd g). all_numbers (is_points s)"
  shows "(\<Sum>p\<leftarrow>is_points (aggregate_group (Some Sum_By) g). at_time t p) = total_at t (snd g)"
proof -
  let ?ps = "concat (map is_points (snd g))"
  have numbers: "None \<notin> snd ` set (filter (\<lambda>p. fst p = a) ?ps)" for a using assms by (force simp: all_numbers_def)
  have "(\<Sum>p\<leftarrow>is_points (aggregate_group (Some Sum_By) g). at_time t p) =
      (\<Sum>g\<leftarrow>group_by fst snd ?ps. at_time t (fst g, number_or_zero (sum_numbers (snd g))))"
    by (simp add: aggregate_group_def sum_list_sort space_value_def comp_def split_def)
  also have "\<dots> = (\<Sum>a\<leftarrow>first_keys (map fst ?ps). at_time t (a, number_or_zero (sum_numbers (map snd (filter (\<lambda>p. fst p = a) ?ps)))))"
    by (simp add: group_by_eq comp_def)
  also have "\<dots> = (\<Sum>a\<leftarrow>first_keys (map fst ?ps). \<Sum>p\<leftarrow>filter (\<lambda>p. fst p = a) ?ps. at_time t p)"
  proof (intro arg_cong [where f = sum_list] map_cong refl)
    fix a
    have "sum_numbers (map snd (filter (\<lambda>p. fst p = a) ?ps)) = Some (\<Sum>p\<leftarrow>filter (\<lambda>p. fst p = a) ?ps. the (snd p))"
      using numbers [of a] by (subst sum_numbers_eq) (simp_all add: comp_def)
    moreover have "(\<Sum>p\<leftarrow>filter (\<lambda>p. fst p = a) ?ps. at_time t p) =
        (\<Sum>p\<leftarrow>filter (\<lambda>p. fst p = a) ?ps. if a = t then the (snd p) else 0)"
      by (intro arg_cong [where f = sum_list] map_cong) (auto simp: at_time_def)
    ultimately show "at_time t (a, number_or_zero (sum_numbers (map snd (filter (\<lambda>p. fst p = a) ?ps)))) =
        (\<Sum>p\<leftarrow>filter (\<lambda>p. fst p = a) ?ps. at_time t p)"
      by (simp add: at_time_def number_or_zero_def)
  qed
  also have "\<dots> = (\<Sum>p\<leftarrow>?ps. at_time t p)" by (rule sum_over_groups) auto
  finally show ?thesis by (simp add: sum_list_concat total_at_def comp_def)
qed

text \<open>
  C26. Summing by labels keeps the total at every time, whatever the labels: no value is lost or counted twice.
\<close>

theorem space_sum_kept:
  assumes "\<forall>s\<in>set seriesList. all_numbers (is_points s)" and "io_space opts = Some Sum_By"
  shows "total_at t (fst (applySpaceAggregation seriesList opts)) = total_at t seriesList"
proof -
  let ?k = "space_key (io_labels opts)"
  have members: "set (snd g) \<subseteq> set seriesList" if "g \<in> set (group_by ?k id seriesList)" for g
    using that by (auto simp: group_by_eq)
  have "total_at t (fst (applySpaceAggregation seriesList opts)) =
      (\<Sum>g\<leftarrow>group_by ?k id seriesList. \<Sum>p\<leftarrow>is_points (aggregate_group (Some Sum_By) g). at_time t p)"
    using assms(2) by (simp add: applySpaceAggregation_def Let_def total_at_def comp_def)
  also have "\<dots> = (\<Sum>g\<leftarrow>group_by ?k id seriesList. total_at t (snd g))"
    using assms(1) members by (intro arg_cong [where f = sum_list] map_cong refl group_sum_kept) blast
  also have "\<dots> = (\<Sum>a\<leftarrow>first_keys (map ?k seriesList). \<Sum>s\<leftarrow>filter (\<lambda>s. ?k s = a) seriesList. \<Sum>p\<leftarrow>is_points s. at_time t p)"
    unfolding total_at_def by (subst sum_groups) (simp add: comp_def)
  also have "\<dots> = total_at t seriesList" unfolding total_at_def by (rule sum_over_groups) auto
  finally show ?thesis .
qed

text \<open>Every time bucket of a series has one point: the aggregate of the values that fall in it, in their order.\<close>

lemma time_points:
  "is_points (aggregate_series opt interval s) =
     map (\<lambda>b. (b, time_value opt (map snd (filter (\<lambda>p. interval_bucket interval (fst p) = b) (is_points s)))))
       (first_keys (map (\<lambda>p. interval_bucket interval (fst p)) (is_points s)))"
  by (simp add: aggregate_series_def group_by_eq comp_def)

section \<open>Groups are label values\<close>

lemma join_inject:
  assumes "length xs = length ys" and "\<forall>x\<in>set xs \<union> set ys. CHR '','' \<notin> set x" and "js_join '','' xs = js_join '','' ys"
  shows "xs = ys"
  using assms
proof (induction xs ys rule: list_induct2)
  case (Cons x xs y ys)
  show ?case
  proof (cases xs)
    case Nil
    with Cons show ?thesis by simp
  next
    case (Cons x' xs')
    with Cons.hyps obtain y' ys' where ys: "ys = y' # ys'" by (cases ys) auto
    have eq: "x @ CHR '','' # js_join '','' xs = y @ CHR '','' # js_join '','' ys"
      using Cons.prems(2) by (simp add: Cons ys)
    have free: "CHR '','' \<notin> set x" "CHR '','' \<notin> set y" using Cons.prems(1) by auto
    have "takeWhile ((\<noteq>) CHR '','') (x @ CHR '','' # js_join '','' xs) = x"
      "takeWhile ((\<noteq>) CHR '','') (y @ CHR '','' # js_join '','' ys) = y"
      using free by (auto simp: takeWhile_append)
    with eq have "x = y" by simp
    with eq have "js_join '','' xs = js_join '','' ys" by simp
    with Cons.IH Cons.prems(1) \<open>x = y\<close> show ?thesis by simp
  qed
qed simp

text \<open>
  Two series are in one group exactly when they agree on the chosen labels, as long as no label or value
  has a comma and no value is the word \<open>undefined\<close>.
\<close>

lemma space_key_iff:
  assumes "\<forall>l\<in>set labels. CHR '','' \<notin> set l"
    and "\<And>s l v. s \<in> {a, b} \<Longrightarrow> label_of s l = Some v \<Longrightarrow> CHR '','' \<notin> set v \<and> v \<noteq> ''undefined''"
  shows "space_key labels a = space_key labels b \<longleftrightarrow> (\<forall>l\<in>set labels. label_of a l = label_of b l)"
proof
  let ?text = "\<lambda>s l. l @ '':'' @ (case label_of s l of Some v \<Rightarrow> v | None \<Rightarrow> ''undefined'')"
  have free: "CHR '','' \<notin> set (?text s l)" if "s \<in> {a, b}" "l \<in> set labels" for s l
    using that assms by (auto split: option.split)
  assume "space_key labels a = space_key labels b"
  then have "map (?text a) labels = map (?text b) labels"
    unfolding space_key_def
  proof (intro join_inject)
    show "\<forall>x\<in>set (map (?text a) labels) \<union> set (map (?text b) labels). CHR '','' \<notin> set x"
      unfolding set_map ball_Un ball_simps using free by blast
  qed simp_all
  then have "?text a l = ?text b l" if "l \<in> set labels" for l using that by simp
  then have same: "(case label_of a l of Some v \<Rightarrow> v | None \<Rightarrow> ''undefined'') = (case label_of b l of Some v \<Rightarrow> v | None \<Rightarrow> ''undefined'')"
    if "l \<in> set labels" for l using that by simp
  show "\<forall>l\<in>set labels. label_of a l = label_of b l"
  proof
    fix l assume "l \<in> set labels"
    from same [OF this] show "label_of a l = label_of b l"
      using assms(2) [of a l] assms(2) [of b l] by (cases "label_of a l"; cases "label_of b l") auto
  qed
qed (simp add: space_key_def cong: map_cong)

section \<open>The table and the graph\<close>

text \<open>The options to apply go as far as those applied, once intervals are not emptied.\<close>

definition goes_as_far :: "inspect_options \<Rightarrow> inspect_options \<Rightarrow> bool" where
  "goes_as_far opts applied \<longleftrightarrow>
     (io_space applied \<noteq> None \<longrightarrow> io_space opts \<noteq> None) \<and> (io_time applied \<noteq> None \<longrightarrow> io_time opts \<noteq> None) \<and>
     ((\<exists>i. io_interval applied = Some i \<and> i \<noteq> 0) \<longrightarrow> (\<exists>i. io_interval opts = Some i \<and> i \<noteq> 0))"

definition graph_shows_table :: "inspect_state \<Rightarrow> bool" where
  "graph_shows_table s \<longleftrightarrow> in_formatted s = format_series (in_aggregated s)"

definition inspect_inv :: "inspect_state \<Rightarrow> bool" where
  "inspect_inv s \<longleftrightarrow>
     goes_as_far (fst (in_choice s)) (snd (in_choice s)) \<and> (inspection_step (snd (in_choice s)) = 1 \<longrightarrow> in_aggregated s = in_raw s)"

lemma step_cases: "inspection_step opts = 1 \<or> inspection_step opts = 2 \<or> inspection_step opts = 3"
  by (simp add: inspection_step_def)

lemma step_two_aggregates: "inspection_step opts = 2 \<Longrightarrow> aggregates_time opts"
  by (auto simp: inspection_step_def aggregates_time_def split: if_splits)

lemma recompute_simps [simp]:
  "in_raw (recompute s) = in_raw s" "in_choice (recompute s) = in_choice s"
  by (simp_all add: recompute_def Let_def)

lemma recompute_formatted: "in_formatted (recompute s) = format_series (shown_series (in_raw s) (snd (in_choice s)))"
  by (simp add: recompute_def Let_def)

lemma recompute_aggregated:
  "in_aggregated (recompute s) =
    (if inspection_step (snd (in_choice s)) = 1 then in_aggregated s else shown_series (in_raw s) (snd (in_choice s)))"
  using step_cases [of "snd (in_choice s)"] step_two_aggregates [of "snd (in_choice s)"]
  by (auto simp: recompute_def Let_def shown_series_def aggregates_time_def)

lemma shown_first_step: "inspection_step opts = 1 \<Longrightarrow> shown_series raw opts = raw"
  by (simp add: shown_series_def aggregates_time_def)

text \<open>An action is plain when it does not empty the interval.\<close>

definition plain_event :: "inspect_event \<Rightarrow> bool" where
  "plain_event e \<longleftrightarrow> (\<forall>i. e = Dispatch (Set_Interval i) \<longrightarrow> i \<noteq> None \<and> i \<noteq> Some 0) \<and> e \<noteq> Dispatch Reset_Inspection"

lemma goes_as_far_step:
  "goes_as_far opts applied \<Longrightarrow> inspection_step opts = 1 \<Longrightarrow> inspection_step applied = 1"
  by (auto simp: goes_as_far_def inspection_step_def split: if_splits option.splits)

lemma event_inv:
  assumes "inspect_inv s" and "plain_event e"
  shows "inspect_inv (inspect_event e s)"
proof (cases e)
  case (Dispatch action)
  obtain current applied where choice: "in_choice s = (current, applied)" by (cases "in_choice s")
  then have inv: "goes_as_far current applied" "inspection_step applied = 1 \<longrightarrow> in_aggregated s = in_raw s"
    using assms(1) by (simp_all add: inspect_inv_def)
  obtain current' applied' where choice': "metricInspectionReducer (current, applied) action = (current', applied')"
    by (cases "metricInspectionReducer (current, applied) action")
  have "goes_as_far current' applied' \<and> (inspection_step applied' = 1 \<longrightarrow> inspection_step applied = 1)"
    using choice' inv(1) assms(2) goes_as_far_step [OF inv(1)]
    by (cases action) (auto simp: metricInspectionReducer_def goes_as_far_def plain_event_def Dispatch)
  with inv(2) choice choice' show ?thesis
    by (simp add: Dispatch inspect_event_def inspect_inv_def recompute_aggregated)
next
  case (Answer seriesList)
  with assms(1) show ?thesis by (simp add: inspect_event_def inspect_inv_def)
next
  case Reset
  then show ?thesis
    by (simp add: inspect_event_def inspect_inv_def metricInspectionReducer_def Let_def split_def goes_as_far_def
        initial_options_def recompute_aggregated inspection_step_def)
qed

lemma event_graph:
  assumes "inspect_inv s" and "plain_event e"
    and "(\<forall>seriesList. e \<noteq> Answer seriesList) \<or> inspection_step (snd (in_choice (inspect_event e s))) = 1"
  shows "graph_shows_table (inspect_event e s)"
proof (cases "inspection_step (snd (in_choice (inspect_event e s))) = 1")
  case True
  then have "in_aggregated (inspect_event e s) = in_raw (inspect_event e s)"
    using event_inv [OF assms(1,2)] by (simp add: inspect_inv_def)
  moreover have "in_formatted (inspect_event e s) =
      format_series (shown_series (in_raw (inspect_event e s)) (snd (in_choice (inspect_event e s))))"
    by (simp add: inspect_event_def recompute_formatted split: inspect_event.split)
  ultimately show ?thesis using True by (simp add: graph_shows_table_def shown_first_step)
next
  case False
  with assms(3) obtain t where t: "inspect_event e s = recompute t"
    by (cases e) (auto simp: inspect_event_def)
  with False show ?thesis by (simp add: graph_shows_table_def recompute_formatted recompute_aggregated)
qed

definition new_inspection :: inspect_state where
  "new_inspection =
     \<lparr>in_raw = [], in_choice = (initial_options, initial_options), in_formatted = format_series [], in_aggregated = [],
      in_time_map = [], in_space_map = []\<rparr>"

text \<open>
  C27. After any changes of the options, answers and resets that do not empty the interval, the graph draws the
  series of the table, unless an answer came last while an aggregation was applied.
\<close>

theorem inspection_in_step:
  assumes "\<forall>e\<in>set (es @ [e]). plain_event e"
    and "(\<forall>seriesList. e \<noteq> Answer seriesList) \<or> inspection_step (snd (in_choice (fold inspect_event (es @ [e]) new_inspection))) = 1"
  shows "graph_shows_table (fold inspect_event (es @ [e]) new_inspection)"
proof -
  have "inspect_inv s \<Longrightarrow> \<forall>e\<in>set es. plain_event e \<Longrightarrow> inspect_inv (fold inspect_event es s)" for s
    by (induction es arbitrary: s) (simp_all add: event_inv)
  then have "inspect_inv (fold inspect_event es new_inspection)"
    using assms(1) by (simp add: new_inspection_def inspect_inv_def goes_as_far_def)
  with event_graph [of "fold inspect_event es new_inspection" e] assms show ?thesis by simp
qed

section \<open>The mouse finds the closest series\<close>

definition closest_of :: "rat \<Rightarrow> (rat \<Rightarrow> rat) \<Rightarrow> (nat \<times> number) set \<Rightarrow> (nat \<times> rat) option \<Rightarrow> bool" where
  "closest_of y f A r \<longleftrightarrow>
     (case r of
        None \<Rightarrow> \<forall>i v. (i, Some v) \<notin> A
      | Some (i, d) \<Rightarrow> (\<exists>v. (i, Some v) \<in> A \<and> d = \<bar>f v - y\<bar>) \<and> (\<forall>j v. (j, Some v) \<in> A \<longrightarrow> d \<le> \<bar>f v - y\<bar>))"

lemma closest_step:
  assumes "closest_of y f A r"
  shows "closest_of y f (insert iv A) (closer_series y f iv r)"
proof (cases "snd iv")
  case None
  then obtain i where "iv = (i, None)" by (cases iv) auto
  with assms show ?thesis by (auto simp: closest_of_def closer_series_def split: option.splits)
next
  case (Some v)
  then obtain i where iv: "iv = (i, Some v)" by (cases iv) auto
  show ?thesis
  proof (cases r)
    case None
    with assms iv show ?thesis by (auto simp: closest_of_def closer_series_def)
  next
    case (Some best)
    obtain j d where best: "best = (j, d)" by (cases best)
    obtain w where w: "(j, Some w) \<in> A" "d = \<bar>f w - y\<bar>" and low: "\<And>k u. (k, Some u) \<in> A \<Longrightarrow> d \<le> \<bar>f u - y\<bar>"
      using assms Some best by (auto simp: closest_of_def)
    show ?thesis
    proof (cases "\<bar>f v - y\<bar> < d")
      case True
      have "\<bar>f v - y\<bar> \<le> \<bar>f u - y\<bar>" if "(k, Some u) \<in> A" for k u using low [OF that] True by linarith
      with True Some best iv show ?thesis by (auto simp: closest_of_def closer_series_def)
    next
      case False
      with Some best iv w low show ?thesis by (auto simp: closest_of_def closer_series_def)
    qed
  qed
qed

lemma fold_closest: "closest_of y f (set ivs) (fold (closer_series y f) ivs None)"
proof (induction ivs rule: rev_induct)
  case Nil
  then show ?case by (simp add: closest_of_def)
next
  case (snoc iv ivs)
  from closest_step [OF this, of iv] show ?case by simp
qed

text \<open>The index is that of a series with a value at the mouse, and no other value is drawn closer.\<close>

lemma series_at_mouse_closest:
  assumes "getSeriesIndexFromPixel y f values = i"
  shows "i = -1 \<and> (\<forall>v\<in>set values. v = None) \<or>
    (\<exists>v. 1 \<le> i \<and> nat i \<le> length values \<and> values ! (nat i - 1) = Some v \<and>
      (\<forall>w. Some w \<in> set values \<longrightarrow> \<bar>f v - y\<bar> \<le> \<bar>f w - y\<bar>))"
proof -
  let ?ivs = "zip [1..<Suc (length values)] values"
  have mem: "(k, v) \<in> set ?ivs \<longleftrightarrow> 1 \<le> k \<and> k \<le> length values \<and> v = values ! (k - 1)" for k v
  proof
    assume "(k, v) \<in> set ?ivs"
    then obtain n where "n < length values" "k = [1..<Suc (length values)] ! n" "v = values ! n" by (auto simp: set_zip)
    then show "1 \<le> k \<and> k \<le> length values \<and> v = values ! (k - 1)" by (auto simp del: upt_Suc)
  next
    assume "1 \<le> k \<and> k \<le> length values \<and> v = values ! (k - 1)"
    then show "(k, v) \<in> set ?ivs" by (auto simp: set_zip simp del: upt_Suc intro!: exI [of _ "k - 1"])
  qed
  have covered: "\<exists>k. (k, v) \<in> set ?ivs" if "v \<in> set values" for v
  proof -
    obtain n where "n < length values" "v = values ! n" using \<open>v \<in> set values\<close> by (metis in_set_conv_nth)
    then have "(Suc n, v) \<in> set ?ivs" unfolding mem by simp
    then show ?thesis ..
  qed
  have closest: "closest_of y f (set ?ivs) (fold (closer_series y f) ?ivs None)" by (rule fold_closest)
  show ?thesis
  proof (cases "fold (closer_series y f) ?ivs None")
    case None
    then have absent: "(k, Some v) \<notin> set ?ivs" for k v using closest by (simp add: closest_of_def)
    have "v = None" if "v \<in> set values" for v using covered [OF that] absent by (cases v) auto
    then have "\<forall>v\<in>set values. v = None" by blast
    with assms None show ?thesis by (simp add: getSeriesIndexFromPixel_def)
  next
    case (Some best)
    obtain k d where best: "best = (k, d)" by (cases best)
    with closest Some obtain v where v: "(k, Some v) \<in> set ?ivs" "d = \<bar>f v - y\<bar>"
        and low: "\<And>j w. (j, Some w) \<in> set ?ivs \<Longrightarrow> d \<le> \<bar>f w - y\<bar>"
      by (auto simp: closest_of_def)
    have k: "1 \<le> k" "k \<le> length values" "values ! (k - 1) = Some v" using v(1) unfolding mem by simp_all
    have "\<bar>f v - y\<bar> \<le> \<bar>f w - y\<bar>" if "Some w \<in> set values" for w
      using covered [OF that] low v(2) by blast
    moreover have "i = int k" using assms Some best by (simp add: getSeriesIndexFromPixel_def)
    ultimately show ?thesis using k by (intro disjI2 exI [of _ v]) simp
  qed
qed

section \<open>Concrete sessions\<close>

definition example_series :: "inspect_series list" where
  "example_series =
     [\<lparr>is_title = ''TS1'', is_labels = [(''host'', ''a'')], is_points = [(0, Some 1), (30000, Some 2), (60000, Some 4)]\<rparr>,
      \<lparr>is_title = ''TS2'', is_labels = [(''host'', ''a'')], is_points = [(0, Some 8)]\<rparr>,
      \<lparr>is_title = ''TS3'', is_labels = [(''host'', ''b'')], is_points = [(0, Some 16)]\<rparr>]"

theorem space_sum_kept_witness:
  "total_at 0 (fst (applySpaceAggregation example_series (initial_options\<lparr>io_space := Some Sum_By, io_labels := [''host'']\<rparr>))) =
    total_at 0 example_series"
  by (rule space_sum_kept) (simp_all add: example_series_def all_numbers_def)

lemma example_groups:
  "map (\<lambda>s. (is_title s, is_points s))
     (fst (applySpaceAggregation example_series (initial_options\<lparr>io_space := Some Sum_By, io_labels := [''host'']\<rparr>))) =
   [(''host:a'', [(0, Some 9), (30000, Some 2), (60000, Some 4)]), (''host:b'', [(0, Some 16)])]"
  by code_simp

definition example_inspection :: "inspect_event list" where
  "example_inspection =
     [Answer example_series, Dispatch (Set_Time Sum), Dispatch (Set_Interval (Some 60000)), Dispatch Apply_Options]"

theorem inspection_in_step_witness:
  "graph_shows_table (fold inspect_event (example_inspection @ [Dispatch (Set_Space Sum_By)]) new_inspection)"
  by (rule inspection_in_step) (simp_all add: example_inspection_def plain_event_def)

text \<open>
  An answer that comes while an aggregation is applied, as one for new filters does, is drawn aggregated, but
  the effect puts the series themselves into the table.
\<close>

lemma answer_resets_table:
  "let s = fold inspect_event (example_inspection @ [Answer example_series]) new_inspection
   in \<not> graph_shows_table s \<and> in_aggregated s = in_raw s \<and> map length (snd (in_formatted s)) = [2, 2, 2]"
  unfolding graph_shows_table_def by code_simp

text \<open>Emptying the interval and applying it draws the series themselves, but the table keeps the aggregation.\<close>

lemma emptied_interval_keeps_table:
  "let s = fold inspect_event (example_inspection @ [Dispatch (Set_Interval None), Dispatch Apply_Options]) new_inspection
   in \<not> graph_shows_table s"
  unfolding graph_shows_table_def by code_simp

text \<open>Label values with commas and colons run into each other in the key of a group.\<close>

lemma keys_run_together:
  "space_key [''a'', ''b''] \<lparr>is_title = [], is_labels = [(''a'', ''x,b:y''), (''b'', ''z'')], is_points = []\<rparr> =
   space_key [''a'', ''b''] \<lparr>is_title = [], is_labels = [(''a'', ''x''), (''b'', ''y,b:z'')], is_points = []\<rparr>"
  by code_simp

text \<open>A time after the last point gives the first two.\<close>

lemma late_time_gives_first_points:
  "map pd_timestamp (getRawDataFromTimeSeries (hd example_series) 90000 False) = [Some 0, Some 30000]"
  by code_simp

end
