(* ===== verification/Log_Pages.thy ===== *)
theory Log_Pages
  imports Query_Provider Filter_Parser
begin

text \<open>
  The pages of logs. \<^verbatim>\<open>container/LogsExplorerViews/explorerUtils.ts\<close> makes the requests of the logs explorer with
  \<^verbatim>\<open>lib/newQueryBuilder/getPaginationQueryData.ts\<close>, and \<^verbatim>\<open>container/LogsExplorerViews/index.tsx\<close> appends what
  the list is scrolled to. \<^verbatim>\<open>container/LogDetailedView/ContextView\<close> shows the lines around a log with the
  requests of \<^verbatim>\<open>container/LogsContextList/utils.ts\<close>, and \<^verbatim>\<open>container/SpanDetailsDrawer/SpanLogs\<close> those around
  the logs of a span. The answers of the backend and the identifiers of \<open>uuid\<close> are arguments.
\<close>

section \<open>Requests of the explorer\<close>

definition getPaginationQueryDataV2 :: "int \<Rightarrow> int \<Rightarrow> int \<times> int" where
  "getPaginationQueryDataV2 page pageSize = ((page - 1) * pageSize, pageSize)"

definition getListQuery :: "typed_query option \<Rightarrow> provider_query option" where
  "getListQuery stagedQuery =
     (case stagedQuery of
        None \<Rightarrow> None
      | Some q \<Rightarrow> (case qs_queryData q of [] \<Rightarrow> None | item # _ \<Rightarrow> Some item))"

definition no_aggregate_key :: "string \<Rightarrow> autocomplete_data" where
  "no_aggregate_key k = \<lparr>ac_id = None, ac_dataType = Some DT_String, ac_key = k, ac_type = Some []\<rparr>"

definition id_item :: "string \<Rightarrow> string \<Rightarrow> string \<Rightarrow> tag_filter_item" where
  "id_item uuid op' logId =
     \<lparr>tf_id = uuid, tf_key = Some (no_aggregate_key ''id''), tf_op = op', tf_value = Some (VOne (SStr logId))\<rparr>"

definition filter_items :: "tag_filter option \<Rightarrow> tag_filter_item list" where
  "filter_items f = (case f of Some f \<Rightarrow> tg_items f | None \<Rightarrow> [])"

text \<open>The filters and the text that keep the rows up to a linked log.\<close>

definition up_to_log :: "string \<Rightarrow> string \<Rightarrow> tag_filter option \<Rightarrow> tag_filter" where
  "up_to_log uuid logId filters = \<lparr>tg_items = filter_items filters @ [id_item uuid ''<='' logId], tg_op = ''AND''\<rparr>"

definition up_to_log_text :: "string \<Rightarrow> string \<Rightarrow> string" where
  "up_to_log_text expression logId = js_trim (expression @ '' id <= '' @ [CHR 0x27] @ logId @ [CHR 0x27])"

definition severity_key :: autocomplete_data where
  "severity_key =
     \<lparr>ac_id = Some ''severity_text--string----true'', ac_dataType = Some DT_String, ac_key = ''severity_text'', ac_type = Some []\<rparr>"

definition getFrequencyChartData :: "string \<Rightarrow> typed_query option \<Rightarrow> string option \<Rightarrow> typed_query option" where
  "getFrequencyChartData uuid stagedQuery activeLogId =
     (case (stagedQuery, getListQuery stagedQuery) of
        (Some staged, Some base) \<Rightarrow>
          let expression = str_or (bq_filter base) [];
              expression' = (if truthy_str activeLogId then up_to_log_text expression (the activeLogId) else expression);
              filters = (if truthy_str activeLogId then Some (up_to_log uuid (the activeLogId) (bq_filters base)) else bq_filters base)
          in Some (staged\<lparr>qs_queryData :=
               [base\<lparr>bq_disabled := False, pq_aggregateOperator := Some ''count'', bq_filter := Some expression',
                  bq_filters := filters, bq_groupBy := [severity_key], bq_legend := ''{{severity_text}}'', bq_orderBy := [],
                  bq_having := Having_Expression []\<rparr>]\<rparr>)
      | _ \<Rightarrow> None)"

record page_params =
  pp_page :: int
  pp_pageSize :: int
  pp_filters :: "tag_filter option"
  pp_filter :: "string option"
  pp_activeLogId :: "string option"
  pp_orderBy :: string

definition list_order :: "string \<Rightarrow> order_by list" where
  "list_order orderBy =
     (let parts = js_split CHR '':'' orderBy;
          column = str_or (Some (hd parts)) ''timestamp'';
          direction = str_or (case tl parts of [] \<Rightarrow> None | d # _ \<Rightarrow> Some d) ''desc''
      in [\<lparr>ob_columnName = column, ob_order = direction\<rparr>, \<lparr>ob_columnName = ''id'', ob_order = direction\<rparr>])"

definition list_row :: "string \<Rightarrow> typed_query \<Rightarrow> page_params \<Rightarrow> provider_query" where
  "list_row uuid query ps =
     (let (offset, pageSize) = getPaginationQueryDataV2 (pp_page ps) (pp_pageSize ps);
          item = (case getListQuery (Some query) of Some q \<Rightarrow> q | None \<Rightarrow> initialQueryBuilderFormValues);
          active = pp_activeLogId ps;
          filters = (if truthy_str active then Some (up_to_log uuid (the active) (pp_filters ps)) else pp_filters ps);
          expression = str_or (pp_filter ps) []
      in item\<lparr>bq_offset := Some offset, bq_pageSize := Some pageSize, bq_limit := None,
           bq_filters := coalesce filters (bq_filters item),
           bq_filter := Some (if truthy_str active then up_to_log_text expression (the active) else expression),
           bq_groupBy := [], bq_having := Having_Expression [], bq_orderBy := list_order (pp_orderBy ps), bq_disabled := False\<rparr>)"

definition getQueryByPanelType :: "string \<Rightarrow> typed_query option \<Rightarrow> panel_type \<Rightarrow> page_params \<Rightarrow> typed_query option" where
  "getQueryByPanelType uuid query selectedPanelType ps =
     map_option (\<lambda>q. if selectedPanelType = P_LIST then q\<lparr>qs_queryData := [list_row uuid q ps]\<rparr> else q) query"

definition getExportQueryData :: "typed_query option \<Rightarrow> panel_type \<Rightarrow> typed_query option" where
  "getExportQueryData query panelType =
     (case query of
        None \<Rightarrow> None
      | Some q \<Rightarrow>
          if panelType = P_LIST then
            map_option
              (\<lambda>item. q\<lparr>qs_queryData :=
                 [item\<lparr>bq_orderBy := [\<lparr>ob_columnName = ''timestamp'', ob_order = ''desc''\<rparr>], bq_limit := None\<rparr>]\<rparr>)
              (getListQuery (Some q))
          else Some q)"

section \<open>The list of the explorer\<close>

text \<open>The first result of an answer: its rows, and whether the backend has more.\<close>

record 'l page_result =
  pr_list :: "'l list option"
  pr_hasNextPage :: "bool option"

text \<open>What a render sees of the URL, the staged query and the store.\<close>

record explorer_view =
  ev_staged :: "typed_query option"
  ev_panel :: panel_type
  ev_pageSize :: int
  ev_activeLogId :: "string option"
  ev_orderBy :: string
  ev_minTime :: int

record 'l log_list =
  ll_page :: int
  ll_logs :: "'l list"
  ll_request :: "typed_query option"
  ll_prevOrderBy :: string
  ll_minTime :: int
  ll_data :: "'l page_result option"

definition new_log_list :: "explorer_view \<Rightarrow> 'l log_list" where
  "new_log_list v =
     \<lparr>ll_page = 1, ll_logs = [], ll_request = None, ll_prevOrderBy = ev_orderBy v, ll_minTime = ev_minTime v, ll_data = None\<rparr>"

definition list_limit :: "explorer_view \<Rightarrow> int" where
  "list_limit v =
     (case getListQuery (ev_staged v) of Some q \<Rightarrow> (case bq_limit q of Some l \<Rightarrow> l | None \<Rightarrow> 0) | None \<Rightarrow> 0)"

definition isLimit :: "explorer_view \<Rightarrow> 'l log_list \<Rightarrow> bool" where
  "isLimit v s \<longleftrightarrow> list_limit v \<noteq> 0 \<and> list_limit v \<le> int (length (ll_logs s))"

definition request_enabled :: "explorer_view \<Rightarrow> 'l log_list \<Rightarrow> bool" where
  "request_enabled v s \<longleftrightarrow> \<not> isLimit v s \<and> ll_request s \<noteq> None"

definition canLoadNextPage :: "explorer_view \<Rightarrow> 'l log_list \<Rightarrow> bool" where
  "canLoadNextPage v s =
     (case Option.bind (ll_data s) pr_hasNextPage of
        Some m \<Rightarrow> m
      | None \<Rightarrow>
          ev_pageSize v \<le> int (case Option.bind (ll_data s) pr_list of Some rows \<Rightarrow> length rows | None \<Rightarrow> 0))"

definition getRequestData :: "string \<Rightarrow> explorer_view \<Rightarrow> typed_query option \<Rightarrow> tag_filter option \<Rightarrow> string option \<Rightarrow> int \<Rightarrow> int \<Rightarrow> typed_query option" where
  "getRequestData uuid v query filters filter' page pageSize =
     getQueryByPanelType uuid query (ev_panel v)
       \<lparr>pp_page = page, pp_pageSize = pageSize, pp_filters = filters, pp_filter = filter',
        pp_activeLogId = ev_activeLogId v, pp_orderBy = ev_orderBy v\<rparr>"

definition no_filters :: tag_filter where
  "no_filters = \<lparr>tg_items = [], tg_op = ''AND''\<rparr>"

definition nextPageSize :: "explorer_view \<Rightarrow> 'l log_list \<Rightarrow> int" where
  "nextPageSize v s =
     (if list_limit v \<noteq> 0 \<and> list_limit v \<le> int (length (ll_logs s)) + ev_pageSize v
      then list_limit v - int (length (ll_logs s)) else ev_pageSize v)"

definition handleEndReached :: "string \<Rightarrow> explorer_view \<Rightarrow> 'l log_list \<Rightarrow> 'l log_list" where
  "handleEndReached uuid v s =
     (case getListQuery (ev_staged v) of
        None \<Rightarrow> s
      | Some listQuery \<Rightarrow>
          if isLimit v s \<or> \<not> canLoadNextPage v s then s
          else
            s\<lparr>ll_page := ll_page s + 1,
              ll_request := getRequestData uuid v (ev_staged v) (coalesce (bq_filters listQuery) (Some no_filters))
                (coalesce (bq_filter listQuery) (Some [])) (ll_page s + 1) (nextPageSize v s)\<rparr>)"

definition append_page :: "'l page_result option \<Rightarrow> 'l log_list \<Rightarrow> 'l log_list" where
  "append_page data s =
     (let s = s\<lparr>ll_data := data\<rparr>
      in case Option.bind data pr_list of
           Some rows \<Rightarrow> s\<lparr>ll_logs := ll_logs s @ rows\<rparr>
         | None \<Rightarrow> s)"

text \<open>A new staged query, start of the time range or order starts over; the time of the store is left out.\<close>

definition sync_request :: "string \<Rightarrow> explorer_view \<Rightarrow> 'l log_list \<Rightarrow> 'l log_list" where
  "sync_request uuid v s =
     (let orderByChanged = (ll_prevOrderBy s \<noteq> ev_orderBy v \<and> ev_panel v = P_LIST);
          s = s\<lparr>ll_prevOrderBy := ev_orderBy v\<rparr>;
          listQuery = getListQuery (ev_staged v)
      in if map_option qs_id (ll_request s) \<noteq> map_option qs_id (ev_staged v) \<or> ll_minTime s \<noteq> ev_minTime v \<or> orderByChanged
         then s\<lparr>ll_logs := [], ll_page := 1,
                ll_request := getRequestData uuid v (ev_staged v)
                  (coalesce (Option.bind listQuery bq_filters) (Some no_filters))
                  (coalesce (Option.bind listQuery bq_filter) (Some [])) 1 (ev_pageSize v),
                ll_minTime := ev_minTime v\<rparr>
         else s)"

section \<open>What scrolling shows\<close>

text \<open>The rows of a request, of all rows the backend has for the query, and its answer to it.\<close>

definition page_rows :: "'l list \<Rightarrow> typed_query \<Rightarrow> 'l list" where
  "page_rows rows q =
     (case qs_queryData q of
        [] \<Rightarrow> []
      | item # _ \<Rightarrow>
          (case (bq_offset item, bq_pageSize item) of
             (Some offset, Some pageSize) \<Rightarrow> take (nat pageSize) (drop (nat offset) rows)
           | _ \<Rightarrow> rows))"

definition has_more :: "'l list \<Rightarrow> typed_query \<Rightarrow> bool" where
  "has_more rows q =
     (case qs_queryData q of
        [] \<Rightarrow> False
      | item # _ \<Rightarrow>
          (case (bq_offset item, bq_pageSize item) of
             (Some offset, Some pageSize) \<Rightarrow> nat offset + nat pageSize < length rows
           | _ \<Rightarrow> False))"

definition answer_request :: "bool \<Rightarrow> 'l list \<Rightarrow> explorer_view \<Rightarrow> 'l log_list \<Rightarrow> 'l log_list" where
  "answer_request says_more rows v s =
     (if request_enabled v s then
        append_page (Some \<lparr>pr_list = Some (page_rows rows (the (ll_request s))),
          pr_hasNextPage = (if says_more then Some (has_more rows (the (ll_request s))) else None)\<rparr>) s
      else s)"

text \<open>The end of the list is reached, and the answer to the request comes if there is a new one.\<close>

definition scroll :: "string \<Rightarrow> bool \<Rightarrow> 'l list \<Rightarrow> explorer_view \<Rightarrow> 'l log_list \<Rightarrow> 'l log_list" where
  "scroll uuid says_more rows v s =
     (let s' = handleEndReached uuid v s
      in if ll_page s' \<noteq> ll_page s then answer_request says_more rows v s' else s')"

definition starts_over :: "explorer_view \<Rightarrow> 'l log_list \<Rightarrow> bool" where
  "starts_over v s \<longleftrightarrow>
     map_option qs_id (ll_request s) \<noteq> map_option qs_id (ev_staged v) \<or> ll_minTime s \<noteq> ev_minTime v \<or>
     ll_prevOrderBy s \<noteq> ev_orderBy v"

definition limited :: "explorer_view \<Rightarrow> 'l list \<Rightarrow> 'l list" where
  "limited v rows = (if list_limit v = 0 then rows else take (nat (list_limit v)) rows)"

lemma list_row_page [simp]:
  "bq_offset (list_row uuid q ps) = Some ((pp_page ps - 1) * pp_pageSize ps)"
  "bq_pageSize (list_row uuid q ps) = Some (pp_pageSize ps)"
  by (simp_all add: list_row_def getPaginationQueryDataV2_def Let_def)

lemma request_is_list:
  assumes "ev_panel v = P_LIST"
  shows "\<exists>item. getRequestData uuid v (Some q) fs f page pageSize = Some (q\<lparr>qs_queryData := [item]\<rparr>) \<and>
    bq_offset item = Some ((page - 1) * pageSize) \<and> bq_pageSize item = Some pageSize"
  using assms by (auto simp: getRequestData_def getQueryByPanelType_def)

lemma nat_int_mult [simp]: "nat (int m * int p) = m * p"
  by (simp flip: of_nat_mult)

text \<open>The k-th page of p rows has been shown.\<close>

definition page_shown :: "bool \<Rightarrow> 'l list \<Rightarrow> explorer_view \<Rightarrow> nat \<Rightarrow> nat \<Rightarrow> 'l log_list \<Rightarrow> bool" where
  "page_shown says_more rows v p k s \<longleftrightarrow>
     0 < k \<and> ll_page s = int k \<and> ll_logs s = take (k * p) (limited v rows) \<and> ll_request s \<noteq> None \<and>
     ll_data s = Some \<lparr>pr_list = Some (take p (drop ((k - 1) * p) rows)),
       pr_hasNextPage = (if says_more then Some (k * p < length rows) else None)\<rparr>"

lemma answer_shows:
  assumes "ev_panel v = P_LIST" and "\<not> isLimit v s"
    and "ll_request s = getRequestData uuid v (Some q) fs f (int (Suc k)) (int p)" and "ll_page s = int (Suc k)"
    and "ll_logs s = take (k * p) rows" and "k * p \<le> length rows \<or> k = 0"
    and "list_limit v = 0 \<or> int (Suc k * p) \<le> list_limit v"
  shows "page_shown says_more rows v p (Suc k) (answer_request says_more rows v s)"
proof -
  obtain item where item: "getRequestData uuid v (Some q) fs f (int (Suc k)) (int p) = Some (q\<lparr>qs_queryData := [item]\<rparr>)"
      "bq_offset item = Some (int k * int p)" "bq_pageSize item = Some (int p)"
    using request_is_list [OF assms(1), of uuid q fs f "int (Suc k)" "int p"] by auto
  have rows: "page_rows rows (the (ll_request s)) = take p (drop (k * p) rows)"
      and more: "has_more rows (the (ll_request s)) \<longleftrightarrow> Suc k * p < length rows"
    using item assms(3) by (simp_all add: page_rows_def has_more_def nat_mult_distrib add.commute)
  have room: "list_limit v = 0 \<or> Suc k * p \<le> nat (list_limit v)"
    using assms(7) nat_mono [of "int (Suc k * p)" "list_limit v"] by (auto simp del: of_nat_mult of_nat_Suc)
  have "take (k * p) rows @ take p (drop (k * p) rows) = take (Suc k * p) rows"
    by (metis add.commute mult_Suc take_add)
  also have "\<dots> = take (Suc k * p) (limited v rows)"
    using room by (auto simp: limited_def min_def)
  finally have logs: "take (k * p) rows @ take p (drop (k * p) rows) = take (Suc k * p) (limited v rows)" .
  show ?thesis
    using assms(2,3,4,5) item(1) rows more logs
    by (simp add: answer_request_def request_enabled_def append_page_def page_shown_def Let_def)
qed

lemma sync_shows_first:
  assumes "ev_panel v = P_LIST" and "starts_over v s" and "ev_pageSize v = int p" and "ev_staged v = Some q"
    and "0 \<le> list_limit v" and "list_limit v = 0 \<or> int p \<le> list_limit v" and "0 < p"
  shows "page_shown says_more rows v p 1 (answer_request says_more rows v (sync_request uuid v s))"
proof -
  let ?s = "sync_request uuid v s"
  have "ll_logs ?s = [] \<and> ll_page ?s = 1 \<and>
      ll_request ?s = getRequestData uuid v (Some q) (coalesce (Option.bind (getListQuery (ev_staged v)) bq_filters) (Some no_filters))
        (coalesce (Option.bind (getListQuery (ev_staged v)) bq_filter) (Some [])) 1 (int p)"
    using assms(1-4) by (auto simp: sync_request_def starts_over_def Let_def)
  then show ?thesis
    using answer_shows [of v ?s uuid q _ _ 0 p rows says_more] assms by (auto simp: isLimit_def)
qed

lemma page_shown_load:
  assumes "page_shown says_more rows v p k s" and "ev_pageSize v = int p" and "0 < p"
  shows "canLoadNextPage v s \<longleftrightarrow> (if says_more then k * p < length rows else k * p \<le> length rows)"
proof -
  obtain j where "k = Suc j" using assms(1) by (cases k) (auto simp: page_shown_def)
  with assms show ?thesis by (auto simp: page_shown_def canLoadNextPage_def min_def)
qed

lemma page_shown_limit:
  assumes "page_shown says_more rows v p k s" and "k * p \<le> length rows"
    and "list_limit v = 0 \<or> list_limit v = int (m * p)" and "0 < p"
  shows "isLimit v s \<longleftrightarrow> list_limit v \<noteq> 0 \<and> m \<le> k"
  using assms by (auto simp: page_shown_def isLimit_def limited_def min_def)

lemma scroll_shows:
  assumes "page_shown says_more rows v p k s" and "ev_panel v = P_LIST" and "ev_pageSize v = int p" and "0 < p"
    and "getListQuery (ev_staged v) \<noteq> None" and "list_limit v = 0 \<or> list_limit v = int (m * p)"
  shows "page_shown says_more rows v p (Suc k) (scroll uuid says_more rows v s) \<or>
    scroll uuid says_more rows v s = s \<and> length (limited v rows) \<le> k * p"
proof -
  obtain q lq where q: "ev_staged v = Some q" "getListQuery (ev_staged v) = Some lq"
    using assms(5) by (cases "ev_staged v") (auto simp: getListQuery_def)
  show ?thesis
  proof (cases "isLimit v s \<or> \<not> canLoadNextPage v s")
    case True
    then have "scroll uuid says_more rows v s = s" by (simp add: scroll_def handleEndReached_def q(2))
    moreover have "length (limited v rows) \<le> k * p"
    proof (cases "k * p < length rows")
      case False
      then show ?thesis by (auto simp: limited_def)
    next
      case less: True
      with True page_shown_load [OF assms(1,3,4)] have "isLimit v s" by (auto split: if_splits)
      with page_shown_limit [OF assms(1) _ assms(6,4)] less have "list_limit v \<noteq> 0" "m \<le> k" by auto
      with assms(6) have "length (limited v rows) \<le> m * p" by (auto simp: limited_def)
      also have "\<dots> \<le> k * p" using \<open>m \<le> k\<close> by (rule mult_le_mono1)
      finally show ?thesis .
    qed
    ultimately show ?thesis by blast
  next
    case False
    then have le: "k * p \<le> length rows" using page_shown_load [OF assms(1,3,4)] by (auto split: if_splits)
    have room: "list_limit v = 0 \<or> int (Suc k * p) \<le> list_limit v"
    proof (rule disjCI)
      assume "\<not> int (Suc k * p) \<le> list_limit v"
      with assms(6) show "list_limit v = 0"
        using False page_shown_limit [OF assms(1) le assms(6,4)] by (metis Suc_leI mult_le_mono1 not_le of_nat_mono)
    qed
    have "int (k * p) \<le> int (Suc k * p)" by simp
    then have "list_limit v = 0 \<or> k * p \<le> nat (list_limit v)"
      using room nat_mono [of "int (k * p)" "list_limit v"] by (metis nat_int order_trans)
    then have logs: "ll_logs s = take (k * p) rows"
      using assms(1) by (auto simp: page_shown_def limited_def min_def)
    with le have len: "length (ll_logs s) = k * p" by simp
    have next_size: "nextPageSize v s = int p"
      using room len assms(3) by (auto simp: nextPageSize_def algebra_simps)
    let ?s = "handleEndReached uuid v s"
    have page: "ll_page s = int k" using assms(1) by (simp add: page_shown_def)
    have fields: "ll_page ?s = int (Suc k)" "ll_logs ?s = take (k * p) rows"
      "ll_request ?s = getRequestData uuid v (Some q) (coalesce (bq_filters lq) (Some no_filters))
          (coalesce (bq_filter lq) (Some [])) (int (Suc k)) (int p)"
      using False q page next_size logs by (simp_all add: handleEndReached_def add.commute)
    have "\<not> isLimit v ?s" using False by (simp add: isLimit_def handleEndReached_def q(2))
    from answer_shows [OF assms(2) this fields(3,1,2) _ room] le
    show ?thesis using fields(1) page by (simp add: scroll_def)
  qed
qed

text \<open>C17. Each scroll adds one page, of all rows or up to the limit, which is a number of pages.\<close>

theorem scrolling_shows_all:
  assumes "ev_panel v = P_LIST" and "starts_over v s" and "0 < ev_pageSize v" and "getListQuery (ev_staged v) \<noteq> None"
    and "0 \<le> list_limit v" and "ev_pageSize v dvd list_limit v"
  shows "ll_logs ((scroll uuid says_more rows v ^^ n) (answer_request says_more rows v (sync_request uuid v s))) =
    take (Suc n * nat (ev_pageSize v)) (limited v rows)"
proof -
  define p where "p = nat (ev_pageSize v)"
  have p: "ev_pageSize v = int p" "0 < p" using assms(3) by (simp_all add: p_def)
  obtain m where m: "list_limit v = int (m * p)"
  proof -
    obtain l where "list_limit v = int l" using assms(5) by (metis nonneg_int_cases)
    moreover from this have "p dvd l" using assms(6) p(1) by (simp add: of_nat_dvd_iff)
    ultimately show ?thesis using that by (metis dvd_div_mult_self)
  qed
  obtain q where q: "ev_staged v = Some q" using assms(4) by (cases "ev_staged v") (auto simp: getListQuery_def)
  let ?s0 = "answer_request says_more rows v (sync_request uuid v s)"
  have "page_shown says_more rows v p 1 ?s0"
    using m p by (intro sync_shows_first [OF assms(1,2) p(1) q assms(5)]) (cases m; simp)+
  then have "\<exists>k. page_shown says_more rows v p k ((scroll uuid says_more rows v ^^ n) ?s0) \<and>
      (k = Suc n \<or> k \<le> n \<and> length (limited v rows) \<le> k * p)"
  proof (induction n)
    case 0
    then show ?case by auto
  next
    case (Suc n)
    then obtain k where k: "page_shown says_more rows v p k ((scroll uuid says_more rows v ^^ n) ?s0)"
        "k = Suc n \<or> k \<le> n \<and> length (limited v rows) \<le> k * p" by auto
    note shown = scroll_shows [OF k(1) assms(1) p assms(4), of m uuid]
    show ?case
    proof (cases "k = Suc n")
      case True
      with shown m k(1) show ?thesis by auto
    next
      case False
      with k(2) have "length (limited v rows) \<le> k * p" "k \<le> n" by auto
      from shown [OF disjI2 [OF m]] show ?thesis
      proof (elim disjE)
        assume "page_shown says_more rows v p (Suc k) (scroll uuid says_more rows v ((scroll uuid says_more rows v ^^ n) ?s0))"
        with \<open>k \<le> n\<close> \<open>length (limited v rows) \<le> k * p\<close> show ?thesis by (auto intro!: exI [of _ "Suc k"])
      next
        assume "scroll uuid says_more rows v ((scroll uuid says_more rows v ^^ n) ?s0) = (scroll uuid says_more rows v ^^ n) ?s0 \<and>
          length (limited v rows) \<le> k * p"
        with k(1) \<open>k \<le> n\<close> show ?thesis by (auto intro!: exI [of _ k])
      qed
    qed
  qed
  then obtain k where "page_shown says_more rows v p k ((scroll uuid says_more rows v ^^ n) ?s0)"
      and k: "k = Suc n \<or> k \<le> n \<and> length (limited v rows) \<le> k * p" by blast
  then have logs: "ll_logs ((scroll uuid says_more rows v ^^ n) ?s0) = take (k * p) (limited v rows)"
    by (simp add: page_shown_def)
  have "take (k * p) (limited v rows) = take (Suc n * p) (limited v rows)"
    using k
  proof
    assume far: "k \<le> n \<and> length (limited v rows) \<le> k * p"
    then have "k * p \<le> Suc n * p" by (intro mult_le_mono1) simp
    with far have "length (limited v rows) \<le> Suc n * p" by linarith
    with far show ?thesis by (simp only: take_all)
  qed simp
  with logs show ?thesis by (simp only: p_def)
qed

section \<open>A concrete list\<close>

definition example_view :: "int option \<Rightarrow> explorer_view" where
  "example_view limit' =
     \<lparr>ev_staged = Some ((initialQueriesMap ''q'' LOGS)\<lparr>qs_queryData := [(initialQueryBuilderFormValuesMap LOGS)\<lparr>bq_limit := limit'\<rparr>]\<rparr>),
      ev_panel = P_LIST, ev_pageSize = 2, ev_activeLogId = None, ev_orderBy = ''timestamp:desc'', ev_minTime = 0\<rparr>"

definition scrolled :: "int option \<Rightarrow> nat \<Rightarrow> nat list" where
  "scrolled limit' n =
     ll_logs ((scroll [] True [0..<9] (example_view limit') ^^ n)
       (answer_request True [0..<9] (example_view limit') (sync_request [] (example_view limit') (new_log_list (example_view limit')))))"

theorem scrolling_shows_all_witness: "scrolled (Some 4) 3 = [0, 1, 2, 3]"
  unfolding scrolled_def
  by (subst scrolling_shows_all)
    (simp_all add: example_view_def starts_over_def new_log_list_def list_limit_def getListQuery_def limited_def
      initialQueriesMap_def initialQueryBuilderFormValuesMap_def initialQueryBuilderFormValues_def initial_form_def
      builder_query.defs provider_query.defs upt_rec)

text \<open>
  With a limit that is no number of pages, the offset of the last, shorter page is counted in pages of its own size, so
  rows are shown twice and the last ones never.
\<close>

lemma last_page_repeats_rows: "scrolled (Some 5) 2 = [0, 1, 2, 3, 2]"
  by code_simp

text \<open>
  The text of a linked log is put after the filter without \<open>AND\<close> or parentheses, so it restricts only the last alternative
  of a filter with \<open>OR\<close>.
\<close>

definition alternatives :: "string \<Rightarrow> string list list" where
  "alternatives query =
     (case parse_query (filter_tokens query) of
        Some (Rule _ (Rule _ [Rule _ cs] # _)) \<Rightarrow> map (\<lambda>c. map tk_text (leaves c)) cs
      | _ \<Rightarrow> [])"

lemma linked_log_binds_to_alternative:
  "alternatives (up_to_log_text ''a = 1 OR b = 2'' ''x'') =
    [[''a'', ''='', ''1''], [''OR''], [''b'', ''='', ''2'', ''id'', ''<='', [CHR 0x27, CHR ''x'', CHR 0x27]]]"
  by code_simp

end
