(* ===== verification/Log_Context.thy ===== *)
theory Log_Context
  imports Complex_Main Log_Pages "HOL-Library.Sublist"
begin

text \<open>
  The lines around a log: \<^verbatim>\<open>container/LogDetailedView/ContextView\<close> with \<^verbatim>\<open>container/LogsContextList/utils.ts\<close> and
  \<open>getPaginationQueryData\<close>, and those around the logs of a span, \<^verbatim>\<open>container/SpanDetailsDrawer/SpanLogs\<close>. A log is
  given by its id and its time in milliseconds, as \<open>Date.getTime\<close> reads it.
\<close>

section \<open>Requests around a log\<close>

record log_line =
  lg_id :: string
  lg_ms :: int

definition INITIAL_PAGE_SIZE :: int where
  "INITIAL_PAGE_SIZE = 10"

definition LOGS_MORE_PAGE_SIZE :: int where
  "LOGS_MORE_PAGE_SIZE = 10"

definition getOrderByTimestamp :: "string \<Rightarrow> order_by" where
  "getOrderByTimestamp order = \<lparr>ob_columnName = ''timestamp'', ob_order = order\<rparr>"

definition getPaginationQueryData ::
    "string \<Rightarrow> tag_filter option \<Rightarrow> string option \<Rightarrow> order_by option \<Rightarrow> int \<Rightarrow> int \<Rightarrow> tag_filter \<times> int \<times> int" where
  "getPaginationQueryData uuid filters listItemId orderByTimestamp page pageSize =
     (let items = filter (\<lambda>i. map_option ac_key (tf_key i) \<noteq> Some ''id'') (filter_items filters);
          anchored =
            (case orderByTimestamp of
               None \<Rightarrow> items
             | Some ord \<Rightarrow>
                 if truthy_str listItemId
                 then id_item uuid (if ob_order ord = ''asc'' then ''>'' else ''<'') (the listItemId) # items else items)
      in (\<lparr>tg_items = anchored, tg_op = str_or (map_option tg_op filters) ''AND''\<rparr>, (page - 1) * pageSize, pageSize))"

definition context_request ::
    "string \<Rightarrow> typed_query option \<Rightarrow> provider_query option \<Rightarrow> log_line option \<Rightarrow> order_by \<Rightarrow> int \<Rightarrow> int \<Rightarrow> typed_query option" where
  "context_request uuid query stagedQueryData theLog orderByTimestamp page pageSize =
     (let (filters, offset, size') =
            getPaginationQueryData uuid (coalesce (Option.bind stagedQueryData bq_filters) (Some no_filters))
              (map_option lg_id theLog) (Some orderByTimestamp) page pageSize
      in map_option
           (\<lambda>q. q\<lparr>qs_queryData :=
              map (\<lambda>item. item\<lparr>bq_filters := Some filters, bq_offset := Some offset, bq_pageSize := Some size',
                 bq_filter := Some (convertFiltersToExpression filters False), bq_orderBy := [orderByTimestamp]\<rparr>)
                (qs_queryData q)\<rparr>) query)"

section \<open>Both directions\<close>

text \<open>What one call of \<open>useContextLogData\<close> is given, and its state.\<close>

record context_props =
  cp_log :: log_line
  cp_query :: "typed_query option"
  cp_order :: string
  cp_isEdit :: bool
  cp_initialPageSize :: int

record context_list =
  cx_page :: int
  cx_logs :: "log_line list"
  cx_lastLog :: "log_line option"
  cx_request :: "typed_query option"

definition currentStagedQueryData :: "typed_query option \<Rightarrow> provider_query option" where
  "currentStagedQueryData query =
     (case query of Some q \<Rightarrow> (case qs_queryData q of [item] \<Rightarrow> Some item | _ \<Rightarrow> None) | None \<Rightarrow> None)"

definition request_page :: "string \<Rightarrow> context_props \<Rightarrow> log_line option \<Rightarrow> int \<Rightarrow> int \<Rightarrow> typed_query option" where
  "request_page uuid c lastLog page pageSize =
     context_request uuid (cp_query c) (currentStagedQueryData (cp_query c)) lastLog (getOrderByTimestamp (cp_order c)) page pageSize"

definition new_context :: "string \<Rightarrow> context_props \<Rightarrow> context_list" where
  "new_context uuid c =
     \<lparr>cx_page = 1, cx_logs = [], cx_lastLog = Some (cp_log c),
      cx_request = request_page uuid c (Some (cp_log c)) 1 (cp_initialPageSize c)\<rparr>"

text \<open>The rows of the first result of an answer; an empty list forgets the last log.\<close>

definition handleSuccess :: "context_props \<Rightarrow> log_line list option \<Rightarrow> context_list \<Rightarrow> context_list" where
  "handleSuccess c rows s =
     (case rows of
        None \<Rightarrow> s
      | Some currentLogs \<Rightarrow>
          if cp_order c = ''asc''
          then s\<lparr>cx_logs := rev currentLogs, cx_lastLog := (case rev currentLogs of [] \<Rightarrow> None | l # _ \<Rightarrow> Some l)\<rparr>
          else s\<lparr>cx_logs := currentLogs, cx_lastLog := js_last currentLogs\<rparr>)"

definition handleShowNextLines :: "string \<Rightarrow> context_props \<Rightarrow> context_list \<Rightarrow> context_list" where
  "handleShowNextLines uuid c s =
     s\<lparr>cx_page := cx_page s + 1, cx_request := request_page uuid c (cx_lastLog s) (cx_page s + 1) LOGS_MORE_PAGE_SIZE\<rparr>"

text \<open>The effect of new filters; the page size is the default.\<close>

definition filters_effect :: "string \<Rightarrow> context_props \<Rightarrow> context_list \<Rightarrow> context_list" where
  "filters_effect uuid c s =
     (if cp_isEdit c
      then s\<lparr>cx_page := 1, cx_logs := [], cx_request := request_page uuid c (cx_lastLog s) 1 INITIAL_PAGE_SIZE\<rparr>
      else s)"

record context_view =
  cv_logs :: "log_line list"
  cv_previous :: context_list
  cv_after :: context_list

datatype context_event =
    Previous_Answer "log_line list option" | After_Answer "log_line list option" | Previous_More | After_More | New_Filters

text \<open>Rows that come are put before or after the shown ones by the effects of the renderer.\<close>

definition context_step :: "string \<Rightarrow> context_props \<Rightarrow> context_props \<Rightarrow> context_event \<Rightarrow> context_view \<Rightarrow> context_view" where
  "context_step uuid before after e s =
     (case e of
        Previous_Answer rows \<Rightarrow>
          let t = handleSuccess before rows (cv_previous s)
          in s\<lparr>cv_previous := t, cv_logs := (if rows = None then [] else cx_logs t) @ cv_logs s\<rparr>
      | After_Answer rows \<Rightarrow>
          let t = handleSuccess after rows (cv_after s)
          in s\<lparr>cv_after := t, cv_logs := cv_logs s @ (if rows = None then [] else cx_logs t)\<rparr>
      | Previous_More \<Rightarrow> s\<lparr>cv_previous := handleShowNextLines uuid before (cv_previous s)\<rparr>
      | After_More \<Rightarrow> s\<lparr>cv_after := handleShowNextLines uuid after (cv_after s)\<rparr>
      | New_Filters \<Rightarrow>
          s\<lparr>cv_previous := filters_effect uuid before (cv_previous s), cv_after := filters_effect uuid after (cv_after s),
            cv_logs := [cp_log before]\<rparr>)"

definition new_context_view :: "string \<Rightarrow> context_props \<Rightarrow> context_props \<Rightarrow> context_view" where
  "new_context_view uuid before after =
     \<lparr>cv_logs = [cp_log before], cv_previous = new_context uuid before, cv_after = new_context uuid after\<rparr>"

section \<open>The logs of a span\<close>

definition trace_id_key :: autocomplete_data where
  "trace_id_key = no_aggregate_key ''trace_id''"

definition equal_item :: "string \<Rightarrow> autocomplete_data \<Rightarrow> string \<Rightarrow> tag_filter_item" where
  "equal_item op' key v =
     \<lparr>tf_id = [], tf_key = Some key, tf_op = getOperatorValue op', tf_value = Some (VOne (SStr v))\<rparr>"

definition createSpanLogsFilters :: "string \<Rightarrow> string \<Rightarrow> string" where
  "createSpanLogsFilters traceId spanId =
     convertFiltersToExpression
       \<lparr>tg_items = [equal_item ''='' trace_id_key traceId, equal_item ''='' (no_aggregate_key ''span_id'') spanId], tg_op = ''AND''\<rparr> False"

text \<open>The direction is \<open>lt\<close> or \<open>gt\<close>.\<close>

datatype direction = Lt | Gt

definition createContextFilters :: "string \<Rightarrow> string \<Rightarrow> direction \<Rightarrow> string" where
  "createContextFilters traceId logId dir =
     convertFiltersToExpression
       \<lparr>tg_items = [equal_item ''='' trace_id_key traceId,
                    equal_item (if dir = Lt then ''<'' else ''>'') (no_aggregate_key ''id'') logId], tg_op = ''AND''\<rparr> False"

definition getTraceOnlyFilters :: "string \<Rightarrow> tag_filter" where
  "getTraceOnlyFilters traceId =
     \<lparr>tg_items = [\<lparr>tf_id = [], tf_key = Some trace_id_key, tf_op = ''='', tf_value = Some (VOne (SStr traceId))\<rparr>], tg_op = ''AND''\<rparr>"

text \<open>Start and end in seconds, and the query.\<close>

definition getSpanLogsQueryPayload :: "string \<Rightarrow> int \<Rightarrow> int \<Rightarrow> string \<Rightarrow> string \<Rightarrow> rat \<times> rat \<times> typed_query" where
  "getSpanLogsQueryPayload uuid start end' filter' order =
     (of_int start / 1000, of_int end' / 1000,
      \<lparr>qs_queryData =
         [builder_query.extend
            (initial_form
               \<lparr>bq_dataSource := LOGS,
                bq_aggregateAttribute := Some \<lparr>ac_id = Some ''------false'', ac_dataType = Some DT_String, ac_key = [], ac_type = Some []\<rparr>,
                bq_aggregations := [], bq_filter := Some filter', bq_filters := None, bq_stepInterval := Some 60,
                bq_orderBy := [getOrderByTimestamp order], bq_offset := Some 0, bq_pageSize := Some 100\<rparr>)
            (provider_query.fields (Some ''noop'') ''A'')],
       qs_queryFormulas = [], qs_id = uuid, qs_unit = None, qs_resultUnit = None, qs_displayUnit = None, tq_queryType = ''builder''\<rparr>)"

text \<open>What a drawer asks for, and the answers: \<open>None\<close> until one has come.\<close>

record span_props =
  sl_traceId :: string
  sl_spanId :: string
  sl_start :: int
  sl_end :: int
  sl_isDrawerOpen :: bool

definition span_payload :: "span_props \<Rightarrow> rat \<times> rat \<times> typed_query" where
  "span_payload p = getSpanLogsQueryPayload [] (sl_start p) (sl_end p) (createSpanLogsFilters (sl_traceId p) (sl_spanId p)) ''desc''"

definition context_payload :: "span_props \<Rightarrow> direction \<Rightarrow> log_line option \<Rightarrow> rat \<times> rat \<times> typed_query" where
  "context_payload p dir theLog =
     getSpanLogsQueryPayload [] (sl_start p) (sl_end p)
       (case theLog of Some l \<Rightarrow> createContextFilters (sl_traceId p) (lg_id l) dir | None \<Rightarrow> [])
       (if dir = Gt then ''asc'' else ''desc'')"

definition trace_payload :: "span_props \<Rightarrow> rat \<times> rat \<times> typed_query" where
  "trace_payload p =
     getSpanLogsQueryPayload [] (sl_start p) (sl_end p) (convertFiltersToExpression (getTraceOnlyFilters (sl_traceId p)) False) ''desc''"

definition orderedSpanLogs :: "log_line list \<Rightarrow> log_line list" where
  "orderedSpanLogs spanLogs = sort_key lg_ms spanLogs"

definition log_at :: "log_line list \<Rightarrow> int \<Rightarrow> log_line option" where
  "log_at logs i = (if 0 \<le> i \<and> i < int (length logs) then Some (logs ! nat i) else None)"

text \<open>The logs shown once every enabled query has its answer from the backend, which is an argument.\<close>

definition direct_span_logs :: "(rat \<times> rat \<times> typed_query \<Rightarrow> log_line list) \<Rightarrow> span_props \<Rightarrow> log_line list" where
  "direct_span_logs fetch p =
     (if sl_isDrawerOpen p \<and> sl_traceId p \<noteq> [] \<and> sl_spanId p \<noteq> [] then fetch (span_payload p) else [])"

definition context_logs :: "(rat \<times> rat \<times> typed_query \<Rightarrow> log_line list) \<Rightarrow> span_props \<Rightarrow> direction \<Rightarrow> log_line option \<Rightarrow> log_line list" where
  "context_logs fetch p dir theLog = (if sl_isDrawerOpen p \<and> theLog \<noteq> None then fetch (context_payload p dir theLog) else [])"

definition surrounding_logs :: "(rat \<times> rat \<times> typed_query \<Rightarrow> log_line list) \<Rightarrow> span_props \<Rightarrow> log_line list \<Rightarrow> log_line list" where
  "surrounding_logs fetch p spanLogs =
     (let ordered = orderedSpanLogs spanLogs;
          before = context_logs fetch p Lt (log_at ordered 0);
          after = context_logs fetch p Gt (log_at ordered (int (length ordered) - 1))
      in rev after @ spanLogs @ before)"

definition trace_only_logs :: "(rat \<times> rat \<times> typed_query \<Rightarrow> log_line list) \<Rightarrow> span_props \<Rightarrow> log_line list \<Rightarrow> log_line list" where
  "trace_only_logs fetch p spanLogs =
     (if sl_isDrawerOpen p \<and> sl_traceId p \<noteq> [] \<and> spanLogs = [] then fetch (trace_payload p) else [])"

definition useSpanContextLogs :: "(rat \<times> rat \<times> typed_query \<Rightarrow> log_line list) \<Rightarrow> span_props \<Rightarrow> log_line list" where
  "useSpanContextLogs fetch p =
     (let spanLogs = direct_span_logs fetch p
      in if spanLogs = [] then trace_only_logs fetch p spanLogs else surrounding_logs fetch p spanLogs)"

definition isLogSpanRelated :: "(rat \<times> rat \<times> typed_query \<Rightarrow> log_line list) \<Rightarrow> span_props \<Rightarrow> string \<Rightarrow> bool" where
  "isLogSpanRelated fetch p logId \<longleftrightarrow> logId \<in> lg_id ` set (direct_span_logs fetch p)"

definition hasTraceIdLogs :: "(rat \<times> rat \<times> typed_query \<Rightarrow> log_line list) \<Rightarrow> span_props \<Rightarrow> bool" where
  "hasTraceIdLogs fetch p \<longleftrightarrow>
     (let spanLogs = direct_span_logs fetch p in spanLogs \<noteq> [] \<or> trace_only_logs fetch p spanLogs \<noteq> [])"

section \<open>The neighbours of a log\<close>

text \<open>
  The rows a request around a log selects: the log the first filter names divides the rows of the backend, newest first,
  and the page is cut from the older ones or from the newer ones in reverse.
\<close>

definition rows_around :: "log_line list \<Rightarrow> typed_query \<Rightarrow> log_line list" where
  "rows_around rows q =
     (case qs_queryData q of
        [] \<Rightarrow> []
      | item # _ \<Rightarrow>
          (let side =
                (case filter_items (bq_filters item) of
                   i # _ \<Rightarrow>
                     (case (map_option ac_key (tf_key i), tf_value i) of
                        (Some k, Some (VOne (SStr v))) \<Rightarrow>
                          if k = ''id'' \<and> tf_op i = ''<'' then tl (dropWhile (\<lambda>l. lg_id l \<noteq> v) rows)
                          else if k = ''id'' \<and> tf_op i = ''>'' then rev (takeWhile (\<lambda>l. lg_id l \<noteq> v) rows)
                          else if map ob_order (bq_orderBy item) = [''asc''] then rev rows else rows
                      | _ \<Rightarrow> rows)
                 | [] \<Rightarrow> if map ob_order (bq_orderBy item) = [''asc''] then rev rows else rows)
           in case (bq_offset item, bq_pageSize item) of
                (Some offset, Some size') \<Rightarrow> take (nat size') (drop (nat offset) side)
              | _ \<Rightarrow> side))"

definition fetch_page :: "log_line list \<Rightarrow> context_list \<Rightarrow> log_line list option" where
  "fetch_page rows s = map_option (rows_around rows) (cx_request s)"

text \<open>The first answers show the lines next to the log, in either order of arrival.\<close>

lemma first_page_rows:
  assumes "cp_query c = Some q" and "qs_queryData q \<noteq> []" and "lg_id (cp_log c) \<noteq> []"
    and "distinct (map lg_id (newer @ cp_log c # older))" and "0 \<le> cp_initialPageSize c"
  shows "fetch_page (newer @ cp_log c # older) (new_context uuid c) =
    Some (take (nat (cp_initialPageSize c)) (if cp_order c = ''asc'' then rev newer else older))"
proof -
  have absent: "\<forall>l\<in>set newer. lg_id l \<noteq> lg_id (cp_log c)" using assms(4) by (auto simp: image_iff)
  then have split: "takeWhile (\<lambda>l. lg_id l \<noteq> lg_id (cp_log c)) (newer @ cp_log c # older) = newer"
    "dropWhile (\<lambda>l. lg_id l \<noteq> lg_id (cp_log c)) (newer @ cp_log c # older) = cp_log c # older"
    by (simp_all add: takeWhile_append dropWhile_append)
  obtain item items where "qs_queryData q = item # items" using assms(2) by (cases "qs_queryData q") auto
  with assms(1,3) show ?thesis
    by (simp add: fetch_page_def new_context_def request_page_def context_request_def getPaginationQueryData_def Let_def
        rows_around_def filter_items_def id_item_def no_aggregate_key_def getOrderByTimestamp_def truthy_str_def split)
qed

theorem context_shows_neighbours:
  assumes "cp_query before = Some q" and "qs_queryData q \<noteq> []" and "lg_id (cp_log before) \<noteq> []"
    and "distinct (map lg_id (newer @ cp_log before # older))" and "0 \<le> cp_initialPageSize before"
    and "cp_order before = ''asc''" and "after = before\<lparr>cp_order := ''desc''\<rparr>"
    and "s = new_context_view uuid before after"
    and "es \<in> {[Previous_Answer p, After_Answer a], [After_Answer a, Previous_Answer p]}"
    and "p = fetch_page (newer @ cp_log before # older) (cv_previous s)"
    and "a = fetch_page (newer @ cp_log before # older) (cv_after s)"
  shows "cv_logs (fold (context_step uuid before after) es s) =
    rev (take (nat (cp_initialPageSize before)) (rev newer)) @ [cp_log before] @ take (nat (cp_initialPageSize before)) older"
proof -
  have "p = Some (take (nat (cp_initialPageSize before)) (rev newer))"
    using first_page_rows [OF assms(1-5), of uuid] assms(6,8,10) by (simp add: new_context_view_def)
  moreover have "a = Some (take (nat (cp_initialPageSize before)) older)"
    using first_page_rows [of after q newer older uuid] assms(1-5,7,8,11) by (simp add: new_context_view_def)
  ultimately show ?thesis
    using assms(6-9) by (auto simp: context_step_def handleSuccess_def new_context_view_def Let_def)
qed

section \<open>The logs around a span\<close>











section \<open>Concrete lists\<close>

text \<open>Sixty logs, newest first, whose times count up from the newest.\<close>

definition numbered_log :: "nat \<Rightarrow> log_line" where
  "numbered_log i = \<lparr>lg_id = [char_of (120 - i)], lg_ms = - int i\<rparr>"

definition numbered_logs :: "log_line list" where
  "numbered_logs = map numbered_log [0..<60]"

definition numbers :: "log_line list \<Rightarrow> int list" where
  "numbers logs = map (\<lambda>l. - lg_ms l) logs"

definition context_of :: "nat \<Rightarrow> string \<Rightarrow> context_props" where
  "context_of i order =
     \<lparr>cp_log = numbered_log i, cp_query = Some (initialQueriesMap ''q'' LOGS), cp_order = order, cp_isEdit = True,
      cp_initialPageSize = INITIAL_PAGE_SIZE\<rparr>"

text \<open>The answers to both first requests, then those after each click on the lower button or new filters.\<close>

definition start_context :: "nat \<Rightarrow> context_view" where
  "start_context i =
     (let s = new_context_view [] (context_of i ''asc'') (context_of i ''desc'')
      in fold (context_step [] (context_of i ''asc'') (context_of i ''desc''))
           [Previous_Answer (fetch_page numbered_logs (cv_previous s)), After_Answer (fetch_page numbered_logs (cv_after s))] s)"

definition and_answer :: "nat \<Rightarrow> context_event \<Rightarrow> context_view \<Rightarrow> context_view" where
  "and_answer i e s =
     (let s' = context_step [] (context_of i ''asc'') (context_of i ''desc'') e s
      in context_step [] (context_of i ''asc'') (context_of i ''desc'')
           (After_Answer (fetch_page numbered_logs (cv_after s'))) s')"

lemma numbered_logs_around: "numbered_logs = map numbered_log [0..<12] @ cp_log (context_of 12 ''asc'') # map numbered_log [13..<60]"
  by code_simp

lemma numbered_ids: "distinct (map lg_id numbered_logs)"
  by code_simp

theorem context_shows_neighbours_witness:
  "numbers (cv_logs (start_context 12)) = [2..12] @ [13..22]"
proof -
  let ?s = "new_context_view [] (context_of 12 ''asc'') (context_of 12 ''desc'')"
  let ?p = "fetch_page numbered_logs (cv_previous ?s)" and ?a = "fetch_page numbered_logs (cv_after ?s)"
  have "cv_logs (fold (context_step [] (context_of 12 ''asc'') (context_of 12 ''desc'')) [Previous_Answer ?p, After_Answer ?a] ?s) =
      rev (take (nat (cp_initialPageSize (context_of 12 ''asc''))) (rev (map numbered_log [0..<12]))) @ [cp_log (context_of 12 ''asc'')] @
        take (nat (cp_initialPageSize (context_of 12 ''asc''))) (map numbered_log [13..<60])"
    unfolding numbered_logs_around
    by (rule context_shows_neighbours [where q = "initialQueriesMap ''q'' LOGS" and uuid = "[]", OF _ _ _ numbered_ids [unfolded numbered_logs_around]])
      (simp_all add: context_of_def initialQueriesMap_def numbered_log_def INITIAL_PAGE_SIZE_def)
  then have "cv_logs (start_context 12) =
      rev (take (nat (cp_initialPageSize (context_of 12 ''asc''))) (rev (map numbered_log [0..<12]))) @ [cp_log (context_of 12 ''asc'')] @
        take (nat (cp_initialPageSize (context_of 12 ''asc''))) (map numbered_log [13..<60])"
    by (simp only: start_context_def Let_def)
  then have "numbers (cv_logs (start_context 12)) =
      numbers (rev (take (nat (cp_initialPageSize (context_of 12 ''asc''))) (rev (map numbered_log [0..<12]))) @ [cp_log (context_of 12 ''asc'')] @
        take (nat (cp_initialPageSize (context_of 12 ''asc''))) (map numbered_log [13..<60]))"
    by (rule arg_cong)
  also have "\<dots> = [2..12] @ [13..22]" by code_simp
  finally show ?thesis .
qed

text \<open>
  Loading more asks for the logs beyond the last one shown and skips as many as have been loaded, so every further page leaves
  logs out.
\<close>

lemma loading_more_skips_logs:
  "numbers (cv_logs (and_answer 12 After_More (start_context 12))) = [2..12] @ [13..22] @ [33..42]"
  by code_simp

text \<open>An empty page forgets the last log, and the next one is cut from all logs.\<close>

lemma empty_page_forgets_log:
  "numbers (cv_logs (and_answer 50 After_More (and_answer 50 After_More (start_context 50)))) = [40..59] @ [20..29]"
  by code_simp

text \<open>New filters show the lines after the last one loaded, not those after the log.\<close>

lemma new_filters_leave_gap:
  "numbers (cv_logs (and_answer 12 New_Filters (start_context 12))) = [12] @ [23..32]"
  by code_simp

text \<open>A backend for a trace, which finds the log a request names among its rows.\<close>

definition trace_rows :: "span_props \<Rightarrow> log_line list \<Rightarrow> (log_line \<Rightarrow> bool) \<Rightarrow> rat \<times> rat \<times> typed_query \<Rightarrow> log_line list" where
  "trace_rows p rows of_span q =
     (if q = span_payload p then take 100 (filter of_span rows)
      else if q = trace_payload p then take 100 rows
      else case js_find (\<lambda>l. q = context_payload p Lt (Some l)) rows of
             Some l \<Rightarrow> take 100 (tl (dropWhile (\<lambda>m. m \<noteq> l) rows))
           | None \<Rightarrow>
               (case js_find (\<lambda>l. q = context_payload p Gt (Some l)) rows of
                  Some l \<Rightarrow> take 100 (rev (takeWhile (\<lambda>m. m \<noteq> l) rows)) | None \<Rightarrow> []))"

definition example_span :: span_props where
  "example_span = \<lparr>sl_traceId = ''t'', sl_spanId = ''s'', sl_start = 0, sl_end = 1000, sl_isDrawerOpen = True\<rparr>"

definition of_times :: "int list \<Rightarrow> log_line list" where
  "of_times ts = map (\<lambda>(i, t). \<lparr>lg_id = [char_of (110 - i :: nat)], lg_ms = t\<rparr>) (zip [0..<length ts] ts)"

definition in_span :: "log_line \<Rightarrow> bool" where
  "in_span l \<longleftrightarrow> lg_id l \<in> {''l'', ''k''}"



text \<open>Logs of a span within one millisecond are shown twice: the sort keeps the newest of them first.\<close>

lemma same_time_shown_twice:
  "map lg_id (useSpanContextLogs (trace_rows example_span (of_times [5, 4, 3, 3, 1]) in_span) example_span) =
    [''n'', ''m'', ''l'', ''l'', ''k'', ''k'', ''j'']"
  by code_simp

end
