(* ===== verification/Query_Operations.thy ===== *)
theory Query_Operations
  imports Query_Provider Web_Storage
begin

text \<open>
  \<^verbatim>\<open>hooks/queryBuilder/useQueryBuilderOperations.ts\<close>: what the controls of one row of the query editor do to it, over the
  provider and the store of previous queries, with the tables and helpers it calls
  (\<^verbatim>\<open>getMetricsOperatorsByAttributeType.ts\<close>, \<^verbatim>\<open>findDataTypeOfOperator.ts\<close>, \<^verbatim>\<open>getFormatedLegend.ts\<close>). Options of a
  menu are given by their values. \<open>enc\<close> and \<open>dec\<close> are the JSON of a row.
\<close>

section \<open>Tables\<close>

definition metricsSumAggregateOperatorOptions :: "string list" where
  "metricsSumAggregateOperatorOptions = [''rate'', ''increase'']"

definition metricsGaugeAggregateOperatorOptions :: "string list" where
  "metricsGaugeAggregateOperatorOptions = [''latest'', ''sum'', ''avg'', ''min'', ''max'', ''count'', ''count_distinct'']"

definition metricsSumSpaceAggregateOperatorOptions :: "string list" where
  "metricsSumSpaceAggregateOperatorOptions = [''sum'', ''avg'', ''min'', ''max'']"

definition metricsGaugeSpaceAggregateOperatorOptions :: "string list" where
  "metricsGaugeSpaceAggregateOperatorOptions = [''sum'', ''avg'', ''min'', ''max'']"

definition metricsHistogramSpaceAggregateOperatorOptions :: "string list" where
  "metricsHistogramSpaceAggregateOperatorOptions = [''p50'', ''p75'', ''p90'', ''p95'', ''p99'']"

definition metricsEmptyTimeAggregateOperatorOptions :: "string list" where
  "metricsEmptyTimeAggregateOperatorOptions = []"

definition metricsUnknownTimeAggregateOperatorOptions :: "string list" where
  "metricsUnknownTimeAggregateOperatorOptions = [''max'', ''min'', ''sum'', ''avg'', ''count'', ''rate'', ''increase'']"

definition metricsUnknownSpaceAggregateOperatorOptions :: "string list" where
  "metricsUnknownSpaceAggregateOperatorOptions =
     [''sum'', ''avg'', ''min'', ''max'', ''p50'', ''p75'', ''p90'', ''p95'', ''p99'']"

definition ATTRIBUTE_TYPES :: "string list" where
  "ATTRIBUTE_TYPES = [''Sum'', ''Gauge'', ''Histogram'', ''ExponentialHistogram'']"

definition getMetricsOperatorsByAttributeType :: "data_source \<Rightarrow> string \<Rightarrow> string list" where
  "getMetricsOperatorsByAttributeType dataSource aggregateAttributeType =
     (if dataSource = METRICS \<and> aggregateAttributeType = ''Sum'' then metricsSumAggregateOperatorOptions
      else if dataSource = METRICS \<and> aggregateAttributeType = ''Gauge'' then metricsGaugeAggregateOperatorOptions
      else if dataSource = METRICS \<and> aggregateAttributeType = [] then metricsUnknownTimeAggregateOperatorOptions
      else metricsEmptyTimeAggregateOperatorOptions)"

definition string_operators :: "string list" where
  "string_operators = [''noop'', ''count'', ''count_distinct'']"

definition number_operators :: "string list" where
  "number_operators =
     [''sum'', ''avg'', ''max'', ''min'', ''p05'', ''p10'', ''p20'', ''p25'', ''p50'', ''p75'', ''p90'', ''p95'', ''p99'', ''rate'',
      ''sum_rate'', ''avg_rate'', ''max_rate'', ''min_rate'', ''rate_sum'', ''rate_avg'', ''rate_min'', ''rate_max'',
      ''hist_quantile_50'', ''hist_quantile_75'', ''hist_quantile_90'', ''hist_quantile_95'', ''hist_quantile_99'']"

definition operatorsByTypes :: "(string \<times> string list) list" where
  "operatorsByTypes = [(''string'', string_operators), (''number'', number_operators), (''bool'', string_operators)]"

definition findDataTypeOfOperator :: "string \<Rightarrow> string option" where
  "findDataTypeOfOperator v = map_option fst (js_find (\<lambda>(_, ops). v \<in> set ops) operatorsByTypes)"

definition source_text :: "data_source \<Rightarrow> string" where
  "source_text d = (case d of METRICS \<Rightarrow> ''metrics'' | TRACES \<Rightarrow> ''traces'' | LOGS \<Rightarrow> ''logs'')"

definition panel_text :: "panel_type \<Rightarrow> string" where
  "panel_text p =
     (case p of P_TIME_SERIES \<Rightarrow> ''graph'' | P_VALUE \<Rightarrow> ''value'' | P_TABLE \<Rightarrow> ''table'' | P_LIST \<Rightarrow> ''list'' | P_TRACE \<Rightarrow> ''trace''
      | P_BAR \<Rightarrow> ''bar'' | P_PIE \<Rightarrow> ''pie'' | P_HISTOGRAM \<Rightarrow> ''histogram'' | P_EMPTY_WIDGET \<Rightarrow> ''EMPTY_WIDGET'')"

text \<open>The additional filters of a row or a formula: the text of each and its field.\<close>

definition mapOfQueryFilters :: "data_source \<Rightarrow> (string \<times> string) list" where
  "mapOfQueryFilters d =
     (if d = METRICS then [(''Aggregation interval'', ''stepInterval''), (''Having'', ''having'')]
      else [(''Order by'', ''orderBy''), (''Limit'', ''limit''), (''Having'', ''having''), (''Aggregation interval'', ''stepInterval'')])"

definition mapOfFormulaToFilters :: "data_source \<Rightarrow> (string \<times> string) list" where
  "mapOfFormulaToFilters d = [(''Having'', ''having''), (''Order by'', ''orderBy''), (''Limit'', ''limit'')]"

definition getNewListOfAdditionalFilters :: "string set \<Rightarrow> data_source \<Rightarrow> bool \<Rightarrow> string list" where
  "getNewListOfAdditionalFilters hidden dataSource isQuery =
     map fst (filter (\<lambda>(_, field). field \<notin> hidden) ((if isQuery then mapOfQueryFilters else mapOfFormulaToFilters) dataSource))"

section \<open>Legends\<close>

text \<open>\<open>/\{\s*\{\s*(.*?)\s*\}\s*\}/g\<close> as a scan: the braces that open, the shortest text, the braces that close.\<close>

definition after_brace :: "char \<Rightarrow> string \<Rightarrow> string option" where
  "after_brace b s = (case dropWhile js_ws s of c # cs \<Rightarrow> if c = b then Some cs else None | [] \<Rightarrow> None)"

definition closed_at :: "string \<Rightarrow> string option" where
  "closed_at s = Option.bind (after_brace (CHR ''}'') s) (after_brace (CHR ''}''))"

fun legend_name :: "string \<Rightarrow> (string \<times> string) option" where
  "legend_name [] = None"
| "legend_name (c # cs) =
     (case closed_at (c # cs) of
        Some rest \<Rightarrow> Some ([], rest)
      | None \<Rightarrow>
          if c = CHR 0x0A \<or> c = CHR 0x0D then None
          else map_option (\<lambda>(name, rest). (c # name, rest)) (legend_name cs))"

text \<open>A variable that starts at the first character: its name and what follows.\<close>

definition legend_variable :: "string \<Rightarrow> (string \<times> string) option" where
  "legend_variable s =
     (case s of
        c # cs \<Rightarrow>
          if c = CHR ''{'' then Option.bind (after_brace (CHR ''{'') cs) (\<lambda>t. legend_name (dropWhile js_ws t)) else None
      | [] \<Rightarrow> None)"

lemma after_brace_length: "after_brace b s = Some t \<Longrightarrow> length t < length s"
  using length_dropWhile_le [of js_ws s] by (auto simp: after_brace_def split: list.splits if_splits)

lemma closed_at_length: "closed_at s = Some t \<Longrightarrow> length t < length s"
  by (auto simp: closed_at_def bind_eq_Some_conv dest!: after_brace_length)

lemma legend_name_length: "legend_name s = Some (n, t) \<Longrightarrow> length t < length s"
  by (induction s arbitrary: n rule: legend_name.induct)
    (auto dest!: closed_at_length split: option.splits if_splits)

lemma legend_variable_length: "legend_variable s = Some (n, t) \<Longrightarrow> length t < length s"
  using length_dropWhile_le [of js_ws]
  by (auto simp: legend_variable_def bind_eq_Some_conv dest!: after_brace_length legend_name_length
      split: list.splits if_splits) (meson Suc_lessD le_less_trans less_SucI less_le_trans less_trans)

function getFormatedLegend :: "string \<Rightarrow> string" where
  "getFormatedLegend s =
     (case s of
        [] \<Rightarrow> []
      | c # cs \<Rightarrow>
          (case legend_variable s of
             Some (name, rest) \<Rightarrow> ''{{'' @ name @ ''}}'' @ getFormatedLegend rest
           | None \<Rightarrow> c # getFormatedLegend cs))"
  by pat_completeness auto
termination
  by (relation "measure length") (auto dest: legend_variable_length)

declare getFormatedLegend.simps [simp del]

section \<open>Changes of a row\<close>

definition empty_aggregation :: aggregation_item where
  "empty_aggregation =
     \<lparr>ai_expression = [], ai_alias = None, ai_metricName = None, ai_temporality = None, ai_timeAggregation = None,
      ai_spaceAggregation = None, ai_reduceTo = None\<rparr>"

definition row_aggregation :: "provider_query \<Rightarrow> aggregation_item option" where
  "row_aggregation q = (case bq_aggregations q of a # _ \<Rightarrow> Some a | [] \<Rightarrow> None)"

definition or_empty :: "aggregation_item option \<Rightarrow> aggregation_item" where
  "or_empty a = (case a of Some a \<Rightarrow> a | None \<Rightarrow> empty_aggregation)"

definition handleChangeOperator :: "string \<Rightarrow> provider_query \<Rightarrow> provider_query" where
  "handleChangeOperator v query =
     (let aggregateDataType = Option.bind (bq_aggregateAttribute query) ac_dataType;
          shouldReset = (aggregateDataType \<in> {Some DT_String, Some DT_bool} \<and> findDataTypeOfOperator v = Some ''number'');
          newQuery = query\<lparr>pq_aggregateOperator := Some v, bq_timeAggregation := Some v,
            bq_aggregations := [(or_empty (row_aggregation query))\<lparr>ai_timeAggregation := Some v\<rparr>], bq_limit := None\<rparr>
      in if shouldReset then newQuery\<lparr>bq_aggregateAttribute := Some initialAutocompleteData\<rparr> else newQuery)"

text \<open>\<open>None\<close> is the error of reading the name of no aggregation.\<close>

definition handleSpaceAggregationChange :: "string \<Rightarrow> provider_query \<Rightarrow> provider_query option" where
  "handleSpaceAggregationChange v query =
     map_option (\<lambda>a. query\<lparr>bq_spaceAggregation := Some v, bq_aggregations := [a\<lparr>ai_spaceAggregation := Some v\<rparr>]\<rparr>)
       (row_aggregation query)"

text \<open>The operators and space aggregations that are offered for a metric.\<close>

definition handleMetricAggregateAtributeTypes :: "autocomplete_data \<Rightarrow> string list \<times> string list" where
  "handleMetricAggregateAtributeTypes a =
     (let type = str_or (ac_type a) [];
          operators = (if type = [] \<and> ac_key a \<noteq> [] then metricsUnknownTimeAggregateOperatorOptions
                       else getMetricsOperatorsByAttributeType METRICS (str_or (ac_type a) ''Gauge''))
      in (operators,
          if type = ''Sum'' then metricsSumSpaceAggregateOperatorOptions
          else if type = ''Gauge'' then metricsGaugeSpaceAggregateOperatorOptions
          else if type = ''Histogram'' \<or> type = ''ExponentialHistogram'' then metricsHistogramSpaceAggregateOperatorOptions
          else metricsUnknownSpaceAggregateOperatorOptions))"

definition metric_aggregation_item :: "string \<Rightarrow> string \<Rightarrow> string \<Rightarrow> string option \<Rightarrow> aggregation_item" where
  "metric_aggregation_item metricName time space reduceTo =
     empty_aggregation\<lparr>ai_timeAggregation := Some time, ai_metricName := Some metricName, ai_temporality := Some [],
       ai_spaceAggregation := Some space, ai_reduceTo := reduceTo\<rparr>"

text \<open>The aggregation a newly chosen metric starts with.\<close>

definition initial_metric_aggregation :: "autocomplete_data \<Rightarrow> aggregation_item" where
  "initial_metric_aggregation a =
     (let type = str_or (ac_type a) []; item = metric_aggregation_item (ac_key a)
      in if type = ''Sum'' then item ''rate'' ''sum'' (Some ''sum'')
         else if type = ''Gauge'' then item ''avg'' ''avg'' (Some ''avg'')
         else if type = ''Histogram'' \<or> type = ''ExponentialHistogram'' then item [] ''p90'' (Some ''avg'')
         else item [] [] (Some ''avg''))"

definition unknown_metric_aggregation :: "autocomplete_data \<Rightarrow> aggregation_item" where
  "unknown_metric_aggregation a =
     (if ac_key a \<noteq> [] then metric_aggregation_item (ac_key a) ''avg'' ''avg'' None
      else metric_aggregation_item (ac_key a) ''avg'' ''sum'' None)"

text \<open>The metric of a row as the effect of a new row notes it: name and type.\<close>

definition previous_metric_info :: "provider_query \<Rightarrow> (string \<times> string) option" where
  "previous_metric_info query =
     (let metricName = str_or (map_option ac_key (bq_aggregateAttribute query))
            (str_or (Option.bind (row_aggregation query) ai_metricName) []);
          metricType = str_or (Option.bind (bq_aggregateAttribute query) ac_type) []
      in if metricName \<noteq> [] \<and> metricType \<noteq> [] then Some (metricName, metricType) else None)"

definition metric_type_changed :: "(string \<times> string) option \<Rightarrow> autocomplete_data \<Rightarrow> bool" where
  "metric_type_changed previous a \<longleftrightarrow>
     (let currentType = str_or (ac_type a) []; prevType = (case previous of Some (_, t) \<Rightarrow> t | None \<Rightarrow> [])
      in prevType \<noteq> [] \<and> currentType \<noteq> [] \<and> prevType \<noteq> currentType)"

definition handleChangeAggregatorAttribute :: "(string \<times> string) option \<Rightarrow> autocomplete_data \<Rightarrow> bool \<Rightarrow> provider_query \<Rightarrow> provider_query" where
  "handleChangeAggregatorAttribute previous a isEditMode query =
     (let newQuery = query\<lparr>bq_aggregateAttribute := Some a\<rparr>;
          chosen =
            (if metric_type_changed previous a \<or> previous = None
             then newQuery\<lparr>bq_aggregations := [if str_or (ac_type a) [] = [] then unknown_metric_aggregation a else initial_metric_aggregation a],
                    pq_aggregateOperator := Some [], bq_spaceAggregation := Some []\<rparr>
             else (case row_aggregation query of
                     Some current \<Rightarrow> newQuery\<lparr>bq_aggregations := [current\<lparr>ai_metricName := Some (ac_key a)\<rparr>]\<rparr>
                   | None \<Rightarrow> newQuery))
      in if bq_dataSource query = METRICS \<and> \<not> isEditMode
         then (if str_or (ac_type a) [] = [] then chosen\<lparr>bq_aggregations := [unknown_metric_aggregation a]\<rparr> else chosen)
         else newQuery)"

text \<open>The value of a changed field is that of the row \<open>n\<close>.\<close>

definition handleChangeQueryData :: "string \<Rightarrow> provider_query \<Rightarrow> provider_query \<Rightarrow> provider_query" where
  "handleChangeQueryData key n query =
     set_field (if key = ''legend'' then n\<lparr>bq_legend := getFormatedLegend (bq_legend n)\<rparr> else n) key query"

definition handleQueryFunctionsUpdates :: "query_function list \<Rightarrow> provider_query \<Rightarrow> provider_query" where
  "handleQueryFunctionsUpdates functions query =
     (if bq_dataSource query \<in> {METRICS, LOGS} then query\<lparr>bq_functions := functions\<rparr> else query)"

text \<open>The formula without one given is the empty object, whose missing fields are empty here.\<close>

definition handleChangeFormulaData :: "string \<Rightarrow> formula_query \<Rightarrow> formula_query option \<Rightarrow> formula_query" where
  "handleChangeFormulaData key n formula =
     (let f = (case formula of
                 Some f \<Rightarrow> f
               | None \<Rightarrow> \<lparr>fq_queryName = [], fq_expression = [], fq_disabled = False, fq_legend = [], fq_limit = None, fq_orderBy = None\<rparr>)
      in if key = ''queryName'' then f\<lparr>fq_queryName := fq_queryName n\<rparr>
         else if key = ''expression'' then f\<lparr>fq_expression := fq_expression n\<rparr>
         else if key = ''disabled'' then f\<lparr>fq_disabled := fq_disabled n\<rparr>
         else if key = ''legend'' then f\<lparr>fq_legend := fq_legend n\<rparr>
         else if key = ''limit'' then f\<lparr>fq_limit := fq_limit n\<rparr>
         else if key = ''orderBy'' then f\<lparr>fq_orderBy := fq_orderBy n\<rparr>
         else f)"

definition handleDeleteQuery :: "nat \<Rightarrow> provider \<Rightarrow> provider" where
  "handleDeleteQuery i s =
     (if 1 < length (qs_queryData (pv_currentQuery s)) then removeQueryByIndex i s else s)\<lparr>pv_lastUsedQuery := Some 0\<rparr>"

section \<open>Another data source\<close>

definition row_key :: "panel_type option \<Rightarrow> provider_query \<Rightarrow> data_source \<Rightarrow> string" where
  "row_key panelType query dataSource =
     getQueryKey (bq_queryName query) (source_text dataSource) (bq_source query)
       (case panelType of Some p \<Rightarrow> panel_text p | None \<Rightarrow> [])"

definition telemetry_column :: "string \<Rightarrow> string \<Rightarrow> string \<Rightarrow> select_column" where
  "telemetry_column name context type =
     \<lparr>sc_name = Some name, sc_key = None, sc_fieldDataType = Some type, sc_dataType = None, sc_signal = Some ''traces'',
      sc_fieldContext = Some context, sc_type = None\<rparr>"

definition defaultTraceSelectedColumns :: "select_column list" where
  "defaultTraceSelectedColumns =
     [telemetry_column ''service.name'' ''resource'' ''string'', telemetry_column ''name'' ''span'' ''string'',
      telemetry_column ''duration_nano'' ''span'' [], telemetry_column ''http_method'' ''span'' [],
      telemetry_column ''response_status_code'' ''span'' []]"

definition list_view_row :: "data_source \<Rightarrow> provider_query" where
  "list_view_row d =
     (let row = (initialQueryBuilderFormValuesMap d)\<lparr>pq_aggregateOperator := Some ''noop'',
            bq_orderBy := [\<lparr>ob_columnName = ''timestamp'', ob_order = ''desc''\<rparr>], bq_offset := Some 0\<rparr>
      in if d = LOGS then row\<lparr>bq_pageSize := Some 100\<rparr>
         else row\<lparr>bq_pageSize := Some 10, bq_selectColumns := Some defaultTraceSelectedColumns\<rparr>)"

definition listViewInitialQuery :: "string \<Rightarrow> data_source \<Rightarrow> typed_query option" where
  "listViewInitialQuery i d =
     (if d = METRICS then None else Some ((initialQueriesMap i d)\<lparr>qs_queryData := [list_view_row d]\<rparr>))"

text \<open>The row with the initial values of another source; its name and expression stay.\<close>

definition row_of_source :: "data_source \<Rightarrow> string \<Rightarrow> provider_query \<Rightarrow> provider_query" where
  "row_of_source nextSource operator query =
     (let d = initialQueryBuilderFormValuesMap nextSource
      in query\<lparr>bq_dataSource := nextSource, pq_aggregateOperator := Some operator,
           bq_aggregateAttribute := bq_aggregateAttribute d, bq_timeAggregation := bq_timeAggregation d,
           bq_spaceAggregation := bq_spaceAggregation d, bq_filter := bq_filter d, bq_aggregations := bq_aggregations d,
           bq_functions := bq_functions d, bq_filters := bq_filters d, bq_disabled := bq_disabled d,
           bq_stepInterval := bq_stepInterval d, bq_having := bq_having d, bq_limit := bq_limit d, bq_orderBy := bq_orderBy d,
           bq_groupBy := bq_groupBy d, bq_legend := bq_legend d, bq_reduceTo := bq_reduceTo d, bq_source := bq_source d\<rparr>)"

text \<open>The row at an index as a control of it sees it, and what it is told by its caller.\<close>

record row_control =
  rc_index :: nat
  rc_isListViewPanel :: bool
  rc_savePreviousQuery :: bool

definition swap_previous ::
    "'s storage_api \<Rightarrow> (provider_query \<Rightarrow> json) \<Rightarrow> (json \<Rightarrow> provider_query) \<Rightarrow> row_control \<Rightarrow> panel_type option \<Rightarrow> data_source \<Rightarrow>
      provider_query \<Rightarrow> 's \<Rightarrow> 's \<times> provider_query option" where
  "swap_previous api enc dec c panelType nextSource query st =
     (if rc_savePreviousQuery c then
        (let st = saveAsPreviousQuery api (row_key panelType query (bq_dataSource query)) (enc query) st;
             newKey = row_key panelType query nextSource
         in (removeKeyFromPreviousQuery api newKey st, map_option dec (getPreviousQueryFromKey api newKey st)))
      else (st, None))"

definition list_view_redirect ::
    "(nat \<Rightarrow> string) \<Rightarrow> row_control \<Rightarrow> data_source \<Rightarrow> provider_query option \<Rightarrow> provider \<Rightarrow> provider option" where
  "list_view_redirect uid c nextSource previous s =
     (if rc_isListViewPanel c then
        (case listViewInitialQuery (uid 0) nextSource of
           None \<Rightarrow> Some s
         | Some q \<Rightarrow>
             let q = (case previous of Some row \<Rightarrow> q\<lparr>qs_queryData := [row]\<rparr> | None \<Rightarrow> q)
             in redirectWithQueryBuilderData uid (partial_of q) [] None False s)
      else Some s)"

text \<open>
  The storage and the provider afterwards, and whether the call returned: it throws when the redirect does, and when the
  panel has no operators for the source, after the redirect.
\<close>

definition handleChangeDataSource ::
    "'s storage_api \<Rightarrow> (provider_query \<Rightarrow> json) \<Rightarrow> (json \<Rightarrow> provider_query) \<Rightarrow> (nat \<Rightarrow> string) \<Rightarrow> row_control \<Rightarrow> data_source \<Rightarrow>
      's \<times> provider \<Rightarrow> ('s \<times> provider) \<times> bool" where
  "handleChangeDataSource api enc dec uid c nextSource state =
     (let (st, s) = state;
          query = qs_queryData (pv_currentQuery s) ! rc_index c;
          panelType = pv_panelType s;
          (st, previous) = swap_previous api enc dec c panelType nextSource query st
      in case list_view_redirect uid c nextSource previous s of
           None \<Rightarrow> ((st, s), False)
         | Some s \<Rightarrow>
             (case getOperatorsBySourceAndPanelType nextSource (case panelType of Some p \<Rightarrow> p | None \<Rightarrow> P_TIME_SERIES) of
                [] \<Rightarrow> ((st, s), False)
              | operator # _ \<Rightarrow>
                  ((st, handleSetQueryData (rc_index c)
                          (case previous of Some row \<Rightarrow> row | None \<Rightarrow> row_of_source nextSource operator query) s), True)))"

section \<open>The menus of a row\<close>

record row_menus =
  rm_operators :: "string list"
  rm_spaceOptions :: "string list"

text \<open>The effect of a row or panel that has changed.\<close>

definition operators_effect :: "data_source option \<Rightarrow> panel_type option \<Rightarrow> provider_query \<Rightarrow> row_menus \<Rightarrow> row_menus" where
  "operators_effect initialDataSource panelType query m =
     (case initialDataSource of
        Some d \<Rightarrow>
          if d \<noteq> bq_dataSource query then m
          else m\<lparr>rm_operators := getOperatorsBySourceAndPanelType (bq_dataSource query) (case panelType of Some p \<Rightarrow> p | None \<Rightarrow> P_TIME_SERIES)\<rparr>
      | None \<Rightarrow> m\<lparr>rm_operators := getOperatorsBySourceAndPanelType (bq_dataSource query) (case panelType of Some p \<Rightarrow> p | None \<Rightarrow> P_TIME_SERIES)\<rparr>)"

definition attribute_menus :: "autocomplete_data \<Rightarrow> provider_query \<Rightarrow> row_menus \<Rightarrow> row_menus" where
  "attribute_menus a query m =
     (if bq_dataSource query = METRICS
      then (let (operators, space) = handleMetricAggregateAtributeTypes a in m\<lparr>rm_operators := operators, rm_spaceOptions := space\<rparr>)
      else m)"

section \<open>Switching sources remembers the rows\<close>

text \<open>The specification: a row and what is remembered of each source.\<close>

datatype row_op = Switch data_source | Edit provider_query


definition panel_operators :: "panel_type option \<Rightarrow> data_source \<Rightarrow> string list" where
  "panel_operators p d = getOperatorsBySourceAndPanelType d (case p of Some p \<Rightarrow> p | None \<Rightarrow> P_TIME_SERIES)"


definition run_op ::
    "'s storage_api \<Rightarrow> (provider_query \<Rightarrow> json) \<Rightarrow> (json \<Rightarrow> provider_query) \<Rightarrow> (nat \<Rightarrow> string) \<Rightarrow> nat \<Rightarrow> row_op \<Rightarrow>
      's \<times> provider \<Rightarrow> 's \<times> provider" where
  "run_op api enc dec uid i op' state =
     (case op' of
        Edit r \<Rightarrow> (fst state, handleSetQueryData i r (snd state))
      | Switch d \<Rightarrow>
          fst (handleChangeDataSource api enc dec uid \<lparr>rc_index = i, rc_isListViewPanel = False, rc_savePreviousQuery = True\<rparr> d state))"


definition current_row :: "provider \<Rightarrow> nat \<Rightarrow> provider_query" where
  "current_row s i = qs_queryData (pv_currentQuery s) ! i"












section \<open>Other operations\<close>

text \<open>No operation but a restored row changes the name or the data source of a row.\<close>

lemma operations_keep_row:
  "bq_queryName (handleChangeOperator v q) = bq_queryName q \<and> bq_dataSource (handleChangeOperator v q) = bq_dataSource q"
  "handleSpaceAggregationChange v q = Some r \<Longrightarrow> bq_queryName r = bq_queryName q \<and> bq_dataSource r = bq_dataSource q"
  "bq_queryName (handleChangeAggregatorAttribute previous a edit q) = bq_queryName q \<and>
    bq_dataSource (handleChangeAggregatorAttribute previous a edit q) = bq_dataSource q"
  "bq_queryName (handleQueryFunctionsUpdates fs q) = bq_queryName q \<and> bq_dataSource (handleQueryFunctionsUpdates fs q) = bq_dataSource q"
  "bq_queryName (row_of_source d v q) = bq_queryName q"
  by (auto simp: handleChangeOperator_def handleSpaceAggregationChange_def handleChangeAggregatorAttribute_def
      handleQueryFunctionsUpdates_def row_of_source_def Let_def split: option.splits)

text \<open>The request asks for the metric that was chosen last, whatever was chosen before.\<close>

lemma chosen_metric_requested:
  assumes "bq_dataSource q = METRICS" and "ac_key a \<noteq> []"
  shows "map_option ma_metricName
      (case createAggregation (builder_query.truncate (handleChangeAggregatorAttribute previous a False q)) p of
         [Metric_Aggregation m] \<Rightarrow> Some m | _ \<Rightarrow> None) = Some (Some (ac_key a))"
proof -
  let ?r = "handleChangeAggregatorAttribute previous a False q"
  have "bq_dataSource ?r = METRICS" "bq_aggregateAttribute ?r = Some a"
    using assms(1) by (auto simp: handleChangeAggregatorAttribute_def Let_def split: option.splits)
  moreover have "bq_aggregations ?r = [] \<or> (\<exists>item items. bq_aggregations ?r = item # items \<and> ai_metricName item = Some (ac_key a))"
    using assms(1)
    by (auto simp: handleChangeAggregatorAttribute_def initial_metric_aggregation_def unknown_metric_aggregation_def
        metric_aggregation_item_def row_aggregation_def Let_def split: option.splits list.splits)
  ultimately show ?thesis
    using assms(2)
    by (auto simp: createAggregation_def metric_aggregation_of_def builder_query.defs Query_Payload.first_aggregation_def or_text_def
        truthy_str_def Let_def)
qed

text \<open>In a list or a trace panel no operators are left for any source, so the call throws after the store has been changed.\<close>

lemma change_source_throws_in_list:
  "pv_panelType s = Some p \<Longrightarrow> p = P_LIST \<or> p = P_TRACE \<Longrightarrow>
    \<not> snd (handleChangeDataSource api enc dec uid c d (st, s))"
proof -
  assume p: "pv_panelType s = Some p" "p = P_LIST \<or> p = P_TRACE"
  then have none: "getOperatorsBySourceAndPanelType d p = []"
    by (cases d) (auto simp: getOperatorsBySourceAndPanelType_def mapOfOperators_def metricAggregateOperatorOptions_def
        tracesAggregateOperatorOptions_def logsAggregateOperatorOptions_def Let_def)
  then show ?thesis
    by (simp add: handleChangeDataSource_def p(1) split_def Let_def split: option.split)
qed

text \<open>The effect of the changed row replaces the operators of the metric that was chosen by those of all metrics.\<close>

lemma metric_operators_overwritten:
  "bq_dataSource q = METRICS \<Longrightarrow> rm_operators (operators_effect None p q (attribute_menus a q m)) = panel_operators p METRICS"
  by (simp add: operators_effect_def panel_operators_def)

section \<open>A concrete row\<close>

definition example_row :: provider_query where
  "example_row = (initialQueryBuilderFormValuesMap METRICS)\<lparr>bq_legend := ''cpu''\<rparr>"


definition example_provider :: "provider_query \<Rightarrow> provider" where
  "example_provider q =
     (let qs = \<lparr>qs_queryData = [q], qs_queryFormulas = [], qs_id = ''q'', qs_unit = None, qs_resultUnit = None, qs_displayUnit = None\<rparr>
      in \<lparr>pv_pathname = ''/alerts/new'', pv_search = [], pv_urlQuery = [], pv_pathRef = ''/alerts/new'', pv_called = False,
          pv_initialDataSource = None, pv_panelType = Some P_TIME_SERIES, pv_currentQuery = qs, pv_supersetQuery = qs,
          pv_lastUsedQuery = None, pv_stagedQuery = None, pv_queryType = ''builder'', pv_pushed = [], pv_uuids = 1\<rparr>)"

text \<open>A codec of few rows: the text of one is its source and legend.\<close>

definition encode_row :: "provider_query \<Rightarrow> json" where
  "encode_row r = JString (source_text (bq_dataSource r) @ bq_source r @ bq_legend r)"

definition decode_row :: "provider_query list \<Rightarrow> json \<Rightarrow> provider_query" where
  "decode_row rows j = (case js_find (\<lambda>r. encode_row r = j) rows of Some r \<Rightarrow> r | None \<Rightarrow> initialQueryBuilderFormValues)"




text \<open>A row of the meter source gets the key of the plain source on the way back, so it is not found.\<close>

lemma meter_row_not_restored:
  "(let row = example_row\<lparr>bq_source := ''meter''\<rparr>;
        state = fold (run_op (browser_storage (\<lambda>_. True)) encode_row (decode_row [row]) (\<lambda>_. ''u'') 0) [Switch LOGS, Switch METRICS]
          (\<lambda>_. None, example_provider row)
    in current_row (snd state) 0 = row_of_source METRICS ''count'' row)"
  by code_simp

section \<open>Formatted legends\<close>

lemma plain_legend_kept: "CHR ''{'' \<notin> set s \<Longrightarrow> getFormatedLegend s = s"
  by (induction s) (subst getFormatedLegend.simps, auto simp: legend_variable_def)+

lemma after_brace_blank: "\<forall>c\<in>set w. js_ws c \<Longrightarrow> \<not> js_ws b \<Longrightarrow> after_brace b (w @ b # s) = Some s"
  by (induction w) (auto simp: after_brace_def)

lemma not_ws_braces [simp]: "\<not> js_ws (CHR ''{'')" "\<not> js_ws (CHR ''}'')"
  by (simp_all add: js_ws_def)

lemma dropWhile_blank: "\<forall>c\<in>set w. js_ws c \<Longrightarrow> dropWhile js_ws (w @ s) = dropWhile js_ws s"
  by (induction w) auto

lemma name_not_closed:
  assumes "name \<noteq> []" and "\<not> js_ws (last name)" and "CHR ''}'' \<notin> set name"
  shows "closed_at (name @ s) = None"
proof -
  have "last name \<in> set name" using assms(1) by (rule last_in_set)
  then obtain c cs where c: "dropWhile js_ws name = c # cs"
    using assms(2) by (metis dropWhile_eq_Nil_conv neq_Nil_conv)
  then have "dropWhile js_ws (name @ s) = c # cs @ s"
    by (metis append_Cons assms(2) dropWhile_append1 \<open>last name \<in> set name\<close>)
  moreover have "c \<noteq> CHR ''}''" using c assms(3) by (metis list.set_intros(1) set_dropWhileD)
  ultimately show ?thesis by (simp add: closed_at_def after_brace_def)
qed

lemma legend_name_scan:
  assumes "\<forall>c\<in>set (w @ w'). js_ws c"
    and "name = [] \<or> \<not> js_ws (last name)" and "set name \<inter> {CHR ''}'', CHR 0x0A, CHR 0x0D} = {}"
  shows "legend_name (name @ w @ CHR ''}'' # w' @ CHR ''}'' # s) = Some (name, s)"
  using assms(2,3)
proof (induction name)
  case Nil
  have "closed_at (w @ CHR ''}'' # w' @ CHR ''}'' # s) = Some s"
    using assms(1) by (simp add: closed_at_def after_brace_blank)
  then show ?case by (cases "w @ CHR ''}'' # w' @ CHR ''}'' # s") auto
next
  case (Cons c name)
  have "closed_at ((c # name) @ w @ CHR ''}'' # w' @ CHR ''}'' # s) = None"
    using Cons.prems by (intro name_not_closed) auto
  with Cons show ?case by (auto split: if_splits)
qed

text \<open>A variable is written without the blanks around its name and between its braces.\<close>

lemma variable_formatted:
  assumes "\<forall>c\<in>set (w1 @ w2 @ w3 @ w4). js_ws c"
    and "name \<noteq> []" and "\<not> js_ws (hd name)" and "\<not> js_ws (last name)" and "set name \<inter> {CHR ''}'', CHR 0x0A, CHR 0x0D} = {}"
  shows "getFormatedLegend (CHR ''{'' # w1 @ CHR ''{'' # w2 @ name @ w3 @ CHR ''}'' # w4 @ CHR ''}'' # s) =
    ''{{'' @ name @ ''}}'' @ getFormatedLegend s"
proof -
  have "dropWhile js_ws (w2 @ name @ w3 @ CHR ''}'' # w4 @ CHR ''}'' # s) = name @ w3 @ CHR ''}'' # w4 @ CHR ''}'' # s"
    using assms(1-3) by (cases name) (simp_all add: dropWhile_blank)
  moreover have "after_brace (CHR ''{'') (w1 @ CHR ''{'' # w2 @ name @ w3 @ CHR ''}'' # w4 @ CHR ''}'' # s) =
      Some (w2 @ name @ w3 @ CHR ''}'' # w4 @ CHR ''}'' # s)"
    using assms(1) by (intro after_brace_blank) auto
  moreover have "legend_name (name @ w3 @ CHR ''}'' # w4 @ CHR ''}'' # s) = Some (name, s)"
    using assms by (intro legend_name_scan) auto
  ultimately have "legend_variable (CHR ''{'' # w1 @ CHR ''{'' # w2 @ name @ w3 @ CHR ''}'' # w4 @ CHR ''}'' # s) = Some (name, s)"
    by (simp add: legend_variable_def)
  then show ?thesis by (subst getFormatedLegend.simps) simp
qed

end
