(* ===== verification/Quick_Filter.thy ===== *)
theory Quick_Filter
  imports Query_Provider
begin

text \<open>
  The check boxes of a quick filter, \<^verbatim>\<open>components/QuickFilters/FilterRenderers/Checkbox/Checkbox.tsx\<close> with its
  \<^verbatim>\<open>utils.ts\<close>: which values of an attribute are checked under the filters of a row, and how a click changes the row. The
  values of the attribute come from the backend and are an argument. A click writes the text of the row anew from its
  items, so the texts that branches of the code set before are not modelled. An item without a value counts as one with no values.
\<close>

section \<open>Keys\<close>

definition FIELD_CONTEXT_PREFIXES :: "string list" where
  "FIELD_CONTEXT_PREFIXES =
     [''metric'', ''log'', ''span'', ''trace'', ''resource'', ''scope'', ''attribute'', ''event'', ''body'']"

definition getKeyWithoutPrefix :: "string option \<Rightarrow> string" where
  "getKeyWithoutPrefix key =
     (case key of
        None \<Rightarrow> []
      | Some k \<Rightarrow>
          js_trim (case js_find (\<lambda>p. starts_with (p @ ''.'') (to_lower k)) FIELD_CONTEXT_PREFIXES of
                     Some p \<Rightarrow> drop (length p + 1) k | None \<Rightarrow> k))"

definition isKeyMatch :: "string option \<Rightarrow> string option \<Rightarrow> bool" where
  "isKeyMatch itemKey filterKey \<longleftrightarrow> getKeyWithoutPrefix itemKey = getKeyWithoutPrefix filterKey"

definition item_matches :: "autocomplete_data \<Rightarrow> tag_filter_item \<Rightarrow> bool" where
  "item_matches k item \<longleftrightarrow> isKeyMatch (map_option ac_key (tf_key item)) (Some (ac_key k))"

definition context_of_type :: "string \<Rightarrow> string" where
  "context_of_type t =
     (case map_of [(''tag'', ''attribute''), (''spanfield'', ''span''), (''logfield'', ''log'')] t of Some c \<Rightarrow> c | None \<Rightarrow> t)"

definition expressionKeysForQuickFilter :: "autocomplete_data \<Rightarrow> string list" where
  "expressionKeysForQuickFilter a =
     (let key = ac_key a;
          context = (if truthy_str (ac_type a) then context_of_type (the (ac_type a)) else []);
          dataType = (case ac_dataType a of Some d \<Rightarrow> data_type_text d | None \<Rightarrow> []);
          legacyContexts = (if context = ''span'' then [''attribute'', ''tag''] else [])
      in js_unique
           (key # (if context \<noteq> [] then [context @ ''.'' @ key] else []) @ map (\<lambda>l. l @ ''.'' @ key) legacyContexts @
            (if dataType \<noteq> [] then [key @ '':'' @ dataType] else []) @
            (if context \<noteq> [] \<and> dataType \<noteq> [] then [context @ ''.'' @ key @ '':'' @ dataType] else []) @
            (if dataType \<noteq> [] then map (\<lambda>l. l @ ''.'' @ key @ '':'' @ dataType) legacyContexts else [])))"

text \<open>A text whose number is not finite stays a text.\<close>

definition queryValueForDataType :: "string \<Rightarrow> data_type option \<Rightarrow> js_value" where
  "queryValueForDataType v dataType =
     (if dataType = Some DT_bool then SBool (to_lower v = ''true'')
      else if dataType \<in> {Some DT_Float64, Some DT_Int64}
      then (case string_num v of Some n \<Rightarrow> SNum n | None \<Rightarrow> SStr v)
      else SStr v)"

section \<open>What is checked\<close>

definition SELECTED_OPERATORS :: "string list" where
  "SELECTED_OPERATORS = [''='', ''in'']"

definition NON_SELECTED_OPERATORS :: "string list" where
  "NON_SELECTED_OPERATORS = [''!='', ''not in'']"

definition values_of :: "tag_value option \<Rightarrow> js_value list" where
  "values_of v = (case v of Some (VOne x) \<Rightarrow> [x] | Some (VList xs) \<Rightarrow> xs | None \<Rightarrow> [])"

definition is_array :: "tag_value option \<Rightarrow> bool" where
  "is_array v \<longleftrightarrow> (case v of Some (VList _) \<Rightarrow> True | _ \<Rightarrow> False)"

definition set_values :: "bool \<Rightarrow> string list \<Rightarrow> (string \<times> bool) list \<Rightarrow> (string \<times> bool) list" where
  "set_values b vs m = fold (\<lambda>v. map_set v b) vs m"

definition setDefaultValues :: "string list \<Rightarrow> bool \<Rightarrow> (string \<times> bool) list" where
  "setDefaultValues vs trueOrFalse = set_values trueOrFalse vs []"

definition currentFilterState :: "autocomplete_data \<Rightarrow> string list \<Rightarrow> tag_filter_item list \<Rightarrow> (string \<times> bool) list" where
  "currentFilterState k attributeValues items =
     (case js_find (item_matches k) items of
        None \<Rightarrow> setDefaultValues attributeValues True
      | Some item \<Rightarrow>
          if tf_op item \<in> set SELECTED_OPERATORS
          then set_values True (map value_string (values_of (tf_value item))) (setDefaultValues attributeValues False)
          else if tf_op item \<in> set NON_SELECTED_OPERATORS
          then set_values False (map value_string (values_of (tf_value item))) (setDefaultValues attributeValues True)
          else setDefaultValues attributeValues False)"

definition is_checked :: "(string \<times> bool) list \<Rightarrow> string \<Rightarrow> bool" where
  "is_checked st v \<longleftrightarrow> map_of st v = Some True"

definition normalized_filter_items :: "autocomplete_data \<Rightarrow> tag_filter_item list \<Rightarrow> tag_filter_item list" where
  "normalized_filter_items k items =
     deduplicateEquivalentFilterItems (map (\<lambda>i. if item_matches k i then i\<lparr>tf_key := Some k\<rparr> else i) items)"

definition isFilterDisabled :: "autocomplete_data \<Rightarrow> tag_filter_item list \<Rightarrow> bool" where
  "isFilterDisabled k items \<longleftrightarrow> 1 < length (filter (item_matches k) (normalized_filter_items k items))"

definition isMultipleValuesTrueForTheKey :: "(string \<times> bool) list \<Rightarrow> bool" where
  "isMultipleValuesTrueForTheKey st \<longleftrightarrow> 1 < length (filter snd st)"

definition currentAttributeKeys :: "(string \<times> bool) list \<Rightarrow> string list \<Rightarrow> nat \<Rightarrow> string list" where
  "currentAttributeKeys st attributeValues visibleItemsCount =
     take visibleItemsCount (filter (is_checked st) attributeValues @ filter (\<lambda>v. \<not> is_checked st v) attributeValues)"

definition checkedValuesCount :: "(string \<times> bool) list \<Rightarrow> string list \<Rightarrow> nat" where
  "checkedValuesCount st keys = length (filter (is_checked st) keys)"

definition activeQueryIndex :: "panel_type option \<Rightarrow> bool \<Rightarrow> int option \<Rightarrow> nat" where
  "activeQueryIndex panelType isTracesExplorer lastUsedQuery =
     (if panelType = Some P_LIST \<and> \<not> isTracesExplorer then 0 else (case lastUsedQuery of Some i \<Rightarrow> nat i | None \<Rightarrow> 0))"

definition filter_open :: "bool option \<Rightarrow> bool \<Rightarrow> bool \<Rightarrow> bool" where
  "filter_open userToggleState somePresent defaultOpen =
     (case userToggleState of Some b \<Rightarrow> b | None \<Rightarrow> somePresent \<or> defaultOpen)"

section \<open>A click\<close>

definition new_item :: "string \<Rightarrow> autocomplete_data \<Rightarrow> string \<Rightarrow> js_value \<Rightarrow> tag_filter_item" where
  "new_item uuid k op' v = \<lparr>tf_id = uuid, tf_key = Some k, tf_op = getOperatorValue op', tf_value = Some (VOne v)\<rparr>"

definition drop_key :: "autocomplete_data \<Rightarrow> tag_filter_item list \<Rightarrow> tag_filter_item list" where
  "drop_key k items = filter (\<lambda>i. \<not> item_matches k i) items"

definition put_item :: "autocomplete_data \<Rightarrow> tag_filter_item \<Rightarrow> tag_filter_item list \<Rightarrow> tag_filter_item list" where
  "put_item k newFilter items = map (\<lambda>i. if item_matches k i then newFilter else i) items"

definition with_value :: "tag_filter_item \<Rightarrow> js_value \<Rightarrow> tag_filter_item" where
  "with_value item v = item\<lparr>tf_value := Some (VList (values_of (tf_value item) @ [v]))\<rparr>"

text \<open>The values of an array without those of a text; the key goes with the last one.\<close>

definition without_value :: "autocomplete_data \<Rightarrow> tag_filter_item \<Rightarrow> string \<Rightarrow> tag_filter_item list \<Rightarrow> tag_filter_item list" where
  "without_value k item v items =
     (if is_array (tf_value item) then
        (let rest = filter (\<lambda>x. value_string x \<noteq> v) (values_of (tf_value item))
         in if rest = [] then drop_key k items else put_item k (item\<lparr>tf_value := Some (VList rest)\<rparr>) items)
      else drop_key k items)"

definition toggled_items :: "string \<Rightarrow> autocomplete_data \<Rightarrow> string \<Rightarrow> bool \<Rightarrow> tag_filter_item list \<Rightarrow> tag_filter_item list" where
  "toggled_items uuid k v checked items =
     (let queryValue = queryValueForDataType v (ac_dataType k)
      in case js_find (item_matches k) items of
           None \<Rightarrow> items @ [new_item uuid k ''NOT_IN'' queryValue]
         | Some item \<Rightarrow>
             let op' = tf_op item in
             if op' = ''in'' then
               (if checked then put_item k (with_value item queryValue) items else without_value k item v items)
             else if op' = ''not in'' then
               (if \<not> checked then put_item k (with_value item queryValue) items else without_value k item v items)
             else if op' = ''='' then
               (if checked then put_item k ((with_value item queryValue)\<lparr>tf_op := getOperatorValue ''IN''\<rparr>) items else drop_key k items)
             else if op' = ''!='' then
               (if \<not> checked then put_item k ((with_value item queryValue)\<lparr>tf_op := getOperatorValue ''NOT_IN''\<rparr>) items else drop_key k items)
             else items)"

definition only_items :: "string \<Rightarrow> autocomplete_data \<Rightarrow> string \<Rightarrow> bool \<Rightarrow> tag_filter_item list \<Rightarrow> tag_filter_item list" where
  "only_items uuid k v all' items =
     drop_key k items @ (if all' then [] else [new_item uuid k ''IN'' (queryValueForDataType v (ac_dataType k))])"

text \<open>A click on \<open>Only\<close> or \<open>All\<close> asks for all values when the value is the only one that is checked.\<close>

definition asks_for_all :: "autocomplete_data \<Rightarrow> string list \<Rightarrow> string \<Rightarrow> tag_filter_item list \<Rightarrow> bool" where
  "asks_for_all k attributeValues v items \<longleftrightarrow>
     (let st = currentFilterState k attributeValues items
      in list_ex (item_matches k) items \<and> is_checked st v \<and> \<not> isMultipleValuesTrueForTheKey st)"

definition changed_row ::
    "(nat \<Rightarrow> string) \<Rightarrow> autocomplete_data \<Rightarrow> string list \<Rightarrow> string \<Rightarrow> bool \<Rightarrow> bool \<Rightarrow> provider_query \<Rightarrow> provider_query" where
  "changed_row uuid k attributeValues v checked isOnlyOrAllClicked row =
     (case bq_filters row of
        None \<Rightarrow> row
      | Some filters \<Rightarrow>
          let items = normalized_filter_items k (tg_items filters);
              items = (if isOnlyOrAllClicked then only_items (uuid 0) k v (asks_for_all k attributeValues v (tg_items filters)) items
                       else toggled_items (uuid 0) k v checked items);
              expression = removeKeysFromExpression (str_or (bq_filter row) []) (expressionKeysForQuickFilter k) False;
              (filters', expression') = convertFiltersToExpressionWithExistingQuery (\<lambda>n. uuid (Suc n)) (filters\<lparr>tg_items := items\<rparr>) expression True
          in row\<lparr>bq_filters := Some filters', bq_filter := Some expression'\<rparr>)"

definition onChange ::
    "(nat \<Rightarrow> string) \<Rightarrow> autocomplete_data \<Rightarrow> string list \<Rightarrow> nat \<Rightarrow> string \<Rightarrow> bool \<Rightarrow> bool \<Rightarrow> query_state \<Rightarrow> query_state" where
  "onChange uuid k attributeValues active v checked isOnlyOrAllClicked q =
     (if active < length (qs_queryData q)
      then q\<lparr>qs_queryData := (qs_queryData q)[active := changed_row uuid k attributeValues v checked isOnlyOrAllClicked (qs_queryData q ! active)]\<rparr>
      else q)"

definition cleared_row :: "autocomplete_data \<Rightarrow> bool \<Rightarrow> provider_query \<Rightarrow> provider_query" where
  "cleared_row k active row =
     row\<lparr>bq_filter := Some (removeKeysFromExpression (case bq_filter row of Some e \<Rightarrow> e | None \<Rightarrow> []) (expressionKeysForQuickFilter k) False),
         bq_filters :=
           (let items = (case bq_filters row of Some f \<Rightarrow> tg_items f | None \<Rightarrow> [])
            in Some \<lparr>tg_items = (if active then drop_key k items else items),
                     tg_op = str_or (map_option tg_op (bq_filters row)) ''AND''\<rparr>)\<rparr>"

definition handleClearFilterAttribute :: "autocomplete_data \<Rightarrow> nat \<Rightarrow> query_state \<Rightarrow> query_state" where
  "handleClearFilterAttribute k active q =
     q\<lparr>qs_queryData := map (\<lambda>(i, row). cleared_row k (i = active) row) (enumerate 0 (qs_queryData q))\<rparr>"

section \<open>What a click does\<close>

lemma set_values_lookup: "map_of (set_values b vs m) w = (if w \<in> set vs then Some b else map_of m w)"
  unfolding set_values_def by (induction vs arbitrary: m) auto

definition strings_of :: "tag_filter_item \<Rightarrow> string set" where
  "strings_of i = value_string ` set (values_of (tf_value i))"

definition item_checks :: "tag_filter_item option \<Rightarrow> string \<Rightarrow> bool" where
  "item_checks item v \<longleftrightarrow>
     (case item of
        None \<Rightarrow> True
      | Some i \<Rightarrow>
          if tf_op i \<in> {''='', ''in''} then v \<in> strings_of i
          else if tf_op i \<in> {''!='', ''not in''} then v \<notin> strings_of i else False)"

lemma checked_iff:
  "v \<in> set attributeValues \<Longrightarrow>
    is_checked (currentFilterState k attributeValues items) v \<longleftrightarrow> item_checks (js_find (item_matches k) items) v"
  by (simp add: is_checked_def currentFilterState_def setDefaultValues_def set_values_lookup item_checks_def strings_of_def
      SELECTED_OPERATORS_def NON_SELECTED_OPERATORS_def split: option.split)

lemma find_put_item:
  "item_matches k new \<Longrightarrow> js_find (item_matches k) (put_item k new items) = map_option (\<lambda>_. new) (js_find (item_matches k) items)"
  by (induction items) (auto simp: put_item_def)

lemma find_drop_key: "js_find (item_matches k) (drop_key k items) = None"
  by (induction items) (auto simp: drop_key_def)

lemma find_append: "js_find P (xs @ ys) = (case js_find P xs of Some x \<Rightarrow> Some x | None \<Rightarrow> js_find P ys)"
  by (induction xs) auto

lemma find_map: "(\<And>x. P (f x) = P x) \<Longrightarrow> js_find P (map f xs) = map_option f (js_find P xs)"
  by (induction xs) auto

lemma find_matches: "js_find P xs = Some x \<Longrightarrow> P x"
  by (induction xs) (auto split: if_splits)

lemma matches_self [simp]: "item_matches k (i\<lparr>tf_key := Some k\<rparr>)"
  by (simp add: item_matches_def isKeyMatch_def)

lemma matches_value [simp]:
  "item_matches k (i\<lparr>tf_value := x\<rparr>) = item_matches k i" "item_matches k (i\<lparr>tf_op := x'\<rparr>) = item_matches k i"
  "item_matches k (with_value i v) = item_matches k i"
  by (simp_all add: item_matches_def with_value_def)

lemma new_item_matches [simp]: "item_matches k (new_item u k op' v)"
  by (simp add: new_item_def item_matches_def isKeyMatch_def)

lemma strings_with_value [simp]: "strings_of (with_value i v) = insert (value_string v) (strings_of i)"
  "strings_of (i\<lparr>tf_op := x\<rparr>) = strings_of i" "tf_op (with_value i v) = tf_op i"
  by (auto simp: strings_of_def with_value_def values_of_def)

lemma operator_values [simp]: "getOperatorValue ''IN'' = ''in''" "getOperatorValue ''NOT_IN'' = ''not in''"
  by (code_simp, code_simp)

text \<open>An item a box can change: it lists values, and \<open>=\<close> or \<open>!=\<close> has one.\<close>

definition box_item :: "tag_filter_item \<Rightarrow> bool" where
  "box_item i \<longleftrightarrow>
     tf_op i \<in> {''='', ''in'', ''!='', ''not in''} \<and> tf_value i \<noteq> None \<and>
     (tf_op i \<in> {''='', ''!=''} \<longrightarrow> \<not> is_array (tf_value i))"

lemma scalar_strings: "tf_value i \<noteq> None \<Longrightarrow> \<not> is_array (tf_value i) \<Longrightarrow> \<exists>s. strings_of i = {s}"
  by (auto simp: strings_of_def values_of_def is_array_def split: option.splits tag_value.splits)

lemma find_without_value:
  assumes "js_find (item_matches k) items = Some i" and "tf_value i \<noteq> None"
  shows "js_find (item_matches k) (without_value k i v items) = None \<and> (v \<in> strings_of i \<longrightarrow> strings_of i = {v}) \<or>
    (\<exists>j. js_find (item_matches k) (without_value k i v items) = Some j \<and> tf_op j = tf_op i \<and> strings_of j = strings_of i - {v})"
proof (cases "is_array (tf_value i)")
  case False
  then obtain s where "strings_of i = {s}" using scalar_strings [OF assms(2)] by blast
  with False show ?thesis by (simp add: without_value_def find_drop_key)
next
  case True
  let ?rest = "filter (\<lambda>x. value_string x \<noteq> v) (values_of (tf_value i))"
  show ?thesis
  proof (cases "?rest = []")
    case True
    then have "strings_of i \<subseteq> {v}" by (auto simp: strings_of_def filter_empty_conv)
    with True \<open>is_array _\<close> show ?thesis by (auto simp: without_value_def find_drop_key)
  next
    case False
    have "strings_of (i\<lparr>tf_value := Some (VList ?rest)\<rparr>) = strings_of i - {v}"
      by (auto simp: strings_of_def values_of_def)
    with False \<open>is_array _\<close> assms(1) find_matches [OF assms(1)] show ?thesis
      by (simp add: without_value_def find_put_item)
  qed
qed

lemma item_checks_None [simp]: "item_checks None v"
  by (simp add: item_checks_def)

lemma item_checks_selected: "tf_op i = ''in'' \<or> tf_op i = ''='' \<Longrightarrow> item_checks (Some i) v \<longleftrightarrow> v \<in> strings_of i"
  by (auto simp: item_checks_def)

lemma item_checks_others: "tf_op i = ''not in'' \<or> tf_op i = ''!='' \<Longrightarrow> item_checks (Some i) v \<longleftrightarrow> v \<notin> strings_of i"
  by (auto simp: item_checks_def)

lemma toggled_cases:
  assumes "js_find (item_matches k) items = Some i" and "w = queryValueForDataType v (ac_dataType k)"
  shows "tf_op i = ''in'' \<Longrightarrow>
      toggled_items u k v checked items = (if checked then put_item k (with_value i w) items else without_value k i v items)"
    and "tf_op i = ''not in'' \<Longrightarrow>
      toggled_items u k v checked items = (if \<not> checked then put_item k (with_value i w) items else without_value k i v items)"
    and "tf_op i = ''='' \<Longrightarrow>
      toggled_items u k v checked items = (if checked then put_item k ((with_value i w)\<lparr>tf_op := ''in''\<rparr>) items else drop_key k items)"
    and "tf_op i = ''!='' \<Longrightarrow>
      toggled_items u k v checked items = (if \<not> checked then put_item k ((with_value i w)\<lparr>tf_op := ''not in''\<rparr>) items else drop_key k items)"
  using assms by (simp_all add: toggled_items_def)

text \<open>A click sets its box and no other; unchecking the only value of \<open>=\<close> or \<open>IN\<close> checks all.\<close>

lemma toggled_items_check:
  assumes "\<forall>i. js_find (item_matches k) items = Some i \<longrightarrow> box_item i"
    and "value_string (queryValueForDataType v (ac_dataType k)) = v"
    and "checked \<longleftrightarrow> \<not> item_checks (js_find (item_matches k) items) v"
  shows "(\<forall>w. item_checks (js_find (item_matches k) (toggled_items u k v checked items)) w \<longleftrightarrow>
      (if w = v then checked else item_checks (js_find (item_matches k) items) w)) \<or>
    \<not> checked \<and> js_find (item_matches k) (toggled_items u k v checked items) = None \<and>
      (\<forall>w. item_checks (js_find (item_matches k) items) w \<longleftrightarrow> w = v)"
proof (cases "js_find (item_matches k) items")
  case None
  then show ?thesis
    using assms(2,3) by (simp add: toggled_items_def find_append item_checks_def)
      (auto simp: new_item_def strings_of_def values_of_def)
next
  case (Some i)
  then have box: "box_item i" and i: "item_matches k i" using assms(1) find_matches by auto
  have value': "tf_value i \<noteq> None" using box by (simp add: box_item_def)
  note gone = find_without_value [OF Some value', of v]
  consider "tf_op i = ''in''" | "tf_op i = ''not in''" | "tf_op i = ''=''" | "tf_op i = ''!=''"
    using box by (auto simp: box_item_def)
  then show ?thesis
  proof cases
    case 1
    note rules = Some toggled_cases(1) [OF Some refl 1] find_put_item item_checks_selected [of i] item_checks_selected [of "with_value i _"]
    show ?thesis
    proof (cases checked)
      case True
      with assms(2,3) i show ?thesis by (simp add: rules 1)
    next
      case False
      then have "v \<in> strings_of i" using assms(3) by (simp add: rules 1)
      with gone show ?thesis
      proof (elim disjE exE conjE)
        fix j
        assume "js_find (item_matches k) (without_value k i v items) = Some j" "tf_op j = tf_op i" "strings_of j = strings_of i - {v}"
        then show ?thesis using False by (simp add: rules 1 item_checks_selected [of j])
      qed (use False in \<open>simp_all add: rules 1\<close>)
    qed
  next
    case 2
    note rules = Some toggled_cases(2) [OF Some refl 2] find_put_item item_checks_others [of i] item_checks_others [of "with_value i _"]
    show ?thesis
    proof (cases checked)
      case False
      with assms(2,3) i show ?thesis by (simp add: rules 2)
    next
      case True
      then have "v \<in> strings_of i" using assms(3) by (simp add: rules 2)
      with gone show ?thesis
      proof (elim disjE exE conjE)
        fix j
        assume "js_find (item_matches k) (without_value k i v items) = Some j" "tf_op j = tf_op i" "strings_of j = strings_of i - {v}"
        then show ?thesis using True by (simp add: rules 2 item_checks_others [of j])
      qed (use True in \<open>simp_all add: rules 2\<close>)
    qed
  next
    case 3
    with box obtain s where "strings_of i = {s}" using scalar_strings [OF value'] by (auto simp: box_item_def)
    with 3 Some i assms(2,3) show ?thesis
      by (cases checked)
        (simp_all add: toggled_cases(3) [OF Some refl 3] find_put_item find_drop_key item_checks_selected)
  next
    case 4
    with box obtain s where "strings_of i = {s}" using scalar_strings [OF value'] by (auto simp: box_item_def)
    with 4 Some i assms(2,3) show ?thesis
      by (cases checked)
        (simp_all add: toggled_cases(4) [OF Some refl 4] find_put_item find_drop_key item_checks_others)
  qed
qed

lemma toggled_operator:
  assumes "\<forall>i. js_find (item_matches k) items = Some i \<longrightarrow> box_item i"
    and "js_find (item_matches k) (toggled_items u k v checked items) = Some j"
  shows "tf_op j \<in> {''='', ''in'', ''!='', ''not in''}"
proof (cases "js_find (item_matches k) items")
  case None
  with assms(2) have "j = new_item u k ''NOT_IN'' (queryValueForDataType v (ac_dataType k))"
    by (simp add: toggled_items_def find_append)
  then show ?thesis by (simp add: new_item_def)
next
  case (Some i)
  then have box: "box_item i" and i: "item_matches k i" using assms(1) find_matches by auto
  then have value': "tf_value i \<noteq> None" by (simp add: box_item_def)
  have kept: "tf_op j = tf_op i" if "js_find (item_matches k) (without_value k i v items) = Some j" for j
    using find_without_value [OF Some value', of v] that by (metis option.distinct(1) option.inject)
  consider "tf_op i = ''in''" | "tf_op i = ''not in''" | "tf_op i = ''=''" | "tf_op i = ''!=''"
    using box by (auto simp: box_item_def)
  then show ?thesis
  proof cases
    case 1
    then show ?thesis using assms(2) kept Some i
      by (cases checked) (auto simp: toggled_cases(1) [OF Some refl 1] find_put_item)
  next
    case 2
    then show ?thesis using assms(2) kept Some i
      by (cases checked) (auto simp: toggled_cases(2) [OF Some refl 2] find_put_item)
  next
    case 3
    then show ?thesis using assms(2) Some i
      by (cases checked) (auto simp: toggled_cases(3) [OF Some refl 3] find_put_item find_drop_key)
  next
    case 4
    then show ?thesis using assms(2) Some i
      by (cases checked) (auto simp: toggled_cases(4) [OF Some refl 4] find_put_item find_drop_key)
  qed
qed

lemma normal_operator: "op' \<in> {''='', ''in'', ''!='', ''not in''} \<Longrightarrow> to_lower (toQueryOperator op') = op'"
proof -
  have "list_all (\<lambda>op'. to_lower (toQueryOperator op') = op') [''='', ''in'', ''!='', ''not in'']" by code_simp
  then show "op' \<in> {''='', ''in'', ''!='', ''not in''} \<Longrightarrow> ?thesis" by auto
qed

lemma converted_items:
  "\<exists>fresh. tg_items (fst (convertFiltersToExpressionWithExistingQuery uuid filters q qualify)) = normalized_items filters @ fresh"
  by (auto simp: convertFiltersToExpressionWithExistingQuery_def Let_def)

text \<open>The items of a click, and the filters that are read from the text left without the key.\<close>

definition click_items :: "(nat \<Rightarrow> string) \<Rightarrow> autocomplete_data \<Rightarrow> string \<Rightarrow> bool \<Rightarrow> tag_filter_item list \<Rightarrow> tag_filter_item list" where
  "click_items uuid k v checked items = toggled_items (uuid 0) k v checked (normalized_filter_items k items)"

definition row_items :: "provider_query \<Rightarrow> tag_filter_item list" where
  "row_items row = (case bq_filters row of Some f \<Rightarrow> tg_items f | None \<Rightarrow> [])"

lemma changed_row_items:
  assumes "bq_filters row = Some filters"
  shows "\<exists>fresh. row_items (changed_row uuid k vs v checked False row) =
    map (\<lambda>i. i\<lparr>tf_op := to_lower (toQueryOperator (tf_op i))\<rparr>) (click_items uuid k v checked (tg_items filters)) @ fresh"
  using assms converted_items [of "\<lambda>n. uuid (Suc n)" "filters\<lparr>tg_items := click_items uuid k v checked (tg_items filters)\<rparr>"
      "removeKeysFromExpression (str_or (bq_filter row) []) (expressionKeysForQuickFilter k) False" True]
  by (auto simp: changed_row_def row_items_def click_items_def normalized_items_def Let_def split_def)

text \<open>
  C14. A click on a box sets it and leaves the other boxes as they are, but unchecking the only value of a filter removes the
  filter, which checks every box. The items of the row are no two equivalent, its filter on the attribute is one that boxes can
  change, the value reads back as its text, and no other filter on the attribute is read from the text that is left.
\<close>

theorem click_sets_box:
  assumes "bq_filters row = Some filters"
    and "normalized_filter_items k (tg_items filters) = map (\<lambda>i. if item_matches k i then i\<lparr>tf_key := Some k\<rparr> else i) (tg_items filters)"
    and "\<forall>i. js_find (item_matches k) (tg_items filters) = Some i \<longrightarrow> box_item i"
    and "value_string (queryValueForDataType v (ac_dataType k)) = v" and "v \<in> set vs"
    and "row' = changed_row uuid k vs v checked False row"
    and "\<forall>i\<in>set (drop (length (click_items uuid k v checked (tg_items filters))) (row_items row')). \<not> item_matches k i"
    and "checked \<longleftrightarrow> \<not> is_checked (currentFilterState k vs (row_items row)) v"
  shows "(\<forall>w\<in>set vs. is_checked (currentFilterState k vs (row_items row')) w \<longleftrightarrow>
      (if w = v then checked else is_checked (currentFilterState k vs (row_items row)) w)) \<or>
    \<not> checked \<and> (\<forall>w\<in>set vs. is_checked (currentFilterState k vs (row_items row)) w \<longleftrightarrow> w = v) \<and>
      (\<forall>w\<in>set vs. is_checked (currentFilterState k vs (row_items row')) w)"
proof -
  let ?items = "tg_items filters" and ?normal = "\<lambda>i. i\<lparr>tf_op := to_lower (toQueryOperator (tf_op i))\<rparr>"
  let ?keyed = "\<lambda>i. if item_matches k i then i\<lparr>tf_key := Some k\<rparr> else i"
  let ?new = "click_items uuid k v checked ?items"
  have row: "row_items row = ?items" using assms(1) by (simp add: row_items_def)
  have keyed: "js_find (item_matches k) (map ?keyed ?items) = map_option ?keyed (js_find (item_matches k) ?items)"
    by (rule find_map) simp
  have same: "item_checks (js_find (item_matches k) (map ?keyed ?items)) w = item_checks (js_find (item_matches k) ?items) w" for w
    unfolding keyed by (cases "js_find (item_matches k) ?items") (simp_all add: item_checks_def strings_of_def)
  have boxes: "\<forall>i. js_find (item_matches k) (map ?keyed ?items) = Some i \<longrightarrow> box_item i"
    using assms(3) unfolding keyed by (auto simp: box_item_def)
  obtain fresh where new: "row_items row' = map ?normal ?new @ fresh"
    using changed_row_items [OF assms(1)] assms(6) by blast
  have "js_find (item_matches k) fresh = None"
    using assms(7) unfolding new by (simp add: js_find_None)
  moreover have "js_find (item_matches k) (map ?normal ?new) = map_option ?normal (js_find (item_matches k) ?new)"
    by (rule find_map) simp
  ultimately have found: "js_find (item_matches k) (row_items row') = map_option ?normal (js_find (item_matches k) ?new)"
    unfolding new by (simp add: find_append split: option.split)
  have "item_checks (js_find (item_matches k) (row_items row')) w = item_checks (js_find (item_matches k) ?new) w" for w
  proof (cases "js_find (item_matches k) ?new")
    case (Some j)
    then have "tf_op j \<in> {''='', ''in'', ''!='', ''not in''}"
      using toggled_operator [OF boxes] assms(2) by (simp add: click_items_def)
    with Some found show ?thesis by (simp add: item_checks_def strings_of_def normal_operator)
  qed (simp add: found)
  moreover have "checked \<longleftrightarrow> \<not> item_checks (js_find (item_matches k) (map ?keyed ?items)) v"
    using assms(5,8) by (simp add: checked_iff row same)
  note toggled_items_check [OF boxes assms(4) this, of "uuid 0", folded assms(2), folded click_items_def, unfolded assms(2) same]
  ultimately show ?thesis
    by (auto simp: checked_iff row)
qed

section \<open>Concrete clicks\<close>

definition service_key :: autocomplete_data where
  "service_key = \<lparr>ac_id = None, ac_dataType = Some DT_String, ac_key = ''service.name'', ac_type = Some ''resource''\<rparr>"

definition text_row :: "string \<Rightarrow> provider_query" where
  "text_row expression = synchronize_row (\<lambda>n. [char_of n]) ((initialQueryBuilderFormValuesMap LOGS)\<lparr>bq_filter := Some expression\<rparr>)"

definition in_quotes :: "string \<Rightarrow> string" where
  "in_quotes s = [CHR 0x27] @ s @ [CHR 0x27]"

definition clicked :: "string \<Rightarrow> bool \<Rightarrow> provider_query \<Rightarrow> provider_query" where
  "clicked v checked row = changed_row (\<lambda>n. [char_of n]) service_key [''a'', ''b'', ''c''] v checked False row"

definition boxes :: "provider_query \<Rightarrow> bool list" where
  "boxes row = map (is_checked (currentFilterState service_key [''a'', ''b'', ''c''] (row_items row))) [''a'', ''b'', ''c'']"

lemma click_sets_box_witness:
  "boxes (text_row (''x = 1 AND service.name IN ('' @ in_quotes ''a'' @ '')'')) = [True, False, False] \<and>
   boxes (clicked ''b'' True (text_row (''x = 1 AND service.name IN ('' @ in_quotes ''a'' @ '')''))) = [True, True, False]"
proof -
  let ?row = "text_row (''x = 1 AND service.name IN ('' @ in_quotes ''a'' @ '')'')" and ?vs = "[''a'', ''b'', ''c'']"
  let ?row' = "changed_row (\<lambda>n. [char_of n]) service_key ?vs ''b'' True False ?row"
  let ?filters = "the (bq_filters ?row)"
  have filters: "bq_filters ?row = Some ?filters" by code_simp
  have normal: "normalized_filter_items service_key (tg_items ?filters) =
      map (\<lambda>i. if item_matches service_key i then i\<lparr>tf_key := Some service_key\<rparr> else i) (tg_items ?filters)"
    by code_simp
  have "\<forall>i\<in>set (filter (item_matches service_key) (tg_items ?filters)). box_item i"
    by code_simp
  then have box: "\<forall>i. js_find (item_matches service_key) (tg_items ?filters) = Some i \<longrightarrow> box_item i"
    by (auto dest: js_find_Some)
  have reads: "value_string (queryValueForDataType ''b'' (ac_dataType service_key)) = ''b''" by code_simp
  have mem: "''b'' \<in> set ?vs" by simp
  have old: "\<forall>i\<in>set (drop (length (click_items (\<lambda>n. [char_of n]) service_key ''b'' True (tg_items ?filters))) (row_items ?row')).
      \<not> item_matches service_key i"
    by code_simp
  have un: "True \<longleftrightarrow> \<not> is_checked (currentFilterState service_key ?vs (row_items ?row)) ''b''" by code_simp
  have before: "boxes ?row = [True, False, False]" by code_simp
  from click_sets_box [OF filters normal box reads mem refl old un] before show ?thesis
    by (auto simp: boxes_def clicked_def)
qed

section \<open>Behaviours to know\<close>

text \<open>Unchecking the only value of a filter checks all boxes: an empty selection cannot be made.\<close>

lemma last_value_checks_all:
  "let row = text_row (''x = 1 AND service.name IN ('' @ in_quotes ''a'' @ '')'')
   in boxes row = [True, False, False] \<and>
      bq_filter (clicked ''a'' False row) = Some ''x = 1'' \<and> boxes (clicked ''a'' False row) = [True, True, True]"
  by code_simp

text \<open>The text that is left of alternatives is joined with AND: the filter binds to the last alternative only.\<close>

lemma click_breaks_alternatives:
  "bq_filter (clicked ''b'' False (text_row ''x = 1 OR y = 2'')) =
     Some (''x = 1 OR y = 2 AND resource.service.name not in ['' @ in_quotes ''b'' @ '']'')"
  "bq_filter (clicked ''b'' False (text_row (''x = 1 OR service.name IN ('' @ in_quotes ''a'' @ '','' @ in_quotes ''b'' @ '')''))) =
     Some (''x = 1 AND resource.service.name in ['' @ in_quotes ''a'' @ '']'')"
  by code_simp+

text \<open>A number whose text is not the shortest one is written in another way than its box.\<close>

lemma number_box_not_its_text:
  "value_string (queryValueForDataType ''1.0'' (Some DT_Float64)) = ''1''"
  by code_simp

text \<open>Clearing the attribute takes it from the text of every row, but from the items of the active one only.\<close>

lemma clear_leaves_other_items:
  assumes "i < length (qs_queryData q)" and "i \<noteq> active"
  shows "row_items (qs_queryData (handleClearFilterAttribute k active q) ! i) = row_items (qs_queryData q ! i)"
    and "bq_filter (qs_queryData (handleClearFilterAttribute k active q) ! i) =
      Some (removeKeysFromExpression (case bq_filter (qs_queryData q ! i) of Some e \<Rightarrow> e | None \<Rightarrow> []) (expressionKeysForQuickFilter k) False)"
  using assms by (auto simp: handleClearFilterAttribute_def cleared_row_def row_items_def Let_def nth_enumerate_eq split: option.splits)

lemma clear_active_items:
  assumes "active < length (qs_queryData q)"
  shows "\<forall>i\<in>set (row_items (qs_queryData (handleClearFilterAttribute k active q) ! active)). \<not> item_matches k i"
  using assms by (auto simp: handleClearFilterAttribute_def cleared_row_def row_items_def Let_def drop_key_def nth_enumerate_eq split: option.splits)

text \<open>The list of boxes shows every value once the whole of it is visible, the checked ones first.\<close>

lemma shown_boxes:
  assumes "length vs \<le> n"
  shows "set (currentAttributeKeys st vs n) = set vs" "length (currentAttributeKeys st vs n) = length vs"
    "checkedValuesCount st (currentAttributeKeys st vs n) = length (filter (is_checked st) vs)"
proof -
  have len: "length (filter (is_checked st) vs) + length (filter (\<lambda>v. \<not> is_checked st v) vs) = length vs"
    by (rule sum_length_filter_compl)
  show "set (currentAttributeKeys st vs n) = set vs" "length (currentAttributeKeys st vs n) = length vs"
    using assms len by (auto simp: currentAttributeKeys_def)
  show "checkedValuesCount st (currentAttributeKeys st vs n) = length (filter (is_checked st) vs)"
    using assms len by (simp add: currentAttributeKeys_def checkedValuesCount_def filter_False)
qed

end
