(* ===== verification/List_Options.thy ===== *)
theory List_Options
  imports Query_Payload Web_Storage
begin

text \<open>
  The columns and the format of the lists of logs and traces: \<^verbatim>\<open>providers/preferences\<close>, which loads them from the
  local storage and the URL and writes them back, and \<^verbatim>\<open>container/OptionsMenu\<close>, the handlers that change them. Columns
  are JSON values, as they come from a storage; a \<open>null\<close> among them and a \<open>selectColumns\<close> of a saved view that is no array
  are not modelled. Of the URL only the parameters \<open>options\<close> and \<open>viewKey\<close> matter, given by what \<open>JSON.parse\<close> makes of
  them, with \<open>None\<close> for one that is missing or empty; the other parameters stay and compare equal. The metrics
  explorer has no preferences of its own and reads those of the logs.
\<close>

section \<open>Columns, formats and options\<close>

definition column_name :: "json \<Rightarrow> json option" where
  "column_name c = json_get ''name'' c"

definition list_column :: "string \<Rightarrow> string \<Rightarrow> string \<Rightarrow> string \<Rightarrow> (string \<times> json) list" where
  "list_column name signal context type =
     [(''name'', JString name), (''signal'', JString signal), (''fieldContext'', JString context), (''fieldDataType'', JString type)]"

definition default_logs_columns :: "json list" where
  "default_logs_columns =
     map (\<lambda>n. JObject (list_column n ''logs'' ''log'' [] @ [(''isIndexed'', JBool False)])) [''timestamp'', ''body'']"

definition default_trace_columns :: "json list" where
  "default_trace_columns =
     map JObject [list_column ''service.name'' ''traces'' ''resource'' ''string'', list_column ''name'' ''traces'' ''span'' ''string'',
       list_column ''duration_nano'' ''traces'' ''span'' [], list_column ''http_method'' ''traces'' ''span'' [],
       list_column ''response_status_code'' ''traces'' ''span'' []]"

text \<open>The columns that the list of traces starts with, and those a saved view without columns shows, are bare names.\<close>

definition trace_list_columns :: "string list" where
  "trace_list_columns =
     [''service.name'', ''name'', ''duration_nano'', ''http_method'', ''response_status_code'', ''timestamp'']"

record formatting =
  fm_maxLines :: json
  fm_format :: json
  fm_fontSize :: json

record preferences =
  pf_columns :: "json list"
  pf_formatting :: "formatting option"

record options_query =
  oq_columns :: "json list"
  oq_maxLines :: json
  oq_format :: json
  oq_fontSize :: json

definition defaultOptionsQuery :: options_query where
  "defaultOptionsQuery = \<lparr>oq_columns = [], oq_maxLines = JNum 1, oq_format = JString ''raw'', oq_fontSize = JString ''small''\<rparr>"

definition table_format :: formatting where
  "table_format = \<lparr>fm_maxLines = JNum 1, fm_format = JString ''table'', fm_fontSize = JString ''small''\<rparr>"

definition options_json :: "options_query \<Rightarrow> json" where
  "options_json q =
     JObject [(''selectColumns'', JArray (oq_columns q)), (''maxLines'', oq_maxLines q), (''format'', oq_format q), (''fontSize'', oq_fontSize q)]"

definition put_formatting :: "formatting option \<Rightarrow> options_query \<Rightarrow> options_query" where
  "put_formatting fm q =
     (case fm of None \<Rightarrow> q | Some f \<Rightarrow> q\<lparr>oq_maxLines := fm_maxLines f, oq_format := fm_format f, oq_fontSize := fm_fontSize f\<rparr>)"

text \<open>\<open>a ?? b\<close> and \<open>a || b\<close>.\<close>

definition json_nullish :: "json option \<Rightarrow> json \<Rightarrow> json" where
  "json_nullish v d = (case v of None \<Rightarrow> d | Some JNull \<Rightarrow> d | Some j \<Rightarrow> j)"

definition json_or :: "json option \<Rightarrow> json \<Rightarrow> json" where
  "json_or v d = (if json_truthy v then the v else d)"

section \<open>Loading\<close>

definition valid_column :: "string \<Rightarrow> json \<Rightarrow> bool" where
  "valid_column signal c \<longleftrightarrow> \<not> (json_truthy (json_get ''signal'' c) \<and> json_get ''signal'' c \<noteq> Some (JString signal))"

definition isValidLogColumn :: "json \<Rightarrow> bool" where
  "isValidLogColumn = valid_column ''logs''"

definition isValidTraceColumn :: "json \<Rightarrow> bool" where
  "isValidTraceColumn = valid_column ''traces''"

text \<open>What a source gives, the parsed text of the storage or the URL; where the code throws it gives nothing.\<close>

definition source_columns :: "(json \<Rightarrow> bool) \<Rightarrow> json \<Rightarrow> json list option" where
  "source_columns valid j =
     (if j = JNull then None
      else if json_truthy (json_get ''selectColumns'' j)
      then (case json_get ''selectColumns'' j of Some (JArray cs) \<Rightarrow> Some (filter valid cs) | _ \<Rightarrow> None)
      else Some [])"

definition source_formatting :: "json \<Rightarrow> formatting" where
  "source_formatting j =
     \<lparr>fm_maxLines = json_nullish (json_get ''maxLines'' j) (JNum 1),
      fm_format = json_nullish (json_get ''format'' j) (JString ''table''),
      fm_fontSize = json_nullish (json_get ''fontSize'' j) (JString ''small'')\<rparr>"

definition nothing_loaded :: preferences where
  "nothing_loaded = \<lparr>pf_columns = [], pf_formatting = None\<rparr>"

definition logs_source :: "json option option \<Rightarrow> preferences" where
  "logs_source text =
     (case text of
        Some (Some j) \<Rightarrow>
          (case source_columns isValidLogColumn j of
             Some cs \<Rightarrow> \<lparr>pf_columns = cs, pf_formatting = Some (source_formatting j)\<rparr> | None \<Rightarrow> nothing_loaded)
      | _ \<Rightarrow> nothing_loaded)"

definition traces_source :: "json option option \<Rightarrow> preferences" where
  "traces_source text =
     (case text of
        Some (Some j) \<Rightarrow>
          (case source_columns isValidTraceColumn j of Some cs \<Rightarrow> \<lparr>pf_columns = cs, pf_formatting = None\<rparr> | None \<Rightarrow> nothing_loaded)
      | _ \<Rightarrow> nothing_loaded)"

definition or_empty_object :: "json option option \<Rightarrow> json option option" where
  "or_empty_object text = (case text of None \<Rightarrow> Some (Some (JObject [])) | Some t \<Rightarrow> Some t)"

definition logs_default :: preferences where
  "logs_default = \<lparr>pf_columns = default_logs_columns, pf_formatting = Some table_format\<rparr>"

definition traces_default :: preferences where
  "traces_default = \<lparr>pf_columns = default_trace_columns, pf_formatting = None\<rparr>"

definition preferencesLoader :: "preferences list \<Rightarrow> preferences \<Rightarrow> preferences" where
  "preferencesLoader sources def =
     \<lparr>pf_columns = (case js_find (\<lambda>r. pf_columns r \<noteq> []) sources of Some r \<Rightarrow> pf_columns r | None \<Rightarrow> pf_columns def),
      pf_formatting = (case js_find (\<lambda>r. pf_formatting r \<noteq> None) sources of Some r \<Rightarrow> pf_formatting r | None \<Rightarrow> pf_formatting def)\<rparr>"

definition LOGS_LIST_OPTIONS :: string where
  "LOGS_LIST_OPTIONS = ''LOGS_LIST_OPTIONS''"

definition TRACES_LIST_OPTIONS :: string where
  "TRACES_LIST_OPTIONS = ''TRACES_LIST_OPTIONS''"

definition logsPreferencesLoader :: "'s storage_api \<Rightarrow> 's \<Rightarrow> json option option \<Rightarrow> preferences" where
  "logsPreferencesLoader api s options =
     preferencesLoader [logs_source (getItem api s LOGS_LIST_OPTIONS), logs_source (or_empty_object options), logs_default] logs_default"

definition tracesPreferencesLoader :: "'s storage_api \<Rightarrow> 's \<Rightarrow> json option option \<Rightarrow> preferences" where
  "tracesPreferencesLoader api s options =
     preferencesLoader [traces_source (getItem api s TRACES_LIST_OPTIONS), traces_source (or_empty_object options), traces_default] traces_default"

section \<open>The state\<close>

text \<open>
  The local storage, the parameter \<open>options\<close> of the URL now and as the last render saw it, the parameter \<open>viewKey\<close>,
  the saved views of each source, and the preferences of each source: what was loaded, whether it is to be loaded
  again, and what is shown of a saved view. \<open>os_synced\<close> is what the effects of the saved views ran for.
\<close>

record pref_slice =
  ps_preferences :: preferences
  ps_reSync :: bool
  ps_saved :: "preferences option"

record view_item =
  vi_id :: string
  vi_extraData :: "json option option"

record 's options_state =
  os_store :: 's
  os_window :: "json option option"
  os_location :: "json option option"
  os_viewKey :: "json option option"
  os_views :: "view_item list option \<times> view_item list option"
  os_logs :: pref_slice
  os_traces :: pref_slice
  os_synced :: "((view_item list option \<times> view_item list option) \<times> json) option"

definition slice_of :: "data_source \<Rightarrow> 's options_state \<Rightarrow> pref_slice" where
  "slice_of d st = (if d = TRACES then os_traces st else os_logs st)"

definition put_slice :: "data_source \<Rightarrow> (pref_slice \<Rightarrow> pref_slice) \<Rightarrow> 's options_state \<Rightarrow> 's options_state" where
  "put_slice d f st = (if d = TRACES then st\<lparr>os_traces := f (os_traces st)\<rparr> else st\<lparr>os_logs := f (os_logs st)\<rparr>)"

definition savedViewId :: "'s options_state \<Rightarrow> json" where
  "savedViewId st = (case os_viewKey st of Some (Some j) \<Rightarrow> j | _ \<Rightarrow> JString [])"

definition saved_view_mode :: "'s options_state \<Rightarrow> bool" where
  "saved_view_mode st \<longleftrightarrow> json_truthy (Some (savedViewId st))"

text \<open>What the menu reads of a source, and the options it returns.\<close>

definition shown_preferences :: "data_source \<Rightarrow> 's options_state \<Rightarrow> preferences option" where
  "shown_preferences d st =
     (if saved_view_mode st then ps_saved (slice_of d st) else Some (ps_preferences (slice_of d st)))"

definition shown_columns :: "preferences option \<Rightarrow> json list" where
  "shown_columns p = (case p of Some p \<Rightarrow> pf_columns p | None \<Rightarrow> [])"

definition shown_format :: "(formatting \<Rightarrow> json) \<Rightarrow> preferences option \<Rightarrow> json option" where
  "shown_format field p = (case p of Some p \<Rightarrow> map_option field (pf_formatting p) | None \<Rightarrow> None)"

definition options_of :: "preferences option \<Rightarrow> options_query" where
  "options_of p =
     \<lparr>oq_columns = shown_columns p,
      oq_maxLines = json_or (shown_format fm_maxLines p) (oq_maxLines defaultOptionsQuery),
      oq_format = json_or (shown_format fm_format p) (oq_format defaultOptionsQuery),
      oq_fontSize = json_or (shown_format fm_fontSize p) (oq_fontSize defaultOptionsQuery)\<rparr>"

definition shown_options :: "data_source \<Rightarrow> 's options_state \<Rightarrow> options_query" where
  "shown_options d st = options_of (shown_preferences d st)"

section \<open>Updating\<close>

text \<open>
  A handler reads the state \<open>rs\<close> of the render that made it and changes the current one. A redirect to the URL of that
  render is left out, also when the URL has changed since. A handler that throws gives \<open>Inl\<close> of what it has done so far.
\<close>

definition redirectWithQuery :: "'s options_state \<Rightarrow> options_query \<Rightarrow> 's options_state \<Rightarrow> 's options_state" where
  "redirectWithQuery rs q st =
     (let target = Some (Some (options_json q)) in if os_location rs = target then st else st\<lparr>os_window := target\<rparr>)"

text \<open>
  A field is set in the stored object. An array takes it but is written without it; setting a field of another value throws, but
  not \<open>Object.assign\<close>, which throws only for \<open>null\<close>.
\<close>

definition with_columns :: "json list \<Rightarrow> json \<Rightarrow> json option" where
  "with_columns cs j =
     (case j of JObject _ \<Rightarrow> Some (json_put ''selectColumns'' (JArray cs) j) | JArray _ \<Rightarrow> Some j | _ \<Rightarrow> None)"

definition with_formatting :: "formatting \<Rightarrow> json \<Rightarrow> json option" where
  "with_formatting f j =
     (if j = JNull then None
      else Some (json_put ''fontSize'' (fm_fontSize f) (json_put ''format'' (fm_format f) (json_put ''maxLines'' (fm_maxLines f) j))))"

definition update_stored :: "'s storage_api \<Rightarrow> string \<Rightarrow> (json \<Rightarrow> json option) \<Rightarrow> 's \<Rightarrow> 's option" where
  "update_stored api key f s =
     (case or_empty_object (getItem api s key) of
        Some (Some j) \<Rightarrow> map_option (\<lambda>j. try_set api key j s) (f j)
      | _ \<Rightarrow> None)"

definition store_update ::
    "'s storage_api \<Rightarrow> string \<Rightarrow> (json \<Rightarrow> json option) \<Rightarrow> 's options_state \<Rightarrow> 's options_state + 's options_state" where
  "store_update api key f st =
     (case update_stored api key f (os_store st) of Some s \<Rightarrow> Inr (st\<lparr>os_store := s\<rparr>) | None \<Rightarrow> Inl st)"

definition logs_updateColumns ::
    "'s storage_api \<Rightarrow> 's options_state \<Rightarrow> json list \<Rightarrow> 's options_state \<Rightarrow> 's options_state + 's options_state" where
  "logs_updateColumns api rs newColumns st =
     (if saved_view_mode rs
      then Inr (put_slice LOGS (\<lambda>sl. sl\<lparr>ps_saved :=
        Some (case ps_saved sl of None \<Rightarrow> \<lparr>pf_columns = newColumns, pf_formatting = Some table_format\<rparr>
              | Some prev \<Rightarrow> prev\<lparr>pf_columns := newColumns\<rparr>)\<rparr>) st)
      else store_update api LOGS_LIST_OPTIONS (with_columns newColumns)
        (redirectWithQuery rs ((put_formatting (pf_formatting (ps_preferences (os_logs rs))) defaultOptionsQuery)\<lparr>oq_columns := newColumns\<rparr>) st))"

definition logs_updateFormatting ::
    "'s storage_api \<Rightarrow> 's options_state \<Rightarrow> formatting \<Rightarrow> 's options_state \<Rightarrow> 's options_state + 's options_state" where
  "logs_updateFormatting api rs newFormatting st =
     (if saved_view_mode rs
      then Inr (put_slice LOGS (\<lambda>sl. sl\<lparr>ps_saved :=
        Some (case ps_saved sl of None \<Rightarrow> \<lparr>pf_columns = [], pf_formatting = Some newFormatting\<rparr>
              | Some prev \<Rightarrow> prev\<lparr>pf_formatting := Some newFormatting\<rparr>)\<rparr>) st)
      else store_update api LOGS_LIST_OPTIONS (with_formatting newFormatting)
        (redirectWithQuery rs
          (put_formatting (Some newFormatting) (put_formatting (pf_formatting (ps_preferences (os_logs rs))) defaultOptionsQuery)) st))"

definition traces_updateColumns ::
    "'s storage_api \<Rightarrow> 's options_state \<Rightarrow> json list \<Rightarrow> 's options_state \<Rightarrow> 's options_state + 's options_state" where
  "traces_updateColumns api rs newColumns st =
     (if saved_view_mode rs
      then Inr (put_slice TRACES (\<lambda>sl. sl\<lparr>ps_saved := Some \<lparr>pf_columns = newColumns, pf_formatting = Some table_format\<rparr>\<rparr>) st)
      else store_update api TRACES_LIST_OPTIONS (with_columns newColumns)
        (redirectWithQuery rs (defaultOptionsQuery\<lparr>oq_columns := newColumns\<rparr>) st))"

definition updateColumns ::
    "'s storage_api \<Rightarrow> data_source \<Rightarrow> 's options_state \<Rightarrow> json list \<Rightarrow> 's options_state \<Rightarrow> 's options_state + 's options_state" where
  "updateColumns api d rs newColumns st =
     map_sum id (put_slice d (\<lambda>sl. sl\<lparr>ps_reSync := True\<rparr>))
       (if d = TRACES then traces_updateColumns api rs newColumns st else logs_updateColumns api rs newColumns st)"

definition updateFormatting ::
    "'s storage_api \<Rightarrow> data_source \<Rightarrow> 's options_state \<Rightarrow> formatting \<Rightarrow> 's options_state \<Rightarrow> 's options_state + 's options_state" where
  "updateFormatting api d rs newFormatting st =
     map_sum id (put_slice d (\<lambda>sl. sl\<lparr>ps_reSync := True\<rparr>))
       (if d = TRACES then Inr st else logs_updateFormatting api rs newFormatting st)"

section \<open>The handlers of the menu\<close>

definition selected_columns :: "json list \<Rightarrow> json list \<Rightarrow> string \<Rightarrow> json list" where
  "selected_columns searched columns v =
     List.map_filter (\<lambda>k. js_find (\<lambda>c. column_name c = k) (searched @ columns))
       (js_unique (map column_name columns @ [Some (JString v)]))"

definition remaining_columns :: "json list \<Rightarrow> string \<Rightarrow> json list" where
  "remaining_columns columns k = filter (\<lambda>c. column_name c \<noteq> Some (JString k)) columns"

definition options_formatting :: "options_query \<Rightarrow> formatting" where
  "options_formatting q = \<lparr>fm_maxLines = oq_maxLines q, fm_format = oq_format q, fm_fontSize = oq_fontSize q\<rparr>"

definition set_columns ::
    "'s storage_api \<Rightarrow> data_source \<Rightarrow> 's options_state \<Rightarrow> json list \<Rightarrow> 's options_state \<Rightarrow> 's options_state + 's options_state" where
  "set_columns api d rs newColumns st =
     map_sum id (redirectWithQuery rs ((shown_options d rs)\<lparr>oq_columns := newColumns\<rparr>)) (updateColumns api d rs newColumns st)"

definition set_formatting ::
    "'s storage_api \<Rightarrow> data_source \<Rightarrow> 's options_state \<Rightarrow> options_query \<Rightarrow> 's options_state \<Rightarrow> 's options_state + 's options_state" where
  "set_formatting api d rs optionsData st =
     map_sum id (redirectWithQuery rs optionsData) (updateFormatting api d rs (options_formatting optionsData) st)"

definition handleSelectColumns ::
    "'s storage_api \<Rightarrow> data_source \<Rightarrow> json list \<Rightarrow> 's options_state \<Rightarrow> string \<Rightarrow> 's options_state \<Rightarrow> 's options_state + 's options_state" where
  "handleSelectColumns api d searched rs v st =
     set_columns api d rs (selected_columns searched (shown_columns (shown_preferences d rs)) v) st"

definition handleRemoveSelectedColumn ::
    "'s storage_api \<Rightarrow> data_source \<Rightarrow> 's options_state \<Rightarrow> string \<Rightarrow> 's options_state \<Rightarrow> 's options_state + 's options_state" where
  "handleRemoveSelectedColumn api d rs k st =
     (let newColumns = remaining_columns (shown_columns (shown_preferences d rs)) k
      in if newColumns = [] \<and> d \<noteq> LOGS then Inr st else set_columns api d rs newColumns st)"

definition handleFormatChange ::
    "'s storage_api \<Rightarrow> data_source \<Rightarrow> 's options_state \<Rightarrow> json \<Rightarrow> 's options_state \<Rightarrow> 's options_state + 's options_state" where
  "handleFormatChange api d rs v st = set_formatting api d rs ((shown_options d rs)\<lparr>oq_format := v\<rparr>) st"

definition handleMaxLinesChange ::
    "'s storage_api \<Rightarrow> data_source \<Rightarrow> 's options_state \<Rightarrow> json \<Rightarrow> 's options_state \<Rightarrow> 's options_state + 's options_state" where
  "handleMaxLinesChange api d rs v st = set_formatting api d rs ((shown_options d rs)\<lparr>oq_maxLines := v\<rparr>) st"

definition handleFontSizeChange ::
    "'s storage_api \<Rightarrow> data_source \<Rightarrow> 's options_state \<Rightarrow> json \<Rightarrow> 's options_state \<Rightarrow> 's options_state + 's options_state" where
  "handleFontSizeChange api d rs v st = set_formatting api d rs ((shown_options d rs)\<lparr>oq_fontSize := v\<rparr>) st"


section \<open>What the menu offers\<close>

definition optional_field :: "string \<Rightarrow> json \<Rightarrow> (string \<times> json) list" where
  "optional_field k j = (case json_get k j of Some v \<Rightarrow> [(k, v)] | None \<Rightarrow> [])"

definition suggested_column :: "json \<Rightarrow> json" where
  "suggested_column s = JObject (concat (map (\<lambda>k. optional_field k s) [''name'', ''signal'', ''fieldDataType'', ''fieldContext'']))"

definition AllTraceFilterKeys :: "string list" where
  "AllTraceFilterKeys =
     [''durationNanoMin'', ''duration_nano'', ''durationNanoMax'', ''has_error'', ''service.name'', ''name'', ''rpc.method'',
      ''response_status_code'', ''http_host'', ''http_method'', ''http.route'', ''http_url'', ''trace_id'']"

definition initial_trace_column :: "json \<Rightarrow> json" where
  "initial_trace_column c =
     (if column_name c \<in> set (map (Some \<circ> JString) AllTraceFilterKeys)
      then (case js_find (\<lambda>m. column_name m = column_name c) default_trace_columns of
              Some m \<Rightarrow> m | None \<Rightarrow> JObject [(''name'', JString [])])
      else c)"

text \<open>The answers to the requests for the initial columns are lists of suggestions; \<open>None\<close> is one that has not come.\<close>

definition initialSelectedColumns :: "data_source \<Rightarrow> string list \<Rightarrow> json list option list \<Rightarrow> json list" where
  "initialSelectedColumns d selectColumns answers =
     (if None \<in> set answers then []
      else let attributesData = map suggested_column (concat (map the answers));
               initialSelected = List.map_filter (\<lambda>k. js_find (\<lambda>c. column_name c = Some (JString k)) attributesData) selectColumns
           in if d = TRACES
              then (let cs = map initial_trace_column initialSelected in if cs = [] then default_trace_columns else cs)
              else initialSelected)"

definition initialOptionsQuery :: "data_source \<Rightarrow> string list option \<Rightarrow> json list option list \<Rightarrow> options_query" where
  "initialOptionsQuery d selectColumns answers =
     defaultOptionsQuery\<lparr>oq_columns :=
       (case selectColumns of
          Some ks \<Rightarrow> initialSelectedColumns d ks answers
        | None \<Rightarrow> if d = TRACES then default_trace_columns else if d = LOGS then default_logs_columns else [])\<rparr>"

definition searchedAttributeKeys :: "data_source \<Rightarrow> json list \<Rightarrow> json list" where
  "searchedAttributeKeys d found =
     (if found \<noteq> [] then
        (if d = LOGS then default_logs_columns @ filter (\<lambda>c. column_name c \<noteq> Some (JString ''body'')) found else found)
      else if d = TRACES then default_trace_columns else [])"

definition EXCLUDED_COLUMNS :: "data_source \<Rightarrow> string list" where
  "EXCLUDED_COLUMNS d =
     (case d of TRACES \<Rightarrow> [''body'', ''isRoot'', ''isEntryPoint''] | METRICS \<Rightarrow> [''body''] | LOGS \<Rightarrow> [])"

definition getOptionsFromKeys :: "json list \<Rightarrow> json option list \<Rightarrow> json option list" where
  "getOptionsFromKeys keys selectedKeys =
     filter (\<lambda>v. \<not> (v \<in> set selectedKeys \<and> json_truthy v)) (map column_name keys)"

definition optionsFromAttributeKeys :: "data_source \<Rightarrow> json list \<Rightarrow> preferences option \<Rightarrow> json option list" where
  "optionsFromAttributeKeys d searched p =
     getOptionsFromKeys (filter (\<lambda>c. column_name c \<notin> set (map (Some \<circ> JString) (EXCLUDED_COLUMNS d))) searched)
       (map column_name (shown_columns p))"

section \<open>Renders and events\<close>

text \<open>What a saved view shows; a text of the view that does not parse makes the effect throw.\<close>

definition saved_columns :: "json \<Rightarrow> json list \<Rightarrow> json list" where
  "saved_columns j def =
     (if json_truthy (json_get ''selectColumns'' j)
      then (case json_get ''selectColumns'' j of Some (JArray cs) \<Rightarrow> cs | _ \<Rightarrow> []) else def)"

definition saved_preferences :: "data_source \<Rightarrow> view_item list option \<Rightarrow> json \<Rightarrow> preferences option" where
  "saved_preferences d views viewId =
     (let extraData = (case js_find (\<lambda>v. JString (vi_id v) = viewId) (case views of Some vs \<Rightarrow> vs | None \<Rightarrow> []) of
                         Some v \<Rightarrow> vi_extraData v | None \<Rightarrow> None)
      in case or_empty_object extraData of
           Some (Some j) \<Rightarrow>
             Some (if d = TRACES then \<lparr>pf_columns = saved_columns j (map JString trace_list_columns), pf_formatting = None\<rparr>
                   else \<lparr>pf_columns = saved_columns j default_logs_columns, pf_formatting = Some (source_formatting j)\<rparr>)
         | _ \<Rightarrow> None)"

definition sync_views :: "'s options_state \<Rightarrow> 's options_state option" where
  "sync_views st =
     (if os_synced st = Some (os_views st, savedViewId st) then Some st
      else case (saved_preferences LOGS (fst (os_views st)) (savedViewId st), saved_preferences TRACES (snd (os_views st)) (savedViewId st)) of
             (Some l, Some t) \<Rightarrow>
               Some (st\<lparr>os_logs := (os_logs st)\<lparr>ps_saved := Some l\<rparr>, os_traces := (os_traces st)\<lparr>ps_saved := Some t\<rparr>,
                        os_synced := Some (os_views st, savedViewId st)\<rparr>)
           | _ \<Rightarrow> None)"

definition load_slice :: "'s storage_api \<Rightarrow> data_source \<Rightarrow> 's options_state \<Rightarrow> 's options_state" where
  "load_slice api d st =
     put_slice d (\<lambda>sl. if ps_reSync sl then
       \<lparr>ps_preferences = (if d = TRACES then tracesPreferencesLoader else logsPreferencesLoader) api (os_store st) (os_window st),
        ps_reSync = False, ps_saved = ps_saved sl\<rparr> else sl) st"

text \<open>A render with its effects, and the first one.\<close>

definition commit_options :: "'s storage_api \<Rightarrow> 's options_state \<Rightarrow> 's options_state option" where
  "commit_options api st =
     map_option (load_slice api TRACES \<circ> load_slice api LOGS) (sync_views (st\<lparr>os_location := os_window st\<rparr>))"

definition mount_options ::
    "'s storage_api \<Rightarrow> 's \<Rightarrow> json option option \<Rightarrow> json option option \<Rightarrow> view_item list option \<times> view_item list option \<Rightarrow> 's options_state option" where
  "mount_options api s options viewKey views =
     commit_options api
       \<lparr>os_store = s, os_window = options, os_location = options, os_viewKey = viewKey, os_views = views,
        os_logs = \<lparr>ps_preferences = logsPreferencesLoader api s options, ps_reSync = False, ps_saved = None\<rparr>,
        os_traces = \<lparr>ps_preferences = tracesPreferencesLoader api s options, ps_reSync = False, ps_saved = None\<rparr>,
        os_synced = None\<rparr>"

text \<open>The effect of a menu that writes the initial options into a URL without options.\<close>

definition fill_options :: "options_query \<Rightarrow> bool \<Rightarrow> 's options_state \<Rightarrow> 's options_state" where
  "fill_options q isFetchedInitialAttributes st =
     (if os_location st \<noteq> None \<or> \<not> isFetchedInitialAttributes then st else redirectWithQuery st q st)"

text \<open>
  The panel with the format of the logs reports the lines and the size it shows in its first effects, both for the render
  that opened it.
\<close>

definition open_format_menu :: "'s storage_api \<Rightarrow> data_source \<Rightarrow> 's options_state \<Rightarrow> 's options_state + 's options_state" where
  "open_format_menu api d st =
     (case handleMaxLinesChange api d st (oq_maxLines (shown_options d st)) st of
        Inl st' \<Rightarrow> Inl st'
      | Inr st' \<Rightarrow> handleFontSizeChange api d st (oq_fontSize (shown_options d st)) st')"

datatype option_event = Select_Column "json list" string | Remove_Column string | Set_Format json | Set_Lines json | Set_Size json

definition handle_option ::
    "'s storage_api \<Rightarrow> data_source \<Rightarrow> option_event \<Rightarrow> 's options_state \<Rightarrow> 's options_state + 's options_state" where
  "handle_option api d e st =
     (case e of
        Select_Column searched v \<Rightarrow> handleSelectColumns api d searched st v st
      | Remove_Column k \<Rightarrow> handleRemoveSelectedColumn api d st k st
      | Set_Format v \<Rightarrow> handleFormatChange api d st v st
      | Set_Lines v \<Rightarrow> handleMaxLinesChange api d st v st
      | Set_Size v \<Rightarrow> handleFontSizeChange api d st v st)"

text \<open>An event and the render after it, also when its handler has thrown.\<close>

definition option_step :: "'s storage_api \<Rightarrow> data_source \<Rightarrow> option_event \<Rightarrow> 's options_state \<Rightarrow> 's options_state option" where
  "option_step api d e st = commit_options api (case handle_option api d e st of Inl st' \<Rightarrow> st' | Inr st' \<Rightarrow> st')"

section \<open>Options in saved views\<close>

text \<open>
  \<^verbatim>\<open>container/ExplorerOptions/ExplorerOptions.tsx\<close> writes the options of a view into its \<open>extraData\<close>, with the
  format for logs only, and opens those of a view that is selected; the colour of a new text is one of a package. Two columns
  are equal when they have the same fields.
\<close>

definition getUpdatedExtraData :: "string \<Rightarrow> json option option \<Rightarrow> json list \<Rightarrow> formatting option \<Rightarrow> json option" where
  "getUpdatedExtraData color extraData cs fm =
     (case extraData of
        Some None \<Rightarrow> None
      | Some (Some j) \<Rightarrow>
          (case with_columns cs j of
             None \<Rightarrow> None
           | Some j' \<Rightarrow> (case fm of None \<Rightarrow> Some j'
               | Some f \<Rightarrow> Some (json_put ''fontSize'' (fm_fontSize f) (json_put ''maxLines'' (fm_maxLines f) (json_put ''format'' (fm_format f) j')))))
      | None \<Rightarrow>
          Some (JObject ([(''color'', JString color), (''selectColumns'', JArray cs)] @
            (case fm of None \<Rightarrow> [] | Some f \<Rightarrow> [(''format'', fm_format f), (''maxLines'', fm_maxLines f), (''fontSize'', fm_fontSize f)]))))"

definition saved_extra_data :: "data_source \<Rightarrow> string \<Rightarrow> options_query \<Rightarrow> json" where
  "saved_extra_data d color q =
     JObject ([(''color'', JString color), (''selectColumns'', JArray (oq_columns q)), (''version'', JNum 1)] @
       (if d = LOGS then [(''format'', oq_format q), (''maxLines'', oq_maxLines q), (''fontSize'', oq_fontSize q)] else []))"

definition same_column :: "json \<Rightarrow> json \<Rightarrow> bool" where
  "same_column a b \<longleftrightarrow>
     (case (a, b) of
        (JObject es, JObject fs) \<Rightarrow> list_all (\<lambda>(k, v). map_of fs k = Some v) es \<and> list_all (\<lambda>(k, v). map_of es k = Some v) fs
      | _ \<Rightarrow> a = b)"

definition updateOrRestoreSelectColumns ::
    "data_source \<Rightarrow> string \<Rightarrow> view_item list option \<Rightarrow> options_query \<Rightarrow> options_query option" where
  "updateOrRestoreSelectColumns d key views q =
     (case js_find (\<lambda>v. vi_id v = key) (case views of Some vs \<Rightarrow> vs | None \<Rightarrow> []) of
        None \<Rightarrow> None
      | Some v \<Rightarrow>
          let extra = (case vi_extraData v of Some (Some j) \<Rightarrow> j | _ \<Rightarrow> JObject []);
              cs = (case json_get ''selectColumns'' extra of Some (JArray cs) \<Rightarrow> cs | _ \<Rightarrow> []);
              def = (if d = TRACES then default_trace_columns else default_logs_columns)
          in if extra = JNull then None
             else if cs \<noteq> [] then Some (q\<lparr>oq_columns := cs\<rparr>)
             else if \<not> list_all2 same_column def (oq_columns q) then Some (q\<lparr>oq_columns := def\<rparr>) else None)"


section \<open>What is loaded\<close>

lemma default_columns_valid:
  "filter isValidLogColumn default_logs_columns = default_logs_columns" "default_logs_columns \<noteq> []"
  "filter isValidTraceColumn default_trace_columns = default_trace_columns" "default_trace_columns \<noteq> []"
  by code_simp+

lemma source_columns_valid:
  "source_columns valid j = Some cs \<Longrightarrow> \<forall>c\<in>set cs. valid c"
  by (auto simp: source_columns_def split: if_splits option.splits json.splits)

lemma logs_source_valid: "\<forall>c\<in>set (pf_columns (logs_source t)). isValidLogColumn c"
  by (auto simp: logs_source_def nothing_loaded_def dest: source_columns_valid split: option.splits)

lemma traces_source_valid: "\<forall>c\<in>set (pf_columns (traces_source t)). isValidTraceColumn c"
  by (auto simp: traces_source_def nothing_loaded_def dest: source_columns_valid split: option.splits)

text \<open>Whatever the storage and the URL hold, a list is loaded with columns, and with columns of its own source only.\<close>

theorem loaded_columns_usable:
  "pf_columns (logsPreferencesLoader api s options) \<noteq> [] \<and>
   (\<forall>c\<in>set (pf_columns (logsPreferencesLoader api s options)). isValidLogColumn c) \<and>
   pf_columns (tracesPreferencesLoader api s options) \<noteq> [] \<and>
   (\<forall>c\<in>set (pf_columns (tracesPreferencesLoader api s options)). isValidTraceColumn c)"
proof -
  have "\<forall>c\<in>set default_logs_columns. isValidLogColumn c" "\<forall>c\<in>set default_trace_columns. isValidTraceColumn c"
    using default_columns_valid by (metis filter_id_conv)+
  then show ?thesis
    using logs_source_valid traces_source_valid default_columns_valid
    by (auto simp: logsPreferencesLoader_def tracesPreferencesLoader_def preferencesLoader_def logs_default_def traces_default_def)
qed

text \<open>What the logs show when the storage holds an object: its columns before those of the URL, its format always.\<close>

definition first_columns :: "json list \<Rightarrow> json list \<Rightarrow> json list" where
  "first_columns cs us = (if cs \<noteq> [] then cs else if us \<noteq> [] then us else default_logs_columns)"

lemma logs_loaded:
  assumes "getItem api s LOGS_LIST_OPTIONS = Some (Some j)" and "source_columns isValidLogColumn j = Some cs"
  shows "logsPreferencesLoader api s options =
    \<lparr>pf_columns = first_columns cs (pf_columns (logs_source (or_empty_object options))), pf_formatting = Some (source_formatting j)\<rparr>"
  using assms by (simp add: logsPreferencesLoader_def preferencesLoader_def first_columns_def logs_source_def [of "Some (Some j)"] logs_default_def)

lemma options_json_fields:
  "json_get ''selectColumns'' (options_json q) = Some (JArray (oq_columns q))"
  "json_get ''maxLines'' (options_json q) = Some (oq_maxLines q)"
  "json_get ''format'' (options_json q) = Some (oq_format q)"
  "json_get ''fontSize'' (options_json q) = Some (oq_fontSize q)"
  by (simp_all add: options_json_def json_get_def)

lemma url_source:
  "logs_source (or_empty_object (Some (Some (options_json q)))) =
    \<lparr>pf_columns = filter isValidLogColumn (oq_columns q), pf_formatting = Some (source_formatting (options_json q))\<rparr>"
  by (simp add: logs_source_def or_empty_object_def source_columns_def options_json_fields json_truthy_def options_json_def [of q] json_get_def)

lemma options_json_inject: "options_json q = options_json q' \<longleftrightarrow> q = q'"
  by (cases q; cases q') (simp add: options_json_def)

section \<open>Options that stay\<close>

text \<open>The specification: what an event makes of the options that are shown for logs.\<close>

definition written_columns :: "json list \<Rightarrow> json list" where
  "written_columns cs = first_columns (filter isValidLogColumn cs) []"

definition written_value :: "json \<Rightarrow> json \<Rightarrow> json \<Rightarrow> json" where
  "written_value v missing false = json_or (Some (json_nullish (Some v) missing)) false"

definition spec_event :: "option_event \<Rightarrow> options_query \<Rightarrow> options_query" where
  "spec_event e q =
     (case e of
        Select_Column searched v \<Rightarrow> q\<lparr>oq_columns := written_columns (selected_columns searched (oq_columns q) v)\<rparr>
      | Remove_Column k \<Rightarrow> q\<lparr>oq_columns := written_columns (remaining_columns (oq_columns q) k)\<rparr>
      | Set_Format v \<Rightarrow> q\<lparr>oq_format := written_value v (JString ''table'') (JString ''raw'')\<rparr>
      | Set_Lines v \<Rightarrow> q\<lparr>oq_maxLines := written_value v (JNum 1) (JNum 1)\<rparr>
      | Set_Size v \<Rightarrow> q\<lparr>oq_fontSize := written_value v (JString ''small'') (JString ''small'')\<rparr>)"

text \<open>
  Outside saved views and at rest, with an object in the storage. When the storage has no columns, neither has the
  URL, or it has the default ones.
\<close>

definition logs_kept :: "'s storage_api \<Rightarrow> 's options_state \<Rightarrow> bool" where
  "logs_kept api st \<longleftrightarrow>
     \<not> saved_view_mode st \<and> os_location st = os_window st \<and> os_synced st = Some (os_views st, savedViewId st) \<and>
     ps_reSync (os_logs st) = False \<and> ps_preferences (os_logs st) = logsPreferencesLoader api (os_store st) (os_window st) \<and>
     (\<exists>es cs. getItem api (os_store st) LOGS_LIST_OPTIONS = Some (Some (JObject es)) \<and>
        source_columns isValidLogColumn (JObject es) = Some cs \<and>
        (cs = [] \<longrightarrow> pf_columns (logs_source (or_empty_object (os_window st))) \<in> {[], default_logs_columns}))"

lemma json_or_truthy: "json_truthy (Some d) \<Longrightarrow> json_truthy (Some (json_or v d))"
  by (cases v) (simp_all add: json_or_def json_truthy_def)

lemma json_or_again: "json_truthy (Some d) \<Longrightarrow> json_or (Some (json_nullish (Some (json_or v d)) m)) d = json_or v d"
  using json_or_truthy [of d v] by (cases "json_or v d") (auto simp: json_nullish_def json_or_def json_truthy_def)

lemma source_formatting_put:
  "source_formatting (JObject (map_set ''selectColumns'' v es)) = source_formatting (JObject es)"
  by (simp add: source_formatting_def json_get_def map_of_map_set)

lemma source_columns_put:
  "source_columns valid (JObject (map_set ''selectColumns'' (JArray cs) es)) = Some (filter valid cs)"
  by (simp add: source_columns_def json_get_def map_of_map_set json_truthy_def)

lemma twice_redirected:
  assumes "os_location rs = os_window st"
  shows "os_window (redirectWithQuery rs q2 (redirectWithQuery rs q1 st)) \<in> {Some (Some (options_json q1)), Some (Some (options_json q2))}"
  using assms by (auto simp: redirectWithQuery_def Let_def)

lemma redirect_eq:
  "redirectWithQuery rs q st =
    st\<lparr>os_window := if os_location rs = Some (Some (options_json q)) then os_window st else Some (Some (options_json q))\<rparr>"
  by (simp add: redirectWithQuery_def Let_def)

lemma saved_view_mode_fields [simp]:
  "saved_view_mode (st\<lparr>os_window := w\<rparr>) = saved_view_mode st" "saved_view_mode (st\<lparr>os_store := s\<rparr>) = saved_view_mode st"
  "saved_view_mode (st\<lparr>os_logs := l\<rparr>) = saved_view_mode st" "saved_view_mode (st\<lparr>os_location := w\<rparr>) = saved_view_mode st"
  by (simp_all add: saved_view_mode_def savedViewId_def)

lemma commit_reload:
  assumes "os_synced st = Some (os_views st, savedViewId st)" and "\<not> saved_view_mode st"
  obtains st' where "commit_options api (st\<lparr>os_store := s, os_window := w, os_logs := (os_logs st)\<lparr>ps_reSync := True\<rparr>\<rparr>) = Some st'"
    and "os_store st' = s" "os_window st' = w" "os_location st' = w" "\<not> saved_view_mode st'"
    "os_synced st' = Some (os_views st', savedViewId st')" "os_logs st' = (os_logs st)\<lparr>ps_preferences := logsPreferencesLoader api s w, ps_reSync := False\<rparr>"
proof
  let ?st = "st\<lparr>os_store := s, os_window := w, os_logs := (os_logs st)\<lparr>ps_reSync := True\<rparr>, os_location := w\<rparr>"
  have "sync_views ?st = Some ?st" using assms(1) by (simp add: sync_views_def savedViewId_def)
  then show "commit_options api (st\<lparr>os_store := s, os_window := w, os_logs := (os_logs st)\<lparr>ps_reSync := True\<rparr>\<rparr>) =
      Some (load_slice api TRACES (load_slice api LOGS ?st))"
    by (simp add: commit_options_def)
qed (use assms in \<open>simp_all add: load_slice_def put_slice_def savedViewId_def saved_view_mode_def\<close>)

context roomy_storage
begin

lemma update_stored_object:
  assumes "getItem api s key = Some (Some (JObject es))" and "f (JObject es) = Some j"
  obtains s' where "update_stored api key f s = Some s'" "getItem api s' key = Some (Some j)"
proof -
  obtain s' where s': "setItem api s key j = Some s'" using room by blast
  moreover from get_set [OF s'] have "getItem api s' key = Some (Some j)" by simp
  ultimately show thesis using that assms by (simp add: update_stored_def or_empty_object_def try_set_def)
qed

lemma set_columns_logs:
  assumes "\<not> saved_view_mode st" and "os_location st = os_window st" and "getItem api (os_store st) LOGS_LIST_OPTIONS = Some (Some (JObject es))"
  obtains s w q where "set_columns api LOGS st cs st = Inr (st\<lparr>os_store := s, os_window := w, os_logs := (os_logs st)\<lparr>ps_reSync := True\<rparr>\<rparr>)"
    and "getItem api s LOGS_LIST_OPTIONS = Some (Some (JObject (map_set ''selectColumns'' (JArray cs) es)))"
    and "w = Some (Some (options_json q))" "oq_columns q = cs"
proof -
  obtain s where s: "update_stored api LOGS_LIST_OPTIONS (with_columns cs) (os_store st) = Some s"
      "getItem api s LOGS_LIST_OPTIONS = Some (Some (JObject (map_set ''selectColumns'' (JArray cs) es)))"
    by (rule update_stored_object [OF assms(3), of "with_columns cs"]) (auto simp: with_columns_def json_put_def)
  let ?q1 = "(put_formatting (pf_formatting (ps_preferences (os_logs st))) defaultOptionsQuery)\<lparr>oq_columns := cs\<rparr>"
  let ?q2 = "(shown_options LOGS st)\<lparr>oq_columns := cs\<rparr>"
  let ?w = "os_window (redirectWithQuery st ?q2 (redirectWithQuery st ?q1 st))"
  have "set_columns api LOGS st cs st = Inr (st\<lparr>os_store := s, os_window := ?w, os_logs := (os_logs st)\<lparr>ps_reSync := True\<rparr>\<rparr>)"
    using assms(1) s(1)
    by (simp add: set_columns_def updateColumns_def logs_updateColumns_def store_update_def redirect_eq put_slice_def)
  moreover obtain q where "?w = Some (Some (options_json q))" "oq_columns q = cs"
    using twice_redirected [OF assms(2), of ?q2 ?q1] by auto
  ultimately show thesis using that s(2) by blast
qed

lemma set_formatting_logs:
  assumes "\<not> saved_view_mode st" and "os_location st = os_window st" and "getItem api (os_store st) LOGS_LIST_OPTIONS = Some (Some (JObject es))"
  obtains s w q where "set_formatting api LOGS st q2 st = Inr (st\<lparr>os_store := s, os_window := w, os_logs := (os_logs st)\<lparr>ps_reSync := True\<rparr>\<rparr>)"
    and "getItem api s LOGS_LIST_OPTIONS = Some (Some (JObject (map_set ''fontSize'' (oq_fontSize q2)
      (map_set ''format'' (oq_format q2) (map_set ''maxLines'' (oq_maxLines q2) es)))))"
    and "w = Some (Some (options_json q))" "oq_columns q \<in> {[], oq_columns q2}"
proof -
  let ?f = "options_formatting q2"
  obtain s where s: "update_stored api LOGS_LIST_OPTIONS (with_formatting ?f) (os_store st) = Some s"
      "getItem api s LOGS_LIST_OPTIONS = Some (Some (JObject (map_set ''fontSize'' (oq_fontSize q2)
        (map_set ''format'' (oq_format q2) (map_set ''maxLines'' (oq_maxLines q2) es)))))"
    by (rule update_stored_object [OF assms(3), of "with_formatting ?f"]) (auto simp: with_formatting_def json_put_def options_formatting_def)
  let ?q1 = "put_formatting (Some ?f) (put_formatting (pf_formatting (ps_preferences (os_logs st))) defaultOptionsQuery)"
  let ?w = "os_window (redirectWithQuery st q2 (redirectWithQuery st ?q1 st))"
  have "set_formatting api LOGS st q2 st = Inr (st\<lparr>os_store := s, os_window := ?w, os_logs := (os_logs st)\<lparr>ps_reSync := True\<rparr>\<rparr>)"
    using assms(1) s(1)
    by (simp add: set_formatting_def updateFormatting_def logs_updateFormatting_def store_update_def redirect_eq put_slice_def)
  moreover have "oq_columns ?q1 = []" by (simp add: put_formatting_def defaultOptionsQuery_def split: option.split)
  then obtain q where "?w = Some (Some (options_json q))" "oq_columns q \<in> {[], oq_columns q2}"
    using twice_redirected [OF assms(2), of q2 ?q1] by (metis insert_iff singletonD)
  ultimately show thesis using that s(2) by blast
qed

end

lemma shown_logs: "\<not> saved_view_mode st \<Longrightarrow> shown_options LOGS st = options_of (Some (ps_preferences (os_logs st)))"
  by (simp add: shown_options_def shown_preferences_def slice_of_def)

lemma options_of_loaded:
  "options_of (Some \<lparr>pf_columns = cs, pf_formatting = Some f\<rparr>) =
    \<lparr>oq_columns = cs, oq_maxLines = json_or (Some (fm_maxLines f)) (JNum 1), oq_format = json_or (Some (fm_format f)) (JString ''raw''),
     oq_fontSize = json_or (Some (fm_fontSize f)) (JString ''small'')\<rparr>"
  by (simp add: options_of_def shown_columns_def shown_format_def defaultOptionsQuery_def)

lemma formatted_entry:
  fixes es q
  defines "es' \<equiv> map_set ''fontSize'' (oq_fontSize q) (map_set ''format'' (oq_format q) (map_set ''maxLines'' (oq_maxLines q) es))"
  shows "source_columns valid (JObject es') = source_columns valid (JObject es)"
    and "source_formatting (JObject es') =
      \<lparr>fm_maxLines = json_nullish (Some (oq_maxLines q)) (JNum 1), fm_format = json_nullish (Some (oq_format q)) (JString ''table''),
       fm_fontSize = json_nullish (Some (oq_fontSize q)) (JString ''small'')\<rparr>"
  by (simp_all add: es'_def source_columns_def source_formatting_def json_get_def map_of_map_set)

lemma first_columns_simps:
  "first_columns cs us = [] \<longleftrightarrow> False" "us \<in> {[], default_logs_columns} \<Longrightarrow> first_columns [] us = default_logs_columns"
  "first_columns cs cs = first_columns cs []"
  using default_columns_valid by (auto simp: first_columns_def)

text \<open>A state at rest after a change of the storage and the URL.\<close>

lemma kept_reload:
  assumes "logs_kept api st" and "getItem api s LOGS_LIST_OPTIONS = Some (Some (JObject es))"
    and "source_columns isValidLogColumn (JObject es) = Some cs" and "w = Some (Some (options_json q))"
    and "cs = [] \<longrightarrow> filter isValidLogColumn (oq_columns q) \<in> {[], default_logs_columns}"
  obtains st' where "commit_options api (st\<lparr>os_store := s, os_window := w, os_logs := (os_logs st)\<lparr>ps_reSync := True\<rparr>\<rparr>) = Some st'"
    and "logs_kept api st'" and "os_window st' = w" and "os_store st' = s"
    and "shown_options LOGS st' = options_of (Some \<lparr>pf_columns = first_columns cs (filter isValidLogColumn (oq_columns q)),
      pf_formatting = Some (source_formatting (JObject es))\<rparr>)"
proof -
  have st: "os_synced st = Some (os_views st, savedViewId st)" "\<not> saved_view_mode st"
    using assms(1) by (simp_all add: logs_kept_def)
  obtain st' where st': "commit_options api (st\<lparr>os_store := s, os_window := w, os_logs := (os_logs st)\<lparr>ps_reSync := True\<rparr>\<rparr>) = Some st'"
      "os_store st' = s" "os_window st' = w" "os_location st' = w" "\<not> saved_view_mode st'"
      "os_synced st' = Some (os_views st', savedViewId st')" "os_logs st' = (os_logs st)\<lparr>ps_preferences := logsPreferencesLoader api s w, ps_reSync := False\<rparr>"
    by (rule commit_reload [OF st])
  have "logs_kept api st'" using st' assms(2-5) by (auto simp: logs_kept_def url_source)
  moreover have "shown_options LOGS st' = options_of (Some \<lparr>pf_columns = first_columns cs (filter isValidLogColumn (oq_columns q)),
      pf_formatting = Some (source_formatting (JObject es))\<rparr>)"
    using st' logs_loaded [OF assms(2,3), of w] assms(4) by (simp add: shown_logs url_source)
  ultimately show thesis using that st' by blast
qed

lemma kept_shown:
  assumes "logs_kept api st"
  obtains es cs where "getItem api (os_store st) LOGS_LIST_OPTIONS = Some (Some (JObject es))"
    and "source_columns isValidLogColumn (JObject es) = Some cs"
    and "shown_options LOGS st = options_of (Some \<lparr>pf_columns = first_columns cs [], pf_formatting = Some (source_formatting (JObject es))\<rparr>)"
proof -
  obtain es cs where es: "getItem api (os_store st) LOGS_LIST_OPTIONS = Some (Some (JObject es))"
      "source_columns isValidLogColumn (JObject es) = Some cs"
      "cs = [] \<longrightarrow> pf_columns (logs_source (or_empty_object (os_window st))) \<in> {[], default_logs_columns}"
    using assms by (auto simp: logs_kept_def)
  then have "first_columns cs (pf_columns (logs_source (or_empty_object (os_window st)))) = first_columns cs []"
    by (auto simp: first_columns_def)
  then show thesis
    using that [OF es(1,2)] assms logs_loaded [OF es(1,2), of "os_window st"] by (simp add: logs_kept_def shown_logs)
qed

lemma shown_values_kept:
  assumes "logs_kept api st"
  shows "written_value (oq_maxLines (shown_options LOGS st)) (JNum 1) (JNum 1) = oq_maxLines (shown_options LOGS st)"
    and "written_value (oq_format (shown_options LOGS st)) (JString ''table'') (JString ''raw'') = oq_format (shown_options LOGS st)"
    and "written_value (oq_fontSize (shown_options LOGS st)) (JString ''small'') (JString ''small'') = oq_fontSize (shown_options LOGS st)"
  by (rule kept_shown [OF assms]; simp add: options_of_loaded written_value_def json_or_again json_truthy_def)+

context roomy_storage
begin

lemma columns_step:
  assumes "logs_kept api st"
  obtains st' where "commit_options api (case set_columns api LOGS st newColumns st of Inl u \<Rightarrow> u | Inr u \<Rightarrow> u) = Some st'"
    and "logs_kept api st'" and "shown_options LOGS st' = (shown_options LOGS st)\<lparr>oq_columns := written_columns newColumns\<rparr>"
proof -
  obtain es cs where es: "getItem api (os_store st) LOGS_LIST_OPTIONS = Some (Some (JObject es))"
      "source_columns isValidLogColumn (JObject es) = Some cs"
      "shown_options LOGS st = options_of (Some \<lparr>pf_columns = first_columns cs [], pf_formatting = Some (source_formatting (JObject es))\<rparr>)"
    by (rule kept_shown [OF assms])
  have st: "\<not> saved_view_mode st" "os_location st = os_window st" using assms by (simp_all add: logs_kept_def)
  obtain s w q where s: "set_columns api LOGS st newColumns st = Inr (st\<lparr>os_store := s, os_window := w, os_logs := (os_logs st)\<lparr>ps_reSync := True\<rparr>\<rparr>)"
      "getItem api s LOGS_LIST_OPTIONS = Some (Some (JObject (map_set ''selectColumns'' (JArray newColumns) es)))"
      "w = Some (Some (options_json q))" "oq_columns q = newColumns"
    by (rule set_columns_logs [OF st es(1)])
  from s(4) have url: "filter isValidLogColumn newColumns = [] \<longrightarrow> filter isValidLogColumn (oq_columns q) \<in> {[], default_logs_columns}" by simp
  show thesis
    by (rule kept_reload [OF assms s(2) source_columns_put s(3) url], rule that)
      (simp_all add: s es(3) options_of_loaded written_columns_def first_columns_simps source_formatting_put)
qed

lemma formatting_step:
  assumes "logs_kept api st" and "oq_columns q2 = oq_columns (shown_options LOGS st)"
  obtains st' where "commit_options api (case set_formatting api LOGS st q2 st of Inl u \<Rightarrow> u | Inr u \<Rightarrow> u) = Some st'"
    and "logs_kept api st'" and "shown_options LOGS st' =
      \<lparr>oq_columns = oq_columns q2, oq_maxLines = written_value (oq_maxLines q2) (JNum 1) (JNum 1),
       oq_format = written_value (oq_format q2) (JString ''table'') (JString ''raw''),
       oq_fontSize = written_value (oq_fontSize q2) (JString ''small'') (JString ''small'')\<rparr>"
proof -
  obtain es cs where es: "getItem api (os_store st) LOGS_LIST_OPTIONS = Some (Some (JObject es))"
      "source_columns isValidLogColumn (JObject es) = Some cs"
      "shown_options LOGS st = options_of (Some \<lparr>pf_columns = first_columns cs [], pf_formatting = Some (source_formatting (JObject es))\<rparr>)"
    by (rule kept_shown [OF assms(1)])
  have st: "\<not> saved_view_mode st" "os_location st = os_window st" using assms by (simp_all add: logs_kept_def)
  obtain s w q where s: "set_formatting api LOGS st q2 st = Inr (st\<lparr>os_store := s, os_window := w, os_logs := (os_logs st)\<lparr>ps_reSync := True\<rparr>\<rparr>)"
      "getItem api s LOGS_LIST_OPTIONS = Some (Some (JObject (map_set ''fontSize'' (oq_fontSize q2)
        (map_set ''format'' (oq_format q2) (map_set ''maxLines'' (oq_maxLines q2) es)))))"
      "w = Some (Some (options_json q))" "oq_columns q \<in> {[], oq_columns q2}"
    by (rule set_formatting_logs [OF st es(1)])
  have shown: "oq_columns q2 = first_columns cs []" using assms(2) es(3) by (simp add: options_of_loaded)
  then have url: "cs = [] \<longrightarrow> filter isValidLogColumn (oq_columns q) \<in> {[], default_logs_columns}"
    using s(4) by (auto simp: first_columns_def default_columns_valid)
  have "first_columns cs (filter isValidLogColumn (oq_columns q)) = first_columns cs []"
    using url by (auto simp: first_columns_def)
  then have columns: "first_columns cs (filter isValidLogColumn (oq_columns q)) = oq_columns q2" by (simp add: shown)
  obtain st' where st': "commit_options api (st\<lparr>os_store := s, os_window := w, os_logs := (os_logs st)\<lparr>ps_reSync := True\<rparr>\<rparr>) = Some st'"
      "logs_kept api st'"
      "shown_options LOGS st' = options_of (Some \<lparr>pf_columns = oq_columns q2, pf_formatting = Some (source_formatting (JObject
        (map_set ''fontSize'' (oq_fontSize q2) (map_set ''format'' (oq_format q2) (map_set ''maxLines'' (oq_maxLines q2) es)))))\<rparr>)"
    by (rule kept_reload [OF assms(1) s(2) trans [OF formatted_entry(1) es(2)] s(3) url, unfolded columns]) blast
  show thesis
  proof (rule that)
    show "commit_options api (case set_formatting api LOGS st q2 st of Inl u \<Rightarrow> u | Inr u \<Rightarrow> u) = Some st'"
      by (simp only: s(1) sum.case st'(1))
  qed (simp_all only: st' options_of_loaded formatted_entry written_value_def formatting.select_convs)
qed

lemma formatting_event:
  assumes "logs_kept api st" and "oq_columns q2 = oq_columns (shown_options LOGS st)"
    and "handle_option api LOGS e st = set_formatting api LOGS st q2 st"
    and "spec_event e (shown_options LOGS st) =
      \<lparr>oq_columns = oq_columns q2, oq_maxLines = written_value (oq_maxLines q2) (JNum 1) (JNum 1),
       oq_format = written_value (oq_format q2) (JString ''table'') (JString ''raw''),
       oq_fontSize = written_value (oq_fontSize q2) (JString ''small'') (JString ''small'')\<rparr>"
  obtains st' where "option_step api LOGS e st = Some st'" "logs_kept api st'"
    "shown_options LOGS st' = spec_event e (shown_options LOGS st)"
  by (rule formatting_step [OF assms(1,2)]) (metis that option_step_def assms(3,4))

lemma columns_event:
  assumes "logs_kept api st" and "handle_option api LOGS e st = set_columns api LOGS st newColumns st"
    and "spec_event e (shown_options LOGS st) = (shown_options LOGS st)\<lparr>oq_columns := written_columns newColumns\<rparr>"
  obtains st' where "option_step api LOGS e st = Some st'" "logs_kept api st'"
    "shown_options LOGS st' = spec_event e (shown_options LOGS st)"
  by (rule columns_step [OF assms(1), of newColumns]) (metis that option_step_def assms(2,3))

lemma option_step_kept:
  assumes "logs_kept api st"
  obtains st' where "option_step api LOGS e st = Some st'" "logs_kept api st'"
    "shown_options LOGS st' = spec_event e (shown_options LOGS st)"
proof (cases e)
  case (Select_Column searched v)
  show ?thesis
    by (rule columns_event [OF assms, of e "selected_columns searched (oq_columns (shown_options LOGS st)) v"])
      (use that in \<open>simp_all add: Select_Column handle_option_def handleSelectColumns_def spec_event_def shown_options_def options_of_def\<close>)
next
  case (Remove_Column k)
  show ?thesis
    by (rule columns_event [OF assms, of e "remaining_columns (oq_columns (shown_options LOGS st)) k"])
      (use that in \<open>simp_all add: Remove_Column handle_option_def handleRemoveSelectedColumn_def spec_event_def shown_options_def options_of_def Let_def\<close>)
next
  case (Set_Format v)
  show ?thesis
    by (rule formatting_event [OF assms, of "(shown_options LOGS st)\<lparr>oq_format := v\<rparr>" e])
      (use that in \<open>simp_all add: Set_Format handle_option_def handleFormatChange_def spec_event_def shown_values_kept [OF assms]\<close>)
next
  case (Set_Lines v)
  show ?thesis
    by (rule formatting_event [OF assms, of "(shown_options LOGS st)\<lparr>oq_maxLines := v\<rparr>" e])
      (use that in \<open>simp_all add: Set_Lines handle_option_def handleMaxLinesChange_def spec_event_def shown_values_kept [OF assms]\<close>)
next
  case (Set_Size v)
  show ?thesis
    by (rule formatting_event [OF assms, of "(shown_options LOGS st)\<lparr>oq_fontSize := v\<rparr>" e])
      (use that in \<open>simp_all add: Set_Size handle_option_def handleFontSizeChange_def spec_event_def shown_values_kept [OF assms]\<close>)
qed

end


section \<open>Sessions\<close>

primrec run_options :: "'s storage_api \<Rightarrow> data_source \<Rightarrow> option_event list \<Rightarrow> 's options_state \<Rightarrow> 's options_state option" where
  "run_options api d [] st = Some st"
| "run_options api d (e # es) st = Option.bind (option_step api d e st) (run_options api d es)"

lemma load_slices_keep:
  "os_window (load_slice api TRACES (load_slice api LOGS st)) = os_window st"
  "os_viewKey (load_slice api TRACES (load_slice api LOGS st)) = os_viewKey st"
  "\<not> ps_reSync (os_logs st) \<Longrightarrow> ps_preferences (os_logs (load_slice api TRACES (load_slice api LOGS st))) = ps_preferences (os_logs st)"
  by (simp_all add: load_slice_def put_slice_def)

lemma view_sync_keeps:
  assumes "sync_views st = Some st'"
  shows "os_window st' = os_window st" "os_viewKey st' = os_viewKey st" "ps_preferences (os_logs st') = ps_preferences (os_logs st)"
    "ps_reSync (os_logs st') = ps_reSync (os_logs st)"
  using assms by (auto simp: sync_views_def split: if_splits option.splits)

lemma commit_keeps:
  assumes "commit_options api st = Some st'"
  shows "os_window st' = os_window st" "os_viewKey st' = os_viewKey st"
    "\<not> ps_reSync (os_logs st) \<Longrightarrow> ps_preferences (os_logs st') = ps_preferences (os_logs st)"
proof -
  obtain u where u: "sync_views (st\<lparr>os_location := os_window st\<rparr>) = Some u" "st' = load_slice api TRACES (load_slice api LOGS u)"
    using assms by (auto simp: commit_options_def)
  from view_sync_keeps [OF u(1)] show "os_window st' = os_window st" "os_viewKey st' = os_viewKey st"
    "\<not> ps_reSync (os_logs st) \<Longrightarrow> ps_preferences (os_logs st') = ps_preferences (os_logs st)"
    by (simp_all add: u(2) load_slices_keep)
qed

lemma mounted_shows:
  assumes "mount_options api s options viewKey views = Some st" and "\<not> saved_view_mode st"
  shows "shown_options LOGS st = options_of (Some (logsPreferencesLoader api s options))"
  using commit_keeps [OF assms(1) [unfolded mount_options_def]] assms(2) by (simp add: shown_logs)

lemma mounted_mode:
  "mount_options api s options viewKey views = Some st \<Longrightarrow>
    saved_view_mode st \<longleftrightarrow> json_truthy (Some (case viewKey of Some (Some j) \<Rightarrow> j | _ \<Rightarrow> JString []))"
  using commit_keeps(2) by (fastforce simp: mount_options_def saved_view_mode_def savedViewId_def)

lemma mounted_again:
  assumes "logs_kept api st" and "mount_options api (os_store st) (os_window st) (os_viewKey st) views = Some st'"
  shows "shown_options LOGS st' = shown_options LOGS st"
proof -
  have "\<not> saved_view_mode st" using assms(1) by (simp add: logs_kept_def)
  moreover from this have "\<not> saved_view_mode st'"
    using mounted_mode [OF assms(2)] by (simp add: saved_view_mode_def savedViewId_def)
  ultimately show ?thesis using mounted_shows [OF assms(2)] assms(1) by (simp add: shown_logs logs_kept_def)
qed

context roomy_storage
begin

lemma run_kept:
  "logs_kept api st \<Longrightarrow> \<exists>st'. run_options api LOGS es st = Some st' \<and> logs_kept api st' \<and>
     shown_options LOGS st' = fold spec_event es (shown_options LOGS st)"
proof (induction es arbitrary: st)
  case (Cons e es)
  obtain st' where "option_step api LOGS e st = Some st'" "logs_kept api st'"
      "shown_options LOGS st' = spec_event e (shown_options LOGS st)"
    by (rule option_step_kept [OF Cons.prems])
  with Cons.IH [of st'] show ?case by simp
qed simp

end

context roomy_storage
begin

lemma option_handled:
  assumes "logs_kept api st"
  obtains st' where "handle_option api LOGS e st = Inr st'"
proof -
  have st: "\<not> saved_view_mode st" "os_location st = os_window st" using assms by (simp_all add: logs_kept_def)
  obtain es where es: "getItem api (os_store st) LOGS_LIST_OPTIONS = Some (Some (JObject es))"
    using assms by (auto simp: logs_kept_def)
  have "\<exists>u. set_columns api LOGS st cs st = Inr u" for cs by (rule set_columns_logs [OF st es]) blast
  moreover have "\<exists>u. set_formatting api LOGS st q st = Inr u" for q by (rule set_formatting_logs [OF st es]) blast
  ultimately have "\<exists>u. handle_option api LOGS e st = Inr u"
    by (cases e) (simp_all add: handle_option_def handleSelectColumns_def handleRemoveSelectedColumn_def handleFormatChange_def
      handleMaxLinesChange_def handleFontSizeChange_def Let_def)
  then show thesis using that by blast
qed

end

text \<open>
  C15. Outside saved views, with an object in the storage, the options that are shown after any events are those of the
  specification, and loading the page again shows them too.
\<close>

theorem options_follow_events:
  assumes "logs_kept (browser_storage (\<lambda>_. True)) st"
  shows "\<exists>st'. run_options (browser_storage (\<lambda>_. True)) LOGS es st = Some st' \<and>
    shown_options LOGS st' = fold spec_event es (shown_options LOGS st) \<and>
    (\<forall>views st''. mount_options (browser_storage (\<lambda>_. True)) (os_store st') (os_window st') (os_viewKey st') views = Some st'' \<longrightarrow>
       shown_options LOGS st'' = shown_options LOGS st')"
  using roomy.run_kept [OF assms, of es] mounted_again by blast

section \<open>Links\<close>

definition asked_event :: "option_event \<Rightarrow> options_query \<Rightarrow> options_query" where
  "asked_event e q =
     (case e of
        Select_Column searched v \<Rightarrow> q\<lparr>oq_columns := selected_columns searched (oq_columns q) v\<rparr>
      | Remove_Column k \<Rightarrow> q\<lparr>oq_columns := remaining_columns (oq_columns q) k\<rparr>
      | Set_Format v \<Rightarrow> q\<lparr>oq_format := v\<rparr>
      | Set_Lines v \<Rightarrow> q\<lparr>oq_maxLines := v\<rparr>
      | Set_Size v \<Rightarrow> q\<lparr>oq_fontSize := v\<rparr>)"

lemma redirected_window:
  assumes "os_location rs \<noteq> Some (Some (options_json q))"
  shows "os_window (redirectWithQuery rs q st) = Some (Some (options_json q))"
  using assms by (simp add: redirectWithQuery_def)

lemma logs_handler_written:
  assumes "os_location st \<noteq> Some (Some (options_json (asked_event e (shown_options LOGS st))))"
    and "handle_option api LOGS e st = Inr st'"
  shows "os_window st' = Some (Some (options_json (asked_event e (shown_options LOGS st))))"
proof -
  have columns: "oq_columns (shown_options LOGS st) = shown_columns (shown_preferences LOGS st)"
    by (simp add: shown_options_def options_of_def)
  have written: "os_window st' = Some (Some (options_json q))"
    if "map_sum id (redirectWithQuery st q) u = Inr st'" "q = asked_event e (shown_options LOGS st)" for q u
    using that assms(1) by (cases u) (auto simp: redirected_window)
  show ?thesis
    using assms(2)
    by (cases e)
      (auto simp: handle_option_def handleSelectColumns_def handleRemoveSelectedColumn_def handleFormatChange_def handleMaxLinesChange_def
        handleFontSizeChange_def set_columns_def set_formatting_def asked_event_def columns Let_def dest!: written)
qed

lemma written_columns_fixed:
  assumes "written_columns cs = cs"
  shows "filter isValidLogColumn cs = cs" "cs \<noteq> []"
  using assms default_columns_valid by (auto simp: written_columns_def first_columns_def split: if_splits)

definition settled_options :: "options_query \<Rightarrow> bool" where
  "settled_options q \<longleftrightarrow> written_columns (oq_columns q) = oq_columns q \<and> written_value (oq_maxLines q) (JNum 1) (JNum 1) = oq_maxLines q \<and>
     written_value (oq_format q) (JString ''table'') (JString ''raw'') = oq_format q \<and>
     written_value (oq_fontSize q) (JString ''small'') (JString ''small'') = oq_fontSize q"

lemma linked_options:
  assumes "getItem api s LOGS_LIST_OPTIONS = None" and "settled_options q"
    and "mount_options api s (Some (Some (options_json q))) None views = Some st"
  shows "shown_options LOGS st = q"
proof -
  have "\<not> saved_view_mode st" using mounted_mode [OF assms(3)] by (simp add: json_truthy_def)
  moreover have "logsPreferencesLoader api s (Some (Some (options_json q))) =
      \<lparr>pf_columns = oq_columns q, pf_formatting = Some (source_formatting (options_json q))\<rparr>"
    using written_columns_fixed [of "oq_columns q"] assms(1,2)
    by (simp add: logsPreferencesLoader_def preferencesLoader_def url_source logs_source_def [of None] nothing_loaded_def settled_options_def)
  ultimately show ?thesis
    using mounted_shows [OF assms(3)] assms(2)
    by (simp add: options_of_loaded source_formatting_def options_json_fields settled_options_def written_value_def)
qed

lemma kept_settled:
  assumes "logs_kept api st"
  shows "settled_options (shown_options LOGS st)"
proof -
  have "written_columns (oq_columns (shown_options LOGS st)) = oq_columns (shown_options LOGS st)"
  proof (rule kept_shown [OF assms])
    fix es cs
    assume "source_columns isValidLogColumn (JObject es) = Some cs"
      and shown: "shown_options LOGS st = options_of (Some \<lparr>pf_columns = first_columns cs [], pf_formatting = Some (source_formatting (JObject es))\<rparr>)"
    then have "filter isValidLogColumn cs = cs" using source_columns_valid [of isValidLogColumn] by (simp add: filter_id_conv)
    then show ?thesis by (simp add: shown options_of_loaded written_columns_def first_columns_def default_columns_valid)
  qed
  then show ?thesis using shown_values_kept [OF assms] by (simp add: settled_options_def)
qed

text \<open>
  C16. The URL that an event leaves, opened in a browser without stored options, shows what is shown after the event. Nothing of
  what the event asks for is replaced by a default, and the URL did not have these options before.
\<close>

theorem link_shows_options:
  assumes "logs_kept (browser_storage (\<lambda>_. True)) st"
    and "option_step (browser_storage (\<lambda>_. True)) LOGS e st = Some st'"
    and "asked_event e (shown_options LOGS st) = spec_event e (shown_options LOGS st)"
    and "os_window st \<noteq> Some (Some (options_json (spec_event e (shown_options LOGS st))))"
    and "getItem api s LOGS_LIST_OPTIONS = None"
    and "mount_options api s (os_window st') None views = Some other"
  shows "shown_options LOGS other = shown_options LOGS st'"
proof -
  let ?api = "browser_storage (\<lambda>_. True)" and ?q = "spec_event e (shown_options LOGS st)"
  obtain st1 where st1: "option_step ?api LOGS e st = Some st1" "logs_kept ?api st1" "shown_options LOGS st1 = ?q"
    by (rule roomy.option_step_kept [OF assms(1), of e])
  with assms(2) have st': "logs_kept ?api st'" "shown_options LOGS st' = ?q" by simp_all
  have "os_location st = os_window st" using assms(1) by (simp add: logs_kept_def)
  then have changed: "os_location st \<noteq> Some (Some (options_json (asked_event e (shown_options LOGS st))))"
    using assms(3,4) by simp
  obtain u where u: "handle_option ?api LOGS e st = Inr u"
    by (rule roomy.option_handled [OF assms(1), of e])
  have "os_window st' = Some (Some (options_json ?q))"
    using commit_keeps(1) [of ?api u st'] logs_handler_written [OF changed u] assms(2,3) u by (simp add: option_step_def)
  with linked_options [OF assms(5) _ assms(6) [unfolded this]] kept_settled [OF st'(1)] st'(2) show ?thesis by simp
qed


section \<open>Concrete sessions\<close>

abbreviation roomy_browser :: "browser_items storage_api" where
  "roomy_browser \<equiv> browser_storage (\<lambda>_. True)"

definition log_column :: "string \<Rightarrow> json" where
  "log_column n = JObject [(''name'', JString n), (''signal'', JString ''logs'')]"

definition first_visit :: "browser_items \<Rightarrow> json option option \<Rightarrow> browser_items options_state" where
  "first_visit items options = the (mount_options roomy_browser items options None (None, None))"

definition stored_entry :: json where
  "stored_entry = JObject [(''selectColumns'', JArray [log_column ''a'', log_column ''b''])]"

definition returning :: "browser_items options_state" where
  "returning = first_visit ((\<lambda>_. None)(LOGS_LIST_OPTIONS := Some (Some stored_entry))) None"

lemma returning_kept: "logs_kept roomy_browser returning"
proof -
  have "getItem roomy_browser (os_store returning) LOGS_LIST_OPTIONS = Some (Some stored_entry)"
    "source_columns isValidLogColumn stored_entry = Some [log_column ''a'', log_column ''b'']"
    "\<not> saved_view_mode returning" "os_location returning = os_window returning"
    "os_synced returning = Some (os_views returning, savedViewId returning)" "ps_reSync (os_logs returning) = False"
    "ps_preferences (os_logs returning) = logsPreferencesLoader roomy_browser (os_store returning) (os_window returning)"
    by code_simp+
  then show ?thesis by (auto simp: logs_kept_def stored_entry_def)
qed

lemma mounted_plain: "\<exists>st. mount_options api s options None (None, None) = Some st"
  by (simp add: mount_options_def commit_options_def sync_views_def saved_preferences_def or_empty_object_def)

lemma options_follow_events_witness:
  "\<exists>st'. run_options roomy_browser LOGS
      [Select_Column [log_column ''c''] ''c'', Set_Format (JString ''raw''), Remove_Column ''a'', Set_Lines (JNum 3)] returning = Some st' \<and>
    shown_options LOGS st' =
      \<lparr>oq_columns = [log_column ''b'', log_column ''c''], oq_maxLines = JNum 3, oq_format = JString ''raw'', oq_fontSize = JString ''small''\<rparr>"
proof -
  have "fold spec_event [Select_Column [log_column ''c''] ''c'', Set_Format (JString ''raw''), Remove_Column ''a'', Set_Lines (JNum 3)]
      (shown_options LOGS returning) =
    \<lparr>oq_columns = [log_column ''b'', log_column ''c''], oq_maxLines = JNum 3, oq_format = JString ''raw'', oq_fontSize = JString ''small''\<rparr>"
    by code_simp
  with options_follow_events [OF returning_kept,
      of "[Select_Column [log_column ''c''] ''c'', Set_Format (JString ''raw''), Remove_Column ''a'', Set_Lines (JNum 3)]"]
  show ?thesis by auto
qed

lemma link_shows_options_witness:
  "shown_options LOGS (first_visit (\<lambda>_. None) (os_window (the (option_step roomy_browser LOGS (Set_Format (JString ''raw'')) returning)))) =
    \<lparr>oq_columns = [log_column ''a'', log_column ''b''], oq_maxLines = JNum 1, oq_format = JString ''raw'', oq_fontSize = JString ''small''\<rparr>"
proof -
  let ?e = "Set_Format (JString ''raw'')"
  let ?st = "the (option_step roomy_browser LOGS ?e returning)"
  let ?other = "first_visit (\<lambda>_. None) (os_window ?st)"
  have step: "option_step roomy_browser LOGS ?e returning = Some ?st"
    by (rule roomy.option_step_kept [OF returning_kept, of ?e]) simp
  have asked: "asked_event ?e (shown_options LOGS returning) = spec_event ?e (shown_options LOGS returning)" by code_simp
  have url: "os_window returning \<noteq> Some (Some (options_json (spec_event ?e (shown_options LOGS returning))))" by code_simp
  have fresh: "getItem roomy_browser (\<lambda>_. None) LOGS_LIST_OPTIONS = None" by code_simp
  have mounted: "mount_options roomy_browser (\<lambda>_. None) (os_window ?st) None (None, None) = Some ?other"
    using mounted_plain [of roomy_browser "\<lambda>_. None" "os_window ?st"] by (auto simp: first_visit_def)
  have "shown_options LOGS ?st =
      \<lparr>oq_columns = [log_column ''a'', log_column ''b''], oq_maxLines = JNum 1, oq_format = JString ''raw'', oq_fontSize = JString ''small''\<rparr>"
    by code_simp
  with link_shows_options [OF returning_kept step asked url fresh mounted] show ?thesis by simp
qed

section \<open>Saved views\<close>

text \<open>The options saved with a view are those shown when it is opened; of traces only the columns are.\<close>

lemma view_keeps_options:
  assumes "getUpdatedExtraData color extra (oq_columns q) (if d = LOGS then Some (options_formatting q) else None) = Some j"
    and "extra = None \<or> (\<exists>es. extra = Some (Some (JObject es)))"
    and "js_find (\<lambda>v. JString (vi_id v) = viewId) vs = Some \<lparr>vi_id = n, vi_extraData = Some (Some j)\<rparr>"
    and "d \<noteq> METRICS" "d = LOGS \<Longrightarrow> settled_options q"
  obtains p where "saved_preferences d (Some vs) viewId = Some p" "pf_columns p = oq_columns q"
    "d = LOGS \<Longrightarrow> options_of (Some p) = q"
proof -
  have columns: "json_get ''selectColumns'' j = Some (JArray (oq_columns q))"
    using assms(1,2)
    by (cases d) (auto simp: getUpdatedExtraData_def with_columns_def json_put_def json_get_def map_of_map_set)
  have fmt: "json_get ''maxLines'' j = Some (oq_maxLines q)" "json_get ''format'' j = Some (oq_format q)" "json_get ''fontSize'' j = Some (oq_fontSize q)"
    if "d = LOGS"
    using assms(1,2) that
    by (auto simp: getUpdatedExtraData_def with_columns_def json_put_def json_get_def map_of_map_set options_formatting_def)
  show thesis
    by (cases d; rule that)
      (use assms columns fmt in \<open>auto simp: saved_preferences_def or_empty_object_def saved_columns_def json_truthy_def options_of_loaded
        source_formatting_def settled_options_def written_value_def\<close>)
qed

lemma new_view_keeps_options:
  assumes "settled_options q"
  shows "saved_preferences LOGS (Some [\<lparr>vi_id = n, vi_extraData = Some (Some (saved_extra_data LOGS color q))\<rparr>]) (JString n) =
      Some \<lparr>pf_columns = oq_columns q, pf_formatting = Some (source_formatting (options_json q))\<rparr>"
  by (simp add: saved_preferences_def or_empty_object_def saved_columns_def saved_extra_data_def json_get_def json_truthy_def
      source_formatting_def options_json_def)

section \<open>Behaviours to know\<close>

text \<open>Removing the last column of the logs shows the default columns again.\<close>

lemma last_column_restores_defaults:
  "map_option (oq_columns \<circ> shown_options LOGS)
     (run_options roomy_browser LOGS [Remove_Column ''a'', Remove_Column ''b''] returning) = Some default_logs_columns"
  by code_simp

text \<open>
  The options of a link are shown to a browser without stored options. A column that is selected then is stored without the
  format, and the format is read from the storage alone: that of the link is lost.
\<close>

definition linked :: options_query where
  "linked = \<lparr>oq_columns = [log_column ''a'', log_column ''b''], oq_maxLines = JNum 5, oq_format = JString ''raw'', oq_fontSize = JString ''large''\<rparr>"

definition link_opened :: "browser_items options_state" where
  "link_opened = first_visit (\<lambda>_. None) (Some (Some (options_json linked)))"

lemma selection_resets_format:
  "shown_options LOGS link_opened = linked \<and>
   map_option (shown_options LOGS) (option_step roomy_browser LOGS (Select_Column [log_column ''c''] ''c'') link_opened) =
     Some \<lparr>oq_columns = [log_column ''a'', log_column ''b'', log_column ''c''], oq_maxLines = JNum 1, oq_format = JString ''table'', oq_fontSize = JString ''small''\<rparr>"
  by code_simp

text \<open>
  Opening the panel with the format rewrites the URL without the columns, and the redirect that would put them back is left
  out, as it leads to the URL of the render: the columns of the link are lost.
\<close>

lemma format_menu_loses_columns:
  "(case open_format_menu roomy_browser LOGS link_opened of
      Inl _ \<Rightarrow> None | Inr st \<Rightarrow> map_option (shown_options LOGS) (commit_options roomy_browser st)) =
    Some (linked\<lparr>oq_columns := default_logs_columns\<rparr>)"
  by code_simp

text \<open>The first visit shows a table and writes the raw format into the URL, which the next load shows.\<close>

lemma first_format_changes_on_reload:
  "let st = first_visit (\<lambda>_. None) None;
       filled = fill_options (initialOptionsQuery LOGS None []) True st
   in oq_format (shown_options LOGS filled) = JString ''table'' \<and>
      oq_format (shown_options LOGS (first_visit (os_store filled) (os_window filled))) = JString ''raw''"
  by code_simp

text \<open>
  A saved view of traces without columns shows bare names, which have no \<open>name\<close>; selecting a column keeps the first of
  them only.
\<close>

definition bare_view :: "browser_items options_state" where
  "bare_view = the (mount_options roomy_browser (\<lambda>_. None) None (Some (Some (JString ''v''))) (None, Some [\<lparr>vi_id = ''v'', vi_extraData = None\<rparr>]))"

lemma bare_columns_lost:
  "oq_columns (shown_options TRACES bare_view) = map JString trace_list_columns \<and>
   map_option (oq_columns \<circ> shown_options TRACES) (option_step roomy_browser TRACES (Select_Column default_trace_columns ''name'') bare_view) =
     Some [JString ''service.name'', JObject (list_column ''name'' ''traces'' ''span'' ''string'')]"
  by code_simp

text \<open>An entry that does not parse is skipped when it is loaded, but every change throws on it.\<close>

lemma broken_entry_blocks_changes:
  assumes "getItem api (os_store st) LOGS_LIST_OPTIONS = Some None" and "\<not> saved_view_mode st"
  shows "\<exists>st'. handleFormatChange api LOGS st v st = Inl st' \<and> os_store st' = os_store st \<and> os_logs st' = os_logs st"
  using assms
  by (simp add: handleFormatChange_def set_formatting_def updateFormatting_def logs_updateFormatting_def store_update_def redirect_eq
      update_stored_def or_empty_object_def)

text \<open>A column that is shown is not offered again.\<close>

lemma offered_not_shown:
  assumes "Some (JString n) \<in> set (optionsFromAttributeKeys d searched p)" and "n \<noteq> []"
  shows "Some (JString n) \<notin> set (map column_name (shown_columns p))"
  using assms by (auto simp: optionsFromAttributeKeys_def getOptionsFromKeys_def json_truthy_def)

text \<open>Selecting a column that is shown changes no names.\<close>

lemma selected_again:
  assumes "distinct (map column_name columns)" and "Some (JString v) \<in> set (map column_name columns)"
  shows "map column_name (selected_columns searched columns v) = map column_name columns"
proof -
  let ?cs = "searched @ columns"
  have keys: "js_unique (map column_name columns @ [Some (JString v)]) = map column_name columns"
    using assms by (simp add: js_unique_def distinct_remdups_id)
  have "map column_name (List.map_filter (\<lambda>k. js_find (\<lambda>c. column_name c = k) ?cs) ks) = ks" if "set ks \<subseteq> column_name ` set ?cs" for ks
    using that
  proof (induction ks)
    case (Cons k ks)
    then obtain c where "js_find (\<lambda>c. column_name c = k) ?cs = Some c" "column_name c = k"
      by (metis (mono_tags, lifting) image_iff insert_subset js_find_None js_find_Some list.simps(15) option.exhaust)
    with Cons show ?case by (simp add: map_filter_simps)
  qed (simp add: map_filter_simps)
  from this [of "map column_name columns"] keys show ?thesis by (auto simp: selected_columns_def)
qed

end
