(* ===== verification/Rule_Contract.thy ===== *)
theory Rule_Contract
  imports Alert_Draft
begin

section \<open>What the backend accepts of a rule\<close>

text \<open>
  The checks that \<^verbatim>\<open>src/pkg/types/ruletypes\<close> makes of a rule when it decodes one: \<open>PostableRule.validate\<close>
  and the \<open>Validate\<close> methods of its parts. They are the other side of \<open>serializeBasicAlertDraft\<close>: the theorem says
  which of them the editor's own validation leaves open. The rule is the record that the editor sends, whose
  types leave out what cannot be sent (an unknown reduction, operator, policy or period, a field that is not allowed). Strings are
  of bytes below 256, as in the other theories. Whether a time zone is known to \<open>time.LoadLocation\<close> is up to the
  zones installed with the backend: the parameter \<open>zone\<close>. The decoding of the queries themselves is not modelled.
\<close>

subsection \<open>Texts and durations of Go\<close>

text \<open>\<open>strings.TrimSpace\<close>.\<close>

definition go_space :: "char \<Rightarrow> bool" where
  "go_space c \<longleftrightarrow> c \<in> {CHR 0x09, CHR 0x0A, CHR 0x0B, CHR 0x0C, CHR 0x0D, CHR '' '', CHR 0x85, CHR 0xA0}"

definition trim_space :: "string \<Rightarrow> string" where
  "trim_space s = rev (dropWhile go_space (rev (dropWhile go_space s)))"

text \<open>A text or a list that may be left out is empty for Go.\<close>

definition go_text :: "string option \<Rightarrow> string" where
  "go_text t = (case t of None \<Rightarrow> '''' | Some s \<Rightarrow> s)"

definition go_list :: "'a list option \<Rightarrow> 'a list" where
  "go_list l = (case l of None \<Rightarrow> [] | Some xs \<Rightarrow> xs)"

text \<open>
  \<open>time.ParseDuration\<close>, in nanoseconds: a sign, then numbers with units. A fraction is multiplied exactly, where Go
  uses a \<open>float64\<close>; sums are of 64 bits.
\<close>

definition duration_unit :: "string \<Rightarrow> int option" where
  "duration_unit = map_of [(''ns'', 1), (''us'', 10 ^ 3), ([CHR 0xB5, CHR ''s''], 10 ^ 3), (''ms'', 10 ^ 6),
     (''s'', 10 ^ 9), (''m'', 60 * 10 ^ 9), (''h'', 3600 * 10 ^ 9)]"

definition fraction_digits :: "string \<Rightarrow> string" where
  "fraction_digits r = (case r of [] \<Rightarrow> [] | c # cs \<Rightarrow> if c = CHR ''.'' then takeWhile is_digit cs else [])"

definition after_fraction :: "string \<Rightarrow> string" where
  "after_fraction r = (case r of [] \<Rightarrow> [] | c # cs \<Rightarrow> if c = CHR ''.'' then dropWhile is_digit cs else r)"

definition unit_char :: "char \<Rightarrow> bool" where
  "unit_char c \<longleftrightarrow> c \<noteq> CHR ''.'' \<and> \<not> is_digit c"

lemma after_fraction_le: "length (after_fraction r) \<le> length r"
  by (cases r) (auto simp: after_fraction_def intro: le_SucI length_dropWhile_le)

lemma fraction_shorter: "fraction_digits r \<noteq> [] \<Longrightarrow> length (after_fraction r) < length r"
  by (cases r) (auto simp: fraction_digits_def after_fraction_def less_Suc_eq_le length_dropWhile_le split: if_splits)

lemma digits_shorter: "takeWhile is_digit s \<noteq> [] \<Longrightarrow> length (dropWhile is_digit s) < length s"
  by (cases s) (auto simp: less_Suc_eq_le length_dropWhile_le split: if_splits)

function parse_units :: "int \<Rightarrow> string \<Rightarrow> int option" where
  "parse_units d s =
     (if s = [] then Some d
      else
        let digits = takeWhile is_digit s; r = dropWhile is_digit s; frac = fraction_digits r;
            unit_text = takeWhile unit_char (after_fraction r); rest = dropWhile unit_char (after_fraction r);
            v = int (digits_value digits)
        in if digits = [] \<and> frac = [] then None
           else
             (case duration_unit unit_text of
                None \<Rightarrow> None
              | Some unit \<Rightarrow>
                  if 2 ^ 63 < v * unit then None
                  else
                    let w = v * unit + int (digits_value frac) * unit div 10 ^ length frac; sum = (d + w) mod 2 ^ 64
                    in if 2 ^ 63 < w \<or> 2 ^ 63 < sum then None else parse_units sum rest))"
  by pat_completeness auto
termination
proof (relation "measure (length \<circ> snd)", goal_cases)
  case (2 d s digits r frac unit_text rest v unit w sum)
  have "length (after_fraction r) < length s"
    using 2(1-8) digits_shorter [of s] fraction_shorter [of r] after_fraction_le [of r] length_dropWhile_le [of is_digit s]
    by (cases "digits = []") auto
  with 2(6) length_dropWhile_le [of unit_char "after_fraction r"] show ?case by simp
qed simp

declare parse_units.simps [simp del]

definition parse_duration :: "string \<Rightarrow> int option" where
  "parse_duration s =
     (let sign = s \<noteq> [] \<and> hd s \<in> set ''-+''; t = (if sign then tl s else s)
      in if t = ''0'' then Some 0
         else if t = [] then None
         else
           (case parse_units 0 t of
              None \<Rightarrow> None
            | Some d \<Rightarrow> if sign \<and> hd s = CHR ''-'' then Some (- d) else if 2 ^ 63 - 1 < d then None else Some d))"

subsection \<open>Units: \<open>pkg/units/converter.go\<close>\<close>

text \<open>\<open>ConverterFromUnit(u).Name()\<close>; a converter is told from others by its name.\<close>

definition ConverterFromUnit :: "string \<Rightarrow> string" where
  "ConverterFromUnit u =
     (if u \<in> set [''ns'', ''us'', [CHR 0xB5, CHR ''s''], ''ms'', ''s'', ''m'', ''h'', ''d'', ''min'', ''w'', ''wk'']
      then ''duration''
      else if u \<in> set [''bytes'', ''decbytes'', ''bits'', ''bit'', ''decbits'', ''kbytes'', ''decKbytes'', ''deckbytes'', ''mbytes'',
          ''decMbytes'', ''decmbytes'', ''gbytes'', ''decGbytes'', ''decgbytes'', ''tbytes'', ''decTbytes'', ''dectbytes'',
          ''pbytes'', ''decPbytes'', ''decpbytes'', ''By'', ''kBy'', ''MBy'', ''GBy'', ''TBy'', ''PBy'', ''EBy'', ''ZBy'',
          ''YBy'', ''KiBy'', ''MiBy'', ''GiBy'', ''TiBy'', ''PiBy'', ''EiBy'', ''ZiBy'', ''YiBy'', ''kbit'', ''Mbit'',
          ''Gbit'', ''Tbit'', ''Pbit'', ''Ebit'', ''Zbit'', ''Ybit'', ''Kibit'', ''Mibit'', ''Gibit'', ''Tibit'', ''Pibit'']
      then ''data''
      else if u \<in> set [''binBps'', ''Bps'', ''binbps'', ''bps'', ''KiBs'', ''Kibits'', ''KBs'', ''Kbits'', ''MiBs'', ''Mibits'', ''MBs'',
          ''Mbits'', ''GiBs'', ''Gibits'', ''GBs'', ''Gbits'', ''TiBs'', ''Tibits'', ''TBs'', ''Tbits'', ''PiBs'',
          ''Pibits'', ''PBs'', ''Pbits'', ''By/s'', ''kBy/s'', ''MBy/s'', ''GBy/s'', ''TBy/s'', ''PBy/s'', ''EBy/s'',
          ''ZBy/s'', ''YBy/s'', ''bit/s'', ''kbit/s'', ''Mbit/s'', ''Gbit/s'', ''Tbit/s'', ''Pbit/s'', ''Ebit/s'',
          ''Zbit/s'', ''Ybit/s'', ''KiBy/s'', ''MiBy/s'', ''GiBy/s'', ''TiBy/s'', ''PiBy/s'', ''EiBy/s'', ''ZiBy/s'',
          ''YiBy/s'', ''Kibit/s'', ''Mibit/s'', ''Gibit/s'', ''Tibit/s'', ''Pibit/s'', ''Eibit/s'', ''Zibit/s'',
          ''Yibit/s'']
      then ''data_rate''
      else if u \<in> set [''percent'', ''percentunit'', ''%'']
      then ''percent''
      else if u \<in> set [''bool'', ''bool_yes_no'', ''bool_true_false'', ''bool_1_0'']
      then ''bool''
      else if u \<in> set [''cps'', ''ops'', ''reqps'', ''rps'', ''wps'', ''iops'', ''cpm'', ''opm'', ''rpm'', ''wpm'', ''{count}/s'',
          ''{ops}/s'', ''{req}/s'', ''{read}/s'', ''{write}/s'', ''{iops}/s'', ''{count}/min'', ''{ops}/min'',
          ''{read}/min'', ''{write}/min'']
      then ''throughput''
      else ''none'')"

definition AreCompatible :: "string \<Rightarrow> string \<Rightarrow> bool" where
  "AreCompatible u w =
     (if u = '''' \<or> w = '''' then False
      else if u = w then True
      else ConverterFromUnit u \<noteq> ''none'' \<and> ConverterFromUnit w \<noteq> ''none'' \<and>
           ConverterFromUnit u = ConverterFromUnit w)"

text \<open>\<open>\s\<close> of a regular expression of Go, and \<open>countAggregationPattern\<close> at the head of a text.\<close>

definition re2_space :: "char \<Rightarrow> bool" where
  "re2_space c \<longleftrightarrow> c \<in> {CHR 0x09, CHR 0x0A, CHR 0x0C, CHR 0x0D, CHR '' ''}"

definition countAggregationPattern :: "string \<Rightarrow> bool" where
  "countAggregationPattern s =
     (let t = to_lower s; r = drop 5 t;
          r = (if starts_with ''_distinct'' r then drop 9 r else if starts_with ''if'' r then drop 2 r else r)
      in starts_with ''count'' t \<and> starts_with ''('' (dropWhile re2_space r))"

definition isSelectedLogCountQuery :: "rule_condition \<Rightarrow> bool" where
  "isSelectedLogCountQuery c =
     (case js_find (\<lambda>e. case e of
              Builder_Formula _ \<Rightarrow> False
            | Builder_Query s \<Rightarrow>
                sp_signal s = LOGS \<and> (rc_selectedQueryName c = '''' \<or> sp_name s = rc_selectedQueryName c) \<and>
                go_list (sp_aggregations s) \<noteq> []) (cq_queries (rc_compositeQuery c)) of
        Some (Builder_Query s) \<Rightarrow>
          (case hd (go_list (sp_aggregations s)) of
             Expression_Aggregation expression _ \<Rightarrow> countAggregationPattern (trim_space expression)
           | Metric_Aggregation _ \<Rightarrow> False)
      | _ \<Rightarrow> False)"

definition inferredRuleResultUnit :: "rule_condition \<Rightarrow> string" where
  "inferredRuleResultUnit c = (if isSelectedLogCountQuery c then ''{count}'' else '''')"

text \<open>
  \<open>normalizeRuleUnits\<close>: the result unit, the display unit and the units of the thresholds after it. The display
  unit of a composite query is its result unit when it has none (\<open>CompositeQuery.UnmarshalJSON\<close> as well).
\<close>

definition target_units :: "rule_check \<Rightarrow> string list" where
  "target_units c = (case c of Numeric_Check _ _ ts \<Rightarrow> map (\<lambda>t. go_text (rt_targetUnit t)) ts | Boolean_Check _ _ _ \<Rightarrow> [])"

definition normalizeRuleUnits :: "rule_condition \<Rightarrow> string \<times> string \<times> string list" where
  "normalizeRuleUnits c =
     (let result = go_text (cq_resultUnit (rc_compositeQuery c));
          shown = go_text (cq_displayUnit (rc_compositeQuery c));
          shown = (if shown = '''' then result else shown);
          inferred = inferredRuleResultUnit c;
          (result, shown) = (if inferred \<noteq> '''' \<and> result = '''' then (inferred, inferred) else (result, shown));
          targets = target_units (rc_check c)
      in (result, shown,
          if result \<noteq> '''' \<and> \<not> AreCompatible result shown then targets
          else map (\<lambda>u. if u = '''' \<and> result \<noteq> '''' then result else u) targets))"

text \<open>The checks of units in \<open>validate\<close>.\<close>

definition units_valid :: "rule_condition \<Rightarrow> bool" where
  "units_valid c =
     (let (result, shown, targets) = normalizeRuleUnits c; inferred = inferredRuleResultUnit c in
      \<not> (result = '''' \<and> shown \<noteq> '''') \<and>
      \<not> (inferred \<noteq> '''' \<and> result \<noteq> inferred) \<and>
      \<not> (result \<noteq> '''' \<and> shown \<noteq> '''' \<and> \<not> AreCompatible result shown) \<and>
      list_all (\<lambda>u. \<not> (result = '''' \<and> u \<noteq> '''') \<and> \<not> (result \<noteq> '''' \<and> u \<noteq> '''' \<and> \<not> AreCompatible result u)) targets)"

subsection \<open>The parts of a rule\<close>

text \<open>A number of JSON as Go's \<open>int\<close>.\<close>

definition go_int :: "js_num \<Rightarrow> int option" where
  "go_int x =
     (case x of
        Infinite _ \<Rightarrow> None
      | Dec m e \<Rightarrow>
          (let v = (if 0 \<le> e then m * 10 ^ nat e else m div 10 ^ nat (- e))
           in if is_integer x \<and> - (2 ^ 63) \<le> v \<and> v < 2 ^ 63 then Some v else None))"

definition DataQualityPolicy_valid :: "rule_data_quality \<Rightarrow> bool" where
  "DataQualityPolicy_valid q =
     (case (go_int (rd_minPoints q), case rd_noDataFor q of None \<Rightarrow> Some 0 | Some s \<Rightarrow> parse_duration s) of
        (Some minPoints, Some noDataFor) \<Rightarrow>
          \<not> minPoints < 0 \<and> \<not> (rd_alertOnNoData q \<and> \<not> 0 < noDataFor) \<and> \<not> (\<not> rd_alertOnNoData q \<and> 0 < noDataFor)
      | _ \<Rightarrow> False)"

text \<open>\<open>NumericThresholdCondition.Validate\<close>: the severities seen so far are the first argument.\<close>

fun thresholds_valid :: "string list \<Rightarrow> rule_threshold list \<Rightarrow> bool" where
  "thresholds_valid seen [] = True"
| "thresholds_valid seen (t # ts) =
     (let severity = to_lower (trim_space (rt_severity t)) in
      severity \<noteq> '''' \<and> severity \<notin> set seen \<and> is_finite (rt_target t) \<and> thresholds_valid (severity # seen) ts)"

definition check_valid :: "rule_check \<Rightarrow> bool" where
  "check_valid c =
     (case c of
        Numeric_Check _ _ ts \<Rightarrow> ts \<noteq> [] \<and> length ts \<le> 3 \<and> thresholds_valid [] ts
      | Boolean_Check _ severity _ \<Rightarrow> trim_space severity \<noteq> '''')"

definition RuleCondition_valid :: "rule_condition \<Rightarrow> bool" where
  "RuleCondition_valid c =
     (cq_queries (rc_compositeQuery c) \<noteq> [] \<and> trim_space (rc_selectedQueryName c) \<noteq> '''' \<and>
      DataQualityPolicy_valid (rc_dataQuality c) \<and> check_valid (rc_check c))"

text \<open>\<open>RollingWindow.Validate\<close> and \<open>CumulativeWindow.Validate\<close>; the period is in nanoseconds.\<close>

definition period_duration :: "cumulative_period \<Rightarrow> int" where
  "period_duration p =
     (case p of One_Hour \<Rightarrow> 3600 * 10 ^ 9 | One_Day \<Rightarrow> 24 * 3600 * 10 ^ 9 | Seven_Days \<Rightarrow> 7 * 24 * 3600 * 10 ^ 9)"

definition evaluation_valid :: "(string \<Rightarrow> bool) \<Rightarrow> alert_evaluation \<Rightarrow> bool" where
  "evaluation_valid zone ev =
     (case ev of
        Rolling window freq \<Rightarrow>
          (case (parse_duration window, parse_duration freq) of
             (Some w, Some f) \<Rightarrow> 0 < w \<and> 0 < f \<and> \<not> w < f
           | _ \<Rightarrow> False)
      | Cumulative p freq tz \<Rightarrow>
          (case parse_duration freq of
             Some f \<Rightarrow> tz \<noteq> '''' \<and> zone tz \<and> 0 < f \<and> \<not> period_duration p < f
           | None \<Rightarrow> False))"

definition IsDisabled :: "query_envelope \<Rightarrow> bool" where
  "IsDisabled e = (case e of Builder_Query s \<Rightarrow> bs_disabled (sp_base s) | Builder_Formula f \<Rightarrow> fs_disabled f)"

definition isAllQueriesDisabled :: "query_envelope list \<Rightarrow> bool" where
  "isAllQueriesDisabled es = (es \<noteq> [] \<and> list_all IsDisabled es)"

definition isValidLabelName :: "string \<Rightarrow> bool" where
  "isValidLabelName ln = (ln \<noteq> [] \<and> list_all label_char ln \<and> \<not> is_digit (hd ln))"

text \<open>A label that is \<open>undefined\<close> is not sent.\<close>

definition label_valid :: "string \<times> string option \<Rightarrow> bool" where
  "label_valid l =
     (case snd l of
        None \<Rightarrow> True
      | Some v \<Rightarrow> isValidLabelName (fst l) \<and> \<not> str_includes ''{{'' v \<and> \<not> str_includes ''}}'' v)"

subsection \<open>The message template: \<open>notification_template.go\<close>\<close>

text \<open>\<open>strings.Index\<close>.\<close>

fun str_index :: "string \<Rightarrow> string \<Rightarrow> nat option" where
  "str_index p [] = (if p = [] then Some 0 else None)"
| "str_index p (c # s) = (if starts_with p (c # s) then Some 0 else map_option Suc (str_index p s))"

text \<open>
  \<open>ValidateNotificationMessageTemplate\<close>; one unit of fuel per round of the loop, of which there are no more than
  characters. \<open>isSupportedNotificationTemplateToken\<close> is \<open>known_placeholder\<close> of the editor.
\<close>

fun template_rounds :: "nat \<Rightarrow> string \<Rightarrow> bool" where
  "template_rounds 0 remaining = (remaining = [])"
| "template_rounds (Suc n) remaining =
     (if remaining = [] then True
      else
        (case (str_index ''{{'' remaining, str_index ''}}'' remaining) of
           (None, None) \<Rightarrow> True
         | (None, Some _) \<Rightarrow> False
         | (Some left, right) \<Rightarrow>
             if (case right of Some r \<Rightarrow> r < left | None \<Rightarrow> False) then False
             else
               let remaining = drop (left + 2) remaining in
               (case str_index ''}}'' remaining of
                  None \<Rightarrow> False
                | Some right \<Rightarrow>
                    let token = trim_space (take right remaining) in
                    if CHR ''{'' \<in> set token \<or> CHR ''}'' \<in> set token \<or> \<not> known_placeholder token then False
                    else template_rounds n (drop (right + 2) remaining))))"

definition ValidateNotificationMessageTemplate :: "string \<Rightarrow> bool" where
  "ValidateNotificationMessageTemplate template =
     (trim_space template \<noteq> '''' \<and> template_rounds (length template) template)"

subsection \<open>The rule\<close>

text \<open>
  \<open>PostableRule.UnmarshalJSON\<close>: no retired field (of those the record has, the description), and the parts are checked
  as they are decoded, then the whole rule.
\<close>

definition accepts_rule :: "(string \<Rightarrow> bool) \<Rightarrow> alert_rule \<Rightarrow> bool" where
  "accepts_rule zone r =
     (ar_description r = None \<and> ar_schemaVersion r = ''v3alpha1'' \<and>
      RuleCondition_valid (ar_condition r) \<and> evaluation_valid zone (ar_evaluation r) \<and>
      ar_version r = ''v5'' \<and>
      \<not> isAllQueriesDisabled (cq_queries (rc_compositeQuery (ar_condition r))) \<and>
      units_valid (ar_condition r) \<and>
      list_all label_valid (ar_labels r) \<and>
      (case ar_notificationSettings r of
         None \<Rightarrow> True
       | Some ns \<Rightarrow>
           go_text (ns_messageTemplate ns) = '''' \<or> ValidateNotificationMessageTemplate (go_text (ns_messageTemplate ns))))"

subsection \<open>What the editor leaves open\<close>

text \<open>
  The units as the backend asks for them: a selected query that counts logs has the result unit
  \<open>{count}\<close>, and a display unit or the unit of a threshold needs a result unit that it is compatible with.
\<close>

definition units_agree :: "alert_draft \<Rightarrow> editor_query \<Rightarrow> bool" where
  "units_agree d q =
     (let counts = isSelectedLogCountQuery (serializeCondition d q);
          given = go_text (eq_resultUnit q); shown = go_text (coalesce (eq_displayUnit q) (eq_resultUnit q));
          result = (if counts \<and> given = '''' then ''{count}'' else given);
          targets = (case ad_condition d of
              Numeric_Draft _ _ _ ts \<Rightarrow> map (\<lambda>t. go_text (td_targetUnit t)) ts | Boolean_Draft _ _ _ \<Rightarrow> [])
      in (counts \<longrightarrow> result = ''{count}'') \<and>
         (shown = '''' \<or> counts \<and> given = '''' \<or> AreCompatible given shown) \<and>
         (\<forall>u\<in>set targets. u = '''' \<or> AreCompatible result u))"

definition left_to_backend :: "(string \<Rightarrow> bool) \<Rightarrow> alert_draft \<Rightarrow> editor_query \<Rightarrow> bool" where
  "left_to_backend zone d q =
     (trim_space (condition_name (ad_condition d)) \<noteq> '''' \<and>
      (\<exists>e\<in>set (cq_queries (serializeCompositeQuery q)). \<not> IsDisabled e) \<and>
      go_int (dd_minPoints (ad_dataQuality d)) \<noteq> None \<and>
      (dd_alertOnNoData (ad_dataQuality d) \<longrightarrow> parse_duration (dd_noDataFor (ad_dataQuality d)) \<noteq> None) \<and>
      parse_duration (frequency (ad_evaluation d)) \<noteq> None \<and>
      (case ad_evaluation d of
         Rolling window _ \<Rightarrow> parse_duration window \<noteq> None
       | Cumulative _ _ tz \<Rightarrow> zone tz) \<and>
      (case ad_condition d of
         Numeric_Draft _ _ _ ts \<Rightarrow>
           (let severities = map (\<lambda>t. to_lower (trim_space (td_severity t))) ts
            in distinct severities \<and> '''' \<notin> set severities)
       | Boolean_Draft _ _ severity \<Rightarrow> trim_space severity \<noteq> '''') \<and>
      units_agree d q \<and>
      (\<forall>l\<in>set (ad_labels d). label_valid l) \<and>
      ValidateNotificationMessageTemplate (ad_messageTemplate d))"

text \<open>A duration that the editor has accepted has the same length for Go, if Go reads it at all.\<close>

lemma js_double_small: "\<bar>n\<bar> < 2 ^ 53 \<Longrightarrow> js_double n = n"
proof -
  assume "\<bar>n\<bar> < 2 ^ 53"
  then have "bit_length (nat \<bar>n\<bar>) - 53 = 0" using bit_length_le [of "nat \<bar>n\<bar>" 53] by (simp add: nat_less_iff)
  then show ?thesis by (cases "n = 0"; cases "0 < n") (simp_all add: js_double_def round_even_def)
qed

lemma trim_parts:
  obtains a b where "s = a @ js_trim s @ b" "\<forall>c\<in>set (a @ b). js_ws c"
proof -
  let ?t = "dropWhile js_ws s" and ?a = "takeWhile js_ws s"
  let ?b = "rev (takeWhile js_ws (rev ?t))"
  have "?t = js_trim s @ ?b" by (simp add: js_trim_def flip: rev_append)
  moreover have "\<forall>c\<in>set (?a @ ?b). js_ws c" by (auto dest: set_takeWhileD)
  ultimately show thesis using that [of ?a ?b] by (metis takeWhile_dropWhile_id)
qed

lemma duration_parts:
  assumes "durationInSeconds s = Some n"
  obtains ds u secs where "js_trim s = ds @ [u]" "ds \<noteq> []" "\<forall>c\<in>set ds. is_digit c" "unit_seconds u = Some secs"
    "n = js_double (js_double (int (digits_value ds)) * secs)"
proof -
  let ?t = "js_trim s"
  let ?ds = "takeWhile is_digit ?t"
  have t: "?t \<noteq> []" "?ds \<noteq> []" "length ?t = Suc (length ?ds)"
    and n: "map_option (\<lambda>u. js_double (js_double (int (digits_value (take (length ?ds) ?t))) * u)) (unit_seconds (last ?t)) = Some n"
    using assms by (auto simp: durationInSeconds_def Let_def split: if_splits)
  have "length (?ds @ dropWhile is_digit ?t) = Suc (length ?ds)" using t(3) by (simp only: takeWhile_dropWhile_id)
  then have "length (dropWhile is_digit ?t) = Suc 0" by (simp only: length_append)
  then obtain u where u: "dropWhile is_digit ?t = [u]" by (metis length_0_conv length_Suc_conv)
  have split: "?t = ?ds @ [u]" using takeWhile_dropWhile_id [of is_digit ?t] by (simp only: u)
  then have "last ?t = u" "take (length ?ds) ?t = ?ds" by (metis last_snoc, metis append_eq_conv_conj)
  with n obtain secs where "unit_seconds u = Some secs" "n = js_double (js_double (int (digits_value ?ds)) * secs)" by auto
  moreover have "\<forall>c\<in>set ?ds. is_digit c" by (auto dest: set_takeWhileD)
  ultimately show thesis using that [of ?ds u secs] t(2) split by blast
qed

lemma unit_seconds_cases: "unit_seconds u = Some secs \<Longrightarrow> (u, secs) \<in> {(CHR ''s'', 1), (CHR ''m'', 60), (CHR ''h'', 3600)}"
  by (auto simp: unit_seconds_def split: if_splits)

lemma js_ws_not_number: "js_ws c \<Longrightarrow> \<not> is_digit c \<and> c \<noteq> CHR ''.'' \<and> c \<noteq> CHR ''-'' \<and> c \<noteq> CHR ''+'' \<and> c \<noteq> CHR ''s''"
  by (auto simp: js_ws_def is_digit_def)

lemma parse_padded: "a \<noteq> [] \<Longrightarrow> \<forall>c\<in>set a. js_ws c \<Longrightarrow> parse_duration (a @ t) = None"
proof (cases a)
  case (Cons c cs)
  assume "\<forall>c\<in>set a. js_ws c"
  with Cons have c: "\<not> is_digit c" "c \<noteq> CHR ''.''" "c \<noteq> CHR ''-''" "c \<noteq> CHR ''+''" by (auto dest: js_ws_not_number)
  then have "parse_units 0 (c # cs @ t) = None" by (subst parse_units.simps) (simp add: fraction_digits_def)
  moreover have "c \<noteq> CHR ''0''" using c(1) by (auto simp: is_digit_def)
  ultimately show ?thesis using Cons c by (simp add: parse_duration_def)
qed simp

lemma parse_plain:
  assumes "ds \<noteq> []" "\<forall>c\<in>set ds. is_digit c" "unit_seconds u = Some secs" "\<forall>c\<in>set b. js_ws c"
  shows "parse_duration (ds @ u # b) =
    (if b = [] \<and> int (digits_value ds) * secs * 10 ^ 9 < 2 ^ 63 then Some (int (digits_value ds) * secs * 10 ^ 9) else None)"
proof -
  have u: "(u, secs) \<in> {(CHR ''s'', 1), (CHR ''m'', 60), (CHR ''h'', 3600)}" by (rule unit_seconds_cases [OF assms(3)])
  then have c: "\<not> is_digit u" "unit_char u" "u \<noteq> CHR ''.''" by (auto simp: is_digit_def unit_char_def)
  have b: "takeWhile unit_char b = b" "dropWhile unit_char b = []"
    using assms(4) by (auto simp: unit_char_def dest: js_ws_not_number)
  have digits: "takeWhile is_digit (ds @ u # b) = ds" "dropWhile is_digit (ds @ u # b) = u # b"
    using assms(2) c(1) by (simp_all add: takeWhile_append2 dropWhile_append2)
  define m where "m = secs * 10 ^ 9"
  have unit: "duration_unit (u # b) = (if b = [] then Some m else None)"
  proof (cases b)
    case (Cons x xs)
    then have "x \<noteq> CHR ''s''" using assms(4) js_ws_not_number [of x] by auto
    with Cons show ?thesis by (auto simp: duration_unit_def)
  qed (use u in \<open>auto simp: duration_unit_def m_def\<close>)
  have parts: "fraction_digits (u # b) = []" "after_fraction (u # b) = u # b" "takeWhile unit_char (u # b) = u # b"
    "dropWhile unit_char (u # b) = []"
    using c b by (simp_all add: fraction_digits_def after_fraction_def)
  have zero: "digits_value [] = 0" "parse_units d [] = Some d" for d by (simp_all add: digits_value_def parse_units.simps)
  define v where "v = int (digits_value ds) * m"
  have pos: "0 \<le> v" using u by (auto simp: v_def m_def)
  have wrap: "v mod 2 ^ 64 = v" if "v \<le> 2 ^ 63" using that pos by (intro mod_pos_pos_trivial) auto
  have "parse_units 0 (ds @ u # b) = (if b = [] \<and> v \<le> 2 ^ 63 then Some v else None)"
    by (subst parse_units.simps, unfold Let_def digits parts unit zero)
      (use assms(1) wrap in \<open>simp add: zero v_def [symmetric]\<close>)
  moreover have "hd ds \<notin> set ''-+''" "ds @ u # b \<noteq> ''0''"
    using assms(1,2) c(1) by (cases ds; force simp: is_digit_def)+
  ultimately have "parse_duration (ds @ u # b) = (if b = [] \<and> v < 2 ^ 63 then Some v else None)"
    using assms(1) by (auto simp: parse_duration_def Let_def hd_append)
  then show ?thesis by (simp only: v_def m_def mult.assoc)
qed

lemma same_duration:
  assumes "durationInSeconds s = Some n" "parse_duration s = Some d"
  shows "d = n * 10 ^ 9 \<and> (0 < n \<longleftrightarrow> n \<noteq> 0)"
proof -
  obtain ds u secs where p: "js_trim s = ds @ [u]" "ds \<noteq> []" "\<forall>c\<in>set ds. is_digit c" "unit_seconds u = Some secs"
    and n: "n = js_double (js_double (int (digits_value ds)) * secs)" using duration_parts [OF assms(1)] .
  obtain a b where s: "s = a @ js_trim s @ b" and ab: "\<forall>c\<in>set (a @ b). js_ws c" using trim_parts .
  have a: "a = []" using assms(2) s ab parse_padded [of a "js_trim s @ b"] by fastforce
  then have "parse_duration (ds @ u # b) = Some d" using s assms(2) by (simp add: p(1))
  with parse_plain [OF p(2-4), of b] ab
  have d: "d = int (digits_value ds) * secs * 10 ^ 9" "d < 2 ^ 63" by (auto split: if_splits)
  have "secs \<in> {1, 60, 3600}" using unit_seconds_cases [OF p(4)] by auto
  then have "int (digits_value ds) < 2 ^ 53" "int (digits_value ds) * secs < 2 ^ 53" using d by auto
  then have "n = int (digits_value ds) * secs" using \<open>secs \<in> _\<close> by (auto simp: n js_double_small)
  with d \<open>secs \<in> _\<close> show ?thesis by auto
qed

text \<open>Each part: what the editor has checked leaves only the conditions above.\<close>

lemma data_quality_left:
  assumes "validateDataQuality d = None"
  shows "DataQualityPolicy_valid (rc_dataQuality (serializeCondition d q)) \<longleftrightarrow>
    go_int (dd_minPoints (ad_dataQuality d)) \<noteq> None \<and>
    (dd_alertOnNoData (ad_dataQuality d) \<longrightarrow> parse_duration (dd_noDataFor (ad_dataQuality d)) \<noteq> None)"
proof -
  let ?dq = "ad_dataQuality d"
  have points: "0 \<le> n" if "go_int (dd_minPoints ?dq) = Some n" for n
  proof (cases "dd_minPoints ?dq")
    case (Dec m e)
    with assms have "0 \<le> m" by (auto simp: validateDataQuality_def Let_def is_negative_def split: if_splits)
    with that Dec show ?thesis by (auto simp: go_int_def Let_def pos_imp_zdiv_nonneg_iff split: if_splits)
  qed (use that in \<open>simp add: go_int_def\<close>)
  have duration: "0 < t" if on: "dd_alertOnNoData ?dq" and t: "parse_duration (dd_noDataFor ?dq) = Some t" for t
  proof -
    obtain n where n: "durationInSeconds (dd_noDataFor ?dq) = Some n" "n \<noteq> 0"
      using assms on by (auto simp: validateDataQuality_def Let_def truthy_num_def split: if_splits option.splits)
    with same_duration [OF n(1) t] show ?thesis by simp
  qed
  show ?thesis
    using points duration
    by (fastforce simp: DataQualityPolicy_valid_def serializeCondition_def Let_def split: option.splits)
qed

lemma evaluation_left:
  assumes "validateEvaluation d = None"
  shows "evaluation_valid zone (ad_evaluation d) \<longleftrightarrow>
    parse_duration (frequency (ad_evaluation d)) \<noteq> None \<and>
    (case ad_evaluation d of
       Rolling window _ \<Rightarrow> parse_duration window \<noteq> None
     | Cumulative _ _ tz \<Rightarrow> zone tz)"
proof -
  obtain n where n: "durationInSeconds (frequency (ad_evaluation d)) = Some n" "n \<noteq> 0"
    using assms by (auto simp: validateEvaluation_def Let_def truthy_num_def split: if_splits option.splits)
  have freq: "f = n * 10 ^ 9 \<and> 0 < n" if "parse_duration (frequency (ad_evaluation d)) = Some f" for f
    using same_duration [OF n(1) that] n(2) by simp
  show ?thesis
  proof (cases "ad_evaluation d")
    case (Rolling window fr)
    then obtain w where w: "durationInSeconds window = Some w" "w \<noteq> 0" "n \<le> w"
      using assms n by (auto simp: validateEvaluation_def Let_def truthy_num_def num_or_def split: if_splits option.splits)
    have "t = w * 10 ^ 9 \<and> 0 < w" if "parse_duration window = Some t" for t
      using same_duration [OF w(1) that] w(2) by simp
    with Rolling freq w(3) show ?thesis
      by (cases "parse_duration window"; cases "parse_duration fr") (auto simp: evaluation_valid_def)
  next
    case (Cumulative p fr tz)
    then have p: "n \<le> period_seconds p" "js_trim tz \<noteq> ''''"
      using assms n by (auto simp: validateEvaluation_def Let_def truthy_num_def num_or_def split: if_splits)
    then have "tz \<noteq> ''''" by auto
    moreover have "period_duration p = period_seconds p * 10 ^ 9"
      by (cases p) (simp_all add: period_duration_def period_seconds_def)
    ultimately show ?thesis
      using Cumulative freq p(1) by (cases "parse_duration fr") (auto simp: evaluation_valid_def)
  qed
qed

lemma thresholds_left:
  "thresholds_valid seen (map (rule_threshold_of cs) ts) \<longleftrightarrow>
     (let severities = map (\<lambda>t. to_lower (trim_space (td_severity t))) ts
      in distinct severities \<and> '''' \<notin> set severities \<and> set seen \<inter> set severities = {}) \<and>
     (\<forall>t\<in>set ts. is_finite (td_target t))"
  by (induction ts arbitrary: seen) (auto simp: rule_threshold_of_def Let_def)

lemma check_left:
  assumes "validateCondition d = None"
  shows "check_valid (rc_check (serializeCondition d q)) \<longleftrightarrow>
    (case ad_condition d of
       Numeric_Draft _ _ _ ts \<Rightarrow>
         (let severities = map (\<lambda>t. to_lower (trim_space (td_severity t))) ts
          in distinct severities \<and> '''' \<notin> set severities)
     | Boolean_Draft _ _ severity \<Rightarrow> trim_space severity \<noteq> '''')"
  using assms
  by (cases "ad_condition d")
    (auto simp: check_valid_def serializeCondition_def validateCondition_def thresholds_left threshold_valid Let_def
      split: if_splits)

lemma compatible_refl [simp]: "AreCompatible u u \<longleftrightarrow> u \<noteq> ''''"
  by (simp add: AreCompatible_def)

lemma compatible_nonempty: "AreCompatible u w \<Longrightarrow> u \<noteq> '''' \<and> w \<noteq> ''''"
  by (auto simp: AreCompatible_def split: if_splits)

lemma target_units_sent:
  "target_units (rc_check (serializeCondition d q)) =
    (case ad_condition d of
       Numeric_Draft _ _ _ ts \<Rightarrow> map (\<lambda>t. go_text (td_targetUnit t)) ts | Boolean_Draft _ _ _ \<Rightarrow> [])"
  by (auto simp: target_units_def serializeCondition_def Let_def rule_threshold_of_def go_text_def truthy_str_def
      split: condition_draft.split option.split)

lemma units_left: "units_valid (serializeCondition d q) \<longleftrightarrow> units_agree d q"
proof -
  let ?c = "serializeCondition d q"
  have units: "cq_resultUnit (rc_compositeQuery ?c) = eq_resultUnit q"
    "cq_displayUnit (rc_compositeQuery ?c) = coalesce (eq_displayUnit q) (eq_resultUnit q)"
    by (auto simp: serializeCondition_def serializeCompositeQuery_def compositeQueryToQueryEnvelope_def Let_def coalesce_def
        split: option.split)
  obtain targets where targets: "(case ad_condition d of
      Numeric_Draft _ _ _ ts \<Rightarrow> map (\<lambda>t. go_text (td_targetUnit t)) ts | Boolean_Draft _ _ _ \<Rightarrow> []) = targets" by blast
  show ?thesis
    unfolding units_valid_def units_agree_def normalizeRuleUnits_def inferredRuleResultUnit_def target_units_sent units
      targets Let_def
    by (cases "isSelectedLogCountQuery ?c"; cases "go_text (eq_resultUnit q) = ''''";
        cases "go_text (coalesce (eq_displayUnit q) (eq_resultUnit q)) = ''''")
      (auto simp: list_all_iff dest: compatible_nonempty)
qed

lemma selected_sent:
  assumes "validateBasicAlertDraft d q = None"
  shows "cq_queries (serializeCompositeQuery q) \<noteq> []"
proof -
  have "validateQueryShape q = None" "condition_name (ad_condition d) \<in> set (queryNames q)"
    using assms by (simp_all add: validate_ok)
  then have "condition_name (ad_condition d) \<in> set (envelope_names (cq_queries (serializeCompositeQuery q))) \<union>
      set (formula_names (cq_queries (serializeCompositeQuery q)))"
    using serialized_names [OF query_shape_formulas] by (auto simp: queryNames_def)
  then show ?thesis by (auto simp: envelope_names_def formula_names_def)
qed

text \<open>
  C11. A draft is only sent as a rule that passes the editor's checks; and the backend accepts the rule that is sent
  exactly when the draft meets the conditions that the editor leaves to it, provided that its queries can be decoded, which is not
  modelled: severities that are not blank and different but for case, a query that is not disabled, compatible units, label
  names and values, numbers and durations that Go reads, a known time zone, and a template that passes the backend's own check.
\<close>

theorem sent_rule_accepted:
  assumes "serializeBasicAlertDraft d q source = Inr rule"
  shows "rule_ok rule \<and> (accepts_rule zone rule \<longleftrightarrow> left_to_backend zone d q)"
proof -
  have v: "validateBasicAlertDraft d q = None" using assms by (simp add: serialize_ok)
  then have parts: "validateDataQuality d = None" "validateEvaluation d = None" "validateCondition d = None"
    and template: "ad_messageTemplate d \<noteq> ''''" by (auto simp: validate_ok dest: template_not_empty)
  have rule: "ar_condition rule = serializeCondition d q" "ar_evaluation rule = ad_evaluation d"
    "ar_description rule = None" "ar_labels rule = ad_labels d" "ar_schemaVersion rule = ''v3alpha1''" "ar_version rule = ''v5''"
    "ar_notificationSettings rule =
      Some \<lparr>ns_groupBy = Some (ad_groupBy d), ns_messageTemplate = Some (ad_messageTemplate d)\<rparr>"
    "rc_compositeQuery (serializeCondition d q) = serializeCompositeQuery q"
    "rc_selectedQueryName (serializeCondition d q) = condition_name (ad_condition d)"
    using assms by (simp_all add: serialize_ok serializeCondition_def Let_def CURRENT_BASIC_ALERT_SCHEMA_VERSION_def)
  have "accepts_rule zone rule \<longleftrightarrow> left_to_backend zone d q"
    unfolding accepts_rule_def RuleCondition_valid_def left_to_backend_def rule data_quality_left [OF parts(1)]
      evaluation_left [OF parts(2)] check_left [OF parts(3)] units_left isAllQueriesDisabled_def
    using selected_sent [OF v] template by (auto simp: go_text_def list_all_iff)
  with sent_rule_ok [OF assms] show ?thesis by blast
qed

subsection \<open>Drafts that the editor sends and the backend refuses\<close>

definition sent_and :: "(alert_rule \<Rightarrow> bool) \<Rightarrow> alert_draft \<Rightarrow> editor_query \<Rightarrow> bool" where
  "sent_and P d q = (case serializeBasicAlertDraft d q None of Inl _ \<Rightarrow> False | Inr rule \<Rightarrow> P rule)"

theorem sent_rule_accepted_witness:
  "sent_and (\<lambda>rule. rule_ok rule \<and> accepts_rule (\<lambda>_. True) rule) sample_draft sample_editor_query"
proof -
  obtain rule where r: "serializeBasicAlertDraft sample_draft sample_editor_query None = Inr rule"
    by (simp add: serializeBasicAlertDraft_def sample_draft_valid)
  have "left_to_backend (\<lambda>_. True) sample_draft sample_editor_query" by code_simp
  with sent_rule_accepted [OF r] r show ?thesis by (simp add: sent_and_def)
qed

text \<open>Two thresholds of one severity; queries that are all disabled; a severity of blanks.\<close>

definition two_critical :: alert_draft where
  "two_critical = sample_draft\<lparr>ad_condition := Numeric_Draft ''A'' R_total O_gt
     (map (\<lambda>n. \<lparr>td_severity = ''critical'', td_target = Some (Dec n 0), td_targetUnit = None, td_recoveryTarget = None\<rparr>) [5, 9])\<rparr>"

lemma duplicate_severity_sent:
  "sent_and (\<lambda>rule. \<not> accepts_rule (\<lambda>_. True) rule) two_critical sample_editor_query"
  by code_simp

definition disabled_queries :: editor_query where
  "disabled_queries = sample_editor_query
     \<lparr>eq_queryData := map (\<lambda>q. q\<lparr>bq_disabled := True\<rparr>) (eq_queryData sample_editor_query), eq_queryFormulas := []\<rparr>"

lemma disabled_queries_sent:
  "sent_and (\<lambda>rule. \<not> accepts_rule (\<lambda>_. True) rule) sample_draft disabled_queries"
  by code_simp

lemma blank_severity_sent:
  "sent_and (\<lambda>rule. \<not> accepts_rule (\<lambda>_. True) rule)
     (sample_draft\<lparr>ad_condition := Boolean_Draft ''A'' B_last '' ''\<rparr>) sample_editor_query"
  by code_simp

text \<open>The editor trims a duration to check it and sends it untrimmed.\<close>

lemma padded_duration_sent:
  "sent_and (\<lambda>rule. \<not> accepts_rule (\<lambda>_. True) rule)
     (sample_draft\<lparr>ad_evaluation := Rolling ''5m '' ''1m''\<rparr>) sample_editor_query"
  by code_simp

text \<open>A threshold in a unit that the result of the query does not have.\<close>

definition latency_draft :: "string \<Rightarrow> alert_draft" where
  "latency_draft target = sample_draft\<lparr>ad_condition := Numeric_Draft ''A'' R_average O_gt
     [\<lparr>td_severity = ''warning'', td_target = Some (Dec 5 0), td_targetUnit = Some target, td_recoveryTarget = None\<rparr>]\<rparr>"

definition latency_query :: editor_query where
  "latency_query = sample_editor_query
     \<lparr>eq_queryData := map (\<lambda>q. q\<lparr>bq_dataSource := TRACES\<rparr>) (eq_queryData sample_editor_query), eq_resultUnit := Some ''ms''\<rparr>"

lemma foreign_unit_sent:
  "sent_and (\<lambda>rule. \<not> accepts_rule (\<lambda>_. True) rule) (latency_draft ''bytes'') latency_query"
  "sent_and (accepts_rule (\<lambda>_. True)) (latency_draft ''s'') latency_query"
  by code_simp+

text \<open>A brace in front of a placeholder is plain text for the editor, and part of the placeholder for the backend.\<close>

lemma brace_before_placeholder_sent:
  "sent_and (\<lambda>rule. \<not> accepts_rule (\<lambda>_. True) rule)
     (sample_draft\<lparr>ad_messageTemplate := ''{{{severity}}''\<rparr>) sample_editor_query"
  by code_simp

end
