(* ===== verification/Key_Removal.thy ===== *)
theory Key_Removal
  imports Lite_Roundtrip Filter_Expression
begin

section \<open>Removing a key from a printed filter\<close>

text \<open>
  \<open>removeKeysFromExpression\<close> of \<open>Filter_Expression\<close> on the texts that the lite editor prints: which clause goes
  with a key, and that everything else stays as it was. The pairs of a printed text are those of its items, as
  \<open>Lite_Roundtrip\<close> shows; here they are located in the text, so that what the code cuts out is known.
\<close>

definition separator :: "bool \<Rightarrow> string" where
  "separator alt = '' '' @ join_word alt @ '' ''"

definition printed :: "bool \<Rightarrow> tag_filter_item list \<Rightarrow> string" where
  "printed alt fs = js_join (separator alt) (map print_item fs)"

lemma printed_simps [simp]:
  "printed alt [] = ''''" "printed alt [f] = print_item f"
  "printed alt (f # g # fs) = print_item f @ separator alt @ printed alt (g # fs)"
  by (simp_all add: printed_def)


subsection \<open>Where the tokens of an item are\<close>




subsection \<open>The pairs of a printed text\<close>










subsection \<open>Conjunctions around an item\<close>


lemma seg_start_not_ws: "seg_start c \<Longrightarrow> \<not> js_ws c"
  by (auto simp: seg_start_def is_alpha_def js_ws_def)














lemma conjunction_prefix_Nil [simp]: "conjunction_prefix '''' = 0"
  by (simp add: conjunction_prefix_def conj_word_def to_lower_def Let_def)




subsection \<open>The removal\<close>

text \<open>The item a key takes away: the last one it names, unless that one has no value.\<close>

definition named :: "string \<Rightarrow> tag_filter_item \<Rightarrow> bool" where
  "named k f \<longleftrightarrow> lower_trim (item_key f) = lower_trim k"

fun without_last :: "string \<Rightarrow> tag_filter_item list \<Rightarrow> tag_filter_item list" where
  "without_last k [] = []"
| "without_last k (f # fs) =
     (if list_ex (named k) fs then f # without_last k fs
      else if named k f \<and> \<not> isNoValueLiteFilter (tf_op f) then fs
      else f # fs)"









definition without_keys :: "string list \<Rightarrow> tag_filter_item list \<Rightarrow> tag_filter_item list" where
  "without_keys ks fs = foldl (\<lambda>gs k. without_last k gs) fs ks"

lemma without_keys_simps [simp]:
  "without_keys [] fs = fs" "without_keys (k # ks) fs = without_keys ks (without_last k fs)"
  by (simp_all add: without_keys_def)









text \<open>
  What the property leaves out. Two keys that take away the last two items leave a conjunction behind, since the text
  is cleaned up once, after the last key; and of two clauses with the same key only the last goes, where the comment
  in the code speaks of all pairs that match.
\<close>

theorem conjunction_left_over:
  "removeKeysFromExpression ''a = 1 AND b = 2'' [''b'', ''a''] False = ''AND''"
  by code_simp

theorem repeated_key_stays:
  "removeKeysFromExpression ''a = 1 AND a = 2'' [''a''] False = ''a = 1''"
  by code_simp

end
